(* ===== verification/Go_Prelude.thy ===== *)
theory Go_Prelude
  imports Main "HOL-Library.AList" "HOL-Library.List_Lexorder" "HOL-Library.Char_ord"
begin

text \<open>
  What every component of the model shares: Go's machine integers, instants and durations,
  byte strings, and its maps.

  \<^item> A Go \<^verbatim>\<open>string\<close> is a sequence of bytes, so it is a HOL \<open>string\<close> (a \<open>char list\<close>, one
    \<open>char\<close> per byte); \<^verbatim>\<open>len(s)\<close> is \<open>length s\<close> and the order of \<^verbatim>\<open>sort.Strings\<close> is the
    lexicographic order on bytes.
  \<^item> An \<^verbatim>\<open>int64\<close> is an \<open>int\<close> whose arithmetic goes through \<open>wrap64\<close> wherever the code
    adds without a check.
  \<^item> A \<^verbatim>\<open>time.Time\<close> is the number of nanoseconds since Go's zero \<^verbatim>\<open>Time\<close>, so \<^verbatim>\<open>IsZero\<close> is
    \<open>t = 0\<close>; \<^verbatim>\<open>UTC()\<close> changes the zone of a value and not its instant, so it is the
    identity here. A \<^verbatim>\<open>time.Duration\<close> is a number of nanoseconds; \<^verbatim>\<open>Sub\<close> saturates as Go's
    does.
  \<^item> A Go map is an association list with distinct keys. Iterating over it visits the
    entries in list order; Go leaves that order open, and the theorems hold for every
    list, hence for every order.
\<close>

named_theorems store_simps \<open>functional behaviour of the operations of the in-memory store\<close>
named_theorems go_defs \<open>small definitions that proofs unfold together\<close>

section \<open>Integers\<close>

definition wrap64 :: "int \<Rightarrow> int" where
  "wrap64 x = (x + 2 ^ 63) mod 2 ^ 64 - 2 ^ 63"

definition int64 :: "int \<Rightarrow> bool" where
  "int64 x \<longleftrightarrow> - (2 ^ 63) \<le> x \<and> x < 2 ^ 63"

lemma wrap64_int64 [simp]: "int64 x \<Longrightarrow> wrap64 x = x"
  by (simp add: wrap64_def int64_def)

lemma int64_wrap64 [simp]: "int64 (wrap64 x)"
proof -
  have "0 \<le> (x + 2 ^ 63) mod 2 ^ 64" and "(x + 2 ^ 63) mod 2 ^ 64 < 2 ^ 64"
    by simp_all
  then show ?thesis by (simp add: wrap64_def int64_def)
qed

lemma wrap64_wrap64_add [simp]: "wrap64 (wrap64 x + y) = wrap64 (x + y)"
proof -
  have "wrap64 x + y + 2 ^ 63 = (x + 2 ^ 63) mod 2 ^ 64 + y"
    by (simp add: wrap64_def)
  then have "wrap64 (wrap64 x + y) = ((x + 2 ^ 63) mod 2 ^ 64 + y) mod 2 ^ 64 - 2 ^ 63"
    by (simp only: wrap64_def)
  also have "\<dots> = ((x + 2 ^ 63) + y) mod 2 ^ 64 - 2 ^ 63"
    by (simp only: mod_add_left_eq)
  also have "\<dots> = wrap64 (x + y)"
    by (simp add: wrap64_def algebra_simps)
  finally show ?thesis .
qed

text \<open>Go's integer division truncates toward zero.\<close>

definition go_div :: "int \<Rightarrow> int \<Rightarrow> int" where
  "go_div a b = sgn a * sgn b * (\<bar>a\<bar> div \<bar>b\<bar>)"

section \<open>Instants and durations\<close>

type_synonym gotime = int
type_synonym duration = int

abbreviation (input) second :: duration where "second \<equiv> 1000000000"
abbreviation (input) minute :: duration where "minute \<equiv> 60000000000"
abbreviation (input) hour :: duration where "hour \<equiv> 3600000000000"
abbreviation (input) microsecond :: duration where "microsecond \<equiv> 1000"

definition IsZero :: "gotime \<Rightarrow> bool" where "IsZero t \<longleftrightarrow> t = 0"

text \<open>\<^verbatim>\<open>t.Sub(u)\<close> is clamped to the range of a \<^verbatim>\<open>Duration\<close>.\<close>

definition time_sub :: "gotime \<Rightarrow> gotime \<Rightarrow> duration" where
  "time_sub t u = max (- (2 ^ 63)) (min (2 ^ 63 - 1) (t - u))"

text \<open>\<^verbatim>\<open>t.Truncate(d)\<close> rounds down to a multiple of \<open>d\<close> since the zero time.\<close>

definition trunc_time :: "duration \<Rightarrow> gotime \<Rightarrow> gotime" where
  "trunc_time d t = (if d \<le> 0 then t else t - t mod d)"

lemma trunc_time_mono: "t \<le> u \<Longrightarrow> trunc_time d t \<le> trunc_time d u"
proof -
  assume tu: "t \<le> u"
  show ?thesis
  proof (cases "d \<le> 0")
    case True
    with tu show ?thesis by (simp add: trunc_time_def)
  next
    case False
    have "d * (t div d) \<le> d * (u div d)"
      using False tu by (simp add: zdiv_mono1)
    with False show ?thesis by (simp add: trunc_time_def minus_mod_eq_mult_div)
  qed
qed

lemma trunc_time_le: "trunc_time d t \<le> t"
  by (simp add: trunc_time_def)

section \<open>Dynamic values\<close>

text \<open>
  A Go \<^verbatim>\<open>any\<close> decoded from JSON. An object is an association list in the order the map
  is iterated. A number that is not integral is kept as its fraction.
\<close>

datatype json =
    JNull
  | JBool bool
  | JNumber int
  | JFraction "int \<times> int"
  | JString string
  | JArray "json list"
  | JObject "(string \<times> json) list"

section \<open>Decimal text\<close>

fun digit_char :: "nat \<Rightarrow> char" where
  "digit_char d = char_of (48 + d)"

fun show_nat :: "nat \<Rightarrow> string" where
  "show_nat n = (if n < 10 then [digit_char n] else show_nat (n div 10) @ [digit_char (n mod 10)])"

declare show_nat.simps [simp del]

definition show_int :: "int \<Rightarrow> string" where
  "show_int i = (if i < 0 then CHR ''-'' # show_nat (nat (- i)) else show_nat (nat i))"

section \<open>Maps of maps\<close>

text \<open>
  The store keeps \<^verbatim>\<open>map[tenant]map[key]value\<close>. Reading through an absent inner map
  yields nothing, and writing allocates it first.
\<close>

type_synonym ('a, 'b, 'c) map2 = "('a \<times> ('b \<times> 'c) list) list"

definition inner :: "('a \<times> 'i list) list \<Rightarrow> 'a \<Rightarrow> 'i list" where
  "inner m a = (case map_of m a of None \<Rightarrow> [] | Some i \<Rightarrow> i)"

definition alloc :: "('a \<times> 'i list) list \<Rightarrow> 'a \<Rightarrow> ('a \<times> 'i list) list" where
  "alloc m a = (case map_of m a of None \<Rightarrow> AList.update a [] m | Some _ \<Rightarrow> m)"

definition get2 :: "('a, 'b, 'c) map2 \<Rightarrow> 'a \<Rightarrow> 'b \<Rightarrow> 'c option" where
  "get2 m a b = map_of (inner m a) b"

definition put2 :: "('a, 'b, 'c) map2 \<Rightarrow> 'a \<Rightarrow> 'b \<Rightarrow> 'c \<Rightarrow> ('a, 'b, 'c) map2" where
  "put2 m a b c = AList.update a (AList.update b c (inner m a)) m"

definition del2 :: "('a, 'b, 'c) map2 \<Rightarrow> 'a \<Rightarrow> 'b \<Rightarrow> ('a, 'b, 'c) map2" where
  "del2 m a b = (case map_of m a of None \<Rightarrow> m | Some i \<Rightarrow> AList.update a (AList.delete b i) m)"

definition entries2 :: "('a, 'b, 'c) map2 \<Rightarrow> ('a \<times> 'b \<times> 'c) list" where
  "entries2 m = concat (map (\<lambda>(a, i). map (Pair a) i) m)"

definition wf2 :: "('a, 'b, 'c) map2 \<Rightarrow> bool" where
  "wf2 m \<longleftrightarrow> distinct (map fst m) \<and> (\<forall>(a, i) \<in> set m. distinct (map fst i))"

lemma inner_Nil [simp]: "inner [] a = []"
  by (simp add: inner_def)

lemma get2_Nil [simp]: "get2 [] a b = None"
  by (simp add: get2_def)

lemma wf2_Nil [simp]: "wf2 []"
  by (simp add: wf2_def)

lemma entries2_Nil [simp]: "entries2 [] = []"
  by (simp add: entries2_def)

lemma inner_update [simp]: "inner (AList.update a i m) a' = (if a' = a then i else inner m a')"
  by (simp add: inner_def update_conv)

lemma inner_alloc [simp]: "inner (alloc m a) a' = inner m a'"
  by (auto simp: inner_def alloc_def update_conv split: option.splits)

lemma get2_alloc [simp]: "get2 (alloc m a) a' b = get2 m a' b"
  by (simp add: get2_def)

lemma get2_put2: "get2 (put2 m a b c) a' b' = (if a' = a \<and> b' = b then Some c else get2 m a' b')"
  by (simp add: get2_def put2_def update_conv)

lemma get2_put2_same [simp]: "get2 (put2 m a b c) a b = Some c"
  by (simp add: get2_put2)

lemma get2_put2_other [simp]: "a' \<noteq> a \<or> b' \<noteq> b \<Longrightarrow> get2 (put2 m a b c) a' b' = get2 m a' b'"
  by (auto simp: get2_put2)

lemma get2_del2: "get2 (del2 m a b) a' b' = (if a' = a \<and> b' = b then None else get2 m a' b')"
  by (auto simp: get2_def del2_def inner_def update_conv delete_conv split: option.splits)

lemma distinct_update: "distinct (map fst m) \<Longrightarrow> distinct (map fst (AList.update k v m))"
  by (rule distinct_update)

lemma set_update_distinct:
  "distinct (map fst m) \<Longrightarrow> set (AList.update k v m) = insert (k, v) {p \<in> set m. fst p \<noteq> k}"
  by (induction m) (auto simp: image_iff)

lemma wf2_inner: "wf2 m \<Longrightarrow> distinct (map fst (inner m a))"
  by (auto simp: wf2_def inner_def split: option.splits dest!: map_of_SomeD)

lemma wf2_update: "wf2 m \<Longrightarrow> distinct (map fst i) \<Longrightarrow> wf2 (AList.update a i m)"
  by (auto simp: wf2_def distinct_update set_update_distinct)

lemma wf2_put2 [simp]: "wf2 m \<Longrightarrow> wf2 (put2 m a b c)"
  by (simp add: put2_def wf2_update distinct_update wf2_inner)

lemma wf2_alloc [simp]: "wf2 m \<Longrightarrow> wf2 (alloc m a)"
  by (auto simp: alloc_def wf2_update split: option.splits)

lemma wf2_del2 [simp]: "wf2 m \<Longrightarrow> wf2 (del2 m a b)"
proof (cases "map_of m a")
  case (Some i)
  assume wf: "wf2 m"
  from wf Some have "distinct (map fst i)"
    using wf2_inner [OF wf, of a] by (simp add: inner_def)
  then have "distinct (map fst (AList.delete b i))"
    by (rule distinct_delete)
  with wf Some show ?thesis by (simp add: del2_def wf2_update)
qed (simp add: del2_def)

lemma entries2_get2:
  assumes "wf2 m"
  shows "(a, b, c) \<in> set (entries2 m) \<longleftrightarrow> get2 m a b = Some c"
proof
  assume "(a, b, c) \<in> set (entries2 m)"
  then obtain i where i: "(a, i) \<in> set m" and bc: "(b, c) \<in> set i"
    by (auto simp: entries2_def)
  from assms i have "map_of m a = Some i" and "distinct (map fst i)"
    by (auto simp: wf2_def)
  with bc show "get2 m a b = Some c" by (simp add: get2_def inner_def)
next
  assume "get2 m a b = Some c"
  then obtain i where "map_of m a = Some i" and "map_of i b = Some c"
    by (auto simp: get2_def inner_def split: option.splits)
  then have "(a, i) \<in> set m" and "(b, c) \<in> set i"
    by (auto dest: map_of_SomeD)
  then show "(a, b, c) \<in> set (entries2 m)"
    by (force simp: entries2_def)
qed

lemma distinct_entries2:
  "wf2 m \<Longrightarrow> distinct (map (\<lambda>(a, b, c). (a, b)) (entries2 m))"
proof (induction m)
  case Nil
  then show ?case by simp
next
  case (Cons p m)
  obtain a i where p: "p = (a, i)" by (cases p)
  have IH: "distinct (map (\<lambda>(a, b, c). (a, b)) (entries2 m))"
    using Cons by (auto simp: wf2_def)
  have i: "distinct (map fst i)" and a: "a \<notin> fst ` set m"
    using Cons.prems p by (auto simp: wf2_def)
  have keys: "map (\<lambda>(a, b, c). (a, b)) (map (Pair a) i) = map (Pair a) (map fst i)"
    by (simp add: split_beta)
  have "distinct (map (Pair a) (map fst i))"
    using i by (simp add: distinct_map inj_on_def)
  moreover have "set (map (Pair a) (map fst i)) \<inter> (\<lambda>(a, b, c). (a, b)) ` set (entries2 m) = {}"
    using a by (force simp: entries2_def)
  moreover have "map (\<lambda>(a, b, c). (a, b)) (entries2 (p # m)) =
      map (Pair a) (map fst i) @ map (\<lambda>(a, b, c). (a, b)) (entries2 m)"
    using keys by (simp add: p entries2_def)
  ultimately show ?case
    using IH by simp
qed

section \<open>Sets kept as maps to the empty struct\<close>

lemma set_insert_list [simp]: "set (List.insert x xs) = insert x (set xs)"
  by simp

section \<open>Histories of operations\<close>

text \<open>A run of operations: their results in order, and the state they leave.\<close>

fun run_ops :: "('op \<Rightarrow> 's \<Rightarrow> 'r \<times> 's) \<Rightarrow> 'op list \<Rightarrow> 's \<Rightarrow> ('op \<times> 'r) list \<times> 's" where
  "run_ops step [] s = ([], s)"
| "run_ops step (p # ops) s =
    (let (r, s1) = step p s; (rs, s2) = run_ops step ops s1 in ((p, r) # rs, s2))"

lemma run_ops_append:
  "run_ops step (ps @ qs) s =
    (let (rs, s1) = run_ops step ps s; (ts, s2) = run_ops step qs s1 in (rs @ ts, s2))"
  by (induction ps arbitrary: s) (auto simp: Let_def split: prod.splits)

end
