(* ===== verification/Domain_Status.thy ===== *)
theory Domain_Status
  imports Go_Prelude
begin

text \<open>
  The transaction state machine of \<^verbatim>\<open>internal/domain/status.go\<close>: the statuses, the edge
  set kept as data, and the functions every other package asks about it. Also the errors
  the domain and store packages return, as one datatype, so that \<^verbatim>\<open>errors.Is\<close> and
  \<^verbatim>\<open>errors.As\<close> through wrapped errors are functions on it.
\<close>

section \<open>Statuses\<close>

datatype status =
    StatusPendingDebit
  | StatusPendingUnknown
  | StatusCompleted
  | StatusSuspect
  | StatusOrphaned
  | StatusReversalPending
  | StatusReversalCompleted
  | StatusReversalFailed

fun status_string :: "status \<Rightarrow> string" where
  "status_string StatusPendingDebit = ''pending_debit''"
| "status_string StatusPendingUnknown = ''pending_unknown''"
| "status_string StatusCompleted = ''completed''"
| "status_string StatusSuspect = ''suspect''"
| "status_string StatusOrphaned = ''orphaned''"
| "status_string StatusReversalPending = ''reversal_pending''"
| "status_string StatusReversalCompleted = ''reversal_completed''"
| "status_string StatusReversalFailed = ''reversal_failed''"

lemma status_string_eq_iff [simp]: "status_string s = status_string t \<longleftrightarrow> s = t"
  by (cases s; cases t) simp_all

text \<open>Statuses are ordered as the strings they are, which is how \<^verbatim>\<open>SourcesFor\<close> sorts them.\<close>

instantiation status :: linorder
begin
definition less_eq_status :: "status \<Rightarrow> status \<Rightarrow> bool" where
  "less_eq_status s t \<longleftrightarrow> status_string s \<le> status_string t"
definition less_status :: "status \<Rightarrow> status \<Rightarrow> bool" where
  "less_status s t \<longleftrightarrow> status_string s < status_string t"
instance
proof
  fix s t u :: status
  show "s < t \<longleftrightarrow> s \<le> t \<and> \<not> t \<le> s"
    unfolding less_eq_status_def less_status_def by (rule less_le_not_le)
  show "s \<le> s" by (simp add: less_eq_status_def)
  show "s \<le> t \<Longrightarrow> t \<le> u \<Longrightarrow> s \<le> u"
    unfolding less_eq_status_def by (rule order_trans)
  show "s \<le> t \<Longrightarrow> t \<le> s \<Longrightarrow> s = t"
    by (auto simp: less_eq_status_def dest: antisym)
  show "s \<le> t \<or> t \<le> s"
    unfolding less_eq_status_def by (rule linear)
qed
end

section \<open>Errors\<close>

datatype goerror =
    InvalidTransitionError status status
  | ValidationError string string
  | SensitiveDataError string string
  | ErrEmptyEvent
  | ErrUnknownCreditStatus string
  | ErrNotFound
  | ErrTenantMismatch
  | ErrMessage string
  | ErrWrapped string goerror

text \<open>\<^verbatim>\<open>errors.Is(err, target)\<close> and \<^verbatim>\<open>errors.As(err, &ite)\<close> look through \<^verbatim>\<open>%w\<close> wrapping.\<close>

fun errors_is :: "goerror \<Rightarrow> goerror \<Rightarrow> bool" where
  "errors_is (ErrWrapped m e) target \<longleftrightarrow> ErrWrapped m e = target \<or> errors_is e target"
| "errors_is e target \<longleftrightarrow> e = target"

fun is_invalid_transition :: "goerror \<Rightarrow> bool" where
  "is_invalid_transition (InvalidTransitionError _ _) = True"
| "is_invalid_transition (ErrWrapped _ e) = is_invalid_transition e"
| "is_invalid_transition _ = False"

section \<open>The edge set\<close>

definition allowedTransitions :: "(status \<times> status list) list" where
  "allowedTransitions =
    [(StatusPendingDebit, [StatusCompleted, StatusPendingUnknown, StatusOrphaned, StatusSuspect]),
     (StatusPendingUnknown, [StatusCompleted, StatusSuspect]),
     (StatusSuspect, [StatusOrphaned, StatusCompleted]),
     (StatusOrphaned, [StatusReversalPending, StatusCompleted, StatusSuspect]),
     (StatusReversalPending, [StatusReversalCompleted, StatusReversalFailed]),
     (StatusReversalFailed, [StatusReversalPending]),
     (StatusCompleted, []),
     (StatusReversalCompleted, [])]"

definition dests :: "status \<Rightarrow> status list" where
  "dests s = (case map_of allowedTransitions s of None \<Rightarrow> [] | Some ds \<Rightarrow> ds)"

text \<open>
  \<^verbatim>\<open>Status\<close> is a string type, so a value read back from storage may be none of the
  constants: \<^verbatim>\<open>Valid\<close> is about the string, and the rest of the model about the status
  it denotes.
\<close>

definition all_statuses :: "status list" where
  "all_statuses = map fst allowedTransitions"

definition status_of_string :: "string \<Rightarrow> status option" where
  "status_of_string v = map_of (map (\<lambda>s. (status_string s, s)) all_statuses) v"

definition Status_Valid :: "string \<Rightarrow> bool" where
  "Status_Valid v \<longleftrightarrow> status_of_string v \<noteq> None"

definition IsTerminal :: "status \<Rightarrow> bool" where
  "IsTerminal s \<longleftrightarrow> length (dests s) = 0"

definition IsOpen :: "status \<Rightarrow> bool" where
  "IsOpen s \<longleftrightarrow> s = StatusPendingDebit \<or> s = StatusPendingUnknown"

definition NeedsReversal :: "status \<Rightarrow> bool" where
  "NeedsReversal s \<longleftrightarrow> s = StatusOrphaned \<or> s = StatusReversalPending \<or> s = StatusReversalFailed"

definition CanTransition :: "status \<Rightarrow> status \<Rightarrow> bool" where
  "CanTransition from to =
    (case map_of allowedTransitions from of
       None \<Rightarrow> False
     | Some ds \<Rightarrow> to \<in> set ds)"

definition Transition :: "status \<Rightarrow> status \<Rightarrow> goerror option" where
  "Transition from to =
    (if \<not> CanTransition from to then Some (InvalidTransitionError from to) else None)"

definition SourcesFor :: "status \<Rightarrow> status list" where
  "SourcesFor target = sort (map fst (filter (\<lambda>(from, ds). target \<in> set ds) allowedTransitions))"

section \<open>Facts about the machine\<close>

lemma all_statuses_UNIV: "s \<in> set all_statuses"
  by (cases s) (simp_all add: all_statuses_def allowedTransitions_def)

lemma distinct_allowedTransitions: "distinct (map fst allowedTransitions)"
  by (simp add: allowedTransitions_def)

lemma CanTransition_dests: "CanTransition s t \<longleftrightarrow> t \<in> set (dests s)"
  by (simp add: CanTransition_def dests_def split: option.split)

lemma CanTransition_iff:
  "CanTransition s t \<longleftrightarrow>
    (s = StatusPendingDebit \<and> t \<in> {StatusCompleted, StatusPendingUnknown, StatusOrphaned, StatusSuspect} \<or>
     s = StatusPendingUnknown \<and> t \<in> {StatusCompleted, StatusSuspect} \<or>
     s = StatusSuspect \<and> t \<in> {StatusOrphaned, StatusCompleted} \<or>
     s = StatusOrphaned \<and> t \<in> {StatusReversalPending, StatusCompleted, StatusSuspect} \<or>
     s = StatusReversalPending \<and> t \<in> {StatusReversalCompleted, StatusReversalFailed} \<or>
     s = StatusReversalFailed \<and> t = StatusReversalPending)"
  by (cases s) (simp_all add: CanTransition_def allowedTransitions_def)

lemma CanTransition_simps [simp]:
  "CanTransition StatusPendingDebit t \<longleftrightarrow> t \<in> {StatusCompleted, StatusPendingUnknown, StatusOrphaned, StatusSuspect}"
  "CanTransition StatusPendingUnknown t \<longleftrightarrow> t \<in> {StatusCompleted, StatusSuspect}"
  "CanTransition StatusSuspect t \<longleftrightarrow> t \<in> {StatusOrphaned, StatusCompleted}"
  "CanTransition StatusOrphaned t \<longleftrightarrow> t \<in> {StatusReversalPending, StatusCompleted, StatusSuspect}"
  "CanTransition StatusReversalPending t \<longleftrightarrow> t \<in> {StatusReversalCompleted, StatusReversalFailed}"
  "CanTransition StatusReversalFailed t \<longleftrightarrow> t = StatusReversalPending"
  "\<not> CanTransition StatusCompleted t"
  "\<not> CanTransition StatusReversalCompleted t"
  by (simp_all add: CanTransition_iff)

lemma CanTransition_irrefl: "\<not> CanTransition s s"
  by (cases s) simp_all

lemma Transition_eq_None [simp]: "Transition s t = None \<longleftrightarrow> CanTransition s t"
  by (simp add: Transition_def)

lemma Transition_eq_Some [simp]:
  "Transition s t = Some e \<longleftrightarrow> \<not> CanTransition s t \<and> e = InvalidTransitionError s t"
  by (auto simp: Transition_def)

lemma IsTerminal_iff: "IsTerminal s \<longleftrightarrow> s = StatusCompleted \<or> s = StatusReversalCompleted"
  by (cases s) (simp_all add: IsTerminal_def dests_def allowedTransitions_def)

lemma status_of_string_Some: "status_of_string v = Some s \<longleftrightarrow> v = status_string s"
  by (cases s) (auto simp: status_of_string_def all_statuses_def allowedTransitions_def split: if_splits)

lemma SourcesFor_set: "set (SourcesFor t) = {s. CanTransition s t}"
proof -
  have "s \<in> set (SourcesFor t) \<longleftrightarrow> (\<exists>ds. (s, ds) \<in> set allowedTransitions \<and> t \<in> set ds)" for s
    by (force simp: SourcesFor_def)
  also have "\<dots> s \<longleftrightarrow> (\<exists>ds. map_of allowedTransitions s = Some ds \<and> t \<in> set ds)" for s
    using map_of_eq_Some_iff [OF distinct_allowedTransitions] by simp
  also have "\<dots> s \<longleftrightarrow> CanTransition s t" for s
    by (simp add: CanTransition_def split: option.split)
  finally show ?thesis by blast
qed

lemma distinct_SourcesFor: "distinct (SourcesFor t)"
  unfolding SourcesFor_def distinct_sort
  by (rule distinct_map_filter [OF distinct_allowedTransitions])

section \<open>Properties\<close>

text \<open>
  \<^verbatim>\<open>SourcesFor\<close>, from which the SQL guard of every state-changing UPDATE is built, lists
  exactly the states with an edge to the target, each once, in string order: the guard
  agrees with the state machine.
\<close>

theorem SourcesFor_exact:
  "set (SourcesFor t) = {s. Transition s t = None} \<and> distinct (SourcesFor t) \<and> sorted (SourcesFor t)"
  by (simp add: SourcesFor_set distinct_SourcesFor) (simp add: SourcesFor_def)

text \<open>
  Over any number of legal steps: a terminal state is never left, \<open>completed\<close> and the
  reversal states are separated (no settled transaction comes to be reversed, and nothing
  that has been dispatched can settle), and an ambiguous transaction reaches a reversal
  only through an investigation that found it orphaned.
\<close>

theorem machine_paths:
  assumes "CanTransition\<^sup>*\<^sup>* s t"
  shows "(IsTerminal s \<longrightarrow> t = s) \<and>
    (s \<in> {StatusReversalPending, StatusReversalFailed, StatusReversalCompleted} \<longrightarrow>
      t \<in> {StatusReversalPending, StatusReversalFailed, StatusReversalCompleted}) \<and>
    (s \<notin> {StatusReversalPending, StatusReversalFailed, StatusReversalCompleted} \<and>
      t \<in> {StatusReversalPending, StatusReversalFailed, StatusReversalCompleted} \<longrightarrow>
      CanTransition\<^sup>*\<^sup>* s StatusOrphaned)"
  using assms
proof (induction rule: rtranclp_induct)
  case base
  show ?case by blast
next
  case (step t u)
  then show ?case
    by (cases t; cases u; auto simp: IsTerminal_iff intro: rtranclp.rtrancl_into_rtrancl)
qed

theorem machine_paths_witness:
  "CanTransition\<^sup>*\<^sup>* StatusReversalFailed StatusReversalCompleted \<and>
    StatusReversalCompleted \<in> {StatusReversalPending, StatusReversalFailed, StatusReversalCompleted}"
proof -
  have "CanTransition StatusReversalFailed StatusReversalPending"
    and "CanTransition StatusReversalPending StatusReversalCompleted" by simp_all
  then have path: "CanTransition\<^sup>*\<^sup>* StatusReversalFailed StatusReversalCompleted"
    by (meson converse_rtranclp_into_rtranclp r_into_rtranclp)
  with machine_paths [OF path] show ?thesis by simp
qed

end
