(* ===== verification/Domain_Sensitive.thy ===== *)
theory Domain_Sensitive
  imports Domain_Status
begin

text \<open>
  The card-data screen of \<^verbatim>\<open>internal/domain/sensitive.go\<close>: the field-name denylist, the
  Luhn check over digit runs, and the recursive walk over decoded metadata.
\<close>

section \<open>Bytes\<close>

definition byte :: "char \<Rightarrow> nat" where
  "byte c = of_char c"

definition is_digit :: "char \<Rightarrow> bool" where
  "is_digit c \<longleftrightarrow> 48 \<le> byte c \<and> byte c \<le> 57"

definition is_sep :: "char \<Rightarrow> bool" where
  "is_sep c \<longleftrightarrow> c = CHR '' '' \<or> c = CHR ''-''"

definition digit_val :: "char \<Rightarrow> nat" where
  "digit_val c = byte c - 48"

lemma is_sep_not_digit [simp]: "is_sep c \<Longrightarrow> \<not> is_digit c"
  by (auto simp: is_sep_def is_digit_def byte_def)

lemma digit_val_le: "is_digit c \<Longrightarrow> digit_val c \<le> 9"
  unfolding is_digit_def digit_val_def by linarith

lemma byte_inj [simp]: "byte c = byte d \<longleftrightarrow> c = d"
  by (simp add: byte_def)

lemma digit_val_inj: "is_digit c \<Longrightarrow> is_digit d \<Longrightarrow> digit_val c = digit_val d \<longleftrightarrow> c = d"
proof
  assume "is_digit c" "is_digit d" "digit_val c = digit_val d"
  then have "byte c = byte d" unfolding is_digit_def digit_val_def by linarith
  then show "c = d" by simp
qed simp

section \<open>The denylist\<close>

definition minPANLen :: nat where "minPANLen = 13"
definition maxPANLen :: nat where "maxPANLen = 19"
definition maxScanLen :: nat where "maxScanLen = 4096"
definition maxScanDepth :: nat where "maxScanDepth = 8"

definition denylistedFields :: "string list" where
  "denylistedFields =
    [''pan'', ''cardnumber'', ''card'', ''cardno'', ''accountnumber'',
     ''cvv'', ''cvv2'', ''cvc'', ''csc'', ''securitycode'',
     ''expiry'', ''expirydate'', ''expmonth'', ''expyear'',
     ''password'', ''passwd'', ''pin'', ''otp'',
     ''bvn'', ''nin'', ''ssn'', ''dateofbirth'', ''dob'',
     ''secret'', ''token'', ''accesstoken'', ''refreshtoken'',
     ''authorization'', ''apikey'', ''privatekey'',
     ''mothersmaiden'', ''trackdata'', ''magstripe'', ''cardholdername'']"

text \<open>
  The code ranges over runes. Every byte of a multi-byte rune is at least 128, and no rune
  outside ASCII is a letter A-Z, a-z or a digit, so dropping runes and dropping bytes keep
  the same bytes.
\<close>

fun normaliseKey :: "string \<Rightarrow> string" where
  "normaliseKey [] = []"
| "normaliseKey (r # k) =
    (if 65 \<le> byte r \<and> byte r \<le> 90 then char_of (byte r + 32) # normaliseKey k
     else if 97 \<le> byte r \<and> byte r \<le> 122 \<or> is_digit r then r # normaliseKey k
     else normaliseKey k)"

definition blocked :: "string \<Rightarrow> bool" where
  "blocked k \<longleftrightarrow> normaliseKey k \<in> set denylistedFields"

section \<open>Luhn\<close>

fun luhn_loop :: "string \<Rightarrow> nat \<Rightarrow> bool \<Rightarrow> nat option" where
  "luhn_loop [] acc double = Some acc"
| "luhn_loop (c # rest) acc double =
    (if \<not> is_digit c then None
     else let d = digit_val c;
              d = (if double then (if d * 2 > 9 then d * 2 - 9 else d * 2) else d)
          in luhn_loop rest (acc + d) (\<not> double))"

definition luhnValid :: "string \<Rightarrow> bool" where
  "luhnValid digits =
    (if length digits = 0 then False
     else case luhn_loop (rev digits) 0 False of
            None \<Rightarrow> False
          | Some acc \<Rightarrow> acc mod 10 = 0)"

definition runIsPAN :: "string \<Rightarrow> bool" where
  "runIsPAN run =
    (if length run < minPANLen \<or> length run > maxPANLen then False else luhnValid run)"

section \<open>Card numbers in a string\<close>

fun scan :: "string \<Rightarrow> string \<Rightarrow> bool" where
  "scan run [] = runIsPAN run"
| "scan run (c # s) =
    (if is_digit c then scan (run @ [c]) s
     else if is_sep c \<and> length run > 0
     then (case s of
             d # _ \<Rightarrow> if is_digit d then scan run s else if runIsPAN run then True else scan [] s
           | [] \<Rightarrow> if runIsPAN run then True else scan [] s)
     else if runIsPAN run then True else scan [] s)"

definition ContainsCardNumber :: "string \<Rightarrow> bool" where
  "ContainsCardNumber s = scan [] (if length s > maxScanLen then take maxScanLen s else s)"

definition ScreenString :: "string \<Rightarrow> string \<Rightarrow> goerror option" where
  "ScreenString field v =
    (if ContainsCardNumber v
     then Some (SensitiveDataError field ''value contains what appears to be a card number'')
     else None)"

section \<open>The walk over metadata\<close>

fun screenValue :: "string \<Rightarrow> json \<Rightarrow> nat \<Rightarrow> goerror option"
and screenMembers :: "string \<Rightarrow> (string \<times> json) list \<Rightarrow> nat \<Rightarrow> goerror option"
and screenItems :: "string \<Rightarrow> nat \<Rightarrow> json list \<Rightarrow> nat \<Rightarrow> goerror option"
where
  "screenValue path v depth =
    (if depth > maxScanDepth
     then Some (SensitiveDataError path ''nested more than 8 levels deep'')
     else case v of
            JObject ms \<Rightarrow> screenMembers path ms depth
          | JArray vs \<Rightarrow> screenItems path 0 vs depth
          | JString s \<Rightarrow>
              (if ContainsCardNumber s
               then Some (SensitiveDataError path ''value contains what appears to be a card number'')
               else None)
          | _ \<Rightarrow> None)"
| "screenMembers path [] depth = None"
| "screenMembers path ((k, child) # ms) depth =
    (if blocked k
     then Some (SensitiveDataError (path @ ''.'' @ k) ''field name is on the never-collect list'')
     else case screenValue (path @ ''.'' @ k) child (depth + 1) of
            Some err \<Rightarrow> Some err
          | None \<Rightarrow> screenMembers path ms depth)"
| "screenItems path i [] depth = None"
| "screenItems path i (child # vs) depth =
    (case screenValue (path @ ''['' @ show_nat i @ '']'') child (depth + 1) of
       Some err \<Rightarrow> Some err
     | None \<Rightarrow> screenItems path (i + 1) vs depth)"

definition ScreenMetadata :: "(string \<times> json) list \<Rightarrow> goerror option" where
  "ScreenMetadata m = screenValue ''metadata'' (JObject m) 0"

declare screenValue.simps [simp del]

section \<open>Luhn as a weighted digit sum\<close>

text \<open>What one digit adds to the sum, doubled or not.\<close>

definition luhn_weight :: "bool \<Rightarrow> char \<Rightarrow> nat" where
  "luhn_weight double c =
    (if double then (if digit_val c * 2 > 9 then digit_val c * 2 - 9 else digit_val c * 2)
     else digit_val c)"

text \<open>The sum over a digit string read from the right, as a specification without the loop.\<close>

fun luhn_spec :: "bool \<Rightarrow> string \<Rightarrow> nat" where
  "luhn_spec double [] = 0"
| "luhn_spec double (c # cs) = luhn_weight double c + luhn_spec (\<not> double) cs"

lemma luhn_loop_digits:
  "list_all is_digit cs \<Longrightarrow> luhn_loop cs acc double = Some (acc + luhn_spec double cs)"
  by (induction cs arbitrary: acc double) (simp_all add: luhn_weight_def Let_def)

lemma luhn_loop_non_digit:
  "\<not> list_all is_digit cs \<Longrightarrow> luhn_loop cs acc double = None"
  by (induction cs arbitrary: acc double) (auto simp: Let_def)

lemma luhnValid_iff:
  "luhnValid ds \<longleftrightarrow> ds \<noteq> [] \<and> list_all is_digit ds \<and> luhn_spec False (rev ds) mod 10 = 0"
proof (cases "list_all is_digit ds")
  case True
  then show ?thesis by (simp add: luhnValid_def luhn_loop_digits)
next
  case False
  then show ?thesis by (simp add: luhnValid_def luhn_loop_non_digit)
qed

lemma luhn_spec_append:
  "luhn_spec double (xs @ ys) =
    luhn_spec double xs + luhn_spec (double \<longleftrightarrow> even (length xs)) ys"
proof (induction xs arbitrary: double)
  case (Cons x xs)
  then show ?case by (cases double) simp_all
qed simp

lemma luhn_weight_le: "is_digit c \<Longrightarrow> luhn_weight double c \<le> 9"
  using digit_val_le [of c] unfolding luhn_weight_def by (auto split: if_splits)

lemma luhn_weight_inj:
  assumes "is_digit c" "is_digit d" "luhn_weight double c = luhn_weight double d"
  shows "c = d"
proof -
  have all: "\<forall>m \<in> set [0..<10]. \<forall>n \<in> set [0..<10].
      (if m * 2 > 9 then m * 2 - 9 else m * 2) = (if n * 2 > 9 then n * 2 - 9 else n * (2::nat)) \<longrightarrow> m = n"
    by code_simp
  have "digit_val c \<le> 9" "digit_val d \<le> 9"
    using assms digit_val_le by blast+
  then have mem: "digit_val c \<in> set [0..<10]" "digit_val d \<in> set [0..<10]"
    by auto
  have "digit_val c = digit_val d"
    using assms(3) all [rule_format, OF mem] unfolding luhn_weight_def by (cases double) simp_all
  then show ?thesis using assms digit_val_inj by blast
qed

lemma mod10_shift:
  assumes "a \<le> b" "(z + a) mod 10 = (z + b) mod (10::nat)"
  shows "a mod 10 = b mod 10"
proof -
  have "10 dvd (z + b) - (z + a)"
    using assms mod_eq_dvd_iff_nat [of "z + a" "z + b" 10] by simp
  then show ?thesis
    using assms(1) mod_eq_dvd_iff_nat [of a b 10] by simp
qed

lemma mod10_cancel:
  assumes "(x + a + y) mod 10 = (x + b + y) mod (10::nat)"
  shows "a mod 10 = b mod 10"
proof -
  have eq: "(x + y + a) mod 10 = (x + y + b) mod 10"
    using assms by (simp add: ac_simps)
  show ?thesis
  proof (cases "a \<le> b")
    case True
    then show ?thesis using eq by (rule mod10_shift)
  next
    case False
    then have "b \<le> a" by simp
    then show ?thesis using eq [symmetric] by (rule mod10_shift [symmetric])
  qed
qed

text \<open>The swap of two neighbours changes the sum unless they are equal or 0 and 9.\<close>

lemma luhn_weight_swap:
  assumes "is_digit a" "is_digit b"
    and "(x + (luhn_weight p a + luhn_weight (\<not> p) b) + y) mod 10 =
         (x + (luhn_weight p b + luhn_weight (\<not> p) a) + y) mod 10"
  shows "digit_val a = digit_val b \<or> {digit_val a, digit_val b} = {0, 9}"
proof -
  have le: "digit_val a \<le> 9" "digit_val b \<le> 9"
    using assms digit_val_le by blast+
  have eq: "(luhn_weight p a + luhn_weight (\<not> p) b) mod 10 = (luhn_weight p b + luhn_weight (\<not> p) a) mod 10"
    using assms(3) by (rule mod10_cancel)
  have all: "\<forall>m \<in> set [0..<10]. \<forall>n \<in> set [0..<10].
      ((if m * 2 > 9 then m * 2 - 9 else m * 2) + n) mod 10 =
      ((if n * 2 > 9 then n * 2 - 9 else n * 2) + m) mod (10::nat) \<longrightarrow>
      m = n \<or> m = 0 \<and> n = 9 \<or> m = 9 \<and> n = 0"
    by code_simp
  have "digit_val a \<in> set [0..<10]" "digit_val b \<in> set [0..<10]"
    using le by auto
  note inst = all [rule_format, OF this] all [rule_format, OF this(2) this(1)]
  show ?thesis
  proof (cases p)
    case True
    with eq inst(1) show ?thesis unfolding luhn_weight_def by auto
  next
    case False
    with eq inst(2) show ?thesis unfolding luhn_weight_def by (auto simp: add.commute)
  qed
qed

section \<open>Formatting inside a number\<close>

text \<open>\<open>formatted ds t\<close>: \<open>t\<close> is the digits \<open>ds\<close> with at most one separator between two of them.\<close>

inductive formatted :: "string \<Rightarrow> string \<Rightarrow> bool" where
  last: "is_digit d \<Longrightarrow> formatted [d] [d]"
| adjacent: "is_digit d \<Longrightarrow> formatted ds t \<Longrightarrow> formatted (d # ds) (d # t)"
| separated: "is_digit d \<Longrightarrow> is_sep c \<Longrightarrow> formatted ds t \<Longrightarrow> formatted (d # ds) (d # c # t)"

lemma formatted_hd: "formatted ds t \<Longrightarrow> \<exists>d t'. t = d # t' \<and> is_digit d"
  by (induction rule: formatted.induct) auto

text \<open>What may follow a number for its run to end there.\<close>

fun run_ends :: "string \<Rightarrow> bool" where
  "run_ends [] = True"
| "run_ends (c # s) = (\<not> is_digit c \<and> (is_sep c \<longrightarrow> (case s of [] \<Rightarrow> True | d # _ \<Rightarrow> \<not> is_digit d)))"

lemma scan_run_ends: "runIsPAN run \<Longrightarrow> run_ends post \<Longrightarrow> scan run post"
  by (cases post) (auto split: list.splits)

lemma scan_formatted:
  "formatted ds t \<Longrightarrow> runIsPAN (run @ ds) \<Longrightarrow> run_ends post \<Longrightarrow> scan run (t @ post)"
proof (induction arbitrary: run rule: formatted.induct)
  case (last d)
  then show ?case by (simp add: scan_run_ends)
next
  case (adjacent d ds t)
  then show ?case by simp
next
  case (separated d c ds t)
  from formatted_hd [OF separated.hyps(3)] obtain e t' where t: "t = e # t'" "is_digit e"
    by blast
  have "scan (run @ [d]) (t @ post)"
    using separated.IH [of "run @ [d]"] separated.prems by simp
  with separated.hyps t show ?case by simp
qed

text \<open>
  A prefix that ends in a byte which is neither a digit nor a separator leaves no run
  behind, whatever it held before.
\<close>

lemma scan_step:
  assumes "\<And>r. scan r s" and "s \<noteq> []"
  shows "scan run (c # s)"
  by (simp only: scan.simps) (use assms in \<open>auto simp del: scan.simps split: list.split\<close>)

lemma scan_prefix:
  "pre \<noteq> [] \<Longrightarrow> \<not> is_digit (List.last pre) \<Longrightarrow> \<not> is_sep (List.last pre) \<Longrightarrow> scan [] rest \<Longrightarrow> scan run (pre @ rest)"
proof (induction pre arbitrary: run)
  case Nil
  then show ?case by simp
next
  case (Cons c pre)
  show ?case
  proof (cases "pre = []")
    case True
    with Cons.prems show ?thesis by simp
  next
    case False
    then have all: "scan r (pre @ rest)" for r
      using Cons.IH Cons.prems by simp
    have "scan run (c # (pre @ rest))"
      by (rule scan_step [OF all]) (simp add: False)
    then show ?thesis by (simp del: scan.simps)
  qed
qed

section \<open>What the walk over metadata guarantees\<close>

text \<open>\<open>subvalue n v u\<close>: \<open>u\<close> sits \<open>n\<close> levels inside \<open>v\<close>.\<close>

inductive subvalue :: "nat \<Rightarrow> json \<Rightarrow> json \<Rightarrow> bool" where
  here: "subvalue 0 v v"
| in_member: "(k, c) \<in> set ms \<Longrightarrow> subvalue n c u \<Longrightarrow> subvalue (Suc n) (JObject ms) u"
| in_item: "c \<in> set vs \<Longrightarrow> subvalue n c u \<Longrightarrow> subvalue (Suc n) (JArray vs) u"

inductive_cases subvalue_JObject: "subvalue n (JObject ms) u"
inductive_cases subvalue_JArray: "subvalue n (JArray vs) u"

fun node_clean :: "json \<Rightarrow> bool" where
  "node_clean (JObject ms) = (\<forall>(k, c) \<in> set ms. \<not> blocked k)"
| "node_clean (JString s) = (\<not> ContainsCardNumber s)"
| "node_clean _ = True"

definition screened :: "nat \<Rightarrow> json \<Rightarrow> bool" where
  "screened depth v \<longleftrightarrow> (\<forall>n u. subvalue n v u \<longrightarrow> depth + n \<le> maxScanDepth \<and> node_clean u)"

lemma subvalue_leaf:
  "(\<nexists>ms. v = JObject ms) \<Longrightarrow> (\<nexists>vs. v = JArray vs) \<Longrightarrow> subvalue n v u \<longleftrightarrow> n = 0 \<and> u = v"
  by (auto elim: subvalue.cases intro: subvalue.here)

lemma screened_leaf:
  "(\<nexists>ms. v = JObject ms) \<Longrightarrow> (\<nexists>vs. v = JArray vs) \<Longrightarrow>
    screened d v \<longleftrightarrow> d \<le> maxScanDepth \<and> node_clean v"
  by (auto simp: screened_def subvalue_leaf)

lemma screened_JObject:
  "screened d (JObject ms) \<longleftrightarrow>
    d \<le> maxScanDepth \<and> (\<forall>(k, c) \<in> set ms. \<not> blocked k \<and> screened (Suc d) c)"
proof
  assume L: "screened d (JObject ms)"
  have "d + 0 \<le> maxScanDepth \<and> node_clean (JObject ms)"
    using L subvalue.here unfolding screened_def by blast
  then have "d \<le> maxScanDepth" and "\<forall>(k, c) \<in> set ms. \<not> blocked k"
    by simp_all
  moreover have "screened (Suc d) c" if "(k, c) \<in> set ms" for k c
    unfolding screened_def
  proof (intro allI impI)
    fix n u
    assume "subvalue n c u"
    with that have "subvalue (Suc n) (JObject ms) u" by (rule subvalue.in_member)
    with L have "d + Suc n \<le> maxScanDepth \<and> node_clean u" unfolding screened_def by blast
    then show "Suc d + n \<le> maxScanDepth \<and> node_clean u" by simp
  qed
  ultimately show "d \<le> maxScanDepth \<and> (\<forall>(k, c) \<in> set ms. \<not> blocked k \<and> screened (Suc d) c)"
    by blast
next
  assume R: "d \<le> maxScanDepth \<and> (\<forall>(k, c) \<in> set ms. \<not> blocked k \<and> screened (Suc d) c)"
  then show "screened d (JObject ms)"
    by (auto simp: screened_def elim!: subvalue_JObject)
qed

lemma screened_JArray:
  "screened d (JArray vs) \<longleftrightarrow> d \<le> maxScanDepth \<and> (\<forall>c \<in> set vs. screened (Suc d) c)"
proof
  assume L: "screened d (JArray vs)"
  have "d + 0 \<le> maxScanDepth"
    using L subvalue.here unfolding screened_def by blast
  then have "d \<le> maxScanDepth" by simp
  moreover have "screened (Suc d) c" if "c \<in> set vs" for c
    unfolding screened_def
  proof (intro allI impI)
    fix n u
    assume "subvalue n c u"
    with that have "subvalue (Suc n) (JArray vs) u" by (rule subvalue.in_item)
    with L have "d + Suc n \<le> maxScanDepth \<and> node_clean u" unfolding screened_def by blast
    then show "Suc d + n \<le> maxScanDepth \<and> node_clean u" by simp
  qed
  ultimately show "d \<le> maxScanDepth \<and> (\<forall>c \<in> set vs. screened (Suc d) c)"
    by blast
next
  assume R: "d \<le> maxScanDepth \<and> (\<forall>c \<in> set vs. screened (Suc d) c)"
  then show "screened d (JArray vs)"
    by (auto simp: screened_def elim!: subvalue_JArray)
qed

lemma screen_walk:
  "screenValue path v d = None \<longleftrightarrow> screened d v"
  "screenMembers path ms d = None \<longleftrightarrow> (\<forall>(k, c) \<in> set ms. \<not> blocked k \<and> screened (Suc d) c)"
  "screenItems path i vs d = None \<longleftrightarrow> (\<forall>c \<in> set vs. screened (Suc d) c)"
proof (induction path v d and path ms d and path i vs d
    rule: screenValue_screenMembers_screenItems.induct)
  case (1 path v depth)
  then show ?case
    by (cases v)
      (simp_all add: screenValue.simps [of path] screened_leaf screened_JObject screened_JArray)
qed (auto split: option.splits)

text \<open>The order in which Go iterates a map does not decide whether a bag is accepted.\<close>

lemma ScreenMetadata_order:
  "set m = set m' \<Longrightarrow> (ScreenMetadata m = None) = (ScreenMetadata m' = None)"
  by (simp add: ScreenMetadata_def screen_walk screened_JObject)

section \<open>Properties\<close>


text \<open>
  The checksum rejects every single-digit misreading of a valid number, and every swap
  of two neighbouring digits except 0 and 9: a PAN mistyped in one place is not taken for
  another PAN.
\<close>

theorem luhn_detects_errors:
  assumes "luhnValid (xs @ c # ys)"
  shows "(d \<noteq> c \<longrightarrow> \<not> luhnValid (xs @ d # ys)) \<and>
    (ys = b # zs \<and> b \<noteq> c \<and> {digit_val c, digit_val b} \<noteq> {0, 9} \<longrightarrow> \<not> luhnValid (xs @ b # c # zs))"
proof (rule conjI)
  let ?p = "odd (length ys)"
  have valid: "luhnValid (xs @ e # ys) \<Longrightarrow> is_digit e \<and>
      (luhn_spec False (rev ys) + luhn_weight ?p e + luhn_spec (\<not> ?p) (rev xs)) mod 10 = 0" for e
    by (simp add: luhnValid_iff luhn_spec_append add.assoc)
  show "d \<noteq> c \<longrightarrow> \<not> luhnValid (xs @ d # ys)"
  proof (intro impI notI)
    assume "d \<noteq> c" and "luhnValid (xs @ d # ys)"
    have "luhn_weight ?p c mod 10 = luhn_weight ?p d mod 10"
      by (rule mod10_cancel [of "luhn_spec False (rev ys)" _ "luhn_spec (\<not> ?p) (rev xs)"])
        (simp only: valid [OF assms] valid [OF \<open>luhnValid (xs @ d # ys)\<close>])
    moreover have "luhn_weight ?p c \<le> 9" "luhn_weight ?p d \<le> 9"
      using valid [OF assms] valid [OF \<open>luhnValid (xs @ d # ys)\<close>] luhn_weight_le by blast+
    ultimately show False
      using luhn_weight_inj [of c d ?p] \<open>d \<noteq> c\<close> valid [OF assms]
        valid [OF \<open>luhnValid (xs @ d # ys)\<close>] by simp
  qed
  let ?q = "odd (length zs)"
  have two: "luhnValid (xs @ e # f # zs) \<Longrightarrow> is_digit e \<and> is_digit f \<and>
      (luhn_spec False (rev zs) + (luhn_weight ?q f + luhn_weight (\<not> ?q) e) + luhn_spec ?q (rev xs)) mod 10 = 0"
    for e f
    by (simp add: luhnValid_iff luhn_spec_append add.assoc split: if_splits)
  show "ys = b # zs \<and> b \<noteq> c \<and> {digit_val c, digit_val b} \<noteq> {0, 9} \<longrightarrow> \<not> luhnValid (xs @ b # c # zs)"
  proof (intro impI notI; elim conjE)
    assume "ys = b # zs" "b \<noteq> c" "{digit_val c, digit_val b} \<noteq> {0, 9}" "luhnValid (xs @ b # c # zs)"
    then have d: "is_digit b" "is_digit c"
      and eq: "(luhn_spec False (rev zs) + (luhn_weight ?q b + luhn_weight (\<not> ?q) c) + luhn_spec ?q (rev xs)) mod 10 =
        (luhn_spec False (rev zs) + (luhn_weight ?q c + luhn_weight (\<not> ?q) b) + luhn_spec ?q (rev xs)) mod 10"
      using two [of c b] two [of b c] assms by simp_all
    from luhn_weight_swap [OF d eq] show False
      using \<open>b \<noteq> c\<close> \<open>{digit_val c, digit_val b} \<noteq> {0, 9}\<close> digit_val_inj [OF d]
      by (metis insert_commute)
  qed
qed

theorem luhn_detects_errors_witness:
  "luhnValid ''4111111111111111'' \<and> \<not> luhnValid ''4112111111111111'' \<and> \<not> luhnValid ''1411111111111111''"
proof -
  have v: "luhnValid ([] @ CHR ''4'' # ''111111111111111'')" "luhnValid (''411'' @ CHR ''1'' # ''111111111111'')"
    by code_simp+
  have "\<not> luhnValid (''411'' @ CHR ''2'' # ''111111111111'')"
    using luhn_detects_errors [OF v(2), of "CHR ''2''"] by simp
  moreover have "{digit_val CHR ''4'', digit_val CHR ''1''} \<noteq> {0, 9}"
    by (auto simp: digit_val_def byte_def doubleton_eq_iff)
  then have "\<not> luhnValid ([] @ CHR ''1'' # CHR ''4'' # ''11111111111111'')"
    using luhn_detects_errors [OF v(1), of _ "CHR ''1''" "''11111111111111''"] by simp
  ultimately show ?thesis using v(1) by simp
qed

text \<open>
  A card number stays visible however it is written: if the digits form a PAN, then any
  spelling of them with at most one space or hyphen between two digits is found, whatever
  text surrounds it, as long as that text does not continue the run and the number lies in
  the first 4096 bytes.
\<close>

theorem ContainsCardNumber_formatted:
  assumes "runIsPAN ds" and "formatted ds t"
    and "pre = [] \<or> \<not> is_digit (List.last pre) \<and> \<not> is_sep (List.last pre)"
    and "run_ends post" and "length (pre @ t @ post) \<le> maxScanLen"
  shows "ContainsCardNumber (pre @ t @ post)"
proof -
  have "scan [] (t @ post)"
    using assms by (intro scan_formatted) simp_all
  then have "scan [] (pre @ t @ post)"
  proof (cases "pre = []")
    case False
    with \<open>scan [] (t @ post)\<close> assms(3) show ?thesis by (blast intro: scan_prefix)
  qed simp
  with assms(5) show ?thesis by (simp add: ContainsCardNumber_def del: scan.simps)
qed

theorem ContainsCardNumber_formatted_witness:
  "ContainsCardNumber (''ref:'' @ ''4111 1111-1111 1111'' @ '' paid'')"
proof (rule ContainsCardNumber_formatted)
  show "runIsPAN ''4111111111111111''" by code_simp
  show "formatted ''4111111111111111'' ''4111 1111-1111 1111''"
    by ((rule formatted.separated, (simp add: is_digit_def byte_def; fail), (simp add: is_sep_def; fail))
      | (rule formatted.last, (simp add: is_digit_def byte_def; fail))
      | (rule formatted.adjacent, (simp add: is_digit_def byte_def; fail)))+
  show "''ref:'' = [] \<or> \<not> is_digit (List.last ''ref:'') \<and> \<not> is_sep (List.last ''ref:'')"
    by (simp add: is_digit_def is_sep_def byte_def)
  show "run_ends '' paid''" by (simp add: is_digit_def is_sep_def byte_def)
  show "length (''ref:'' @ ''4111 1111-1111 1111'' @ '' paid'') \<le> maxScanLen"
    by (simp add: maxScanLen_def)
qed

text \<open>
  Two separators in a row are not treated as formatting: they end the run, so a PAN
  written in groups of four with two spaces between them is not found, although the same
  digits with one space are.
\<close>

theorem double_separator_hides_PAN:
  "\<not> ContainsCardNumber ''4111  1111  1111  1111'' \<and> ContainsCardNumber ''4111 1111 1111 1111''"
  by code_simp

end
