(* ===== verification/Domain_Transaction.thy ===== *)
theory Domain_Transaction
  imports Domain_Sensitive
begin

text \<open>
  The transaction types of \<^verbatim>\<open>internal/domain/transaction.go\<close> and the event envelope of
  \<^verbatim>\<open>internal/domain/event.go\<close>: the two legs, what a provider's verdict means, how much of
  the money has arrived, and the shape checks on incoming events.
\<close>

section \<open>Verdicts on the credit leg\<close>

datatype CreditStatus = CreditSuccess | CreditFailed | CreditUnknown | CreditOther string

definition CreditStatus_Valid :: "CreditStatus \<Rightarrow> bool" where
  "CreditStatus_Valid c \<longleftrightarrow> c = CreditSuccess \<or> c = CreditFailed \<or> c = CreditUnknown"

fun TargetStatus :: "CreditStatus \<Rightarrow> goerror + status" where
  "TargetStatus CreditSuccess = Inr StatusCompleted"
| "TargetStatus CreditFailed = Inr StatusOrphaned"
| "TargetStatus CreditUnknown = Inr StatusPendingUnknown"
| "TargetStatus (CreditOther c) = Inl (ErrUnknownCreditStatus c)"

section \<open>Transactions\<close>

record transaction =
  tx_ID :: int
  tx_TenantID :: string
  tx_TransactionID :: string
  tx_IdempotencyKey :: string
  tx_TransactionType :: string
  tx_Provider :: string
  tx_AmountMinor :: int
  tx_Currency :: string
  tx_Status :: status
  tx_DebitAt :: gotime
  tx_CreditAt :: "gotime option"
  tx_ExpectedCompletionAt :: gotime
  tx_DetectedAt :: "gotime option"
  tx_ReversalTriggeredAt :: "gotime option"
  tx_ReversalCompletedAt :: "gotime option"
  tx_CustomerRefHash :: string
  tx_ExpectedCreditMinor :: int
  tx_CreditedMinor :: int
  tx_Metadata :: "(string \<times> json) list"
  tx_IsBackfill :: bool
  tx_SLAWarnedAt :: "gotime option"
  tx_CreatedAt :: gotime
  tx_UpdatedAt :: gotime

text \<open>Go's zero value, from which a composite literal starts.\<close>

definition tx_zero :: transaction where
  "tx_zero = \<lparr>tx_ID = 0, tx_TenantID = '''', tx_TransactionID = '''', tx_IdempotencyKey = '''',
    tx_TransactionType = '''', tx_Provider = '''', tx_AmountMinor = 0, tx_Currency = '''',
    tx_Status = StatusPendingDebit, tx_DebitAt = 0, tx_CreditAt = None, tx_ExpectedCompletionAt = 0,
    tx_DetectedAt = None, tx_ReversalTriggeredAt = None, tx_ReversalCompletedAt = None,
    tx_CustomerRefHash = '''', tx_ExpectedCreditMinor = 0, tx_CreditedMinor = 0, tx_Metadata = [],
    tx_IsBackfill = False, tx_SLAWarnedAt = None, tx_CreatedAt = 0, tx_UpdatedAt = 0\<rparr>"

definition Window :: "transaction \<Rightarrow> duration" where
  "Window t = time_sub (tx_ExpectedCompletionAt t) (tx_DebitAt t)"

definition IsExpiredAt :: "transaction \<Rightarrow> gotime \<Rightarrow> bool" where
  "IsExpiredAt t now \<longleftrightarrow> IsOpen (tx_Status t) \<and> \<not> now < tx_ExpectedCompletionAt t"

definition ExpectedCredit :: "transaction \<Rightarrow> int" where
  "ExpectedCredit t =
    (if tx_ExpectedCreditMinor t > 0 then tx_ExpectedCreditMinor t else tx_AmountMinor t)"

definition ShortfallMinor :: "transaction \<Rightarrow> int" where
  "ShortfallMinor t =
    (let short = wrap64 (ExpectedCredit t - tx_CreditedMinor t)
     in if short < 0 then 0 else short)"

section \<open>Events\<close>

record DebitEvent =
  de_TenantID :: string
  de_TransactionID :: string
  de_IdempotencyKey :: string
  de_TransactionType :: string
  de_Provider :: string
  de_AmountMinor :: int
  de_Currency :: string
  de_DebitAt :: gotime
  de_CustomerRef :: string
  de_Metadata :: "(string \<times> json) list"
  de_ExpectedCreditMinor :: int
  de_IsBackfill :: bool

record CreditEvent =
  ce_TenantID :: string
  ce_TransactionID :: string
  ce_IdempotencyKey :: string
  ce_CreditAt :: gotime
  ce_ProviderReference :: string
  ce_Status :: CreditStatus
  ce_AmountMinor :: int
  ce_Currency :: string

record ReversalCompletedEvent =
  rce_TenantID :: string
  rce_TransactionID :: string
  rce_CompletedAt :: gotime

section \<open>Validation\<close>

definition maxIdentifierLen :: nat where "maxIdentifierLen = 255"
definition maxMetadataKeys :: nat where "maxMetadataKeys = 50"

definition requireIdentifier :: "string \<Rightarrow> string \<Rightarrow> goerror option" where
  "requireIdentifier field v =
    (if v = '''' then Some (ValidationError field ''is required'')
     else if length v > maxIdentifierLen then Some (ValidationError field ''exceeds 255 characters'')
     else None)"

text \<open>
  The loop of the code ranges over runes; in a string of three bytes a rune outside A-Z is
  found exactly when a byte outside A-Z is.
\<close>

definition validateCurrency :: "string \<Rightarrow> goerror option" where
  "validateCurrency c =
    (if length c \<noteq> 3 then Some (ValidationError ''currency'' ''must be a 3-letter ISO 4217 code'')
     else if list_ex (\<lambda>r. byte r < 65 \<or> byte r > 90) c
     then Some (ValidationError ''currency'' ''must be uppercase A-Z'')
     else None)"

text \<open>\<open>first_error\<close> is the chain of \<^verbatim>\<open>if err := ...; err != nil { return err }\<close> statements.\<close>

fun first_error :: "goerror option list \<Rightarrow> goerror option" where
  "first_error [] = None"
| "first_error (Some e # es) = Some e"
| "first_error (None # es) = first_error es"

lemma first_error_None [simp]: "first_error es = None \<longleftrightarrow> set es \<subseteq> {None}"
  by (induction es rule: first_error.induct) auto

definition check :: "bool \<Rightarrow> string \<Rightarrow> string \<Rightarrow> goerror option" where
  "check bad field reason = (if bad then Some (ValidationError field reason) else None)"

lemma check_None [simp]: "check bad f r = None \<longleftrightarrow> \<not> bad"
  by (simp add: check_def)

definition DebitEvent_Validate :: "DebitEvent \<Rightarrow> goerror option" where
  "DebitEvent_Validate e = first_error
    [requireIdentifier ''tenant_id'' (de_TenantID e),
     requireIdentifier ''transaction_id'' (de_TransactionID e),
     requireIdentifier ''idempotency_key'' (de_IdempotencyKey e),
     requireIdentifier ''transaction_type'' (de_TransactionType e),
     check (length (de_Provider e) > maxIdentifierLen) ''provider'' ''exceeds 255 characters'',
     check (de_AmountMinor e \<le> 0) ''amount_minor'' ''must be greater than zero'',
     validateCurrency (de_Currency e),
     check (IsZero (de_DebitAt e)) ''debit_at'' ''is required'',
     check (length (de_Metadata e) > maxMetadataKeys) ''metadata'' ''exceeds 50 keys'']"

definition CreditEvent_Validate :: "CreditEvent \<Rightarrow> goerror option" where
  "CreditEvent_Validate e = first_error
    [requireIdentifier ''tenant_id'' (ce_TenantID e),
     requireIdentifier ''transaction_id'' (ce_TransactionID e),
     requireIdentifier ''idempotency_key'' (ce_IdempotencyKey e),
     check (IsZero (ce_CreditAt e)) ''credit_at'' ''is required'',
     check (\<not> CreditStatus_Valid (ce_Status e)) ''status'' ''must be one of success, failed, unknown'',
     check (length (ce_ProviderReference e) > maxIdentifierLen) ''provider_reference'' ''exceeds 255 characters'']"

definition ReversalCompletedEvent_Validate :: "ReversalCompletedEvent \<Rightarrow> goerror option" where
  "ReversalCompletedEvent_Validate e = first_error
    [requireIdentifier ''tenant_id'' (rce_TenantID e),
     requireIdentifier ''transaction_id'' (rce_TransactionID e),
     check (IsZero (rce_CompletedAt e)) ''completed_at'' ''is required'']"

section \<open>The envelope\<close>

text \<open>
  The envelope holds two pointers and nothing stops both or neither from being set; the
  model keeps both fields so that the malformed shapes exist.
\<close>

record Event =
  ev_Debit :: "DebitEvent option"
  ev_Credit :: "CreditEvent option"

definition NewDebitEvent :: "DebitEvent \<Rightarrow> Event" where
  "NewDebitEvent e = \<lparr>ev_Debit = Some e, ev_Credit = None\<rparr>"

definition NewCreditEvent :: "CreditEvent \<Rightarrow> Event" where
  "NewCreditEvent e = \<lparr>ev_Debit = None, ev_Credit = Some e\<rparr>"

definition Event_TenantID :: "Event \<Rightarrow> string" where
  "Event_TenantID e =
    (case ev_Debit e of
       Some d \<Rightarrow> de_TenantID d
     | None \<Rightarrow> (case ev_Credit e of Some c \<Rightarrow> ce_TenantID c | None \<Rightarrow> ''''))"

definition Event_TransactionID :: "Event \<Rightarrow> string" where
  "Event_TransactionID e =
    (case ev_Debit e of
       Some d \<Rightarrow> de_TransactionID d
     | None \<Rightarrow> (case ev_Credit e of Some c \<Rightarrow> ce_TransactionID c | None \<Rightarrow> ''''))"

definition Event_Validate :: "Event \<Rightarrow> goerror option" where
  "Event_Validate e =
    (case (ev_Debit e, ev_Credit e) of
       (Some d, Some c) \<Rightarrow> Some ErrEmptyEvent
     | (Some d, None) \<Rightarrow> DebitEvent_Validate d
     | (None, Some c) \<Rightarrow> CreditEvent_Validate c
     | (None, None) \<Rightarrow> Some ErrEmptyEvent)"

section \<open>Facts about events\<close>

definition ident_ok :: "string \<Rightarrow> bool" where
  "ident_ok v \<longleftrightarrow> v \<noteq> '''' \<and> length v \<le> maxIdentifierLen"

lemma requireIdentifier_None [simp]: "requireIdentifier f v = None \<longleftrightarrow> ident_ok v"
  by (auto simp: requireIdentifier_def ident_ok_def)

lemma validateCurrency_None [simp]:
  "validateCurrency c = None \<longleftrightarrow> length c = 3 \<and> list_all (\<lambda>r. 65 \<le> byte r \<and> byte r \<le> 90) c"
proof -
  have "list_ex (\<lambda>r. byte r < 65 \<or> byte r > 90) c \<longleftrightarrow> \<not> list_all (\<lambda>r. 65 \<le> byte r \<and> byte r \<le> 90) c"
    unfolding list_ex_iff list_all_iff by (meson not_less)
  then show ?thesis by (simp add: validateCurrency_def)
qed

lemma DebitEvent_Validate_None:
  "DebitEvent_Validate e = None \<longleftrightarrow>
    ident_ok (de_TenantID e) \<and> ident_ok (de_TransactionID e) \<and> ident_ok (de_IdempotencyKey e) \<and>
    ident_ok (de_TransactionType e) \<and> length (de_Provider e) \<le> maxIdentifierLen \<and>
    0 < de_AmountMinor e \<and> validateCurrency (de_Currency e) = None \<and> de_DebitAt e \<noteq> 0 \<and>
    length (de_Metadata e) \<le> maxMetadataKeys"
  by (auto simp: DebitEvent_Validate_def IsZero_def)

lemma CreditEvent_Validate_None:
  "CreditEvent_Validate e = None \<longleftrightarrow>
    ident_ok (ce_TenantID e) \<and> ident_ok (ce_TransactionID e) \<and> ident_ok (ce_IdempotencyKey e) \<and>
    ce_CreditAt e \<noteq> 0 \<and> CreditStatus_Valid (ce_Status e) \<and> length (ce_ProviderReference e) \<le> maxIdentifierLen"
  by (auto simp: CreditEvent_Validate_def IsZero_def)

lemma TargetStatus_Valid: "CreditStatus_Valid c \<longleftrightarrow> (\<exists>t. TargetStatus c = Inr t)"
  by (cases c) (simp_all add: CreditStatus_Valid_def)

lemma TargetStatus_Inr:
  "TargetStatus c = Inr t \<Longrightarrow> t \<in> {StatusCompleted, StatusOrphaned, StatusPendingUnknown}"
  by (cases c) auto

lemma Event_Validate_cases:
  assumes "Event_Validate e = None"
  obtains (debit) d where "ev_Debit e = Some d" "ev_Credit e = None" "DebitEvent_Validate d = None"
  | (credit) c where "ev_Debit e = None" "ev_Credit e = Some c" "CreditEvent_Validate c = None"
  using assms by (auto simp: Event_Validate_def split: option.splits)

text \<open>
  An event passes validation exactly when it carries one leg and that leg is well
  formed: identifiers present and at most 255 bytes, a positive debit amount, a three-letter
  upper-case currency, a non-zero time, at most 50 metadata keys, a known verdict. In
  particular a validated credit has a target status, and a validated event always has a
  tenant and a transaction id, which is what correlation relies on.
\<close>

theorem Event_Validate_exact:
  "Event_Validate e = None \<longleftrightarrow>
    (\<exists>d. e = NewDebitEvent d \<and>
      list_all ident_ok [de_TenantID d, de_TransactionID d, de_IdempotencyKey d, de_TransactionType d] \<and>
      length (de_Provider d) \<le> 255 \<and> 0 < de_AmountMinor d \<and>
      (\<exists>x y z. de_Currency d = [x, y, z] \<and> list_all (\<lambda>r. 65 \<le> byte r \<and> byte r \<le> 90) [x, y, z]) \<and>
      de_DebitAt d \<noteq> 0 \<and> length (de_Metadata d) \<le> 50 \<and>
      ident_ok (Event_TenantID e) \<and> ident_ok (Event_TransactionID e)) \<or>
    (\<exists>c t. e = NewCreditEvent c \<and>
      list_all ident_ok [ce_TenantID c, ce_TransactionID c, ce_IdempotencyKey c] \<and>
      ce_CreditAt c \<noteq> 0 \<and> TargetStatus (ce_Status c) = Inr t \<and>
      length (ce_ProviderReference c) \<le> 255 \<and>
      ident_ok (Event_TenantID e) \<and> ident_ok (Event_TransactionID e))"
  (is "?L \<longleftrightarrow> ?R")
proof
  assume ?L
  then show ?R
  proof (cases rule: Event_Validate_cases)
    case (debit d)
    then have "e = NewDebitEvent d" by (simp add: NewDebitEvent_def)
    moreover have "\<exists>x y z. de_Currency d = [x, y, z]"
      using debit(3) by (auto simp: DebitEvent_Validate_None length_Suc_conv numeral_3_eq_3)
    ultimately show ?thesis
      using debit by (auto simp: DebitEvent_Validate_None maxIdentifierLen_def maxMetadataKeys_def
          Event_TenantID_def Event_TransactionID_def)
  next
    case (credit c)
    then have "e = NewCreditEvent c" by (simp add: NewCreditEvent_def)
    with credit show ?thesis
      by (auto simp: CreditEvent_Validate_None TargetStatus_Valid maxIdentifierLen_def
          Event_TenantID_def Event_TransactionID_def)
  qed
next
  assume ?R
  then show ?L
    by (auto simp: Event_Validate_def NewDebitEvent_def NewCreditEvent_def DebitEvent_Validate_None
        CreditEvent_Validate_None TargetStatus_Valid maxIdentifierLen_def maxMetadataKeys_def)
qed

end
