(* ===== verification/Rules.thy ===== *)
theory Rules
  imports Domain_Transaction "HOL-Library.Product_Lexorder"
begin

text \<open>
  Reconciliation rules: \<^verbatim>\<open>internal/rules/rules.go\<close> (matching and choice of a rule) and
  \<^verbatim>\<open>internal/rules/provider.go\<close> (the per-tenant cache in front of the rules table).
\<close>

section \<open>Rules\<close>

definition DefaultWindow :: duration where "DefaultWindow = 300 * second"

datatype Action = ActionAutoReverse | ActionAlertOnly | ActionInvestigate | ActionOther string

record Rule =
  r_ID :: int
  r_TransactionType :: string
  r_Provider :: string
  r_Currency :: string
  r_MinAmountMinor :: "int option"
  r_MaxAmountMinor :: "int option"
  r_WindowSeconds :: int
  r_Action :: Action
  r_Priority :: int
  r_Enabled :: bool

definition specificity :: "Rule \<Rightarrow> int" where
  "specificity r =
    int (length (filter (\<lambda>s. s \<noteq> '''') [r_TransactionType r, r_Provider r, r_Currency r]))
    + (if r_MinAmountMinor r \<noteq> None then 1 else 0)
    + (if r_MaxAmountMinor r \<noteq> None then 1 else 0)"

definition matches :: "Rule \<Rightarrow> transaction \<Rightarrow> bool" where
  "matches r t =
    (if \<not> r_Enabled r then False
     else if r_TransactionType r \<noteq> '''' \<and> r_TransactionType r \<noteq> tx_TransactionType t then False
     else if r_Provider r \<noteq> '''' \<and> r_Provider r \<noteq> tx_Provider t then False
     else if r_Currency r \<noteq> '''' \<and> r_Currency r \<noteq> tx_Currency t then False
     else if (case r_MinAmountMinor r of None \<Rightarrow> False | Some m \<Rightarrow> tx_AmountMinor t < m) then False
     else if (case r_MaxAmountMinor r of None \<Rightarrow> False | Some m \<Rightarrow> tx_AmountMinor t > m) then False
     else True)"

record Resolution =
  res_Window :: duration
  res_Action :: Action
  res_RuleID :: int

definition NewSet :: "Rule list \<Rightarrow> Rule list" where
  "NewSet rs = filter r_Enabled rs"

definition better :: "Rule \<Rightarrow> Rule \<Rightarrow> bool" where
  "better candidate current =
    (if r_Priority candidate \<noteq> r_Priority current then r_Priority candidate > r_Priority current
     else if specificity candidate \<noteq> specificity current then specificity candidate > specificity current
     else r_ID candidate < r_ID current)"

fun best_loop :: "Rule list \<Rightarrow> transaction \<Rightarrow> Rule option \<Rightarrow> Rule option" where
  "best_loop [] t best = best"
| "best_loop (r # rs) t best =
    (if \<not> matches r t then best_loop rs t best
     else case best of
            None \<Rightarrow> best_loop rs t (Some r)
          | Some b \<Rightarrow> if better r b then best_loop rs t (Some r) else best_loop rs t best)"

definition Resolve :: "Rule list \<Rightarrow> transaction \<Rightarrow> Resolution" where
  "Resolve rs t =
    (case best_loop rs t None of
       None \<Rightarrow> \<lparr>res_Window = DefaultWindow, res_Action = ActionAutoReverse, res_RuleID = 0\<rparr>
     | Some b \<Rightarrow> \<lparr>res_Window = wrap64 (r_WindowSeconds b * second), res_Action = r_Action b, res_RuleID = r_ID b\<rparr>)"

section \<open>The choice is a maximum\<close>

definition rank :: "Rule \<Rightarrow> int \<times> int \<times> int" where
  "rank r = (r_Priority r, specificity r, - r_ID r)"

lemma better_rank: "better r s \<longleftrightarrow> rank s < rank r"
  by (auto simp: better_def rank_def)

definition is_best :: "Rule set \<Rightarrow> transaction \<Rightarrow> Rule \<Rightarrow> bool" where
  "is_best R t b \<longleftrightarrow> b \<in> R \<and> matches b t \<and> (\<forall>r \<in> R. matches r t \<longrightarrow> rank r \<le> rank b)"

lemma best_loop_Some:
  "matches b t \<Longrightarrow> \<exists>b'. best_loop rs t (Some b) = Some b' \<and> is_best (insert b (set rs)) t b'"
proof (induction rs arbitrary: b)
  case Nil
  then show ?case by (simp add: is_best_def)
next
  case (Cons r rs)
  show ?case
  proof (cases "matches r t \<and> better r b")
    case True
    then obtain b' where "best_loop rs t (Some r) = Some b'" "is_best (insert r (set rs)) t b'"
      using Cons.IH by blast
    moreover have "rank b \<le> rank r" using True better_rank less_imp_le by blast
    ultimately show ?thesis
      using True by (auto simp: is_best_def intro: order_trans)
  next
    case False
    obtain b' where "best_loop rs t (Some b) = Some b'" "is_best (insert b (set rs)) t b'"
      using Cons by blast
    moreover have "matches r t \<longrightarrow> rank r \<le> rank b" using False by (auto simp: better_rank)
    ultimately show ?thesis
      using False Cons.prems by (auto simp: is_best_def intro: order_trans)
  qed
qed

lemma best_loop_None:
  "case best_loop rs t None of
     None \<Rightarrow> \<forall>r \<in> set rs. \<not> matches r t
   | Some b \<Rightarrow> is_best (set rs) t b"
proof (induction rs)
  case (Cons r rs)
  show ?case
  proof (cases "matches r t")
    case True
    then obtain b' where "best_loop rs t (Some r) = Some b'" "is_best (insert r (set rs)) t b'"
      using best_loop_Some by blast
    with True show ?thesis by simp
  next
    case False
    with Cons show ?thesis by (auto simp: is_best_def split: option.splits)
  qed
qed simp

lemma best_loop_eq_Some: "best_loop rs t None = Some b \<Longrightarrow> is_best (set rs) t b"
  using best_loop_None [of rs t] by simp

lemma best_loop_eq_None: "best_loop rs t None = None \<longleftrightarrow> (\<forall>r \<in> set rs. \<not> matches r t)"
  using best_loop_None [of rs t] by (auto simp: is_best_def split: option.splits)

lemma is_best_unique:
  assumes "inj_on r_ID R" "is_best R t a" "is_best R t b"
  shows "a = b"
proof -
  have "rank a = rank b"
    using assms(2,3) by (auto simp: is_best_def intro: antisym)
  then show ?thesis
    using assms by (auto simp: rank_def is_best_def inj_on_def)
qed

lemma matches_enabled: "matches r t \<Longrightarrow> r_Enabled r"
  by (simp add: matches_def split: if_splits)

lemma is_best_NewSet: "is_best (set (NewSet rs)) t b \<longleftrightarrow> is_best (set rs) t b"
  by (auto simp: is_best_def NewSet_def dest: matches_enabled)

lemma best_of_set:
  assumes "inj_on r_ID (set rs)" "is_best (set rs) t b"
  shows "best_loop rs t None = Some b"
proof (cases "best_loop rs t None")
  case None
  with assms(2) show ?thesis by (auto simp: best_loop_eq_None is_best_def)
next
  case (Some c)
  with assms is_best_unique [OF assms(1)] best_loop_eq_Some show ?thesis by blast
qed

text \<open>
  C39. The rule that decides a transaction's window is the enabled matching rule of highest
  priority, ties broken by more constraints set and then by lower id; with distinct ids it
  does not depend on the order the rules were read in. If none matches, the default of 300
  seconds applies.
\<close>

theorem Resolve_best:
  assumes ids: "inj_on r_ID (set rs)"
  shows "if (\<exists>r \<in> set rs. matches r t)
    then \<exists>b. is_best (set rs) t b \<and>
      (\<forall>rs'. set rs' = set rs \<longrightarrow> Resolve (NewSet rs') t =
        \<lparr>res_Window = wrap64 (r_WindowSeconds b * second), res_Action = r_Action b, res_RuleID = r_ID b\<rparr>)
    else Resolve (NewSet rs) t =
      \<lparr>res_Window = 300 * second, res_Action = ActionAutoReverse, res_RuleID = 0\<rparr>"
proof (cases "\<exists>r \<in> set rs. matches r t")
  case True
  then obtain b where b: "is_best (set rs) t b"
    using best_loop_eq_None best_loop_eq_Some by (metis option.exhaust)
  have "Resolve (NewSet rs') t =
      \<lparr>res_Window = wrap64 (r_WindowSeconds b * second), res_Action = r_Action b, res_RuleID = r_ID b\<rparr>"
    if "set rs' = set rs" for rs'
  proof -
    have "is_best (set (NewSet rs')) t b"
      using b that by (simp add: is_best_NewSet)
    moreover have "inj_on r_ID (set (NewSet rs'))"
      using ids that by (auto simp: NewSet_def inj_on_def)
    ultimately have "best_loop (NewSet rs') t None = Some b"
      by (intro best_of_set)
    then show ?thesis by (simp add: Resolve_def)
  qed
  with True b show ?thesis by auto
next
  case False
  then have "best_loop (NewSet rs) t None = None"
    by (auto simp: best_loop_eq_None NewSet_def)
  with False show ?thesis by (simp add: Resolve_def DefaultWindow_def)
qed

theorem Resolve_best_witness:
  "Resolve (NewSet
      [\<lparr>r_ID = 1, r_TransactionType = [], r_Provider = [], r_Currency = [], r_MinAmountMinor = None,
        r_MaxAmountMinor = None, r_WindowSeconds = 600, r_Action = ActionAutoReverse, r_Priority = 5, r_Enabled = True\<rparr>,
       \<lparr>r_ID = 2, r_TransactionType = [], r_Provider = ''nip'', r_Currency = [], r_MinAmountMinor = Some 100,
        r_MaxAmountMinor = None, r_WindowSeconds = 60, r_Action = ActionAlertOnly, r_Priority = 5, r_Enabled = True\<rparr>])
    (tx_zero\<lparr>tx_Provider := ''nip'', tx_AmountMinor := 500\<rparr>)
   = \<lparr>res_Window = 60 * second, res_Action = ActionAlertOnly, res_RuleID = 2\<rparr>"
  (is "Resolve (NewSet [?r, ?s]) ?t = _")
proof -
  have inj: "inj_on r_ID (set [?r, ?s])" by simp
  have m: "matches ?s ?t" by (simp add: matches_def)
  then have "\<exists>r \<in> set [?r, ?s]. matches r ?t" by simp
  with Resolve_best [OF inj, of ?t] obtain b where b: "is_best (set [?r, ?s]) ?t b"
    and res: "Resolve (NewSet [?r, ?s]) ?t =
      \<lparr>res_Window = wrap64 (r_WindowSeconds b * second), res_Action = r_Action b, res_RuleID = r_ID b\<rparr>"
    by (auto simp only: if_True)
  from b have "b = ?s"
    using m by (auto simp: is_best_def rank_def specificity_def)
  with res show ?thesis by (simp add: wrap64_def)
qed

section \<open>The cached provider\<close>

definition DefaultCacheTTL :: duration where "DefaultCacheTTL = 15 * second"

record entry =
  e_set :: "Rule list"
  e_expiresAt :: gotime

record Provider =
  p_ttl :: duration
  p_cached :: "(string \<times> entry) list"

definition NewProvider :: "duration \<Rightarrow> Provider" where
  "NewProvider ttl = \<lparr>p_ttl = (if ttl \<le> 0 then DefaultCacheTTL else ttl), p_cached = []\<rparr>"

text \<open>
  One call reads the clock twice: \<open>now\<close> before the load and \<open>now'\<close> after it. \<open>loaded\<close> is
  what the loader returns if it is asked.
\<close>

definition Provider_Resolve ::
  "Provider \<Rightarrow> string \<Rightarrow> goerror + Rule list \<Rightarrow> gotime \<Rightarrow> gotime \<Rightarrow> Provider \<times> (goerror + Rule list)" where
  "Provider_Resolve p tenantID loaded now now' =
    (let e = map_of (p_cached p) tenantID
     in if (case e of Some x \<Rightarrow> now < e_expiresAt x | None \<Rightarrow> False)
        then (p, Inr (e_set (the e)))
        else case loaded of
          Inl err \<Rightarrow> (case e of Some x \<Rightarrow> (p, Inr (e_set x)) | None \<Rightarrow> (p, Inl err))
        | Inr rs \<Rightarrow>
            (let s = NewSet rs
             in (p\<lparr>p_cached := AList.update tenantID \<lparr>e_set = s, e_expiresAt = now' + p_ttl p\<rparr> (p_cached p)\<rparr>,
                 Inr s)))"

definition Invalidate :: "Provider \<Rightarrow> string \<Rightarrow> Provider" where
  "Invalidate p tenantID = p\<lparr>p_cached := AList.delete tenantID (p_cached p)\<rparr>"

text \<open>
  A run of the provider against a rules table that changes over time: \<open>table u tenant\<close> is
  the table at instant \<open>u\<close>. A call starts at \<open>c_now\<close>, reads the table at \<open>c_read\<close> if it
  loads, and stores the result at \<open>c_done\<close>.
\<close>

record call =
  c_tenant :: string
  c_now :: gotime
  c_read :: gotime
  c_done :: gotime

datatype pop = Call call | Drop string

fun provider_run ::
  "(gotime \<Rightarrow> string \<Rightarrow> Rule list) \<Rightarrow> Provider \<Rightarrow> pop list \<Rightarrow> (call \<times> (goerror + Rule list)) list" where
  "provider_run table p [] = []"
| "provider_run table p (Call c # ops) =
    (let (p', r) = Provider_Resolve p (c_tenant c) (Inr (table (c_read c) (c_tenant c))) (c_now c) (c_done c)
     in (c, r) # provider_run table p' ops)"
| "provider_run table p (Drop t # ops) = provider_run table (Invalidate p t) ops"

definition timed :: "duration \<Rightarrow> call \<Rightarrow> bool" where
  "timed D c \<longleftrightarrow> c_now c \<le> c_read c \<and> c_read c \<le> c_done c \<and> c_done c \<le> c_read c + D"

definition cache_ok ::
  "(gotime \<Rightarrow> string \<Rightarrow> Rule list) \<Rightarrow> duration \<Rightarrow> Provider \<Rightarrow> bool" where
  "cache_ok table D p \<longleftrightarrow>
    (\<forall>tenant e. map_of (p_cached p) tenant = Some e \<longrightarrow>
      (\<exists>u. e_set e = NewSet (table u tenant) \<and> e_expiresAt e \<le> u + D + p_ttl p))"

definition fresh :: "(gotime \<Rightarrow> string \<Rightarrow> Rule list) \<Rightarrow> duration \<Rightarrow> call \<Rightarrow> goerror + Rule list \<Rightarrow> bool" where
  "fresh table bound c r \<longleftrightarrow>
    (\<exists>u. r = Inr (NewSet (table u (c_tenant c))) \<and> c_now c < u + bound)"

lemma Resolve_cache_ok:
  assumes "cache_ok table D p" "timed D c" "0 < p_ttl p"
    and "Provider_Resolve p (c_tenant c) (Inr (table (c_read c) (c_tenant c))) (c_now c) (c_done c) = (p', r)"
  shows "cache_ok table D p' \<and> fresh table (D + p_ttl p) c r \<and> p_ttl p' = p_ttl p"
proof (cases "case map_of (p_cached p) (c_tenant c) of Some x \<Rightarrow> c_now c < e_expiresAt x | None \<Rightarrow> False")
  case True
  then obtain x where x: "map_of (p_cached p) (c_tenant c) = Some x" "c_now c < e_expiresAt x"
    by (auto split: option.splits)
  with assms(4) have "p' = p" "r = Inr (e_set x)"
    by (simp_all add: Provider_Resolve_def)
  moreover obtain u where "e_set x = NewSet (table u (c_tenant c))" "e_expiresAt x \<le> u + D + p_ttl p"
    using assms(1) x(1) by (auto simp: cache_ok_def)
  ultimately show ?thesis
    using assms(1) x(2) by (fastforce simp: fresh_def)
next
  case False
  let ?s = "NewSet (table (c_read c) (c_tenant c))"
  from False assms(4) have p': "p' = p\<lparr>p_cached := AList.update (c_tenant c)
      \<lparr>e_set = ?s, e_expiresAt = c_done c + p_ttl p\<rparr> (p_cached p)\<rparr>" and r: "r = Inr ?s"
    by (auto simp: Provider_Resolve_def Let_def)
  have "cache_ok table D p'"
    using assms(1,2) by (auto simp: cache_ok_def p' update_conv timed_def)
  moreover have "fresh table (D + p_ttl p) c r"
    using assms(2,3) by (auto simp: fresh_def r timed_def intro!: exI [of _ "c_read c"])
  ultimately show ?thesis by (simp add: p')
qed

lemma cache_ok_Invalidate: "cache_ok table D p \<Longrightarrow> cache_ok table D (Invalidate p t)"
  by (auto simp: cache_ok_def Invalidate_def delete_conv split: if_splits)

lemma provider_run_fresh:
  "cache_ok table D p \<Longrightarrow> 0 < p_ttl p \<Longrightarrow> \<forall>c. Call c \<in> set ops \<longrightarrow> timed D c \<Longrightarrow>
    (c, r) \<in> set (provider_run table p ops) \<Longrightarrow> fresh table (D + p_ttl p) c r"
proof (induction table p ops rule: provider_run.induct)
  case (2 table p d ops)
  obtain p' q where step: "Provider_Resolve p (c_tenant d) (Inr (table (c_read d) (c_tenant d))) (c_now d) (c_done d) = (p', q)"
    by fastforce
  from Resolve_cache_ok [OF "2.prems"(1) _ "2.prems"(2) step] "2.prems"(3)
  have ok: "cache_ok table D p'" "fresh table (D + p_ttl p) d q" "p_ttl p' = p_ttl p"
    by auto
  show ?case
  proof (cases "(c, r) = (d, q)")
    case False
    with "2.prems"(4) step have "(c, r) \<in> set (provider_run table p' ops)" by auto
    with "2.IH" [OF refl step [symmetric] ok(1)] "2.prems"(2,3) ok(3) step show ?thesis by auto
  qed (use ok in auto)
next
  case (3 table p t ops)
  have "p_ttl (Invalidate p t) = p_ttl p" by (simp add: Invalidate_def)
  with 3 show ?case by (auto intro: cache_ok_Invalidate)
qed simp

text \<open>
  As long as loads succeed, whatever the order of lookups and invalidations, and however the rules table changes
  meanwhile, a rule set the provider serves is the table of some instant less than the TTL
  plus one load time in the past: with the default TTL of 15 seconds, a change is in force
  everywhere after 15 seconds and the time one load takes.
\<close>

theorem Provider_staleness_bounded:
  assumes "\<forall>c. Call c \<in> set ops \<longrightarrow> timed D c"
    and "(c, r) \<in> set (provider_run table (NewProvider ttl) ops)"
  shows "\<exists>u. r = Inr (NewSet (table u (c_tenant c))) \<and>
    c_now c < u + D + (if ttl \<le> 0 then 15 * second else ttl)"
proof -
  have "cache_ok table D (NewProvider ttl)" by (simp add: cache_ok_def NewProvider_def)
  moreover have "0 < p_ttl (NewProvider ttl)" by (simp add: NewProvider_def DefaultCacheTTL_def)
  ultimately have "fresh table (D + p_ttl (NewProvider ttl)) c r"
    using assms by (rule provider_run_fresh)
  then show ?thesis
    by (auto simp: fresh_def NewProvider_def DefaultCacheTTL_def add.assoc split: if_splits)
qed

theorem Provider_staleness_bounded_witness:
  "\<exists>u. Inr [] = Inr (NewSet ((\<lambda>u tenant. []) u ''acme'')) \<and> 100 < u + 5 + 15 * second"
proof -
  let ?c = "\<lparr>c_tenant = ''acme'', c_now = 100, c_read = 102, c_done = 104\<rparr>"
  have "\<forall>c. Call c \<in> set [Drop ''acme'', Call ?c] \<longrightarrow> timed 5 c"
    by (simp add: timed_def)
  moreover have "(?c, Inr []) \<in> set (provider_run (\<lambda>u tenant. []) (NewProvider 0) [Drop ''acme'', Call ?c])"
    by (simp add: Provider_Resolve_def NewProvider_def Invalidate_def NewSet_def)
  ultimately show ?thesis
    using Provider_staleness_bounded [of "[Drop ''acme'', Call ?c]" 5 ?c "Inr []" "\<lambda>u tenant. []" 0]
    by simp
qed

end
