(* ===== verification/Audit_Chain.thy ===== *)
theory Audit_Chain
  imports Domain_Transaction "HOL-Library.Multiset"
begin

text \<open>
  The audit chain: \<^verbatim>\<open>internal/audit/audit.go\<close> (the hash of a record, the walk that verifies
  a chain) and \<^verbatim>\<open>internal/audit/checkpoint.go\<close> (signed chain heads).

  SHA-256 over the JSON encoding is a parameter \<open>digest\<close>: the theorems that need it assume
  that it does not collide on the contents they compare. The code prefixes its hex text
  with \<^verbatim>\<open>sha256:\<close>, which the model keeps, since an empty hash is what the first record links
  to. Ed25519, base64 and the encoding of the signed message are the fields of a record of
  functions, with what the code relies on as hypotheses.
\<close>

section \<open>Records and their hash\<close>

definition EventDetected :: string where "EventDetected = ''transaction.detected''"
definition EventReversalDispatched :: string where "EventReversalDispatched = ''reversal.dispatched''"
definition AuditReversalCompleted :: string where "AuditReversalCompleted = ''reversal.completed''"
definition AuditReversalFailed :: string where "AuditReversalFailed = ''reversal.failed''"
definition EventSettledByProvider :: string where "EventSettledByProvider = ''transaction.settled_by_provider''"
definition EventSilenceDetected :: string where "EventSilenceDetected = ''integration.silent''"
definition EventSilenceResolved :: string where "EventSilenceResolved = ''integration.recovered''"

type_synonym bag = "(string \<times> json) list"

text \<open>A nil map and an empty one are different Go values, hence the option.\<close>

record Record =
  ar_ID :: int
  ar_Seq :: int
  ar_TenantID :: string
  ar_EventType :: string
  ar_OccurredAt :: gotime
  ar_RecordedAt :: gotime
  ar_Actor :: "bag option"
  ar_Subject :: "bag option"
  ar_Payload :: "bag option"
  ar_PrevHash :: string
  ar_Hash :: string

record hashedContent =
  hc_Seq :: int
  hc_TenantID :: string
  hc_EventType :: string
  hc_OccurredAt :: gotime
  hc_Actor :: bag
  hc_Subject :: bag
  hc_Payload :: bag
  hc_PrevHash :: string

definition StoragePrecision :: duration where "StoragePrecision = microsecond"

definition orEmpty :: "bag option \<Rightarrow> bag" where
  "orEmpty m = (case m of None \<Rightarrow> [] | Some b \<Rightarrow> b)"

text \<open>\<^verbatim>\<open>json.Marshal\<close> writes the members of every map in key order.\<close>

fun sort_keys :: "json \<Rightarrow> json" where
  "sort_keys (JObject ms) = JObject (sort_key fst (map (\<lambda>(k, v). (k, sort_keys v)) ms))"
| "sort_keys (JArray vs) = JArray (map sort_keys vs)"
| "sort_keys v = v"

definition sorted_bag :: "bag \<Rightarrow> bag" where
  "sorted_bag b = sort_key fst (map (\<lambda>(k, v). (k, sort_keys v)) b)"

type_synonym digest = "hashedContent \<Rightarrow> string + string"

definition content :: "Record \<Rightarrow> string \<Rightarrow> hashedContent" where
  "content r prevHash = \<lparr>hc_Seq = ar_Seq r, hc_TenantID = ar_TenantID r, hc_EventType = ar_EventType r,
     hc_OccurredAt = trunc_time StoragePrecision (ar_OccurredAt r),
     hc_Actor = sorted_bag (orEmpty (ar_Actor r)), hc_Subject = sorted_bag (orEmpty (ar_Subject r)),
     hc_Payload = sorted_bag (orEmpty (ar_Payload r)), hc_PrevHash = prevHash\<rparr>"

definition ComputeHash :: "digest \<Rightarrow> Record \<Rightarrow> string \<Rightarrow> string + string" where
  "ComputeHash digest r prevHash =
    (case digest (content r prevHash) of
       Inl err \<Rightarrow> Inl (''audit: encode record for hashing: '' @ err)
     | Inr h \<Rightarrow> Inr (''sha256:'' @ h))"

section \<open>Verifying a chain\<close>

record Verification =
  v_TenantID :: string
  v_Records :: int
  v_Verified :: bool
  v_BrokenAt :: int
  v_Reason :: string
  v_FirstSeq :: int
  v_LastSeq :: int
  v_LastHash :: string

definition broken :: "Verification \<Rightarrow> int \<Rightarrow> string \<Rightarrow> Verification" where
  "broken v seq reason = v\<lparr>v_Verified := False, v_BrokenAt := seq, v_Reason := reason\<rparr>"

fun verify_loop :: "digest \<Rightarrow> Verification \<Rightarrow> int \<Rightarrow> string \<Rightarrow> Record list \<Rightarrow> Verification" where
  "verify_loop digest v i prevHash [] = v\<lparr>v_LastHash := prevHash\<rparr>"
| "verify_loop digest v i prevHash (r # rs) =
    (let expectedSeq = i + 1
     in if ar_Seq r \<noteq> expectedSeq
        then broken v (ar_Seq r) (''sequence jumps to '' @ show_int (ar_Seq r) @ '' where '' @ show_int expectedSeq
               @ '' was expected; a record is missing'')
        else if ar_PrevHash r \<noteq> prevHash
        then broken v (ar_Seq r) ''prev_hash does not match the preceding record; the chain was re-linked''
        else case ComputeHash digest r prevHash of
               Inl err \<Rightarrow> broken v (ar_Seq r) (''record could not be hashed: '' @ err)
             | Inr want \<Rightarrow>
                 if want \<noteq> ar_Hash r
                 then broken v (ar_Seq r) ''recorded hash does not match the record's content; it was altered''
                 else verify_loop digest v (i + 1) (ar_Hash r) rs)"

definition VerifyChain :: "digest \<Rightarrow> string \<Rightarrow> Record list \<Rightarrow> Verification" where
  "VerifyChain digest tenantID records =
    (let v = \<lparr>v_TenantID = tenantID, v_Records = int (length records), v_Verified = True, v_BrokenAt = 0,
              v_Reason = '''', v_FirstSeq = 0, v_LastSeq = 0, v_LastHash = ''''\<rparr>
     in if length records = 0 then v
        else verify_loop digest
          (v\<lparr>v_FirstSeq := ar_Seq (hd records), v_LastSeq := ar_Seq (last records)\<rparr>) 0 '''' records)"

section \<open>Checkpoints\<close>

record Checkpoint =
  cp_TenantID :: string
  cp_Seq :: int
  cp_Hash :: string
  cp_TakenAt :: gotime
  cp_Signature :: string
  cp_PublicKey :: string

record signedContent =
  sc_TenantID :: string
  sc_Seq :: int
  sc_Hash :: string
  sc_TakenAt :: gotime

record 'k crypto =
  ed_sign :: "'k \<Rightarrow> string \<Rightarrow> string"
  ed_public :: "'k \<Rightarrow> string"
  ed_verify :: "string \<Rightarrow> string \<Rightarrow> string \<Rightarrow> bool"
  b64_encode :: "string \<Rightarrow> string"
  b64_decode :: "string \<Rightarrow> string option"
  marshal :: "signedContent \<Rightarrow> string + string"

definition PublicKeySize :: nat where "PublicKeySize = 32"

definition checkpointMessage :: "'k crypto \<Rightarrow> Checkpoint \<Rightarrow> string + string" where
  "checkpointMessage cr c =
    (case marshal cr \<lparr>sc_TenantID = cp_TenantID c, sc_Seq = cp_Seq c, sc_Hash = cp_Hash c,
                      sc_TakenAt = trunc_time StoragePrecision (cp_TakenAt c)\<rparr> of
       Inl err \<Rightarrow> Inl (''audit: encode checkpoint: '' @ err)
     | Inr encoded \<Rightarrow> Inr encoded)"

definition Signer_PublicKey :: "'k crypto \<Rightarrow> 'k \<Rightarrow> string" where
  "Signer_PublicKey cr k = b64_encode cr (ed_public cr k)"

definition Sign :: "'k crypto \<Rightarrow> 'k \<Rightarrow> Checkpoint \<Rightarrow> string + Checkpoint" where
  "Sign cr k c =
    (case checkpointMessage cr c of
       Inl err \<Rightarrow> Inl err
     | Inr msg \<Rightarrow> Inr (c\<lparr>cp_Signature := b64_encode cr (ed_sign cr k msg),
                         cp_PublicKey := Signer_PublicKey cr k\<rparr>))"

definition VerifyCheckpoint :: "'k crypto \<Rightarrow> Checkpoint \<Rightarrow> string \<Rightarrow> string option" where
  "VerifyCheckpoint cr c publicKey =
    (case b64_decode cr publicKey of
       None \<Rightarrow> Some ''audit: public key must be a base64 Ed25519 key''
     | Some pub \<Rightarrow>
         if length pub \<noteq> PublicKeySize then Some ''audit: public key must be a base64 Ed25519 key''
         else case b64_decode cr (cp_Signature c) of
                None \<Rightarrow> Some ''audit: signature is not valid base64''
              | Some sig \<Rightarrow>
                  (case checkpointMessage cr c of
                     Inl err \<Rightarrow> Some err
                   | Inr msg \<Rightarrow>
                       if \<not> ed_verify cr pub msg sig then Some ''audit: checkpoint signature does not verify''
                       else None))"

record CheckpointCheck =
  cc_Checked :: bool
  cc_Seq :: int
  cc_TakenAt :: gotime
  cc_Matches :: bool
  cc_PublicKey :: string
  cc_Reason :: string

text \<open>The loop that re-walks the chain; the accumulator is the hash reached at the signed sequence.\<close>

fun reach_loop :: "digest \<Rightarrow> int \<Rightarrow> string \<Rightarrow> string \<Rightarrow> Record list \<Rightarrow> string + string" where
  "reach_loop digest seq prevHash reached [] = Inr reached"
| "reach_loop digest seq prevHash reached (r # rs) =
    (if ar_Seq r > seq then Inr reached
     else case ComputeHash digest r prevHash of
            Inl err \<Rightarrow> Inl err
          | Inr want \<Rightarrow> reach_loop digest seq want (if ar_Seq r = seq then want else reached) rs)"

text \<open>\<open>when\<close> renders the signing time in the two messages that quote it.\<close>

definition VerifyAgainstCheckpoint ::
  "digest \<Rightarrow> 'k crypto \<Rightarrow> (gotime \<Rightarrow> string) \<Rightarrow> Record list \<Rightarrow> Checkpoint \<Rightarrow> string \<Rightarrow> CheckpointCheck" where
  "VerifyAgainstCheckpoint digest cr render records c publicKey =
    (let out = \<lparr>cc_Checked = True, cc_Seq = cp_Seq c, cc_TakenAt = cp_TakenAt c, cc_Matches = False,
                cc_PublicKey = cp_PublicKey c, cc_Reason = ''''\<rparr>
     in case VerifyCheckpoint cr c publicKey of
          Some err \<Rightarrow> out\<lparr>cc_Reason := ''the checkpoint itself does not verify: '' @ err\<rparr>
        | None \<Rightarrow>
            (case reach_loop digest (cp_Seq c) '''' '''' records of
               Inl err \<Rightarrow> out\<lparr>cc_Reason := ''record could not be hashed: '' @ err\<rparr>
             | Inr reached \<Rightarrow>
                 if reached = ''''
                 then out\<lparr>cc_Reason := ''the chain does not reach seq '' @ show_int (cp_Seq c)
                   @ '', which was signed on '' @ render (cp_TakenAt c) @ ''; records were removed''\<rparr>
                 else if reached \<noteq> cp_Hash c
                 then out\<lparr>cc_Reason := ''the chain reaches a different hash at seq '' @ show_int (cp_Seq c)
                   @ '' than the one signed on '' @ render (cp_TakenAt c) @ ''; history was rewritten''\<rparr>
                 else out\<lparr>cc_Matches := True\<rparr>))"

section \<open>What a verified chain is\<close>

definition last_hash :: "string \<Rightarrow> Record list \<Rightarrow> string" where
  "last_hash p rs = (if rs = [] then p else ar_Hash (last rs))"

fun linked :: "digest \<Rightarrow> int \<Rightarrow> string \<Rightarrow> Record list \<Rightarrow> bool" where
  "linked digest i p [] \<longleftrightarrow> True"
| "linked digest i p (r # rs) \<longleftrightarrow>
    ar_Seq r = i + 1 \<and> ar_PrevHash r = p \<and> ComputeHash digest r p = Inr (ar_Hash r)
    \<and> linked digest (i + 1) (ar_Hash r) rs"

lemma last_hash_Nil [simp]: "last_hash p [] = p"
  by (simp add: last_hash_def)

lemma last_hash_Cons [simp]: "last_hash p (r # rs) = last_hash (ar_Hash r) rs"
  by (simp add: last_hash_def)

lemma last_hash_snoc [simp]: "last_hash p (rs @ [r]) = ar_Hash r"
  by (simp add: last_hash_def)

lemma linked_append:
  "linked d i p (xs @ ys) \<longleftrightarrow> linked d i p xs \<and> linked d (i + int (length xs)) (last_hash p xs) ys"
  by (induction xs arbitrary: i p) (auto simp: algebra_simps)

lemma linked_Seq: "linked d i p rs \<Longrightarrow> k < length rs \<Longrightarrow> ar_Seq (rs ! k) = i + int k + 1"
proof (induction rs arbitrary: i p k)
  case (Cons r rs)
  then show ?case by (cases k) auto
qed simp

lemma broken_simps [simp]:
  "v_Verified (broken v s m) = False" "v_BrokenAt (broken v s m) = s" "v_TenantID (broken v s m) = v_TenantID v"
  by (simp_all add: broken_def)

lemma verify_loop_linked:
  "v_Verified v \<Longrightarrow> v_Verified (verify_loop d v i p rs) \<longleftrightarrow> linked d i p rs"
  by (induction rs arbitrary: i p) (auto simp: Let_def split: sum.splits)

lemma verify_loop_result:
  "linked d i p rs \<Longrightarrow> verify_loop d v i p rs = v\<lparr>v_LastHash := last_hash p rs\<rparr>"
  by (induction rs arbitrary: i p) auto

lemma verify_loop_prefix:
  "linked d i p xs \<Longrightarrow>
    verify_loop d v i p (xs @ ys) = verify_loop d v (i + int (length xs)) (last_hash p xs) ys"
  by (induction xs arbitrary: i p) (auto simp: algebra_simps)

lemma VerifyChain_linked: "v_Verified (VerifyChain d t rs) \<longleftrightarrow> linked d 0 '''' rs"
  by (cases rs) (simp_all add: VerifyChain_def verify_loop_linked del: verify_loop.simps linked.simps(2))

lemma VerifyChain_LastHash:
  "linked d 0 '''' rs \<Longrightarrow> v_LastHash (VerifyChain d t rs) = last_hash '''' rs"
  by (cases rs) (simp_all add: VerifyChain_def verify_loop_result del: verify_loop.simps linked.simps(2))

lemma VerifyChain_break:
  assumes "linked d 0 '''' xs" and "ys \<noteq> []"
  shows "VerifyChain d t (xs @ ys) =
    verify_loop d \<lparr>v_TenantID = t, v_Records = int (length (xs @ ys)), v_Verified = True, v_BrokenAt = 0,
      v_Reason = '''', v_FirstSeq = ar_Seq (hd (xs @ ys)), v_LastSeq = ar_Seq (last (xs @ ys)), v_LastHash = ''''\<rparr>
      (int (length xs)) (last_hash '''' xs) ys"
  using verify_loop_prefix [OF assms(1)] assms(2) by (simp add: VerifyChain_def)

section \<open>Contents without the link\<close>

definition facts :: "Record \<Rightarrow> hashedContent" where
  "facts r = content r ''''"

lemma content_eq: "content r p = content s q \<longleftrightarrow> facts r = facts s \<and> p = q"
  by (auto simp: content_def facts_def)

lemma ComputeHash_Inr: "ComputeHash d r p = Inr h \<longleftrightarrow> (\<exists>x. d (content r p) = Inr x \<and> h = ''sha256:'' @ x)"
  by (auto simp: ComputeHash_def split: sum.splits)

lemma ComputeHash_nonempty: "ComputeHash d r p = Inr h \<Longrightarrow> h \<noteq> ''''"
  by (auto simp: ComputeHash_Inr)

definition contents :: "Record list \<Rightarrow> hashedContent set" where
  "contents rs = (\<lambda>r. content r (ar_PrevHash r)) ` set rs"

lemma contents_append [simp]: "contents (xs @ ys) = contents xs \<union> contents ys"
  by (auto simp: contents_def)

lemma contents_Cons: "contents (x # xs) = insert (content x (ar_PrevHash x)) (contents xs)"
  by (simp add: contents_def)

text \<open>
  Two chains of one length that end in the same hash agree on every record, unless the
  digest collides on two of the contents they hold.
\<close>

lemma same_head_same_facts:
  "length xs = length ys \<Longrightarrow> linked d 0 '''' xs \<Longrightarrow> linked d 0 '''' ys \<Longrightarrow>
    last_hash '''' xs = last_hash '''' ys \<Longrightarrow> inj_on d (contents xs \<union> contents ys) \<Longrightarrow>
    map facts xs = map facts ys"
proof (induction xs arbitrary: ys rule: rev_induct)
  case (snoc x xs)
  then obtain y zs where ys: "ys = zs @ [y]" and len: "length xs = length zs"
    by (cases ys rule: rev_cases) auto
  have x: "ar_PrevHash x = last_hash '''' xs" "ComputeHash d x (last_hash '''' xs) = Inr (ar_Hash x)"
    and y: "ar_PrevHash y = last_hash '''' zs" "ComputeHash d y (last_hash '''' zs) = Inr (ar_Hash y)"
    and lx: "linked d 0 '''' xs" and ly: "linked d 0 '''' zs"
    using snoc.prems(2,3) by (simp_all add: ys linked_append)
  have "ar_Hash x = ar_Hash y" using snoc.prems(4) by (simp add: ys)
  with x y have "d (content x (ar_PrevHash x)) = d (content y (ar_PrevHash y))"
    by (auto simp: ComputeHash_Inr)
  moreover have "content x (ar_PrevHash x) \<in> contents (xs @ [x]) \<union> contents ys"
    and "content y (ar_PrevHash y) \<in> contents (xs @ [x]) \<union> contents ys"
    by (simp_all add: ys contents_Cons)
  ultimately have "content x (ar_PrevHash x) = content y (ar_PrevHash y)"
    using snoc.prems(5) by (meson inj_onD)
  then have "facts x = facts y" and "last_hash '''' xs = last_hash '''' zs"
    using x(1) y(1) by (simp_all add: content_eq)
  moreover have "inj_on d (contents xs \<union> contents zs)"
    using snoc.prems(5) by (rule inj_on_subset) (auto simp: ys)
  ultimately show ?case
    using snoc.IH [OF len lx ly] by (simp add: ys)
qed simp

lemma reach_past:
  "linked d i p rs \<Longrightarrow> n \<le> i \<Longrightarrow> reach_loop d n p r0 rs = Inr r0"
  by (cases rs) auto

lemma reach_linked:
  "linked d i p rs \<Longrightarrow> i < n \<Longrightarrow> reach_loop d n p '''' rs =
    Inr (if nat (n - i) \<le> length rs then last_hash p (take (nat (n - i)) rs) else '''')"
proof (induction rs arbitrary: i p)
  case (Cons r rs)
  show ?case
  proof (cases "n = i + 1")
    case True
    with Cons.prems reach_past [of d "i + 1" "ar_Hash r" rs n] show ?thesis by simp
  next
    case False
    with Cons.prems have n: "i + 1 < n" "nat (n - i) = Suc (nat (n - (i + 1)))" by auto
    with Cons.IH [OF _ n(1)] Cons.prems show ?thesis by simp
  qed
qed auto

lemma take_linked: "linked d i p rs \<Longrightarrow> linked d i p (take n rs)"
  using linked_append [of d i p "take n rs" "drop n rs"] by simp

lemma last_hash_nonempty: "linked d i p rs \<Longrightarrow> rs \<noteq> [] \<Longrightarrow> last_hash p rs \<noteq> ''''"
  by (cases rs rule: rev_cases) (auto simp: linked_append dest: ComputeHash_nonempty)

text \<open>A checkpoint that matches a verified chain signs the hash of one of its prefixes.\<close>

lemma Matches_prefix:
  assumes "linked d 0 '''' rs" and "cc_Matches (VerifyAgainstCheckpoint d cr render rs c pk)"
    and "0 < cp_Seq c"
  shows "nat (cp_Seq c) \<le> length rs \<and> last_hash '''' (take (nat (cp_Seq c)) rs) = cp_Hash c"
  using assms(2) reach_linked [OF assms(1,3)]
  by (auto simp: VerifyAgainstCheckpoint_def Let_def split: option.splits sum.splits if_splits)

lemma Matches_positive:
  assumes "linked d 0 '''' rs" and "cc_Matches (VerifyAgainstCheckpoint d cr render rs c pk)"
  shows "0 < cp_Seq c"
proof (rule ccontr)
  assume "\<not> 0 < cp_Seq c"
  then have "reach_loop d (cp_Seq c) '''' '''' rs = Inr ''''"
    using assms(1) by (intro reach_past [of d 0]) simp_all
  with assms(2) show False
    by (auto simp: VerifyAgainstCheckpoint_def Let_def split: option.splits)
qed

section \<open>Properties\<close>


text \<open>Sample values for the witnesses: records without maps, a digest and a signature scheme.\<close>

definition sample_record :: "int \<Rightarrow> string \<Rightarrow> string \<Rightarrow> Record" where
  "sample_record seq event prev = \<lparr>ar_ID = seq, ar_Seq = seq, ar_TenantID = ''acme'', ar_EventType = event,
    ar_OccurredAt = 5, ar_RecordedAt = 6, ar_Actor = None, ar_Subject = None, ar_Payload = None,
    ar_PrevHash = prev, ar_Hash = ''sha256:'' @ event\<rparr>"

definition sample_digest :: digest where
  "sample_digest c = Inr (hc_EventType c)"

definition sample_crypto :: "unit crypto" where
  "sample_crypto = \<lparr>ed_sign = (\<lambda>k m. m), ed_public = (\<lambda>k. replicate 32 CHR ''k''),
    ed_verify = (\<lambda>p m s. p = replicate 32 CHR ''k'' \<and> m = s), b64_encode = (\<lambda>x. x), b64_decode = Some,
    marshal = (\<lambda>sc. Inr (sc_Hash sc))\<rparr>"

lemmas sample_defs = sample_record_def sample_digest_def sample_crypto_def content_def ComputeHash_def


text \<open>
  C36. A checkpoint pins history. If one signed checkpoint matches two chains that both
  verify, then both hold the signed sequence number, and up to it they record the same
  facts in the same order, unless the digest collides on contents of the two chains. So a
  complete rewrite that verifies by itself, or a truncation below the signed head, no longer
  matches.
\<close>

theorem checkpoint_pins_history:
  assumes "v_Verified (VerifyChain d t rs)" and "v_Verified (VerifyChain d t' rs')"
    and "cc_Matches (VerifyAgainstCheckpoint d cr render rs c pk)"
    and "cc_Matches (VerifyAgainstCheckpoint d cr render rs' c pk)"
    and "inj_on d (contents rs \<union> contents rs')"
  shows "0 < cp_Seq c \<and> nat (cp_Seq c) \<le> length rs \<and> nat (cp_Seq c) \<le> length rs' \<and>
    map facts (take (nat (cp_Seq c)) rs) = map facts (take (nat (cp_Seq c)) rs')"
proof -
  have L: "linked d 0 '''' rs" "linked d 0 '''' rs'"
    using assms(1,2) by (simp_all add: VerifyChain_linked)
  have pos: "0 < cp_Seq c" using L(1) assms(3) by (rule Matches_positive)
  let ?n = "nat (cp_Seq c)"
  from Matches_prefix [OF L(1) assms(3) pos] Matches_prefix [OF L(2) assms(4) pos]
  have n: "?n \<le> length rs" "?n \<le> length rs'"
    and heads: "last_hash '''' (take ?n rs) = last_hash '''' (take ?n rs')"
    by simp_all
  have "inj_on d (contents (take ?n rs) \<union> contents (take ?n rs'))"
    using assms(5) by (rule inj_on_subset) (auto simp: contents_def dest: in_set_takeD)
  with n have "map facts (take ?n rs) = map facts (take ?n rs')"
    by (intro same_head_same_facts [OF _ take_linked [OF L(1)] take_linked [OF L(2)] heads]) simp_all
  with pos n show ?thesis by blast
qed

theorem checkpoint_pins_history_witness:
  "map facts (take (nat 1) [sample_record 1 ''a'' '''', sample_record 2 ''b'' ''sha256:a'']) =
   map facts (take (nat 1) [sample_record 1 ''a'' ''''])"
proof -
  let ?c = "\<lparr>cp_TenantID = ''acme'', cp_Seq = 1, cp_Hash = ''sha256:a'', cp_TakenAt = 9,
    cp_Signature = ''sha256:a'', cp_PublicKey = replicate 32 CHR ''k''\<rparr>"
  let ?pk = "replicate 32 CHR ''k''"
  have v: "v_Verified (VerifyChain sample_digest ''acme'' [sample_record 1 ''a'' '''', sample_record 2 ''b'' ''sha256:a''])"
    "v_Verified (VerifyChain sample_digest ''acme'' [sample_record 1 ''a'' ''''])"
    by (simp_all add: VerifyChain_linked sample_defs)
  have ok: "VerifyCheckpoint sample_crypto ?c ?pk = None"
    by (simp add: VerifyCheckpoint_def sample_crypto_def checkpointMessage_def PublicKeySize_def)
  have m: "cc_Matches (VerifyAgainstCheckpoint sample_digest sample_crypto (\<lambda>_. '''')
      [sample_record 1 ''a'' '''', sample_record 2 ''b'' ''sha256:a''] ?c ?pk)"
    "cc_Matches (VerifyAgainstCheckpoint sample_digest sample_crypto (\<lambda>_. '''') [sample_record 1 ''a'' ''''] ?c ?pk)"
    using ok by (simp_all add: VerifyAgainstCheckpoint_def sample_record_def sample_digest_def content_def ComputeHash_def)
  have "inj_on sample_digest (contents [sample_record 1 ''a'' '''', sample_record 2 ''b'' ''sha256:a'']
      \<union> contents [sample_record 1 ''a'' ''''])"
    by (simp add: contents_def sample_record_def sample_digest_def content_def)
  from checkpoint_pins_history [OF v m this] show ?thesis by simp
qed

lemma Sign_Inr:
  assumes "Sign cr k c = Inr c'"
  obtains msg where "checkpointMessage cr c = Inr msg"
    and "c' = c\<lparr>cp_Signature := b64_encode cr (ed_sign cr k msg), cp_PublicKey := Signer_PublicKey cr k\<rparr>"
  using assms by (auto simp: Sign_def split: sum.splits)

lemma Sign_verifies:
  assumes "\<And>x. b64_decode cr (b64_encode cr x) = Some x"
    and "\<And>k m. ed_verify cr (ed_public cr k) m (ed_sign cr k m)"
    and "\<And>k. length (ed_public cr k) = 32"
    and "Sign cr k c = Inr c'"
  shows "VerifyCheckpoint cr c' (Signer_PublicKey cr k) = None"
proof -
  obtain msg where msg: "checkpointMessage cr c = Inr msg"
    and c': "c' = c\<lparr>cp_Signature := b64_encode cr (ed_sign cr k msg), cp_PublicKey := Signer_PublicKey cr k\<rparr>"
    using assms(4) by (rule Sign_Inr)
  have "checkpointMessage cr c' = Inr msg"
    using msg by (simp add: c' checkpointMessage_def)
  with assms(1-3) show ?thesis
    by (simp add: VerifyCheckpoint_def Signer_PublicKey_def PublicKeySize_def c')
qed

text \<open>
  Signing and verifying round-trip, and survive storage. With an Ed25519 and a base64
  that do what they document, a checkpoint the signer signs verifies against the signer's
  published key, also after the store has rounded its time to microseconds.
\<close>

theorem Sign_Verify_roundtrip:
  assumes "\<And>x. b64_decode cr (b64_encode cr x) = Some x"
    and "\<And>k m. ed_verify cr (ed_public cr k) m (ed_sign cr k m)"
    and "\<And>k. length (ed_public cr k) = 32"
    and "Sign cr k c = Inr c'"
  shows "VerifyCheckpoint cr c' (Signer_PublicKey cr k) = None \<and>
    VerifyCheckpoint cr (c'\<lparr>cp_TakenAt := trunc_time microsecond (cp_TakenAt c')\<rparr>) (Signer_PublicKey cr k) = None \<and>
    cp_Seq c' = cp_Seq c \<and> cp_Hash c' = cp_Hash c \<and> cp_TenantID c' = cp_TenantID c"
proof -
  obtain msg where msg: "checkpointMessage cr c = Inr msg"
    and c': "c' = c\<lparr>cp_Signature := b64_encode cr (ed_sign cr k msg), cp_PublicKey := Signer_PublicKey cr k\<rparr>"
    using assms(4) by (rule Sign_Inr)
  let ?r = "c'\<lparr>cp_TakenAt := trunc_time microsecond (cp_TakenAt c')\<rparr>"
  have same: "checkpointMessage cr ?r = checkpointMessage cr c'" "cp_Signature ?r = cp_Signature c'"
    by (simp_all add: checkpointMessage_def StoragePrecision_def trunc_time_def)
  have "VerifyCheckpoint cr ?r pk = VerifyCheckpoint cr c' pk" for pk
    unfolding VerifyCheckpoint_def same ..
  with Sign_verifies [OF assms] show ?thesis by (simp add: c')
qed

theorem Sign_Verify_roundtrip_witness:
  "\<exists>c'. Sign sample_crypto () \<lparr>cp_TenantID = ''acme'', cp_Seq = 1, cp_Hash = ''sha256:a'', cp_TakenAt = 1234567,
      cp_Signature = '''', cp_PublicKey = ''''\<rparr> = Inr c' \<and>
    VerifyCheckpoint sample_crypto (c'\<lparr>cp_TakenAt := trunc_time microsecond (cp_TakenAt c')\<rparr>)
      (Signer_PublicKey sample_crypto ()) = None"
proof -
  let ?c = "\<lparr>cp_TenantID = ''acme'', cp_Seq = 1, cp_Hash = ''sha256:a'', cp_TakenAt = 1234567,
      cp_Signature = '''', cp_PublicKey = ''''\<rparr>"
  obtain c' where c': "Sign sample_crypto () ?c = Inr c'"
    by (simp add: Sign_def sample_crypto_def checkpointMessage_def)
  have "b64_decode sample_crypto (b64_encode sample_crypto x) = Some x"
    "ed_verify sample_crypto (ed_public sample_crypto k) m (ed_sign sample_crypto k m)"
    "length (ed_public sample_crypto k) = 32" for x k m
    by (simp_all add: sample_crypto_def)
  from Sign_Verify_roundtrip [OF this c'] c' show ?thesis by blast
qed

end
