(* ===== verification/Store_Types.thy ===== *)
theory Store_Types
  imports Rules Audit_Chain
begin

text \<open>
  The data of the persistence port (\<^verbatim>\<open>internal/store/store.go\<close>) and the state of its
  in-memory implementation (\<^verbatim>\<open>internal/store/memory.go\<close>). Every method of \<^verbatim>\<open>Memory\<close> holds
  its mutex for the whole call, so each is one function from the state to a result and the
  next state; \<open>now\<close> is what the call reads from \<^verbatim>\<open>time.Now()\<close>.
\<close>

section \<open>The port's data\<close>

record UpsertResult =
  Inserted :: "string list"
  Duplicates :: "string list"

record WebhookEndpoint =
  ep_ID :: string
  ep_TenantID :: string
  ep_URL :: string
  ep_SecretRef :: string
  ep_Events :: "string list"
  ep_Enabled :: bool

record PendingDelivery =
  pd_TenantID :: string
  pd_EndpointID :: string
  pd_TransactionID :: string
  pd_EventType :: string
  pd_Payload :: string

record DueDelivery =
  dd_ID :: int
  dd_TenantID :: string
  dd_EndpointID :: string
  dd_TransactionID :: string
  dd_EventType :: string
  dd_Payload :: string
  dd_Attempt :: int
  dd_URL :: string
  dd_SecretRef :: string

record DeliveryRecord =
  dr_ID :: int
  dr_TenantID :: string
  dr_EndpointID :: string
  dr_TransactionID :: string
  dr_EventType :: string
  dr_Attempt :: int
  dr_Status :: string
  dr_ResponseCode :: "int option"
  dr_ResponseBody :: string
  dr_DurationMS :: "int option"
  dr_NextRetryAt :: "gotime option"
  dr_CreatedAt :: gotime

record DeliveryOutcome =
  do_Status :: string
  do_ResponseCode :: "int option"
  do_ResponseBody :: string
  do_DurationMS :: int
  do_NextRetryAt :: "gotime option"

record IngestSample =
  is_TenantID :: string
  is_Bucket :: gotime
  is_Received :: int
  is_Dropped :: int
  is_HandlerErrors :: int

record IngestActivitySummary =
  ias_Received :: int
  ias_ActiveBuckets :: int

record SilenceEpisode =
  se_TenantID :: string
  se_SilentSince :: gotime

record SilenceChange =
  sch_Opened :: "SilenceEpisode list"
  sch_Recovered :: "SilenceEpisode list"

record SilenceParams =
  sp_Quiet :: duration
  sp_Baseline :: duration
  sp_MinActiveBuckets :: int

record ReversalClaim =
  rc_TenantID :: string
  rc_TransactionID :: string
  rc_ClaimToken :: string
  rc_ClaimedBy :: string
  rc_ClaimedAt :: gotime
  rc_ConfirmedAt :: "gotime option"

text \<open>An API key as stored (\<^verbatim>\<open>internal/auth\<close>).\<close>

record KeyRecord =
  kr_ID :: string
  kr_TenantID :: string
  kr_Prefix :: string
  kr_Hash :: string
  kr_Scopes :: "string list"
  kr_Environment :: string
  kr_RevokedAt :: "gotime option"

section \<open>The state\<close>

record memory =
  m_tenants :: "string list"
  m_byTenant :: "(string, string, transaction) map2"
  m_idem :: "(string \<times> string list) list"
  m_parked :: "(string, string, CreditEvent) map2"
  m_apiKeys :: "(string \<times> KeyRecord) list"
  m_endpoints :: "(string \<times> WebhookEndpoint) list"
  m_deliveries :: "(int \<times> DeliveryRecord) list"
  m_payloads :: "(int \<times> string) list"
  m_rules :: "(string \<times> Rule list) list"
  m_health :: "((string \<times> gotime) \<times> IngestSample) list"
  m_silence :: "(string \<times> gotime) list"
  m_claims :: "((string \<times> string) \<times> ReversalClaim) list"
  m_applied :: "(string \<times> string list) list"
  m_audit :: "(string \<times> Record list) list"
  m_checkpoints :: "(string \<times> Checkpoint list) list"
  m_nextID :: int
  m_nextDeliveryID :: int
  m_nextRuleID :: int

definition NewMemory :: memory where
  "NewMemory = \<lparr>m_tenants = [], m_byTenant = [], m_idem = [], m_parked = [], m_apiKeys = [], m_endpoints = [],
    m_deliveries = [], m_payloads = [], m_rules = [], m_health = [], m_silence = [], m_claims = [], m_applied = [],
    m_audit = [], m_checkpoints = [], m_nextID = 0, m_nextDeliveryID = 0, m_nextRuleID = 0\<rparr>"

text \<open>Every operation returns its result, or the error, with the next state.\<close>

type_synonym 'a outcome = "(goerror + 'a) \<times> memory"

text \<open>A set of strings per tenant, Go's \<^verbatim>\<open>map[string]map[string]struct{}\<close>.\<close>

definition put_key :: "(string \<times> string list) list \<Rightarrow> string \<Rightarrow> string \<Rightarrow> (string \<times> string list) list" where
  "put_key m a k = AList.update a (List.insert k (inner m a)) m"

lemma inner_put_key [simp]:
  "inner (put_key m a k) a' = (if a' = a then List.insert k (inner m a) else inner m a')"
  by (simp add: put_key_def)

definition EnsureTenant :: "string \<Rightarrow> memory \<Rightarrow> unit outcome" where
  "EnsureTenant tid m = (Inr (), m\<lparr>m_tenants := List.insert tid (m_tenants m)\<rparr>)"

end
