(* ===== verification/Store_Transactions.thy ===== *)
theory Store_Transactions
  imports Store_Types
begin

text \<open>
  The transaction half of the in-memory store: \<^verbatim>\<open>UpsertDebits\<close>, \<^verbatim>\<open>ApplyCredit\<close>,
  \<^verbatim>\<open>ApplyPartialCredit\<close>, the \<^verbatim>\<open>Mark...\<close> methods, parking, reads, and the two claims of the
  detection sweep (\<^verbatim>\<open>internal/store/memory.go\<close>), with the ingest-gap check they use
  (\<^verbatim>\<open>internal/store/memory_health.go\<close>).
\<close>

section \<open>Storing debits\<close>

fun upsert_loop :: "string \<Rightarrow> gotime \<Rightarrow> transaction list \<Rightarrow> memory \<Rightarrow> UpsertResult \<Rightarrow> memory \<times> UpsertResult" where
  "upsert_loop tenantID now [] m res = (m, res)"
| "upsert_loop tenantID now (t # txns) m res =
    (let dupKey = tx_IdempotencyKey t \<in> set (inner (m_idem m) tenantID);
         dupTxn = get2 (m_byTenant m) tenantID (tx_TransactionID t) \<noteq> None
     in if dupKey \<or> dupTxn
        then upsert_loop tenantID now txns m (res\<lparr>Duplicates := Duplicates res @ [tx_TransactionID t]\<rparr>)
        else let stored = t\<lparr>tx_ID := m_nextID m + 1, tx_Status := StatusPendingDebit,
                            tx_CreatedAt := now, tx_UpdatedAt := now\<rparr>;
                 m' = m\<lparr>m_nextID := m_nextID m + 1,
                        m_byTenant := put2 (m_byTenant m) tenantID (tx_TransactionID t) stored,
                        m_idem := put_key (m_idem m) tenantID (tx_IdempotencyKey t)\<rparr>
             in upsert_loop tenantID now txns m' (res\<lparr>Inserted := Inserted res @ [tx_TransactionID t]\<rparr>))"

definition UpsertDebits :: "string \<Rightarrow> transaction list \<Rightarrow> gotime \<Rightarrow> memory \<Rightarrow> UpsertResult outcome" where
  "UpsertDebits tenantID txns now m =
    (if list_ex (\<lambda>t. tx_TenantID t \<noteq> tenantID) txns then (Inl ErrTenantMismatch, m)
     else let m' = (if map_of (m_byTenant m) tenantID = None
                    then m\<lparr>m_byTenant := alloc (m_byTenant m) tenantID, m_idem := AList.update tenantID [] (m_idem m)\<rparr>
                    else m);
              (m'', res) = upsert_loop tenantID now txns m' \<lparr>Inserted = [], Duplicates = []\<rparr>
          in (Inr res, m''))"

section \<open>Credits\<close>

definition ApplyCredit ::
  "string \<Rightarrow> string \<Rightarrow> status \<Rightarrow> gotime \<Rightarrow> gotime \<Rightarrow> memory \<Rightarrow> transaction outcome" where
  "ApplyCredit tenantID transactionID target creditAt now m =
    (case get2 (m_byTenant m) tenantID transactionID of
       None \<Rightarrow> (Inl ErrNotFound, m)
     | Some stored \<Rightarrow>
         (case Transition (tx_Status stored) target of
            Some err \<Rightarrow> (Inl err, m)
          | None \<Rightarrow>
              let stored = stored\<lparr>tx_Status := target, tx_CreditAt := Some creditAt, tx_UpdatedAt := now\<rparr>;
                  stored = (if target = StatusOrphaned then stored\<lparr>tx_DetectedAt := Some now\<rparr> else stored)
              in (Inr stored, m\<lparr>m_byTenant := put2 (m_byTenant m) tenantID transactionID stored\<rparr>)))"

definition ApplyPartialCredit :: "string \<Rightarrow> CreditEvent \<Rightarrow> gotime \<Rightarrow> memory \<Rightarrow> transaction outcome" where
  "ApplyPartialCredit tenantID c now m =
    (case get2 (m_byTenant m) tenantID (ce_TransactionID c) of
       None \<Rightarrow> (Inl ErrNotFound, m)
     | Some stored \<Rightarrow>
         if tx_Status stored \<noteq> StatusPendingDebit \<and> tx_Status stored \<noteq> StatusPendingUnknown
         then (Inl (InvalidTransitionError (tx_Status stored) StatusCompleted), m)
         else let m = m\<lparr>m_applied := alloc (m_applied m) tenantID\<rparr>
         in if ce_IdempotencyKey c \<in> set (inner (m_applied m) tenantID) then (Inr stored, m)
         else let m = m\<lparr>m_applied := put_key (m_applied m) tenantID (ce_IdempotencyKey c)\<rparr>
         in if ce_Currency c \<noteq> '''' \<and> ce_Currency c \<noteq> tx_Currency stored
         then let stored = stored\<lparr>tx_Status := StatusSuspect, tx_UpdatedAt := now\<rparr>
              in (Inr stored, m\<lparr>m_byTenant := put2 (m_byTenant m) tenantID (ce_TransactionID c) stored\<rparr>)
         else let stored = stored\<lparr>tx_CreditedMinor := wrap64 (tx_CreditedMinor stored + ce_AmountMinor c),
                                  tx_CreditAt := Some (ce_CreditAt c), tx_UpdatedAt := now\<rparr>;
                  expected = ExpectedCredit stored;
                  stored = (if tx_CreditedMinor stored > expected then stored\<lparr>tx_Status := StatusSuspect\<rparr>
                            else if tx_CreditedMinor stored = expected then stored\<lparr>tx_Status := StatusCompleted\<rparr>
                            else stored)
              in (Inr stored, m\<lparr>m_byTenant := put2 (m_byTenant m) tenantID (ce_TransactionID c) stored\<rparr>))"

section \<open>Moving a transaction after detection\<close>

definition markReversal ::
  "string \<Rightarrow> string \<Rightarrow> status \<Rightarrow> gotime \<Rightarrow> gotime \<Rightarrow> memory \<Rightarrow> transaction outcome" where
  "markReversal tenantID transactionID target at now m =
    (case get2 (m_byTenant m) tenantID transactionID of
       None \<Rightarrow> (Inl ErrNotFound, m)
     | Some stored \<Rightarrow>
         (case Transition (tx_Status stored) target of
            Some err \<Rightarrow> (Inl err, m)
          | None \<Rightarrow>
              let stored = stored\<lparr>tx_Status := target\<rparr>;
                  stored = (case target of
                      StatusReversalPending \<Rightarrow> stored\<lparr>tx_ReversalTriggeredAt := Some at\<rparr>
                    | StatusReversalCompleted \<Rightarrow> stored\<lparr>tx_ReversalCompletedAt := Some at\<rparr>
                    | StatusCompleted \<Rightarrow>
                        (if tx_CreditAt stored = None then stored\<lparr>tx_CreditAt := Some at\<rparr> else stored)
                    | _ \<Rightarrow> stored);
                  stored = stored\<lparr>tx_UpdatedAt := now\<rparr>
              in (Inr stored, m\<lparr>m_byTenant := put2 (m_byTenant m) tenantID transactionID stored\<rparr>)))"

definition MarkSettled :: "string \<Rightarrow> string \<Rightarrow> gotime \<Rightarrow> gotime \<Rightarrow> memory \<Rightarrow> transaction outcome" where
  "MarkSettled tenantID transactionID at = markReversal tenantID transactionID StatusCompleted at"

definition MarkUncertain :: "string \<Rightarrow> string \<Rightarrow> gotime \<Rightarrow> gotime \<Rightarrow> memory \<Rightarrow> transaction outcome" where
  "MarkUncertain tenantID transactionID at = markReversal tenantID transactionID StatusSuspect at"

definition MarkReversalPending :: "string \<Rightarrow> string \<Rightarrow> gotime \<Rightarrow> gotime \<Rightarrow> memory \<Rightarrow> transaction outcome" where
  "MarkReversalPending tenantID transactionID at = markReversal tenantID transactionID StatusReversalPending at"

definition MarkReversalCompleted :: "string \<Rightarrow> string \<Rightarrow> gotime \<Rightarrow> gotime \<Rightarrow> memory \<Rightarrow> transaction outcome" where
  "MarkReversalCompleted tenantID transactionID at = markReversal tenantID transactionID StatusReversalCompleted at"

definition MarkReversalFailed :: "string \<Rightarrow> string \<Rightarrow> gotime \<Rightarrow> gotime \<Rightarrow> memory \<Rightarrow> transaction outcome" where
  "MarkReversalFailed tenantID transactionID at = markReversal tenantID transactionID StatusReversalFailed at"

section \<open>Parked credits\<close>

definition ParkCredit :: "string \<Rightarrow> CreditEvent \<Rightarrow> memory \<Rightarrow> unit outcome" where
  "ParkCredit tenantID ev m =
    (if ce_TenantID ev \<noteq> tenantID then (Inl ErrTenantMismatch, m)
     else let m = m\<lparr>m_parked := alloc (m_parked m) tenantID\<rparr>
          in if get2 (m_parked m) tenantID (ce_TransactionID ev) \<noteq> None then (Inr (), m)
             else (Inr (), m\<lparr>m_parked := put2 (m_parked m) tenantID (ce_TransactionID ev) ev\<rparr>))"

definition PeekParkedCredits :: "string \<Rightarrow> string list \<Rightarrow> memory \<Rightarrow> CreditEvent list outcome" where
  "PeekParkedCredits tenantID transactionIDs m =
    (Inr (List.map_filter (\<lambda>i. get2 (m_parked m) tenantID i) transactionIDs), m)"

definition DeleteParkedCredit :: "string \<Rightarrow> string \<Rightarrow> memory \<Rightarrow> unit outcome" where
  "DeleteParkedCredit tenantID transactionID m =
    (Inr (), m\<lparr>m_parked := del2 (m_parked m) tenantID transactionID\<rparr>)"

section \<open>Reads\<close>

definition Get :: "string \<Rightarrow> string \<Rightarrow> memory \<Rightarrow> transaction outcome" where
  "Get tenantID transactionID m =
    (case get2 (m_byTenant m) tenantID transactionID of
       None \<Rightarrow> (Inl ErrNotFound, m)
     | Some stored \<Rightarrow> (Inr stored, m))"

text \<open>\<^verbatim>\<open>sort.Slice\<close> leaves the order of ties open; here it is the order of the list.\<close>

definition cut :: "int \<Rightarrow> 'a list \<Rightarrow> 'a list" where
  "cut limit xs = (if limit > 0 \<and> int (length xs) > limit then take (nat limit) xs else xs)"

definition ListByStatus :: "string \<Rightarrow> status \<Rightarrow> int \<Rightarrow> memory \<Rightarrow> transaction list outcome" where
  "ListByStatus tenantID st limit m =
    (Inr (cut limit (sort_key (\<lambda>t. - tx_DebitAt t)
       (filter (\<lambda>t. tx_Status t = st) (map snd (inner (m_byTenant m) tenantID))))), m)"

section \<open>Claims of the sweep\<close>

text \<open>Whether ingest lost anything for the tenant in a minute of \<open>[from, to]\<close>.\<close>

definition hasGapLocked :: "memory \<Rightarrow> string \<Rightarrow> gotime \<Rightarrow> gotime \<Rightarrow> bool" where
  "hasGapLocked m tenantID from to =
    (let lo = trunc_time minute from; hi = trunc_time minute to
     in list_ex (\<lambda>((kt, bucket), v). kt = tenantID \<and> \<not> bucket < lo \<and> \<not> bucket > hi
          \<and> (is_Dropped v > 0 \<or> is_HandlerErrors v > 0)) (m_health m))"

definition HasIngestGap :: "string \<Rightarrow> gotime \<Rightarrow> gotime \<Rightarrow> memory \<Rightarrow> bool outcome" where
  "HasIngestGap tenantID from to m = (Inr (hasGapLocked m tenantID from to), m)"

definition slaAtRisk :: "status \<Rightarrow> bool" where
  "slaAtRisk s \<longleftrightarrow> s = StatusOrphaned \<or> s = StatusReversalPending \<or> s = StatusReversalFailed \<or> s = StatusSuspect"

text \<open>The entries a claim selects are pointers into the map: a tenant, an id and the value.\<close>

definition put_all :: "(transaction \<Rightarrow> transaction) \<Rightarrow> (string \<times> string \<times> transaction) list \<Rightarrow>
    (string, string, transaction) map2 \<Rightarrow> (string, string, transaction) map2" where
  "put_all f due bt = fold (\<lambda>(a, b, t) bt. put2 bt a b (f t)) due bt"

definition sla_due :: "gotime \<Rightarrow> duration \<Rightarrow> duration \<Rightarrow> memory \<Rightarrow> (string \<times> string \<times> transaction) list" where
  "sla_due now deadline warnBefore m =
    (let warnFrom = now + warnBefore + - deadline
     in sort_key (\<lambda>(a, b, t). tx_DebitAt t)
       (filter (\<lambda>(a, b, t). \<not> (tx_SLAWarnedAt t \<noteq> None \<or> tx_IsBackfill t \<or> \<not> slaAtRisk (tx_Status t))
            \<and> \<not> tx_DebitAt t > warnFrom) (entries2 (m_byTenant m))))"

definition ClaimSLAAtRisk ::
  "gotime \<Rightarrow> duration \<Rightarrow> duration \<Rightarrow> int \<Rightarrow> memory \<Rightarrow> transaction list outcome" where
  "ClaimSLAAtRisk now deadline warnBefore limit m =
    (let limit = (if limit \<le> 0 then 500 else limit);
         due = cut limit (sla_due now deadline warnBefore m);
         warn = (\<lambda>t. t\<lparr>tx_SLAWarnedAt := Some now, tx_UpdatedAt := now\<rparr>)
     in (Inr (map (\<lambda>(a, b, t). warn t) due), m\<lparr>m_byTenant := put_all warn due (m_byTenant m)\<rparr>))"

definition expired_due :: "gotime \<Rightarrow> string list \<Rightarrow> memory \<Rightarrow> (string \<times> string \<times> transaction) list" where
  "expired_due now skip m =
    sort_key (\<lambda>(a, b, t). tx_ExpectedCompletionAt t)
      (filter (\<lambda>(a, b, t). a \<notin> set skip \<and> IsExpiredAt t now) (entries2 (m_byTenant m)))"

definition expire :: "memory \<Rightarrow> gotime \<Rightarrow> transaction \<Rightarrow> transaction" where
  "expire m now t =
    (let target = StatusOrphaned;
         target = (if tx_Status t = StatusPendingUnknown then StatusSuspect else target);
         target = (if hasGapLocked m (tx_TenantID t) (tx_DebitAt t) (tx_ExpectedCompletionAt t)
                   then StatusSuspect else target)
     in t\<lparr>tx_Status := target, tx_DetectedAt := Some now, tx_UpdatedAt := now\<rparr>)"

definition ClaimExpired :: "gotime \<Rightarrow> int \<Rightarrow> string list \<Rightarrow> memory \<Rightarrow> transaction list outcome" where
  "ClaimExpired now limit skip m =
    (let due = cut limit (expired_due now skip m)
     in (Inr (map (\<lambda>(a, b, t). expire m now t) due),
         m\<lparr>m_byTenant := put_all (expire m now) due (m_byTenant m)\<rparr>))"

section \<open>What every operation does to the stored transactions\<close>

abbreviation stored :: "memory \<Rightarrow> string \<Rightarrow> string \<Rightarrow> transaction option" where
  "stored m \<equiv> get2 (m_byTenant m)"

definition same_identity :: "transaction \<Rightarrow> transaction \<Rightarrow> bool" where
  "same_identity s t \<longleftrightarrow>
    tx_ID t = tx_ID s \<and> tx_TenantID t = tx_TenantID s \<and> tx_TransactionID t = tx_TransactionID s \<and>
    tx_IdempotencyKey t = tx_IdempotencyKey s \<and> tx_TransactionType t = tx_TransactionType s \<and>
    tx_Provider t = tx_Provider s \<and> tx_AmountMinor t = tx_AmountMinor s \<and>
    tx_Currency t = tx_Currency s \<and> tx_DebitAt t = tx_DebitAt s \<and>
    tx_ExpectedCompletionAt t = tx_ExpectedCompletionAt s \<and>
    tx_CustomerRefHash t = tx_CustomerRefHash s \<and> tx_ExpectedCreditMinor t = tx_ExpectedCreditMinor s \<and>
    tx_Metadata t = tx_Metadata s \<and> tx_IsBackfill t = tx_IsBackfill s \<and> tx_CreatedAt t = tx_CreatedAt s"

text \<open>One legal step of a stored transaction: the debit's own facts are fixed, and the status
  stays or follows an edge of the state machine.\<close>

definition evolves :: "transaction \<Rightarrow> transaction \<Rightarrow> bool" where
  "evolves s t \<longleftrightarrow> same_identity s t \<and> (tx_Status t = tx_Status s \<or> CanTransition (tx_Status s) (tx_Status t))"

lemma evolves_refl [simp]: "evolves t t"
  by (simp add: evolves_def same_identity_def)

lemma same_identity_trans: "same_identity s t \<Longrightarrow> same_identity t u \<Longrightarrow> same_identity s u"
  by (simp add: same_identity_def)

lemma map_of_by_key:
  assumes "distinct (map (\<lambda>(a, b, t). (a, b)) due)" "(a, b, t) \<in> set due" "(a, b, u) \<in> set due"
  shows "t = u"
  using assms by (induction due) force+

lemma get2_put_all:
  assumes "distinct (map (\<lambda>(a, b, t). (a, b)) due)"
  shows "(a, b, t) \<in> set due \<Longrightarrow> get2 (put_all f due bt) a b = Some (f t)"
    and "\<forall>t. (a, b, t) \<notin> set due \<Longrightarrow> get2 (put_all f due bt) a b = get2 bt a b"
proof -
  have other: "\<forall>t. (a, b, t) \<notin> set due \<Longrightarrow> get2 (put_all f due bt) a b = get2 bt a b" for due bt
    by (induction due arbitrary: bt) (auto simp: put_all_def get2_put2)
  then show "\<forall>t. (a, b, t) \<notin> set due \<Longrightarrow> get2 (put_all f due bt) a b = get2 bt a b" .
  show "(a, b, t) \<in> set due \<Longrightarrow> get2 (put_all f due bt) a b = Some (f t)"
    using assms
  proof (induction due arbitrary: bt)
    case (Cons p due)
    obtain a' b' t' where p: "p = (a', b', t')" by (cases p)
    show ?case
    proof (cases "(a, b, t) = p")
      case True
      then have "\<forall>u. (a, b, u) \<notin> set due"
        using Cons.prems(2) by force
      then have "get2 (put_all f due (put2 bt a b (f t))) a b = Some (f t)"
        by (simp add: other)
      with True [symmetric] show ?thesis by (simp add: put_all_def)
    next
      case False
      with Cons.prems have "(a, b, t) \<in> set due" by simp
      with Cons.IH Cons.prems(2) show ?thesis by (simp add: put_all_def split: prod.splits)
    qed
  qed simp
qed

lemma wf2_put_all [simp]: "wf2 bt \<Longrightarrow> wf2 (put_all f due bt)"
  by (induction due arbitrary: bt) (auto simp: put_all_def)

lemma set_cut: "set (cut n xs) \<subseteq> set xs"
  by (simp add: cut_def set_take_subset)

lemma distinct_map_cut: "distinct (map f xs) \<Longrightarrow> distinct (map f (cut n xs))"
  by (simp add: cut_def take_map [symmetric])

lemma sorted_map_cut: "sorted (map f xs) \<Longrightarrow> sorted (map f (cut n xs))"
  by (simp add: cut_def take_map [symmetric] sorted_wrt_take)

text \<open>The entries a claim selects are entries of the store, each once.\<close>

lemma distinct_sla_due:
  assumes "wf2 (m_byTenant m)"
  shows "distinct (map (\<lambda>(a, b, t). (a, b)) (sla_due now d w m))"
proof -
  let ?k = "\<lambda>(a, b, t). (a, b)"
  have "distinct (map ?k (filter P (entries2 (m_byTenant m))))" for P
    by (rule distinct_map_filter [OF distinct_entries2 [OF assms]])
  then show ?thesis
    by (simp add: sla_due_def Let_def distinct_map inj_on_def)
qed

lemma distinct_expired_due:
  assumes "wf2 (m_byTenant m)"
  shows "distinct (map (\<lambda>(a, b, t). (a, b)) (expired_due now skip m))"
proof -
  let ?k = "\<lambda>(a, b, t). (a, b)"
  have "distinct (map ?k (filter P (entries2 (m_byTenant m))))" for P
    by (rule distinct_map_filter [OF distinct_entries2 [OF assms]])
  then show ?thesis
    by (simp add: expired_due_def distinct_map inj_on_def)
qed

lemma set_expired_due:
  "wf2 (m_byTenant m) \<Longrightarrow> (a, b, t) \<in> set (expired_due now skip m) \<longleftrightarrow>
    stored m a b = Some t \<and> a \<notin> set skip \<and> IsExpiredAt t now"
  by (auto simp: expired_due_def entries2_get2)

lemma set_sla_due:
  "wf2 (m_byTenant m) \<Longrightarrow> (a, b, t) \<in> set (sla_due now d w m) \<longleftrightarrow>
    stored m a b = Some t \<and> tx_SLAWarnedAt t = None \<and> \<not> tx_IsBackfill t \<and> slaAtRisk (tx_Status t) \<and>
    tx_DebitAt t \<le> now + w - d"
  by (auto simp: sla_due_def Let_def entries2_get2 not_less)

section \<open>The store invariant\<close>

text \<open>
  Every stored transaction sits under its own tenant and id, its idempotency key is on
  record, its row id was handed out by the counter, and no two rows share a row id or,
  within a tenant, an idempotency key.
\<close>

definition store_ok :: "memory \<Rightarrow> bool" where
  "store_ok m \<longleftrightarrow> wf2 (m_byTenant m) \<and> 0 \<le> m_nextID m \<and>
    (\<forall>a b t. stored m a b = Some t \<longrightarrow>
      tx_TenantID t = a \<and> tx_TransactionID t = b \<and>
      tx_IdempotencyKey t \<in> set (inner (m_idem m) a) \<and> 0 < tx_ID t \<and> tx_ID t \<le> m_nextID m) \<and>
    (\<forall>a b t a' b' t'. stored m a b = Some t \<and> stored m a' b' = Some t' \<and> tx_ID t = tx_ID t' \<longrightarrow>
      a = a' \<and> b = b') \<and>
    (\<forall>a b t b' t'. stored m a b = Some t \<and> stored m a b' = Some t' \<and>
      tx_IdempotencyKey t = tx_IdempotencyKey t' \<longrightarrow> b = b')"

text \<open>An operation that inserts nothing: every row evolves in place.\<close>

definition in_place :: "memory \<Rightarrow> memory \<Rightarrow> bool" where
  "in_place m m' \<longleftrightarrow> (wf2 (m_byTenant m) \<longrightarrow> wf2 (m_byTenant m')) \<and> m_idem m' = m_idem m \<and>
    m_nextID m' = m_nextID m \<and> (wf2 (m_byTenant m) \<longrightarrow> (\<forall>a b. rel_option evolves (stored m a b) (stored m' a b)))"

lemma in_placeI_same:
  "m_byTenant m' = m_byTenant m \<Longrightarrow> m_idem m' = m_idem m \<Longrightarrow> m_nextID m' = m_nextID m \<Longrightarrow> in_place m m'"
  by (simp add: in_place_def option.rel_refl)

lemma in_placeI_put:
  "stored m a b = Some s \<Longrightarrow> evolves s t \<Longrightarrow> m_byTenant m' = put2 (m_byTenant m) a b t \<Longrightarrow>
    m_idem m' = m_idem m \<Longrightarrow> m_nextID m' = m_nextID m \<Longrightarrow> in_place m m'"
  by (auto simp: in_place_def get2_put2 option.rel_refl)

lemma in_placeI_put_all:
  assumes "wf2 (m_byTenant m) \<Longrightarrow> distinct (map (\<lambda>(a, b, t). (a, b)) due)"
    and "\<And>a b t. wf2 (m_byTenant m) \<Longrightarrow> (a, b, t) \<in> set due \<Longrightarrow> stored m a b = Some t \<and> evolves t (f t)"
    and "m_byTenant m' = put_all f due (m_byTenant m)" "m_idem m' = m_idem m" "m_nextID m' = m_nextID m"
  shows "in_place m m'"
proof -
  have "rel_option evolves (stored m a b) (stored m' a b)" if wf: "wf2 (m_byTenant m)" for a b
  proof (cases "\<exists>t. (a, b, t) \<in> set due")
    case True
    then obtain t where t: "(a, b, t) \<in> set due" ..
    then have "stored m' a b = Some (f t)"
      using assms(1) [OF wf] by (simp add: assms(3) get2_put_all(1))
    with assms(2) [OF wf t] show ?thesis by simp
  next
    case False
    then have "stored m' a b = stored m a b"
      using assms(1) [OF wf] by (simp add: assms(3) get2_put_all(2))
    then show ?thesis by (simp add: option.rel_refl)
  qed
  with assms(3-5) show ?thesis by (simp add: in_place_def)
qed

lemma store_ok_row:
  assumes "store_ok m" "stored m a b = Some t"
  shows "tx_TenantID t = a" "tx_TransactionID t = b" "tx_IdempotencyKey t \<in> set (inner (m_idem m) a)"
    "0 < tx_ID t" "tx_ID t \<le> m_nextID m"
  using assms by (auto simp: store_ok_def)

lemma store_ok_id:
  assumes "store_ok m" "stored m a b = Some t" "stored m a' b' = Some t'" "tx_ID t = tx_ID t'"
  shows "a = a' \<and> b = b'"
  using assms unfolding store_ok_def by blast

lemma store_ok_key:
  assumes "store_ok m" "stored m a b = Some t" "stored m a b' = Some t'" "tx_IdempotencyKey t = tx_IdempotencyKey t'"
  shows "b = b'"
  using assms unfolding store_ok_def by blast

lemma store_ok_wf [simp]: "store_ok m \<Longrightarrow> wf2 (m_byTenant m)"
  by (simp add: store_ok_def)

lemma store_okI:
  assumes "wf2 (m_byTenant m)" "0 \<le> m_nextID m"
    and "\<And>a b t. stored m a b = Some t \<Longrightarrow> tx_TenantID t = a \<and> tx_TransactionID t = b \<and>
      tx_IdempotencyKey t \<in> set (inner (m_idem m) a) \<and> 0 < tx_ID t \<and> tx_ID t \<le> m_nextID m"
    and "\<And>a b t a' b' t'. stored m a b = Some t \<Longrightarrow> stored m a' b' = Some t' \<Longrightarrow> tx_ID t = tx_ID t' \<Longrightarrow>
      a = a' \<and> b = b'"
    and "\<And>a b t b' t'. stored m a b = Some t \<Longrightarrow> stored m a b' = Some t' \<Longrightarrow>
      tx_IdempotencyKey t = tx_IdempotencyKey t' \<Longrightarrow> b = b'"
  shows "store_ok m"
  unfolding store_ok_def using assms by blast

lemma store_ok_in_place:
  assumes ok: "store_ok m" and step: "in_place m m'"
  shows "store_ok m'"
proof -
  have wf: "wf2 (m_byTenant m)" using ok by (simp add: store_ok_def)
  have bwd: "\<exists>s. stored m a b = Some s \<and> same_identity s t" if "stored m' a b = Some t" for a b t
  proof -
    have "rel_option evolves (stored m a b) (stored m' a b)"
      using step wf by (simp add: in_place_def)
    with that show ?thesis by (auto simp: evolves_def option_rel_Some2)
  qed
  have same: "tx_ID t = tx_ID s" "tx_TenantID t = tx_TenantID s" "tx_TransactionID t = tx_TransactionID s"
    "tx_IdempotencyKey t = tx_IdempotencyKey s" if "same_identity s t" for s t
    using that by (simp_all add: same_identity_def)
  have m': "wf2 (m_byTenant m')" "m_idem m' = m_idem m" "m_nextID m' = m_nextID m"
    using step wf by (simp_all add: in_place_def)
  have row: "tx_TenantID t = a \<and> tx_TransactionID t = b \<and>
      tx_IdempotencyKey t \<in> set (inner (m_idem m) a) \<and> 0 < tx_ID t \<and> tx_ID t \<le> m_nextID m"
    if h: "stored m' a b = Some t" for a b t
  proof -
    obtain s where s: "stored m a b = Some s" "same_identity s t" using bwd [OF h] by blast
    with store_ok_row [OF ok s(1)] same [OF s(2)] show ?thesis by simp
  qed
  have ids: "a = a' \<and> b = b'"
    if h: "stored m' a b = Some t" "stored m' a' b' = Some t'" "tx_ID t = tx_ID t'" for a b t a' b' t'
  proof -
    obtain s s' where s: "stored m a b = Some s" "same_identity s t" "stored m a' b' = Some s'" "same_identity s' t'"
      using bwd [OF h(1)] bwd [OF h(2)] by blast
    then show ?thesis
      using store_ok_id [OF ok s(1) s(3)] h(3) same(1) [OF s(2)] same(1) [OF s(4)] by simp
  qed
  have keys: "b = b'"
    if h: "stored m' a b = Some t" "stored m' a b' = Some t'" "tx_IdempotencyKey t = tx_IdempotencyKey t'" for a b t b' t'
  proof -
    obtain s s' where s: "stored m a b = Some s" "same_identity s t" "stored m a b' = Some s'" "same_identity s' t'"
      using bwd [OF h(1)] bwd [OF h(2)] by blast
    then show ?thesis
      using store_ok_key [OF ok s(1) s(3)] h(3) same(4) [OF s(2)] same(4) [OF s(4)] by simp
  qed
  have "0 \<le> m_nextID m" using ok by (simp add: store_ok_def)
  with m' row ids keys show ?thesis by (intro store_okI) (simp, simp, simp, fast, fast)
qed

end
