(* ===== verification/Store_Steps.thy ===== *)
theory Store_Steps
  imports Store_Transactions "HOL-Library.Multiset"
begin

text \<open>
  What the transaction operations of the store guarantee: each evolves rows in place along
  the state machine, inserts keep what is there, and retries, overpayment and the claims of
  the sweep behave as the port (\<^verbatim>\<open>internal/store/store.go\<close>) promises.
\<close>

section \<open>The branches of the two status changes\<close>

definition credited :: "status \<Rightarrow> gotime \<Rightarrow> gotime \<Rightarrow> transaction \<Rightarrow> transaction" where
  "credited target at now s =
    (let t = s\<lparr>tx_Status := target, tx_CreditAt := Some at, tx_UpdatedAt := now\<rparr>
     in if target = StatusOrphaned then t\<lparr>tx_DetectedAt := Some now\<rparr> else t)"

definition marked :: "status \<Rightarrow> gotime \<Rightarrow> gotime \<Rightarrow> transaction \<Rightarrow> transaction" where
  "marked target at now s =
    (case target of
       StatusReversalPending \<Rightarrow> s\<lparr>tx_Status := target, tx_ReversalTriggeredAt := Some at, tx_UpdatedAt := now\<rparr>
     | StatusReversalCompleted \<Rightarrow> s\<lparr>tx_Status := target, tx_ReversalCompletedAt := Some at, tx_UpdatedAt := now\<rparr>
     | StatusCompleted \<Rightarrow>
         (if tx_CreditAt s = None then s\<lparr>tx_Status := target, tx_CreditAt := Some at, tx_UpdatedAt := now\<rparr>
          else s\<lparr>tx_Status := target, tx_UpdatedAt := now\<rparr>)
     | _ \<Rightarrow> s\<lparr>tx_Status := target, tx_UpdatedAt := now\<rparr>)"

lemma ApplyCredit_ok [store_simps]:
  "stored m a b = Some s \<Longrightarrow> CanTransition (tx_Status s) target \<Longrightarrow>
    ApplyCredit a b target at now m =
      (Inr (credited target at now s), m\<lparr>m_byTenant := put2 (m_byTenant m) a b (credited target at now s)\<rparr>)"
  by (simp add: ApplyCredit_def credited_def Transition_def Let_def)

lemma ApplyCredit_rejected [store_simps]:
  "stored m a b = Some s \<Longrightarrow> \<not> CanTransition (tx_Status s) target \<Longrightarrow>
    ApplyCredit a b target at now m = (Inl (InvalidTransitionError (tx_Status s) target), m)"
  by (simp add: ApplyCredit_def Transition_def)

lemma ApplyCredit_missing [store_simps]:
  "stored m a b = None \<Longrightarrow> ApplyCredit a b target at now m = (Inl ErrNotFound, m)"
  by (simp add: ApplyCredit_def)

lemma markReversal_ok [store_simps]:
  "stored m a b = Some s \<Longrightarrow> CanTransition (tx_Status s) target \<Longrightarrow>
    markReversal a b target at now m =
      (Inr (marked target at now s), m\<lparr>m_byTenant := put2 (m_byTenant m) a b (marked target at now s)\<rparr>)"
  by (cases target; cases "tx_CreditAt s") (simp_all add: markReversal_def marked_def Transition_def Let_def)

lemma markReversal_rejected [store_simps]:
  "stored m a b = Some s \<Longrightarrow> \<not> CanTransition (tx_Status s) target \<Longrightarrow>
    markReversal a b target at now m = (Inl (InvalidTransitionError (tx_Status s) target), m)"
  by (simp add: markReversal_def Transition_def)

lemma markReversal_missing [store_simps]:
  "stored m a b = None \<Longrightarrow> markReversal a b target at now m = (Inl ErrNotFound, m)"
  by (simp add: markReversal_def)

lemma marked_fields [simp]:
  "tx_Status (marked target at now s) = target" "same_identity s (marked target at now s)"
  "tx_CreditedMinor (marked target at now s) = tx_CreditedMinor s"
  by (cases target; simp add: marked_def same_identity_def)+

lemma credited_fields [simp]:
  "tx_Status (credited target at now s) = target" "same_identity s (credited target at now s)"
  "tx_CreditedMinor (credited target at now s) = tx_CreditedMinor s"
  by (simp_all add: credited_def same_identity_def Let_def)

section \<open>The branches of a partial credit\<close>

definition partially_credited :: "CreditEvent \<Rightarrow> gotime \<Rightarrow> transaction \<Rightarrow> transaction" where
  "partially_credited c now s =
    (if ce_Currency c \<noteq> '''' \<and> ce_Currency c \<noteq> tx_Currency s
     then s\<lparr>tx_Status := StatusSuspect, tx_UpdatedAt := now\<rparr>
     else let total = wrap64 (tx_CreditedMinor s + ce_AmountMinor c);
              t = s\<lparr>tx_CreditedMinor := total, tx_CreditAt := Some (ce_CreditAt c), tx_UpdatedAt := now\<rparr>
          in if total > ExpectedCredit s then t\<lparr>tx_Status := StatusSuspect\<rparr>
             else if total = ExpectedCredit s then t\<lparr>tx_Status := StatusCompleted\<rparr>
             else t)"

definition note_key :: "string \<Rightarrow> CreditEvent \<Rightarrow> memory \<Rightarrow> memory" where
  "note_key a c m = m\<lparr>m_applied := put_key (alloc (m_applied m) a) a (ce_IdempotencyKey c)\<rparr>"

lemma note_key_fields [simp]:
  "m_byTenant (note_key a c m) = m_byTenant m" "m_idem (note_key a c m) = m_idem m"
  "m_nextID (note_key a c m) = m_nextID m" "m_parked (note_key a c m) = m_parked m"
  by (simp_all add: note_key_def)

lemma inner_note_key [simp]:
  "inner (m_applied (note_key a c m)) a' =
    (if a' = a then List.insert (ce_IdempotencyKey c) (inner (m_applied m) a) else inner (m_applied m) a')"
  by (simp add: note_key_def)

lemma alloc_alloc: "alloc (alloc m a) a = alloc m a"
  by (auto simp: alloc_def update_conv split: option.splits)

lemma ApplyPartialCredit_missing [store_simps]:
  "stored m a (ce_TransactionID c) = None \<Longrightarrow> ApplyPartialCredit a c now m = (Inl ErrNotFound, m)"
  by (simp add: ApplyPartialCredit_def)

lemma ApplyPartialCredit_closed [store_simps]:
  "stored m a (ce_TransactionID c) = Some s \<Longrightarrow> \<not> IsOpen (tx_Status s) \<Longrightarrow>
    ApplyPartialCredit a c now m = (Inl (InvalidTransitionError (tx_Status s) StatusCompleted), m)"
  by (simp add: ApplyPartialCredit_def IsOpen_def)

lemma ApplyPartialCredit_replay [store_simps]:
  "stored m a (ce_TransactionID c) = Some s \<Longrightarrow> IsOpen (tx_Status s) \<Longrightarrow>
    ce_IdempotencyKey c \<in> set (inner (m_applied m) a) \<Longrightarrow>
    ApplyPartialCredit a c now m = (Inr s, m\<lparr>m_applied := alloc (m_applied m) a\<rparr>)"
  by (auto simp: ApplyPartialCredit_def IsOpen_def Let_def)

lemma ExpectedCredit_cong [simp]:
  "ExpectedCredit (s\<lparr>tx_Status := st\<rparr>) = ExpectedCredit s"
  "ExpectedCredit (s\<lparr>tx_CreditedMinor := x\<rparr>) = ExpectedCredit s"
  "ExpectedCredit (s\<lparr>tx_CreditAt := y\<rparr>) = ExpectedCredit s"
  "ExpectedCredit (s\<lparr>tx_UpdatedAt := z\<rparr>) = ExpectedCredit s"
  by (simp_all add: ExpectedCredit_def)

lemma ApplyPartialCredit_fresh [store_simps]:
  assumes "stored m a (ce_TransactionID c) = Some s" "IsOpen (tx_Status s)"
    and "ce_IdempotencyKey c \<notin> set (inner (m_applied m) a)"
  shows "ApplyPartialCredit a c now m =
    (Inr (partially_credited c now s),
     (note_key a c m)\<lparr>m_byTenant := put2 (m_byTenant m) a (ce_TransactionID c) (partially_credited c now s)\<rparr>)"
proof -
  have status: "tx_Status s = StatusPendingDebit \<or> tx_Status s = StatusPendingUnknown"
    using assms(2) by (simp add: IsOpen_def)
  show ?thesis
  proof (cases "ce_Currency c \<noteq> '''' \<and> ce_Currency c \<noteq> tx_Currency s")
    case True
    with assms status show ?thesis
      by (auto simp: ApplyPartialCredit_def partially_credited_def note_key_def Let_def)
  next
    case False
    then have "ce_Currency c = '''' \<or> ce_Currency c = tx_Currency s" by blast
    with status show ?thesis
      by (elim disjE) (use assms(1,3) in
        \<open>simp_all add: ApplyPartialCredit_def partially_credited_def note_key_def Let_def
          split del: if_split cong: if_cong\<close>)
  qed
qed

lemma partially_credited_evolves: "IsOpen (tx_Status s) \<Longrightarrow> evolves s (partially_credited c now s)"
  by (auto simp: partially_credited_def Let_def evolves_def same_identity_def IsOpen_def)

section \<open>Every operation evolves rows in place\<close>

lemma ApplyCredit_in_place: "in_place m (snd (ApplyCredit a b target at now m))"
proof (cases "stored m a b")
  case (Some s)
  show ?thesis
  proof (cases "CanTransition (tx_Status s) target")
    case True
    then have "evolves s (credited target at now s)"
      by (simp add: evolves_def)
    with Some True show ?thesis
      by (auto simp: ApplyCredit_ok intro!: in_placeI_put [OF Some])
  next
    case False
    with Some show ?thesis by (simp add: ApplyCredit_rejected in_placeI_same)
  qed
qed (simp add: ApplyCredit_def in_placeI_same)

lemma ApplyPartialCredit_in_place: "in_place m (snd (ApplyPartialCredit a c now m))"
proof (cases "stored m a (ce_TransactionID c)")
  case (Some s)
  show ?thesis
  proof (cases "IsOpen (tx_Status s)")
    case True
    note ev = partially_credited_evolves [OF True, of c now]
    show ?thesis
    proof (cases "ce_IdempotencyKey c \<in> set (inner (m_applied m) a)")
      case True
      with Some \<open>IsOpen (tx_Status s)\<close> show ?thesis
        by (simp add: ApplyPartialCredit_replay in_placeI_same)
    next
      case False
      with Some \<open>IsOpen (tx_Status s)\<close> show ?thesis
        by (simp add: ApplyPartialCredit_fresh in_placeI_put [OF Some ev])
    qed
  next
    case False
    with Some show ?thesis by (simp add: ApplyPartialCredit_closed in_placeI_same)
  qed
qed (simp add: ApplyPartialCredit_missing in_placeI_same)

lemma markReversal_in_place: "in_place m (snd (markReversal a b target at now m))"
proof (cases "stored m a b")
  case (Some s)
  show ?thesis
  proof (cases "CanTransition (tx_Status s) target")
    case True
    then have "evolves s (marked target at now s)" by (simp add: evolves_def)
    with Some True show ?thesis
      by (auto simp: markReversal_ok intro!: in_placeI_put [OF Some])
  next
    case False
    with Some show ?thesis by (simp add: markReversal_rejected in_placeI_same)
  qed
qed (simp add: markReversal_def in_placeI_same)

lemma ParkCredit_in_place: "in_place m (snd (ParkCredit a ev m))"
  by (auto simp: ParkCredit_def Let_def intro: in_placeI_same)

lemma DeleteParkedCredit_in_place: "in_place m (snd (DeleteParkedCredit a b m))"
  by (simp add: DeleteParkedCredit_def in_placeI_same)

lemma expire_evolves: "IsExpiredAt t now \<Longrightarrow> evolves t (expire m now t)"
  by (auto simp: evolves_def same_identity_def expire_def Let_def IsExpiredAt_def IsOpen_def)

lemma ClaimExpired_in_place: "in_place m (snd (ClaimExpired now limit skip m))"
proof (rule in_placeI_put_all [where due = "cut limit (expired_due now skip m)" and f = "expire m now"])
  assume wf: "wf2 (m_byTenant m)"
  show "distinct (map (\<lambda>(a, b, t). (a, b)) (cut limit (expired_due now skip m)))"
    by (rule distinct_map_cut [OF distinct_expired_due [OF wf]])
  fix a b t
  assume "(a, b, t) \<in> set (cut limit (expired_due now skip m))"
  then have "(a, b, t) \<in> set (expired_due now skip m)"
    by (rule set_cut [THEN subsetD])
  with wf show "stored m a b = Some t \<and> evolves t (expire m now t)"
    by (simp add: set_expired_due expire_evolves)
qed (simp_all add: ClaimExpired_def Let_def)

definition warn :: "gotime \<Rightarrow> transaction \<Rightarrow> transaction" where
  "warn now t = t\<lparr>tx_SLAWarnedAt := Some now, tx_UpdatedAt := now\<rparr>"

lemma ClaimSLAAtRisk_warn:
  "ClaimSLAAtRisk now d w limit m =
    (let due = cut (if limit \<le> 0 then 500 else limit) (sla_due now d w m)
     in (Inr (map (\<lambda>(a, b, t). warn now t) due), m\<lparr>m_byTenant := put_all (warn now) due (m_byTenant m)\<rparr>))"
  by (simp add: ClaimSLAAtRisk_def Let_def warn_def [abs_def])

lemma warn_evolves: "evolves t (warn now t)"
  by (simp add: warn_def evolves_def same_identity_def)

lemma ClaimSLAAtRisk_in_place: "in_place m (snd (ClaimSLAAtRisk now d w limit m))"
proof -
  let ?due = "cut (if limit \<le> 0 then 500 else limit) (sla_due now d w m)"
  show ?thesis
  proof (rule in_placeI_put_all [where due = ?due and f = "warn now"])
    assume wf: "wf2 (m_byTenant m)"
    show "distinct (map (\<lambda>(a, b, t). (a, b)) ?due)"
      by (rule distinct_map_cut [OF distinct_sla_due [OF wf]])
    fix a b t
    assume "(a, b, t) \<in> set ?due"
    then have "(a, b, t) \<in> set (sla_due now d w m)"
      by (rule set_cut [THEN subsetD])
    with wf show "stored m a b = Some t \<and> evolves t (warn now t)"
      by (simp add: set_sla_due warn_evolves)
  qed (simp_all add: ClaimSLAAtRisk_warn Let_def)
qed

section \<open>Storing debits\<close>

text \<open>A debit the store has seen before: by its idempotency key or by its id.\<close>

definition known :: "memory \<Rightarrow> string \<Rightarrow> transaction \<Rightarrow> bool" where
  "known m a t \<longleftrightarrow> tx_IdempotencyKey t \<in> set (inner (m_idem m) a) \<or> stored m a (tx_TransactionID t) \<noteq> None"

definition stamped :: "int \<Rightarrow> gotime \<Rightarrow> transaction \<Rightarrow> transaction" where
  "stamped i now t = t\<lparr>tx_ID := i, tx_Status := StatusPendingDebit, tx_CreatedAt := now, tx_UpdatedAt := now\<rparr>"

definition insert_debit :: "string \<Rightarrow> gotime \<Rightarrow> transaction \<Rightarrow> memory \<Rightarrow> memory" where
  "insert_debit a now t m = m\<lparr>m_nextID := m_nextID m + 1,
    m_byTenant := put2 (m_byTenant m) a (tx_TransactionID t) (stamped (m_nextID m + 1) now t),
    m_idem := put_key (m_idem m) a (tx_IdempotencyKey t)\<rparr>"

lemma upsert_loop_Cons:
  "upsert_loop a now (t # txns) m res =
    (if known m a t then upsert_loop a now txns m (res\<lparr>Duplicates := Duplicates res @ [tx_TransactionID t]\<rparr>)
     else upsert_loop a now txns (insert_debit a now t m) (res\<lparr>Inserted := Inserted res @ [tx_TransactionID t]\<rparr>))"
  by (simp add: known_def insert_debit_def stamped_def Let_def)

lemma known_insert [simp]:
  "known (insert_debit a now t m) a u \<longleftrightarrow> known m a u \<or>
    tx_IdempotencyKey u = tx_IdempotencyKey t \<or> tx_TransactionID u = tx_TransactionID t"
  by (auto simp: known_def insert_debit_def get2_put2)

lemma stored_insert:
  "stored (insert_debit a now t m) a' b =
    (if a' = a \<and> b = tx_TransactionID t then Some (stamped (m_nextID m + 1) now t) else stored m a' b)"
  by (simp add: insert_debit_def get2_put2)

lemma store_ok_insert:
  assumes ok: "store_ok m" and new: "\<not> known m a t" and a: "tx_TenantID t = a"
  shows "store_ok (insert_debit a now t m)"
proof -
  let ?m = "insert_debit a now t m"
  have old: "stored m a' b = Some u" if "stored ?m a' b = Some u" "\<not> (a' = a \<and> b = tx_TransactionID t)" for a' b u
    using that by (auto simp: stored_insert split: if_splits)
  have new': "u = stamped (m_nextID m + 1) now t" if "stored ?m a (tx_TransactionID t) = Some u" for u
    using that by (simp add: stored_insert)
  have fresh: "tx_ID u \<noteq> m_nextID m + 1" if "stored m a' b = Some u" for a' b u
    using store_ok_row(5) [OF ok that] by simp
  have key: "tx_IdempotencyKey u \<noteq> tx_IdempotencyKey t" if "stored m a b = Some u" for b u
    using store_ok_row(3) [OF ok that] new by (auto simp: known_def)
  have fields: "m_nextID ?m = m_nextID m + 1" "m_idem ?m = put_key (m_idem m) a (tx_IdempotencyKey t)"
    "wf2 (m_byTenant ?m)"
    using ok by (simp_all add: insert_debit_def)
  have st: "tx_ID (stamped i now t) = i" "tx_TenantID (stamped i now t) = a"
    "tx_TransactionID (stamped i now t) = tx_TransactionID t"
    "tx_IdempotencyKey (stamped i now t) = tx_IdempotencyKey t" for i
    by (simp_all add: stamped_def a)
  have n: "0 \<le> m_nextID m" using ok by (simp add: store_ok_def)
  show ?thesis
  proof (rule store_okI)
    show "wf2 (m_byTenant ?m)" "0 \<le> m_nextID ?m" using fields n by simp_all
  next
    fix a' b u
    assume u: "stored ?m a' b = Some u"
    show "tx_TenantID u = a' \<and> tx_TransactionID u = b \<and> tx_IdempotencyKey u \<in> set (inner (m_idem ?m) a') \<and>
      0 < tx_ID u \<and> tx_ID u \<le> m_nextID ?m"
    proof (cases "a' = a \<and> b = tx_TransactionID t")
      case True
      with u new' have "u = stamped (m_nextID m + 1) now t" by blast
      with True n show ?thesis by (simp add: st fields)
    next
      case False
      from store_ok_row [OF ok old [OF u False]] show ?thesis by (auto simp: fields)
    qed
  next
    fix a1 b1 u1 a2 b2 u2
    assume h: "stored ?m a1 b1 = Some u1" "stored ?m a2 b2 = Some u2" "tx_ID u1 = tx_ID u2"
    show "a1 = a2 \<and> b1 = b2"
      using h store_ok_id [OF ok, of a1 b1 u1 a2 b2 u2] fresh [of a1 b1 u1] fresh [of a2 b2 u2]
      by (auto simp: stored_insert st split: if_splits)
  next
    fix a1 b1 u1 b2 u2
    assume h: "stored ?m a1 b1 = Some u1" "stored ?m a1 b2 = Some u2" "tx_IdempotencyKey u1 = tx_IdempotencyKey u2"
    show "b1 = b2"
      using h store_ok_key [OF ok, of a1 b1 u1 b2 u2] key [of b1 u1] key [of b2 u2]
      by (auto simp: stored_insert st split: if_splits)
  qed
qed

declare upsert_loop.simps(2) [simp del]

lemma upsert_keeps:
  "stored m a' b = Some t \<Longrightarrow> stored (fst (upsert_loop a now txns m res)) a' b = Some t"
proof (induction txns arbitrary: m res)
  case (Cons v txns)
  show ?case
  proof (cases "known m a v")
    case True
    with Cons show ?thesis by (simp add: upsert_loop_Cons)
  next
    case False
    then have "stored (insert_debit a now v m) a' b = Some t"
      using Cons.prems by (auto simp: stored_insert known_def)
    with False Cons.IH show ?thesis by (simp add: upsert_loop_Cons)
  qed
qed simp

lemma known_keeps: "known m a u \<Longrightarrow> known (fst (upsert_loop a now txns m res)) a u"
  by (induction txns arbitrary: m res) (simp_all add: upsert_loop_Cons)

lemma upsert_all_known: "u \<in> set txns \<Longrightarrow> known (fst (upsert_loop a now txns m res)) a u"
  by (induction txns arbitrary: m res) (auto simp: upsert_loop_Cons intro: known_keeps)

lemma upsert_new:
  "stored (fst (upsert_loop a now txns m res)) a' b = Some t \<Longrightarrow> stored m a' b = None \<Longrightarrow>
    a' = a \<and> (\<exists>u\<in>set txns. tx_TransactionID u = b \<and> t = stamped (tx_ID t) now u)"
proof (induction txns arbitrary: m res)
  case (Cons v txns)
  show ?case
  proof (cases "known m a v")
    case True
    with Cons show ?thesis by (auto simp: upsert_loop_Cons)
  next
    case False
    let ?m = "insert_debit a now v m"
    show ?thesis
    proof (cases "stored ?m a' b")
      case None
      with Cons False show ?thesis by (auto simp: upsert_loop_Cons)
    next
      case (Some w)
      then have w: "a' = a" "b = tx_TransactionID v" "w = stamped (m_nextID m + 1) now v"
        using Cons.prems(2) by (simp_all add: stored_insert split: if_splits)
      have "t = w" using upsert_keeps [OF Some] Cons.prems(1) False by (simp add: upsert_loop_Cons)
      with w show ?thesis by (auto simp: stamped_def)
    qed
  qed
qed simp

lemma upsert_mset:
  "mset (Inserted (snd (upsert_loop a now txns m res))) + mset (Duplicates (snd (upsert_loop a now txns m res))) =
    mset (Inserted res) + mset (Duplicates res) + mset (map tx_TransactionID txns)"
  by (induction txns arbitrary: m res) (simp_all add: upsert_loop_Cons)

lemma upsert_Inserted:
  "set (Inserted (snd (upsert_loop a now txns m res))) =
    set (Inserted res) \<union> {b. stored m a b = None \<and> stored (fst (upsert_loop a now txns m res)) a b \<noteq> None}"
proof (induction txns arbitrary: m res)
  case (Cons v txns)
  show ?case
  proof (cases "known m a v")
    case True
    with Cons show ?thesis by (simp add: upsert_loop_Cons)
  next
    case False
    let ?m = "insert_debit a now v m" and ?r = "res\<lparr>Inserted := Inserted res @ [tx_TransactionID v]\<rparr>"
    have new: "stored m a (tx_TransactionID v) = None" using False by (simp add: known_def)
    have "stored ?m a (tx_TransactionID v) = Some (stamped (m_nextID m + 1) now v)"
      by (simp add: stored_insert)
    then have kept: "stored (fst (upsert_loop a now txns ?m ?r)) a (tx_TransactionID v) \<noteq> None"
      using upsert_keeps by (metis option.distinct(1))
    have IH: "set (Inserted (snd (upsert_loop a now txns ?m ?r))) =
        set (Inserted ?r) \<union> {b. stored ?m a b = None \<and> stored (fst (upsert_loop a now txns ?m ?r)) a b \<noteq> None}"
      by (rule Cons.IH)
    have "{b. stored ?m a b = None \<and> stored (fst (upsert_loop a now txns ?m ?r)) a b \<noteq> None} =
        {b. stored m a b = None \<and> stored (fst (upsert_loop a now txns ?m ?r)) a b \<noteq> None} - {tx_TransactionID v}"
      by (auto simp: stored_insert)
    with IH new kept False show ?thesis by (auto simp: upsert_loop_Cons)
  qed
qed auto

lemma upsert_distinct:
  "distinct (Inserted res) \<Longrightarrow> (\<forall>b\<in>set (Inserted res). stored m a b \<noteq> None) \<Longrightarrow>
    distinct (Inserted (snd (upsert_loop a now txns m res)))"
proof (induction txns arbitrary: m res)
  case (Cons v txns)
  show ?case
  proof (cases "known m a v")
    case True
    with Cons show ?thesis by (simp add: upsert_loop_Cons)
  next
    case False
    then have "tx_TransactionID v \<notin> set (Inserted res)" using Cons.prems(2) by (auto simp: known_def)
    moreover have "\<forall>b\<in>set (Inserted res @ [tx_TransactionID v]). stored (insert_debit a now v m) a b \<noteq> None"
      using Cons.prems(2) by (auto simp: stored_insert)
    ultimately show ?thesis using False Cons by (simp add: upsert_loop_Cons)
  qed
qed simp

lemma upsert_store_ok:
  "store_ok m \<Longrightarrow> \<forall>t\<in>set txns. tx_TenantID t = a \<Longrightarrow> store_ok (fst (upsert_loop a now txns m res))"
  by (induction txns arbitrary: m res) (auto simp: upsert_loop_Cons intro: store_ok_insert)

lemma upsert_known:
  "\<forall>t\<in>set txns. known m a t \<Longrightarrow>
    upsert_loop a now txns m res = (m, res\<lparr>Duplicates := Duplicates res @ map tx_TransactionID txns\<rparr>)"
  by (induction txns arbitrary: res) (simp_all add: upsert_loop_Cons)


lemma upsert_alloc:
  "map_of (m_byTenant m) a \<noteq> None \<Longrightarrow> map_of (m_byTenant (fst (upsert_loop a now txns m res))) a \<noteq> None"
  by (induction txns arbitrary: m res)
    (auto simp: upsert_loop_Cons insert_debit_def put2_def update_conv)

definition with_tenant :: "string \<Rightarrow> memory \<Rightarrow> memory" where
  "with_tenant a m = (if map_of (m_byTenant m) a = None
    then m\<lparr>m_byTenant := alloc (m_byTenant m) a, m_idem := AList.update a [] (m_idem m)\<rparr> else m)"

lemma UpsertDebits_ok [store_simps]:
  "\<forall>t\<in>set txns. tx_TenantID t = a \<Longrightarrow> UpsertDebits a txns now m =
    (Inr (snd (upsert_loop a now txns (with_tenant a m) \<lparr>Inserted = [], Duplicates = []\<rparr>)),
     fst (upsert_loop a now txns (with_tenant a m) \<lparr>Inserted = [], Duplicates = []\<rparr>))"
  by (auto simp: UpsertDebits_def with_tenant_def list_ex_iff Let_def split: prod.splits)

lemma UpsertDebits_mismatch [store_simps]:
  "\<not> (\<forall>t\<in>set txns. tx_TenantID t = a) \<Longrightarrow> UpsertDebits a txns now m = (Inl ErrTenantMismatch, m)"
  by (auto simp: UpsertDebits_def list_ex_iff)

lemma stored_with_tenant [simp]: "stored (with_tenant a m) a' b = stored m a' b"
  by (simp add: with_tenant_def)

lemma with_tenant_alloc: "map_of (m_byTenant (with_tenant a m)) a \<noteq> None"
  by (auto simp: with_tenant_def alloc_def update_conv)

lemma with_tenant_known: "map_of (m_byTenant m) a \<noteq> None \<Longrightarrow> with_tenant a m = m"
  by (auto simp: with_tenant_def)

lemma store_ok_with_tenant:
  assumes ok: "store_ok m"
  shows "store_ok (with_tenant a m)"
proof (cases "map_of (m_byTenant m) a")
  case None
  then have none: "stored m a b = None" for b by (simp add: get2_def inner_def)
  have st: "stored (with_tenant a m) = stored m" by (intro ext) simp
  have n: "m_nextID (with_tenant a m) = m_nextID m" "0 \<le> m_nextID m"
    using ok by (simp_all add: with_tenant_def store_ok_def)
  show ?thesis
  proof (rule store_okI)
    show "wf2 (m_byTenant (with_tenant a m))" using ok by (simp add: with_tenant_def)
    show "0 \<le> m_nextID (with_tenant a m)" using n by simp
  next
    fix a' b t
    assume t: "stored (with_tenant a m) a' b = Some t"
    then have "a' \<noteq> a" using none by auto
    with store_ok_row [OF ok t [unfolded st]] n None
    show "tx_TenantID t = a' \<and> tx_TransactionID t = b \<and>
      tx_IdempotencyKey t \<in> set (inner (m_idem (with_tenant a m)) a') \<and> 0 < tx_ID t \<and> tx_ID t \<le> m_nextID (with_tenant a m)"
      by (simp add: with_tenant_def)
  qed (use store_ok_id [OF ok] store_ok_key [OF ok] in \<open>auto simp: st\<close>)
qed (use ok in \<open>simp add: with_tenant_known\<close>)

lemma UpsertDebits_store_ok: "store_ok m \<Longrightarrow> store_ok (snd (UpsertDebits a txns now m))"
  by (cases "\<forall>t\<in>set txns. tx_TenantID t = a")
    (simp_all add: UpsertDebits_ok UpsertDebits_mismatch upsert_store_ok store_ok_with_tenant)

definition sample_batch :: "transaction list" where
  "sample_batch =
    [tx_zero\<lparr>tx_TenantID := ''t'', tx_TransactionID := ''x'', tx_IdempotencyKey := ''k''\<rparr>,
     tx_zero\<lparr>tx_TenantID := ''t'', tx_TransactionID := ''y'', tx_IdempotencyKey := ''k''\<rparr>]"



section \<open>Partial credits\<close>

text \<open>Deliveries of credits to a tenant, each with the instant it is handled.\<close>

fun deliver :: "string \<Rightarrow> (gotime \<times> CreditEvent) list \<Rightarrow> memory \<Rightarrow> memory" where
  "deliver a [] m = m"
| "deliver a ((now, c) # ds) m = deliver a ds (snd (ApplyPartialCredit a c now m))"

lemma deliver_append: "deliver a (ds @ es) m = deliver a es (deliver a ds m)"
  by (induction ds arbitrary: m) auto

lemma deliver_snoc: "deliver a (ds @ [(now, c)]) m = snd (ApplyPartialCredit a c now (deliver a ds m))"
  by (simp add: deliver_append)

lemma ExpectedCredit_same: "same_identity s t \<Longrightarrow> ExpectedCredit t = ExpectedCredit s"
  by (simp add: same_identity_def ExpectedCredit_def)

lemma partially_credited_within:
  assumes "ce_Currency c = '''' \<or> ce_Currency c = tx_Currency t"
    and "int64 (tx_CreditedMinor t)" "0 < ce_AmountMinor c" "int64 (ExpectedCredit t)"
    and "tx_CreditedMinor t + ce_AmountMinor c \<le> ExpectedCredit t"
  shows "tx_CreditedMinor (partially_credited c now t) = tx_CreditedMinor t + ce_AmountMinor c"
    and "tx_Status (partially_credited c now t) =
      (if tx_CreditedMinor t + ce_AmountMinor c = ExpectedCredit t then StatusCompleted else tx_Status t)"
    and "same_identity t (partially_credited c now t)"
proof -
  have "int64 (tx_CreditedMinor t + ce_AmountMinor c)"
    using assms(2-5) by (simp add: int64_def)
  then have w: "wrap64 (tx_CreditedMinor t + ce_AmountMinor c) = tx_CreditedMinor t + ce_AmountMinor c"
    by (rule wrap64_int64)
  show "tx_CreditedMinor (partially_credited c now t) = tx_CreditedMinor t + ce_AmountMinor c"
    and "tx_Status (partially_credited c now t) =
      (if tx_CreditedMinor t + ce_AmountMinor c = ExpectedCredit t then StatusCompleted else tx_Status t)"
    and "same_identity t (partially_credited c now t)"
    using assms(1,5) w by (auto simp: partially_credited_def Let_def same_identity_def)
qed

text \<open>What holds after a prefix of the deliveries, given the credits still to be expected.\<close>

definition accumulated ::
  "string \<Rightarrow> string \<Rightarrow> transaction \<Rightarrow> CreditEvent set \<Rightarrow> CreditEvent set \<Rightarrow> memory \<Rightarrow> bool" where
  "accumulated a b s K D m \<longleftrightarrow>
    (\<exists>t. stored m a b = Some t \<and> same_identity s t \<and>
      tx_CreditedMinor t = tx_CreditedMinor s + (\<Sum>c\<in>D. ce_AmountMinor c) \<and>
      tx_Status t = (if tx_CreditedMinor t = ExpectedCredit s then StatusCompleted else tx_Status s)) \<and>
    (\<forall>c\<in>K. ce_IdempotencyKey c \<in> set (inner (m_applied m) a) \<longleftrightarrow> c \<in> D)"

definition payable :: "string \<Rightarrow> transaction \<Rightarrow> CreditEvent set \<Rightarrow> bool" where
  "payable b s K \<longleftrightarrow> finite K \<and> inj_on ce_IdempotencyKey K \<and> IsOpen (tx_Status s) \<and>
    int64 (tx_CreditedMinor s) \<and> int64 (ExpectedCredit s) \<and> tx_CreditedMinor s < ExpectedCredit s \<and>
    tx_CreditedMinor s + (\<Sum>c\<in>K. ce_AmountMinor c) \<le> ExpectedCredit s \<and>
    (\<forall>c\<in>K. ce_TransactionID c = b \<and> 0 < ce_AmountMinor c \<and>
      (ce_Currency c = '''' \<or> ce_Currency c = tx_Currency s))"

lemma accumulated_step:
  assumes pay: "payable b s K" and D: "D \<subseteq> K" and c: "c \<in> K" and acc: "accumulated a b s K D m"
  shows "accumulated a b s K (insert c D) (snd (ApplyPartialCredit a c now m))"
proof -
  obtain t where t: "stored m a b = Some t" "same_identity s t"
      "tx_CreditedMinor t = tx_CreditedMinor s + (\<Sum>c\<in>D. ce_AmountMinor c)"
      "tx_Status t = (if tx_CreditedMinor t = ExpectedCredit s then StatusCompleted else tx_Status s)"
    and keys: "\<And>d. d \<in> K \<Longrightarrow> ce_IdempotencyKey d \<in> set (inner (m_applied m) a) \<longleftrightarrow> d \<in> D"
    using acc by (auto simp: accumulated_def)
  from pay c have cb: "ce_TransactionID c = b" and pos: "0 < ce_AmountMinor c"
    and cur: "ce_Currency c = '''' \<or> ce_Currency c = tx_Currency t"
    using t(2) by (auto simp: payable_def same_identity_def)
  have fin: "finite D" "finite K" using pay D by (auto simp: payable_def intro: finite_subset)
  show ?thesis
  proof (cases "c \<in> D")
    case True
    then have "insert c D = D" by blast
    moreover have "accumulated a b s K D (snd (ApplyPartialCredit a c now m))"
      using acc t(1) cb keys [OF c] True
      by (cases "IsOpen (tx_Status t)")
        (simp_all add: ApplyPartialCredit_replay ApplyPartialCredit_closed accumulated_def)
    ultimately show ?thesis by simp
  next
    case False
    have "(\<Sum>d\<in>insert c D. ce_AmountMinor d) \<le> (\<Sum>d\<in>K. ce_AmountMinor d)"
      using pay D c by (intro sum_mono2 fin) (auto simp: payable_def)
    then have room: "tx_CreditedMinor t + ce_AmountMinor c \<le> ExpectedCredit t"
      using False fin pay t(3) ExpectedCredit_same [OF t(2)] by (simp add: payable_def)
    have "0 \<le> (\<Sum>d\<in>D. ce_AmountMinor d)"
      using pay D by (intro sum_nonneg) (auto simp: payable_def less_imp_le)
    then have range: "int64 (tx_CreditedMinor t)"
      using pay room pos t(3) ExpectedCredit_same [OF t(2)] by (simp add: payable_def int64_def)
    have exp: "int64 (ExpectedCredit t)"
      using pay ExpectedCredit_same [OF t(2)] by (simp add: payable_def)
    have "tx_CreditedMinor t < ExpectedCredit s"
      using room pos ExpectedCredit_same [OF t(2)] by simp
    then have "IsOpen (tx_Status t)" "tx_Status t = tx_Status s"
      using t(4) pay by (simp_all add: payable_def)
    note run = ApplyPartialCredit_fresh [of m a c t, unfolded cb, OF t(1) this(1)]
    note step = partially_credited_within [OF cur range pos exp room]
    have "same_identity s (partially_credited c now t)"
      using same_identity_trans [OF t(2) step(3)] .
    moreover have "ce_IdempotencyKey d = ce_IdempotencyKey c \<longleftrightarrow> d = c" if "d \<in> K" for d
      using that c pay by (auto simp: payable_def inj_on_def)
    moreover have "ce_IdempotencyKey c \<notin> set (inner (m_applied m) a)"
      using keys [OF c] False by simp
    ultimately show ?thesis
      using run step False fin t(3) keys \<open>tx_Status t = tx_Status s\<close> ExpectedCredit_same [OF t(2)]
      by (auto simp: accumulated_def)
  qed
qed

lemma accumulated_deliver:
  assumes pay: "payable b s K" and acc: "accumulated a b s K {} m" and ds: "snd ` set ds \<subseteq> K"
  shows "accumulated a b s K (snd ` set ds) (deliver a ds m)"
  using ds
proof (induction ds rule: rev_induct)
  case (snoc d ds)
  obtain now c where d: "d = (now, c)" by (cases d)
  have "accumulated a b s K (insert c (snd ` set ds)) (snd (ApplyPartialCredit a c now (deliver a ds m)))"
    using snoc d by (intro accumulated_step [OF pay]) auto
  with d show ?case by (simp add: deliver_snoc)
qed (use acc in simp)


definition sample_tx :: transaction where
  "sample_tx = tx_zero\<lparr>tx_ID := 1, tx_TenantID := ''t'', tx_TransactionID := ''x'', tx_IdempotencyKey := ''k'',
    tx_AmountMinor := 100, tx_Currency := ''NGN'', tx_ExpectedCompletionAt := 50\<rparr>"

definition sample_store :: "transaction \<Rightarrow> memory" where
  "sample_store t = NewMemory\<lparr>m_byTenant := [(''t'', [(''x'', t)])], m_idem := [(''t'', [''k''])], m_nextID := 1\<rparr>"

definition sample_credit :: "string \<Rightarrow> int \<Rightarrow> CreditEvent" where
  "sample_credit k amount = \<lparr>ce_TenantID = ''t'', ce_TransactionID = ''x'', ce_IdempotencyKey = k,
    ce_CreditAt = 20, ce_ProviderReference = '''', ce_Status = CreditSuccess, ce_AmountMinor = amount,
    ce_Currency = ''NGN''\<rparr>"

lemma stored_sample [simp]:
  "stored (sample_store t) ''t'' ''x'' = Some t"
  "stored (sample_store t) a b = (if a = ''t'' \<and> b = ''x'' then Some t else None)"
  by (simp_all add: sample_store_def get2_def inner_def)

lemma sample_credit_fields [simp]:
  "ce_TransactionID (sample_credit k n) = ''x''" "ce_IdempotencyKey (sample_credit k n) = k"
  "ce_AmountMinor (sample_credit k n) = n" "ce_Currency (sample_credit k n) = ''NGN''"
  by (simp_all add: sample_credit_def)

lemma sample_tx_fields [simp]:
  "tx_ID sample_tx = 1" "tx_TenantID sample_tx = ''t''" "tx_TransactionID sample_tx = ''x''"
  "tx_IdempotencyKey sample_tx = ''k''"
  "tx_Status sample_tx = StatusPendingDebit" "tx_CreditedMinor sample_tx = 0" "ExpectedCredit sample_tx = 100"
  "tx_Currency sample_tx = ''NGN''" "tx_ExpectedCompletionAt sample_tx = 50" "tx_SLAWarnedAt sample_tx = None"
  "tx_DebitAt sample_tx = 0" "\<not> tx_IsBackfill sample_tx"
  by (simp_all add: sample_tx_def tx_zero_def ExpectedCredit_def)

lemma sample_store_ok: "tx_ID t = 1 \<Longrightarrow> tx_TenantID t = ''t'' \<Longrightarrow> tx_TransactionID t = ''x'' \<Longrightarrow>
    tx_IdempotencyKey t = ''k'' \<Longrightarrow> store_ok (sample_store t)"
  by (intro store_okI) (auto simp: wf2_def sample_store_def NewMemory_def inner_def get2_def split: if_splits)


text \<open>
  Applying a partial credit twice leaves the store as applying it once, whatever the
  first application did: accumulate, settle, mark suspect, or be refused.
\<close>

theorem ApplyPartialCredit_idempotent:
  "snd (ApplyPartialCredit a c now' (snd (ApplyPartialCredit a c now m))) = snd (ApplyPartialCredit a c now m)"
proof (cases "stored m a (ce_TransactionID c)")
  case (Some s)
  have again: "snd (ApplyPartialCredit a c now' m') = m'"
    if t: "stored m' a (ce_TransactionID c) = Some t" and k: "ce_IdempotencyKey c \<in> set (inner (m_applied m') a)" for m' t
  proof -
    have "map_of (m_applied m') a \<noteq> None" using k by (cases "map_of (m_applied m') a") (auto simp: inner_def)
    then have "m'\<lparr>m_applied := alloc (m_applied m') a\<rparr> = m'" by (auto simp: alloc_def)
    with t k show ?thesis
      by (cases "IsOpen (tx_Status t)") (simp_all add: ApplyPartialCredit_replay ApplyPartialCredit_closed)
  qed
  show ?thesis
  proof (cases "IsOpen (tx_Status s)")
    case True
    show ?thesis
    proof (cases "ce_IdempotencyKey c \<in> set (inner (m_applied m) a)")
      case True
      with Some \<open>IsOpen (tx_Status s)\<close> show ?thesis
        by (simp add: ApplyPartialCredit_replay alloc_alloc)
    next
      case False
      with Some \<open>IsOpen (tx_Status s)\<close> show ?thesis
        by (simp add: ApplyPartialCredit_fresh again)
    qed
  next
    case False
    with Some show ?thesis by (simp add: ApplyPartialCredit_closed)
  qed
qed (simp add: ApplyPartialCredit_missing)

text \<open>
  The total is an \<^verbatim>\<open>int64\<close> added without a check: a credit that takes it past the
  largest value wraps to a negative total, and the overpaid transaction stays open instead
  of becoming suspect.
\<close>

theorem partial_credit_overflow:
  assumes "stored m a (ce_TransactionID c) = Some s" "IsOpen (tx_Status s)"
    and "ce_IdempotencyKey c \<notin> set (inner (m_applied m) a)"
    and "ce_Currency c = '''' \<or> ce_Currency c = tx_Currency s" "0 < ExpectedCredit s"
    and "int64 (tx_CreditedMinor s)" "int64 (ce_AmountMinor c)"
    and "2 ^ 63 \<le> tx_CreditedMinor s + ce_AmountMinor c"
  shows "\<exists>t. fst (ApplyPartialCredit a c now m) = Inr t \<and> tx_Status t = tx_Status s \<and> tx_CreditedMinor t < 0"
proof -
  let ?x = "tx_CreditedMinor s + ce_AmountMinor c"
  have "(?x + 2 ^ 63) mod 2 ^ 64 = ?x + 2 ^ 63 - 2 ^ 64"
  proof -
    have "(?x + 2 ^ 63) mod 2 ^ 64 = (?x + 2 ^ 63 - 2 ^ 64) mod 2 ^ 64"
      by (rule minus_mod_self2 [symmetric])
    also have "\<dots> = ?x + 2 ^ 63 - 2 ^ 64"
      using assms(6-8) by (intro mod_pos_pos_trivial) (simp_all add: int64_def)
    finally show ?thesis .
  qed
  then have "wrap64 ?x = ?x - 2 ^ 64" by (simp add: wrap64_def)
  then have neg: "wrap64 ?x < 0" using assms(6,7) by (simp add: int64_def)
  with assms(1-5) show ?thesis
    by (auto simp: ApplyPartialCredit_fresh partially_credited_def Let_def)
qed

theorem partial_credit_overflow_witness:
  "let s = sample_tx\<lparr>tx_CreditedMinor := 1\<rparr>; c = sample_credit ''a'' (2 ^ 63 - 1)
   in \<exists>t. fst (ApplyPartialCredit ''t'' c 9 (sample_store s)) = Inr t \<and>
     tx_Status t = StatusPendingDebit \<and> tx_CreditedMinor t < 0"
proof -
  let ?s = "sample_tx\<lparr>tx_CreditedMinor := 1\<rparr>" and ?c = "sample_credit ''a'' (2 ^ 63 - 1)"
  have "\<exists>t. fst (ApplyPartialCredit ''t'' ?c 9 (sample_store ?s)) = Inr t \<and>
    tx_Status t = tx_Status ?s \<and> tx_CreditedMinor t < 0"
    by (rule partial_credit_overflow)
      (simp_all add: IsOpen_def int64_def, simp add: sample_store_def NewMemory_def)
  then show ?thesis by (simp add: Let_def)
qed

section \<open>The claims of the sweep\<close>

lemma sorted_expired_due: "sorted (map (\<lambda>(a, b, t). tx_ExpectedCompletionAt t) (expired_due now skip m))"
  by (simp add: expired_due_def)

lemma expire_fields:
  "tx_Status (expire m now t) =
    (if tx_Status t = StatusPendingUnknown \<or>
        hasGapLocked m (tx_TenantID t) (tx_DebitAt t) (tx_ExpectedCompletionAt t)
     then StatusSuspect else StatusOrphaned)"
  "tx_DetectedAt (expire m now t) = Some now" "same_identity t (expire m now t)"
  by (auto simp: expire_def Let_def same_identity_def)

lemma expire_not_open: "\<not> IsOpen (tx_Status (expire m now t))"
  by (simp add: expire_fields IsOpen_def)

lemma cut_split: "\<exists>rest. xs = cut n xs @ rest \<and> (n \<le> 0 \<longrightarrow> rest = [])"
  by (auto simp: cut_def intro: exI [of _ "drop (nat n) xs"])

lemma cut_before:
  assumes "sorted (map k xs)" "x \<in> set (cut n xs)" "y \<in> set xs" "y \<notin> set (cut n xs)"
  shows "k x \<le> k y"
proof -
  obtain rest where r: "xs = cut n xs @ rest" using cut_split by blast
  with assms(3,4) have y: "y \<in> set rest" by (metis Un_iff set_append)
  have "sorted (map k (cut n xs @ rest))" using assms(1) r by simp
  then have "\<forall>u\<in>set (cut n xs). \<forall>v\<in>set rest. k u \<le> k v" by (auto simp: sorted_append)
  with assms(2) y show ?thesis by blast
qed

lemma map_entryE: "u \<in> set (map (\<lambda>(a, b, t). f t) xs) \<Longrightarrow> \<exists>a b t. (a, b, t) \<in> set xs \<and> u = f t"
  by force

lemma stored_put_all:
  assumes d: "distinct (map (\<lambda>(a, b, t). (a, b)) due)"
    and due: "\<And>a b t. (a, b, t) \<in> set due \<Longrightarrow> get2 bt a b = Some t"
  shows "get2 (put_all f due bt) a b =
    (case get2 bt a b of None \<Rightarrow> None | Some t \<Rightarrow> Some (if (a, b, t) \<in> set due then f t else t))"
proof (cases "\<exists>t. (a, b, t) \<in> set due")
  case True
  then obtain t where t: "(a, b, t) \<in> set due" ..
  with due [OF t] show ?thesis by (simp add: get2_put_all(1) [OF d t])
next
  case False
  then show ?thesis by (simp add: get2_put_all(2) [OF d] split: option.split)
qed

lemma ClaimExpired_stored:
  assumes "store_ok m"
  shows "stored (snd (ClaimExpired now limit skip m)) a b =
    (case stored m a b of None \<Rightarrow> None
     | Some t \<Rightarrow> Some (if (a, b, t) \<in> set (cut limit (expired_due now skip m)) then expire m now t else t))"
proof -
  let ?due = "cut limit (expired_due now skip m)"
  have d: "distinct (map (\<lambda>(a, b, t). (a, b)) ?due)"
    using assms by (intro distinct_map_cut distinct_expired_due) simp
  have "stored m a b = Some t" if "(a, b, t) \<in> set ?due" for a b t
    using subsetD [OF set_cut that] assms by (simp add: set_expired_due)
  from stored_put_all [OF d this] show ?thesis by (simp add: ClaimExpired_def Let_def)
qed

lemma ClaimSLAAtRisk_stored:
  assumes "store_ok m"
  shows "stored (snd (ClaimSLAAtRisk now d w limit m)) a b =
    (case stored m a b of None \<Rightarrow> None
     | Some t \<Rightarrow> Some (if (a, b, t) \<in> set (cut (if limit \<le> 0 then 500 else limit) (sla_due now d w m))
                    then warn now t else t))"
proof -
  let ?due = "cut (if limit \<le> 0 then 500 else limit) (sla_due now d w m)"
  have d: "distinct (map (\<lambda>(a, b, t). (a, b)) ?due)"
    using assms by (intro distinct_map_cut distinct_sla_due) simp
  have "stored m a b = Some t" if "(a, b, t) \<in> set ?due" for a b t
    using subsetD [OF set_cut that] assms by (simp add: set_sla_due)
  from stored_put_all [OF d this] show ?thesis by (simp add: ClaimSLAAtRisk_warn Let_def)
qed

text \<open>
  C11. The sweep's claim is exact. Each transaction it returns was stored, open and past its
  deadline for a tenant not skipped, and is now suspect, when its outcome was ambiguous or
  ingest lost events over its window, and orphaned otherwise; everything else is untouched.
  They come oldest deadline first and nothing due earlier is left behind; without a limit
  nothing due is left at all. No transaction is returned twice, neither in one claim nor by
  a later one.
\<close>

theorem ClaimExpired_exact:
  assumes "store_ok m" "ClaimExpired now limit skip m = (Inr out, m')"
  shows "(\<forall>t'. t' \<in> set out \<longleftrightarrow> (\<exists>a b t. stored m a b = Some t \<and> stored m' a b = Some t' \<and>
        IsExpiredAt t now \<and> \<not> IsExpiredAt t' now \<and> a \<notin> set skip)) \<and>
    (\<forall>a b t. stored m a b = Some t \<longrightarrow> stored m' a b = Some t \<or>
        (\<exists>t'. stored m' a b = Some t' \<and> t' \<in> set out \<and> same_identity t t' \<and> tx_DetectedAt t' = Some now \<and>
          tx_Status t' = (if tx_Status t = StatusPendingUnknown \<or>
            hasGapLocked m a (tx_DebitAt t) (tx_ExpectedCompletionAt t) then StatusSuspect else StatusOrphaned))) \<and>
    sorted (map tx_ExpectedCompletionAt out) \<and> distinct (map tx_ID out) \<and>
    (\<forall>a b t. stored m' a b = Some t \<and> IsExpiredAt t now \<and> a \<notin> set skip \<longrightarrow>
        0 < limit \<and> (\<forall>u\<in>set out. tx_ExpectedCompletionAt u \<le> tx_ExpectedCompletionAt t)) \<and>
    (\<forall>now2 limit2 skip2 out2 m2. ClaimExpired now2 limit2 skip2 m' = (Inr out2, m2) \<longrightarrow>
        set (map tx_ID out) \<inter> set (map tx_ID out2) = {})"
proof -
  note ok = assms(1)
  let ?due = "cut limit (expired_due now skip m)"
  have out: "out = map (\<lambda>(a, b, t). expire m now t) ?due" and m': "m' = snd (ClaimExpired now limit skip m)"
    using assms(2) by (auto simp: ClaimExpired_def Let_def)
  note st = ClaimExpired_stored [OF ok, of now limit skip, folded m']
  have st_due: "stored m a b = Some t \<and> stored m' a b = Some (expire m now t) \<and> IsExpiredAt t now \<and> a \<notin> set skip"
    if "(a, b, t) \<in> set ?due" for a b t
    using subsetD [OF set_cut that] that ok by (simp add: set_expired_due st)
  have st_other: "stored m' a b = Some t" if "stored m a b = Some t" "(a, b, t) \<notin> set ?due" for a b t
    using that by (simp add: st)
  have closed': "\<not> IsExpiredAt (expire m now t) now'" for t now'
    using expire_not_open by (simp add: IsExpiredAt_def)
  have claimed: "\<exists>a b t. (a, b, t) \<in> set ?due \<and> u = expire m now t" if "u \<in> set out" for u
    using that unfolding out by (rule map_entryE)
  have ok': "store_ok m'"
    using store_ok_in_place [OF ok ClaimExpired_in_place] by (simp add: m')
  have 1: "t' \<in> set out \<longleftrightarrow> (\<exists>a b t. stored m a b = Some t \<and> stored m' a b = Some t' \<and>
        IsExpiredAt t now \<and> \<not> IsExpiredAt t' now \<and> a \<notin> set skip)" for t'
  proof
    assume "t' \<in> set out"
    from claimed [OF this] st_due closed' show "\<exists>a b t. stored m a b = Some t \<and> stored m' a b = Some t' \<and>
        IsExpiredAt t now \<and> \<not> IsExpiredAt t' now \<and> a \<notin> set skip" by blast
  next
    assume "\<exists>a b t. stored m a b = Some t \<and> stored m' a b = Some t' \<and>
        IsExpiredAt t now \<and> \<not> IsExpiredAt t' now \<and> a \<notin> set skip"
    then obtain a b t where t: "stored m a b = Some t" "stored m' a b = Some t'" "IsExpiredAt t now" "\<not> IsExpiredAt t' now"
      by blast
    have due: "(a, b, t) \<in> set ?due"
    proof (rule ccontr)
      assume "(a, b, t) \<notin> set ?due"
      from st_other [OF t(1) this] t show False by simp
    qed
    with st_due t(2) have "t' = expire m now t" by force
    with due show "t' \<in> set out" by (force simp: out)
  qed
  have 2: "stored m' a b = Some t \<or>
        (\<exists>t'. stored m' a b = Some t' \<and> t' \<in> set out \<and> same_identity t t' \<and> tx_DetectedAt t' = Some now \<and>
          tx_Status t' = (if tx_Status t = StatusPendingUnknown \<or>
            hasGapLocked m a (tx_DebitAt t) (tx_ExpectedCompletionAt t) then StatusSuspect else StatusOrphaned))"
    if t: "stored m a b = Some t" for a b t
  proof (cases "(a, b, t) \<in> set ?due")
    case True
    then have "expire m now t \<in> set out" by (force simp: out)
    with st_due [OF True] store_ok_row(1) [OF ok t] show ?thesis by (simp add: expire_fields)
  qed (use st_other [OF t] in blast)
  have deadline: "tx_ExpectedCompletionAt (expire m now t) = tx_ExpectedCompletionAt t"
    and row_id: "tx_ID (expire m now t) = tx_ID t" for t
    using expire_fields(3) [of t m now] by (simp_all add: same_identity_def)
  have "map tx_ExpectedCompletionAt out = map (\<lambda>(a, b, t). tx_ExpectedCompletionAt t) ?due"
    by (auto simp: out deadline)
  with sorted_map_cut [OF sorted_expired_due] have 3: "sorted (map tx_ExpectedCompletionAt out)"
    by metis
  have ids: "map tx_ID out = map (\<lambda>(a, b, t). tx_ID t) ?due"
    by (auto simp: out row_id)
  have "distinct (map (\<lambda>(a, b, t). (a, b)) ?due)"
    using ok by (intro distinct_map_cut distinct_expired_due) simp
  moreover have "inj_on (\<lambda>(a, b, t). tx_ID t) (set ?due)"
  proof (rule inj_onI)
    fix x y
    assume xy: "x \<in> set ?due" "y \<in> set ?due" "(\<lambda>(a, b, t). tx_ID t) x = (\<lambda>(a, b, t). tx_ID t) y"
    obtain a b t a2 b2 t2 where eq: "x = (a, b, t)" "y = (a2, b2, t2)" by (cases x; cases y)
    have s: "stored m a b = Some t" "stored m a2 b2 = Some t2"
      using st_due [of a b t] st_due [of a2 b2 t2] xy(1,2) by (simp_all add: eq)
    have "tx_ID t = tx_ID t2" using xy(3) by (simp only: eq split_conv)
    then have "a = a2 \<and> b = b2" by (rule store_ok_id [OF ok s])
    with s show "x = y" by (simp add: eq)
  qed
  ultimately have 4: "distinct (map tx_ID out)"
    by (simp add: ids distinct_map)
  have 5: "0 < limit \<and> (\<forall>u\<in>set out. tx_ExpectedCompletionAt u \<le> tx_ExpectedCompletionAt t)"
    if t: "stored m' a b = Some t" "IsExpiredAt t now" "a \<notin> set skip" for a b t
  proof -
    have left: "stored m a b = Some t" "(a, b, t) \<notin> set ?due"
      using t closed' by (auto simp: st split: option.splits if_splits)
    with t ok have due: "(a, b, t) \<in> set (expired_due now skip m)" by (simp add: set_expired_due)
    with left(2) have "0 < limit" by (auto simp: cut_def split: if_splits)
    moreover have "tx_ExpectedCompletionAt v \<le> tx_ExpectedCompletionAt t" if "(a', b', v) \<in> set ?due" for a' b' v
      using cut_before [OF sorted_expired_due that due left(2)] by simp
    ultimately show ?thesis
      using claimed deadline by fastforce
  qed
  have 6: "set (map tx_ID out) \<inter> set (map tx_ID out2) = {}"
    if run: "ClaimExpired now2 limit2 skip2 m' = (Inr out2, m2)" for now2 limit2 skip2 out2 m2
  proof -
    have "tx_ID u \<noteq> tx_ID u2" if u: "u \<in> set out" and u2: "u2 \<in> set out2" for u u2
    proof
      assume eq: "tx_ID u = tx_ID u2"
      obtain a b where ab: "stored m' a b = Some u" "\<not> IsExpiredAt u now2"
        using claimed [OF u] st_due closed' by blast
      from u2 run obtain a2 b2 t2 where
        d: "(a2, b2, t2) \<in> set (cut limit2 (expired_due now2 skip2 m'))" and e: "u2 = expire m' now2 t2"
        by (auto simp: ClaimExpired_def Let_def)
      from subsetD [OF set_cut d] ok' have t2: "stored m' a2 b2 = Some t2" "IsExpiredAt t2 now2"
        by (simp_all add: set_expired_due)
      have "tx_ID u = tx_ID t2" using eq e expire_fields(3) [of t2 m' now2] by (simp add: same_identity_def)
      from store_ok_id [OF ok' ab(1) t2(1) this] ab t2 show False by simp
    qed
    then show ?thesis by (auto simp: disjoint_iff)
  qed
  from 1 2 3 4 5 6 show ?thesis by (intro conjI allI impI) (simp, blast, simp, simp, blast, blast, blast)
qed

theorem ClaimExpired_exact_witness:
  "let m = sample_store sample_tx; (r, m') = ClaimExpired 60 0 [] m
   in store_ok m \<and> (\<exists>out t. r = Inr out \<and> stored m' ''t'' ''x'' = Some t \<and> t \<in> set out \<and>
     tx_Status t = StatusOrphaned)"
proof -
  let ?m = "sample_store sample_tx"
  have ok: "store_ok ?m" by (intro sample_store_ok) simp_all
  obtain out m' where run: "ClaimExpired 60 0 [] ?m = (Inr out, m')"
    by (simp add: ClaimExpired_def Let_def)
  have exp: "IsExpiredAt sample_tx 60" by (simp add: IsExpiredAt_def IsOpen_def)
  note claim = ClaimExpired_exact [OF ok run]
  from claim have left: "\<not> (stored m' ''t'' ''x'' = Some sample_tx \<and> IsExpiredAt sample_tx 60)"
    by (metis less_irrefl list.set(1) empty_iff)
  from claim have "stored ?m ''t'' ''x'' = Some sample_tx \<longrightarrow> stored m' ''t'' ''x'' = Some sample_tx \<or>
      (\<exists>t'. stored m' ''t'' ''x'' = Some t' \<and> t' \<in> set out \<and>
        same_identity sample_tx t' \<and> tx_DetectedAt t' = Some 60 \<and>
        tx_Status t' = (if tx_Status sample_tx = StatusPendingUnknown \<or>
          hasGapLocked ?m ''t'' (tx_DebitAt sample_tx) (tx_ExpectedCompletionAt sample_tx)
          then StatusSuspect else StatusOrphaned))"
    by (elim conjE) (erule allE, erule allE, erule allE, assumption)
  then have "stored m' ''t'' ''x'' = Some sample_tx \<or>
      (\<exists>t'. stored m' ''t'' ''x'' = Some t' \<and> t' \<in> set out \<and>
        tx_Status t' = (if tx_Status sample_tx = StatusPendingUnknown \<or>
          hasGapLocked ?m ''t'' (tx_DebitAt sample_tx) (tx_ExpectedCompletionAt sample_tx)
          then StatusSuspect else StatusOrphaned))"
    by auto
  moreover have "\<not> hasGapLocked ?m a f t" for a f t
    by (simp add: hasGapLocked_def sample_store_def NewMemory_def Let_def)
  ultimately show ?thesis using ok run left exp by (auto simp: Let_def)
qed

lemma warn_fields [simp]:
  "tx_SLAWarnedAt (warn now t) = Some now" "tx_Status (warn now t) = tx_Status t" "tx_ID (warn now t) = tx_ID t"
  "tx_DebitAt (warn now t) = tx_DebitAt t" "tx_IsBackfill (warn now t) = tx_IsBackfill t"
  "same_identity t (warn now t)"
  by (simp_all add: warn_def same_identity_def)

lemma length_cut: "0 < n \<Longrightarrow> int (length (cut n xs)) \<le> n"
  by (auto simp: cut_def)

text \<open>
  A warning is given once. Every transaction the SLA claim returns was unwarned, not a
  backfill, with the customer's money still out and its debit old enough, and is now
  stamped with the warning and otherwise as it was; everything else is untouched; at most
  the limit, 500 by default, are returned; and no later claim returns one of them again,
  whatever its deadline.
\<close>

theorem ClaimSLAAtRisk_once:
  assumes "store_ok m" "ClaimSLAAtRisk now deadline before limit m = (Inr out, m')"
  shows "(\<forall>t'\<in>set out. \<exists>a b t. stored m a b = Some t \<and> stored m' a b = Some t' \<and>
      t' = t\<lparr>tx_SLAWarnedAt := Some now, tx_UpdatedAt := now\<rparr> \<and>
      tx_SLAWarnedAt t = None \<and> \<not> tx_IsBackfill t \<and> slaAtRisk (tx_Status t) \<and>
      tx_DebitAt t \<le> now + before - deadline) \<and>
    (\<forall>a b t. stored m a b = Some t \<longrightarrow> stored m' a b = Some t \<or> (\<exists>t'\<in>set out. stored m' a b = Some t')) \<and>
    int (length out) \<le> (if limit \<le> 0 then 500 else limit) \<and>
    (\<forall>now2 d2 w2 limit2 out2 m2. ClaimSLAAtRisk now2 d2 w2 limit2 m' = (Inr out2, m2) \<longrightarrow>
      set (map tx_ID out) \<inter> set (map tx_ID out2) = {})"
proof -
  note ok = assms(1)
  let ?due = "cut (if limit \<le> 0 then 500 else limit) (sla_due now deadline before m)"
  have out: "out = map (\<lambda>(a, b, t). warn now t) ?due" and m': "m' = snd (ClaimSLAAtRisk now deadline before limit m)"
    using assms(2) by (auto simp: ClaimSLAAtRisk_warn Let_def)
  note st = ClaimSLAAtRisk_stored [OF ok, of now deadline before limit, folded m']
  have st_due: "stored m a b = Some t \<and> stored m' a b = Some (warn now t) \<and> tx_SLAWarnedAt t = None \<and>
      \<not> tx_IsBackfill t \<and> slaAtRisk (tx_Status t) \<and> tx_DebitAt t \<le> now + before - deadline"
    if "(a, b, t) \<in> set ?due" for a b t
    using subsetD [OF set_cut that] that ok by (simp add: set_sla_due st)
  have claimed: "\<exists>a b t. (a, b, t) \<in> set ?due \<and> u = warn now t" if "u \<in> set out" for u
    using that unfolding out by (rule map_entryE)
  have ok': "store_ok m'"
    using store_ok_in_place [OF ok ClaimSLAAtRisk_in_place] by (simp add: m')
  have 1: "\<exists>a b t. stored m a b = Some t \<and> stored m' a b = Some t' \<and>
      t' = t\<lparr>tx_SLAWarnedAt := Some now, tx_UpdatedAt := now\<rparr> \<and>
      tx_SLAWarnedAt t = None \<and> \<not> tx_IsBackfill t \<and> slaAtRisk (tx_Status t) \<and>
      tx_DebitAt t \<le> now + before - deadline" if "t' \<in> set out" for t'
    using claimed [OF that] st_due unfolding warn_def by blast
  have 2: "stored m' a b = Some t \<or> (\<exists>t'\<in>set out. stored m' a b = Some t')" if t: "stored m a b = Some t" for a b t
  proof (cases "(a, b, t) \<in> set ?due")
    case True
    then have "warn now t \<in> set out" by (force simp: out)
    with st_due [OF True] show ?thesis by blast
  qed (use t st in simp)
  have 3: "int (length out) \<le> (if limit \<le> 0 then 500 else limit)"
    using length_cut [of "if limit \<le> 0 then 500 else limit" "sla_due now deadline before m"] by (simp add: out)
  have 4: "set (map tx_ID out) \<inter> set (map tx_ID out2) = {}"
    if run: "ClaimSLAAtRisk now2 d2 w2 limit2 m' = (Inr out2, m2)" for now2 d2 w2 limit2 out2 m2
  proof -
    have "tx_ID u \<noteq> tx_ID u2" if u: "u \<in> set out" and u2: "u2 \<in> set out2" for u u2
    proof
      assume eq: "tx_ID u = tx_ID u2"
      obtain a b where ab: "stored m' a b = Some u" "tx_SLAWarnedAt u = Some now"
        using claimed [OF u] st_due warn_fields(1) by blast
      from u2 run obtain a2 b2 t2 where
        d: "(a2, b2, t2) \<in> set (cut (if limit2 \<le> 0 then 500 else limit2) (sla_due now2 d2 w2 m'))"
        and e: "u2 = warn now2 t2"
        by (auto simp: ClaimSLAAtRisk_warn Let_def)
      from subsetD [OF set_cut d] ok' have t2: "stored m' a2 b2 = Some t2" "tx_SLAWarnedAt t2 = None"
        by (simp_all add: set_sla_due)
      have "tx_ID u = tx_ID t2" using eq e by simp
      from store_ok_id [OF ok' ab(1) t2(1) this] ab t2 show False by simp
    qed
    then show ?thesis by (auto simp: disjoint_iff)
  qed
  from 1 2 3 4 show ?thesis by (intro conjI allI impI ballI) (blast, blast, simp, blast)
qed

theorem ClaimSLAAtRisk_once_witness:
  "let m = sample_store (sample_tx\<lparr>tx_Status := StatusOrphaned\<rparr>); (r, m') = ClaimSLAAtRisk 60 50 0 0 m
   in store_ok m \<and> (\<exists>out. r = Inr out \<and> int (length out) \<le> 500 \<and>
     (\<forall>out2 m2. ClaimSLAAtRisk 70 50 0 0 m' = (Inr out2, m2) \<longrightarrow> set (map tx_ID out) \<inter> set (map tx_ID out2) = {}))"
proof -
  let ?m = "sample_store (sample_tx\<lparr>tx_Status := StatusOrphaned\<rparr>)"
  have ok: "store_ok ?m" by (intro sample_store_ok) simp_all
  obtain out m' where run: "ClaimSLAAtRisk 60 50 0 0 ?m = (Inr out, m')"
    by (simp add: ClaimSLAAtRisk_def Let_def)
  from ClaimSLAAtRisk_once [OF ok run] have "int (length out) \<le> 500"
    "\<forall>out2 m2. ClaimSLAAtRisk 70 50 0 0 m' = (Inr out2, m2) \<longrightarrow> set (map tx_ID out) \<inter> set (map tx_ID out2) = {}"
    by simp_all
  with ok run show ?thesis by (simp add: Let_def)
qed

end
