(* ===== verification/Store_Health.thy ===== *)
theory Store_Health
  imports Store_Steps
begin

text \<open>
  Ingest health in the in-memory store (\<^verbatim>\<open>internal/store/memory_health.go\<close>): counters per
  tenant and minute, which tenants fell silent, and the episodes alerted on. The gap check
  itself is beside its first caller, \<open>ClaimExpired\<close>.
\<close>

section \<open>Operations\<close>

definition no_sample :: IngestSample where
  "no_sample = \<lparr>is_TenantID = '''', is_Bucket = 0, is_Received = 0, is_Dropped = 0, is_HandlerErrors = 0\<rparr>"

definition health_key :: "IngestSample \<Rightarrow> string \<times> gotime" where
  "health_key s = (is_TenantID s, trunc_time minute (is_Bucket s))"

definition health_at :: "((string \<times> gotime) \<times> IngestSample) list \<Rightarrow> string \<times> gotime \<Rightarrow> IngestSample" where
  "health_at h k = (case map_of h k of None \<Rightarrow> no_sample | Some v \<Rightarrow> v)"

definition record_sample ::
  "IngestSample \<Rightarrow> ((string \<times> gotime) \<times> IngestSample) list \<Rightarrow> ((string \<times> gotime) \<times> IngestSample) list" where
  "record_sample s h =
    (let key = health_key s; cur = health_at h key;
         cur = cur\<lparr>is_Received := wrap64 (is_Received cur + is_Received s)\<rparr>;
         cur = cur\<lparr>is_Dropped := wrap64 (is_Dropped cur + is_Dropped s)\<rparr>;
         cur = cur\<lparr>is_HandlerErrors := wrap64 (is_HandlerErrors cur + is_HandlerErrors s)\<rparr>
     in AList.update key cur h)"

definition RecordIngestHealth :: "IngestSample list \<Rightarrow> memory \<Rightarrow> unit outcome" where
  "RecordIngestHealth samples m = (Inr (), m\<lparr>m_health := fold record_sample samples (m_health m)\<rparr>)"

text \<open>The two maps \<^verbatim>\<open>SilentTenants\<close> builds while it ranges over the counters.\<close>

definition active_minutes :: "memory \<Rightarrow> gotime \<Rightarrow> gotime \<Rightarrow> string \<Rightarrow> nat" where
  "active_minutes m baselineFrom quietFrom a =
    length (filter (\<lambda>((t, bucket), v). t = a \<and> \<not> is_Received v \<le> 0 \<and> bucket < quietFrom \<and> \<not> bucket < baselineFrom)
      (m_health m))"

definition recently_active :: "memory \<Rightarrow> gotime \<Rightarrow> string \<Rightarrow> bool" where
  "recently_active m quietFrom a \<longleftrightarrow>
    list_ex (\<lambda>((t, bucket), v). t = a \<and> \<not> is_Received v \<le> 0 \<and> \<not> bucket < quietFrom) (m_health m)"

definition SilentTenants :: "gotime \<Rightarrow> SilenceParams \<Rightarrow> memory \<Rightarrow> string list outcome" where
  "SilentTenants now params m =
    (if sp_Quiet params \<le> 0 \<or> sp_Baseline params \<le> 0 \<or> sp_MinActiveBuckets params \<le> 0 then (Inr [], m)
     else let quietFrom = trunc_time minute (now + - sp_Quiet params);
              baselineFrom = quietFrom + - sp_Baseline params;
              tenants = remdups (map (fst \<circ> fst) (m_health m));
              out = filter (\<lambda>a. 0 < active_minutes m baselineFrom quietFrom a \<and>
                int (active_minutes m baselineFrom quietFrom a) \<ge> sp_MinActiveBuckets params \<and>
                \<not> recently_active m quietFrom a) tenants
          in (Inr (sort out), m))"

fun last_active :: "string \<Rightarrow> ((string \<times> gotime) \<times> IngestSample) list \<Rightarrow> gotime \<Rightarrow> gotime" where
  "last_active a [] latest = latest"
| "last_active a (((t, bucket), v) # h) latest =
    (if t \<noteq> a \<or> is_Received v \<le> 0 then last_active a h latest
     else if bucket > latest then last_active a h bucket else last_active a h latest)"

definition silentSinceLocked :: "memory \<Rightarrow> string \<Rightarrow> gotime \<Rightarrow> gotime" where
  "silentSinceLocked m a now =
    (let latest = last_active a (m_health m) 0
     in if IsZero latest then now else latest + minute)"

fun open_episodes ::
  "string list \<Rightarrow> gotime \<Rightarrow> memory \<Rightarrow> SilenceEpisode list \<Rightarrow> SilenceEpisode list \<times> memory" where
  "open_episodes [] now m opened = (opened, m)"
| "open_episodes (a # silent) now m opened =
    (if map_of (m_silence m) a \<noteq> None then open_episodes silent now m opened
     else let since = silentSinceLocked m a now
          in open_episodes silent now (m\<lparr>m_silence := AList.update a since (m_silence m)\<rparr>)
               (opened @ [\<lparr>se_TenantID = a, se_SilentSince = since\<rparr>]))"

definition SyncSilenceEpisodes :: "string list \<Rightarrow> gotime \<Rightarrow> memory \<Rightarrow> SilenceChange outcome" where
  "SyncSilenceEpisodes silent now m =
    (let (opened, m) = open_episodes silent now m [];
         over = filter (\<lambda>(a, since). a \<notin> set silent) (m_silence m);
         recovered = map (\<lambda>(a, since). \<lparr>se_TenantID = a, se_SilentSince = since\<rparr>) over;
         m = m\<lparr>m_silence := filter (\<lambda>(a, since). a \<in> set silent) (m_silence m)\<rparr>
     in (Inr \<lparr>sch_Opened = sort_key se_TenantID opened, sch_Recovered = sort_key se_TenantID recovered\<rparr>, m))"

fun activity_loop ::
  "string \<Rightarrow> gotime \<Rightarrow> gotime \<Rightarrow> ((string \<times> gotime) \<times> IngestSample) list \<Rightarrow> IngestActivitySummary \<Rightarrow> IngestActivitySummary" where
  "activity_loop a lo hi [] s = s"
| "activity_loop a lo hi (((t, bucket), v) # h) s =
    (if t \<noteq> a then activity_loop a lo hi h s
     else if bucket < lo \<or> bucket > hi then activity_loop a lo hi h s
     else let s = s\<lparr>ias_Received := wrap64 (ias_Received s + is_Received v)\<rparr>;
              s = (if is_Received v > 0 then s\<lparr>ias_ActiveBuckets := ias_ActiveBuckets s + 1\<rparr> else s)
          in activity_loop a lo hi h s)"

definition IngestActivity :: "string \<Rightarrow> gotime \<Rightarrow> gotime \<Rightarrow> memory \<Rightarrow> IngestActivitySummary outcome" where
  "IngestActivity a from to m =
    (let lo = trunc_time minute from; hi = trunc_time minute to
     in (Inr (activity_loop a lo hi (m_health m) \<lparr>ias_Received = 0, ias_ActiveBuckets = 0\<rparr>), m))"

section \<open>Gaps\<close>

text \<open>Counters that have not overflowed, with room for what is still to be added.\<close>

definition counters_below :: "int \<Rightarrow> ((string \<times> gotime) \<times> IngestSample) list \<Rightarrow> bool" where
  "counters_below b h \<longleftrightarrow>
    (\<forall>k v. map_of h k = Some v \<longrightarrow> 0 \<le> is_Dropped v \<and> is_Dropped v \<le> b \<and>
      0 \<le> is_HandlerErrors v \<and> is_HandlerErrors v \<le> b)"

definition lost :: "IngestSample \<Rightarrow> bool" where
  "lost v \<longleftrightarrow> is_Dropped v > 0 \<or> is_HandlerErrors v > 0"

lemma health_at_record:
  "health_at (record_sample s h) k =
    (if k = health_key s then
       (health_at h k)\<lparr>is_Received := wrap64 (is_Received (health_at h k) + is_Received s),
         is_Dropped := wrap64 (is_Dropped (health_at h k) + is_Dropped s),
         is_HandlerErrors := wrap64 (is_HandlerErrors (health_at h k) + is_HandlerErrors s)\<rparr>
     else health_at h k)"
  by (simp add: record_sample_def health_at_def update_conv Let_def)

lemma distinct_record: "distinct (map fst h) \<Longrightarrow> distinct (map fst (fold record_sample ss h))"
  by (induction ss arbitrary: h) (simp_all add: record_sample_def Let_def distinct_update)

definition small :: "int \<Rightarrow> IngestSample \<Rightarrow> bool" where
  "small b s \<longleftrightarrow> 0 \<le> is_Dropped s \<and> is_Dropped s \<le> b \<and> 0 \<le> is_HandlerErrors s \<and> is_HandlerErrors s \<le> b"

text \<open>Adding a bounded sample keeps every counter in range and never lowers one.\<close>

lemma record_step:
  assumes "\<And>k. small b (health_at h k)" "small c s" "b + c < 2 ^ 63"
  shows "small (b + c) (health_at (record_sample s h) k)"
    and "lost (health_at h k) \<Longrightarrow> lost (health_at (record_sample s h) k)"
    and "lost s \<Longrightarrow> lost (health_at (record_sample s h) (health_key s))"
proof -
  have w: "wrap64 (is_Dropped (health_at h k) + is_Dropped s) = is_Dropped (health_at h k) + is_Dropped s"
    "wrap64 (is_HandlerErrors (health_at h k) + is_HandlerErrors s) = is_HandlerErrors (health_at h k) + is_HandlerErrors s" for k
    using assms(1) [of k] assms(2,3) by (simp_all add: small_def int64_def)
  show "small (b + c) (health_at (record_sample s h) k)"
    using assms(1) [of k] assms(2) w by (auto simp: small_def health_at_record)
  show "lost (health_at h k) \<Longrightarrow> lost (health_at (record_sample s h) k)"
    using assms(1) [of k] assms(2) w by (auto simp: small_def lost_def health_at_record)
  show "lost s \<Longrightarrow> lost (health_at (record_sample s h) (health_key s))"
    using assms(1) [of "health_key s"] assms(2) w by (auto simp: small_def lost_def health_at_record)
qed

lemma record_all:
  assumes "\<And>k. small b (health_at h k)" "\<forall>s\<in>set ss. small c s" "0 \<le> c" "b + int (length ss) * c < 2 ^ 63"
  shows "(lost (health_at h k) \<longrightarrow> lost (health_at (fold record_sample ss h) k)) \<and>
    (\<forall>s\<in>set ss. lost s \<longrightarrow> lost (health_at (fold record_sample ss h) (health_key s)))"
  using assms
proof (induction ss arbitrary: h b k)
  case (Cons s ss)
  have room: "b + c + int (length ss) * c < 2 ^ 63" using Cons.prems(4) by (simp add: algebra_simps)
  moreover have "0 \<le> int (length ss) * c" using Cons.prems(3) by simp
  ultimately have bc: "b + c < 2 ^ 63" by linarith
  have s: "small c s" using Cons.prems(2) by simp
  note step = record_step [OF Cons.prems(1) s bc]
  have IH: "(lost (health_at (record_sample s h) k) \<longrightarrow> lost (health_at (fold record_sample (s # ss) h) k)) \<and>
    (\<forall>s'\<in>set ss. lost s' \<longrightarrow> lost (health_at (fold record_sample (s # ss) h) (health_key s')))" for k
    using Cons.IH [OF step(1) _ Cons.prems(3) room] Cons.prems(2) by simp
  show ?case using IH step(2,3) by auto
qed simp

lemma hasGap_iff:
  assumes "distinct (map fst (m_health m))"
  shows "hasGapLocked m a from to \<longleftrightarrow>
    (\<exists>bucket. trunc_time minute from \<le> bucket \<and> bucket \<le> trunc_time minute to \<and> lost (health_at (m_health m) (a, bucket)))"
proof -
  have "(k, v) \<in> set (m_health m) \<longleftrightarrow> map_of (m_health m) k = Some v" for k v
    using assms by simp
  then show ?thesis
    by (fastforce simp: hasGapLocked_def list_ex_iff Let_def lost_def health_at_def not_less no_sample_def
        split: option.splits)
qed

text \<open>
  Losing events stops reversals. If a loss is recorded for a tenant in any minute of a
  transaction's window, the sweep never moves that transaction to \<open>orphaned\<close>: it is left
  alone or becomes suspect. (Counters are \<^verbatim>\<open>int64\<close> and are assumed far from their limit.)
\<close>

theorem recorded_loss_prevents_orphaning:
  assumes "store_ok m" "distinct (map fst (m_health m))"
    and "\<forall>(k, v)\<in>set (m_health m). small (2 ^ 62) v"
    and "\<forall>s\<in>set samples. small (2 ^ 30) s" "length samples < 2 ^ 30"
    and "s \<in> set samples" "lost s"
    and "stored m (is_TenantID s) b = Some t" "tx_Status t \<noteq> StatusOrphaned"
    and "tx_DebitAt t \<le> is_Bucket s" "is_Bucket s \<le> tx_ExpectedCompletionAt t"
    and "stored (snd (ClaimExpired now limit skip (snd (RecordIngestHealth samples m)))) (is_TenantID s) b = Some t'"
  shows "tx_Status t' \<noteq> StatusOrphaned"
proof -
  let ?m = "snd (RecordIngestHealth samples m)" and ?a = "is_TenantID s"
  have bt: "m_byTenant ?m = m_byTenant m" and h: "m_health ?m = fold record_sample samples (m_health m)"
    by (simp_all add: RecordIngestHealth_def)
  have ok: "store_ok ?m"
    by (rule store_ok_in_place [OF assms(1)]) (simp add: RecordIngestHealth_def in_placeI_same)
  have b: "small (2 ^ 62) (health_at (m_health m) k)" for k
    using assms(3) by (auto simp: health_at_def no_sample_def small_def split: option.splits dest!: map_of_SomeD)
  have "int (length samples) * 2 ^ 30 < 2 ^ 30 * 2 ^ 30" using assms(5) by simp
  then have "lost (health_at (m_health ?m) (health_key s))"
    using record_all [OF b, of samples "2 ^ 30"] assms(4,6,7) by (simp add: h)
  moreover have "trunc_time minute (tx_DebitAt t) \<le> trunc_time minute (is_Bucket s)"
    "trunc_time minute (is_Bucket s) \<le> trunc_time minute (tx_ExpectedCompletionAt t)"
    using assms(10,11) by (auto intro: trunc_time_mono)
  moreover have "distinct (map fst (m_health ?m))" using distinct_record [OF assms(2)] h by simp
  ultimately have gap: "hasGapLocked ?m ?a (tx_DebitAt t) (tx_ExpectedCompletionAt t)"
    unfolding hasGap_iff [OF \<open>distinct (map fst (m_health ?m))\<close>] by (auto simp: health_key_def)
  have "tx_TenantID t = ?a" by (rule store_ok_row(1) [OF assms(1,8)])
  with gap assms(8,9,12) ClaimExpired_stored [OF ok, of now limit skip ?a b] show ?thesis
    by (auto simp: bt expire_fields split: if_splits)
qed

theorem recorded_loss_prevents_orphaning_witness:
  "let s = \<lparr>is_TenantID = ''t'', is_Bucket = 20, is_Received = 0, is_Dropped = 1, is_HandlerErrors = 0\<rparr>;
       m = snd (ClaimExpired 60 0 [] (snd (RecordIngestHealth [s] (sample_store sample_tx))))
   in \<exists>t'. stored m ''t'' ''x'' = Some t' \<and> tx_Status t' \<noteq> StatusOrphaned"
proof -
  let ?s = "\<lparr>is_TenantID = ''t'', is_Bucket = 20, is_Received = 0, is_Dropped = 1, is_HandlerErrors = 0\<rparr>"
  let ?m = "sample_store sample_tx"
  let ?h = "snd (RecordIngestHealth [?s] ?m)"
  have ok: "store_ok ?m" by (intro sample_store_ok) simp_all
  have ok': "store_ok ?h"
    by (rule store_ok_in_place [OF ok]) (simp add: RecordIngestHealth_def in_placeI_same)
  have "stored ?h ''t'' ''x'' = Some sample_tx"
    using stored_sample(1) by (simp add: RecordIngestHealth_def)
  then obtain t' where t': "stored (snd (ClaimExpired 60 0 [] ?h)) ''t'' ''x'' = Some t'"
    using ClaimExpired_stored [OF ok', of 60 0 "[]" "''t''" "''x''"] by simp
  have "tx_Status t' \<noteq> StatusOrphaned"
  proof (rule recorded_loss_prevents_orphaning [where m = ?m and samples = "[?s]" and s = ?s and b = "''x''"
        and t = sample_tx and now = 60 and limit = 0 and skip = "[]"])
    show "stored (snd (ClaimExpired 60 0 [] ?h)) (is_TenantID ?s) ''x'' = Some t'" using t' by simp
    show "stored ?m (is_TenantID ?s) ''x'' = Some sample_tx" by simp
    show "store_ok ?m" by (rule ok)
    show "distinct (map fst (m_health ?m))" by (simp add: sample_store_def NewMemory_def)
    show "\<forall>(k, v)\<in>set (m_health ?m). small (2 ^ 62) v" by (simp add: sample_store_def NewMemory_def)
    show "\<forall>s\<in>set [?s]. small (2 ^ 30) s" by (simp add: small_def)
  qed (simp_all add: lost_def)
  with t' show ?thesis by (simp add: Let_def)
qed

section \<open>Silence\<close>

lemma map_insort_key: "map k (insort_key k x xs) = insort (k x) (map k xs)"
  by (induction xs) auto

lemma map_sort_key: "map k (sort_key k xs) = sort (map k xs)"
  by (induction xs) (auto simp: map_insort_key)

text \<open>
  A tenant is reported silent exactly when it had events in enough minutes of the
  baseline and none since the quiet period began; each is reported once, in order. With a
  parameter that is not positive the check is off.
\<close>

theorem SilentTenants_exact:
  assumes "distinct (map fst (m_health m))"
    and "SilentTenants now p m = (Inr out, m')"
  shows "m' = m \<and> sorted out \<and> distinct out \<and>
    (\<forall>a. a \<in> set out \<longleftrightarrow> 0 < sp_Quiet p \<and> 0 < sp_Baseline p \<and> 0 < sp_MinActiveBuckets p \<and>
      (let quiet = trunc_time minute (now - sp_Quiet p);
           heard = {bucket. \<exists>v. map_of (m_health m) (a, bucket) = Some v \<and> 0 < is_Received v}
       in sp_MinActiveBuckets p \<le> int (card (heard \<inter> {quiet - sp_Baseline p ..< quiet})) \<and>
          (\<forall>bucket\<in>heard. bucket < quiet)))"
proof (cases "sp_Quiet p \<le> 0 \<or> sp_Baseline p \<le> 0 \<or> sp_MinActiveBuckets p \<le> 0")
  case True
  then have "out = []" and "m' = m" using assms(2) by (auto simp: SilentTenants_def)
  with True show ?thesis by (auto simp: Let_def)
next
  case False
  let ?q = "trunc_time minute (now - sp_Quiet p)"
  let ?heard = "\<lambda>a. {bucket. \<exists>v. map_of (m_health m) (a, bucket) = Some v \<and> 0 < is_Received v}"
  have mem: "(k, v) \<in> set (m_health m) \<longleftrightarrow> map_of (m_health m) k = Some v" for k v
    using assms(1) by simp
  have out: "m' = m" "out = sort (filter (\<lambda>a. 0 < active_minutes m (?q - sp_Baseline p) ?q a \<and>
      int (active_minutes m (?q - sp_Baseline p) ?q a) \<ge> sp_MinActiveBuckets p \<and> \<not> recently_active m ?q a)
      (remdups (map (fst \<circ> fst) (m_health m))))"
    using assms(2) False by (auto simp: SilentTenants_def Let_def)
  have count: "active_minutes m lo hi a = card (?heard a \<inter> {lo ..< hi})" for lo hi a
  proof -
    let ?P = "\<lambda>((t, bucket), v). t = a \<and> \<not> is_Received v \<le> 0 \<and> bucket < hi \<and> \<not> bucket < lo"
    let ?xs = "filter ?P (m_health m)"
    have d: "distinct (map fst ?xs)" by (rule distinct_map_filter [OF assms(1)])
    have "inj_on snd (fst ` set ?xs)" by (auto simp: inj_on_def)
    with d have "distinct (map snd (map fst ?xs))"
      by (subst distinct_map) (simp only: set_map simp_thms)
    then have "card (set (map snd (map fst ?xs))) = length ?xs"
      using distinct_card by fastforce
    moreover have "set (map snd (map fst ?xs)) = ?heard a \<inter> {lo ..< hi}"
    proof (rule set_eqI)
      fix x
      have "x \<in> set (map snd (map fst ?xs)) \<longleftrightarrow> (\<exists>t v. ((t, x), v) \<in> set ?xs)" by (simp add: image_iff)
      also have "\<dots> \<longleftrightarrow> (\<exists>v. ((a, x), v) \<in> set (m_health m) \<and> 0 < is_Received v) \<and> lo \<le> x \<and> x < hi" by auto
      finally show "x \<in> set (map snd (map fst ?xs)) \<longleftrightarrow> x \<in> ?heard a \<inter> {lo ..< hi}" by (simp add: mem)
    qed
    ultimately show ?thesis by (simp add: active_minutes_def)
  qed
  have recent: "recently_active m hi a \<longleftrightarrow> (\<exists>bucket\<in>?heard a. \<not> bucket < hi)" for hi a
    using mem by (force simp: recently_active_def list_ex_iff not_le)
  have known: "a \<in> set (map (fst \<circ> fst) (m_health m))" if "0 < active_minutes m lo hi a" for lo hi a
    using that by (force simp: active_minutes_def filter_empty_conv)
  have pos: "0 < active_minutes m lo hi a" if "sp_MinActiveBuckets p \<le> int (active_minutes m lo hi a)" for lo hi a
    using that False by linarith
  have "a \<in> set out \<longleftrightarrow> sp_MinActiveBuckets p \<le> int (active_minutes m (?q - sp_Baseline p) ?q a) \<and>
      \<not> recently_active m ?q a" for a
    using known [OF pos] pos by (auto simp: out)
  then show ?thesis
    using False out by (auto simp: count recent Let_def)
qed

lemma open_episodes_spec:
  "open_episodes silent now m opened = (opened', m') \<Longrightarrow>
    (\<exists>new. opened' = opened @ new \<and> distinct (map se_TenantID new) \<and>
      set (map se_TenantID new) = set silent - fst ` set (m_silence m) \<and>
      fst ` set (m_silence m') = fst ` set (m_silence m) \<union> set silent \<and>
      (\<forall>e\<in>set new. map_of (m_silence m') (se_TenantID e) = Some (se_SilentSince e)) \<and>
      (\<forall>a\<in>fst ` set (m_silence m). map_of (m_silence m') a = map_of (m_silence m) a) \<and>
      (distinct (map fst (m_silence m)) \<longrightarrow> distinct (map fst (m_silence m'))))"
proof (induction silent arbitrary: m opened)
  case (Cons a silent)
  show ?case
  proof (cases "map_of (m_silence m) a")
    case (Some since)
    then have known: "a \<in> fst ` set (m_silence m)" by (metis map_of_eq_None_iff option.distinct(1))
    from Some Cons.prems have "open_episodes silent now m opened = (opened', m')" by simp
    from Cons.IH [OF this] known show ?thesis by (auto simp: insert_absorb)
  next
    case None
    then have fresh: "a \<notin> fst ` set (m_silence m)" by (simp add: map_of_eq_None_iff)
    let ?s = "silentSinceLocked m a now"
    let ?m = "m\<lparr>m_silence := AList.update a ?s (m_silence m)\<rparr>" and ?e = "\<lparr>se_TenantID = a, se_SilentSince = ?s\<rparr>"
    from None Cons.prems have "open_episodes silent now ?m (opened @ [?e]) = (opened', m')"
      by (simp add: Let_def)
    from Cons.IH [OF this] obtain new where new: "opened' = (opened @ [?e]) @ new" "distinct (map se_TenantID new)"
        "set (map se_TenantID new) = set silent - fst ` set (m_silence ?m)"
        "fst ` set (m_silence m') = fst ` set (m_silence ?m) \<union> set silent"
        "\<forall>e\<in>set new. map_of (m_silence m') (se_TenantID e) = Some (se_SilentSince e)"
        "\<forall>b\<in>fst ` set (m_silence ?m). map_of (m_silence m') b = map_of (m_silence ?m) b"
        "distinct (map fst (m_silence ?m)) \<longrightarrow> distinct (map fst (m_silence m'))"
      by (elim exE conjE) (rule that, assumption+)
    have keys: "fst ` set (m_silence ?m) = insert a (fst ` set (m_silence m))"
      by (simp add: dom_update)
    have "a \<in> fst ` set (m_silence ?m)" using keys by blast
    from bspec [OF new(6) this] have "map_of (m_silence m') a = Some ?s" by (simp add: update_conv)
    moreover have "map_of (m_silence m') x = map_of (m_silence m) x" if "x \<in> fst ` set (m_silence m)" for x
    proof -
      have "x \<in> fst ` set (m_silence ?m)" "x \<noteq> a" using that keys fresh by auto
      with bspec [OF new(6) this(1)] show ?thesis by (simp add: update_conv)
    qed
    ultimately show ?thesis
      using new(1-5,7) keys fresh
      by (intro exI [of _ "?e # new"]) (auto simp: distinct_update)
  qed
qed (auto simp: intro: exI [of _ "[]"])


text \<open>
  Silence is alerted on once per episode. A sync opens an episode for exactly the
  silent tenants that had none, and closes exactly those open for tenants no longer silent,
  each reported once in order; afterwards the open episodes are the silent tenants', those
  already open keeping their start; and repeating the sync reports nothing and changes
  nothing.
\<close>

theorem SyncSilenceEpisodes_once:
  assumes "distinct (map fst (m_silence m))" "SyncSilenceEpisodes silent now m = (Inr c, m')"
  shows "set (map se_TenantID (sch_Opened c)) = set silent - fst ` set (m_silence m) \<and>
    set (map se_TenantID (sch_Recovered c)) = fst ` set (m_silence m) - set silent \<and>
    sorted (map se_TenantID (sch_Opened c)) \<and> sorted (map se_TenantID (sch_Recovered c)) \<and>
    distinct (map se_TenantID (sch_Opened c)) \<and> distinct (map se_TenantID (sch_Recovered c)) \<and>
    fst ` set (m_silence m') = set silent \<and>
    (\<forall>a\<in>fst ` set (m_silence m) \<inter> set silent. map_of (m_silence m') a = map_of (m_silence m) a) \<and>
    SyncSilenceEpisodes silent now' m' = (Inr \<lparr>sch_Opened = [], sch_Recovered = []\<rparr>, m')"
proof -
  obtain opened m1 where run: "open_episodes silent now m [] = (opened, m1)" by fastforce
  from open_episodes_spec [OF this] have
    op: "distinct (map se_TenantID opened)" "set (map se_TenantID opened) = set silent - fst ` set (m_silence m)"
    and m1: "fst ` set (m_silence m1) = fst ` set (m_silence m) \<union> set silent"
      "\<forall>a\<in>fst ` set (m_silence m). map_of (m_silence m1) a = map_of (m_silence m) a"
      "distinct (map fst (m_silence m1))"
    using assms(1) by auto
  let ?over = "filter (\<lambda>(a, since). a \<notin> set silent) (m_silence m1)"
  let ?rec = "map (\<lambda>(a, since). \<lparr>se_TenantID = a, se_SilentSince = since\<rparr>) ?over"
  have c: "sch_Opened c = sort_key se_TenantID opened" "sch_Recovered c = sort_key se_TenantID ?rec"
    and m': "m' = m1\<lparr>m_silence := filter (\<lambda>(a, since). a \<in> set silent) (m_silence m1)\<rparr>"
    using assms(2) run by (auto simp: SyncSilenceEpisodes_def Let_def)
  have ids: "map se_TenantID ?rec = map fst ?over" by auto
  have "distinct (map se_TenantID ?rec)" unfolding ids by (rule distinct_map_filter [OF m1(3)])
  moreover have "set (map se_TenantID ?rec) = fst ` set (m_silence m) - set silent"
  proof -
    have "set (map fst ?over) = fst ` set (m_silence m1) - set silent" by force
    then show ?thesis unfolding ids m1(1) by blast
  qed
  moreover have m'_keys: "fst ` set (m_silence m') = set silent"
  proof -
    have "fst ` set (m_silence m') = fst ` set (m_silence m1) \<inter> set silent" by (force simp: m')
    then show ?thesis unfolding m1(1) by blast
  qed
  moreover have "map_of (m_silence m') a = map_of (m_silence m) a"
    if a: "a \<in> fst ` set (m_silence m) \<inter> set silent" for a
  proof -
    have "map_of (filter (\<lambda>(a, since). a \<in> set silent) al) a = map_of al a" for al :: "(string \<times> gotime) list"
      using a by (induction al) auto
    moreover have "map_of (m_silence m1) a = map_of (m_silence m) a" using a m1(2) by blast
    ultimately show ?thesis by (simp add: m')
  qed
  moreover have again: "SyncSilenceEpisodes silent now' m' = (Inr \<lparr>sch_Opened = [], sch_Recovered = []\<rparr>, m')"
  proof -
    have "open_episodes xs now' m' ops = (ops, m')" if "set xs \<subseteq> set silent" for xs ops
      using that
    proof (induction xs arbitrary: ops)
      case (Cons x xs)
      then have "x \<in> fst ` set (m_silence m')" using m'_keys by auto
      then have "map_of (m_silence m') x \<noteq> None" by (simp only: map_of_eq_None_iff not_not)
      with Cons show ?case by simp
    qed simp
    moreover have "filter (\<lambda>(a, since). a \<notin> set silent) (m_silence m') = []"
      and "filter (\<lambda>(a, since). a \<in> set silent) (m_silence m') = m_silence m'"
      by (auto simp: m' filter_empty_conv)
    ultimately show ?thesis by (simp add: SyncSilenceEpisodes_def Let_def)
  qed
  moreover have "map se_TenantID (sch_Opened c) = sort (map se_TenantID opened)"
    "map se_TenantID (sch_Recovered c) = sort (map se_TenantID ?rec)"
    by (simp_all only: c map_sort_key)
  ultimately show ?thesis
    using op by (simp only: set_sort distinct_sort sorted_sort simp_thms) blast
qed

theorem SyncSilenceEpisodes_once_witness:
  "let m = NewMemory\<lparr>m_silence := [(''a'', 5)]\<rparr>; (r, m') = SyncSilenceEpisodes [''b'', ''b''] 9 m
   in \<exists>c. r = Inr c \<and> set (map se_TenantID (sch_Opened c)) = {''b''} \<and>
     set (map se_TenantID (sch_Recovered c)) = {''a''} \<and> fst ` set (m_silence m') = {''b''}"
proof -
  let ?m = "NewMemory\<lparr>m_silence := [(''a'', 5)]\<rparr>"
  obtain c m' where run: "SyncSilenceEpisodes [''b'', ''b''] 9 ?m = (Inr c, m')"
    by (simp add: SyncSilenceEpisodes_def Let_def split: prod.splits)
  have "distinct (map fst (m_silence ?m))" by simp
  from SyncSilenceEpisodes_once [OF this run, of 10] run show ?thesis by (simp add: Let_def)
qed

theorem SilentTenants_exact_witness:
  "let m = NewMemory\<lparr>m_health := [((''a'', 0), no_sample\<lparr>is_Received := 3\<rparr>)]\<rparr>
   in \<exists>out m'. SilentTenants (3 * minute) \<lparr>sp_Quiet = minute, sp_Baseline = 5 * minute, sp_MinActiveBuckets = 1\<rparr> m =
     (Inr out, m') \<and> sorted out \<and> distinct out \<and> m' = m \<and> out = [''a'']"
proof -
  let ?m = "NewMemory\<lparr>m_health := [((''a'', 0), no_sample\<lparr>is_Received := 3\<rparr>)]\<rparr>"
  let ?p = "\<lparr>sp_Quiet = minute, sp_Baseline = 5 * minute, sp_MinActiveBuckets = 1\<rparr>"
  have run: "SilentTenants (3 * minute) ?p ?m = (Inr [''a''], ?m)"
    by (simp add: SilentTenants_def Let_def active_minutes_def recently_active_def trunc_time_def)
  have "distinct (map fst (m_health ?m))" by simp
  from SilentTenants_exact [OF this run] run show ?thesis by (auto simp: Let_def)
qed

end
