(* ===== verification/Store_Claims.thy ===== *)
theory Store_Claims
  imports Store_Types
begin

text \<open>
  The reversal interlock (\<^verbatim>\<open>internal/store/memory_claims.go\<close>): a worker takes a claim on a
  transaction before it moves money, releases it if it did not, and confirms it when it
  did. The locale \<open>interlock\<close> is what a caller relies on; its interpretation shows that
  the in-memory store provides it.
\<close>

section \<open>Operations\<close>

definition ClaimReversal ::
  "string \<Rightarrow> string \<Rightarrow> string \<Rightarrow> string \<Rightarrow> gotime \<Rightarrow> memory \<Rightarrow> (ReversalClaim \<times> bool) outcome" where
  "ClaimReversal tenantID transactionID claimedBy token now m =
    (let key = (tenantID, transactionID)
     in case map_of (m_claims m) key of
          Some existing \<Rightarrow> (Inr (existing, False), m)
        | None \<Rightarrow>
            let claim = \<lparr>rc_TenantID = tenantID, rc_TransactionID = transactionID, rc_ClaimToken = token,
                         rc_ClaimedBy = claimedBy, rc_ClaimedAt = now, rc_ConfirmedAt = None\<rparr>
            in (Inr (claim, True), m\<lparr>m_claims := AList.update key claim (m_claims m)\<rparr>))"

definition GetReversalClaim :: "string \<Rightarrow> string \<Rightarrow> memory \<Rightarrow> ReversalClaim outcome" where
  "GetReversalClaim tenantID transactionID m =
    (case map_of (m_claims m) (tenantID, transactionID) of
       None \<Rightarrow> (Inl ErrNotFound, m)
     | Some claim \<Rightarrow> (Inr claim, m))"

definition ReleaseReversalClaim :: "string \<Rightarrow> string \<Rightarrow> memory \<Rightarrow> unit outcome" where
  "ReleaseReversalClaim tenantID transactionID m =
    (case map_of (m_claims m) (tenantID, transactionID) of
       None \<Rightarrow> (Inl ErrNotFound, m)
     | Some claim \<Rightarrow>
         if rc_ConfirmedAt claim \<noteq> None then (Inl ErrNotFound, m)
         else (Inr (), m\<lparr>m_claims := AList.delete (tenantID, transactionID) (m_claims m)\<rparr>))"

definition ConfirmReversalClaim :: "string \<Rightarrow> string \<Rightarrow> gotime \<Rightarrow> memory \<Rightarrow> unit outcome" where
  "ConfirmReversalClaim tenantID transactionID at m =
    (case map_of (m_claims m) (tenantID, transactionID) of
       None \<Rightarrow> (Inl ErrNotFound, m)
     | Some claim \<Rightarrow>
         if rc_ConfirmedAt claim = None
         then (Inr (), m\<lparr>m_claims :=
                 AList.update (tenantID, transactionID) (claim\<lparr>rc_ConfirmedAt := Some at\<rparr>) (m_claims m)\<rparr>)
         else (Inr (), m))"

section \<open>The interlock as an interface\<close>

locale interlock =
  fixes step :: "'op \<Rightarrow> 's \<Rightarrow> 'r \<times> 's"
    and held :: "'s \<Rightarrow> 'k \<Rightarrow> 'c option"
    and confirmed :: "'c \<Rightarrow> bool"
    and grants :: "'k \<Rightarrow> 'op \<times> 'r \<Rightarrow> bool"
    and releases :: "'k \<Rightarrow> 'op \<times> 'r \<Rightarrow> bool"
  assumes grant: "step p s = (r, s') \<Longrightarrow> grants k (p, r) \<Longrightarrow> held s k = None \<and> held s' k \<noteq> None"
    and release: "step p s = (r, s') \<Longrightarrow> releases k (p, r) \<Longrightarrow>
      held s' k = None \<and> (\<exists>c. held s k = Some c \<and> \<not> confirmed c)"
    and kept: "step p s = (r, s') \<Longrightarrow> \<not> grants k (p, r) \<Longrightarrow> \<not> releases k (p, r) \<Longrightarrow>
      held s' k = None \<longleftrightarrow> held s k = None"
    and final: "step p s = (r, s') \<Longrightarrow> held s k = Some c \<Longrightarrow> confirmed c \<Longrightarrow> held s' k = Some c"
begin

lemma balance:
  "run_ops step ops s = (rs, s') \<Longrightarrow>
    length (filter (grants k) rs) + (if held s k = None then 0 else 1) =
    length (filter (releases k) rs) + (if held s' k = None then 0 else 1)"
proof (induction ops arbitrary: s rs)
  case (Cons p ops)
  obtain r s1 where p: "step p s = (r, s1)" by (cases "step p s")
  obtain ts where rest: "run_ops step ops s1 = (ts, s')" and rs: "rs = (p, r) # ts"
    using Cons.prems p by (auto simp: split: prod.splits)
  have excl: "\<not> (grants k (p, r) \<and> releases k (p, r))"
    using grant [OF p] release [OF p] by fastforce
  show ?case
    using Cons.IH [OF rest] grant [OF p, of k] release [OF p, of k] kept [OF p, of k] excl
    by (cases "grants k (p, r)"; cases "releases k (p, r)") (auto simp: rs split: if_splits)
qed simp

lemma confirmed_for_good:
  "run_ops step ops s = (rs, s') \<Longrightarrow> held s k = Some c \<Longrightarrow> confirmed c \<Longrightarrow>
    held s' k = Some c \<and> (\<forall>q\<in>set rs. \<not> grants k q \<and> \<not> releases k q)"
proof (induction ops arbitrary: s rs)
  case (Cons p ops)
  obtain r s1 where p: "step p s = (r, s1)" by (cases "step p s")
  obtain ts where rest: "run_ops step ops s1 = (ts, s')" and rs: "rs = (p, r) # ts"
    using Cons.prems(1) p by (auto simp: split: prod.splits)
  have "held s1 k = Some c" by (rule final [OF p Cons.prems(2,3)])
  moreover have "\<not> grants k (p, r)" "\<not> releases k (p, r)"
    using grant [OF p, of k] release [OF p, of k] Cons.prems(2,3) by auto
  ultimately show ?case using Cons.IH [OF rest _ Cons.prems(3)] rs by simp
qed simp

lemma one_holder:
  assumes "run_ops step ops s = (rs, s')" "held s k = None"
  shows "length (filter (grants k) rs) \<le> Suc (length (filter (releases k) rs))"
  using balance [OF assms(1), of k] assms(2) by (simp split: if_splits)

end

section \<open>The store provides the interlock\<close>

datatype claim_op =
    Claim string string string string gotime
  | Release string string
  | Confirm string string gotime
  | Look string string

datatype claim_result = Granted string | Held string | Done | Refused goerror

fun exec_claim :: "claim_op \<Rightarrow> memory \<Rightarrow> claim_result \<times> memory" where
  "exec_claim (Claim a b by token now) m =
    (case ClaimReversal a b by token now m of
       (Inr (c, True), m') \<Rightarrow> (Granted (rc_ClaimToken c), m')
     | (Inr (c, False), m') \<Rightarrow> (Held (rc_ClaimToken c), m')
     | (Inl e, m') \<Rightarrow> (Refused e, m'))"
| "exec_claim (Release a b) m =
    (case ReleaseReversalClaim a b m of (Inr _, m') \<Rightarrow> (Done, m') | (Inl e, m') \<Rightarrow> (Refused e, m'))"
| "exec_claim (Confirm a b at) m =
    (case ConfirmReversalClaim a b at m of (Inr _, m') \<Rightarrow> (Done, m') | (Inl e, m') \<Rightarrow> (Refused e, m'))"
| "exec_claim (Look a b) m =
    (case GetReversalClaim a b m of (Inr c, m') \<Rightarrow> (Held (rc_ClaimToken c), m') | (Inl e, m') \<Rightarrow> (Refused e, m'))"

fun granted :: "string \<times> string \<Rightarrow> claim_op \<times> claim_result \<Rightarrow> bool" where
  "granted k (Claim a b _ _ _, Granted _) \<longleftrightarrow> k = (a, b)"
| "granted k _ \<longleftrightarrow> False"

fun released :: "string \<times> string \<Rightarrow> claim_op \<times> claim_result \<Rightarrow> bool" where
  "released k (Release a b, Done) \<longleftrightarrow> k = (a, b)"
| "released k _ \<longleftrightarrow> False"

definition claim_held :: "memory \<Rightarrow> string \<times> string \<Rightarrow> ReversalClaim option" where
  "claim_held m k = map_of (m_claims m) k"

definition claim_confirmed :: "ReversalClaim \<Rightarrow> bool" where
  "claim_confirmed c \<longleftrightarrow> rc_ConfirmedAt c \<noteq> None"

lemmas claim_ops = ClaimReversal_def ReleaseReversalClaim_def ConfirmReversalClaim_def GetReversalClaim_def
  claim_held_def claim_confirmed_def update_conv delete_conv

interpretation reversal: interlock exec_claim claim_held claim_confirmed granted released
proof
  fix p s r s' k
  assume "exec_claim p s = (r, s')" and "granted k (p, r)"
  then show "claim_held s k = None \<and> claim_held s' k \<noteq> None"
    by (cases p) (auto simp: claim_ops Let_def split: option.splits if_splits)
next
  fix p s r s' k
  assume "exec_claim p s = (r, s')" and "released k (p, r)"
  then show "claim_held s' k = None \<and> (\<exists>c. claim_held s k = Some c \<and> \<not> claim_confirmed c)"
    by (cases p) (auto simp: claim_ops Let_def split: option.splits if_splits)
next
  fix p s r s' k
  assume "exec_claim p s = (r, s')" and "\<not> granted k (p, r)" and "\<not> released k (p, r)"
  then show "claim_held s' k = None \<longleftrightarrow> claim_held s k = None"
    by (cases p) (auto simp: claim_ops Let_def split: option.splits if_splits)
next
  fix p s r s' k c
  assume "exec_claim p s = (r, s')" and "claim_held s k = Some c" and "claim_confirmed c"
  then show "claim_held s' k = Some c"
    by (cases p) (auto simp: claim_ops Let_def split: option.splits if_splits)
qed

text \<open>
  C13. No transaction is reversed by two workers. Over any sequence of claim, release,
  confirm and read calls, the grants of one transaction's claim exceed its releases by at
  most one; and once a claim is confirmed no later call grants or releases it, or changes
  when it was confirmed.
\<close>

theorem reversal_claimed_once:
  assumes "run_ops exec_claim ops m = (rs, m')"
  shows "(map_of (m_claims m) k = None \<longrightarrow>
      length (filter (granted k) rs) \<le> Suc (length (filter (released k) rs))) \<and>
    (\<forall>c. map_of (m_claims m) k = Some c \<and> rc_ConfirmedAt c \<noteq> None \<longrightarrow>
      map_of (m_claims m') k = Some c \<and> (\<forall>q\<in>set rs. \<not> granted k q \<and> \<not> released k q))"
  using reversal.one_holder [OF assms, of k] reversal.confirmed_for_good [OF assms, of k]
  by (simp add: claim_held_def claim_confirmed_def)

theorem reversal_claimed_once_witness:
  "let ops = [Claim ''t'' ''x'' ''w1'' ''a'' 1, Claim ''t'' ''x'' ''w2'' ''b'' 2, Confirm ''t'' ''x'' 3,
       Release ''t'' ''x'', Claim ''t'' ''x'' ''w2'' ''b'' 4];
     rs = fst (run_ops exec_claim ops NewMemory)
   in map snd rs = [Granted ''a'', Held ''a'', Done, Refused ErrNotFound, Held ''a''] \<and>
     length (filter (granted (''t'', ''x'')) rs) \<le> Suc (length (filter (released (''t'', ''x'')) rs))"
proof -
  let ?ops = "[Claim ''t'' ''x'' ''w1'' ''a'' 1, Claim ''t'' ''x'' ''w2'' ''b'' 2, Confirm ''t'' ''x'' 3,
       Release ''t'' ''x'', Claim ''t'' ''x'' ''w2'' ''b'' 4]"
  obtain rs m' where run: "run_ops exec_claim ?ops NewMemory = (rs, m')" by fastforce
  have "map snd rs = [Granted ''a'', Held ''a'', Done, Refused ErrNotFound, Held ''a'']"
    using run by (auto simp: claim_ops NewMemory_def Let_def)
  moreover have "map_of (m_claims NewMemory) (''t'', ''x'') = None" by (simp add: NewMemory_def)
  ultimately show ?thesis
    using reversal_claimed_once [OF run, of "(''t'', ''x'')"] run by (simp add: Let_def)
qed

end
