(* ===== verification/Store_Webhooks.thy ===== *)
theory Store_Webhooks
  imports Store_Types
begin

text \<open>
  Webhook endpoints and the delivery queue of the in-memory store
  (\<^verbatim>\<open>internal/store/memory_webhook.go\<close>).
\<close>

section \<open>Endpoints\<close>

definition CreateEndpoint :: "string \<Rightarrow> WebhookEndpoint \<Rightarrow> memory \<Rightarrow> unit outcome" where
  "CreateEndpoint tenantID ep m =
    (if ep_TenantID ep \<noteq> tenantID then (Inl ErrTenantMismatch, m)
     else if map_of (m_endpoints m) (ep_ID ep) \<noteq> None
     then (Inl (ErrMessage ''store: endpoint already exists''), m)
     else (Inr (), m\<lparr>m_endpoints := AList.update (ep_ID ep) ep (m_endpoints m)\<rparr>))"

definition with_endpoint ::
  "string \<Rightarrow> string \<Rightarrow> (WebhookEndpoint \<Rightarrow> memory \<Rightarrow> memory) \<Rightarrow> memory \<Rightarrow> unit outcome" where
  "with_endpoint tenantID i f m =
    (case map_of (m_endpoints m) i of
       None \<Rightarrow> (Inl ErrNotFound, m)
     | Some ep \<Rightarrow> if ep_TenantID ep \<noteq> tenantID then (Inl ErrNotFound, m) else (Inr (), f ep m))"

definition SetEndpointEnabled :: "string \<Rightarrow> string \<Rightarrow> bool \<Rightarrow> memory \<Rightarrow> unit outcome" where
  "SetEndpointEnabled tenantID i enabled = with_endpoint tenantID i
    (\<lambda>ep m. m\<lparr>m_endpoints := AList.update i (ep\<lparr>ep_Enabled := enabled\<rparr>) (m_endpoints m)\<rparr>)"

definition SetEndpointSecretRef :: "string \<Rightarrow> string \<Rightarrow> string \<Rightarrow> memory \<Rightarrow> unit outcome" where
  "SetEndpointSecretRef tenantID i ref = with_endpoint tenantID i
    (\<lambda>ep m. m\<lparr>m_endpoints := AList.update i (ep\<lparr>ep_SecretRef := ref\<rparr>) (m_endpoints m)\<rparr>)"

definition DeleteEndpoint :: "string \<Rightarrow> string \<Rightarrow> memory \<Rightarrow> unit outcome" where
  "DeleteEndpoint tenantID i = with_endpoint tenantID i
    (\<lambda>ep m. m\<lparr>m_endpoints := AList.delete i (m_endpoints m)\<rparr>)"

definition ListEndpoints :: "string \<Rightarrow> memory \<Rightarrow> WebhookEndpoint list outcome" where
  "ListEndpoints tenantID m =
    (Inr (sort_key ep_ID (filter (\<lambda>ep. ep_TenantID ep = tenantID) (map snd (m_endpoints m)))), m)"

section \<open>Deliveries\<close>

definition EnqueueDelivery :: "string \<Rightarrow> PendingDelivery \<Rightarrow> gotime \<Rightarrow> memory \<Rightarrow> int outcome" where
  "EnqueueDelivery tenantID d now m =
    (if pd_TenantID d \<noteq> tenantID then (Inl ErrTenantMismatch, m)
     else let i = m_nextDeliveryID m + 1;
              rec = \<lparr>dr_ID = i, dr_TenantID = tenantID, dr_EndpointID = pd_EndpointID d,
                     dr_TransactionID = pd_TransactionID d, dr_EventType = pd_EventType d, dr_Attempt = 0,
                     dr_Status = ''pending'', dr_ResponseCode = None, dr_ResponseBody = '''',
                     dr_DurationMS = None, dr_NextRetryAt = Some now, dr_CreatedAt = now\<rparr>
          in (Inr i, m\<lparr>m_nextDeliveryID := i, m_deliveries := AList.update i rec (m_deliveries m),
                       m_payloads := AList.update i (pd_Payload d) (m_payloads m)\<rparr>))"

definition deliverable :: "memory \<Rightarrow> gotime \<Rightarrow> DeliveryRecord \<Rightarrow> bool" where
  "deliverable m now d \<longleftrightarrow> dr_Status d = ''pending'' \<and>
    (case dr_NextRetryAt d of None \<Rightarrow> False | Some at \<Rightarrow> \<not> at > now) \<and>
    (case map_of (m_endpoints m) (dr_EndpointID d) of None \<Rightarrow> False | Some ep \<Rightarrow> ep_Enabled ep)"

definition retry_at :: "DeliveryRecord \<Rightarrow> gotime" where
  "retry_at d = (case dr_NextRetryAt d of None \<Rightarrow> 0 | Some at \<Rightarrow> at)"

definition due_deliveries :: "gotime \<Rightarrow> memory \<Rightarrow> (int \<times> DeliveryRecord) list" where
  "due_deliveries now m =
    sort_key (\<lambda>(i, d). retry_at d) (filter (\<lambda>(i, d). deliverable m now d) (m_deliveries m))"

definition hand_out :: "memory \<Rightarrow> int \<Rightarrow> DeliveryRecord \<Rightarrow> DueDelivery" where
  "hand_out m i d =
    (let ep = map_of (m_endpoints m) (dr_EndpointID d)
     in \<lparr>dd_ID = dr_ID d, dd_TenantID = dr_TenantID d, dd_EndpointID = dr_EndpointID d,
         dd_TransactionID = dr_TransactionID d, dd_EventType = dr_EventType d,
         dd_Payload = (case map_of (m_payloads m) (dr_ID d) of None \<Rightarrow> '''' | Some p \<Rightarrow> p),
         dd_Attempt = dr_Attempt d,
         dd_URL = (case ep of None \<Rightarrow> '''' | Some e \<Rightarrow> ep_URL e),
         dd_SecretRef = (case ep of None \<Rightarrow> '''' | Some e \<Rightarrow> ep_SecretRef e)\<rparr>)"

definition ClaimDueDeliveries :: "gotime \<Rightarrow> duration \<Rightarrow> int \<Rightarrow> memory \<Rightarrow> DueDelivery list outcome" where
  "ClaimDueDeliveries now lease limit m =
    (let limit = (if limit \<le> 0 then 100 else limit);
         lease = (if lease \<le> 0 then minute else lease);
         due = take (nat limit) (due_deliveries now m)
     in (Inr (map (\<lambda>(i, d). hand_out m i d) due),
         m\<lparr>m_deliveries := fold (\<lambda>(i, d) ds. AList.update i (d\<lparr>dr_NextRetryAt := Some (now + lease)\<rparr>) ds)
            due (m_deliveries m)\<rparr>))"

definition maxStoredResponseBody :: nat where "maxStoredResponseBody = 1024"

definition RecordDeliveryOutcome :: "int \<Rightarrow> DeliveryOutcome \<Rightarrow> memory \<Rightarrow> unit outcome" where
  "RecordDeliveryOutcome i out m =
    (case map_of (m_deliveries m) i of
       None \<Rightarrow> (Inl ErrNotFound, m)
     | Some d \<Rightarrow>
         let body = (if length (do_ResponseBody out) > maxStoredResponseBody
                     then take maxStoredResponseBody (do_ResponseBody out) else do_ResponseBody out);
             d' = d\<lparr>dr_Attempt := dr_Attempt d + 1, dr_Status := do_Status out,
                    dr_ResponseCode := do_ResponseCode out, dr_ResponseBody := body,
                    dr_DurationMS := Some (do_DurationMS out), dr_NextRetryAt := do_NextRetryAt out\<rparr>
         in (Inr (), m\<lparr>m_deliveries := AList.update i d' (m_deliveries m)\<rparr>))"

definition ListDeliveries :: "string \<Rightarrow> string \<Rightarrow> int \<Rightarrow> memory \<Rightarrow> DeliveryRecord list outcome" where
  "ListDeliveries tenantID st limit m =
    (let limit = (if limit \<le> 0 then 100 else limit);
         out = sort_key (\<lambda>d. - dr_ID d)
           (filter (\<lambda>d. dr_TenantID d = tenantID \<and> \<not> (st \<noteq> '''' \<and> dr_Status d \<noteq> st)) (map snd (m_deliveries m)))
     in (Inr (take (nat limit) out), m))"

definition ReplayDelivery :: "string \<Rightarrow> int \<Rightarrow> gotime \<Rightarrow> memory \<Rightarrow> unit outcome" where
  "ReplayDelivery tenantID i now m =
    (case map_of (m_deliveries m) i of
       None \<Rightarrow> (Inl ErrNotFound, m)
     | Some d \<Rightarrow>
         if dr_TenantID d \<noteq> tenantID then (Inl ErrNotFound, m)
         else if dr_Status d \<noteq> ''dead_letter'' \<and> dr_Status d \<noteq> ''failed'' then (Inl ErrNotFound, m)
         else (Inr (), m\<lparr>m_deliveries :=
                AList.update i (d\<lparr>dr_Status := ''pending'', dr_Attempt := 0, dr_NextRetryAt := Some now\<rparr>)
                  (m_deliveries m)\<rparr>))"

section \<open>The queue's invariant\<close>

text \<open>Every delivery sits under its own id, ids were handed out by the counter, no id twice.\<close>

definition queue_ok :: "memory \<Rightarrow> bool" where
  "queue_ok m \<longleftrightarrow> distinct (map fst (m_deliveries m)) \<and>
    (\<forall>(i, d)\<in>set (m_deliveries m). dr_ID d = i \<and> i \<le> m_nextDeliveryID m)"

lemma queue_okD:
  "queue_ok m \<Longrightarrow> map_of (m_deliveries m) i = Some d \<Longrightarrow> dr_ID d = i \<and> i \<le> m_nextDeliveryID m"
  by (auto simp: queue_ok_def dest!: map_of_SomeD)

lemma queue_ok_update:
  "queue_ok m \<Longrightarrow> map_of (m_deliveries m) i = Some e \<Longrightarrow> dr_ID d = dr_ID e \<Longrightarrow>
    queue_ok (m\<lparr>m_deliveries := AList.update i d (m_deliveries m)\<rparr>)"
  using queue_okD [of m i e] by (auto simp: queue_ok_def distinct_update set_update_distinct)

lemma queue_ok_same:
  "queue_ok m \<Longrightarrow> m_deliveries m' = m_deliveries m \<Longrightarrow> m_nextDeliveryID m' = m_nextDeliveryID m \<Longrightarrow> queue_ok m'"
  by (simp add: queue_ok_def)

definition leased :: "gotime \<Rightarrow> (int \<times> DeliveryRecord) list \<Rightarrow> (int \<times> DeliveryRecord) list \<Rightarrow> (int \<times> DeliveryRecord) list" where
  "leased until due ds = fold (\<lambda>(i, d) ds. AList.update i (d\<lparr>dr_NextRetryAt := Some until\<rparr>) ds) due ds"

lemma leased_keys: "distinct (map fst ds) \<Longrightarrow> distinct (map fst (leased until due ds))"
  by (induction due arbitrary: ds) (auto simp: leased_def distinct_update)

lemma map_of_leased:
  "distinct (map fst due) \<Longrightarrow> map_of (leased until due ds) i =
    (case map_of due i of Some d \<Rightarrow> Some (d\<lparr>dr_NextRetryAt := Some until\<rparr>) | None \<Rightarrow> map_of ds i)"
proof (induction due arbitrary: ds)
  case (Cons p due)
  obtain j d where p: "p = (j, d)" by (cases p)
  have "leased until (p # due) ds = leased until due (AList.update j (d\<lparr>dr_NextRetryAt := Some until\<rparr>) ds)"
    by (simp add: leased_def p)
  moreover have "map_of due j = None" if "i = j" using Cons.prems p by (auto simp: map_of_eq_None_iff)
  ultimately show ?case using Cons p by (auto simp: update_conv split: option.splits)
qed (simp add: leased_def)

lemma due_deliveries_distinct:
  "distinct (map fst (m_deliveries m)) \<Longrightarrow> distinct (map fst (due_deliveries now m))"
  using distinct_map_filter [of fst "m_deliveries m" "\<lambda>(i, d). deliverable m now d"]
  by (simp add: due_deliveries_def distinct_map)

lemma set_due_deliveries:
  "(i, d) \<in> set (due_deliveries now m) \<longleftrightarrow> (i, d) \<in> set (m_deliveries m) \<and> deliverable m now d"
  by (auto simp: due_deliveries_def)

definition claimed_due :: "gotime \<Rightarrow> int \<Rightarrow> memory \<Rightarrow> (int \<times> DeliveryRecord) list" where
  "claimed_due now limit m = take (nat (if limit \<le> 0 then 100 else limit)) (due_deliveries now m)"

definition lease_of :: "duration \<Rightarrow> duration" where
  "lease_of lease = (if lease \<le> 0 then minute else lease)"

lemma ClaimDueDeliveries_eq:
  "ClaimDueDeliveries now lease limit m =
    (Inr (map (\<lambda>(i, d). hand_out m i d) (claimed_due now limit m)),
     m\<lparr>m_deliveries := leased (now + lease_of lease) (claimed_due now limit m) (m_deliveries m)\<rparr>)"
  by (simp add: ClaimDueDeliveries_def claimed_due_def leased_def lease_of_def Let_def)

lemma claimed_due_distinct:
  "distinct (map fst (m_deliveries m)) \<Longrightarrow> distinct (map fst (claimed_due now limit m))"
  by (simp add: claimed_due_def take_map [symmetric] due_deliveries_distinct)

lemma claimed_due_sub: "(i, d) \<in> set (claimed_due now limit m) \<Longrightarrow> (i, d) \<in> set (m_deliveries m) \<and> deliverable m now d"
  using set_due_deliveries by (fastforce simp: claimed_due_def dest: in_set_takeD)

lemma ClaimDueDeliveries_queue_ok:
  assumes ok: "queue_ok m"
  shows "queue_ok (snd (ClaimDueDeliveries now lease limit m))"
proof -
  let ?due = "claimed_due now limit m" and ?u = "now + lease_of lease"
  let ?ds = "leased ?u ?due (m_deliveries m)"
  have d: "distinct (map fst (m_deliveries m))" using ok by (simp add: queue_ok_def)
  have "dr_ID x = i \<and> i \<le> m_nextDeliveryID m" if "(i, x) \<in> set ?ds" for i x
  proof -
    have "map_of ?ds i = Some x" using that leased_keys [OF d] by simp
    then show ?thesis
      using map_of_leased [OF claimed_due_distinct [OF d], of ?u now limit "m_deliveries m" i] queue_okD [OF ok]
        claimed_due_sub [of i _ now limit m] ok
      by (auto simp: queue_ok_def split: option.splits dest!: map_of_SomeD)
  qed
  with leased_keys [OF d] show ?thesis by (auto simp: queue_ok_def ClaimDueDeliveries_eq)
qed

section \<open>Histories of the queue\<close>

datatype queue_op =
    Create_Endpoint string WebhookEndpoint
  | Set_Enabled string string bool
  | Set_Secret string string string
  | Delete_Endpoint string string
  | Enqueue string PendingDelivery gotime
  | Claim_Due gotime duration int
  | Outcome int DeliveryOutcome
  | Replay string int gotime

fun exec_queue :: "queue_op \<Rightarrow> memory \<Rightarrow> DueDelivery list \<times> memory" where
  "exec_queue (Create_Endpoint a ep) m = ([], snd (CreateEndpoint a ep m))"
| "exec_queue (Set_Enabled a i b) m = ([], snd (SetEndpointEnabled a i b m))"
| "exec_queue (Set_Secret a i r) m = ([], snd (SetEndpointSecretRef a i r m))"
| "exec_queue (Delete_Endpoint a i) m = ([], snd (DeleteEndpoint a i m))"
| "exec_queue (Enqueue a d now) m = ([], snd (EnqueueDelivery a d now m))"
| "exec_queue (Claim_Due now lease limit) m =
    (case ClaimDueDeliveries now lease limit m of (Inr ds, m') \<Rightarrow> (ds, m') | (Inl e, m') \<Rightarrow> ([], m'))"
| "exec_queue (Outcome i out) m = ([], snd (RecordDeliveryOutcome i out m))"
| "exec_queue (Replay a i now) m = ([], snd (ReplayDelivery a i now m))"

text \<open>Operations that cannot end a lease on delivery \<open>i\<close> that runs until \<open>until\<close>.\<close>

fun within_lease :: "int \<Rightarrow> gotime \<Rightarrow> queue_op \<Rightarrow> bool" where
  "within_lease i until (Claim_Due now lease limit) \<longleftrightarrow> now < until"
| "within_lease i until (Outcome j out) \<longleftrightarrow> j \<noteq> i"
| "within_lease i until (Replay a j now) \<longleftrightarrow> j \<noteq> i"
| "within_lease i until _ \<longleftrightarrow> True"

lemma with_endpoint_queue:
  assumes "\<And>ep m. m_deliveries (f ep m) = m_deliveries m" "\<And>ep m. m_nextDeliveryID (f ep m) = m_nextDeliveryID m"
  shows "m_deliveries (snd (with_endpoint a i f m)) = m_deliveries m"
    and "m_nextDeliveryID (snd (with_endpoint a i f m)) = m_nextDeliveryID m"
  using assms by (auto simp: with_endpoint_def split: option.splits)

lemma endpoint_ops_queue [simp]:
  "m_deliveries (snd (CreateEndpoint a ep m)) = m_deliveries m"
  "m_nextDeliveryID (snd (CreateEndpoint a ep m)) = m_nextDeliveryID m"
  "m_deliveries (snd (SetEndpointEnabled a i b m)) = m_deliveries m"
  "m_nextDeliveryID (snd (SetEndpointEnabled a i b m)) = m_nextDeliveryID m"
  "m_deliveries (snd (SetEndpointSecretRef a i r m)) = m_deliveries m"
  "m_nextDeliveryID (snd (SetEndpointSecretRef a i r m)) = m_nextDeliveryID m"
  "m_deliveries (snd (DeleteEndpoint a i m)) = m_deliveries m"
  "m_nextDeliveryID (snd (DeleteEndpoint a i m)) = m_nextDeliveryID m"
  by (simp_all add: CreateEndpoint_def SetEndpointEnabled_def SetEndpointSecretRef_def DeleteEndpoint_def
      with_endpoint_queue)

lemma EnqueueDelivery_queue_ok: "queue_ok m \<Longrightarrow> queue_ok (snd (EnqueueDelivery a d now m))"
  by (cases "pd_TenantID d = a")
    (auto simp: EnqueueDelivery_def Let_def queue_ok_def distinct_update set_update_distinct)

lemma RecordDeliveryOutcome_queue_ok: "queue_ok m \<Longrightarrow> queue_ok (snd (RecordDeliveryOutcome i out m))"
  by (cases "map_of (m_deliveries m) i") (simp_all add: RecordDeliveryOutcome_def Let_def queue_ok_update)

lemma ReplayDelivery_queue_ok: "queue_ok m \<Longrightarrow> queue_ok (snd (ReplayDelivery a i now m))"
  by (cases "map_of (m_deliveries m) i") (simp_all add: ReplayDelivery_def queue_ok_update)

lemma exec_queue_ok: "queue_ok m \<Longrightarrow> queue_ok (snd (exec_queue p m))"
proof (cases p)
  case (Claim_Due now lease limit)
  then show "queue_ok m \<Longrightarrow> ?thesis"
    using ClaimDueDeliveries_queue_ok by (simp add: ClaimDueDeliveries_eq)
qed (auto intro: queue_ok_same EnqueueDelivery_queue_ok RecordDeliveryOutcome_queue_ok ReplayDelivery_queue_ok)

text \<open>A delivery is out of reach until \<open>until\<close>.\<close>

definition held_back :: "int \<Rightarrow> gotime \<Rightarrow> memory \<Rightarrow> bool" where
  "held_back i until m \<longleftrightarrow>
    (\<exists>d. map_of (m_deliveries m) i = Some d \<and> (\<exists>at. dr_NextRetryAt d = Some at \<and> until \<le> at))"

lemma held_back_not_due:
  assumes "queue_ok m" "held_back i until m" "now < until"
  shows "map_of (claimed_due now limit m) i = None"
proof (rule ccontr)
  assume "map_of (claimed_due now limit m) i \<noteq> None"
  then obtain d where d: "(i, d) \<in> set (claimed_due now limit m)" by (auto dest: map_of_SomeD)
  from claimed_due_sub [OF this] assms(1) have m: "map_of (m_deliveries m) i = Some d" and "deliverable m now d"
    by (auto simp: queue_ok_def)
  with assms(2,3) show False by (auto simp: held_back_def deliverable_def)
qed

lemma claim_ids: 
  assumes "queue_ok m"
  shows "dd_ID ` set (map (\<lambda>(i, d). hand_out m i d) (claimed_due now limit m)) = fst ` set (claimed_due now limit m)"
proof -
  have "dr_ID d = i" if "(i, d) \<in> set (claimed_due now limit m)" for i d
    using claimed_due_sub [OF that] assms by (auto simp: queue_ok_def)
  then show ?thesis by (force simp: hand_out_def Let_def)
qed

lemma exec_held_back:
  assumes ok: "queue_ok m" and held: "held_back i until m" and quiet: "within_lease i until p"
  shows "held_back i until (snd (exec_queue p m)) \<and> i \<notin> dd_ID ` set (fst (exec_queue p m))"
proof (cases p)
  case (Claim_Due now lease limit)
  then have now: "now < until" using quiet by simp
  have none: "map_of (claimed_due now limit m) i = None" by (rule held_back_not_due [OF ok held now])
  have d: "distinct (map fst (m_deliveries m))" using ok by (simp add: queue_ok_def)
  from none have "i \<notin> fst ` set (claimed_due now limit m)" by (simp add: map_of_eq_None_iff)
  moreover have "map_of (leased u (claimed_due now limit m) (m_deliveries m)) i = map_of (m_deliveries m) i" for u
    by (simp add: map_of_leased [OF claimed_due_distinct [OF d]] none)
  ultimately show ?thesis
    using Claim_Due held claim_ids [OF ok, of now limit] by (simp add: ClaimDueDeliveries_eq held_back_def)
next
  case (Enqueue a pd now)
  have "i \<le> m_nextDeliveryID m" using held queue_okD [OF ok] by (auto simp: held_back_def)
  then show ?thesis using Enqueue held
    by (auto simp: EnqueueDelivery_def Let_def held_back_def update_conv)
next
  case (Outcome j out)
  then show ?thesis using held quiet
    by (auto simp: RecordDeliveryOutcome_def Let_def held_back_def update_conv split: option.splits)
next
  case (Replay a j now)
  then show ?thesis using held quiet
    by (auto simp: ReplayDelivery_def held_back_def update_conv split: option.splits)
qed (use held in \<open>auto simp: held_back_def\<close>)

lemma run_held_back:
  "queue_ok m \<Longrightarrow> held_back i until m \<Longrightarrow> list_all (within_lease i until) ops \<Longrightarrow>
    run_ops exec_queue ops m = (rs, m') \<Longrightarrow> (\<forall>(p, ds)\<in>set rs. i \<notin> dd_ID ` set ds)"
proof (induction ops arbitrary: m rs)
  case (Cons p ops)
  obtain ds m1 where p: "exec_queue p m = (ds, m1)" by (cases "exec_queue p m")
  obtain ts where rest: "run_ops exec_queue ops m1 = (ts, m')" and rs: "rs = (p, ds) # ts"
    using Cons.prems(4) p by (auto split: prod.splits)
  have "queue_ok m1" using exec_queue_ok [OF Cons.prems(1), of p] p by simp
  moreover have "held_back i until m1 \<and> i \<notin> dd_ID ` set ds"
    using exec_held_back [OF Cons.prems(1,2), of p] Cons.prems(3) p by simp
  ultimately show ?case using Cons.IH [OF _ _ _ rest] Cons.prems(3) rs by auto
qed auto

lemma claimed_held_back:
  assumes ok: "queue_ok m" and run: "ClaimDueDeliveries now lease limit m = (Inr out, m')" and x: "x \<in> set out"
  shows "held_back (dd_ID x) (now + lease_of lease) m'"
proof -
  have d: "distinct (map fst (m_deliveries m))" using ok by (simp add: queue_ok_def)
  have out: "out = map (\<lambda>(i, d). hand_out m i d) (claimed_due now limit m)"
    and m': "m' = m\<lparr>m_deliveries := leased (now + lease_of lease) (claimed_due now limit m) (m_deliveries m)\<rparr>"
    using run by (simp_all add: ClaimDueDeliveries_eq)
  have "dd_ID x \<in> fst ` set (claimed_due now limit m)"
    using x claim_ids [OF ok, of now limit] out by blast
  then have "map_of (claimed_due now limit m) (dd_ID x) \<noteq> None"
    by (simp only: map_of_eq_None_iff not_not)
  then obtain e where "map_of (claimed_due now limit m) (dd_ID x) = Some e" by blast
  then show ?thesis
    by (simp add: m' held_back_def map_of_leased [OF claimed_due_distinct [OF d]])
qed

text \<open>
  C25. A delivery handed to a worker is handed to nobody else while its lease runs. After a
  claim, and until an outcome is recorded for the delivery or an operator replays it, no
  later claim made before the lease ends returns it, whatever else happens to the queue and
  its endpoints in between. The claim itself hands out only pending deliveries that are due
  and whose endpoint exists and is enabled, none twice, and no more than the limit.
\<close>

theorem delivery_lease_exclusive:
  assumes "queue_ok m" "ClaimDueDeliveries now lease limit m = (Inr out, m')" "0 < lease"
    and "x \<in> set out" "list_all (within_lease (dd_ID x) (now + lease)) ops"
    and "run_ops exec_queue ops m' = (rs, m'')"
  shows "(\<forall>(p, ds)\<in>set rs. dd_ID x \<notin> dd_ID ` set ds) \<and> distinct (map dd_ID out) \<and>
    int (length out) \<le> (if limit \<le> 0 then 100 else limit) \<and>
    (\<exists>d ep. map_of (m_deliveries m) (dd_ID x) = Some d \<and> dr_Status d = ''pending'' \<and>
      (\<exists>at\<le>now. dr_NextRetryAt d = Some at) \<and>
      map_of (m_endpoints m) (dr_EndpointID d) = Some ep \<and> ep_Enabled ep \<and> dd_URL x = ep_URL ep)"
proof -
  note ok = assms(1)
  have d: "distinct (map fst (m_deliveries m))" using ok by (simp add: queue_ok_def)
  have ok': "queue_ok m'" using ClaimDueDeliveries_queue_ok [OF ok, of now lease limit] assms(2) by simp
  have lease: "lease_of lease = lease" using assms(3) by (simp add: lease_of_def)
  have 1: "\<forall>(p, ds)\<in>set rs. dd_ID x \<notin> dd_ID ` set ds"
    using run_held_back [OF ok' _ assms(5,6)] claimed_held_back [OF ok assms(2,4)] lease by simp
  have out: "out = map (\<lambda>(i, d). hand_out m i d) (claimed_due now limit m)"
    using assms(2) by (simp add: ClaimDueDeliveries_eq)
  have own: "dd_ID (hand_out m i e) = i" if "(i, e) \<in> set (claimed_due now limit m)" for i e
    using claimed_due_sub [OF that] ok by (auto simp: queue_ok_def hand_out_def Let_def)
  have "map dd_ID out = map fst (claimed_due now limit m)"
    using own by (auto simp: out)
  then have 2: "distinct (map dd_ID out)" using claimed_due_distinct [OF d] by simp
  have 3: "int (length out) \<le> (if limit \<le> 0 then 100 else limit)"
    by (auto simp: out claimed_due_def min_def)
  obtain i e where e: "(i, e) \<in> set (claimed_due now limit m)" "x = hand_out m i e"
    using assms(4) by (auto simp: out)
  have "map_of (m_deliveries m) i = Some e" using claimed_due_sub [OF e(1)] d by simp
  moreover have "dd_ID x = i" using own [OF e(1)] e(2) by simp
  ultimately have 4: "\<exists>d ep. map_of (m_deliveries m) (dd_ID x) = Some d \<and> dr_Status d = ''pending'' \<and>
      (\<exists>at\<le>now. dr_NextRetryAt d = Some at) \<and>
      map_of (m_endpoints m) (dr_EndpointID d) = Some ep \<and> ep_Enabled ep \<and> dd_URL x = ep_URL ep"
    using claimed_due_sub [OF e(1)] e(2)
    by (auto simp: deliverable_def hand_out_def Let_def not_less split: option.splits)
  from 1 2 3 4 show ?thesis by blast
qed

definition sample_queue :: memory where
  "sample_queue = snd (EnqueueDelivery ''t''
    \<lparr>pd_TenantID = ''t'', pd_EndpointID = ''e'', pd_TransactionID = ''x'', pd_EventType = ''orphan.detected'',
     pd_Payload = ''{}''\<rparr> 5
    (NewMemory\<lparr>m_endpoints := [(''e'', \<lparr>ep_ID = ''e'', ep_TenantID = ''t'', ep_URL = ''u'', ep_SecretRef = ''s'',
      ep_Events = [], ep_Enabled = True\<rparr>)]\<rparr>))"

theorem delivery_lease_exclusive_witness:
  "let (r, m') = ClaimDueDeliveries 10 5 0 sample_queue
   in \<exists>out x. r = Inr out \<and> x \<in> set out \<and> dd_ID x = 1 \<and>
     (\<forall>(p, ds)\<in>set (fst (run_ops exec_queue [Claim_Due 12 5 0, Set_Enabled ''t'' ''e'' False, Claim_Due 14 5 0] m')).
       1 \<notin> dd_ID ` set ds)"
proof -
  have "queue_ok NewMemory" by (simp add: queue_ok_def NewMemory_def)
  then have ok: "queue_ok sample_queue"
    unfolding sample_queue_def by - (rule EnqueueDelivery_queue_ok, rule queue_ok_same, simp_all)
  obtain out m' where run: "ClaimDueDeliveries 10 5 0 sample_queue = (Inr out, m')"
    using ClaimDueDeliveries_eq by blast
  then have out: "out = map (\<lambda>(i, d). hand_out sample_queue i d) (claimed_due 10 0 sample_queue)"
    by (simp add: ClaimDueDeliveries_eq)
  obtain d where q: "m_deliveries sample_queue = [(1, d)]" "dr_ID d = 1" "deliverable sample_queue 10 d"
    by (simp add: sample_queue_def EnqueueDelivery_def NewMemory_def deliverable_def)
  have "map dd_ID out = [1]"
    by (simp add: out claimed_due_def due_deliveries_def q hand_out_def Let_def)
  then obtain x where x: "x \<in> set out" "dd_ID x = 1" by auto
  let ?ops = "[Claim_Due 12 5 0, Set_Enabled ''t'' ''e'' False, Claim_Due 14 5 0]"
  obtain rs m'' where ops: "run_ops exec_queue ?ops m' = (rs, m'')" by fastforce
  have "list_all (within_lease (dd_ID x) (10 + 5)) ?ops" by simp
  from delivery_lease_exclusive [OF ok run _ x(1) this ops] have
    "\<forall>(p, ds)\<in>set rs. 1 \<notin> dd_ID ` set ds" by (simp add: x(2))
  with run x ops show ?thesis by (auto simp: Let_def)
qed

end
