(* ===== verification/Store_Audit.thy ===== *)
theory Store_Audit
  imports Store_Types
begin

text \<open>
  The audit half of the in-memory store: appending to and reading the per-tenant hash chain
  (\<^verbatim>\<open>internal/store/memory_audit.go\<close>) and keeping signed checkpoints
  (\<^verbatim>\<open>internal/store/memory_checkpoints.go\<close>). \<open>digest\<close> is JSON followed by SHA-256, as in
  \<open>Audit_Chain\<close>; the two instants are the two readings of the clock \<^verbatim>\<open>AppendAudit\<close> makes.
\<close>

section \<open>Operations\<close>

text \<open>Where a record goes in its chain.\<close>

definition link_record :: "string \<Rightarrow> gotime \<Rightarrow> Record list \<Rightarrow> Record \<Rightarrow> Record" where
  "link_record tenantID now chain r =
    (let r = r\<lparr>ar_TenantID := tenantID\<rparr>;
         r = (if IsZero (ar_OccurredAt r) then r\<lparr>ar_OccurredAt := now\<rparr> else r);
         r = r\<lparr>ar_Seq := int (length chain) + 1, ar_PrevHash := ''''\<rparr>
     in if length chain > 0 then r\<lparr>ar_PrevHash := ar_Hash (last chain)\<rparr> else r)"

definition AppendAudit ::
  "digest \<Rightarrow> string \<Rightarrow> Record \<Rightarrow> gotime \<Rightarrow> gotime \<Rightarrow> memory \<Rightarrow> Record outcome" where
  "AppendAudit digest tenantID r now now' m =
    (if tenantID = '''' then (Inl (ErrMessage ''store: audit record needs a tenant''), m)
     else let chain = inner (m_audit m) tenantID;
              r = link_record tenantID now chain r
          in case ComputeHash digest r (ar_PrevHash r) of
               Inl err \<Rightarrow> (Inl (ErrMessage err), m)
             | Inr hash \<Rightarrow>
                 let r = r\<lparr>ar_Hash := hash, ar_ID := ar_Seq r, ar_RecordedAt := now'\<rparr>
                 in (Inr r, m\<lparr>m_audit := AList.update tenantID (chain @ [r]) (m_audit m)\<rparr>))"

definition ListAudit :: "string \<Rightarrow> int \<Rightarrow> memory \<Rightarrow> Record list outcome" where
  "ListAudit tenantID limit m =
    (let limit = (if limit \<le> 0 then 1000 else limit);
         chain = inner (m_audit m) tenantID;
         chain = (if int (length chain) > limit then take (nat limit) chain else chain)
     in (Inr chain, m))"

definition SaveCheckpoint :: "Checkpoint \<Rightarrow> memory \<Rightarrow> unit outcome" where
  "SaveCheckpoint c m =
    (let saved = inner (m_checkpoints m) (cp_TenantID c)
     in if list_ex (\<lambda>existing. cp_Seq existing = cp_Seq c) saved then (Inr (), m)
        else (Inr (), m\<lparr>m_checkpoints := AList.update (cp_TenantID c) (saved @ [c]) (m_checkpoints m)\<rparr>))"

fun latest_loop :: "Checkpoint list \<Rightarrow> Checkpoint option \<Rightarrow> Checkpoint option" where
  "latest_loop [] latest = latest"
| "latest_loop (c # cs) latest =
    (case latest of
       None \<Rightarrow> latest_loop cs (Some c)
     | Some l \<Rightarrow> if cp_Seq c > cp_Seq l then latest_loop cs (Some c) else latest_loop cs latest)"

definition LatestCheckpoint :: "string \<Rightarrow> memory \<Rightarrow> Checkpoint outcome" where
  "LatestCheckpoint tenantID m =
    (case latest_loop (inner (m_checkpoints m) tenantID) None of
       None \<Rightarrow> (Inl ErrNotFound, m)
     | Some c \<Rightarrow> (Inr c, m))"

definition ListCheckpoints :: "string \<Rightarrow> int \<Rightarrow> memory \<Rightarrow> Checkpoint list outcome" where
  "ListCheckpoints tenantID limit m =
    (let limit = (if limit \<le> 0 \<or> limit > 1000 then 100 else limit);
         out = sort_key (\<lambda>c. - cp_Seq c) (inner (m_checkpoints m) tenantID)
     in (Inr (take (nat limit) out), m))"

definition TenantsWithAudit :: "memory \<Rightarrow> string list outcome" where
  "TenantsWithAudit m =
    (Inr (sort (map fst (filter (\<lambda>(tenantID, records). length records > 0) (m_audit m)))), m)"

section \<open>The chain\<close>

abbreviation chain_of :: "memory \<Rightarrow> string \<Rightarrow> Record list" where
  "chain_of m t \<equiv> inner (m_audit m) t"

lemma link_record_fields [simp]:
  "ar_Seq (link_record t now c r) = int (length c) + 1"
  "ar_PrevHash (link_record t now c r) = last_hash '''' c"
  "ar_TenantID (link_record t now c r) = t" "ar_EventType (link_record t now c r) = ar_EventType r"
  "ar_Subject (link_record t now c r) = ar_Subject r" "ar_Payload (link_record t now c r) = ar_Payload r"
  "ar_Actor (link_record t now c r) = ar_Actor r"
  "ar_OccurredAt (link_record t now c r) = (if ar_OccurredAt r = 0 then now else ar_OccurredAt r)"
  by (simp_all add: link_record_def Let_def IsZero_def last_hash_def)

lemma AppendAudit_cases:
  obtains (ok) r' where "AppendAudit digest t r now now' m =
      (Inr r', m\<lparr>m_audit := AList.update t (chain_of m t @ [r']) (m_audit m)\<rparr>)"
    "ar_Seq r' = int (length (chain_of m t)) + 1" "ar_PrevHash r' = last_hash '''' (chain_of m t)"
    "ComputeHash digest r' (ar_PrevHash r') = Inr (ar_Hash r')" "ar_TenantID r' = t" "t \<noteq> ''''"
    "ar_EventType r' = ar_EventType r" "ar_Subject r' = ar_Subject r" "ar_Payload r' = ar_Payload r" "ar_Actor r' = ar_Actor r"
    "ar_OccurredAt r' = (if ar_OccurredAt r = 0 then now else ar_OccurredAt r)"
  | (refused) e where "AppendAudit digest t r now now' m = (Inl e, m)"
proof (cases "t = ''''")
  case True
  then show ?thesis by (intro refused) (simp add: AppendAudit_def)
next
  case False
  let ?c = "chain_of m t"
  let ?r = "link_record t now ?c r"
  show ?thesis
  proof (cases "ComputeHash digest ?r (ar_PrevHash ?r)")
    case (Inl e)
    then show ?thesis using False by (intro refused) (simp add: AppendAudit_def Let_def)
  next
    case (Inr h)
    let ?s = "?r\<lparr>ar_Hash := h, ar_ID := ar_Seq ?r, ar_RecordedAt := now'\<rparr>"
    have "content ?s p = content ?r p" for p by (simp add: content_def)
    then have "ComputeHash digest ?s (ar_PrevHash ?s) = Inr (ar_Hash ?s)"
      using Inr by (simp add: ComputeHash_def)
    with Inr False show ?thesis by (intro ok [of ?s]) (simp_all add: AppendAudit_def Let_def)
  qed
qed

lemma AppendAudit_linked:
  assumes "AppendAudit digest t r now now' m = (res, m')" "linked digest 0 '''' (chain_of m a)"
  shows "linked digest 0 '''' (chain_of m' a) \<and> (\<exists>ext. chain_of m' a = chain_of m a @ ext)"
proof (cases rule: AppendAudit_cases [of digest t r now now' m])
  case (ok r')
  with assms show ?thesis by (auto simp: linked_append)
qed (use assms in auto)

section \<open>Histories\<close>

datatype audit_op = Append string Record gotime gotime | Save Checkpoint

fun exec_audit :: "digest \<Rightarrow> audit_op \<Rightarrow> memory \<Rightarrow> (goerror + Record option) \<times> memory" where
  "exec_audit digest (Append t r now now') m =
    (case AppendAudit digest t r now now' m of (Inl e, m') \<Rightarrow> (Inl e, m') | (Inr r', m') \<Rightarrow> (Inr (Some r'), m'))"
| "exec_audit digest (Save c) m =
    (case SaveCheckpoint c m of (Inl e, m') \<Rightarrow> (Inl e, m') | (Inr _, m') \<Rightarrow> (Inr None, m'))"

lemma SaveCheckpoint_chain [simp]: "m_audit (snd (SaveCheckpoint c m)) = m_audit m"
  by (simp add: SaveCheckpoint_def Let_def)

lemma exec_audit_linked:
  assumes "exec_audit digest p m = (res, m')" "linked digest 0 '''' (chain_of m a)"
  shows "linked digest 0 '''' (chain_of m' a) \<and> (\<exists>ext. chain_of m' a = chain_of m a @ ext)"
proof (cases p)
  case (Append t r now now')
  then have "snd (AppendAudit digest t r now now' m) = m'"
    using assms(1) by (auto split: prod.splits sum.splits)
  with AppendAudit_linked [of digest t r now now' m _ m' a] assms(2) show ?thesis by (metis prod.collapse)
next
  case (Save c)
  then have "snd (SaveCheckpoint c m) = m'"
    using assms(1) by (auto split: prod.splits sum.splits)
  then have "m_audit m' = m_audit m" using SaveCheckpoint_chain by metis
  with assms(2) show ?thesis by simp
qed

text \<open>
  C35. The store's chains always verify and only grow. From a store whose chains verify,
  after any sequence of appends, for any tenants and interleaved with checkpoints, every
  tenant's chain still verifies and extends what it was; and a record whose append
  succeeded is in its tenant's chain with the caller's event, subject and payload.
\<close>

theorem audit_append_only:
  assumes "run_ops (exec_audit digest) ops m = (rs, m')"
    and "\<forall>t. v_Verified (VerifyChain digest t (chain_of m t))"
  shows "\<forall>t. v_Verified (VerifyChain digest t (chain_of m' t)) \<and> (\<exists>ext. chain_of m' t = chain_of m t @ ext) \<and>
    (\<forall>r now now' r'. (Append t r now now', Inr (Some r')) \<in> set rs \<longrightarrow>
      r' \<in> set (chain_of m' t) \<and> ar_TenantID r' = t \<and> ar_EventType r' = ar_EventType r \<and>
      ar_Subject r' = ar_Subject r \<and> ar_Payload r' = ar_Payload r)"
  using assms unfolding VerifyChain_linked
proof (induction ops arbitrary: m rs)
  case (Cons p ops)
  obtain res m1 where p: "exec_audit digest p m = (res, m1)" by fastforce
  obtain ts where rest: "run_ops (exec_audit digest) ops m1 = (ts, m')" and rs: "rs = (p, res) # ts"
    using Cons.prems(1) p by (auto split: prod.splits)
  have step: "linked digest 0 '''' (chain_of m1 t) \<and> (\<exists>ext. chain_of m1 t = chain_of m t @ ext)" for t
    using exec_audit_linked [OF p] Cons.prems(2) by blast
  then have "\<forall>t. linked digest 0 '''' (chain_of m1 t)" by blast
  note IH = Cons.IH [OF rest this]
  have "r' \<in> set (chain_of m' t) \<and> ar_TenantID r' = t \<and> ar_EventType r' = ar_EventType r \<and>
      ar_Subject r' = ar_Subject r \<and> ar_Payload r' = ar_Payload r"
    if "(Append t r now now', Inr (Some r')) \<in> set rs" for t r now now' r'
  proof (cases "(Append t r now now', Inr (Some r')) \<in> set ts")
    case True
    with IH show ?thesis by blast
  next
    case False
    with that rs have head: "p = Append t r now now'" "res = Inr (Some r')" by auto
    obtain ext where ext: "chain_of m' t = chain_of m1 t @ ext" using IH by blast
    from head p show ?thesis
      by (cases rule: AppendAudit_cases [of digest t r now now' m]) (auto simp: ext)
  qed
  moreover have "\<exists>ext. chain_of m' t = chain_of m t @ ext" for t
    using IH step by (metis append.assoc)
  ultimately show ?case using IH by blast
qed simp

theorem audit_append_only_witness:
  "let ops = [Append ''t'' (sample_record 0 ''a'' ''x'') 1 2, Append ''u'' (sample_record 0 ''b'' ''x'') 3 4,
       Append ''t'' (sample_record 0 ''c'' ''x'') 5 6];
     m = snd (run_ops (exec_audit sample_digest) ops NewMemory)
   in v_Verified (VerifyChain sample_digest ''t'' (chain_of m ''t'')) \<and> length (chain_of m ''t'') = 2"
proof -
  let ?ops = "[Append ''t'' (sample_record 0 ''a'' ''x'') 1 2, Append ''u'' (sample_record 0 ''b'' ''x'') 3 4,
       Append ''t'' (sample_record 0 ''c'' ''x'') 5 6]"
  obtain rs m where run: "run_ops (exec_audit sample_digest) ?ops NewMemory = (rs, m)" by fastforce
  have "\<forall>t. v_Verified (VerifyChain sample_digest t (chain_of NewMemory t))"
    by (simp add: NewMemory_def VerifyChain_linked)
  from audit_append_only [OF run this] have "v_Verified (VerifyChain sample_digest ''t'' (chain_of m ''t''))" by blast
  moreover have "length (chain_of (snd (run_ops (exec_audit sample_digest) ?ops NewMemory)) ''t'') = 2"
    by code_simp
  ultimately show ?thesis using run by (simp add: Let_def)
qed

end
