(* ===== verification/Checkpointer.thy ===== *)
theory Checkpointer
  imports Store_Audit
begin

text \<open>
  The service that signs every tenant's chain head on a schedule
  (\<^verbatim>\<open>internal/service/checkpointer.go\<close>), over the part of the audit port it calls. The ticker
  and the log are left out; one round is one call of \<^verbatim>\<open>Checkpoint\<close>.
\<close>

section \<open>The port it calls\<close>

record 's audit_port =
  as_Tenants :: "'s \<Rightarrow> (goerror + string list) \<times> 's"
  as_List :: "string \<Rightarrow> int \<Rightarrow> 's \<Rightarrow> (goerror + Record list) \<times> 's"
  as_Latest :: "string \<Rightarrow> 's \<Rightarrow> (goerror + Checkpoint) \<times> 's"
  as_Save :: "Checkpoint \<Rightarrow> 's \<Rightarrow> (goerror + unit) \<times> 's"

record CheckpointResult =
  cpr_Tenants :: int
  cpr_Signed :: int

section \<open>One round\<close>

definition checkpointTenant ::
  "'s audit_port \<Rightarrow> digest \<Rightarrow> 'k crypto \<Rightarrow> 'k \<Rightarrow> gotime \<Rightarrow> string \<Rightarrow> 's \<Rightarrow> (goerror + bool) \<times> 's" where
  "checkpointTenant st digest cr signer now tenantID s =
    (case as_List st tenantID 0 s of
       (Inl err, s) \<Rightarrow> (Inl err, s)
     | (Inr records, s) \<Rightarrow>
         if length records = 0 then (Inr False, s)
         else let v = VerifyChain digest tenantID records
         in if \<not> v_Verified v
            then (Inl (ErrMessage (''chain is broken at seq '' @ show_int (v_BrokenAt v) @ '', refusing to sign it: ''
                   @ v_Reason v)), s)
            else let head = last records
            in (case as_Latest st tenantID s of
                  (latest, s) \<Rightarrow>
                    if (case latest of Inr l \<Rightarrow> cp_Seq l \<ge> ar_Seq head | Inl _ \<Rightarrow> False) then (Inr False, s)
                    else if (case latest of Inl err \<Rightarrow> \<not> errors_is err ErrNotFound | Inr _ \<Rightarrow> False)
                    then (Inl (case latest of Inl err \<Rightarrow> err | Inr _ \<Rightarrow> ErrNotFound), s)
                    else (case Sign cr signer \<lparr>cp_TenantID = tenantID, cp_Seq = ar_Seq head,
                                 cp_Hash = v_LastHash v, cp_TakenAt = now, cp_Signature = '''', cp_PublicKey = ''''\<rparr> of
                            Inl err \<Rightarrow> (Inl (ErrMessage err), s)
                          | Inr signed \<Rightarrow>
                              (case as_Save st signed s of
                                 (Inl err, s) \<Rightarrow> (Inl err, s)
                               | (Inr _, s) \<Rightarrow> (Inr True, s)))))"

fun checkpoint_tenants ::
  "'s audit_port \<Rightarrow> digest \<Rightarrow> 'k crypto \<Rightarrow> 'k \<Rightarrow> gotime \<Rightarrow> string list \<Rightarrow> CheckpointResult \<Rightarrow> 's \<Rightarrow> CheckpointResult \<times> 's" where
  "checkpoint_tenants st digest cr signer now [] res s = (res, s)"
| "checkpoint_tenants st digest cr signer now (t # ts) res s =
    (case checkpointTenant st digest cr signer now t s of
       (Inl err, s) \<Rightarrow> checkpoint_tenants st digest cr signer now ts res s
     | (Inr signed, s) \<Rightarrow> checkpoint_tenants st digest cr signer now ts
         (if signed then res\<lparr>cpr_Signed := cpr_Signed res + 1\<rparr> else res) s)"

definition Checkpoint_round ::
  "'s audit_port \<Rightarrow> digest \<Rightarrow> 'k crypto \<Rightarrow> 'k \<Rightarrow> gotime \<Rightarrow> 's \<Rightarrow> (goerror + CheckpointResult) \<times> 's" where
  "Checkpoint_round st digest cr signer now s =
    (case as_Tenants st s of
       (Inl err, s) \<Rightarrow> (Inl (ErrWrapped ''list tenants with a chain'' err), s)
     | (Inr tenants, s) \<Rightarrow>
         (case checkpoint_tenants st digest cr signer now tenants
                 \<lparr>cpr_Tenants = int (length tenants), cpr_Signed = 0\<rparr> s of
            (res, s) \<Rightarrow> (Inr res, s)))"

section \<open>What is relied on, and what follows\<close>

text \<open>A checkpoint that says the truth about a chain: it signs one of its verified heads.\<close>

definition genuine :: "digest \<Rightarrow> 'k crypto \<Rightarrow> 'k \<Rightarrow> nat \<Rightarrow> string \<Rightarrow> Record list \<Rightarrow> Checkpoint \<Rightarrow> bool" where
  "genuine digest cr k bound t chain c \<longleftrightarrow> cp_TenantID c = t \<and> VerifyCheckpoint cr c (Signer_PublicKey cr k) = None \<and>
    (\<exists>n. 0 < n \<and> n \<le> length chain \<and> n \<le> bound \<and> cp_Seq c = int n \<and> linked digest 0 '''' (take n chain) \<and>
      cp_Hash c = last_hash '''' (take n chain))"

lemma genuine_append: "genuine d cr k b t chain c \<Longrightarrow> genuine d cr k b t (chain @ ext) c"
  unfolding genuine_def by (elim conjE exE) (intro conjI exI, auto)

locale checkpoint_store =
  fixes st :: "'s audit_port"
    and chain :: "'s \<Rightarrow> string \<Rightarrow> Record list"
    and saved :: "'s \<Rightarrow> string \<Rightarrow> Checkpoint list"
    and bound :: nat
  assumes tenants: "as_Tenants st s = (tr, s') \<Longrightarrow> s' = s"
    and listed: "as_List st t 0 s = (lr, s') \<Longrightarrow>
      s' = s \<and> (\<forall>rs. lr = Inr rs \<longrightarrow> (\<exists>n\<le>bound. n \<le> length (chain s t) \<and> rs = take n (chain s t)))"
    and latest: "as_Latest st t s = (cr, s') \<Longrightarrow> s' = s"
    and saves: "as_Save st c s = (sr, s') \<Longrightarrow> chain s' = chain s \<and>
      (\<forall>t. set (saved s' t) \<subseteq> set (saved s t) \<union> (if t = cp_TenantID c then {c} else {}))"
begin

lemma checkpointTenant_genuine:
  assumes crypto: "\<And>x. b64_decode cr (b64_encode cr x) = Some x"
      "\<And>k m. ed_verify cr (ed_public cr k) m (ed_sign cr k m)" "\<And>k. length (ed_public cr k) = 32"
    and run: "checkpointTenant st d cr k now t s = (r, s')"
    and inv: "\<forall>a. \<forall>c\<in>set (saved s a). genuine d cr k bound a (chain s a) c"
  shows "chain s' = chain s \<and> (\<forall>a. \<forall>c\<in>set (saved s' a). genuine d cr k bound a (chain s' a) c)"
proof -
  obtain lr s1 where l: "as_List st t 0 s = (lr, s1)" by fastforce
  have s1: "s1 = s" using listed [OF l] by simp
  show ?thesis
  proof (cases lr)
    case (Inr records)
    then obtain n where n: "n \<le> bound" "n \<le> length (chain s t)" "records = take n (chain s t)"
      using listed [OF l] by blast
    let ?v = "VerifyChain d t records"
    obtain la s2 where la: "as_Latest st t s = (la, s2)" by fastforce
    have s2: "s2 = s" by (rule latest [OF la])
    let ?c = "\<lparr>cp_TenantID = t, cp_Seq = ar_Seq (last records), cp_Hash = v_LastHash ?v, cp_TakenAt = now,
      cp_Signature = '''', cp_PublicKey = ''''\<rparr>"
    show ?thesis
    proof (cases "s' = s")
      case False
      then have ne: "records \<noteq> []" and v: "v_Verified ?v"
        using run l la Inr s1 s2 by (auto simp: checkpointTenant_def Let_def split: if_splits)
      from False run l la Inr s1 s2 ne v obtain signed sr where
        sg: "Sign cr k ?c = Inr signed" and sv: "as_Save st signed s = (sr, s')"
        by (auto simp: checkpointTenant_def Let_def split: if_splits sum.splits prod.splits)
      have L: "linked d 0 '''' records" using v by (simp add: VerifyChain_linked)
      have len: "length records = n" "0 < n" using n ne by auto
      have "ar_Seq (last records) = int n"
        using linked_Seq [OF L, of "n - 1"] len ne by (simp add: last_conv_nth)
      moreover obtain msg where "signed = ?c\<lparr>cp_Signature := b64_encode cr (ed_sign cr k msg),
          cp_PublicKey := Signer_PublicKey cr k\<rparr>" using sg by (rule Sign_Inr)
      moreover have "VerifyCheckpoint cr signed (Signer_PublicKey cr k) = None"
        by (rule Sign_verifies [OF crypto sg])
      ultimately have g: "cp_TenantID signed = t" "genuine d cr k bound t (chain s t) signed"
        using n len L VerifyChain_LastHash [OF L, of t] by (auto simp: genuine_def)
      show ?thesis
      proof (intro conjI allI ballI)
        show ch: "chain s' = chain s" using saves [OF sv] by simp
        fix a c
        assume c: "c \<in> set (saved s' a)"
        have "set (saved s' a) \<subseteq> set (saved s a) \<union> (if a = cp_TenantID signed then {signed} else {})"
          using saves [OF sv] by blast
        with c g(1) have "c \<in> set (saved s a) \<or> (a = t \<and> c = signed)" by (auto split: if_splits)
        with inv g(2) ch show "genuine d cr k bound a (chain s' a) c" by auto
      qed
    qed (use inv in simp)
  qed (use run l s1 inv in \<open>auto simp: checkpointTenant_def\<close>)
qed

lemma checkpoint_tenants_genuine:
  assumes crypto: "\<And>x. b64_decode cr (b64_encode cr x) = Some x"
      "\<And>k m. ed_verify cr (ed_public cr k) m (ed_sign cr k m)" "\<And>k. length (ed_public cr k) = 32"
    and inv: "\<forall>a. \<forall>c\<in>set (saved s a). genuine d cr k bound a (chain s a) c"
    and run: "checkpoint_tenants st d cr k now ts res s = (res', s')"
  shows "chain s' = chain s \<and> (\<forall>a. \<forall>c\<in>set (saved s' a). genuine d cr k bound a (chain s' a) c)"
  using inv run
proof (induction ts arbitrary: res s)
  case (Cons t ts)
  obtain r s1 where one: "checkpointTenant st d cr k now t s = (r, s1)" by fastforce
  note step = checkpointTenant_genuine [OF crypto one Cons.prems(1)]
  obtain res1 where "checkpoint_tenants st d cr k now ts res1 s1 = (res', s')"
    using Cons.prems(2) one by (cases r) auto
  from Cons.IH [OF conjunct2 [OF step] this] step show ?case by (intro conjI) (simp, blast)
qed simp

lemma round_genuine:
  assumes crypto: "\<And>x. b64_decode cr (b64_encode cr x) = Some x"
      "\<And>k m. ed_verify cr (ed_public cr k) m (ed_sign cr k m)" "\<And>k. length (ed_public cr k) = 32"
    and inv: "\<forall>a. \<forall>c\<in>set (saved s a). genuine d cr k bound a (chain s a) c"
    and run: "Checkpoint_round st d cr k now s = (r, s')"
  shows "chain s' = chain s \<and> (\<forall>a. \<forall>c\<in>set (saved s' a). genuine d cr k bound a (chain s' a) c)"
proof -
  obtain tr s1 where t: "as_Tenants st s = (tr, s1)" by fastforce
  have s1: "s1 = s" by (rule tenants [OF t])
  show ?thesis
  proof (cases tr)
    case (Inr ts)
    then obtain res' where "checkpoint_tenants st d cr k now ts \<lparr>cpr_Tenants = int (length ts), cpr_Signed = 0\<rparr> s = (res', s')"
      using run t s1 by (auto simp: Checkpoint_round_def split: prod.splits)
    from checkpoint_tenants_genuine [OF crypto inv this] show ?thesis .
  qed (use run t s1 inv in \<open>auto simp: Checkpoint_round_def\<close>)
qed

end

section \<open>On the in-memory store\<close>

definition memory_audit_port :: "memory audit_port" where
  "memory_audit_port = \<lparr>as_Tenants = TenantsWithAudit, as_List = ListAudit, as_Latest = LatestCheckpoint,
    as_Save = SaveCheckpoint\<rparr>"

abbreviation saved_of :: "memory \<Rightarrow> string \<Rightarrow> Checkpoint list" where
  "saved_of m t \<equiv> inner (m_checkpoints m) t"

interpretation memory_audit: checkpoint_store memory_audit_port chain_of saved_of 1000
proof
  fix s s' :: memory and t and lr :: "goerror + Record list"
  assume "as_List memory_audit_port t 0 s = (lr, s')"
  then show "s' = s \<and> (\<forall>rs. lr = Inr rs \<longrightarrow> (\<exists>n\<le>1000. n \<le> length (chain_of s t) \<and> rs = take n (chain_of s t)))"
    by (auto simp: memory_audit_port_def ListAudit_def Let_def split: if_splits
        intro: exI [of _ 1000] exI [of _ "length (chain_of s t)"])
qed (auto simp: memory_audit_port_def TenantsWithAudit_def LatestCheckpoint_def SaveCheckpoint_def Let_def
      split: option.splits if_splits)

datatype ledger_op = Record_Event string Record gotime gotime | Checkpoint_Round gotime

fun exec_ledger :: "digest \<Rightarrow> 'k crypto \<Rightarrow> 'k \<Rightarrow> ledger_op \<Rightarrow> memory \<Rightarrow> bool \<times> memory" where
  "exec_ledger d cr k (Record_Event t r now now') m =
    (case AppendAudit d t r now now' m of (res, m') \<Rightarrow> (\<not> isl res, m'))"
| "exec_ledger d cr k (Checkpoint_Round now) m =
    (case Checkpoint_round memory_audit_port d cr k now m of (res, m') \<Rightarrow> (\<not> isl res, m'))"

definition ledger_ok :: "digest \<Rightarrow> 'k crypto \<Rightarrow> 'k \<Rightarrow> memory \<Rightarrow> bool" where
  "ledger_ok d cr k m \<longleftrightarrow> (\<forall>t. linked d 0 '''' (chain_of m t)) \<and>
    (\<forall>t. \<forall>c\<in>set (saved_of m t). genuine d cr k 1000 t (chain_of m t) c)"

lemma AppendAudit_saved: "m_checkpoints (snd (AppendAudit d t r now now' m)) = m_checkpoints m"
  by (cases rule: AppendAudit_cases [of d t r now now' m]) auto

lemma exec_ledger_ok:
  assumes crypto: "\<And>x. b64_decode cr (b64_encode cr x) = Some x"
      "\<And>k m. ed_verify cr (ed_public cr k) m (ed_sign cr k m)" "\<And>k. length (ed_public cr k) = 32"
    and ok: "ledger_ok d cr k m" and run: "exec_ledger d cr k p m = (r, m')"
  shows "ledger_ok d cr k m'"
proof (cases p)
  case (Record_Event t rec now now')
  then obtain res where run': "AppendAudit d t rec now now' m = (res, m')"
    using run by (auto split: prod.splits)
  have "linked d 0 '''' (chain_of m' a) \<and> (\<exists>ext. chain_of m' a = chain_of m a @ ext)" for a
    using AppendAudit_linked [OF run'] ok by (simp add: ledger_ok_def)
  moreover have "m_checkpoints m' = m_checkpoints m" using AppendAudit_saved [of d t rec now now' m] run' by simp
  ultimately show ?thesis
    using ok unfolding ledger_ok_def by (metis genuine_append)
next
  case (Checkpoint_Round now)
  then obtain res where "Checkpoint_round memory_audit_port d cr k now m = (res, m')"
    using run by (auto split: prod.splits)
  from memory_audit.round_genuine [OF crypto _ this] ok show ?thesis
    by (auto simp: ledger_ok_def)
qed

lemma run_ledger_ok:
  assumes crypto: "\<And>x. b64_decode cr (b64_encode cr x) = Some x"
      "\<And>k m. ed_verify cr (ed_public cr k) m (ed_sign cr k m)" "\<And>k. length (ed_public cr k) = 32"
    and "run_ops (exec_ledger d cr k) ops m = (rs, m')" "ledger_ok d cr k m"
  shows "ledger_ok d cr k m'"
  using assms(4,5)
proof (induction ops arbitrary: m rs)
  case (Cons p ops)
  obtain r m1 where p: "exec_ledger d cr k p m = (r, m1)" by fastforce
  obtain ts where "run_ops (exec_ledger d cr k) ops m1 = (ts, m')"
    using Cons.prems(1) p by (auto split: prod.splits)
  from Cons.IH [OF this exec_ledger_ok [OF crypto Cons.prems(2) p]] show ?case .
qed simp

lemma reach_loop_linked:
  "linked d i p rs \<Longrightarrow> i < seq \<Longrightarrow> seq \<le> i + int (length rs) \<Longrightarrow>
    reach_loop d seq p x rs = Inr (last_hash p (take (nat (seq - i)) rs))"
proof (induction rs arbitrary: i p x)
  case (Cons r rs)
  have h: "ar_Seq r = i + 1" "ComputeHash d r p = Inr (ar_Hash r)" "linked d (i + 1) (ar_Hash r) rs"
    using Cons.prems(1) by simp_all
  show ?case
  proof (cases "seq = i + 1")
    case True
    have "reach_loop d seq q y zs = Inr y" if "linked d seq q zs" for q y zs
      using that by (cases zs) auto
    with True h show ?thesis by simp
  next
    case False
    with Cons.prems(2) have lt: "i + 1 < seq" by simp
    then have "nat (seq - i) = Suc (nat (seq - (i + 1)))" by simp
    moreover have "reach_loop d seq (ar_Hash r) x rs = Inr (last_hash (ar_Hash r) (take (nat (seq - (i + 1))) rs))"
      using Cons.IH [OF h(3) lt] Cons.prems(3) by simp
    ultimately show ?thesis using h False lt by simp
  qed
qed simp

lemma genuine_matches:
  assumes "linked d 0 '''' chain" "genuine d cr k b t chain c"
  shows "cc_Matches (VerifyAgainstCheckpoint d cr render chain c (Signer_PublicKey cr k))"
proof -
  obtain n where n: "0 < n" "n \<le> length chain" "cp_Seq c = int n" "cp_Hash c = last_hash '''' (take n chain)"
      "linked d 0 '''' (take n chain)" and v: "VerifyCheckpoint cr c (Signer_PublicKey cr k) = None"
    using assms(2) by (auto simp: genuine_def)
  have r: "reach_loop d (cp_Seq c) '''' '''' chain = Inr (cp_Hash c)"
    using reach_loop_linked [OF assms(1), of "cp_Seq c" "''''"] n by simp
  have "take n chain \<noteq> []" using n by auto
  then have "cp_Hash c = ar_Hash (last (take n chain))" using n(4) by (simp add: last_hash_def)
  moreover have "ar_Hash (last (take n chain)) \<noteq> ''''"
    using n(5) \<open>take n chain \<noteq> []\<close>
    by (metis ComputeHash_nonempty append_butlast_last_id linked.simps(2) linked_append)
  ultimately show ?thesis using r v by (simp add: VerifyAgainstCheckpoint_def Let_def)
qed

text \<open>
  C37. Every checkpoint the service takes keeps matching. From an empty store, after any
  history of appended records and checkpoint rounds, every stored checkpoint verifies under
  the signer's key and matches its tenant's chain as it now is; a mismatch can only come
  from outside these operations. (Ed25519 and base64 are assumed to do what they document.)
\<close>

theorem checkpoints_always_match:
  assumes "\<And>x. b64_decode cr (b64_encode cr x) = Some x"
    and "\<And>k m. ed_verify cr (ed_public cr k) m (ed_sign cr k m)"
    and "\<And>k. length (ed_public cr k) = 32"
    and "run_ops (exec_ledger d cr k) ops NewMemory = (rs, m)"
    and "c \<in> set (saved_of m t)"
  shows "cc_Matches (VerifyAgainstCheckpoint d cr render (chain_of m t) c (Signer_PublicKey cr k)) \<and>
    cp_TenantID c = t \<and> 0 < cp_Seq c \<and> cp_Seq c \<le> int (length (chain_of m t))"
proof -
  have "ledger_ok d cr k NewMemory" by (simp add: ledger_ok_def NewMemory_def)
  from run_ledger_ok [OF assms(1-4) this] assms(5)
  have "linked d 0 '''' (chain_of m t)" and g: "genuine d cr k 1000 t (chain_of m t) c"
    by (auto simp: ledger_ok_def)
  from genuine_matches [OF this] g show ?thesis by (auto simp: genuine_def)
qed

theorem checkpoints_always_match_witness:
  "let ops = [Record_Event ''acme'' (sample_record 0 ''a'' ''x'') 1 2, Checkpoint_Round 5,
       Record_Event ''acme'' (sample_record 0 ''b'' ''x'') 6 7];
     m = snd (run_ops (exec_ledger sample_digest sample_crypto ()) ops NewMemory)
   in \<exists>c. c \<in> set (saved_of m ''acme'') \<and>
     cc_Matches (VerifyAgainstCheckpoint sample_digest sample_crypto (\<lambda>_. '''') (chain_of m ''acme'') c
       (Signer_PublicKey sample_crypto ()))"
proof -
  let ?ops = "[Record_Event ''acme'' (sample_record 0 ''a'' ''x'') 1 2, Checkpoint_Round 5,
       Record_Event ''acme'' (sample_record 0 ''b'' ''x'') 6 7]"
  obtain rs m where run: "run_ops (exec_ledger sample_digest sample_crypto ()) ?ops NewMemory = (rs, m)" by fastforce
  have "length (saved_of (snd (run_ops (exec_ledger sample_digest sample_crypto ()) ?ops NewMemory)) ''acme'') = 1"
    by code_simp
  then obtain c where c: "c \<in> set (saved_of m ''acme'')" using run by (cases "saved_of m ''acme''") auto
  have "b64_decode sample_crypto (b64_encode sample_crypto x) = Some x"
    "ed_verify sample_crypto (ed_public sample_crypto k) m (ed_sign sample_crypto k m)"
    "length (ed_public sample_crypto k) = 32" for x k m
    by (simp_all add: sample_crypto_def)
  from checkpoints_always_match [OF this run c] run c show ?thesis by (auto simp: Let_def)
qed

text \<open>
  But the service only ever lists the first thousand records of a chain, so no
  checkpoint it takes, over any history, covers a record after the thousandth: however long
  a tenant's chain grows, its tail stays unsigned.
\<close>

theorem checkpoints_stop_at_1000:
  assumes "\<And>x. b64_decode cr (b64_encode cr x) = Some x"
    and "\<And>k m. ed_verify cr (ed_public cr k) m (ed_sign cr k m)"
    and "\<And>k. length (ed_public cr k) = 32"
    and "run_ops (exec_ledger d cr k) ops NewMemory = (rs, m)"
  shows "\<forall>t c. c \<in> set (saved_of m t) \<longrightarrow> cp_Seq c \<le> 1000"
proof -
  have "ledger_ok d cr k NewMemory" by (simp add: ledger_ok_def NewMemory_def)
  from run_ledger_ok [OF assms this] show ?thesis by (force simp: ledger_ok_def genuine_def)
qed

theorem checkpoints_stop_at_1000_witness:
  "list_all (\<lambda>c. cp_Seq c \<le> 1000) (saved_of (snd (run_ops (exec_ledger sample_digest sample_crypto ())
      [Record_Event ''acme'' (sample_record 0 ''a'' ''x'') 1 2, Checkpoint_Round 5] NewMemory)) ''acme'')"
proof -
  obtain rs m where run: "run_ops (exec_ledger sample_digest sample_crypto ())
      [Record_Event ''acme'' (sample_record 0 ''a'' ''x'') 1 2, Checkpoint_Round 5] NewMemory = (rs, m)" by fastforce
  have "b64_decode sample_crypto (b64_encode sample_crypto x) = Some x"
    "ed_verify sample_crypto (ed_public sample_crypto k) m (ed_sign sample_crypto k m)"
    "length (ed_public sample_crypto k) = 32" for x k m
    by (simp_all add: sample_crypto_def)
  from checkpoints_stop_at_1000 [OF this run] show ?thesis unfolding run by (simp add: list_all_iff)
qed

end
