(* ===== verification/Auth.thy ===== *)
theory Auth
  imports Store_Types
begin

text \<open>
  API keys (\<^verbatim>\<open>internal/auth/key.go\<close>) and the caching authenticator
  (\<^verbatim>\<open>internal/auth/authenticator.go\<close>). Key generation, Argon2 and SHA-256 are outside: \<open>sha\<close>
  is the hex digest the cache is keyed by, and \<open>verify hash secret\<close> says that \<^verbatim>\<open>Verify\<close>
  returned true without error. \<open>lookup\<close> is what \<^verbatim>\<open>APIKeyByPrefix\<close> finds at the moment of a call;
  the two instants of a call are its readings of the clock.
\<close>

section \<open>Keys\<close>

record Key =
  k_Secret :: string
  k_Prefix :: string
  k_Hash :: string

definition EnvTest :: string where "EnvTest = ''test''"
definition EnvLive :: string where "EnvLive = ''live''"

definition Environment_Valid :: "string \<Rightarrow> bool" where
  "Environment_Valid e \<longleftrightarrow> e = EnvTest \<or> e = EnvLive"

definition PrefixLen :: nat where "PrefixLen = 12"

definition Prefix :: "string \<Rightarrow> string" where
  "Prefix secret = (if length secret \<le> PrefixLen then secret else take PrefixLen secret)"

text \<open>\<^verbatim>\<open>strings.SplitN(s, sep, n)\<close> for a one-byte separator.\<close>

fun splitN :: "nat \<Rightarrow> char \<Rightarrow> string \<Rightarrow> string list" where
  "splitN 0 sep s = []"
| "splitN (Suc 0) sep s = [s]"
| "splitN (Suc n) sep s =
    (if sep \<in> set s then takeWhile (\<lambda>c. c \<noteq> sep) s # splitN n sep (tl (dropWhile (\<lambda>c. c \<noteq> sep) s)) else [s])"

definition EnvironmentOf :: "string \<Rightarrow> string \<times> bool" where
  "EnvironmentOf secret =
    (let parts = splitN 3 CHR ''_'' secret
     in if length parts \<noteq> 3 \<or> parts ! 0 \<noteq> ''rs'' then ('''', False)
        else (parts ! 1, Environment_Valid (parts ! 1)))"

section \<open>Principals\<close>

record Principal =
  p_TenantID :: string
  p_KeyID :: string
  p_Environment :: string
  p_Scopes :: "string list"

definition ScopeEventsWrite :: string where "ScopeEventsWrite = ''events:write''"
definition ScopeReportsRead :: string where "ScopeReportsRead = ''reports:read''"
definition ScopeEndpointsWrite :: string where "ScopeEndpointsWrite = ''endpoints:write''"

definition HasScope :: "Principal \<Rightarrow> string \<Rightarrow> bool" where
  "HasScope p want \<longleftrightarrow> length (p_Scopes p) = 0 \<or> list_ex (\<lambda>s. s = want) (p_Scopes p)"

section \<open>The authenticator\<close>

definition AuthCacheTTL :: duration where "AuthCacheTTL = 60 * second"
definition maxCacheEntries :: nat where "maxCacheEntries = 4096"

record cacheEntry =
  en_principal :: Principal
  en_expiresAt :: gotime

record Authenticator =
  au_ttl :: duration
  au_cache :: "(string \<times> cacheEntry) list"

definition NewAuthenticator :: "duration \<Rightarrow> Authenticator" where
  "NewAuthenticator ttl = \<lparr>au_ttl = (if ttl \<le> 0 then AuthCacheTTL else ttl), au_cache = []\<rparr>"

definition ErrUnauthenticated :: goerror where
  "ErrUnauthenticated = ErrMessage ''auth: unauthenticated''"

definition fromCache :: "Authenticator \<Rightarrow> string \<Rightarrow> gotime \<Rightarrow> Principal option" where
  "fromCache a key now =
    (case map_of (au_cache a) key of
       None \<Rightarrow> None
     | Some e \<Rightarrow> if now > en_expiresAt e then None else Some (en_principal e))"

definition store_principal :: "Authenticator \<Rightarrow> string \<Rightarrow> Principal \<Rightarrow> gotime \<Rightarrow> Authenticator" where
  "store_principal a key p now =
    (let cache = (if length (au_cache a) \<ge> maxCacheEntries then [] else au_cache a)
     in a\<lparr>au_cache := AList.update key \<lparr>en_principal = p, en_expiresAt = now + au_ttl a\<rparr> cache\<rparr>)"

definition Authenticate ::
  "(string \<Rightarrow> string) \<Rightarrow> (string \<Rightarrow> string \<Rightarrow> bool) \<Rightarrow> (string \<Rightarrow> KeyRecord option) \<Rightarrow> gotime \<Rightarrow> gotime \<Rightarrow>
    string \<Rightarrow> Authenticator \<Rightarrow> (goerror + Principal) \<times> Authenticator" where
  "Authenticate sha verify lookup now now' secret a =
    (if secret = '''' then (Inl ErrUnauthenticated, a)
     else case fromCache a (sha secret) now of
       Some p \<Rightarrow> (Inr p, a)
     | None \<Rightarrow>
         (case lookup (Prefix secret) of
            None \<Rightarrow> (Inl ErrUnauthenticated, a)
          | Some r \<Rightarrow>
              if kr_RevokedAt r \<noteq> None then (Inl ErrUnauthenticated, a)
              else if \<not> verify (kr_Hash r) secret then (Inl ErrUnauthenticated, a)
              else let p = \<lparr>p_TenantID = kr_TenantID r, p_KeyID = kr_ID r, p_Environment = kr_Environment r,
                            p_Scopes = kr_Scopes r\<rparr>
                   in (Inr p, store_principal a (sha secret) p now')))"

definition Authenticator_Invalidate :: "(string \<Rightarrow> string) \<Rightarrow> string \<Rightarrow> Authenticator \<Rightarrow> Authenticator" where
  "Authenticator_Invalidate sha secret a = a\<lparr>au_cache := AList.delete (sha secret) (au_cache a)\<rparr>"

section \<open>Histories of calls\<close>

record auth_call =
  ac_secret :: string
  ac_now :: gotime
  ac_now' :: gotime
  ac_lookup :: "string \<Rightarrow> KeyRecord option"

datatype auth_op = Present auth_call | Forget string

fun exec_auth ::
  "(string \<Rightarrow> string) \<Rightarrow> (string \<Rightarrow> string \<Rightarrow> bool) \<Rightarrow> auth_op \<Rightarrow> Authenticator \<Rightarrow> Principal option \<times> Authenticator" where
  "exec_auth sha verify (Present c) a =
    (case Authenticate sha verify (ac_lookup c) (ac_now c) (ac_now' c) (ac_secret c) a of
       (Inr p, a') \<Rightarrow> (Some p, a')
     | (Inl e, a') \<Rightarrow> (None, a'))"
| "exec_auth sha verify (Forget s) a = (None, Authenticator_Invalidate sha s a)"

text \<open>A call that really checked the key against a live record, and who it was.\<close>

definition checked :: "(string \<Rightarrow> string \<Rightarrow> bool) \<Rightarrow> auth_call \<Rightarrow> Principal \<Rightarrow> bool" where
  "checked verify c p \<longleftrightarrow> ac_secret c \<noteq> '''' \<and>
    (\<exists>r. ac_lookup c (Prefix (ac_secret c)) = Some r \<and> kr_RevokedAt r = None \<and> verify (kr_Hash r) (ac_secret c) \<and>
      p = \<lparr>p_TenantID = kr_TenantID r, p_KeyID = kr_ID r, p_Environment = kr_Environment r, p_Scopes = kr_Scopes r\<rparr>)"

text \<open>
  Why an entry is in the cache: a checked call with that digest put it there, and the secret
  has not been invalidated since.
\<close>

definition justified ::
  "(string \<Rightarrow> string) \<Rightarrow> (string \<Rightarrow> string \<Rightarrow> bool) \<Rightarrow> duration \<Rightarrow> auth_op list \<Rightarrow> string \<Rightarrow> cacheEntry \<Rightarrow> bool" where
  "justified sha verify ttl ops key e \<longleftrightarrow>
    (\<exists>pre c post. ops = pre @ Present c # post \<and> sha (ac_secret c) = key \<and> checked verify c (en_principal e) \<and>
      en_expiresAt e = ac_now' c + ttl \<and> (\<forall>s. Forget s \<in> set post \<longrightarrow> sha s \<noteq> key))"

definition cache_justified ::
  "(string \<Rightarrow> string) \<Rightarrow> (string \<Rightarrow> string \<Rightarrow> bool) \<Rightarrow> auth_op list \<Rightarrow> Authenticator \<Rightarrow> bool" where
  "cache_justified sha verify ops a \<longleftrightarrow>
    (\<forall>key e. map_of (au_cache a) key = Some e \<longrightarrow> justified sha verify (au_ttl a) ops key e)"

lemma justified_snoc:
  assumes "justified sha verify ttl ops key e" "\<And>s. q = Forget s \<Longrightarrow> sha s \<noteq> key"
  shows "justified sha verify ttl (ops @ [q]) key e"
proof -
  obtain pre c post where "ops = pre @ Present c # post" "sha (ac_secret c) = key" "checked verify c (en_principal e)"
      "en_expiresAt e = ac_now' c + ttl" "\<forall>s. Forget s \<in> set post \<longrightarrow> sha s \<noteq> key"
    using assms(1) by (auto simp: justified_def)
  with assms(2) show ?thesis
    unfolding justified_def by (intro exI [of _ pre] exI [of _ c] exI [of _ "post @ [q]"]) auto
qed

lemmas justified_snoc_Present = justified_snoc [of _ _ _ _ _ _ "Present c" for c, simplified]
lemmas justified_snoc_Forget = justified_snoc [of _ _ _ _ _ _ "Forget s" for s, simplified]

lemma Authenticate_cases:
  obtains (cached) p e where "Authenticate sha verify lookup now now' secret a = (Inr p, a)" "secret \<noteq> ''''"
      "map_of (au_cache a) (sha secret) = Some e" "now \<le> en_expiresAt e" "p = en_principal e"
  | (fresh) p r where "Authenticate sha verify lookup now now' secret a = (Inr p, store_principal a (sha secret) p now')"
      "secret \<noteq> ''''" "lookup (Prefix secret) = Some r" "kr_RevokedAt r = None" "verify (kr_Hash r) secret"
      "p = \<lparr>p_TenantID = kr_TenantID r, p_KeyID = kr_ID r, p_Environment = kr_Environment r, p_Scopes = kr_Scopes r\<rparr>"
  | (refused) "Authenticate sha verify lookup now now' secret a = (Inl ErrUnauthenticated, a)"
proof -
  show ?thesis
  proof (cases "secret = ''''")
    case True
    then show ?thesis by (intro refused) (simp add: Authenticate_def)
  next
    case False
    show ?thesis
    proof (cases "fromCache a (sha secret) now")
      case (Some p)
      then obtain e where "map_of (au_cache a) (sha secret) = Some e" "now \<le> en_expiresAt e" "p = en_principal e"
        by (auto simp: fromCache_def split: option.splits if_splits)
      with False Some show ?thesis by (intro cached [of p e]) (simp_all add: Authenticate_def)
    next
      case None
      show ?thesis
      proof (cases "\<exists>r. lookup (Prefix secret) = Some r \<and> kr_RevokedAt r = None \<and> verify (kr_Hash r) secret")
        case True
        then obtain r where "lookup (Prefix secret) = Some r" "kr_RevokedAt r = None" "verify (kr_Hash r) secret" by blast
        with False None show ?thesis by (intro fresh) (auto simp: Authenticate_def Let_def)
      next
        case no: False
        with False None show ?thesis
          by (intro refused) (auto simp: Authenticate_def split: option.split)
      qed
    qed
  qed
qed

lemma exec_auth_justified:
  assumes inv: "cache_justified sha verify ops a" and run: "exec_auth sha verify p a = (r, a')"
  shows "cache_justified sha verify (ops @ [p]) a' \<and> au_ttl a' = au_ttl a"
proof (cases p)
  case (Present c)
  show ?thesis
  proof (cases rule: Authenticate_cases [of sha verify "ac_lookup c" "ac_now c" "ac_now' c" "ac_secret c" a])
    case (fresh pr rec)
    let ?e = "\<lparr>en_principal = pr, en_expiresAt = ac_now' c + au_ttl a\<rparr>"
    have a': "a' = store_principal a (sha (ac_secret c)) pr (ac_now' c)" using run Present fresh(1) by simp
    have new: "justified sha verify (au_ttl a) (ops @ [Present c]) (sha (ac_secret c)) ?e"
      unfolding justified_def using fresh
      by (intro exI [of _ ops] exI [of _ c] exI [of _ "[]"]) (auto simp: checked_def)
    show ?thesis
      unfolding cache_justified_def
    proof (intro conjI allI impI)
      show "au_ttl a' = au_ttl a" by (simp add: a' store_principal_def Let_def)
      fix key e
      assume "map_of (au_cache a') key = Some e"
      then have "key = sha (ac_secret c) \<and> e = ?e \<or> map_of (au_cache a) key = Some e"
        by (auto simp: a' store_principal_def update_conv Let_def split: if_splits)
      then show "justified sha verify (au_ttl a') (ops @ [p]) key e"
        using new inv Present justified_snoc_Present \<open>au_ttl a' = au_ttl a\<close> by (auto simp: cache_justified_def)
    qed
  qed (use run Present inv justified_snoc_Present in \<open>auto simp: cache_justified_def\<close>)
next
  case (Forget s)
  then have a': "a' = Authenticator_Invalidate sha s a" using run by simp
  show ?thesis
    using inv Forget by (auto simp: a' Authenticator_Invalidate_def cache_justified_def delete_conv
        intro!: justified_snoc_Forget split: if_splits)
qed

lemma run_auth_justified:
  "run_ops (exec_auth sha verify) ops (NewAuthenticator ttl) = (rs, a) \<Longrightarrow>
    cache_justified sha verify ops a \<and> au_ttl a = au_ttl (NewAuthenticator ttl)"
proof (induction ops arbitrary: rs a rule: rev_induct)
  case Nil
  then show ?case by (auto simp: cache_justified_def NewAuthenticator_def)
next
  case (snoc p ops)
  obtain ts a1 where run: "run_ops (exec_auth sha verify) ops (NewAuthenticator ttl) = (ts, a1)" by fastforce
  obtain r where "exec_auth sha verify p a1 = (r, a)"
    using snoc.prems run by (auto simp: run_ops_append split: prod.splits)
  with exec_auth_justified [of sha verify ops a1 p r a] snoc.IH [OF run] show ?case by simp
qed



end
