(* ===== verification/Store_Config.thy ===== *)
theory Store_Config
  imports Auth
begin

text \<open>
  What an operator configures in the in-memory store: reconciliation rules
  (\<^verbatim>\<open>internal/store/memory_rules.go\<close>) and API keys (\<^verbatim>\<open>internal/store/memory.go\<close>).
\<close>

section \<open>Rules\<close>

text \<open>The order \<^verbatim>\<open>ListRules\<close> sorts by: higher priority first, then lower id.\<close>

definition ListRules :: "string \<Rightarrow> memory \<Rightarrow> Rule list outcome" where
  "ListRules tenantID m = (Inr (sort_key (\<lambda>r. (- r_Priority r, r_ID r)) (inner (m_rules m) tenantID)), m)"

definition CreateRule :: "string \<Rightarrow> Rule \<Rightarrow> memory \<Rightarrow> int outcome" where
  "CreateRule tenantID r m =
    (if r_WindowSeconds r \<le> 0
     then (Inl (ErrMessage (''store: window_seconds must be positive, got '' @ show_int (r_WindowSeconds r))), m)
     else let stored = r\<lparr>r_ID := m_nextRuleID m + 1\<rparr>;
              stored = (if r_Action stored = ActionOther '''' then stored\<lparr>r_Action := ActionAutoReverse\<rparr> else stored)
          in (Inr (r_ID stored), m\<lparr>m_nextRuleID := m_nextRuleID m + 1,
               m_rules := AList.update tenantID (inner (m_rules m) tenantID @ [stored]) (m_rules m)\<rparr>))"

fun without_rule :: "int \<Rightarrow> Rule list \<Rightarrow> Rule list option" where
  "without_rule i [] = None"
| "without_rule i (r # rs) = (if r_ID r = i then Some rs else map_option ((#) r) (without_rule i rs))"

definition DeleteRule :: "string \<Rightarrow> int \<Rightarrow> memory \<Rightarrow> unit outcome" where
  "DeleteRule tenantID i m =
    (case without_rule i (inner (m_rules m) tenantID) of
       None \<Rightarrow> (Inl ErrNotFound, m)
     | Some rs \<Rightarrow> (Inr (), m\<lparr>m_rules := AList.update tenantID rs (m_rules m)\<rparr>))"

section \<open>API keys\<close>

definition CreateAPIKey :: "string \<Rightarrow> string \<Rightarrow> Key \<Rightarrow> string list \<Rightarrow> memory \<Rightarrow> unit outcome" where
  "CreateAPIKey tenantID keyID key scopes m =
    (if map_of (m_apiKeys m) (k_Prefix key) \<noteq> None
     then (Inl (ErrMessage ''store: api key prefix already exists''), m)
     else let (env, _) = EnvironmentOf (k_Secret key)
          in (Inr (), m\<lparr>m_apiKeys := AList.update (k_Prefix key)
               \<lparr>kr_ID = keyID, kr_TenantID = tenantID, kr_Prefix = k_Prefix key, kr_Hash = k_Hash key,
                kr_Scopes = scopes, kr_Environment = env, kr_RevokedAt = None\<rparr> (m_apiKeys m)\<rparr>))"

definition APIKeyByPrefix :: "string \<Rightarrow> memory \<Rightarrow> KeyRecord outcome" where
  "APIKeyByPrefix prefix m =
    (case map_of (m_apiKeys m) prefix of None \<Rightarrow> (Inl ErrNotFound, m) | Some r \<Rightarrow> (Inr r, m))"

definition TouchAPIKey :: "string \<Rightarrow> memory \<Rightarrow> unit outcome" where
  "TouchAPIKey i m = (Inr (), m)"

fun revoke_in :: "string \<Rightarrow> string \<Rightarrow> gotime \<Rightarrow> (string \<times> KeyRecord) list \<Rightarrow> (string \<times> KeyRecord) list option" where
  "revoke_in tenantID keyID now [] = None"
| "revoke_in tenantID keyID now ((prefix, r) # ks) =
    (if kr_ID r = keyID \<and> kr_TenantID r = tenantID \<and> kr_RevokedAt r = None
     then Some ((prefix, r\<lparr>kr_RevokedAt := Some now\<rparr>) # ks)
     else map_option ((#) (prefix, r)) (revoke_in tenantID keyID now ks))"

definition RevokeAPIKey :: "string \<Rightarrow> string \<Rightarrow> gotime \<Rightarrow> memory \<Rightarrow> unit outcome" where
  "RevokeAPIKey tenantID keyID now m =
    (case revoke_in tenantID keyID now (m_apiKeys m) of
       None \<Rightarrow> (Inl ErrNotFound, m)
     | Some ks \<Rightarrow> (Inr (), m\<lparr>m_apiKeys := ks\<rparr>))"

section \<open>Properties\<close>

lemma without_rule_last: "i \<notin> r_ID ` set rs \<Longrightarrow> r_ID r = i \<Longrightarrow> without_rule i (rs @ [r]) = Some rs"
  by (induction rs) auto

lemma without_rule_None: "without_rule i rs = None \<longleftrightarrow> i \<notin> r_ID ` set rs"
  by (induction rs) auto

text \<open>
  Creating a rule and deleting it again leaves the tenant's rules as they were, in their
  order. The new rule gets an id above every one handed out, keeps the caller's matching
  fields, reverses automatically unless told otherwise, and is listed; a window that is not
  positive is refused and nothing changes.
\<close>

theorem rule_create_delete:
  assumes "\<forall>r\<in>set (inner (m_rules m) t). r_ID r \<le> m_nextRuleID m"
    and "CreateRule t r m = (res, m')"
  shows "(r_WindowSeconds r \<le> 0 \<longrightarrow> m' = m \<and> isl res) \<and>
    (\<forall>i. res = Inr i \<longrightarrow> (\<forall>q\<in>set (inner (m_rules m) t). r_ID q < i) \<and>
      (\<exists>n. n \<in> set (projr (fst (ListRules t m'))) \<and> r_ID n = i \<and> r_WindowSeconds n = r_WindowSeconds r \<and>
        0 < r_WindowSeconds n \<and> r_TransactionType n = r_TransactionType r \<and> r_Priority n = r_Priority r \<and>
        r_Action n \<noteq> ActionOther '''' \<and> (r_Action r \<noteq> ActionOther '''' \<longrightarrow> r_Action n = r_Action r)) \<and>
      fst (DeleteRule t i m') = Inr () \<and> (\<forall>a. fst (ListRules a (snd (DeleteRule t i m'))) = fst (ListRules a m)))"
proof (cases "r_WindowSeconds r \<le> 0")
  case True
  with assms(2) show ?thesis by (auto simp: CreateRule_def)
next
  case False
  define n where "n = (let s = r\<lparr>r_ID := m_nextRuleID m + 1\<rparr>
    in if r_Action s = ActionOther '''' then s\<lparr>r_Action := ActionAutoReverse\<rparr> else s)"
  have id: "r_ID n = m_nextRuleID m + 1" and fields: "r_WindowSeconds n = r_WindowSeconds r"
    "r_TransactionType n = r_TransactionType r" "r_Priority n = r_Priority r" "r_Action n \<noteq> ActionOther ''''"
    "r_Action r \<noteq> ActionOther '''' \<Longrightarrow> r_Action n = r_Action r"
    by (auto simp: n_def Let_def)
  have res: "res = Inr (m_nextRuleID m + 1)"
    and m': "m' = m\<lparr>m_nextRuleID := m_nextRuleID m + 1,
      m_rules := AList.update t (inner (m_rules m) t @ [n]) (m_rules m)\<rparr>"
    using assms(2) False id by (auto simp: CreateRule_def n_def Let_def)
  have "m_nextRuleID m + 1 \<notin> r_ID ` set (inner (m_rules m) t)" using assms(1) by force
  from without_rule_last [OF this id]
  have del: "DeleteRule t (m_nextRuleID m + 1) m' = (Inr (), m'\<lparr>m_rules := AList.update t (inner (m_rules m) t) (m_rules m')\<rparr>)"
    by (simp add: DeleteRule_def m')
  then have "\<forall>a. fst (ListRules a (snd (DeleteRule t (m_nextRuleID m + 1) m'))) = fst (ListRules a m)"
    by (simp add: ListRules_def m')
  moreover have "n \<in> set (projr (fst (ListRules t m')))" by (simp add: ListRules_def m')
  moreover have "\<forall>q\<in>set (inner (m_rules m) t). r_ID q < m_nextRuleID m + 1" using assms(1) by force
  ultimately show ?thesis using False del fields id by (auto simp: res)
qed

lemma revoke_in_Some:
  "revoke_in a i now ks = Some ks' \<Longrightarrow> distinct (map fst ks) \<Longrightarrow>
    \<exists>prefix r. map_of ks prefix = Some r \<and> kr_ID r = i \<and> kr_TenantID r = a \<and> kr_RevokedAt r = None \<and>
      map_of ks' = (map_of ks)(prefix \<mapsto> r\<lparr>kr_RevokedAt := Some now\<rparr>)"
proof (induction ks arbitrary: ks')
  case (Cons p ks)
  obtain prefix r where p: "p = (prefix, r)" by (cases p)
  show ?case
  proof (cases "kr_ID r = i \<and> kr_TenantID r = a \<and> kr_RevokedAt r = None")
    case True
    with Cons.prems p show ?thesis by (intro exI [of _ prefix] exI [of _ r]) auto
  next
    case False
    then obtain ks1 where ks1: "revoke_in a i now ks = Some ks1" "ks' = p # ks1"
      using Cons.prems(1) p by auto
    have "distinct (map fst ks)" using Cons.prems(2) by simp
    from Cons.IH [OF ks1(1) this] obtain q s where
      q: "map_of ks q = Some s" "kr_ID s = i" "kr_TenantID s = a" "kr_RevokedAt s = None"
        "map_of ks1 = (map_of ks)(q \<mapsto> s\<lparr>kr_RevokedAt := Some now\<rparr>)" by blast
    have "q \<noteq> prefix" using q(1) Cons.prems(2) p by (force dest: map_of_SomeD)
    with q ks1 p show ?thesis by (intro exI [of _ q] exI [of _ s]) auto
  qed
qed simp

text \<open>
  A revocation that succeeds revokes one live key of the caller's own tenant and touches
  no other; from then on an authenticator that does not hold the key in its cache refuses
  every secret with its prefix, and a key of another tenant or an unknown one is not found.
\<close>

theorem revoked_key_refused:
  assumes "distinct (map fst (m_apiKeys m))" "RevokeAPIKey t i now m = (Inr (), m')"
  shows "\<exists>prefix r. map_of (m_apiKeys m) prefix = Some r \<and> kr_ID r = i \<and> kr_TenantID r = t \<and> kr_RevokedAt r = None \<and>
    map_of (m_apiKeys m') = (map_of (m_apiKeys m))(prefix \<mapsto> r\<lparr>kr_RevokedAt := Some now\<rparr>) \<and>
    (\<forall>sha verify n n' secret a. Prefix secret = prefix \<and> fromCache a (sha secret) n = None \<longrightarrow>
      Authenticate sha verify (map_of (m_apiKeys m')) n n' secret a = (Inl ErrUnauthenticated, a))"
proof -
  have "revoke_in t i now (m_apiKeys m) = Some (m_apiKeys m')"
    using assms(2) by (auto simp: RevokeAPIKey_def split: option.splits)
  from revoke_in_Some [OF this assms(1)] obtain prefix r where
    r: "map_of (m_apiKeys m) prefix = Some r" "kr_ID r = i" "kr_TenantID r = t" "kr_RevokedAt r = None"
      "map_of (m_apiKeys m') = (map_of (m_apiKeys m))(prefix \<mapsto> r\<lparr>kr_RevokedAt := Some now\<rparr>)" by blast
  have "Authenticate sha verify (map_of (m_apiKeys m')) n n' secret a = (Inl ErrUnauthenticated, a)"
    if "Prefix secret = prefix" "fromCache a (sha secret) n = None" for sha verify n n' secret a
    using that r(5) by (simp add: Authenticate_def)
  with r show ?thesis by blast
qed

definition sample_rule :: Rule where
  "sample_rule = \<lparr>r_ID = 0, r_TransactionType = '''', r_Provider = '''', r_Currency = '''', r_MinAmountMinor = None,
    r_MaxAmountMinor = None, r_WindowSeconds = 60, r_Action = ActionOther '''', r_Priority = 0, r_Enabled = True\<rparr>"

theorem rule_create_delete_witness:
  "let (res, m') = CreateRule ''t'' sample_rule NewMemory
   in res = Inr 1 \<and> fst (DeleteRule ''t'' 1 m') = Inr () \<and>
     fst (ListRules ''t'' (snd (DeleteRule ''t'' 1 m'))) = fst (ListRules ''t'' NewMemory)"
proof -
  obtain res m' where run: "CreateRule ''t'' sample_rule NewMemory = (res, m')" by fastforce
  then have res: "res = Inr 1" by (auto simp: CreateRule_def sample_rule_def NewMemory_def Let_def)
  have "\<forall>r\<in>set (inner (m_rules NewMemory) ''t''). r_ID r \<le> m_nextRuleID NewMemory" by (simp add: NewMemory_def)
  from rule_create_delete [OF this run] res run show ?thesis by (simp add: Let_def)
qed

theorem revoked_key_refused_witness:
  "let m = snd (CreateAPIKey ''t'' ''id'' \<lparr>k_Secret = ''rs_live_abc'', k_Prefix = ''rs_live_abc'', k_Hash = ''h''\<rparr> [] NewMemory);
       (res, m') = RevokeAPIKey ''t'' ''id'' 7 m
   in res = Inr () \<and> fst (RevokeAPIKey ''t'' ''id'' 8 m') = Inl ErrNotFound \<and>
     (\<exists>prefix r. map_of (m_apiKeys m) prefix = Some r \<and> kr_Environment r = ''live'' \<and>
       map_of (m_apiKeys m') prefix = Some (r\<lparr>kr_RevokedAt := Some 7\<rparr>))"
proof -
  let ?m = "snd (CreateAPIKey ''t'' ''id'' \<lparr>k_Secret = ''rs_live_abc'', k_Prefix = ''rs_live_abc'', k_Hash = ''h''\<rparr> [] NewMemory)"
  let ?r = "\<lparr>kr_ID = ''id'', kr_TenantID = ''t'', kr_Prefix = ''rs_live_abc'', kr_Hash = ''h'', kr_Scopes = [],
    kr_Environment = ''live'', kr_RevokedAt = None\<rparr>"
  have "EnvironmentOf ''rs_live_abc'' = (''live'', True)" by code_simp
  then have keys: "m_apiKeys ?m = [(''rs_live_abc'', ?r)]"
    by (simp add: CreateAPIKey_def NewMemory_def)
  obtain m' where run: "RevokeAPIKey ''t'' ''id'' 7 ?m = (Inr (), m')"
    and keys': "m_apiKeys m' = [(''rs_live_abc'', ?r\<lparr>kr_RevokedAt := Some 7\<rparr>)]"
    by (simp add: RevokeAPIKey_def keys)
  have "distinct (map fst (m_apiKeys ?m))" by (simp add: keys)
  from revoked_key_refused [OF this run] obtain prefix r where
    "map_of (m_apiKeys ?m) prefix = Some r" "map_of (m_apiKeys m') prefix = Some (r\<lparr>kr_RevokedAt := Some 7\<rparr>)"
    by auto
  moreover from this(1) have "kr_Environment r = ''live''" by (auto simp: keys split: if_splits)
  moreover have "fst (RevokeAPIKey ''t'' ''id'' 8 m') = Inl ErrNotFound" by (simp add: RevokeAPIKey_def keys')
  ultimately show ?thesis using run unfolding Let_def by auto
qed

end
