(* ===== verification/Store_System.thy ===== *)
theory Store_System
  imports Store_Health Store_Claims Store_Webhooks Checkpointer Store_Config
begin

text \<open>
  The store as one system: every operation that changes state, in any order and for any
  tenants, as the steps of one relation, with what holds over all of its histories.
\<close>

section \<open>Steps\<close>

datatype store_op =
    Op_EnsureTenant string
  | Op_UpsertDebits string "transaction list" gotime
  | Op_ApplyCredit string string status gotime gotime
  | Op_ApplyPartialCredit string CreditEvent gotime
  | Op_MarkSettled string string gotime gotime
  | Op_MarkUncertain string string gotime gotime
  | Op_MarkReversalPending string string gotime gotime
  | Op_MarkReversalCompleted string string gotime gotime
  | Op_MarkReversalFailed string string gotime gotime
  | Op_ParkCredit string CreditEvent
  | Op_DeleteParkedCredit string string
  | Op_ClaimExpired gotime int "string list"
  | Op_ClaimSLAAtRisk gotime duration duration int
  | Op_RecordIngestHealth "IngestSample list"
  | Op_SyncSilence "string list" gotime
  | Op_Claim claim_op
  | Op_Queue queue_op
  | Op_Append digest string Record gotime gotime
  | Op_SaveCheckpoint Checkpoint
  | Op_CreateRule string Rule
  | Op_DeleteRule string int
  | Op_CreateAPIKey string string Key "string list"
  | Op_RevokeAPIKey string string gotime

fun exec_store :: "store_op \<Rightarrow> memory \<Rightarrow> memory" where
  "exec_store (Op_EnsureTenant a) m = snd (EnsureTenant a m)"
| "exec_store (Op_UpsertDebits a txns now) m = snd (UpsertDebits a txns now m)"
| "exec_store (Op_ApplyCredit a b target at now) m = snd (ApplyCredit a b target at now m)"
| "exec_store (Op_ApplyPartialCredit a c now) m = snd (ApplyPartialCredit a c now m)"
| "exec_store (Op_MarkSettled a b at now) m = snd (MarkSettled a b at now m)"
| "exec_store (Op_MarkUncertain a b at now) m = snd (MarkUncertain a b at now m)"
| "exec_store (Op_MarkReversalPending a b at now) m = snd (MarkReversalPending a b at now m)"
| "exec_store (Op_MarkReversalCompleted a b at now) m = snd (MarkReversalCompleted a b at now m)"
| "exec_store (Op_MarkReversalFailed a b at now) m = snd (MarkReversalFailed a b at now m)"
| "exec_store (Op_ParkCredit a c) m = snd (ParkCredit a c m)"
| "exec_store (Op_DeleteParkedCredit a b) m = snd (DeleteParkedCredit a b m)"
| "exec_store (Op_ClaimExpired now limit skip) m = snd (ClaimExpired now limit skip m)"
| "exec_store (Op_ClaimSLAAtRisk now d w limit) m = snd (ClaimSLAAtRisk now d w limit m)"
| "exec_store (Op_RecordIngestHealth ss) m = snd (RecordIngestHealth ss m)"
| "exec_store (Op_SyncSilence silent now) m = snd (SyncSilenceEpisodes silent now m)"
| "exec_store (Op_Claim p) m = snd (exec_claim p m)"
| "exec_store (Op_Queue p) m = snd (exec_queue p m)"
| "exec_store (Op_Append d a r now now') m = snd (AppendAudit d a r now now' m)"
| "exec_store (Op_SaveCheckpoint c) m = snd (SaveCheckpoint c m)"
| "exec_store (Op_CreateRule a r) m = snd (CreateRule a r m)"
| "exec_store (Op_DeleteRule a i) m = snd (DeleteRule a i m)"
| "exec_store (Op_CreateAPIKey a i k scopes) m = snd (CreateAPIKey a i k scopes m)"
| "exec_store (Op_RevokeAPIKey a i now) m = snd (RevokeAPIKey a i now m)"

inductive store_step :: "memory \<Rightarrow> memory \<Rightarrow> bool" where
  "store_step m (exec_store p m)"

inductive_simps store_step_iff: "store_step m m'"

inductive reachable :: "memory \<Rightarrow> bool" where
  start: "reachable NewMemory"
| step: "reachable m \<Longrightarrow> store_step m m' \<Longrightarrow> reachable m'"

section \<open>What the other parts leave alone\<close>

definition same_rows :: "memory \<Rightarrow> memory \<Rightarrow> bool" where
  "same_rows m m' \<longleftrightarrow> m_byTenant m' = m_byTenant m \<and> m_idem m' = m_idem m \<and> m_nextID m' = m_nextID m"

lemma same_rows_in_place: "same_rows m m' \<Longrightarrow> in_place m m'"
  by (simp add: same_rows_def in_placeI_same)

lemma EnsureTenant_rows: "same_rows m (snd (EnsureTenant a m))"
  by (simp add: same_rows_def EnsureTenant_def)

lemma RecordIngestHealth_rows: "same_rows m (snd (RecordIngestHealth ss m))"
  by (simp add: same_rows_def RecordIngestHealth_def)

lemma open_episodes_rows: "same_rows m (snd (open_episodes xs now m ops))"
proof (induction xs arbitrary: m ops)
  case (Cons a xs)
  show ?case
  proof (cases "map_of (m_silence m) a")
    case None
    then show ?thesis
      using Cons.IH [of "m\<lparr>m_silence := AList.update a (silentSinceLocked m a now) (m_silence m)\<rparr>"]
      by (simp add: Let_def same_rows_def)
  qed (use Cons.IH in simp)
qed (simp add: same_rows_def)

lemma SyncSilence_rows: "same_rows m (snd (SyncSilenceEpisodes silent now m))"
  using open_episodes_rows [of m silent now "[]"]
  by (simp add: SyncSilenceEpisodes_def same_rows_def Let_def split_beta)

lemma claim_rows: "same_rows m (snd (exec_claim p m))"
  by (cases p) (auto simp: same_rows_def ClaimReversal_def ReleaseReversalClaim_def ConfirmReversalClaim_def
      GetReversalClaim_def Let_def split: option.splits if_splits)

lemma with_endpoint_rows:
  "(\<And>ep. same_rows m (f ep m)) \<Longrightarrow> same_rows m (snd (with_endpoint a i f m))"
  by (auto simp: with_endpoint_def same_rows_def split: option.splits)

lemma queue_rows: "same_rows m (snd (exec_queue p m))"
proof (cases p)
  case (Claim_Due now lease limit)
  then show ?thesis by (simp add: ClaimDueDeliveries_eq same_rows_def)
qed (auto simp: same_rows_def CreateEndpoint_def SetEndpointEnabled_def SetEndpointSecretRef_def DeleteEndpoint_def
    with_endpoint_def EnqueueDelivery_def RecordDeliveryOutcome_def ReplayDelivery_def Let_def split: option.splits)

lemma AppendAudit_rows: "same_rows m (snd (AppendAudit d a r now now' m))"
  by (cases rule: AppendAudit_cases [of d a r now now' m]) (auto simp: same_rows_def)

lemma SaveCheckpoint_rows: "same_rows m (snd (SaveCheckpoint c m))"
  by (simp add: SaveCheckpoint_def same_rows_def Let_def)

lemma CreateRule_rows: "same_rows m (snd (CreateRule a r m))"
  by (simp add: CreateRule_def same_rows_def Let_def)

lemma DeleteRule_rows: "same_rows m (snd (DeleteRule a i m))"
  by (simp add: DeleteRule_def same_rows_def split: option.split)

lemma CreateAPIKey_rows: "same_rows m (snd (CreateAPIKey a i k scopes m))"
  by (simp add: CreateAPIKey_def same_rows_def split_beta)

lemma RevokeAPIKey_rows: "same_rows m (snd (RevokeAPIKey a i now m))"
  by (simp add: RevokeAPIKey_def same_rows_def split: option.split)

lemmas other_rows = EnsureTenant_rows RecordIngestHealth_rows SyncSilence_rows claim_rows queue_rows
  AppendAudit_rows SaveCheckpoint_rows CreateRule_rows DeleteRule_rows CreateAPIKey_rows RevokeAPIKey_rows

lemmas in_place_ops = ApplyCredit_in_place ApplyPartialCredit_in_place markReversal_in_place ParkCredit_in_place
  DeleteParkedCredit_in_place ClaimExpired_in_place ClaimSLAAtRisk_in_place other_rows [THEN same_rows_in_place]

section \<open>Every step keeps the invariant\<close>

lemma exec_in_place: "(\<And>a txns now. p \<noteq> Op_UpsertDebits a txns now) \<Longrightarrow> in_place m (exec_store p m)"
  by (cases p) (auto simp: MarkSettled_def MarkUncertain_def MarkReversalPending_def
      MarkReversalCompleted_def MarkReversalFailed_def intro: in_place_ops)

lemma exec_store_ok: "store_ok m \<Longrightarrow> store_ok (exec_store p m)"
proof (cases "\<exists>a txns now. p = Op_UpsertDebits a txns now")
  case True
  then show "store_ok m \<Longrightarrow> ?thesis" by (auto intro: UpsertDebits_store_ok)
next
  case False
  then show "store_ok m \<Longrightarrow> ?thesis" using exec_in_place store_ok_in_place by blast
qed

lemma UpsertDebits_keeps: "stored m a' b = Some t \<Longrightarrow> stored (snd (UpsertDebits a txns now m)) a' b = Some t"
  by (cases "\<forall>t\<in>set txns. tx_TenantID t = a") (simp_all add: UpsertDebits_ok UpsertDebits_mismatch upsert_keeps)

lemma UpsertDebits_new:
  assumes "stored m a' b = None" "stored (snd (UpsertDebits a txns now m)) a' b = Some t"
  shows "tx_Status t = StatusPendingDebit"
proof (cases "\<forall>t\<in>set txns. tx_TenantID t = a")
  case True
  with assms upsert_new [of a now txns "with_tenant a m" "\<lparr>Inserted = [], Duplicates = []\<rparr>" a' b t]
  have "\<exists>u. t = stamped (tx_ID t) now u" by (auto simp: UpsertDebits_ok)
  then obtain u where "t = stamped (tx_ID t) now u" ..
  then have "tx_Status t = tx_Status (stamped (tx_ID t) now u)" by simp
  then show ?thesis by (simp add: stamped_def)
next
  case False
  with assms show ?thesis by (simp add: UpsertDebits_mismatch)
qed

lemma exec_evolves:
  assumes "store_ok m" "stored m a b = Some s"
  shows "\<exists>t. stored (exec_store p m) a b = Some t \<and> evolves s t"
proof (cases "\<exists>a txns now. p = Op_UpsertDebits a txns now")
  case True
  with assms(2) show ?thesis by (auto intro!: UpsertDebits_keeps)
next
  case False
  then have "in_place m (exec_store p m)" using exec_in_place by blast
  with assms(1) have "rel_option evolves (stored m a b) (stored (exec_store p m) a b)"
    by (simp add: in_place_def)
  with assms(2) show ?thesis by (auto simp: option_rel_Some1)
qed

lemma exec_new:
  assumes "store_ok m" "stored m a b = None" "stored (exec_store p m) a b = Some t"
  shows "tx_Status t = StatusPendingDebit"
proof (cases "\<exists>a txns now. p = Op_UpsertDebits a txns now")
  case True
  with assms show ?thesis by (auto intro: UpsertDebits_new)
next
  case False
  then have "in_place m (exec_store p m)" using exec_in_place by blast
  with assms(1) have "rel_option evolves (stored m a b) (stored (exec_store p m) a b)"
    by (simp add: in_place_def)
  with assms(2,3) show ?thesis by simp
qed

section \<open>Every history\<close>

text \<open>The state after a sequence of operations.\<close>

fun exec_all :: "store_op list \<Rightarrow> memory \<Rightarrow> memory" where
  "exec_all [] m = m"
| "exec_all (p # ps) m = exec_all ps (exec_store p m)"

lemma reachable_store_ok: "reachable m \<Longrightarrow> store_ok m"
proof (induction rule: reachable.induct)
  case start
  show ?case by (rule store_okI) (simp_all add: NewMemory_def)
next
  case (step m m')
  then show ?case by (auto simp: store_step_iff intro: exec_store_ok)
qed

lemma reachable_exec_all: "reachable m \<Longrightarrow> reachable (exec_all ps m)"
  by (induction ps arbitrary: m) (auto intro: reachable.step store_step.intros)

lemma same_identity_refl [simp]: "same_identity t t"
  by (simp add: same_identity_def)

lemma exec_all_evolves:
  assumes "store_ok m" "stored m a b = Some s"
  shows "\<exists>t. stored (exec_all ps m) a b = Some t \<and> same_identity s t \<and>
    CanTransition\<^sup>*\<^sup>* (tx_Status s) (tx_Status t)"
  using assms
proof (induction ps arbitrary: m s)
  case (Cons p ps)
  obtain u where u: "stored (exec_store p m) a b = Some u" "evolves s u"
    using exec_evolves [OF Cons.prems] by blast
  from Cons.IH [OF exec_store_ok [OF Cons.prems(1)] u(1)] obtain t where
    t: "stored (exec_all ps (exec_store p m)) a b = Some t" "same_identity u t"
      "CanTransition\<^sup>*\<^sup>* (tx_Status u) (tx_Status t)" by blast
  have "CanTransition\<^sup>*\<^sup>* (tx_Status s) (tx_Status u)" using u(2) by (auto simp: evolves_def)
  with t u(2) show ?case by (auto simp: evolves_def intro: same_identity_trans)
qed simp

lemma terminal_stays: "CanTransition\<^sup>*\<^sup>* s t \<Longrightarrow> IsTerminal s \<Longrightarrow> t = s"
  by (induction rule: converse_rtranclp_induct) (auto simp: IsTerminal_iff)

lemma dispatched_never_settles:
  "CanTransition\<^sup>*\<^sup>* s t \<Longrightarrow> s \<in> {StatusReversalPending, StatusReversalFailed, StatusReversalCompleted} \<Longrightarrow>
    t \<in> {StatusReversalPending, StatusReversalFailed, StatusReversalCompleted}"
  by (induction rule: rtranclp_induct) auto

text \<open>
  C1. The store refines the state machine. From any reachable state, whatever operations
  follow, a stored transaction is never lost or replaced: the facts of its debit (ids,
  amount, currency, times, expected credit, metadata) never change, and its status only
  moves along legal transitions. So a settled transaction stays settled, a reversed one
  reversed, and once a reversal has been dispatched the transaction can no longer settle.
\<close>

theorem store_refines_machine:
  assumes "reachable m" "stored m a b = Some s"
  shows "\<exists>t. stored (exec_all ps m) a b = Some t \<and> same_identity s t \<and>
    CanTransition\<^sup>*\<^sup>* (tx_Status s) (tx_Status t) \<and>
    (IsTerminal (tx_Status s) \<longrightarrow> tx_Status t = tx_Status s) \<and>
    (tx_Status s \<in> {StatusReversalPending, StatusReversalFailed, StatusReversalCompleted} \<longrightarrow>
      tx_Status t \<noteq> StatusCompleted)"
proof -
  from exec_all_evolves [OF reachable_store_ok [OF assms(1)] assms(2), of ps] obtain t where
    t: "stored (exec_all ps m) a b = Some t" "same_identity s t" "CanTransition\<^sup>*\<^sup>* (tx_Status s) (tx_Status t)"
    by blast
  with terminal_stays [OF t(3)] dispatched_never_settles [OF t(3)] show ?thesis by auto
qed

definition sample_debit :: transaction where
  "sample_debit = tx_zero\<lparr>tx_TenantID := ''t'', tx_TransactionID := ''x'', tx_IdempotencyKey := ''k'',
    tx_AmountMinor := 100\<rparr>"

theorem store_refines_machine_witness:
  "let m = exec_all [Op_UpsertDebits ''t'' [sample_debit] 1, Op_ApplyCredit ''t'' ''x'' StatusCompleted 2 3] NewMemory
   in \<exists>s t. stored m ''t'' ''x'' = Some s \<and> tx_Status s = StatusCompleted \<and>
     stored (exec_all [Op_ClaimExpired 99 0 [], Op_MarkReversalPending ''t'' ''x'' 100 100] m) ''t'' ''x'' = Some t \<and>
     tx_Status t = StatusCompleted"
proof -
  let ?ops = "[Op_UpsertDebits ''t'' [sample_debit] 1, Op_ApplyCredit ''t'' ''x'' StatusCompleted 2 3]"
  let ?m = "exec_all ?ops NewMemory"
  have r: "reachable ?m" by (rule reachable_exec_all [OF start])
  have "map_option tx_Status (stored ?m ''t'' ''x'') = Some StatusCompleted" by code_simp
  then obtain s where s: "stored ?m ''t'' ''x'' = Some s" "tx_Status s = StatusCompleted" by auto
  from store_refines_machine [OF r s(1), of "[Op_ClaimExpired 99 0 [], Op_MarkReversalPending ''t'' ''x'' 100 100]"] s
  show ?thesis by (auto simp: Let_def IsTerminal_iff)
qed

text \<open>
  C2. In every reachable state the rows are well kept: each sits under its own tenant and
  id, no two rows share a row id, and within a tenant no two share an idempotency key; and
  a row that appears in a step is a new debit, pending and unsettled.
\<close>

theorem reachable_rows_ok:
  assumes "reachable m" "stored m a b = Some t"
  shows "tx_TenantID t = a \<and> tx_TransactionID t = b \<and>
    (\<forall>a' b' t'. stored m a' b' = Some t' \<and> tx_ID t' = tx_ID t \<longrightarrow> a' = a \<and> b' = b \<and> t' = t) \<and>
    (\<forall>b' t'. stored m a b' = Some t' \<and> tx_IdempotencyKey t' = tx_IdempotencyKey t \<longrightarrow> b' = b) \<and>
    (\<forall>p a' b' t'. stored m a' b' = None \<and> stored (exec_store p m) a' b' = Some t' \<longrightarrow>
      tx_Status t' = StatusPendingDebit \<and> (\<exists>txns now. p = Op_UpsertDebits a' txns now))"
proof -
  note ok = reachable_store_ok [OF assms(1)]
  have "\<exists>txns now. p = Op_UpsertDebits a' txns now"
    if n: "stored m a' b' = None" "stored (exec_store p m) a' b' = Some t'" for p a' b' t'
  proof (cases "\<exists>a txns now. p = Op_UpsertDebits a txns now")
    case True
    then obtain a1 txns now where p: "p = Op_UpsertDebits a1 txns now" by blast
    have "a' = a1"
    proof (cases "\<forall>t\<in>set txns. tx_TenantID t = a1")
      case True
      with n p upsert_new [of a1 now txns "with_tenant a1 m" "\<lparr>Inserted = [], Duplicates = []\<rparr>" a' b' t']
      show ?thesis by (simp add: UpsertDebits_ok)
    next
      case False
      with n p show ?thesis by (simp add: UpsertDebits_mismatch)
    qed
    with p show ?thesis by blast
  next
    case False
    then have "in_place m (exec_store p m)" using exec_in_place by blast
    with ok have "rel_option evolves (stored m a' b') (stored (exec_store p m) a' b')"
      by (simp add: in_place_def)
    with n show ?thesis by simp
  qed
  then show ?thesis
    using store_ok_row [OF ok assms(2)] store_ok_id [OF ok _ assms(2)] store_ok_key [OF ok _ assms(2)] exec_new [OF ok] assms(2)
    by (metis option.inject)
qed

theorem reachable_rows_ok_witness:
  "let m = exec_all [Op_UpsertDebits ''t'' [sample_debit] 1] NewMemory
   in \<exists>t. stored m ''t'' ''x'' = Some t \<and> tx_TenantID t = ''t'' \<and> tx_TransactionID t = ''x''"
proof -
  let ?m = "exec_all [Op_UpsertDebits ''t'' [sample_debit] 1] NewMemory"
  have r: "reachable ?m" by (rule reachable_exec_all [OF start])
  have "stored ?m ''t'' ''x'' \<noteq> None" by code_simp
  then obtain t where t: "stored ?m ''t'' ''x'' = Some t" by blast
  have "tx_TenantID t = ''t'' \<and> tx_TransactionID t = ''x''"
    using reachable_rows_ok [OF r t] by (elim conjE) (intro conjI)
  with t show ?thesis unfolding Let_def by blast
qed

section \<open>Tenants are kept apart\<close>

fun claim_tenant :: "claim_op \<Rightarrow> string" where
  "claim_tenant (Claim a b by token now) = a"
| "claim_tenant (Release a b) = a"
| "claim_tenant (Confirm a b at) = a"
| "claim_tenant (Look a b) = a"

fun queue_tenant :: "queue_op \<Rightarrow> string option" where
  "queue_tenant (Create_Endpoint a ep) = Some a"
| "queue_tenant (Set_Enabled a i b) = Some a"
| "queue_tenant (Set_Secret a i r) = Some a"
| "queue_tenant (Delete_Endpoint a i) = Some a"
| "queue_tenant (Enqueue a d now) = Some a"
| "queue_tenant (Claim_Due now lease limit) = None"
| "queue_tenant (Outcome i out) = None"
| "queue_tenant (Replay a i now) = Some a"

text \<open>The tenant a call is made for; the sweeps and the delivery worker act for all of them.\<close>

fun op_tenant :: "store_op \<Rightarrow> string option" where
  "op_tenant (Op_EnsureTenant a) = Some a"
| "op_tenant (Op_UpsertDebits a txns now) = Some a"
| "op_tenant (Op_ApplyCredit a b target at now) = Some a"
| "op_tenant (Op_ApplyPartialCredit a c now) = Some a"
| "op_tenant (Op_MarkSettled a b at now) = Some a"
| "op_tenant (Op_MarkUncertain a b at now) = Some a"
| "op_tenant (Op_MarkReversalPending a b at now) = Some a"
| "op_tenant (Op_MarkReversalCompleted a b at now) = Some a"
| "op_tenant (Op_MarkReversalFailed a b at now) = Some a"
| "op_tenant (Op_ParkCredit a c) = Some a"
| "op_tenant (Op_DeleteParkedCredit a b) = Some a"
| "op_tenant (Op_ClaimExpired now limit skip) = None"
| "op_tenant (Op_ClaimSLAAtRisk now d w limit) = None"
| "op_tenant (Op_RecordIngestHealth ss) = None"
| "op_tenant (Op_SyncSilence silent now) = None"
| "op_tenant (Op_Claim p) = Some (claim_tenant p)"
| "op_tenant (Op_Queue p) = queue_tenant p"
| "op_tenant (Op_Append d a r now now') = Some a"
| "op_tenant (Op_SaveCheckpoint c) = Some (cp_TenantID c)"
| "op_tenant (Op_CreateRule a r) = Some a"
| "op_tenant (Op_DeleteRule a i) = Some a"
| "op_tenant (Op_CreateAPIKey a i k scopes) = Some a"
| "op_tenant (Op_RevokeAPIKey a i now) = Some a"

text \<open>Everything the store holds of one tenant.\<close>

definition only :: "('a \<Rightarrow> bool) \<Rightarrow> 'a option \<Rightarrow> 'a option" where
  "only P x = (case x of Some y \<Rightarrow> if P y then Some y else None | None \<Rightarrow> None)"

definition same_tenant :: "string \<Rightarrow> memory \<Rightarrow> memory \<Rightarrow> bool" where
  "same_tenant b m m' \<longleftrightarrow>
    (\<forall>i. stored m' b i = stored m b i) \<and>
    (\<forall>i. get2 (m_parked m') b i = get2 (m_parked m) b i) \<and>
    set (inner (m_applied m') b) = set (inner (m_applied m) b) \<and>
    (\<forall>i. map_of (m_claims m') (b, i) = map_of (m_claims m) (b, i)) \<and>
    (\<forall>i. only (\<lambda>ep. ep_TenantID ep = b) (map_of (m_endpoints m') i) =
         only (\<lambda>ep. ep_TenantID ep = b) (map_of (m_endpoints m) i)) \<and>
    (\<forall>i. only (\<lambda>d. dr_TenantID d = b) (map_of (m_deliveries m') i) =
         only (\<lambda>d. dr_TenantID d = b) (map_of (m_deliveries m) i)) \<and>
    chain_of m' b = chain_of m b \<and> saved_of m' b = saved_of m b \<and> inner (m_rules m') b = inner (m_rules m) b \<and>
    (\<forall>i. only (\<lambda>k. kr_TenantID k = b) (map_of (m_apiKeys m') i) =
         only (\<lambda>k. kr_TenantID k = b) (map_of (m_apiKeys m) i))"

lemma same_tenant_refl [simp]: "same_tenant b m m"
  by (simp add: same_tenant_def)

lemma upsert_other:
  "m_parked (fst (upsert_loop a now txns m res)) = m_parked m \<and>
   m_applied (fst (upsert_loop a now txns m res)) = m_applied m \<and>
   m_claims (fst (upsert_loop a now txns m res)) = m_claims m \<and>
   m_endpoints (fst (upsert_loop a now txns m res)) = m_endpoints m \<and>
   m_deliveries (fst (upsert_loop a now txns m res)) = m_deliveries m \<and>
   m_nextDeliveryID (fst (upsert_loop a now txns m res)) = m_nextDeliveryID m \<and>
   m_audit (fst (upsert_loop a now txns m res)) = m_audit m \<and>
   m_checkpoints (fst (upsert_loop a now txns m res)) = m_checkpoints m \<and>
   m_rules (fst (upsert_loop a now txns m res)) = m_rules m \<and>
   m_apiKeys (fst (upsert_loop a now txns m res)) = m_apiKeys m"
  by (induction txns arbitrary: m res) (simp_all add: upsert_loop_Cons insert_debit_def)

lemma UpsertDebits_same_tenant:
  assumes "a \<noteq> b"
  shows "same_tenant b m (snd (UpsertDebits a txns now m))"
proof (cases "\<forall>t\<in>set txns. tx_TenantID t = a")
  case True
  let ?r = "\<lparr>Inserted = [], Duplicates = []\<rparr>" and ?m = "with_tenant a m"
  have "stored (fst (upsert_loop a now txns ?m ?r)) b i = stored m b i" for i
  proof (cases "stored m b i")
    case None
    then have "stored (fst (upsert_loop a now txns ?m ?r)) b i \<noteq> Some t" for t
      using upsert_new [of a now txns ?m ?r b i t] assms by auto
    with None show ?thesis by (cases "stored (fst (upsert_loop a now txns ?m ?r)) b i") auto
  next
    case (Some t)
    then show ?thesis using upsert_keeps [of ?m b i t] by simp
  qed
  then show ?thesis
    using True upsert_other [of a now txns ?m ?r]
    by (simp add: UpsertDebits_ok same_tenant_def with_tenant_def)
qed (simp add: UpsertDebits_mismatch)

lemma ApplyCredit_same_tenant: "a \<noteq> b \<Longrightarrow> same_tenant b m (snd (ApplyCredit a i target at now m))"
  by (cases "stored m a i"; cases "CanTransition (tx_Status (the (stored m a i))) target")
    (simp_all add: store_simps same_tenant_def get2_put2)

lemma markReversal_same_tenant: "a \<noteq> b \<Longrightarrow> same_tenant b m (snd (markReversal a i target at now m))"
  by (cases "stored m a i"; cases "CanTransition (tx_Status (the (stored m a i))) target")
    (simp_all add: store_simps same_tenant_def get2_put2)

lemma ApplyPartialCredit_same_tenant:
  assumes "a \<noteq> b"
  shows "same_tenant b m (snd (ApplyPartialCredit a c now m))"
proof (cases "stored m a (ce_TransactionID c)")
  case (Some s)
  have note_other: "m_claims (note_key a c m) = m_claims m" "m_endpoints (note_key a c m) = m_endpoints m"
    "m_deliveries (note_key a c m) = m_deliveries m" "m_audit (note_key a c m) = m_audit m"
    "m_checkpoints (note_key a c m) = m_checkpoints m" "m_rules (note_key a c m) = m_rules m"
    "m_apiKeys (note_key a c m) = m_apiKeys m"
    by (simp_all add: note_key_def)
  show ?thesis
  proof (cases "IsOpen (tx_Status s)")
    case True
    then show ?thesis
      using Some assms
      by (cases "ce_IdempotencyKey c \<in> set (inner (m_applied m) a)")
        (simp_all add: ApplyPartialCredit_replay ApplyPartialCredit_fresh same_tenant_def get2_put2 note_other)
  qed (use Some in \<open>simp add: ApplyPartialCredit_closed\<close>)
qed (simp add: ApplyPartialCredit_missing)

lemma claim_same_tenant: "claim_tenant p \<noteq> b \<Longrightarrow> same_tenant b m (snd (exec_claim p m))"
  by (cases p) (auto simp: claim_ops same_tenant_def Let_def split: option.splits if_splits)

lemma queue_same_tenant:
  assumes "queue_ok m" "queue_tenant p = Some a" "a \<noteq> b"
  shows "same_tenant b m (snd (exec_queue p m))"
proof (cases p)
  case (Enqueue a' d now)
  have "map_of (m_deliveries m) (m_nextDeliveryID m + 1) = None"
    using queue_okD [OF assms(1)] by (cases "map_of (m_deliveries m) (m_nextDeliveryID m + 1)") force+
  with Enqueue assms(2,3) show ?thesis
    by (auto simp: EnqueueDelivery_def same_tenant_def only_def update_conv Let_def)
qed (use assms(2,3) in \<open>auto simp: same_tenant_def CreateEndpoint_def SetEndpointEnabled_def
      SetEndpointSecretRef_def DeleteEndpoint_def with_endpoint_def ReplayDelivery_def only_def update_conv delete_conv
      split: option.splits\<close>)

lemma AppendAudit_same_tenant: "a \<noteq> b \<Longrightarrow> same_tenant b m (snd (AppendAudit d a r now now' m))"
  by (cases rule: AppendAudit_cases [of d a r now now' m]) (auto simp: same_tenant_def)

lemma SaveCheckpoint_same_tenant: "cp_TenantID c \<noteq> b \<Longrightarrow> same_tenant b m (snd (SaveCheckpoint c m))"
  by (simp add: SaveCheckpoint_def same_tenant_def Let_def)

lemma RevokeAPIKey_same_tenant:
  assumes "distinct (map fst (m_apiKeys m))" "a \<noteq> b"
  shows "same_tenant b m (snd (RevokeAPIKey a i now m))"
proof (cases "revoke_in a i now (m_apiKeys m)")
  case (Some ks)
  from revoke_in_Some [OF Some assms(1)] obtain prefix r where
    "map_of (m_apiKeys m) prefix = Some r" "kr_TenantID r = a"
    "map_of ks = (map_of (m_apiKeys m))(prefix \<mapsto> r\<lparr>kr_RevokedAt := Some now\<rparr>)" by blast
  with Some assms(2) show ?thesis by (simp add: RevokeAPIKey_def same_tenant_def only_def)
qed (simp add: RevokeAPIKey_def)

lemma CreateAPIKey_same_tenant: "a \<noteq> b \<Longrightarrow> same_tenant b m (snd (CreateAPIKey a i k scopes m))"
  by (auto simp: CreateAPIKey_def same_tenant_def only_def update_conv split_beta)

lemma revoke_in_keys: "revoke_in a i now ks = Some ks' \<Longrightarrow> map fst ks' = map fst ks"
  by (induction ks arbitrary: ks') (auto split: if_splits)

lemma queue_untouched:
  assumes "\<And>q. p \<noteq> Op_Queue q"
  shows "m_deliveries (exec_store p m) = m_deliveries m \<and> m_nextDeliveryID (exec_store p m) = m_nextDeliveryID m"
proof (cases p)
  case (Op_UpsertDebits a txns now)
  then show ?thesis
    by (cases "\<forall>t\<in>set txns. tx_TenantID t = a")
      (simp_all add: UpsertDebits_ok UpsertDebits_mismatch upsert_other with_tenant_def)
next
  case (Op_SyncSilence silent now)
  have "m_deliveries (snd (open_episodes xs now m ops)) = m_deliveries m \<and>
      m_nextDeliveryID (snd (open_episodes xs now m ops)) = m_nextDeliveryID m" for xs ops m
    by (induction xs arbitrary: m ops) (auto simp: Let_def)
  with Op_SyncSilence show ?thesis by (simp add: SyncSilenceEpisodes_def Let_def split_beta)
next
  case (Op_Claim q)
  then show ?thesis by (cases q) (auto simp: claim_ops Let_def split: option.splits)
next
  case (Op_Append d a r now now')
  then show ?thesis by (cases rule: AppendAudit_cases [of d a r now now' m]) auto
next
  case (Op_ApplyPartialCredit a c now)
  then show ?thesis
    by (auto simp: ApplyPartialCredit_def Let_def split: option.splits)
qed (use assms in \<open>auto simp: EnsureTenant_def ApplyCredit_def MarkSettled_def MarkUncertain_def MarkReversalPending_def
      MarkReversalCompleted_def MarkReversalFailed_def markReversal_def ParkCredit_def DeleteParkedCredit_def
      ClaimExpired_def ClaimSLAAtRisk_def RecordIngestHealth_def SaveCheckpoint_def CreateRule_def DeleteRule_def
      CreateAPIKey_def RevokeAPIKey_def Let_def split: option.splits prod.splits\<close>)

lemma keys_untouched:
  assumes "\<And>a i k scopes. p \<noteq> Op_CreateAPIKey a i k scopes" "\<And>a i now. p \<noteq> Op_RevokeAPIKey a i now"
  shows "m_apiKeys (exec_store p m) = m_apiKeys m"
proof (cases p)
  case (Op_UpsertDebits a txns now)
  then show ?thesis
    by (cases "\<forall>t\<in>set txns. tx_TenantID t = a")
      (simp_all add: UpsertDebits_ok UpsertDebits_mismatch upsert_other with_tenant_def)
next
  case (Op_SyncSilence silent now)
  have "m_apiKeys (snd (open_episodes xs now m ops)) = m_apiKeys m" for xs ops m
    by (induction xs arbitrary: m ops) (auto simp: Let_def)
  with Op_SyncSilence show ?thesis by (simp add: SyncSilenceEpisodes_def Let_def split_beta)
next
  case (Op_Claim q)
  then show ?thesis by (cases q) (auto simp: claim_ops Let_def split: option.splits)
next
  case (Op_Queue q)
  then show ?thesis
    by (cases q) (auto simp: CreateEndpoint_def SetEndpointEnabled_def SetEndpointSecretRef_def DeleteEndpoint_def
        with_endpoint_def EnqueueDelivery_def RecordDeliveryOutcome_def ReplayDelivery_def ClaimDueDeliveries_eq
        Let_def split: option.splits)
next
  case (Op_Append d a r now now')
  then show ?thesis by (cases rule: AppendAudit_cases [of d a r now now' m]) auto
next
  case (Op_ApplyPartialCredit a c now)
  then show ?thesis
    by (auto simp: ApplyPartialCredit_def Let_def split: option.splits)
qed (use assms in \<open>auto simp: EnsureTenant_def ApplyCredit_def MarkSettled_def MarkUncertain_def MarkReversalPending_def
      MarkReversalCompleted_def MarkReversalFailed_def markReversal_def ParkCredit_def DeleteParkedCredit_def
      ClaimExpired_def ClaimSLAAtRisk_def RecordIngestHealth_def SaveCheckpoint_def CreateRule_def DeleteRule_def
      Let_def split: option.splits\<close>)

lemma reachable_keys: "reachable m \<Longrightarrow> distinct (map fst (m_apiKeys m))"
proof (induction rule: reachable.induct)
  case start
  show ?case by (simp add: NewMemory_def)
next
  case (step m m')
  then obtain p where p: "m' = exec_store p m" by (auto simp: store_step_iff)
  show ?case
  proof (cases "(\<exists>a i k scopes. p = Op_CreateAPIKey a i k scopes) \<or> (\<exists>a i now. p = Op_RevokeAPIKey a i now)")
    case True
    with p step.IH show ?thesis
      by (auto simp: CreateAPIKey_def RevokeAPIKey_def distinct_update revoke_in_keys split: option.split prod.split)
  next
    case False
    with p step.IH keys_untouched show ?thesis by metis
  qed
qed

lemma reachable_queue_ok: "reachable m \<Longrightarrow> queue_ok m"
proof (induction rule: reachable.induct)
  case start
  show ?case by (simp add: queue_ok_def NewMemory_def)
next
  case (step m m')
  then obtain p where p: "m' = exec_store p m" by (auto simp: store_step_iff)
  show ?case
  proof (cases "\<exists>q. p = Op_Queue q")
    case True
    with p step.IH exec_queue_ok show ?thesis by auto
  next
    case False
    then show ?thesis using queue_untouched p step.IH queue_ok_same by metis
  qed
qed

lemma exec_same_tenant:
  assumes "reachable m" "op_tenant p = Some a" "a \<noteq> b"
  shows "same_tenant b m (exec_store p m)"
proof (cases p)
  case (Op_Queue q)
  with assms show ?thesis using queue_same_tenant [OF reachable_queue_ok [OF assms(1)]] by simp
next
  case (Op_RevokeAPIKey a' i now)
  with assms show ?thesis using RevokeAPIKey_same_tenant [OF reachable_keys [OF assms(1)]] by simp
qed (use assms(2,3) in \<open>auto simp: EnsureTenant_def MarkSettled_def MarkUncertain_def MarkReversalPending_def
      MarkReversalCompleted_def MarkReversalFailed_def intro: UpsertDebits_same_tenant ApplyCredit_same_tenant
      markReversal_same_tenant ApplyPartialCredit_same_tenant claim_same_tenant AppendAudit_same_tenant
      SaveCheckpoint_same_tenant CreateAPIKey_same_tenant\<close>,
    auto simp: same_tenant_def ParkCredit_def DeleteParkedCredit_def CreateRule_def DeleteRule_def get2_put2 get2_del2
      Let_def split: option.split)



end
