(* ===== verification/Go_Actions.thy ===== *)
theory Go_Actions
  imports Domain_Status
begin

text \<open>
  Calls that may fail and change state. A Go call \<^verbatim>\<open>x, err := f(...)\<close> on something stateful
  is a function from the state to the error or the result, and the next state; a failed call
  keeps whatever it had already changed.
\<close>

type_synonym ('s, 'a) action = "'s \<Rightarrow> (goerror + 'a) \<times> 's"

definition ret :: "'a \<Rightarrow> ('s, 'a) action" where
  "ret x s = (Inr x, s)"

definition fail :: "goerror \<Rightarrow> ('s, 'a) action" where
  "fail e s = (Inl e, s)"

text \<open>\<^verbatim>\<open>x, err := f(); if err != nil { return err }; g(x)\<close>.\<close>

definition seq :: "('s, 'a) action \<Rightarrow> ('a \<Rightarrow> ('s, 'b) action) \<Rightarrow> ('s, 'b) action" where
  "seq f g s = (case f s of (Inl e, s') \<Rightarrow> (Inl e, s') | (Inr x, s') \<Rightarrow> g x s')"

text \<open>\<^verbatim>\<open>x, err := f()\<close> with both outcomes handled.\<close>

definition attempt :: "('s, 'a) action \<Rightarrow> (goerror + 'a \<Rightarrow> ('s, 'b) action) \<Rightarrow> ('s, 'b) action" where
  "attempt f g s = (case f s of (r, s') \<Rightarrow> g r s')"

text \<open>\<^verbatim>\<open>return fmt.Errorf("msg: %w", err)\<close> around a failing call.\<close>

definition wrapping :: "string \<Rightarrow> ('s, 'a) action \<Rightarrow> ('s, 'a) action" where
  "wrapping msg f s = (case f s of (Inl e, s') \<Rightarrow> (Inl (ErrWrapped msg e), s') | (Inr x, s') \<Rightarrow> (Inr x, s'))"

text \<open>A call whose result is not looked at.\<close>

definition ignoring :: "('s, 'a) action \<Rightarrow> ('s, unit) action" where
  "ignoring f s = (case f s of (Inl e, s') \<Rightarrow> (Inl e, s') | (Inr _, s') \<Rightarrow> (Inr (), s'))"

lemmas action_defs = ret_def fail_def seq_def attempt_def wrapping_def ignoring_def

section \<open>What an action does to the state\<close>

text \<open>\<open>keeps R f\<close>: whatever its outcome, \<open>f\<close> leaves a state related to the one it started in.\<close>

definition keeps :: "('s \<Rightarrow> 's \<Rightarrow> bool) \<Rightarrow> ('s, 'a) action \<Rightarrow> bool" where
  "keeps R f \<longleftrightarrow> (\<forall>s. R s (snd (f s)))"


lemma keeps_ret: "reflp R \<Longrightarrow> keeps R (ret x)"
  by (simp add: keeps_def ret_def reflpD)

lemma keeps_fail: "reflp R \<Longrightarrow> keeps R (fail e)"
  by (simp add: keeps_def fail_def reflpD)

lemma keeps_attempt:
  "transp R \<Longrightarrow> keeps R f \<Longrightarrow> (\<And>r. keeps R (g r)) \<Longrightarrow> keeps R (attempt f g)"
  unfolding keeps_def attempt_def by (metis (mono_tags, lifting) case_prod_beta transpD)

lemma keeps_seq:
  "transp R \<Longrightarrow> keeps R f \<Longrightarrow> (\<And>x. keeps R (g x)) \<Longrightarrow> keeps R (seq f g)"
  unfolding keeps_def seq_def
  by (auto split: prod.split sum.split) (metis snd_conv transpD)+

text \<open>\<open>yields f Q\<close>: whenever \<open>f\<close> succeeds its result satisfies \<open>Q\<close>.\<close>

definition yields :: "('s, 'a) action \<Rightarrow> ('a \<Rightarrow> bool) \<Rightarrow> bool" where
  "yields f Q \<longleftrightarrow> (\<forall>s x. fst (f s) = Inr x \<longrightarrow> Q x)"

lemma keeps_seq_yields:
  "transp R \<Longrightarrow> keeps R f \<Longrightarrow> yields f Q \<Longrightarrow> (\<And>x. Q x \<Longrightarrow> keeps R (g x)) \<Longrightarrow> keeps R (seq f g)"
  unfolding keeps_def yields_def seq_def
  by (auto split: prod.split sum.split) (metis fst_conv snd_conv transpD)+

lemma yields_ret: "Q x \<Longrightarrow> yields (ret x) Q"
  by (simp add: yields_def ret_def)

lemma yields_fail: "yields (fail e) Q"
  by (simp add: yields_def fail_def)

lemma yields_seq: "(\<And>x. yields (g x) Q) \<Longrightarrow> yields (seq f g) Q"
  by (auto simp: yields_def seq_def split: prod.splits sum.splits)

lemma yields_attempt: "(\<And>r. yields (g r) Q) \<Longrightarrow> yields (attempt f g) Q"
  by (auto simp: yields_def attempt_def split: prod.splits)

lemmas yields_rules = yields_ret yields_fail yields_seq yields_attempt

lemma keeps_wrapping: "keeps R f \<Longrightarrow> keeps R (wrapping msg f)"
  by (auto simp: keeps_def wrapping_def split_beta split: sum.split)

lemma keeps_ignoring: "keeps R f \<Longrightarrow> keeps R (ignoring f)"
  by (auto simp: keeps_def ignoring_def split_beta split: sum.split)

lemmas keeps_rules = keeps_ret keeps_fail keeps_attempt keeps_seq keeps_wrapping keeps_ignoring

lemma keepsD: "keeps R f \<Longrightarrow> R s (snd (f s))"
  by (simp add: keeps_def)

section \<open>Actions that succeed\<close>

text \<open>\<open>total I f Q\<close>: from a state in \<open>I\<close>, \<open>f\<close> succeeds, its result satisfies \<open>Q\<close> and the state is
  in \<open>I\<close> again. \<open>refuses I f E\<close>: \<open>f\<close> may fail, but only with an error in \<open>E\<close>.\<close>

definition total :: "('s \<Rightarrow> bool) \<Rightarrow> ('s, 'a) action \<Rightarrow> ('a \<Rightarrow> bool) \<Rightarrow> bool" where
  "total I f Q \<longleftrightarrow> (\<forall>s. I s \<longrightarrow> (\<exists>x s'. f s = (Inr x, s') \<and> I s' \<and> Q x))"

definition refuses :: "('s \<Rightarrow> bool) \<Rightarrow> ('s, 'a) action \<Rightarrow> (goerror \<Rightarrow> bool) \<Rightarrow> bool" where
  "refuses I f E \<longleftrightarrow> (\<forall>s. I s \<longrightarrow> (case f s of (Inl e, s') \<Rightarrow> I s' \<and> E e | (Inr x, s') \<Rightarrow> I s'))"

lemma total_ret: "Q x \<Longrightarrow> total I (ret x) Q"
  by (simp add: total_def ret_def)

lemma total_seq: "total I f P \<Longrightarrow> (\<And>x. P x \<Longrightarrow> total I (g x) Q) \<Longrightarrow> total I (seq f g) Q"
  unfolding total_def seq_def by fastforce

lemma total_attempt: "total I f P \<Longrightarrow> (\<And>x. P x \<Longrightarrow> total I (g (Inr x)) Q) \<Longrightarrow> total I (attempt f g) Q"
  unfolding total_def attempt_def by fastforce

lemma total_refuses:
  "refuses I f E \<Longrightarrow> (\<And>x. total I (g (Inr x)) Q) \<Longrightarrow> (\<And>e. E e \<Longrightarrow> total I (g (Inl e)) Q) \<Longrightarrow>
    total I (attempt f g) Q"
  unfolding total_def
proof (intro allI impI)
  fix s
  assume f: "refuses I f E" and I: "I s"
    and ok: "\<And>x. \<forall>s. I s \<longrightarrow> (\<exists>y s'. g (Inr x) s = (Inr y, s') \<and> I s' \<and> Q y)"
    and no: "\<And>e. E e \<Longrightarrow> \<forall>s. I s \<longrightarrow> (\<exists>y s'. g (Inl e) s = (Inr y, s') \<and> I s' \<and> Q y)"
  obtain r s1 where r: "f s = (r, s1)" by fastforce
  show "\<exists>y s'. attempt f g s = (Inr y, s') \<and> I s' \<and> Q y"
  proof (cases r)
    case (Inl e)
    with f I r have "I s1" "E e" by (auto simp: refuses_def)
    with no [of e] show ?thesis by (simp add: attempt_def r Inl)
  next
    case (Inr x)
    with f I r have "I s1" by (auto simp: refuses_def)
    with ok [of x] show ?thesis by (simp add: attempt_def r Inr)
  qed
qed

lemma total_wrapping: "total I f Q \<Longrightarrow> total I (wrapping msg f) Q"
  unfolding total_def wrapping_def by fastforce

lemma total_weaken: "total I f P \<Longrightarrow> (\<And>x. P x \<Longrightarrow> Q x) \<Longrightarrow> total I f Q"
  unfolding total_def by blast

lemma totalE:
  assumes "total I f Q" "I s"
  obtains x s' where "f s = (Inr x, s')" "I s'" "Q x"
  using assms unfolding total_def by blast

end
