(* ===== verification/Store_Port.thy ===== *)
theory Store_Port
  imports Store_System Go_Actions
begin

text \<open>
  The interfaces through which the rest of the program sees the store
  (\<^verbatim>\<open>internal/store/store.go\<close>), as records of operations, and the in-memory store seen through
  them. A call on the in-memory store takes its instant from the record, so one such record
  stands for calls made at one reading of the clock.
\<close>

record 's transaction_store =
  ts_UpsertDebits :: "string \<Rightarrow> transaction list \<Rightarrow> ('s, UpsertResult) action"
  ts_ApplyCredit :: "string \<Rightarrow> string \<Rightarrow> status \<Rightarrow> gotime \<Rightarrow> ('s, transaction) action"
  ts_ApplyPartialCredit :: "string \<Rightarrow> CreditEvent \<Rightarrow> ('s, transaction) action"
  ts_MarkSettled :: "string \<Rightarrow> string \<Rightarrow> gotime \<Rightarrow> ('s, transaction) action"
  ts_MarkUncertain :: "string \<Rightarrow> string \<Rightarrow> gotime \<Rightarrow> ('s, transaction) action"
  ts_MarkReversalPending :: "string \<Rightarrow> string \<Rightarrow> gotime \<Rightarrow> ('s, transaction) action"
  ts_MarkReversalCompleted :: "string \<Rightarrow> string \<Rightarrow> gotime \<Rightarrow> ('s, transaction) action"
  ts_MarkReversalFailed :: "string \<Rightarrow> string \<Rightarrow> gotime \<Rightarrow> ('s, transaction) action"
  ts_Get :: "string \<Rightarrow> string \<Rightarrow> ('s, transaction) action"
  ts_ListByStatus :: "string \<Rightarrow> status \<Rightarrow> int \<Rightarrow> ('s, transaction list) action"
  ts_ParkCredit :: "string \<Rightarrow> CreditEvent \<Rightarrow> ('s, unit) action"
  ts_PeekParkedCredits :: "string \<Rightarrow> string list \<Rightarrow> ('s, CreditEvent list) action"
  ts_DeleteParkedCredit :: "string \<Rightarrow> string \<Rightarrow> ('s, unit) action"
  ts_ClaimExpired :: "gotime \<Rightarrow> int \<Rightarrow> string list \<Rightarrow> ('s, transaction list) action"
  ts_ClaimSLAAtRisk :: "gotime \<Rightarrow> duration \<Rightarrow> duration \<Rightarrow> int \<Rightarrow> ('s, transaction list) action"

record 's webhook_store =
  ws_CreateEndpoint :: "string \<Rightarrow> WebhookEndpoint \<Rightarrow> ('s, unit) action"
  ws_ListEndpoints :: "string \<Rightarrow> ('s, WebhookEndpoint list) action"
  ws_SetEndpointEnabled :: "string \<Rightarrow> string \<Rightarrow> bool \<Rightarrow> ('s, unit) action"
  ws_SetEndpointSecretRef :: "string \<Rightarrow> string \<Rightarrow> string \<Rightarrow> ('s, unit) action"
  ws_DeleteEndpoint :: "string \<Rightarrow> string \<Rightarrow> ('s, unit) action"
  ws_EnqueueDelivery :: "string \<Rightarrow> PendingDelivery \<Rightarrow> ('s, int) action"
  ws_ClaimDueDeliveries :: "gotime \<Rightarrow> duration \<Rightarrow> int \<Rightarrow> ('s, DueDelivery list) action"
  ws_RecordDeliveryOutcome :: "int \<Rightarrow> DeliveryOutcome \<Rightarrow> ('s, unit) action"
  ws_ListDeliveries :: "string \<Rightarrow> string \<Rightarrow> int \<Rightarrow> ('s, DeliveryRecord list) action"
  ws_ReplayDelivery :: "string \<Rightarrow> int \<Rightarrow> ('s, unit) action"

record 's health_store =
  hs_RecordIngestHealth :: "IngestSample list \<Rightarrow> ('s, unit) action"
  hs_HasIngestGap :: "string \<Rightarrow> gotime \<Rightarrow> gotime \<Rightarrow> ('s, bool) action"
  hs_IngestActivity :: "string \<Rightarrow> gotime \<Rightarrow> gotime \<Rightarrow> ('s, IngestActivitySummary) action"
  hs_SilentTenants :: "gotime \<Rightarrow> SilenceParams \<Rightarrow> ('s, string list) action"
  hs_SyncSilenceEpisodes :: "string list \<Rightarrow> gotime \<Rightarrow> ('s, SilenceChange) action"

record 's audit_store =
  au_AppendAudit :: "string \<Rightarrow> Record \<Rightarrow> ('s, Record) action"
  au_ListAudit :: "string \<Rightarrow> int \<Rightarrow> ('s, Record list) action"
  au_SaveCheckpoint :: "Checkpoint \<Rightarrow> ('s, unit) action"
  au_LatestCheckpoint :: "string \<Rightarrow> ('s, Checkpoint) action"
  au_ListCheckpoints :: "string \<Rightarrow> int \<Rightarrow> ('s, Checkpoint list) action"
  au_TenantsWithAudit :: "('s, string list) action"

text \<open>The parts of \<^verbatim>\<open>store.Store\<close> that the sweep and the dispatcher call.\<close>

record 's store =
  st_tx :: "'s transaction_store"
  st_webhook :: "'s webhook_store"
  st_health :: "'s health_store"
  st_audit :: "'s audit_store"

section \<open>The in-memory store through the interfaces\<close>

definition memory_store :: "gotime \<Rightarrow> memory transaction_store" where
  "memory_store now =
    \<lparr>ts_UpsertDebits = (\<lambda>a txns. UpsertDebits a txns now),
     ts_ApplyCredit = (\<lambda>a b target at. ApplyCredit a b target at now),
     ts_ApplyPartialCredit = (\<lambda>a c. ApplyPartialCredit a c now),
     ts_MarkSettled = (\<lambda>a b at. MarkSettled a b at now),
     ts_MarkUncertain = (\<lambda>a b at. MarkUncertain a b at now),
     ts_MarkReversalPending = (\<lambda>a b at. MarkReversalPending a b at now),
     ts_MarkReversalCompleted = (\<lambda>a b at. MarkReversalCompleted a b at now),
     ts_MarkReversalFailed = (\<lambda>a b at. MarkReversalFailed a b at now),
     ts_Get = Get, ts_ListByStatus = ListByStatus,
     ts_ParkCredit = ParkCredit, ts_PeekParkedCredits = PeekParkedCredits,
     ts_DeleteParkedCredit = DeleteParkedCredit,
     ts_ClaimExpired = ClaimExpired, ts_ClaimSLAAtRisk = ClaimSLAAtRisk\<rparr>"

definition memory_webhooks :: "gotime \<Rightarrow> memory webhook_store" where
  "memory_webhooks now =
    \<lparr>ws_CreateEndpoint = CreateEndpoint, ws_ListEndpoints = ListEndpoints,
     ws_SetEndpointEnabled = SetEndpointEnabled, ws_SetEndpointSecretRef = SetEndpointSecretRef,
     ws_DeleteEndpoint = DeleteEndpoint,
     ws_EnqueueDelivery = (\<lambda>a d. EnqueueDelivery a d now),
     ws_ClaimDueDeliveries = ClaimDueDeliveries, ws_RecordDeliveryOutcome = RecordDeliveryOutcome,
     ws_ListDeliveries = ListDeliveries, ws_ReplayDelivery = (\<lambda>a i. ReplayDelivery a i now)\<rparr>"

definition memory_health :: "memory health_store" where
  "memory_health =
    \<lparr>hs_RecordIngestHealth = RecordIngestHealth, hs_HasIngestGap = HasIngestGap,
     hs_IngestActivity = IngestActivity, hs_SilentTenants = SilentTenants,
     hs_SyncSilenceEpisodes = SyncSilenceEpisodes\<rparr>"

definition memory_audit :: "digest \<Rightarrow> gotime \<Rightarrow> memory audit_store" where
  "memory_audit digest now =
    \<lparr>au_AppendAudit = (\<lambda>a r. AppendAudit digest a r now now), au_ListAudit = ListAudit,
     au_SaveCheckpoint = SaveCheckpoint, au_LatestCheckpoint = LatestCheckpoint,
     au_ListCheckpoints = ListCheckpoints, au_TenantsWithAudit = TenantsWithAudit\<rparr>"

definition memory_full :: "digest \<Rightarrow> gotime \<Rightarrow> memory store" where
  "memory_full digest now =
    \<lparr>st_tx = memory_store now, st_webhook = memory_webhooks now, st_health = memory_health,
     st_audit = memory_audit digest now\<rparr>"

end
