(* ===== verification/Correlate.thy ===== *)
theory Correlate
  imports Store_Port
begin

text \<open>
  The correlation engine (\<^verbatim>\<open>internal/correlate/correlate.go\<close>): what a tenant's batch of
  events does to the store. The engine sees the store only through the interface
  \<^verbatim>\<open>store.TransactionStore\<close>. The rules and the salt come from providers the engine is given, and
  \<open>eng_hash\<close> stands for the hexadecimal SHA-256 of the standard library. The in-memory store
  takes one reading of the clock per batch.
\<close>

section \<open>The interface and the engine\<close>

record Engine =
  eng_rules :: "string \<Rightarrow> goerror + Rule list"
  eng_salt :: "string \<Rightarrow> goerror + string"
  eng_hash :: "string \<Rightarrow> string"

record Rejection =
  rej_TransactionID :: string
  rej_Err :: goerror

record CorrelateResult =
  DebitsStored :: nat
  DebitsDuplicate :: nat
  CreditsApplied :: nat
  CreditsParked :: nat
  CreditsIgnored :: nat
  Rejections :: "Rejection list"

definition no_result :: CorrelateResult where
  "no_result = \<lparr>DebitsStored = 0, DebitsDuplicate = 0, CreditsApplied = 0, CreditsParked = 0,
    CreditsIgnored = 0, Rejections = []\<rparr>"

section \<open>One credit\<close>

datatype creditOutcome = creditApplied | creditParked | creditIgnored | creditNotFound

definition tryApply :: "'s transaction_store \<Rightarrow> string \<Rightarrow> CreditEvent \<Rightarrow> ('s, creditOutcome) action" where
  "tryApply P tenantID c =
    (case TargetStatus (ce_Status c) of
       Inl err \<Rightarrow> fail (ErrWrapped (''credit '' @ ce_TransactionID c) err)
     | Inr target \<Rightarrow>
         attempt
           (if ce_AmountMinor c > 0 \<and> target = StatusCompleted
            then ts_ApplyPartialCredit P tenantID c
            else ts_ApplyCredit P tenantID (ce_TransactionID c) target (ce_CreditAt c))
           (\<lambda>r. case r of
                  Inr _ \<Rightarrow> ret creditApplied
                | Inl err \<Rightarrow>
                    if errors_is err ErrNotFound then ret creditNotFound
                    else if is_invalid_transition err then ret creditIgnored
                    else fail (ErrWrapped (''apply credit '' @ ce_TransactionID c) err)))"

fun drain_loop :: "'s transaction_store \<Rightarrow> string \<Rightarrow> nat \<Rightarrow> CreditEvent list \<Rightarrow> ('s, nat) action" where
  "drain_loop P tenantID applied [] = ret applied"
| "drain_loop P tenantID applied (pc # parked) =
    seq (tryApply P tenantID pc)
      (\<lambda>outcome.
        if outcome = creditNotFound then drain_loop P tenantID applied parked
        else seq (wrapping (''delete parked credit '' @ ce_TransactionID pc)
                   (ts_DeleteParkedCredit P tenantID (ce_TransactionID pc)))
               (\<lambda>_. drain_loop P tenantID (if outcome = creditApplied then applied + 1 else applied) parked))"

definition drainParked :: "'s transaction_store \<Rightarrow> string \<Rightarrow> string list \<Rightarrow> ('s, nat) action" where
  "drainParked P tenantID transactionIDs =
    seq (wrapping (''peek parked credits for '' @ tenantID) (ts_PeekParkedCredits P tenantID transactionIDs))
      (drain_loop P tenantID 0)"

definition applyCredit :: "'s transaction_store \<Rightarrow> string \<Rightarrow> CreditEvent \<Rightarrow> ('s, creditOutcome) action" where
  "applyCredit P tenantID c =
    seq (tryApply P tenantID c)
      (\<lambda>outcome.
        if outcome \<noteq> creditNotFound then ret outcome
        else seq (wrapping (''park credit '' @ ce_TransactionID c) (ts_ParkCredit P tenantID c))
               (\<lambda>_. seq (drainParked P tenantID [ce_TransactionID c])
                 (\<lambda>applied. ret (if applied > 0 then creditApplied else creditParked))))"

section \<open>Screening and building\<close>

definition screenCredit :: "CreditEvent \<Rightarrow> goerror option" where
  "screenCredit c = first_error
    [ScreenString ''transaction_id'' (ce_TransactionID c),
     ScreenString ''provider_reference'' (ce_ProviderReference c)]"

definition HashCustomerRef :: "(string \<Rightarrow> string) \<Rightarrow> string \<Rightarrow> string \<Rightarrow> string" where
  "HashCustomerRef hash salt ref = (if ref = '''' then '''' else hash (salt @ ''|'' @ ref))"

definition toTransaction ::
  "(string \<Rightarrow> string) \<Rightarrow> DebitEvent \<Rightarrow> Rule list \<Rightarrow> string \<Rightarrow> goerror + transaction" where
  "toTransaction hash d ruleSet salt =
    (case first_error [ScreenMetadata (de_Metadata d), ScreenString ''transaction_id'' (de_TransactionID d)] of
       Some err \<Rightarrow> Inl err
     | None \<Rightarrow>
         let txn = tx_zero\<lparr>tx_TenantID := de_TenantID d, tx_TransactionID := de_TransactionID d,
               tx_IdempotencyKey := de_IdempotencyKey d, tx_TransactionType := de_TransactionType d,
               tx_Provider := de_Provider d, tx_AmountMinor := de_AmountMinor d, tx_Currency := de_Currency d,
               tx_Status := StatusPendingDebit, tx_DebitAt := de_DebitAt d, tx_Metadata := de_Metadata d,
               tx_ExpectedCreditMinor := de_ExpectedCreditMinor d, tx_IsBackfill := de_IsBackfill d,
               tx_CustomerRefHash := HashCustomerRef hash salt (de_CustomerRef d)\<rparr>;
             res = Resolve ruleSet txn
         in Inr (txn\<lparr>tx_ExpectedCompletionAt := de_DebitAt d + res_Window res\<rparr>))"

section \<open>A batch\<close>

text \<open>The first loop of \<^verbatim>\<open>Apply\<close>: every event is rejected, or becomes a debit or a credit.\<close>

fun sort_events ::
  "(string \<Rightarrow> string) \<Rightarrow> string \<Rightarrow> Rule list \<Rightarrow> string \<Rightarrow> Event list \<Rightarrow>
    Rejection list \<times> transaction list \<times> CreditEvent list \<Rightarrow> Rejection list \<times> transaction list \<times> CreditEvent list" where
  "sort_events hash tenantID ruleSet salt [] acc = acc"
| "sort_events hash tenantID ruleSet salt (ev # events) (rejs, debits, credits) =
    (let reject = (\<lambda>e. sort_events hash tenantID ruleSet salt events
                        (rejs @ [\<lparr>rej_TransactionID = Event_TransactionID ev, rej_Err = e\<rparr>], debits, credits))
     in if Event_TenantID ev \<noteq> tenantID then reject ErrTenantMismatch
        else case Event_Validate ev of Some e \<Rightarrow> reject e
        | None \<Rightarrow>
          (case ev_Debit ev of
             Some d \<Rightarrow>
               (case toTransaction hash d ruleSet salt of
                  Inl e \<Rightarrow> reject e
                | Inr txn \<Rightarrow> sort_events hash tenantID ruleSet salt events (rejs, debits @ [txn], credits))
           | None \<Rightarrow>
               (case ev_Credit ev of
                  Some c \<Rightarrow>
                    (case screenCredit c of
                       Some e \<Rightarrow> reject e
                     | None \<Rightarrow> sort_events hash tenantID ruleSet salt events (rejs, debits, credits @ [c]))
                | None \<Rightarrow> sort_events hash tenantID ruleSet salt events (rejs, debits, credits))))"

definition count_outcome :: "creditOutcome \<Rightarrow> CorrelateResult \<Rightarrow> CorrelateResult" where
  "count_outcome applied res =
    (case applied of
       creditApplied \<Rightarrow> res\<lparr>CreditsApplied := CreditsApplied res + 1\<rparr>
     | creditParked \<Rightarrow> res\<lparr>CreditsParked := CreditsParked res + 1\<rparr>
     | creditIgnored \<Rightarrow> res\<lparr>CreditsIgnored := CreditsIgnored res + 1\<rparr>
     | creditNotFound \<Rightarrow> res)"

text \<open>\<open>Apply\<close> returns Go's pair of a result and an error; the result counts what was done before
  the error.\<close>

fun credits_loop :: "'s transaction_store \<Rightarrow> string \<Rightarrow> CreditEvent list \<Rightarrow> CorrelateResult \<Rightarrow>
    ('s, CorrelateResult \<times> goerror option) action" where
  "credits_loop P tenantID [] res = ret (res, None)"
| "credits_loop P tenantID (c # credits) res =
    attempt (applyCredit P tenantID c)
      (\<lambda>r. case r of
             Inl err \<Rightarrow> ret (res, Some err)
           | Inr applied \<Rightarrow> credits_loop P tenantID credits (count_outcome applied res))"

definition Apply :: "Engine \<Rightarrow> 's transaction_store \<Rightarrow> string \<Rightarrow> Event list \<Rightarrow>
    ('s, CorrelateResult \<times> goerror option) action" where
  "Apply E P tenantID events =
    (case eng_rules E tenantID of
       Inl err \<Rightarrow> ret (no_result, Some (ErrWrapped (''load rules for '' @ tenantID) err))
     | Inr ruleSet \<Rightarrow>
     case eng_salt E tenantID of
       Inl err \<Rightarrow> ret (no_result, Some (ErrWrapped (''load salt for '' @ tenantID) err))
     | Inr salt \<Rightarrow>
       let (rejs, debits, credits) = sort_events (eng_hash E) tenantID ruleSet salt events ([], [], []);
           res = no_result\<lparr>Rejections := rejs\<rparr>
       in attempt
            (if length debits > 0
             then wrapping (''store debits for '' @ tenantID) (ts_UpsertDebits P tenantID debits)
             else ret \<lparr>Inserted = [], Duplicates = []\<rparr>)
            (\<lambda>r. case r of
               Inl err \<Rightarrow> ret (res, Some err)
             | Inr up \<Rightarrow>
                 let res = res\<lparr>DebitsStored := length (Inserted up), DebitsDuplicate := length (Duplicates up)\<rparr>
                 in attempt (if length (Inserted up) > 0 then drainParked P tenantID (Inserted up) else ret 0)
                      (\<lambda>r. case r of
                         Inl err \<Rightarrow> ret (res, Some err)
                       | Inr applied \<Rightarrow>
                           credits_loop P tenantID credits (res\<lparr>CreditsApplied := CreditsApplied res + applied\<rparr>))))"

end
