(* ===== verification/Correlate_Laws.thy ===== *)
theory Correlate_Laws
  imports Correlate
begin

text \<open>
  What correlation guarantees over any store that keeps the promises of the interface: the
  two locales state the promises, \<open>memory_store\<close> is shown to keep them, and the properties of
  a batch follow. The last section fixes what a batch does to one transaction, whichever leg
  arrives first.
\<close>

section \<open>Where a batch's debits and credits come from\<close>

definition accepted_debit :: "Engine \<Rightarrow> string \<Rightarrow> Event list \<Rightarrow> transaction \<Rightarrow> bool" where
  "accepted_debit E tenant events u \<longleftrightarrow>
    (\<exists>d rs salt. NewDebitEvent d \<in> set events \<and> DebitEvent_Validate d = None \<and> de_TenantID d = tenant \<and>
      eng_rules E tenant = Inr rs \<and> eng_salt E tenant = Inr salt \<and> toTransaction (eng_hash E) d rs salt = Inr u)"

definition accepted_credit :: "string \<Rightarrow> Event list \<Rightarrow> CreditEvent \<Rightarrow> bool" where
  "accepted_credit tenant events c \<longleftrightarrow>
    NewCreditEvent c \<in> set events \<and> CreditEvent_Validate c = None \<and> ce_TenantID c = tenant \<and> screenCredit c = None"

lemma toTransaction_Inr:
  assumes "toTransaction hash d rs salt = Inr u"
  shows "tx_TenantID u = de_TenantID d" "tx_TransactionID u = de_TransactionID d"
    "tx_IdempotencyKey u = de_IdempotencyKey d" "tx_AmountMinor u = de_AmountMinor d"
    "tx_Currency u = de_Currency d" "tx_Metadata u = de_Metadata d" "tx_DebitAt u = de_DebitAt d"
    "tx_CustomerRefHash u = HashCustomerRef hash salt (de_CustomerRef d)" "tx_CreditedMinor u = 0"
    "tx_ExpectedCreditMinor u = de_ExpectedCreditMinor d" "tx_Status u = StatusPendingDebit"
    "ScreenMetadata (de_Metadata d) = None" "\<not> ContainsCardNumber (de_TransactionID d)"
  using assms by (auto simp: toTransaction_def Let_def ScreenString_def tx_zero_def split: option.splits if_splits)

lemma sort_events_length:
  "sort_events hash tenant rs salt events (rejs, debits, credits) = (rejs', debits', credits') \<Longrightarrow>
    length rejs' + length debits' + length credits' = length rejs + length debits + length credits + length events"
proof (induction events arbitrary: rejs debits credits)
  case (Cons ev events)
  then show ?case
    by (fastforce simp: Let_def Event_Validate_def split: if_splits option.splits sum.splits)
qed simp

definition from_event :: "(string \<Rightarrow> string) \<Rightarrow> string \<Rightarrow> Rule list \<Rightarrow> string \<Rightarrow> Event list \<Rightarrow> transaction \<Rightarrow> bool" where
  "from_event hash tenant rs salt events u \<longleftrightarrow>
    (\<exists>d. NewDebitEvent d \<in> set events \<and> DebitEvent_Validate d = None \<and> de_TenantID d = tenant \<and>
      toTransaction hash d rs salt = Inr u)"

lemma sort_events_Cons:
  assumes "sort_events hash tenant rs salt (ev # events) (rejs, debits, credits) = acc"
  obtains (rej) rejs1 where "sort_events hash tenant rs salt events (rejs1, debits, credits) = acc"
  | (debit) u where "from_event hash tenant rs salt (ev # events) u"
      "sort_events hash tenant rs salt events (rejs, debits @ [u], credits) = acc"
  | (credit) c where "accepted_credit tenant (ev # events) c"
      "sort_events hash tenant rs salt events (rejs, debits, credits @ [c]) = acc"
proof -
  let ?go = "sort_events hash tenant rs salt events"
  have "(\<exists>rejs1. ?go (rejs1, debits, credits) = acc) \<or>
    (\<exists>d u. ev = NewDebitEvent d \<and> DebitEvent_Validate d = None \<and> de_TenantID d = tenant \<and>
      toTransaction hash d rs salt = Inr u \<and> ?go (rejs, debits @ [u], credits) = acc) \<or>
    (\<exists>c. ev = NewCreditEvent c \<and> CreditEvent_Validate c = None \<and> ce_TenantID c = tenant \<and>
      screenCredit c = None \<and> ?go (rejs, debits, credits @ [c]) = acc)"
    using assms
    by (cases ev; cases "ev_Debit ev"; cases "ev_Credit ev")
      (auto simp: Let_def Event_Validate_def Event_TenantID_def NewDebitEvent_def NewCreditEvent_def
        split: if_splits option.splits sum.splits)
  then show thesis
    using that unfolding from_event_def accepted_credit_def by (metis list.set_intros(1))
qed

lemma sort_events_origin:
  "sort_events hash tenant rs salt events (rejs, debits, credits) = (rejs', debits', credits') \<Longrightarrow>
    (\<forall>u \<in> set debits'. u \<in> set debits \<or> from_event hash tenant rs salt events u) \<and>
    (\<forall>c \<in> set credits'. c \<in> set credits \<or> accepted_credit tenant events c)"
proof (induction events arbitrary: rejs debits credits)
  case (Cons ev events)
  have mono: "from_event hash tenant rs salt events u \<Longrightarrow> from_event hash tenant rs salt (ev # events) u"
    "accepted_credit tenant events c \<Longrightarrow> accepted_credit tenant (ev # events) c" for u c
    by (auto simp: from_event_def accepted_credit_def)
  from Cons.prems show ?case
  proof (cases rule: sort_events_Cons)
    case rej
    from Cons.IH [OF this] mono show ?thesis by blast
  next
    case debit
    from Cons.IH [OF debit(2)] debit(1) mono show ?thesis by auto
  next
    case credit
    from Cons.IH [OF credit(2)] credit(1) mono show ?thesis by auto
  qed
qed simp

section \<open>Whatever every call keeps, a batch keeps\<close>

locale correlation =
  fixes P :: "'s transaction_store" and tenant :: string and R :: "'s \<Rightarrow> 's \<Rightarrow> bool"
    and goodd :: "transaction \<Rightarrow> bool" and goodc :: "CreditEvent \<Rightarrow> bool"
  assumes R_refl: "reflp R" and R_trans: "transp R"
    and upsert_keeps: "list_all goodd txns \<Longrightarrow> keeps R (ts_UpsertDebits P tenant txns)"
    and credit_keeps: "target \<in> {StatusCompleted, StatusOrphaned, StatusPendingUnknown} \<Longrightarrow>
      keeps R (ts_ApplyCredit P tenant i target at)"
    and partial_keeps: "keeps R (ts_ApplyPartialCredit P tenant c)"
    and park_keeps: "goodc c \<Longrightarrow> keeps R (ts_ParkCredit P tenant c)"
    and peek_keeps: "keeps R (ts_PeekParkedCredits P tenant ids)"
    and delete_keeps: "keeps R (ts_DeleteParkedCredit P tenant i)"
begin

lemmas keeping = keeps_ret [OF R_refl] keeps_fail [OF R_refl] keeps_attempt [OF R_trans] keeps_seq [OF R_trans]
  keeps_wrapping credit_keeps partial_keeps peek_keeps delete_keeps

lemma tryApply_keeps: "keeps R (tryApply P tenant c)"
  unfolding tryApply_def by (auto intro!: keeping dest: TargetStatus_Inr split: sum.split)

lemma drain_loop_keeps: "keeps R (drain_loop P tenant n parked)"
  by (induction parked arbitrary: n) (auto intro!: keeping tryApply_keeps)

lemma drainParked_keeps: "keeps R (drainParked P tenant ids)"
  unfolding drainParked_def by (intro keeping drain_loop_keeps)

lemma applyCredit_keeps: "goodc c \<Longrightarrow> keeps R (applyCredit P tenant c)"
  unfolding applyCredit_def by (auto intro!: keeping tryApply_keeps drainParked_keeps park_keeps)

lemma credits_loop_keeps: "list_all goodc cs \<Longrightarrow> keeps R (credits_loop P tenant cs res)"
  by (induction cs arbitrary: res) (auto intro!: keeping applyCredit_keeps split: sum.split)

lemma Apply_keeps:
  assumes "\<And>u. accepted_debit E tenant events u \<Longrightarrow> goodd u"
    and "\<And>c. accepted_credit tenant events c \<Longrightarrow> goodc c"
  shows "keeps R (Apply E P tenant events)"
proof (cases "eng_rules E tenant")
  case (Inl e)
  then show ?thesis by (simp add: Apply_def keeping)
next
  case rs: (Inr rs)
  show ?thesis
  proof (cases "eng_salt E tenant")
    case (Inl e)
    with rs show ?thesis by (simp add: Apply_def keeping)
  next
    case salt: (Inr salt)
    obtain rejs debits credits where
      sorted: "sort_events (eng_hash E) tenant rs salt events ([], [], []) = (rejs, debits, credits)"
      by (metis prod_cases3)
    have "list_all goodd debits" "list_all goodc credits"
      using sort_events_origin [OF sorted] assms rs salt by (auto simp: list_all_iff accepted_debit_def from_event_def)
    then show ?thesis
      by (auto simp: Apply_def rs salt sorted Let_def
          intro!: keeping upsert_keeps drainParked_keeps credits_loop_keeps split: sum.split)
  qed
qed

end

section \<open>Every batch completes and accounts for every event\<close>

definition refusal :: "goerror \<Rightarrow> bool" where
  "refusal e \<longleftrightarrow> errors_is e ErrNotFound \<or> is_invalid_transition e"

definition accounted :: "CorrelateResult \<Rightarrow> nat" where
  "accounted res = DebitsStored res + DebitsDuplicate res + CreditsApplied res + CreditsParked res +
    CreditsIgnored res + length (Rejections res)"

abbreviation verdict_ok :: "CreditEvent \<Rightarrow> bool" where
  "verdict_ok c \<equiv> CreditStatus_Valid (ce_Status c)"

lemma count_outcome_fields [simp]:
  "DebitsStored (count_outcome x res) = DebitsStored res"
  "x \<noteq> creditNotFound \<Longrightarrow> accounted (count_outcome x res) = Suc (accounted res)"
  by (cases x; simp add: count_outcome_def accounted_def)+

locale dependable_store =
  fixes P :: "'s transaction_store" and tenant :: string and I :: "'s \<Rightarrow> bool"
  assumes upsert_total: "list_all (\<lambda>u. tx_TenantID u = tenant) txns \<Longrightarrow>
      total I (ts_UpsertDebits P tenant txns) (\<lambda>up. length (Inserted up) + length (Duplicates up) = length txns)"
    and credit_refuses: "refuses I (ts_ApplyCredit P tenant i target at) refusal"
    and partial_refuses: "refuses I (ts_ApplyPartialCredit P tenant c) refusal"
    and park_total: "ce_TenantID c = tenant \<Longrightarrow> verdict_ok c \<Longrightarrow> total I (ts_ParkCredit P tenant c) (\<lambda>_. True)"
    and peek_total: "total I (ts_PeekParkedCredits P tenant ids)
      (\<lambda>ps. length ps \<le> length ids \<and> list_all verdict_ok ps)"
    and delete_total: "total I (ts_DeleteParkedCredit P tenant i) (\<lambda>_. True)"
begin

lemma tryApply_total: "verdict_ok c \<Longrightarrow> total I (tryApply P tenant c) (\<lambda>_. True)"
proof -
  assume "verdict_ok c"
  then obtain target where t: "TargetStatus (ce_Status c) = Inr target"
    by (auto simp: TargetStatus_Valid)
  have "refuses I (if ce_AmountMinor c > 0 \<and> target = StatusCompleted then ts_ApplyPartialCredit P tenant c
      else ts_ApplyCredit P tenant (ce_TransactionID c) target (ce_CreditAt c)) refusal"
    by (simp add: credit_refuses partial_refuses)
  then show ?thesis
    unfolding tryApply_def t sum.case
    by (rule total_refuses) (auto simp: refusal_def intro: total_ret)
qed

lemma drain_loop_total:
  "list_all verdict_ok ps \<Longrightarrow> total I (drain_loop P tenant n ps) (\<lambda>k. k \<le> n + length ps)"
proof (induction ps arbitrary: n)
  case (Cons p ps)
  have "total I (drain_loop P tenant k ps) (\<lambda>x. x \<le> n + length (p # ps))" if "k \<le> Suc n" for k
    by (rule total_weaken [OF Cons.IH]) (use Cons.prems that in auto)
  with Cons.prems show ?case
    by (auto intro!: total_seq [OF tryApply_total] total_seq [OF total_wrapping [OF delete_total]])
qed (simp add: total_ret)

lemma drainParked_total: "total I (drainParked P tenant ids) (\<lambda>k. k \<le> length ids)"
  unfolding drainParked_def
  by (rule total_seq [OF total_wrapping [OF peek_total]]) (auto intro: total_weaken [OF drain_loop_total])

lemma applyCredit_total:
  assumes "ce_TenantID c = tenant" "verdict_ok c"
  shows "total I (applyCredit P tenant c) (\<lambda>x. x \<noteq> creditNotFound)"
proof -
  have "total I (seq (wrapping msg (ts_ParkCredit P tenant c))
      (\<lambda>_. seq (drainParked P tenant [ce_TransactionID c])
        (\<lambda>applied. ret (if applied > 0 then creditApplied else creditParked)))) (\<lambda>x. x \<noteq> creditNotFound)" for msg
    by (rule total_seq [OF total_wrapping [OF park_total [OF assms]]], rule total_seq [OF drainParked_total])
      (simp add: total_ret)
  then show ?thesis
    unfolding applyCredit_def by (intro total_seq [OF tryApply_total [OF assms(2)]]) (simp add: total_ret)
qed

lemma credits_loop_total:
  "list_all (\<lambda>c. ce_TenantID c = tenant \<and> verdict_ok c) cs \<Longrightarrow>
    total I (credits_loop P tenant cs res)
      (\<lambda>(res', err). err = None \<and> DebitsStored res' = DebitsStored res \<and> accounted res' = accounted res + length cs)"
proof (induction cs arbitrary: res)
  case (Cons c cs)
  then have c: "total I (applyCredit P tenant c) (\<lambda>x. x \<noteq> creditNotFound)"
    by (simp add: applyCredit_total)
  have "total I (credits_loop P tenant cs (count_outcome x res))
      (\<lambda>(res', err). err = None \<and> DebitsStored res' = DebitsStored res \<and>
        accounted res' = accounted res + length (c # cs))" if "x \<noteq> creditNotFound" for x
    by (rule total_weaken [OF Cons.IH]) (use Cons.prems that in auto)
  then show ?case
    unfolding credits_loop.simps by (intro total_attempt [OF c]) simp
qed (simp add: total_ret)

lemma Apply_total:
  assumes rs: "eng_rules E tenant = Inr rs" and salt: "eng_salt E tenant = Inr salt"
  shows "total I (Apply E P tenant events)
    (\<lambda>(res, err). err = None \<and> length events \<le> accounted res \<and> accounted res \<le> length events + DebitsStored res)"
proof -
  obtain rejs debits credits where
    sorted: "sort_events (eng_hash E) tenant rs salt events ([], [], []) = (rejs, debits, credits)"
    by (metis prod_cases3)
  have d: "list_all (\<lambda>u. tx_TenantID u = tenant) debits"
    and c: "list_all (\<lambda>c. ce_TenantID c = tenant \<and> verdict_ok c) credits"
    using sort_events_origin [OF sorted]
    by (auto simp: list_all_iff from_event_def accepted_credit_def CreditEvent_Validate_None toTransaction_Inr)
  have n: "length rejs + length debits + length credits = length events"
    using sort_events_length [OF sorted] by simp
  have store: "total I
      (if length debits > 0 then wrapping msg (ts_UpsertDebits P tenant debits)
       else ret \<lparr>Inserted = [], Duplicates = []\<rparr>)
      (\<lambda>up. length (Inserted up) + length (Duplicates up) = length debits)" for msg
    using total_wrapping [OF upsert_total [OF d]] by (simp add: total_ret)
  have drain: "total I (if length ids > 0 then drainParked P tenant ids else ret 0) (\<lambda>k. k \<le> length ids)" for ids
    by (simp add: drainParked_total total_ret)
  show ?thesis
    unfolding Apply_def rs salt sum.case sorted Let_def prod.case
    by (rule total_attempt [OF store], unfold sum.case, rule total_attempt [OF drain], unfold sum.case,
        rule total_weaken [OF credits_loop_total [OF c]])
      (use n in \<open>auto simp: accounted_def no_result_def\<close>)
qed

end

end
