(* ===== verification/Correlate_Memory.thy ===== *)
theory Correlate_Memory
  imports Correlate_Laws
begin

text \<open>
  Correlation on the in-memory store: \<open>memory_store\<close> keeps the promises of both locales of
  \<open>Correlate_Laws\<close>, for several relations between the store before and after a batch, and the
  properties of whole histories of batches rest on those interpretations.
\<close>

section \<open>A batch is a sequence of the tenant's store operations\<close>

definition by_ops :: "string \<Rightarrow> memory \<Rightarrow> memory \<Rightarrow> bool" where
  "by_ops tenant m m' \<longleftrightarrow> (\<exists>ps. m' = exec_all ps m \<and> list_all (\<lambda>p. op_tenant p = Some tenant) ps)"

lemma exec_all_append: "exec_all (ps @ qs) m = exec_all qs (exec_all ps m)"
  by (induction ps arbitrary: m) simp_all

lemma by_ops_refl: "reflp (by_ops tenant)"
  by (auto simp: reflp_def by_ops_def intro: exI [of _ "[]"])

lemma by_ops_trans: "transp (by_ops tenant)"
proof (rule transpI)
  fix x y z
  assume "by_ops tenant x y" "by_ops tenant y z"
  then obtain ps qs where "y = exec_all ps x" "z = exec_all qs y"
    "list_all (\<lambda>p. op_tenant p = Some tenant) (ps @ qs)" by (auto simp: by_ops_def)
  then show "by_ops tenant x z"
    unfolding by_ops_def by (intro exI [of _ "ps @ qs"]) (simp add: exec_all_append)
qed

lemma by_opsI: "op_tenant p = Some tenant \<Longrightarrow> exec_store p m = m' \<Longrightarrow> by_ops tenant m m'"
  by (auto simp: by_ops_def intro!: exI [of _ "[p]"])

interpretation ops: correlation "memory_store now" tenant "by_ops tenant" "\<lambda>_. True" "\<lambda>_. True"
proof (unfold_locales, goal_cases)
  case 3 then show ?case by (auto simp: keeps_def memory_store_def intro: by_opsI [of "Op_UpsertDebits tenant _ now"])
next
  case 4 then show ?case by (auto simp: keeps_def memory_store_def intro: by_opsI [of "Op_ApplyCredit tenant _ _ _ now"])
next
  case 5 then show ?case by (auto simp: keeps_def memory_store_def intro: by_opsI [of "Op_ApplyPartialCredit tenant _ now"])
next
  case 6 then show ?case by (auto simp: keeps_def memory_store_def intro: by_opsI [of "Op_ParkCredit tenant _"])
next
  case 7 then show ?case
    by (auto simp: keeps_def memory_store_def PeekParkedCredits_def by_ops_refl [THEN reflpD])
next
  case 8 then show ?case by (auto simp: keeps_def memory_store_def intro: by_opsI [of "Op_DeleteParkedCredit tenant _"])
qed (rule by_ops_refl, rule by_ops_trans)

lemma Apply_by_ops: "by_ops tenant m (snd (Apply E (memory_store now) tenant events m))"
  using ops.Apply_keeps [of E tenant events now] by (simp add: keeps_def)

lemma by_ops_reachable: "by_ops tenant m m' \<Longrightarrow> reachable m \<Longrightarrow> reachable m'"
  by (auto simp: by_ops_def intro: reachable_exec_all)

lemma exec_all_same_tenant:
  "reachable m \<Longrightarrow> list_all (\<lambda>p. op_tenant p = Some a) ps \<Longrightarrow> a \<noteq> b \<Longrightarrow> same_tenant b m (exec_all ps m)"
proof (induction ps arbitrary: m)
  case (Cons p ps)
  have "same_tenant b m (exec_store p m)"
    using Cons.prems by (intro exec_same_tenant) simp_all
  moreover have "reachable (exec_store p m)"
    using Cons.prems(1) by (auto intro: reachable.step store_step.intros)
  with Cons have "same_tenant b (exec_store p m) (exec_all ps (exec_store p m))" by simp
  ultimately show ?case by (simp add: same_tenant_def)
qed simp

text \<open>
  C15. Whatever a batch holds and however it ends, it changes the store only by operations of
  the batch's own tenant: the store stays reachable, nothing of another tenant changes, and
  every stored transaction keeps its debit's facts and moves along the state machine.
\<close>

theorem batch_refines_store:
  assumes "reachable m"
  shows "reachable (snd (Apply E (memory_store now) a events m)) \<and>
    (\<forall>b. b = a \<or> same_tenant b m (snd (Apply E (memory_store now) a events m))) \<and>
    list_all (\<lambda>(b, i, s). \<exists>t. stored (snd (Apply E (memory_store now) a events m)) b i = Some t \<and>
      same_identity s t \<and> CanTransition\<^sup>*\<^sup>* (tx_Status s) (tx_Status t)) (entries2 (m_byTenant m))"
proof -
  let ?m = "snd (Apply E (memory_store now) a events m)"
  note R = Apply_by_ops [of a m E now events]
  then obtain ps where ps: "?m = exec_all ps m" "list_all (\<lambda>p. op_tenant p = Some a) ps"
    by (auto simp: by_ops_def)
  have "\<exists>t. stored ?m b i = Some t \<and> same_identity s t \<and> CanTransition\<^sup>*\<^sup>* (tx_Status s) (tx_Status t)"
    if "(b, i, s) \<in> set (entries2 (m_byTenant m))" for b i s
    using that reachable_store_ok [OF assms] exec_all_evolves [OF reachable_store_ok [OF assms], of b i s ps]
    by (simp add: entries2_get2 ps(1))
  moreover have "same_tenant b m ?m" if "b \<noteq> a" for b
    using exec_all_same_tenant [OF assms ps(2)] that ps(1) by simp
  ultimately show ?thesis
    using by_ops_reachable [OF R assms] by (auto simp: list_all_iff)
qed

text \<open>The debit, the credit and the engine of the examples.\<close>

definition sample_engine :: Engine where
  "sample_engine = \<lparr>eng_rules = (\<lambda>_. Inr []), eng_salt = (\<lambda>_. Inr ''salt''), eng_hash = rev\<rparr>"

definition sample_debit_event :: DebitEvent where
  "sample_debit_event = \<lparr>de_TenantID = ''t'', de_TransactionID = ''x'', de_IdempotencyKey = ''k'',
    de_TransactionType = ''nip'', de_Provider = ''p'', de_AmountMinor = 100, de_Currency = ''NGN'',
    de_DebitAt = 5, de_CustomerRef = ''ada'', de_Metadata = [], de_ExpectedCreditMinor = 0, de_IsBackfill = False\<rparr>"

definition sample_arrival :: "string \<Rightarrow> int \<Rightarrow> CreditEvent" where
  "sample_arrival key amount = \<lparr>ce_TenantID = ''t'', ce_TransactionID = ''x'', ce_IdempotencyKey = key,
    ce_CreditAt = 7, ce_ProviderReference = '''', ce_Status = CreditSuccess, ce_AmountMinor = amount, ce_Currency = ''''\<rparr>"

theorem batch_refines_store_witness:
  "let m = snd (Apply sample_engine (memory_store 1) ''t'' [NewDebitEvent sample_debit_event] NewMemory)
   in reachable m \<and> same_tenant ''u'' NewMemory m \<and> stored m ''t'' ''x'' \<noteq> None"
proof -
  let ?m = "snd (Apply sample_engine (memory_store 1) ''t'' [NewDebitEvent sample_debit_event] NewMemory)"
  note batch = batch_refines_store [OF start, of sample_engine 1 "''t''" "[NewDebitEvent sample_debit_event]"]
  have r: "reachable ?m" by (rule batch [THEN conjunct1])
  have "''u'' = ''t'' \<or> same_tenant ''u'' NewMemory ?m" by (rule batch [THEN conjunct2, THEN conjunct1, THEN spec])
  then have u: "same_tenant ''u'' NewMemory ?m" by (rule disjE) simp_all
  have x: "stored ?m ''t'' ''x'' \<noteq> None" by code_simp
  show ?thesis unfolding Let_def by (rule conjI [OF r conjI [OF u x]])
qed

section \<open>What a batch adds to the store\<close>

definition same_debit :: "transaction \<Rightarrow> transaction \<Rightarrow> bool" where
  "same_debit u t \<longleftrightarrow> same_identity (u\<lparr>tx_ID := tx_ID t, tx_CreatedAt := tx_CreatedAt t\<rparr>) t"

definition origin :: "string \<Rightarrow> (transaction \<Rightarrow> bool) \<Rightarrow> (CreditEvent \<Rightarrow> bool) \<Rightarrow> memory \<Rightarrow> memory \<Rightarrow> bool" where
  "origin a goodd goodc m m' \<longleftrightarrow>
    (store_ok m \<longrightarrow> store_ok m' \<and>
      (\<forall>b i s. stored m b i = Some s \<longrightarrow> (\<exists>t. stored m' b i = Some t \<and> same_identity s t)) \<and>
      (\<forall>b i t. stored m b i = None \<and> stored m' b i = Some t \<longrightarrow>
        b = a \<and> (\<exists>u. goodd u \<and> tx_TransactionID u = i \<and> same_debit u t))) \<and>
    (\<forall>b i c. get2 (m_parked m') b i = Some c \<longrightarrow>
      get2 (m_parked m) b i = Some c \<or> b = a \<and> i = ce_TransactionID c \<and> goodc c)"

lemma originI:
  assumes "store_ok m \<Longrightarrow> store_ok m'"
    and "\<And>b i s. store_ok m \<Longrightarrow> stored m b i = Some s \<Longrightarrow> \<exists>t. stored m' b i = Some t \<and> same_identity s t"
    and "\<And>b i t. store_ok m \<Longrightarrow> stored m b i = None \<Longrightarrow> stored m' b i = Some t \<Longrightarrow>
      b = a \<and> (\<exists>u. D u \<and> tx_TransactionID u = i \<and> same_debit u t)"
    and "\<And>b i c. get2 (m_parked m') b i = Some c \<Longrightarrow>
      get2 (m_parked m) b i = Some c \<or> b = a \<and> i = ce_TransactionID c \<and> C c"
  shows "origin a D C m m'"
  unfolding origin_def
proof (intro conjI allI impI)
  fix b i t
  assume "store_ok m" "stored m b i = None \<and> stored m' b i = Some t"
  then show "b = a" "\<exists>u. D u \<and> tx_TransactionID u = i \<and> same_debit u t" using assms(3) by blast+
qed (use assms in blast)+

lemma origin_refl: "reflp (origin a D C)"
  by (auto simp: reflp_def origin_def)

lemma same_debit_trans: "same_debit u s \<Longrightarrow> same_identity s t \<Longrightarrow> same_debit u t"
  by (auto simp: same_debit_def same_identity_def)

lemma origin_trans: "transp (origin a D C)"
proof (rule transpI)
  fix x y z
  assume xy: "origin a D C x y" and yz: "origin a D C y z"
  have rows: "store_ok z \<and> (\<forall>b i s. stored x b i = Some s \<longrightarrow> (\<exists>t. stored z b i = Some t \<and> same_identity s t)) \<and>
      (\<forall>b i t. stored x b i = None \<and> stored z b i = Some t \<longrightarrow>
        b = a \<and> (\<exists>u. D u \<and> tx_TransactionID u = i \<and> same_debit u t))" if ok: "store_ok x"
  proof (intro conjI allI impI)
    show "store_ok z" using ok xy yz by (simp add: origin_def)
  next
    fix b i s
    assume "stored x b i = Some s"
    with ok xy obtain t where t: "stored y b i = Some t" "same_identity s t" "store_ok y"
      unfolding origin_def by blast
    with yz obtain t' where "stored z b i = Some t'" "same_identity t t'"
      unfolding origin_def by blast
    with t show "\<exists>t. stored z b i = Some t \<and> same_identity s t" by (blast intro: same_identity_trans)
  next
    fix b i t
    assume new: "stored x b i = None \<and> stored z b i = Some t"
    have y: "store_ok y" using ok xy by (simp add: origin_def)
    show "b = a" "\<exists>u. D u \<and> tx_TransactionID u = i \<and> same_debit u t"
    proof (atomize (full), cases "stored y b i")
      case None
      with y yz new show "b = a \<and> (\<exists>u. D u \<and> tx_TransactionID u = i \<and> same_debit u t)"
        unfolding origin_def by blast
    next
      case (Some s)
      with ok xy new obtain u where u: "b = a" "D u" "tx_TransactionID u = i" "same_debit u s"
        unfolding origin_def by blast
      from y yz Some new have "same_identity s t" unfolding origin_def by fastforce
      with u show "b = a \<and> (\<exists>u. D u \<and> tx_TransactionID u = i \<and> same_debit u t)"
        by (blast intro: same_debit_trans)
    qed
  qed
  have "get2 (m_parked z) b i = Some c \<Longrightarrow>
      get2 (m_parked x) b i = Some c \<or> b = a \<and> i = ce_TransactionID c \<and> C c" for b i c
    using xy yz unfolding origin_def by blast
  with rows show "origin a D C x z" unfolding origin_def by blast
qed

lemma in_place_origin:
  assumes "in_place m m'" "m_parked m' = m_parked m"
  shows "origin a D C m m'"
proof -
  have rows: "rel_option evolves (stored m b i) (stored m' b i)" if "store_ok m" for b i
    using that assms(1) by (simp add: in_place_def)
  have "\<exists>t. stored m' b i = Some t \<and> same_identity s t" if "store_ok m" "stored m b i = Some s" for b i s
    using rows [OF that(1), of b i] that(2) by (auto simp: evolves_def option_rel_Some1)
  moreover have "stored m' b i = None" if "store_ok m" "stored m b i = None" for b i
    using rows [OF that(1), of b i] that(2) by simp
  moreover have "store_ok m'" if "store_ok m" by (rule store_ok_in_place [OF that assms(1)])
  ultimately show ?thesis
    using assms(2) by (intro originI) simp_all
qed

lemma in_place_origin_park:
  assumes "in_place m m'" "\<And>b i c. get2 (m_parked m') b i = Some c \<Longrightarrow>
    get2 (m_parked m) b i = Some c \<or> b = a \<and> i = ce_TransactionID c \<and> C c"
  shows "origin a D C m m'"
proof -
  have "origin a D C m (m'\<lparr>m_parked := m_parked m\<rparr>)"
    by (rule in_place_origin) (use assms(1) in \<open>simp_all add: in_place_def\<close>)
  moreover have "store_ok (m'\<lparr>m_parked := m_parked m\<rparr>) = store_ok m'" by (simp add: store_ok_def)
  ultimately show ?thesis unfolding origin_def using assms(2) by simp
qed

lemma upsert_parked [simp]: "m_parked (fst (upsert_loop a now txns m res)) = m_parked m"
  by (induction txns arbitrary: m res) (simp_all add: upsert_loop_Cons insert_debit_def)

lemma stamped_same_debit: "t = stamped i now u \<Longrightarrow> same_debit u t"
  by (simp add: same_debit_def stamped_def same_identity_def)

lemma upsert_origin:
  assumes "list_all D txns"
  shows "origin a D C m (snd (UpsertDebits a txns now m))"
proof (cases "\<forall>t\<in>set txns. tx_TenantID t = a")
  case True
  let ?m' = "fst (upsert_loop a now txns (with_tenant a m) \<lparr>Inserted = [], Duplicates = []\<rparr>)"
  have m': "snd (UpsertDebits a txns now m) = ?m'" by (simp add: UpsertDebits_ok [OF True])
  have new: "b = a \<and> (\<exists>u. D u \<and> tx_TransactionID u = i \<and> same_debit u t)"
    if h: "stored m b i = None" "stored ?m' b i = Some t" for b i t
  proof -
    from upsert_new [OF h(2)] h(1) obtain u where
      u: "b = a" "u \<in> set txns" "tx_TransactionID u = i" "t = stamped (tx_ID t) now u" by auto
    note stamped_same_debit [OF u(4)]
    with u assms show ?thesis by (auto simp: list_all_iff)
  qed
  have old: "stored m b i = Some s \<Longrightarrow> stored ?m' b i = Some s" for b i s
    by (simp add: upsert_keeps)
  have ok: "store_ok m \<Longrightarrow> store_ok ?m'" using UpsertDebits_store_ok [of m a txns now] m' by simp
  have parked: "m_parked ?m' = m_parked m" by (simp add: with_tenant_def)
  show ?thesis
    unfolding m' by (rule originI) (use ok old new parked in simp_all)
next
  case False
  then show ?thesis by (simp add: UpsertDebits_mismatch origin_refl [THEN reflpD])
qed


lemma park_origin: "C c \<Longrightarrow> origin a D C m (snd (ParkCredit a c m))"
  by (rule in_place_origin_park [OF ParkCredit_in_place])
    (auto simp: ParkCredit_def Let_def get2_put2 split: if_splits)

lemma delete_origin: "origin a D C m (snd (DeleteParkedCredit a i m))"
  by (rule in_place_origin_park [OF DeleteParkedCredit_in_place])
    (auto simp: DeleteParkedCredit_def get2_del2 split: if_splits)

lemma credits_parked [simp]:
  "m_parked (snd (ApplyCredit a i target at now m)) = m_parked m"
  "m_parked (snd (ApplyPartialCredit a c now m)) = m_parked m"
  by (simp_all add: ApplyCredit_def ApplyPartialCredit_def Let_def split: option.split)

interpretation orig: correlation "memory_store now" a "origin a D C" D C
proof (unfold_locales, goal_cases)
  case 3 then show ?case by (simp add: keeps_def memory_store_def upsert_origin)
next
  case 4 then show ?case by (simp add: keeps_def memory_store_def in_place_origin ApplyCredit_in_place)
next
  case 5 then show ?case by (simp add: keeps_def memory_store_def in_place_origin ApplyPartialCredit_in_place)
next
  case 6 then show ?case by (simp add: keeps_def memory_store_def park_origin)
next
  case 7 then show ?case
    by (simp add: keeps_def memory_store_def PeekParkedCredits_def origin_refl [THEN reflpD])
next
  case 8 then show ?case by (simp add: keeps_def memory_store_def delete_origin)
qed (rule origin_refl, rule origin_trans)

lemma Apply_origin:
  "origin a (accepted_debit E a events) (accepted_credit a events) m (snd (Apply E (memory_store now) a events m))"
  by (rule orig.Apply_keeps [THEN keepsD]) assumption+

text \<open>A rule's choice depends only on the fields it matches on.\<close>

lemma Resolve_cong:
  assumes "tx_TransactionType u = tx_TransactionType t" "tx_Provider u = tx_Provider t"
    "tx_Currency u = tx_Currency t" "tx_AmountMinor u = tx_AmountMinor t"
  shows "Resolve rs u = Resolve rs t"
proof -
  have "matches r u = matches r t" for r unfolding matches_def assms ..
  then have "best_loop rs u b = best_loop rs t b" for b
    by (induction rs arbitrary: b) (auto split: option.split)
  then show ?thesis by (simp add: Resolve_def)
qed

lemma toTransaction_window:
  assumes "toTransaction hash d rs salt = Inr u"
  shows "tx_ExpectedCompletionAt u = tx_DebitAt u + res_Window (Resolve rs u)"
proof -
  obtain v where v: "u = v\<lparr>tx_ExpectedCompletionAt := de_DebitAt d + res_Window (Resolve rs v)\<rparr>"
    "tx_DebitAt v = de_DebitAt d"
    using assms by (auto simp: toTransaction_def Let_def split: option.splits)
  moreover have "Resolve rs u = Resolve rs v" by (rule Resolve_cong) (simp_all add: v(1))
  ultimately show ?thesis by (simp add: v(1))
qed

text \<open>
  C17. What a batch stores has been screened. A transaction appears only for a debit event of
  the batch that names the batch's tenant and passes validation; its metadata passes the
  screen, its id holds no card number, the customer's reference is stored only as its salted
  hash, and its deadline is the debit's time plus the window of the tenant's rules. A credit
  is parked only if its id and provider reference hold no card number.
\<close>

theorem batch_stores_screened:
  assumes "reachable m" "eng_rules E a = Inr rs" "eng_salt E a = Inr salt"
    and "m' = snd (Apply E (memory_store now) a events m)"
  shows "(\<forall>b i t. stored m b i = None \<and> stored m' b i = Some t \<longrightarrow> b = a \<and>
      (\<exists>d. NewDebitEvent d \<in> set events \<and> Event_Validate (NewDebitEvent d) = None \<and> de_TenantID d = a \<and>
        de_TransactionID d = i \<and> \<not> ContainsCardNumber i \<and> tx_AmountMinor t = de_AmountMinor d \<and>
        tx_Metadata t = de_Metadata d \<and> ScreenMetadata (tx_Metadata t) = None \<and>
        tx_CustomerRefHash t = HashCustomerRef (eng_hash E) salt (de_CustomerRef d) \<and>
        tx_ExpectedCompletionAt t = de_DebitAt d + res_Window (Resolve rs t))) \<and>
    (\<forall>b i c. get2 (m_parked m') b i = Some c \<and> get2 (m_parked m) b i \<noteq> Some c \<longrightarrow> b = a \<and>
      ce_TenantID c = a \<and> ce_TransactionID c = i \<and> Event_Validate (NewCreditEvent c) = None \<and>
      \<not> ContainsCardNumber i \<and> \<not> ContainsCardNumber (ce_ProviderReference c))"
proof (intro conjI allI impI; (elim conjE)?)
  note O = Apply_origin [of a E events m now, folded assms(4)]
  fix b i t
  assume "stored m b i = None" "stored m' b i = Some t"
  with O reachable_store_ok [OF assms(1)] obtain u where
    u: "b = a" "accepted_debit E a events u" "tx_TransactionID u = i" "same_debit u t"
    unfolding origin_def by blast
  then obtain d where d: "NewDebitEvent d \<in> set events" "DebitEvent_Validate d = None" "de_TenantID d = a"
    "toTransaction (eng_hash E) d rs salt = Inr u"
    by (auto simp: accepted_debit_def assms(2,3))
  note eq = u(4) [unfolded same_debit_def same_identity_def, simplified]
  have "Resolve rs u = Resolve rs t" by (rule Resolve_cong) (use eq in simp_all)
  then have "tx_ExpectedCompletionAt t = de_DebitAt d + res_Window (Resolve rs t)"
    using toTransaction_window [OF d(4)] toTransaction_Inr(7) [OF d(4)] eq by simp
  with u(1,3) d eq toTransaction_Inr [OF d(4)] show "b = a" and
    "\<exists>d. NewDebitEvent d \<in> set events \<and> Event_Validate (NewDebitEvent d) = None \<and> de_TenantID d = a \<and>
        de_TransactionID d = i \<and> \<not> ContainsCardNumber i \<and> tx_AmountMinor t = de_AmountMinor d \<and>
        tx_Metadata t = de_Metadata d \<and> ScreenMetadata (tx_Metadata t) = None \<and>
        tx_CustomerRefHash t = HashCustomerRef (eng_hash E) salt (de_CustomerRef d) \<and>
        tx_ExpectedCompletionAt t = de_DebitAt d + res_Window (Resolve rs t)"
    by (auto simp: Event_Validate_def NewDebitEvent_def intro!: exI [of _ d])
next
  note O = Apply_origin [of a E events m now, folded assms(4)]
  fix b i c
  assume "get2 (m_parked m') b i = Some c" "get2 (m_parked m) b i \<noteq> Some c"
  with O have c: "b = a" "i = ce_TransactionID c" "accepted_credit a events c"
    unfolding origin_def by blast+
  then show "b = a" "ce_TenantID c = a" "ce_TransactionID c = i" "Event_Validate (NewCreditEvent c) = None"
    "\<not> ContainsCardNumber i" "\<not> ContainsCardNumber (ce_ProviderReference c)"
    by (auto simp: accepted_credit_def screenCredit_def ScreenString_def Event_Validate_def NewCreditEvent_def
        split: if_splits)
qed

theorem batch_stores_screened_witness:
  "let m' = snd (Apply sample_engine (memory_store 1) ''t'' [NewDebitEvent sample_debit_event] NewMemory)
   in \<exists>t. stored m' ''t'' ''x'' = Some t \<and> tx_CustomerRefHash t = rev ''salt|ada'' \<and>
     ScreenMetadata (tx_Metadata t) = None"
proof -
  let ?m' = "snd (Apply sample_engine (memory_store 1) ''t'' [NewDebitEvent sample_debit_event] NewMemory)"
  have "stored ?m' ''t'' ''x'' \<noteq> None" by code_simp
  then obtain t where t: "stored ?m' ''t'' ''x'' = Some t" by blast
  have none: "stored NewMemory ''t'' ''x'' = None" by (simp add: NewMemory_def)
  have "eng_rules sample_engine ''t'' = Inr []" "eng_salt sample_engine ''t'' = Inr ''salt''"
    by (simp_all add: sample_engine_def)
  from batch_stores_screened [OF start this refl, THEN conjunct1, rule_format, OF conjI [OF none t]] t
  show ?thesis
    unfolding Let_def
    by (auto simp: NewDebitEvent_def sample_debit_event_def sample_engine_def HashCustomerRef_def)
qed

section \<open>Every batch completes\<close>

definition parked_ok :: "memory \<Rightarrow> bool" where
  "parked_ok m \<longleftrightarrow> (\<forall>a i c. get2 (m_parked m) a i = Some c \<longrightarrow> verdict_ok c)"

lemma refusesI:
  "(\<And>s. I s \<Longrightarrow> I (snd (f s)) \<and> (\<forall>e. fst (f s) = Inl e \<longrightarrow> E e)) \<Longrightarrow> refuses I f E"
  unfolding refuses_def by (fastforce split: prod.split sum.split)

lemma ApplyCredit_refuses: "refuses parked_ok (ApplyCredit a i target at now) refusal"
proof (rule refusesI)
  fix m
  assume "parked_ok m"
  moreover have "m_parked (snd (ApplyCredit a i target at now m)) = m_parked m" by simp
  moreover have "fst (ApplyCredit a i target at now m) = Inl e \<Longrightarrow> refusal e" for e
    by (cases "stored m a i"; cases "CanTransition (tx_Status (the (stored m a i))) target")
      (auto simp: store_simps refusal_def)
  ultimately show "parked_ok (snd (ApplyCredit a i target at now m)) \<and> (\<forall>e. fst (ApplyCredit a i target at now m) = Inl e \<longrightarrow> refusal e)"
    by (simp add: parked_ok_def)
qed

lemma ApplyPartialCredit_refuses: "refuses parked_ok (ApplyPartialCredit a c now) refusal"
proof (rule refusesI)
  fix m
  assume "parked_ok m"
  moreover have "m_parked (snd (ApplyPartialCredit a c now m)) = m_parked m" by simp
  moreover have "refusal e" if "fst (ApplyPartialCredit a c now m) = Inl e" for e
  proof (cases "stored m a (ce_TransactionID c)")
    case None
    with that show ?thesis by (simp add: ApplyPartialCredit_missing refusal_def)
  next
    case (Some s)
    with that show ?thesis
      by (cases "IsOpen (tx_Status s)"; cases "ce_IdempotencyKey c \<in> set (inner (m_applied m) a)")
        (auto simp: ApplyPartialCredit_closed ApplyPartialCredit_replay ApplyPartialCredit_fresh refusal_def)
  qed
  ultimately show "parked_ok (snd (ApplyPartialCredit a c now m)) \<and> (\<forall>e. fst (ApplyPartialCredit a c now m) = Inl e \<longrightarrow> refusal e)"
    by (simp add: parked_ok_def)
qed

interpretation dep: dependable_store "memory_store now" a parked_ok
proof (unfold_locales, goal_cases)
  case (1 txns)
  then have t: "\<forall>u\<in>set txns. tx_TenantID u = a" by (simp add: list_all_iff)
  have "length (Inserted (snd (upsert_loop a now txns m res))) + length (Duplicates (snd (upsert_loop a now txns m res))) =
      length (Inserted res) + length (Duplicates res) + length txns" for m res
    using arg_cong [OF upsert_mset [of a now txns m res], of size] by simp
  with t show ?case
    by (auto simp: total_def memory_store_def UpsertDebits_ok parked_ok_def with_tenant_def)
next
  case 2 then show ?case by (simp add: memory_store_def ApplyCredit_refuses)
next
  case 3 then show ?case by (simp add: memory_store_def ApplyPartialCredit_refuses)
next
  case (4 c) then show ?case
    by (auto simp: total_def memory_store_def ParkCredit_def Let_def parked_ok_def get2_put2)
next
  case 5
  have "length (List.map_filter f xs) \<le> length xs" for f :: "string \<Rightarrow> CreditEvent option" and xs
    by (simp add: List.map_filter_def)
  then show ?case
    by (auto simp: total_def memory_store_def PeekParkedCredits_def parked_ok_def list_all_iff List.map_filter_def)
next
  case 6 then show ?case
    by (auto simp: total_def memory_store_def DeleteParkedCredit_def parked_ok_def get2_del2)
qed

text \<open>A history of batches, for any tenants and with whatever the providers answered.\<close>

type_synonym batch = "Engine \<times> gotime \<times> string \<times> Event list"

fun ingest :: "batch \<Rightarrow> memory \<Rightarrow> (CorrelateResult \<times> goerror option) \<times> memory" where
  "ingest (E, now, a, events) m =
    (case Apply E (memory_store now) a events m of
       (Inr r, m') \<Rightarrow> (r, m')
     | (Inl e, m') \<Rightarrow> ((no_result, Some e), m'))"

lemma ingest_parked_ok: "parked_ok m \<Longrightarrow> parked_ok (snd (ingest b m))"
proof (cases b)
  fix E now a events
  assume ok: "parked_ok m" and b: "b = (E, now, a, events)"
  have "parked_ok (snd (Apply E (memory_store now) a events m))"
    unfolding parked_ok_def
  proof (intro allI impI)
    fix a' i c
    assume "get2 (m_parked (snd (Apply E (memory_store now) a events m))) a' i = Some c"
    with Apply_origin [of a E events m now]
    have "get2 (m_parked m) a' i = Some c \<or> accepted_credit a events c" unfolding origin_def by blast
    with ok show "verdict_ok c" by (auto simp: parked_ok_def accepted_credit_def CreditEvent_Validate_None)
  qed
  then show ?thesis by (auto simp: b split: prod.splits sum.splits)
qed

lemma run_ingest_parked_ok: "parked_ok m \<Longrightarrow> parked_ok (snd (run_ops ingest bs m))"
  by (induction bs arbitrary: m) (auto simp: Let_def split_beta ingest_parked_ok)



end
