(* ===== verification/Correlate_Order.thy ===== *)
theory Correlate_Order
  imports Correlate_Memory
begin

text \<open>
  The two legs of one transaction in any order: a credit that arrives before its debit is
  parked and applied when the debit comes, and the outcome is that of the other orders. Only
  one parked credit is kept per transaction, and the last theorem shows what that costs.
\<close>

section \<open>One credit against a pending transaction\<close>

definition credit_row :: "CreditEvent \<Rightarrow> status \<Rightarrow> gotime \<Rightarrow> transaction \<Rightarrow> transaction" where
  "credit_row c target now s =
    (if ce_AmountMinor c > 0 \<and> target = StatusCompleted then partially_credited c now s
     else credited target (ce_CreditAt c) now s)"

definition settlement :: "transaction \<Rightarrow> status \<times> int \<times> gotime option" where
  "settlement t = (tx_Status t, tx_CreditedMinor t, tx_CreditAt t)"

lemma settlement_credit_row:
  "tx_Status u = StatusPendingDebit \<Longrightarrow>
    settlement (credit_row c target now (stamped n now' u)) = settlement (credit_row c target 0 u)"
  by (simp add: settlement_def credit_row_def partially_credited_def credited_def stamped_def ExpectedCredit_def Let_def)

lemma tryApply_missing:
  "TargetStatus (ce_Status c) = Inr target \<Longrightarrow> stored m a (ce_TransactionID c) = None \<Longrightarrow>
    tryApply (memory_store now) a c m = (Inr creditNotFound, m)"
  by (simp add: tryApply_def attempt_def memory_store_def ret_def ApplyCredit_missing ApplyPartialCredit_missing)

lemma tryApply_pending:
  assumes "TargetStatus (ce_Status c) = Inr target" "stored m a (ce_TransactionID c) = Some s"
    and "tx_Status s = StatusPendingDebit" "ce_IdempotencyKey c \<notin> set (inner (m_applied m) a)"
  obtains m' where "tryApply (memory_store now) a c m = (Inr creditApplied, m')"
    "stored m' a (ce_TransactionID c) = Some (credit_row c target now s)" "m_parked m' = m_parked m"
    "set (inner (m_applied m') a) \<subseteq> insert (ce_IdempotencyKey c) (set (inner (m_applied m) a))"
proof -
  have can: "CanTransition (tx_Status s) target"
    using TargetStatus_Inr [OF assms(1)] assms(3) by (auto simp: CanTransition_def dests_def allowedTransitions_def)
  have "IsOpen (tx_Status s)" using assms(3) by (simp add: IsOpen_def)
  note partial = ApplyPartialCredit_fresh [OF assms(2) this assms(4), of now]
  note full = ApplyCredit_ok [OF assms(2) can, of "ce_CreditAt c" now]
  show thesis
    by (rule that [of "snd (tryApply (memory_store now) a c m)"])
      (auto simp: tryApply_def attempt_def memory_store_def ret_def assms(1) partial full credit_row_def)
qed

section \<open>Batches of one debit or one credit\<close>

text \<open>Both legs are valid, pass the screen and belong to one transaction of tenant \<open>a\<close>.\<close>

definition debit_leg :: "Engine \<Rightarrow> string \<Rightarrow> DebitEvent \<Rightarrow> transaction \<Rightarrow> bool" where
  "debit_leg E a d u \<longleftrightarrow> DebitEvent_Validate d = None \<and> de_TenantID d = a \<and>
    (\<exists>rs salt. eng_rules E a = Inr rs \<and> eng_salt E a = Inr salt \<and> toTransaction (eng_hash E) d rs salt = Inr u)"

definition credit_leg :: "string \<Rightarrow> string \<Rightarrow> CreditEvent \<Rightarrow> status \<Rightarrow> bool" where
  "credit_leg a i c target \<longleftrightarrow> CreditEvent_Validate c = None \<and> ce_TenantID c = a \<and> ce_TransactionID c = i \<and>
    screenCredit c = None \<and> TargetStatus (ce_Status c) = Inr target"

lemma memory_store_simps [simp]:
  "ts_UpsertDebits (memory_store now) a txns = UpsertDebits a txns now"
  "ts_PeekParkedCredits (memory_store now) = PeekParkedCredits"
  "ts_ParkCredit (memory_store now) = ParkCredit"
  "ts_DeleteParkedCredit (memory_store now) = DeleteParkedCredit"
  by (simp_all add: memory_store_def)

lemma debit_leg_u:
  assumes "debit_leg E a d u"
  shows "tx_TenantID u = a" "tx_TransactionID u = de_TransactionID d" "tx_IdempotencyKey u = de_IdempotencyKey d"
    "tx_Status u = StatusPendingDebit"
  using assms toTransaction_Inr by (auto simp: debit_leg_def)


lemma upsert_one:
  assumes "\<not> known m a u" "tx_TenantID u = a"
  shows "UpsertDebits a [u] now m =
    (Inr \<lparr>Inserted = [tx_TransactionID u], Duplicates = []\<rparr>, insert_debit a now u (with_tenant a m))"
proof -
  have "inner (m_idem (with_tenant a m)) a = [] \<or> inner (m_idem (with_tenant a m)) a = inner (m_idem m) a"
    by (simp add: with_tenant_def)
  then have "\<not> known (with_tenant a m) a u"
    using assms(1) by (auto simp: known_def)
  then show ?thesis using assms(2) by (simp add: UpsertDebits_ok upsert_loop_Cons)
qed

lemma peek_one:
  "PeekParkedCredits a [j] m = (Inr (case get2 (m_parked m) a j of None \<Rightarrow> [] | Some c \<Rightarrow> [c]), m)"
  by (simp add: PeekParkedCredits_def List.map_filter_def split: option.split)

lemma drain_none:
  "get2 (m_parked m) a j = None \<Longrightarrow> drainParked (memory_store now) a [j] m = (Inr 0, m)"
  by (simp add: drainParked_def seq_def wrapping_def peek_one ret_def)

lemma drain_absent:
  "get2 (m_parked m) a j = Some c \<Longrightarrow> ce_TransactionID c = j \<Longrightarrow> TargetStatus (ce_Status c) = Inr target \<Longrightarrow>
    stored m a j = None \<Longrightarrow> drainParked (memory_store now) a [j] m = (Inr 0, m)"
  by (simp add: drainParked_def seq_def wrapping_def peek_one ret_def tryApply_missing)

lemma drain_pending:
  assumes "get2 (m_parked m) a i = Some c" "ce_TransactionID c = i" "TargetStatus (ce_Status c) = Inr target"
    and "stored m a i = Some s" "tx_Status s = StatusPendingDebit" "ce_IdempotencyKey c \<notin> set (inner (m_applied m) a)"
  obtains m' where "drainParked (memory_store now) a [i] m = (Inr 1, m')"
    "stored m' a i = Some (credit_row c target now s)" "get2 (m_parked m') a i = None"
proof -
  from tryApply_pending [OF assms(3) _ assms(5,6), of now] assms(2,4) obtain m1 where
    m1: "tryApply (memory_store now) a c m = (Inr creditApplied, m1)"
    "stored m1 a i = Some (credit_row c target now s)" by blast
  show thesis
    by (rule that [of "m1\<lparr>m_parked := del2 (m_parked m1) a i\<rparr>"])
      (simp_all add: drainParked_def seq_def wrapping_def peek_one ret_def m1 assms(1,2) DeleteParkedCredit_def get2_del2)
qed

lemma apply_pending:
  assumes "credit_leg a i c target" "stored m a i = Some s" "tx_Status s = StatusPendingDebit"
    and "ce_IdempotencyKey c \<notin> set (inner (m_applied m) a)"
  obtains m' where "applyCredit (memory_store now) a c m = (Inr creditApplied, m')"
    "stored m' a i = Some (credit_row c target now s)" "m_parked m' = m_parked m"
    "set (inner (m_applied m') a) \<subseteq> insert (ce_IdempotencyKey c) (set (inner (m_applied m) a))"
proof -
  have c: "TargetStatus (ce_Status c) = Inr target" "ce_TransactionID c = i"
    using assms(1) by (simp_all add: credit_leg_def)
  from tryApply_pending [OF c(1) _ assms(3,4), of now] assms(2) c(2) obtain m1 where
    m1: "tryApply (memory_store now) a c m = (Inr creditApplied, m1)"
    "stored m1 a i = Some (credit_row c target now s)" "m_parked m1 = m_parked m"
    "set (inner (m_applied m1) a) \<subseteq> insert (ce_IdempotencyKey c) (set (inner (m_applied m) a))" by blast
  then show thesis by (intro that [of m1]) (simp_all add: applyCredit_def seq_def ret_def)
qed

text \<open>A credit whose debit is absent is parked, unless one is parked already.\<close>

definition park_first :: "string \<Rightarrow> CreditEvent \<Rightarrow> memory \<Rightarrow> memory" where
  "park_first a c m = snd (ParkCredit a c m)"

lemma park_first_fields [simp]:
  "stored (park_first a c m) = stored m" "m_idem (park_first a c m) = m_idem m"
  "m_applied (park_first a c m) = m_applied m" "known (park_first a c m) = known m"
  by (auto simp: park_first_def ParkCredit_def Let_def known_def fun_eq_iff)

lemma parked_park_first:
  "ce_TenantID c = a \<Longrightarrow> get2 (m_parked (park_first a c m)) a (ce_TransactionID c) =
    (case get2 (m_parked m) a (ce_TransactionID c) of None \<Rightarrow> Some c | Some c' \<Rightarrow> Some c')"
  by (auto simp: park_first_def ParkCredit_def Let_def split: option.split)

lemma apply_absent:
  assumes "credit_leg a i c target" "stored m a i = None"
    and "\<And>c'. get2 (m_parked m) a i = Some c' \<Longrightarrow> \<exists>target'. credit_leg a i c' target'"
  shows "applyCredit (memory_store now) a c m = (Inr creditParked, park_first a c m)"
proof -
  have c: "TargetStatus (ce_Status c) = Inr target" "ce_TransactionID c = i" "ce_TenantID c = a"
    using assms(1) by (simp_all add: credit_leg_def)
  obtain c' where c': "get2 (m_parked (park_first a c m)) a i = Some c'"
    using parked_park_first [OF c(3), of m] c(2) by (cases "get2 (m_parked m) a i") auto
  then have "\<exists>target'. credit_leg a i c' target'"
    using parked_park_first [OF c(3), of m] c(2) assms(1,3) by (auto split: option.splits)
  then obtain target' where "ce_TransactionID c' = i" "TargetStatus (ce_Status c') = Inr target'"
    by (auto simp: credit_leg_def)
  with c' assms(2) have drain: "drainParked (memory_store now) a [i] (park_first a c m) = (Inr 0, park_first a c m)"
    by (intro drain_absent) simp_all
  have "ParkCredit a c m = (Inr (), park_first a c m)"
    using c(3) by (simp add: park_first_def ParkCredit_def Let_def)
  with drain c assms(2) show ?thesis
    by (simp add: applyCredit_def seq_def wrapping_def ret_def tryApply_missing)
qed


text \<open>What a batch of one debit, of one credit, or of both does to the state.\<close>

lemma sorted_legs:
  assumes "debit_leg E a d u" "eng_rules E a = Inr rs" "eng_salt E a = Inr salt" "credit_leg a (de_TransactionID d) c target"
  shows "sort_events (eng_hash E) a rs salt [NewDebitEvent d] ([], [], []) = ([], [u], [])"
    "sort_events (eng_hash E) a rs salt [NewCreditEvent c] ([], [], []) = ([], [], [c])"
    "sort_events (eng_hash E) a rs salt [NewDebitEvent d, NewCreditEvent c] ([], [], []) = ([], [u], [c])"
    "sort_events (eng_hash E) a rs salt [NewCreditEvent c, NewDebitEvent d] ([], [], []) = ([], [u], [c])"
  using assms by (auto simp: debit_leg_def credit_leg_def NewDebitEvent_def NewCreditEvent_def Event_TenantID_def
      Event_Validate_def Let_def)

lemma ingest_one_credit:
  assumes "debit_leg E a d u" "credit_leg a (de_TransactionID d) c target"
    and "applyCredit (memory_store now) a c m = (Inr out, m')"
  shows "snd (ingest (E, now, a, [NewCreditEvent c]) m) = m'"
proof -
  obtain rs salt where e: "eng_rules E a = Inr rs" "eng_salt E a = Inr salt"
    using assms(1) by (auto simp: debit_leg_def)
  from sorted_legs(2) [OF assms(1) e assms(2)] assms(3) e show ?thesis
    by (simp add: Apply_def attempt_def ret_def Let_def)
qed

lemma ingest_one_debit:
  assumes "debit_leg E a d u" "credit_leg a (de_TransactionID d) c target" "\<not> known m a u"
    and "drainParked (memory_store now) a [de_TransactionID d] (insert_debit a now u (with_tenant a m)) = (Inr k, m')"
  shows "snd (ingest (E, now, a, [NewDebitEvent d]) m) = m'"
proof -
  obtain rs salt where e: "eng_rules E a = Inr rs" "eng_salt E a = Inr salt"
    using assms(1) by (auto simp: debit_leg_def)
  from sorted_legs(1) [OF assms(1) e assms(2)] assms(4) e upsert_one [OF assms(3) debit_leg_u(1) [OF assms(1)]]
    debit_leg_u(2) [OF assms(1)]
  show ?thesis by (simp add: Apply_def attempt_def wrapping_def ret_def Let_def)
qed

lemma ingest_both:
  assumes "debit_leg E a d u" "credit_leg a (de_TransactionID d) c target" "\<not> known m a u"
    and "drainParked (memory_store now) a [de_TransactionID d] (insert_debit a now u (with_tenant a m)) = (Inr k, m1)"
    and "applyCredit (memory_store now) a c m1 = (Inr out, m')"
    and "evs \<in> {[NewDebitEvent d, NewCreditEvent c], [NewCreditEvent c, NewDebitEvent d]}"
  shows "snd (ingest (E, now, a, evs) m) = m'"
proof -
  obtain rs salt where e: "eng_rules E a = Inr rs" "eng_salt E a = Inr salt"
    using assms(1) by (auto simp: debit_leg_def)
  have "sort_events (eng_hash E) a rs salt evs ([], [], []) = ([], [u], [c])"
    using sorted_legs(3,4) [OF assms(1) e assms(2)] assms(6) by auto
  with assms(4,5) e upsert_one [OF assms(3) debit_leg_u(1) [OF assms(1)]] debit_leg_u(2) [OF assms(1)]
  show ?thesis by (simp add: Apply_def attempt_def wrapping_def ret_def Let_def)
qed

lemma inserted_fields:
  assumes "debit_leg E a d u"
  shows "stored (insert_debit a now u (with_tenant a m)) a (de_TransactionID d) =
      Some (stamped (m_nextID m + 1) now u)"
    "m_parked (insert_debit a now u (with_tenant a m)) = m_parked m"
    "m_applied (insert_debit a now u (with_tenant a m)) = m_applied m"
  using debit_leg_u [OF assms] by (simp_all add: stored_insert) (simp_all add: insert_debit_def with_tenant_def)

section \<open>The outcome does not depend on the order of the legs\<close>

definition outcome_of :: "memory \<Rightarrow> string \<Rightarrow> string \<Rightarrow> (status \<times> int \<times> gotime option) option" where
  "outcome_of m a i = map_option settlement (stored m a i)"

lemma stamped_pending [simp]: "tx_Status (stamped n now u) = StatusPendingDebit"
  by (simp add: stamped_def)

text \<open>A parked credit meets its debit.\<close>

lemma parked_then_debit:
  assumes d: "debit_leg E a d u" and c: "credit_leg a (de_TransactionID d) c target"
    and new: "\<not> known m a u" "ce_IdempotencyKey c \<notin> set (inner (m_applied m) a)"
    and parked: "get2 (m_parked m) a (de_TransactionID d) = Some c"
    and m': "m' = snd (ingest (E, now, a, [NewDebitEvent d]) m)"
  shows "outcome_of m' a (de_TransactionID d) = Some (settlement (credit_row c target 0 u))"
    "get2 (m_parked m') a (de_TransactionID d) = None"
proof -
  let ?m1 = "insert_debit a now u (with_tenant a m)" and ?i = "de_TransactionID d"
  have "get2 (m_parked ?m1) a ?i = Some c" using parked by (simp add: inserted_fields [OF d])
  moreover have "ce_TransactionID c = ?i" "TargetStatus (ce_Status c) = Inr target" using c by (simp_all add: credit_leg_def)
  moreover have "ce_IdempotencyKey c \<notin> set (inner (m_applied ?m1) a)" using new by (simp add: inserted_fields [OF d])
  ultimately obtain m2 where m2: "drainParked (memory_store now) a [?i] ?m1 = (Inr 1, m2)"
    "stored m2 a ?i = Some (credit_row c target now (stamped (m_nextID m + 1) now u))"
    "get2 (m_parked m2) a ?i = None"
    using inserted_fields(1) [OF d] by (metis drain_pending stamped_pending)
  from ingest_one_debit [OF d c new(1) m2(1)] m' have "m' = m2" by simp
  with m2 debit_leg_u(4) [OF d] show "outcome_of m' a ?i = Some (settlement (credit_row c target 0 u))"
    "get2 (m_parked m') a ?i = None"
    by (simp_all add: outcome_of_def settlement_credit_row)
qed

lemma debit_then_credit:
  assumes d: "debit_leg E a d u" and c: "credit_leg a (de_TransactionID d) c target"
    and key: "ce_IdempotencyKey c \<notin> set (inner (m_applied m) a)"
    and pending: "stored m a (de_TransactionID d) = Some (stamped n now0 u)" "get2 (m_parked m) a (de_TransactionID d) = None"
  obtains m' where "applyCredit (memory_store now) a c m = (Inr creditApplied, m')"
    "outcome_of m' a (de_TransactionID d) = Some (settlement (credit_row c target 0 u))"
    "get2 (m_parked m') a (de_TransactionID d) = None"
proof -
  from apply_pending [OF c pending(1) stamped_pending key, of now] obtain m' where
    "applyCredit (memory_store now) a c m = (Inr creditApplied, m')"
    "stored m' a (de_TransactionID d) = Some (credit_row c target now (stamped n now0 u))" "m_parked m' = m_parked m"
    by blast
  with pending(2) debit_leg_u(4) [OF d] show thesis
    by (intro that [of m']) (simp_all add: outcome_of_def settlement_credit_row)
qed


text \<open>
  C14. The legs of a transaction may arrive in any order. From any state in which the
  transaction is unknown, a debit and a credit end the same way whether they come in one
  batch, in either order, or in two batches, debit first or credit first: the credit's
  verdict and amount are applied to the debit, and nothing stays parked.
\<close>

theorem legs_in_any_order:
  assumes d: "debit_leg E a d u" and c: "credit_leg a (de_TransactionID d) c target"
    and new: "\<not> known m a u" "get2 (m_parked m) a (de_TransactionID d) = None"
    and key: "ce_IdempotencyKey c \<notin> set (inner (m_applied m) a)"
  shows "list_all (\<lambda>batches. outcome_of (snd (run_ops ingest batches m)) a (de_TransactionID d) =
        Some (settlement (credit_row c target 0 u)) \<and>
      get2 (m_parked (snd (run_ops ingest batches m))) a (de_TransactionID d) = None)
    [[(E, now1, a, [NewDebitEvent d, NewCreditEvent c])],
     [(E, now1, a, [NewCreditEvent c, NewDebitEvent d])],
     [(E, now1, a, [NewDebitEvent d]), (E, now2, a, [NewCreditEvent c])],
     [(E, now1, a, [NewCreditEvent c]), (E, now2, a, [NewDebitEvent d])]]"
proof -
  let ?i = "de_TransactionID d" and ?m1 = "insert_debit a now1 u (with_tenant a m)"
  note ins = inserted_fields [OF d, of now1 m]
  have drain: "drainParked (memory_store now1) a [?i] ?m1 = (Inr 0, ?m1)"
    using new(2) by (intro drain_none) (simp add: ins)
  have key1: "ce_IdempotencyKey c \<notin> set (inner (m_applied ?m1) a)" using key by (simp add: ins)
  have none1: "get2 (m_parked ?m1) a ?i = None" using new(2) by (simp add: ins)
  from debit_then_credit [OF d c key1 ins(1) none1, of now1] obtain m2 where
    m2: "applyCredit (memory_store now1) a c ?m1 = (Inr creditApplied, m2)"
    "outcome_of m2 a ?i = Some (settlement (credit_row c target 0 u))" "get2 (m_parked m2) a ?i = None" by metis
  from debit_then_credit [OF d c key1 ins(1) none1, of now2] obtain m3 where
    m3: "applyCredit (memory_store now2) a c ?m1 = (Inr creditApplied, m3)"
    "outcome_of m3 a ?i = Some (settlement (credit_row c target 0 u))" "get2 (m_parked m3) a ?i = None" by metis
  have absent: "stored m a ?i = None" using new(1) debit_leg_u(2) [OF d] by (simp add: known_def)
  have parked: "applyCredit (memory_store now1) a c m = (Inr creditParked, park_first a c m)"
    by (rule apply_absent [OF c absent]) (use new(2) in simp)
  have "get2 (m_parked (park_first a c m)) a ?i = Some c"
    using parked_park_first [of c a m] c new(2) by (simp add: credit_leg_def)
  then have late: "outcome_of (snd (ingest (E, now2, a, [NewDebitEvent d]) (park_first a c m))) a ?i =
        Some (settlement (credit_row c target 0 u))"
    "get2 (m_parked (snd (ingest (E, now2, a, [NewDebitEvent d]) (park_first a c m)))) a ?i = None"
    using parked_then_debit [OF d c, of "park_first a c m" _ now2] new(1) key by simp_all
  note both = ingest_both [OF d c new(1) drain m2(1)]
  note runs = both ingest_one_debit [OF d c new(1) drain] ingest_one_credit [OF d c m3(1)]
    ingest_one_credit [OF d c parked]
  show ?thesis
    using m2 m3 late by (simp add: split_beta Let_def runs del: ingest.simps)
qed

text \<open>The sample events are legs of one transaction, and unknown to the empty store.\<close>

definition sample_built :: transaction where
  "sample_built = projr (toTransaction rev sample_debit_event [] ''salt'')"

lemma sample_legs:
  "debit_leg sample_engine ''t'' sample_debit_event sample_built"
  "credit_leg ''t'' (de_TransactionID sample_debit_event) (sample_arrival k n) StatusCompleted \<longleftrightarrow> ident_ok k"
proof -
  have "toTransaction rev sample_debit_event [] ''salt'' = Inr sample_built" by code_simp
  moreover have "DebitEvent_Validate sample_debit_event = None" by code_simp
  ultimately show "debit_leg sample_engine ''t'' sample_debit_event sample_built"
    by (simp add: debit_leg_def sample_engine_def) (simp add: sample_debit_event_def)
  have "\<not> ContainsCardNumber ''x''" "\<not> ContainsCardNumber []" by code_simp+
  then show "credit_leg ''t'' (de_TransactionID sample_debit_event) (sample_arrival k n) StatusCompleted \<longleftrightarrow> ident_ok k"
    by (simp add: credit_leg_def sample_arrival_def sample_debit_event_def CreditEvent_Validate_None
        CreditStatus_Valid_def screenCredit_def ScreenString_def ident_ok_def maxIdentifierLen_def)
qed

lemma sample_unknown:
  "\<not> known NewMemory a u" "get2 (m_parked NewMemory) a i = None" "inner (m_applied NewMemory) a = []"
  by (simp_all add: known_def NewMemory_def)

theorem legs_in_any_order_witness:
  "list_all (\<lambda>batches. outcome_of (snd (run_ops ingest batches NewMemory)) ''t'' ''x'' =
      Some (StatusCompleted, 100, Some 7))
    [[(sample_engine, 1, ''t'', [NewCreditEvent (sample_arrival ''c'' 100), NewDebitEvent sample_debit_event])],
     [(sample_engine, 1, ''t'', [NewCreditEvent (sample_arrival ''c'' 100)]),
      (sample_engine, 2, ''t'', [NewDebitEvent sample_debit_event])]]"
proof -
  have "credit_leg ''t'' (de_TransactionID sample_debit_event) (sample_arrival ''c'' 100) StatusCompleted"
    by (simp add: sample_legs ident_ok_def maxIdentifierLen_def)
  note legs = legs_in_any_order [OF sample_legs(1) this sample_unknown(1,2), of 1 2]
  have "settlement (credit_row (sample_arrival ''c'' 100) StatusCompleted 0 sample_built) = (StatusCompleted, 100, Some 7)"
    by code_simp
  moreover have "de_TransactionID sample_debit_event = ''x''" by (simp add: sample_debit_event_def)
  ultimately show ?thesis using legs by (simp add: sample_unknown del: run_ops.simps ingest.simps)
qed

lemma partially_credited_below:
  assumes "ce_Currency c \<in> {[], tx_Currency s}" "int64 (tx_CreditedMinor s + ce_AmountMinor c)"
    and "tx_CreditedMinor s + ce_AmountMinor c < ExpectedCredit s"
  shows "partially_credited c now s = s\<lparr>tx_CreditedMinor := tx_CreditedMinor s + ce_AmountMinor c,
    tx_CreditAt := Some (ce_CreditAt c), tx_UpdatedAt := now\<rparr>"
proof -
  have "\<not> (ce_Currency c \<noteq> '''' \<and> ce_Currency c \<noteq> tx_Currency s)" using assms(1) by auto
  then show ?thesis using assms(2,3) by (simp only: partially_credited_def if_False) simp
qed

lemma partially_credited_exact:
  assumes "ce_Currency c \<in> {[], tx_Currency s}" "int64 (tx_CreditedMinor s + ce_AmountMinor c)"
    and "tx_CreditedMinor s + ce_AmountMinor c = ExpectedCredit s"
  shows "settlement (partially_credited c now s) = (StatusCompleted, ExpectedCredit s, Some (ce_CreditAt c))"
proof -
  have "\<not> (ce_Currency c \<noteq> '''' \<and> ce_Currency c \<noteq> tx_Currency s)" using assms(1) by auto
  then show ?thesis using assms(2,3) by (simp only: partially_credited_def if_False) (simp add: settlement_def Let_def)
qed

lemma stamped_fields [simp]:
  "tx_Currency (stamped n now u) = tx_Currency u" "tx_CreditedMinor (stamped n now u) = tx_CreditedMinor u"
  "ExpectedCredit (stamped n now u) = ExpectedCredit u"
  by (simp_all add: stamped_def ExpectedCredit_def)

text \<open>
  Only one credit is parked per transaction. Two partial credits that together pay a
  transaction in full complete it when they come after the debit; when they come before it,
  the second is dropped although the batch reports it as parked, and the transaction stays
  open with only the first amount.
\<close>

theorem second_parked_credit_lost:
  assumes d: "debit_leg E a d u"
    and c1: "credit_leg a (de_TransactionID d) c1 StatusCompleted" and c2: "credit_leg a (de_TransactionID d) c2 StatusCompleted"
    and new: "\<not> known m a u" "get2 (m_parked m) a (de_TransactionID d) = None"
    and keys: "ce_IdempotencyKey c1 \<notin> set (inner (m_applied m) a)" "ce_IdempotencyKey c2 \<notin> set (inner (m_applied m) a)"
      "ce_IdempotencyKey c1 \<noteq> ce_IdempotencyKey c2"
    and amounts: "0 < ce_AmountMinor c1" "0 < ce_AmountMinor c2"
      "ce_AmountMinor c1 + ce_AmountMinor c2 = ExpectedCredit u" "int64 (ExpectedCredit u)"
    and currency: "ce_Currency c1 \<in> {[], tx_Currency u}" "ce_Currency c2 \<in> {[], tx_Currency u}"
  shows "outcome_of (snd (run_ops ingest
        [(E, n1, a, [NewDebitEvent d]), (E, n2, a, [NewCreditEvent c1]), (E, n3, a, [NewCreditEvent c2])] m))
      a (de_TransactionID d) = Some (StatusCompleted, ExpectedCredit u, Some (ce_CreditAt c2)) \<and>
    outcome_of (snd (run_ops ingest
        [(E, n1, a, [NewCreditEvent c1]), (E, n2, a, [NewCreditEvent c2]), (E, n3, a, [NewDebitEvent d])] m))
      a (de_TransactionID d) = Some (StatusPendingDebit, ce_AmountMinor c1, Some (ce_CreditAt c1)) \<and>
    fst (snd (fst (run_ops ingest [(E, n1, a, [NewCreditEvent c1]), (E, n2, a, [NewCreditEvent c2])] m) ! 1)) =
      no_result\<lparr>CreditsParked := 1\<rparr>"
proof (intro conjI)
  let ?i = "de_TransactionID d"
  have credited0: "tx_CreditedMinor u = 0" using d toTransaction_Inr(9) by (auto simp: debit_leg_def)
  have i64: "int64 (ce_AmountMinor c1)" using amounts by (auto simp: int64_def)
  have row1: "credit_row c1 StatusCompleted now (stamped n now' u) =
      (stamped n now' u)\<lparr>tx_CreditedMinor := ce_AmountMinor c1, tx_CreditAt := Some (ce_CreditAt c1), tx_UpdatedAt := now\<rparr>"
    for n now now'
    using amounts i64 currency(1) credited0 by (simp add: credit_row_def partially_credited_below)
  {
    let ?m1 = "insert_debit a n1 u (with_tenant a m)"
    note ins = inserted_fields [OF d, of n1 m]
    have drain: "drainParked (memory_store n1) a [?i] ?m1 = (Inr 0, ?m1)"
      using new(2) by (intro drain_none) (simp add: ins)
    have key1: "ce_IdempotencyKey c1 \<notin> set (inner (m_applied ?m1) a)" using keys by (simp add: ins)
    from apply_pending [OF c1 ins(1) stamped_pending key1, of n2] obtain m2 where
      m2: "applyCredit (memory_store n2) a c1 ?m1 = (Inr creditApplied, m2)"
      "stored m2 a ?i = Some (credit_row c1 StatusCompleted n2 (stamped (m_nextID m + 1) n1 u))"
      "set (inner (m_applied m2) a) \<subseteq> insert (ce_IdempotencyKey c1) (set (inner (m_applied ?m1) a))" by blast
    let ?s = "credit_row c1 StatusCompleted n2 (stamped (m_nextID m + 1) n1 u)"
    have "tx_Status ?s = StatusPendingDebit" by (simp add: row1)
    moreover have "ce_IdempotencyKey c2 \<notin> set (inner (m_applied m2) a)" using m2(3) keys by (auto simp: ins)
    ultimately obtain m3 where m3: "applyCredit (memory_store n3) a c2 m2 = (Inr creditApplied, m3)"
      "stored m3 a ?i = Some (credit_row c2 StatusCompleted n3 ?s)"
      using apply_pending [OF c2 m2(2), of n3] by blast
    have "settlement (credit_row c2 StatusCompleted n3 ?s) = (StatusCompleted, ExpectedCredit u, Some (ce_CreditAt c2))"
      unfolding row1 using amounts currency(2) by (simp add: credit_row_def partially_credited_exact)
    then show "outcome_of (snd (run_ops ingest
        [(E, n1, a, [NewDebitEvent d]), (E, n2, a, [NewCreditEvent c1]), (E, n3, a, [NewCreditEvent c2])] m))
        a ?i = Some (StatusCompleted, ExpectedCredit u, Some (ce_CreditAt c2))"
      using m3(2) ingest_one_debit [OF d c1 new(1) drain] ingest_one_credit [OF d c1 m2(1)] ingest_one_credit [OF d c2 m3(1)]
      by (simp add: split_beta Let_def outcome_of_def del: ingest.simps)
  }
  let ?p = "park_first a c1 m"
  have absent: "stored m a ?i = None" using new(1) debit_leg_u(2) [OF d] by (simp add: known_def)
  have p1: "applyCredit (memory_store n1) a c1 m = (Inr creditParked, ?p)"
    by (rule apply_absent [OF c1 absent]) (use new(2) in simp)
  have held: "get2 (m_parked ?p) a ?i = Some c1"
    using parked_park_first [of c1 a m] c1 new(2) by (simp add: credit_leg_def)
  have p2: "applyCredit (memory_store n2) a c2 ?p = (Inr creditParked, park_first a c2 ?p)"
    by (rule apply_absent [OF c2]) (use absent held c1 in auto)
  have held2: "get2 (m_parked (park_first a c2 ?p)) a ?i = Some c1"
    using parked_park_first [of c2 a ?p] c2 held by (simp add: credit_leg_def)
  have "outcome_of (snd (ingest (E, n3, a, [NewDebitEvent d]) (park_first a c2 ?p))) a ?i =
      Some (settlement (credit_row c1 StatusCompleted 0 u))"
    using parked_then_debit(1) [OF d c1 _ _ held2 refl] new(1) keys(1) by simp
  also have "settlement (credit_row c1 StatusCompleted 0 u) = settlement (credit_row c1 StatusCompleted 0 (stamped 0 0 u))"
    using settlement_credit_row [OF debit_leg_u(4) [OF d]] by metis
  also have "\<dots> = (StatusPendingDebit, ce_AmountMinor c1, Some (ce_CreditAt c1))"
    by (simp add: row1 settlement_def)
  finally show "outcome_of (snd (run_ops ingest
        [(E, n1, a, [NewCreditEvent c1]), (E, n2, a, [NewCreditEvent c2]), (E, n3, a, [NewDebitEvent d])] m))
      a ?i = Some (StatusPendingDebit, ce_AmountMinor c1, Some (ce_CreditAt c1))"
    using ingest_one_credit [OF d c1 p1] ingest_one_credit [OF d c2 p2]
    by (simp add: split_beta Let_def outcome_of_def del: ingest.simps)
  obtain rs salt where e: "eng_rules E a = Inr rs" "eng_salt E a = Inr salt" using d by (auto simp: debit_leg_def)
  have "fst (ingest (E, n2, a, [NewCreditEvent c2]) ?p) = (no_result\<lparr>CreditsParked := 1\<rparr>, None)"
    using sorted_legs(2) [OF d e c2] p2 e
    by (simp add: Apply_def attempt_def ret_def Let_def no_result_def count_outcome_def)
  then show "fst (snd (fst (run_ops ingest [(E, n1, a, [NewCreditEvent c1]), (E, n2, a, [NewCreditEvent c2])] m) ! 1)) =
      no_result\<lparr>CreditsParked := 1\<rparr>"
    using ingest_one_credit [OF d c1 p1] by (simp add: split_beta Let_def del: ingest.simps)
qed


theorem second_parked_credit_lost_witness:
  "outcome_of (snd (run_ops ingest
      [(sample_engine, 1, ''t'', [NewCreditEvent (sample_arrival ''c'' 60)]),
       (sample_engine, 2, ''t'', [NewCreditEvent (sample_arrival ''e'' 40)]),
       (sample_engine, 3, ''t'', [NewDebitEvent sample_debit_event])] NewMemory)) ''t'' ''x'' =
    Some (StatusPendingDebit, 60, Some 7)"
proof -
  have legs: "credit_leg ''t'' (de_TransactionID sample_debit_event) (sample_arrival ''c'' 60) StatusCompleted"
    "credit_leg ''t'' (de_TransactionID sample_debit_event) (sample_arrival ''e'' 40) StatusCompleted"
    by (simp_all add: sample_legs ident_ok_def maxIdentifierLen_def)
  have u: "ExpectedCredit sample_built = 100" by code_simp
  have i: "de_TransactionID sample_debit_event = ''x''" by (simp add: sample_debit_event_def)
  show ?thesis
    using second_parked_credit_lost [OF sample_legs(1) legs sample_unknown(1,2), THEN conjunct2, THEN conjunct1, of 1 2 3]
    by (simp add: sample_unknown u i sample_arrival_def int64_def del: run_ops.simps ingest.simps)
qed

end
