(* ===== verification/Evidence.thy ===== *)
theory Evidence
  imports Complex_Main Go_Prelude
begin

text \<open>
  The evidence behind a verdict (\<^verbatim>\<open>internal/evidence/evidence.go\<close>). A \<^verbatim>\<open>float64\<close> weight is a
  rational number here. The weights the program uses have two decimals and the published
  number is rounded to two decimals, which is where the rounding noise of the floating sum
  goes; the model's sums are exact.
\<close>

record Signal =
  sig_Name :: string
  sig_Value :: string
  sig_Weight :: rat

definition SignalWindowExpired :: string where "SignalWindowExpired = ''window_expired''"
definition SignalIngestIntact :: string where "SignalIngestIntact = ''ingest_intact''"
definition SignalProviderFailed :: string where "SignalProviderFailed = ''provider_failed''"
definition SignalProviderNotFound :: string where "SignalProviderNotFound = ''provider_not_found''"
definition SignalProviderUnreachable :: string where "SignalProviderUnreachable = ''provider_unreachable''"
definition SignalIngestGap :: string where "SignalIngestGap = ''ingest_gap''"

definition WeightWindowExpired :: rat where "WeightWindowExpired = 55 / 100"
definition WeightIngestIntact :: rat where "WeightIngestIntact = 15 / 100"
definition WeightProviderFailed :: rat where "WeightProviderFailed = 30 / 100"
definition WeightProviderNotFound :: rat where "WeightProviderNotFound = 25 / 100"
definition WeightProviderUnreached :: rat where "WeightProviderUnreached = 0"
definition WeightIngestGap :: rat where "WeightIngestGap = 0"

lemmas signal_names = SignalWindowExpired_def SignalIngestIntact_def SignalProviderFailed_def
  SignalProviderNotFound_def SignalProviderUnreachable_def SignalIngestGap_def

lemmas weights = WeightWindowExpired_def WeightIngestIntact_def WeightProviderFailed_def
  WeightProviderNotFound_def WeightProviderUnreached_def WeightIngestGap_def

text \<open>A nil set is \<open>None\<close>.\<close>

type_synonym evidence = "Signal list option"

definition NewEvidence :: evidence where "NewEvidence = Some []"

definition Evidence_Add :: "string \<Rightarrow> string \<Rightarrow> rat \<Rightarrow> evidence \<Rightarrow> evidence" where
  "Evidence_Add name v weight s =
    (case s of None \<Rightarrow> None
     | Some sigs \<Rightarrow> Some (sigs @ [\<lparr>sig_Name = name, sig_Value = v, sig_Weight = weight\<rparr>]))"

definition Signals :: "evidence \<Rightarrow> Signal list" where
  "Signals s = (case s of None \<Rightarrow> [] | Some sigs \<Rightarrow> sort_key (\<lambda>x. - sig_Weight x) sigs)"

definition Evidence_Has :: "string \<Rightarrow> evidence \<Rightarrow> bool" where
  "Evidence_Has name s = (case s of None \<Rightarrow> False | Some sigs \<Rightarrow> list_ex (\<lambda>x. sig_Name x = name) sigs)"

text \<open>The conversion \<^verbatim>\<open>int(v)\<close> drops the fraction.\<close>

definition go_trunc :: "rat \<Rightarrow> int" where
  "go_trunc v = (if v < 0 then - \<lfloor>- v\<rfloor> else \<lfloor>v\<rfloor>)"

definition round2 :: "rat \<Rightarrow> rat" where
  "round2 v = of_int (go_trunc (v * 100 + 1 / 2)) / 100"

definition Confidence :: "evidence \<Rightarrow> rat" where
  "Confidence s =
    (case s of None \<Rightarrow> 0
     | Some sigs \<Rightarrow>
         let total = fold (\<lambda>x total. total + sig_Weight x) sigs 0
         in if total < 0 then 0 else if total > 1 then 1 else round2 total)"

section \<open>What the number is\<close>

lemma fold_weights: "fold (\<lambda>x total. total + sig_Weight x) sigs t = t + sum_list (map sig_Weight sigs)"
  by (induction sigs arbitrary: t) (simp_all add: add.assoc)

lemma Confidence_Some:
  "Confidence (Some sigs) =
    (let total = sum_list (map sig_Weight sigs)
     in if total < 0 then 0 else if total > 1 then 1 else round2 total)"
  by (simp add: Confidence_def fold_weights)

lemma round2_bounds:
  assumes "0 \<le> v" "v \<le> 1"
  shows "0 \<le> round2 v \<and> round2 v \<le> 1 \<and> \<bar>round2 v - v\<bar> \<le> 1 / 200"
proof -
  define n where "n = \<lfloor>v * 100 + 1 / 2\<rfloor>"
  have r: "round2 v = of_int n / 100" using assms(1) by (simp add: round2_def go_trunc_def n_def)
  have l: "of_int n \<le> v * 100 + 1 / 2" and u: "v * 100 + 1 / 2 < of_int n + 1"
    using floor_correct [of "v * 100 + 1 / 2"] unfolding n_def by simp_all
  have "0 \<le> n" using assms(1) by (simp add: n_def zero_le_floor)
  moreover have "n \<le> 100" using assms(2) by (simp add: n_def floor_le_iff)
  ultimately have "0 \<le> (of_int n :: rat)" "(of_int n :: rat) \<le> 100" by simp_all
  with l u show ?thesis unfolding r abs_le_iff by linarith
qed

lemma Confidence_bounds: "0 \<le> Confidence s \<and> Confidence s \<le> 1"
proof (cases s)
  case (Some sigs)
  then show ?thesis using round2_bounds [of "sum_list (map sig_Weight sigs)"]
    by (simp add: Confidence_Some Let_def)
qed (simp add: Confidence_def)

lemma mset_Signals: "s = Some sigs \<Longrightarrow> set (Signals s) = set sigs"
  by (simp add: Signals_def)

end
