(* ===== verification/Webhook_Payload.thy ===== *)
theory Webhook_Payload
  imports Evidence Domain_Transaction
begin

text \<open>
  The bodies of the webhooks (\<^verbatim>\<open>internal/webhook/payload.go\<close>), the retry schedule
  (\<^verbatim>\<open>internal/webhook/retry.go\<close>) and the decision after an attempt with the attempt itself
  (\<^verbatim>\<open>internal/webhook/dispatcher.go\<close>).
\<close>

section \<open>Payloads\<close>

type_synonym EventType = string

definition EventReversalTriggered :: EventType where "EventReversalTriggered = ''reversal.triggered''"
definition EventReversalCompleted :: EventType where "EventReversalCompleted = ''reversal.completed''"
definition EventReversalFailed :: EventType where "EventReversalFailed = ''reversal.failed''"
definition EventTransactionSuspect :: EventType where "EventTransactionSuspect = ''transaction.suspect''"
definition EventTransactionSettled :: EventType where "EventTransactionSettled = ''transaction.reconciled''"
definition EventSLAAtRisk :: EventType where "EventSLAAtRisk = ''sla.at_risk''"
definition EventIntegrationSilent :: EventType where "EventIntegrationSilent = ''integration.silent''"
definition EventIntegrationRecovered :: EventType where "EventIntegrationRecovered = ''integration.recovered''"

lemmas event_names = EventReversalTriggered_def EventReversalCompleted_def EventReversalFailed_def
  EventTransactionSuspect_def EventTransactionSettled_def EventSLAAtRisk_def EventIntegrationSilent_def
  EventIntegrationRecovered_def

record Data =
  wd_TransactionID :: string
  wd_AmountMinor :: int
  wd_Currency :: string
  wd_Reason :: string
  wd_CreditedMinor :: int
  wd_OutstandingMinor :: int
  wd_DebitAt :: gotime
  wd_WindowSeconds :: int
  wd_DetectedAt :: "gotime option"
  wd_RegulatoryDeadline :: gotime
  wd_Advisory :: bool
  wd_Confidence :: rat
  wd_Evidence :: "Signal list"
  wd_DeadlineSeconds :: "int option"
  wd_Drill :: bool

record Envelope =
  env_Event :: EventType
  env_OccurredAt :: gotime
  env_Data :: Data

definition utcOrNil :: "gotime option \<Rightarrow> gotime option" where
  "utcOrNil t = (case t of None \<Rightarrow> None | Some u \<Rightarrow> Some u)"

definition reasonFor :: "EventType \<Rightarrow> string" where
  "reasonFor event =
    (if event = EventReversalTriggered then ''no_credit_confirmation_within_window''
     else if event = EventTransactionSuspect then ''ambiguous_provider_response_within_window''
     else if event = EventReversalFailed then ''reversal_webhook_delivery_exhausted''
     else '''')"

definition EnvelopeFor :: "EventType \<Rightarrow> transaction \<Rightarrow> gotime \<Rightarrow> evidence \<Rightarrow> Envelope" where
  "EnvelopeFor event t occurredAt ev =
    (let data = \<lparr>wd_TransactionID = tx_TransactionID t, wd_AmountMinor = tx_AmountMinor t,
           wd_Currency = tx_Currency t, wd_Reason = reasonFor event, wd_CreditedMinor = tx_CreditedMinor t,
           wd_OutstandingMinor = 0, wd_DebitAt = tx_DebitAt t, wd_WindowSeconds = go_div (Window t) second,
           wd_DetectedAt = utcOrNil (tx_DetectedAt t), wd_RegulatoryDeadline = tx_ExpectedCompletionAt t,
           wd_Advisory = True, wd_Confidence = Confidence ev, wd_Evidence = Signals ev,
           wd_DeadlineSeconds = None, wd_Drill = False\<rparr>;
         data = (if tx_CreditedMinor t > 0
                 then let data = data\<lparr>wd_OutstandingMinor := ShortfallMinor t\<rparr>
                      in if event = EventReversalTriggered
                         then data\<lparr>wd_Reason := ''partial_settlement_outstanding''\<rparr> else data
                 else data)
     in \<lparr>env_Event = event, env_OccurredAt = occurredAt, env_Data = data\<rparr>)"

record IntegrationData =
  wi_TenantID :: string
  wi_Reason :: string
  wi_SilentSince :: gotime
  wi_SilentFor :: int
  wi_Advisory :: bool
  wi_Actionable :: string
  wi_DetectionSuspended :: bool

record IntegrationEnvelope =
  ien_Event :: EventType
  ien_OccurredAt :: gotime
  ien_Data :: IntegrationData

definition SilenceEnvelope :: "string \<Rightarrow> gotime \<Rightarrow> gotime \<Rightarrow> IntegrationEnvelope" where
  "SilenceEnvelope tenantID silentSince occurredAt =
    \<lparr>ien_Event = EventIntegrationSilent, ien_OccurredAt = occurredAt,
     ien_Data = \<lparr>wi_TenantID = tenantID, wi_Reason = ''no_events_received'', wi_SilentSince = silentSince,
       wi_SilentFor = go_div (time_sub occurredAt silentSince) second, wi_Advisory = True,
       wi_Actionable = ''check that your transaction service can still reach ReconSync; reconciliation is paused until events resume'',
       wi_DetectionSuspended = True\<rparr>\<rparr>"

definition RecoveryEnvelope :: "string \<Rightarrow> gotime \<Rightarrow> gotime \<Rightarrow> IntegrationEnvelope" where
  "RecoveryEnvelope tenantID silentSince occurredAt =
    \<lparr>ien_Event = EventIntegrationRecovered, ien_OccurredAt = occurredAt,
     ien_Data = \<lparr>wi_TenantID = tenantID, wi_Reason = ''events_resumed'', wi_SilentSince = silentSince,
       wi_SilentFor = go_div (time_sub occurredAt silentSince) second, wi_Advisory = True,
       wi_Actionable = ''reconciliation has resumed; transactions opened during the gap are being judged again'',
       wi_DetectionSuspended = False\<rparr>\<rparr>"

definition AtRiskEnvelope :: "transaction \<Rightarrow> gotime \<Rightarrow> gotime \<Rightarrow> Envelope" where
  "AtRiskEnvelope t deadlineAt occurredAt =
    (let env = EnvelopeFor EventSLAAtRisk t occurredAt None;
         remaining = go_div (time_sub deadlineAt occurredAt) second
     in env\<lparr>env_Data := (env_Data env)\<lparr>wd_DeadlineSeconds := Some remaining,
              wd_RegulatoryDeadline := deadlineAt, wd_Reason := ''approaching_reversal_deadline'',
              wd_Confidence := 0\<rparr>\<rparr>)"

section \<open>Retries\<close>

definition retrySchedule :: "duration list" where
  "retrySchedule = [0, 30 * second, 2 * minute, 10 * minute, hour, 6 * hour]"

definition MaxAttempts :: int where "MaxAttempts = int (length retrySchedule)"

definition RetryDelay :: "int \<Rightarrow> duration" where
  "RetryDelay attempt =
    (if attempt < 0 then 0
     else if attempt \<ge> int (length retrySchedule) then retrySchedule ! (length retrySchedule - 1)
     else retrySchedule ! nat attempt)"

definition ShouldRetry :: "int \<Rightarrow> bool" where
  "ShouldRetry attempt \<longleftrightarrow> attempt + 1 < MaxAttempts"

text \<open>\<open>r\<close> is the draw of \<^verbatim>\<open>rand.Float64()\<close>, a number in \<open>[0, 1)\<close>.\<close>

definition jitterFraction :: rat where "jitterFraction = 1 / 5"

definition jitter :: "rat \<Rightarrow> duration \<Rightarrow> duration" where
  "jitter r d =
    (if d \<le> 0 then d
     else let spread = of_int d * jitterFraction;
              offset = (r * 2 - 1) * spread;
              out = go_trunc (of_int d + offset)
          in if out < 0 then 0 else out)"

definition NextRetryAt :: "rat \<Rightarrow> gotime \<Rightarrow> int \<Rightarrow> gotime" where
  "NextRetryAt r now attempt = now + jitter r (RetryDelay attempt)"

definition RetryableStatus :: "int \<Rightarrow> bool" where
  "RetryableStatus code \<longleftrightarrow> (if code \<ge> 500 then True else if code = 408 \<or> code = 429 then True else False)"

section \<open>One attempt\<close>

definition maxResponseBody :: nat where "maxResponseBody = 1024"

record Delivery =
  dl_ID :: int
  dl_TenantID :: string
  dl_EndpointID :: string
  dl_TransactionID :: string
  dl_URL :: string
  dl_Secrets :: "string list"
  dl_Event :: EventType
  dl_Payload :: string
  dl_Attempt :: int
  dl_Drill :: bool

record SendResult =
  sr_Delivered :: bool
  sr_StatusCode :: int
  sr_ResponseBody :: string
  sr_Duration :: duration
  sr_Err :: "goerror option"
  sr_Retryable :: bool

definition WebhookPending :: string where "WebhookPending = ''pending''"
definition WebhookDelivered :: string where "WebhookDelivered = ''delivered''"
definition WebhookDeadLetter :: string where "WebhookDeadLetter = ''dead_letter''"

lemmas delivery_statuses = WebhookPending_def WebhookDelivered_def WebhookDeadLetter_def

record Outcome =
  oc_Status :: string
  oc_NextRetryAt :: "gotime option"
  oc_Result :: SendResult

definition Decide :: "rat \<Rightarrow> Delivery \<Rightarrow> SendResult \<Rightarrow> gotime \<Rightarrow> Outcome" where
  "Decide r d res now =
    (if sr_Delivered res then \<lparr>oc_Status = WebhookDelivered, oc_NextRetryAt = None, oc_Result = res\<rparr>
     else if \<not> sr_Retryable res \<or> \<not> ShouldRetry (dl_Attempt d)
     then \<lparr>oc_Status = WebhookDeadLetter, oc_NextRetryAt = None, oc_Result = res\<rparr>
     else \<lparr>oc_Status = WebhookPending, oc_NextRetryAt = Some (NextRetryAt r now (dl_Attempt d + 1)), oc_Result = res\<rparr>)"

section \<open>What the schedule promises\<close>

lemma go_trunc_le: "0 \<le> v \<Longrightarrow> of_int (go_trunc v) \<le> v"
  by (simp add: go_trunc_def)

lemma jitter_bounds:
  assumes "0 \<le> d" "0 \<le> r" "r \<le> 1"
  shows "0 \<le> jitter r d \<and> 4 * d \<le> 5 * jitter r d + 4 \<and> 5 * jitter r d \<le> 6 * d"
proof (cases "d = 0")
  case False
  with assms have d: "0 < d" by simp
  define x :: rat where "x = of_int d + (r * 2 - 1) * (of_int d / 5)"
  have lo: "4 * of_int d / 5 \<le> x"
  proof -
    have "0 \<le> r * (of_int d :: rat)" using assms d by simp
    then show ?thesis by (simp add: x_def field_simps)
  qed
  have hi: "x \<le> 6 * of_int d / 5"
  proof -
    have "r * (of_int d :: rat) \<le> of_int d" using assms d by (simp add: mult_left_le_one_le)
    then show ?thesis by (simp add: x_def field_simps)
  qed
  have x0: "0 \<le> x" using lo d by (auto intro: order_trans [rotated])
  have "jitter r d = (let out = go_trunc x in if out < 0 then 0 else out)"
    using d unfolding jitter_def jitterFraction_def x_def by (simp add: Let_def)
  moreover have "go_trunc x = \<lfloor>x\<rfloor>" "0 \<le> \<lfloor>x\<rfloor>" using x0 by (simp_all add: go_trunc_def)
  ultimately have t: "jitter r d = \<lfloor>x\<rfloor>" by simp
  have "of_int \<lfloor>x\<rfloor> \<le> x \<and> x < of_int \<lfloor>x\<rfloor> + 1" using floor_correct [of x] by simp
  with lo hi have r: "(4 * of_int d :: rat) < 5 * of_int \<lfloor>x\<rfloor> + 5" "5 * of_int \<lfloor>x\<rfloor> \<le> (6 * of_int d :: rat)"
    by linarith+
  have "4 * d < 5 * \<lfloor>x\<rfloor> + 5" using r(1) by (metis (mono_tags, opaque_lifting) of_int_add of_int_less_iff of_int_mult of_int_numeral)
  moreover have "5 * \<lfloor>x\<rfloor> \<le> 6 * d" using r(2) by (metis (mono_tags, opaque_lifting) of_int_le_iff of_int_mult of_int_numeral)
  moreover have "0 \<le> \<lfloor>x\<rfloor>" using x0 by simp
  ultimately show ?thesis by (simp add: t)
qed (simp add: jitter_def)

lemma RetryDelay_bounds: "0 \<le> RetryDelay k \<and> RetryDelay k \<le> 6 * hour"
proof -
  have "\<forall>x\<in>set retrySchedule. 0 \<le> x \<and> x \<le> 6 * hour" by (simp add: retrySchedule_def)
  moreover have "length retrySchedule = 6" by (simp add: retrySchedule_def)
  then have "RetryDelay k = 0 \<or> RetryDelay k \<in> set retrySchedule"
    by (auto simp: RetryDelay_def intro!: nth_mem)
  ultimately show ?thesis by auto
qed

end
