(* ===== verification/Go_Text.thy ===== *)
theory Go_Text
  imports Go_Prelude Domain_Sensitive
begin

text \<open>
  The functions of \<^verbatim>\<open>strings\<close> and \<^verbatim>\<open>strconv\<close> the code parses with: \<^verbatim>\<open>Split\<close> on one byte,
  \<^verbatim>\<open>Cut\<close>, \<^verbatim>\<open>TrimSpace\<close> and \<^verbatim>\<open>ParseInt\<close> in base ten, and that they undo what printing does.
  \<^verbatim>\<open>TrimSpace\<close> is modelled on ASCII white space, \<^verbatim>\<open>ToUpper\<close> and \<^verbatim>\<open>ToLower\<close> on ASCII letters.
\<close>

section \<open>Splitting and trimming\<close>

fun split_on :: "char \<Rightarrow> string \<Rightarrow> string list" where
  "split_on sep [] = [[]]"
| "split_on sep (c # s) =
    (if c = sep then [] # split_on sep s
     else case split_on sep s of w # ws \<Rightarrow> (c # w) # ws | [] \<Rightarrow> [[c]])"

definition cut_at :: "char \<Rightarrow> string \<Rightarrow> (string \<times> string) option" where
  "cut_at sep s =
    (case dropWhile (\<lambda>c. c \<noteq> sep) s of
       [] \<Rightarrow> None
     | _ # rest \<Rightarrow> Some (takeWhile (\<lambda>c. c \<noteq> sep) s, rest))"

definition is_space :: "char \<Rightarrow> bool" where
  "is_space c \<longleftrightarrow> byte c \<in> {9, 10, 11, 12, 13, 32}"

definition trim_space :: "string \<Rightarrow> string" where
  "trim_space s = rev (dropWhile is_space (rev (dropWhile is_space s)))"

text \<open>\<^verbatim>\<open>ToUpper\<close> and \<^verbatim>\<open>ToLower\<close>, on ASCII letters.\<close>

definition to_upper :: "string \<Rightarrow> string" where
  "to_upper = map (\<lambda>c. if 97 \<le> byte c \<and> byte c \<le> 122 then char_of (byte c - 32) else c)"

definition to_lower :: "string \<Rightarrow> string" where
  "to_lower = map (\<lambda>c. if 65 \<le> byte c \<and> byte c \<le> 90 then char_of (byte c + 32) else c)"

fun join_with :: "string \<Rightarrow> string list \<Rightarrow> string" where
  "join_with sep [] = []"
| "join_with sep [w] = w"
| "join_with sep (w # v # ws) = w @ sep @ join_with sep (v # ws)"

lemma split_on_plain: "sep \<notin> set w \<Longrightarrow> split_on sep w = [w]"
  by (induction w) auto

lemma split_on_append: "sep \<notin> set w \<Longrightarrow> split_on sep (w @ sep # s) = w # split_on sep s"
  by (induction w) auto

lemma split_on_join:
  "ws \<noteq> [] \<Longrightarrow> \<forall>w\<in>set ws. sep \<notin> set w \<Longrightarrow> split_on sep (join_with [sep] ws) = ws"
  by (induction "[sep]" ws rule: join_with.induct) (auto simp: split_on_plain split_on_append)

lemma cut_at_append: "sep \<notin> set k \<Longrightarrow> cut_at sep (k @ sep # v) = Some (k, v)"
proof -
  assume k: "sep \<notin> set k"
  have "dropWhile (\<lambda>c. c \<noteq> sep) (k @ sep # v) = sep # v"
    using k by (induction k) auto
  moreover have "takeWhile (\<lambda>c. c \<noteq> sep) (k @ sep # v) = k"
    using k by (induction k) auto
  ultimately show ?thesis by (simp add: cut_at_def)
qed

lemma dropWhile_none: "list_all (\<lambda>c. \<not> P c) s \<Longrightarrow> dropWhile P s = s"
  by (cases s) auto

lemma trim_space_plain: "list_all (\<lambda>c. \<not> is_space c) s \<Longrightarrow> trim_space s = s"
  by (simp add: trim_space_def dropWhile_none list_all_iff)

section \<open>Decimal integers\<close>

text \<open>\<^verbatim>\<open>strconv.ParseInt(s, 10, 64)\<close>: an optional sign, then digits, and the value in range.\<close>

fun digits_value :: "string \<Rightarrow> int \<Rightarrow> int option" where
  "digits_value [] acc = Some acc"
| "digits_value (c # s) acc =
    (if is_digit c then digits_value s (acc * 10 + int (digit_val c)) else None)"

definition parse_int64 :: "string \<Rightarrow> int option" where
  "parse_int64 s =
    (let (neg, ds) = (case s of [] \<Rightarrow> (False, []) | c # r \<Rightarrow>
            if c = CHR ''-'' then (True, r) else if c = CHR ''+'' then (False, r) else (False, s))
     in if ds = [] then None
        else case digits_value ds 0 of
               None \<Rightarrow> None
             | Some n \<Rightarrow> let v = (if neg then - n else n) in if int64 v then Some v else None)"

lemma digit_char_is_digit: "d < 10 \<Longrightarrow> is_digit (digit_char d) \<and> digit_val (digit_char d) = d"
  by (simp add: is_digit_def digit_val_def byte_def)

lemma digits_value_append:
  "digits_value (s @ t) acc = (case digits_value s acc of None \<Rightarrow> None | Some v \<Rightarrow> digits_value t v)"
  by (induction s arbitrary: acc) auto

lemma digits_value_acc:
  "digits_value s acc = (case digits_value s 0 of None \<Rightarrow> None | Some v \<Rightarrow> Some (acc * 10 ^ length s + v))"
proof (induction s arbitrary: acc)
  case (Cons c s)
  show ?case
  proof (cases "is_digit c")
    case True
    then show ?thesis
      using Cons [of "acc * 10 + int (digit_val c)"] Cons [of "int (digit_val c)"]
      by (auto simp: algebra_simps split: option.split)
  qed simp
qed simp

lemma show_nat_digits: "list_all is_digit (show_nat n) \<and> show_nat n \<noteq> [] \<and> digits_value (show_nat n) 0 = Some (int n)"
proof (induction n rule: show_nat.induct)
  case (1 n)
  show ?case
  proof (cases "n < 10")
    case True
    then show ?thesis using digit_char_is_digit [of n] by (simp add: show_nat.simps [of n])
  next
    case False
    have "int (n div 10) * 10 + int (n mod 10) = int n" by presburger
    with False 1 digit_char_is_digit [of "n mod 10"] show ?thesis
      by (simp add: show_nat.simps [of n] digits_value_append)
  qed
qed

lemma show_nat_first: "\<exists>c r. show_nat n = c # r \<and> is_digit c"
  using show_nat_digits [of n] by (cases "show_nat n") auto

lemma parse_show_int: "int64 i \<Longrightarrow> parse_int64 (show_int i) = Some i"
proof -
  assume i: "int64 i"
  obtain c r where cr: "show_nat (nat i) = c # r" "is_digit c" using show_nat_first by blast
  then have c: "c \<noteq> CHR ''-''" "c \<noteq> CHR ''+''" by (auto simp: is_digit_def byte_def)
  show ?thesis
  proof (cases "i < 0")
    case True
    with i show_nat_digits [of "nat (- i)"] show ?thesis
      by (simp add: show_int_def parse_int64_def)
  next
    case False
    with i show_nat_digits [of "nat i"] c cr show ?thesis
      by (simp add: show_int_def parse_int64_def)
  qed
qed

lemma show_int_chars: "c \<in> set (show_int i) \<Longrightarrow> c = CHR ''-'' \<or> is_digit c"
  using show_nat_digits [of "nat i"] show_nat_digits [of "nat (- i)"]
  by (auto simp: show_int_def list_all_iff split: if_splits)

text \<open>Hexadecimal text, as \<^verbatim>\<open>hex.EncodeToString\<close> prints it.\<close>

definition is_hex :: "char \<Rightarrow> bool" where
  "is_hex c \<longleftrightarrow> is_digit c \<or> 97 \<le> byte c \<and> byte c \<le> 102"

lemma plain_not_sep:
  "is_digit c \<or> is_hex c \<or> c = CHR ''-'' \<Longrightarrow> \<not> is_space c \<and> c \<noteq> CHR '','' \<and> c \<noteq> CHR ''=''"
  by (auto simp: is_digit_def is_hex_def is_space_def byte_def)

end
