(* ===== verification/Webhook_Signature.thy ===== *)
theory Webhook_Signature
  imports Go_Text Domain_Status
begin

text \<open>
  Signing and verifying a webhook (\<^verbatim>\<open>pkg/reconsync/webhook.go\<close>, which
  \<^verbatim>\<open>internal/webhook/signature.go\<close> only renames). \<open>hmac secret message\<close> stands for the
  hexadecimal HMAC-SHA256 of the standard library.
\<close>

section \<open>Signing\<close>

definition DefaultTolerance :: duration where "DefaultTolerance = 5 * minute"

definition ErrMalformedSignature :: goerror where
  "ErrMalformedSignature = ErrMessage ''reconsync: malformed signature header''"
definition ErrSignatureMismatch :: goerror where
  "ErrSignatureMismatch = ErrMessage ''reconsync: signature does not match''"
definition ErrSignatureExpired :: goerror where
  "ErrSignatureExpired = ErrMessage ''reconsync: signature timestamp outside tolerance''"

text \<open>\<^verbatim>\<open>t.Unix()\<close> counts seconds since 1970, \<^verbatim>\<open>time.Unix(ts, 0)\<close> is the instant of such a
  count; \<open>unix_epoch\<close> is 1970 on the model's scale, which starts at Go's zero time.\<close>

definition unix_epoch :: gotime where "unix_epoch = 62135596800 * second"

definition to_unix :: "gotime \<Rightarrow> int" where "to_unix t = (t - unix_epoch) div second"
definition from_unix :: "int \<Rightarrow> gotime" where "from_unix ts = unix_epoch + ts * second"

type_synonym mac = "string \<Rightarrow> string \<Rightarrow> string"

definition computeSignature :: "mac \<Rightarrow> string \<Rightarrow> int \<Rightarrow> string \<Rightarrow> string" where
  "computeSignature hmac secret ts body = hmac secret (show_int ts @ ''.'' @ body)"

definition SignWith :: "mac \<Rightarrow> string list \<Rightarrow> gotime \<Rightarrow> string \<Rightarrow> string" where
  "SignWith hmac secrets at body =
    (let ts = to_unix at
     in ''t='' @ show_int ts @
        concat (map (\<lambda>secret. '',v1='' @ computeSignature hmac secret ts body) secrets))"

definition Sign_webhook :: "mac \<Rightarrow> string \<Rightarrow> gotime \<Rightarrow> string \<Rightarrow> string" where
  "Sign_webhook hmac secret at body = SignWith hmac [secret] at body"

section \<open>Verifying\<close>

fun parse_parts :: "string list \<Rightarrow> int \<times> string list \<Rightarrow> (int \<times> string list) option" where
  "parse_parts [] (ts, signatures) = Some (ts, signatures)"
| "parse_parts (part # parts) (ts, signatures) =
    (case cut_at (CHR ''='') (trim_space part) of
       None \<Rightarrow> None
     | Some (key, v) \<Rightarrow>
         if key = ''t'' then
           (case parse_int64 v of None \<Rightarrow> None | Some n \<Rightarrow> parse_parts parts (n, signatures))
         else if key = ''v1'' then
           (if v \<noteq> '''' then parse_parts parts (ts, signatures @ [v]) else parse_parts parts (ts, signatures))
         else parse_parts parts (ts, signatures))"

definition parseSignature :: "string \<Rightarrow> goerror + int \<times> string list" where
  "parseSignature header =
    (if header = '''' then Inl ErrMalformedSignature
     else case parse_parts (split_on (CHR '','') header) (0, []) of
            None \<Rightarrow> Inl ErrMalformedSignature
          | Some (ts, signatures) \<Rightarrow>
              if ts = 0 \<or> length signatures = 0 then Inl ErrMalformedSignature else Inr (ts, signatures))"

definition VerifyAny :: "mac \<Rightarrow> string list \<Rightarrow> string \<Rightarrow> string \<Rightarrow> gotime \<Rightarrow> duration \<Rightarrow> goerror option" where
  "VerifyAny hmac secrets header body now tolerance =
    (case parseSignature header of
       Inl err \<Rightarrow> Some err
     | Inr (ts, provided) \<Rightarrow>
         let age = time_sub now (from_unix ts);
             age = (if age < 0 then wrap64 (- age) else age)
         in if tolerance > 0 \<and> age > tolerance then Some ErrSignatureExpired
            else if list_ex (\<lambda>secret. list_ex (\<lambda>c. computeSignature hmac secret ts body = c) provided) secrets
            then None else Some ErrSignatureMismatch)"

definition Verify_webhook :: "mac \<Rightarrow> string \<Rightarrow> string \<Rightarrow> string \<Rightarrow> gotime \<Rightarrow> duration \<Rightarrow> goerror option" where
  "Verify_webhook hmac secret header body now tolerance = VerifyAny hmac [secret] header body now tolerance"

section \<open>What parsing finds in a signed header\<close>

text \<open>A digest prints as a non-empty string of hexadecimal digits.\<close>

definition hex_mac :: "mac \<Rightarrow> bool" where
  "hex_mac hmac \<longleftrightarrow> (\<forall>k m. hmac k m \<noteq> [] \<and> list_all is_hex (hmac k m))"

lemma fixed_parts:
  "list_all (\<lambda>c. \<not> is_space c) ''t=''" "list_all (\<lambda>c. \<not> is_space c) ''v1=''"
  "CHR '','' \<notin> set ''t=''" "CHR '','' \<notin> set ''v1=''"
  by code_simp+

lemma plain_text:
  "list_all (\<lambda>c. is_digit c \<or> is_hex c \<or> c = CHR ''-'') s \<Longrightarrow> list_all (\<lambda>c. \<not> is_space c) s \<and> CHR '','' \<notin> set s"
  unfolding list_all_iff using plain_not_sep by blast

lemma plain_show_int: "list_all (\<lambda>c. is_digit c \<or> is_hex c \<or> c = CHR ''-'') (show_int ts)"
  unfolding list_all_iff using show_int_chars by blast

lemma plain_hex: "list_all is_hex h \<Longrightarrow> list_all (\<lambda>c. is_digit c \<or> is_hex c \<or> c = CHR ''-'') h"
  by (simp add: list_all_iff)

lemma cut_keyed:
  assumes "list_all (\<lambda>c. \<not> is_space c) (k @ [CHR ''='' ])" "CHR ''='' \<notin> set k" "list_all (\<lambda>c. \<not> is_space c) v"
  shows "cut_at (CHR ''='') (trim_space (k @ CHR ''='' # v)) = Some (k, v)"
proof -
  have "list_all (\<lambda>c. \<not> is_space c) (k @ CHR ''='' # v)" using assms by simp
  then show ?thesis using cut_at_append [OF assms(2), of v] by (simp add: trim_space_plain)
qed

lemma parse_t:
  assumes "int64 ts"
  shows "cut_at (CHR ''='') (trim_space (''t='' @ show_int ts)) = Some (''t'', show_int ts)"
    and "CHR '','' \<notin> set (''t='' @ show_int ts)"
  using cut_keyed [of "''t''" "show_int ts"] fixed_parts plain_text [OF plain_show_int [of ts]] by simp_all

lemma parse_v1:
  assumes "list_all is_hex h"
  shows "cut_at (CHR ''='') (trim_space (''v1='' @ h)) = Some (''v1'', h)" and "CHR '','' \<notin> set (''v1='' @ h)"
  using cut_keyed [of "''v1''" h] fixed_parts plain_text [OF plain_hex [OF assms]] by simp_all

lemma parse_signatures:
  "\<forall>h\<in>set hs. h \<noteq> [] \<and> list_all is_hex h \<Longrightarrow>
    parse_parts (map (\<lambda>h. ''v1='' @ h) hs) (ts, sigs) = Some (ts, sigs @ hs)"
proof (induction hs arbitrary: sigs)
  case (Cons h hs)
  then have "cut_at (CHR ''='') (trim_space (''v1='' @ h)) = Some (''v1'', h)" by (intro parse_v1) simp
  with Cons show ?case by simp
qed simp

lemma join_parts: "join_with '','' (w # map (\<lambda>h. ''v1='' @ h) hs) = w @ concat (map (\<lambda>h. '',v1='' @ h) hs)"
proof (induction hs arbitrary: w)
  case (Cons h hs)
  have "join_with '','' (w # map (\<lambda>h. ''v1='' @ h) (h # hs)) =
      w @ '','' @ join_with '','' ((''v1='' @ h) # map (\<lambda>h. ''v1='' @ h) hs)" by simp
  also have "\<dots> = w @ '','' @ (''v1='' @ h) @ concat (map (\<lambda>h. '',v1='' @ h) hs)"
    by (simp only: Cons.IH append_assoc)
  finally show ?case by simp
qed simp

lemma parse_SignWith:
  assumes "hex_mac hmac" "int64 (to_unix at)" "to_unix at \<noteq> 0" "secrets \<noteq> []"
  shows "parseSignature (SignWith hmac secrets at body) =
    Inr (to_unix at, map (\<lambda>s. computeSignature hmac s (to_unix at) body) secrets)"
proof -
  let ?ts = "to_unix at" and ?hs = "map (\<lambda>s. computeSignature hmac s (to_unix at) body) secrets"
  let ?w = "''t='' @ show_int (to_unix at)"
  have hs: "\<forall>h\<in>set ?hs. h \<noteq> [] \<and> list_all is_hex h"
    using assms(1) by (auto simp: hex_mac_def computeSignature_def)
  have header: "SignWith hmac secrets at body = join_with '','' (?w # map (\<lambda>h. ''v1='' @ h) ?hs)"
    unfolding join_parts by (simp add: SignWith_def Let_def comp_def)
  have sep: "\<forall>p \<in> set (?w # map (\<lambda>h. ''v1='' @ h) ?hs). CHR '','' \<notin> set p"
  proof
    fix p
    assume "p \<in> set (?w # map (\<lambda>h. ''v1='' @ h) ?hs)"
    then consider "p = ?w" | h where "h \<in> set ?hs" "p = ''v1='' @ h" by auto
    then show "CHR '','' \<notin> set p"
      by cases (use parse_t(2) [OF assms(2)] parse_v1(2) hs in blast)+
  qed
  have "split_on (CHR '','') (SignWith hmac secrets at body) = ?w # map (\<lambda>h. ''v1='' @ h) ?hs"
    unfolding header by (rule split_on_join [OF _ sep]) simp
  moreover have "parse_parts (?w # map (\<lambda>h. ''v1='' @ h) ?hs) (0, []) = Some (?ts, ?hs)"
    using parse_signatures [OF hs, of ?ts "[]"] parse_t(1) [OF assms(2)]
    by (simp only: parse_parts.simps option.case prod.case parse_show_int [OF assms(2)]) simp
  moreover have "SignWith hmac secrets at body \<noteq> []" by (simp add: SignWith_def Let_def)
  ultimately show ?thesis using assms(3,4) by (simp add: parseSignature_def)
qed

text \<open>
  C32. A webhook signed with several secrets, as during a rotation, is accepted by a receiver
  exactly when one of its secrets gives one of the sent signatures for the very body it
  received and, where a tolerance is set, the signature is not older or newer than that. With
  a collision-free MAC that means: a shared secret, the body unchanged and the time in range.
\<close>

theorem signed_webhook_verifies:
  assumes "hex_mac hmac" "int64 (to_unix at)" "to_unix at \<noteq> 0" "secrets \<noteq> []"
    and inj: "\<And>k m k' m'. hmac k m = hmac k' m' \<Longrightarrow> k = k' \<and> m = m'"
    and range: "\<bar>now - from_unix (to_unix at)\<bar> < 2 ^ 63"
  shows "VerifyAny hmac held (SignWith hmac secrets at sent) received now tolerance =
    (if 0 < tolerance \<and> tolerance < \<bar>now - from_unix (to_unix at)\<bar> then Some ErrSignatureExpired
     else if received = sent \<and> set held \<inter> set secrets \<noteq> {} then None
     else Some ErrSignatureMismatch)"
proof -
  let ?ts = "to_unix at"
  have same: "computeSignature hmac s ?ts received = computeSignature hmac s' ?ts sent \<longleftrightarrow> s = s' \<and> received = sent" for s s'
  proof -
    have "hmac k m = hmac k' m' \<longleftrightarrow> k = k' \<and> m = m'" for k m k' m' using inj by metis
    then show ?thesis by (simp add: computeSignature_def)
  qed
  have age: "time_sub now (from_unix ?ts) = now - from_unix ?ts" using range by (simp add: time_sub_def abs_less_iff)
  have "wrap64 (- (now - from_unix ?ts)) = - (now - from_unix ?ts)"
    by (rule wrap64_int64) (use range in \<open>simp add: int64_def abs_less_iff\<close>)
  then have abs: "(if time_sub now (from_unix ?ts) < 0 then wrap64 (- time_sub now (from_unix ?ts)) else time_sub now (from_unix ?ts))
      = \<bar>now - from_unix ?ts\<bar>" by (simp add: age)
  have match: "list_ex (\<lambda>s. list_ex (\<lambda>c. computeSignature hmac s ?ts received = c)
      (map (\<lambda>s. computeSignature hmac s ?ts sent) secrets)) held \<longleftrightarrow> received = sent \<and> set held \<inter> set secrets \<noteq> {}"
    by (auto simp: list_ex_iff same)
  show ?thesis
    unfolding VerifyAny_def parse_SignWith [OF assms(1-4)] sum.case prod.case Let_def abs match by (rule refl)
qed

text \<open>An injective example MAC: every byte as a run of its value in \<open>a\<close>s, then a \<open>b\<close>, and a
  \<open>c\<close> between key and message.\<close>

definition spell :: "string \<Rightarrow> string" where
  "spell s = concat (map (\<lambda>c. replicate (byte c) (CHR ''a'') @ ''b'') s)"

definition sample_mac :: mac where
  "sample_mac k m = spell k @ CHR ''c'' # spell m"

lemma spell_chars: "x \<in> set (spell s) \<Longrightarrow> x = CHR ''a'' \<or> x = CHR ''b''"
proof (induction s)
  case (Cons c s)
  then show ?case by (auto simp: spell_def dest: in_set_replicate [THEN iffD1])
qed (simp add: spell_def)

lemma replicate_marked:
  "replicate n x @ y # u = replicate n' x @ y # u' \<Longrightarrow> x \<noteq> y \<Longrightarrow> n = n' \<and> u = u'"
proof (induction n arbitrary: n')
  case 0
  then show ?case by (cases n') auto
next
  case (Suc n)
  then show ?case by (cases n') auto
qed

lemma spell_Cons: "spell (c # s) @ z = replicate (byte c) (CHR ''a'') @ CHR ''b'' # (spell s @ z)"
  by (simp add: spell_def)

lemma spell_inj:
  "spell s @ z = spell t @ z' \<Longrightarrow> z = [] \<and> z' = [] \<or> (\<exists>r r'. z = CHR ''c'' # r \<and> z' = CHR ''c'' # r') \<Longrightarrow>
    s = t \<and> z = z'"
proof (induction s arbitrary: t)
  case Nil
  show ?case
  proof (cases t)
    case (Cons d t')
    have "hd (spell (d # t') @ z') \<in> {CHR ''a'', CHR ''b''}" unfolding spell_Cons by (cases "byte d") auto
    with Nil Cons show ?thesis by (auto simp: spell_Cons [of d t' z', simplified] spell_def)
  qed (use Nil in \<open>simp add: spell_def\<close>)
next
  case (Cons c s)
  show ?case
  proof (cases t)
    case Nil
    have "hd (spell (c # s) @ z) \<in> {CHR ''a'', CHR ''b''}" unfolding spell_Cons by (cases "byte c") auto
    with Cons Nil show ?thesis by (auto simp: spell_def)
  next
    case (Cons d t')
    from Cons.prems(1) [unfolded Cons spell_Cons] have "byte c = byte d \<and> spell s @ z = spell t' @ z'"
      by (rule replicate_marked) simp
    with Cons.IH [of t'] Cons.prems(2) Cons show ?thesis by simp
  qed
qed

lemma sample_mac_ok: "hex_mac sample_mac" "sample_mac k m = sample_mac k' m' \<Longrightarrow> k = k' \<and> m = m'"
proof -
  have "is_hex (CHR ''a'')" "is_hex (CHR ''b'')" "is_hex (CHR ''c'')" by code_simp+
  then show "hex_mac sample_mac"
    using spell_chars by (auto simp: hex_mac_def sample_mac_def list_all_iff)
  assume eq: "sample_mac k m = sample_mac k' m'"
  then have k: "k = k' \<and> CHR ''c'' # spell m = CHR ''c'' # spell m'"
    unfolding sample_mac_def by (rule spell_inj) blast
  then have "spell m @ [] = spell m' @ []" by simp
  then have "m = m'" by (rule spell_inj [THEN conjunct1]) simp
  with k show "k = k' \<and> m = m'" by simp
qed

theorem signed_webhook_verifies_witness:
  "let at = unix_epoch + 1700000000 * second; header = SignWith sample_mac [''old'', ''new''] at ''{}''
   in VerifyAny sample_mac [''new''] header ''{}'' (at + minute) DefaultTolerance = None \<and>
     VerifyAny sample_mac [''new''] header ''[]'' (at + minute) DefaultTolerance = Some ErrSignatureMismatch \<and>
     VerifyAny sample_mac [''other''] header ''{}'' (at + minute) DefaultTolerance = Some ErrSignatureMismatch \<and>
     VerifyAny sample_mac [''new''] header ''{}'' (at + 6 * minute) DefaultTolerance = Some ErrSignatureExpired"
proof -
  let ?at = "unix_epoch + 1700000000 * second"
  have u: "to_unix ?at = 1700000000" "from_unix (to_unix ?at) = ?at"
    by (simp_all add: to_unix_def from_unix_def unix_epoch_def)
  have t: "int64 (to_unix ?at)" "to_unix ?at \<noteq> 0" unfolding u(1) by (simp_all add: int64_def)
  have n: "\<bar>?at + minute - from_unix (to_unix ?at)\<bar> < 2 ^ 63" "\<bar>?at + 6 * minute - from_unix (to_unix ?at)\<bar> < 2 ^ 63"
    unfolding u(2) by simp_all
  have ne: "[''old'', ''new''] \<noteq> []" by simp
  have V: "VerifyAny sample_mac held (SignWith sample_mac [''old'', ''new''] ?at sent) received now tolerance =
    (if 0 < tolerance \<and> tolerance < \<bar>now - from_unix (to_unix ?at)\<bar> then Some ErrSignatureExpired
     else if received = sent \<and> set held \<inter> set [''old'', ''new''] \<noteq> {} then None
     else Some ErrSignatureMismatch)"
    if "\<bar>now - from_unix (to_unix ?at)\<bar> < 2 ^ 63" for held sent received now tolerance
    by (rule signed_webhook_verifies [OF sample_mac_ok(1) t ne _ that]) (rule sample_mac_ok(2))
  show ?thesis
    unfolding Let_def V [OF n(1)] V [OF n(2)] u(2) by (simp add: DefaultTolerance_def)
qed

end
