(* ===== verification/Dispatcher.thy ===== *)
theory Dispatcher
  imports Store_Port Webhook_Payload Webhook_Signature
begin

text \<open>
  Delivering webhooks: one attempt over HTTP (\<^verbatim>\<open>internal/webhook/dispatcher.go\<close>) and a round of
  the dispatcher over the delivery queue (\<^verbatim>\<open>internal/service/dispatcher.go\<close>). The network, the
  signing and the secret store are what \<open>world\<close> holds. The attempts of a round run in parallel
  and touch different deliveries; the model runs them in the order they were claimed, and takes
  one reading of the clock per round.
\<close>

section \<open>Sending\<close>

definition ErrPrivateAddress :: goerror where
  "ErrPrivateAddress = ErrMessage ''webhook: endpoint resolves to a non-public address''"

record HttpRequest =
  rq_URL :: string
  rq_Headers :: "(string \<times> string) list"
  rq_Body :: string

record world =
  w_NewRequest :: "string \<Rightarrow> goerror option"
  w_Do :: "HttpRequest \<Rightarrow> goerror + int \<times> string"
  w_hmac :: mac
  w_secrets :: "string \<Rightarrow> goerror + string list"
  w_draw :: "int \<Rightarrow> rat"
  w_now :: gotime
  w_took :: duration

definition webhook_headers :: "mac \<Rightarrow> gotime \<Rightarrow> Delivery \<Rightarrow> (string \<times> string) list" where
  "webhook_headers hmac started d =
    [(''Content-Type'', ''application/json''), (''User-Agent'', ''ReconSync-Webhook/1.0''),
     (''X-ReconSync-Signature'', SignWith hmac (dl_Secrets d) started (dl_Payload d)),
     (''X-ReconSync-Event'', dl_Event d)] @
    (if dl_Drill d then [(''X-ReconSync-Delivery'', dl_TransactionID d), (''X-ReconSync-Drill'', ''true'')]
     else [(''X-ReconSync-Delivery'', ''dlv_'' @ show_int (dl_ID d))])"

definition Send :: "world \<Rightarrow> Delivery \<Rightarrow> SendResult" where
  "Send w d =
    (let failed = \<lparr>sr_Delivered = False, sr_StatusCode = 0, sr_ResponseBody = '''', sr_Duration = 0,
                   sr_Err = None, sr_Retryable = False\<rparr>
     in case w_NewRequest w (dl_URL d) of
          Some err \<Rightarrow> failed\<lparr>sr_Err := Some (ErrWrapped ''build request'' err)\<rparr>
        | None \<Rightarrow>
            (case w_Do w \<lparr>rq_URL = dl_URL d, rq_Headers = webhook_headers (w_hmac w) (w_now w) d,
                          rq_Body = dl_Payload d\<rparr> of
               Inl err \<Rightarrow> failed\<lparr>sr_Duration := w_took w, sr_Err := Some err,
                                sr_Retryable := \<not> errors_is err ErrPrivateAddress\<rparr>
             | Inr (code, body) \<Rightarrow>
                 \<lparr>sr_Delivered = (code \<ge> 200 \<and> code < 300), sr_StatusCode = code,
                  sr_ResponseBody = take maxResponseBody body, sr_Duration = w_took w, sr_Err = None,
                  sr_Retryable = RetryableStatus code\<rparr>))"

section \<open>One delivery\<close>

definition delivery_of :: "DueDelivery \<Rightarrow> string list \<Rightarrow> Delivery" where
  "delivery_of item secrets =
    \<lparr>dl_ID = dd_ID item, dl_TenantID = dd_TenantID item, dl_EndpointID = dd_EndpointID item,
     dl_TransactionID = dd_TransactionID item, dl_URL = dd_URL item, dl_Secrets = secrets,
     dl_Event = dd_EventType item, dl_Payload = dd_Payload item, dl_Attempt = dd_Attempt item, dl_Drill = False\<rparr>"

definition attempt_delivery :: "world \<Rightarrow> 's store \<Rightarrow> DueDelivery \<Rightarrow> ('s, string) action" where
  "attempt_delivery w S item =
    (case w_secrets w (dd_SecretRef item) of
       Inl err \<Rightarrow> fail err
     | Inr secrets \<Rightarrow>
         let delivery = delivery_of item secrets;
             result = Send w delivery;
             outcome = Decide (w_draw w (dd_ID item)) delivery result (w_now w);
             code = (if sr_StatusCode result \<noteq> 0 then Some (sr_StatusCode result) else None)
         in seq (ws_RecordDeliveryOutcome (st_webhook S) (dd_ID item)
                  \<lparr>do_Status = oc_Status outcome, do_ResponseCode = code,
                   do_ResponseBody = sr_ResponseBody result, do_DurationMS = go_div (sr_Duration result) 1000000,
                   do_NextRetryAt = oc_NextRetryAt outcome\<rparr>)
              (\<lambda>_. if oc_Status outcome = WebhookDeadLetter \<and> dl_Event delivery = EventReversalTriggered
                   then attempt (ts_MarkReversalFailed (st_tx S) (dd_TenantID item) (dd_TransactionID item) (w_now w))
                     (\<lambda>r. case r of
                        Inr _ \<Rightarrow> ret (oc_Status outcome)
                      | Inl err \<Rightarrow> if \<not> errors_is err ErrNotFound \<and> \<not> is_invalid_transition err then fail err
                                   else ret (oc_Status outcome))
                   else ret (oc_Status outcome)))"

section \<open>A round\<close>

definition DefaultDispatchBatch :: int where "DefaultDispatchBatch = 100"
definition DefaultLease :: duration where "DefaultLease = 60 * second"

record DispatchResult =
  dsr_Claimed :: nat
  dsr_Delivered :: nat
  dsr_Retrying :: nat
  dsr_DeadLetters :: nat

definition count_delivery :: "string \<Rightarrow> DispatchResult \<Rightarrow> DispatchResult" where
  "count_delivery outcome res =
    (if outcome = WebhookDelivered then res\<lparr>dsr_Delivered := dsr_Delivered res + 1\<rparr>
     else if outcome = WebhookPending then res\<lparr>dsr_Retrying := dsr_Retrying res + 1\<rparr>
     else if outcome = WebhookDeadLetter then res\<lparr>dsr_DeadLetters := dsr_DeadLetters res + 1\<rparr>
     else res)"

fun dispatch_loop :: "world \<Rightarrow> 's store \<Rightarrow> DueDelivery list \<Rightarrow> DispatchResult \<Rightarrow> ('s, DispatchResult) action" where
  "dispatch_loop w S [] res = ret res"
| "dispatch_loop w S (item # due) res =
    attempt (attempt_delivery w S item)
      (\<lambda>r. case r of
             Inl err \<Rightarrow> dispatch_loop w S due res
           | Inr outcome \<Rightarrow> dispatch_loop w S due (count_delivery outcome res))"

definition Dispatch :: "world \<Rightarrow> 's store \<Rightarrow> duration \<Rightarrow> int \<Rightarrow> ('s, DispatchResult) action" where
  "Dispatch w S lease batch =
    seq (ws_ClaimDueDeliveries (st_webhook S) (w_now w)
          (if lease \<le> 0 then DefaultLease else lease) (if batch \<le> 0 then DefaultDispatchBatch else batch))
      (\<lambda>due. dispatch_loop w S due
        \<lparr>dsr_Claimed = length due, dsr_Delivered = 0, dsr_Retrying = 0, dsr_DeadLetters = 0\<rparr>)"

section \<open>What one attempt does to the queue\<close>

lemma memory_full_simps [simp]:
  "ws_RecordDeliveryOutcome (st_webhook (memory_full dg now)) = RecordDeliveryOutcome"
  "ws_ClaimDueDeliveries (st_webhook (memory_full dg now)) = ClaimDueDeliveries"
  "ws_ListEndpoints (st_webhook (memory_full dg now)) = ListEndpoints"
  "ws_EnqueueDelivery (st_webhook (memory_full dg now)) a d = EnqueueDelivery a d now"
  "ts_MarkReversalFailed (st_tx (memory_full dg now)) a b at' = MarkReversalFailed a b at' now"
  by (simp_all add: memory_full_def memory_webhooks_def memory_store_def)

text \<open>A record that may still be attempted has attempts left; a finished one is left alone.\<close>

definition within_attempts :: "DeliveryRecord \<Rightarrow> bool" where
  "within_attempts d \<longleftrightarrow> 0 \<le> dr_Attempt d \<and> dr_Attempt d \<le> MaxAttempts \<and>
    (dr_Status d = WebhookPending \<longrightarrow> dr_Attempt d < MaxAttempts)"

definition bounded_queue :: "memory \<Rightarrow> bool" where
  "bounded_queue m \<longleftrightarrow> queue_ok m \<and> (\<forall>i d. map_of (m_deliveries m) i = Some d \<longrightarrow> within_attempts d)"

lemma markReversal_deliveries [simp]:
  "m_deliveries (snd (markReversal a b target at' now m)) = m_deliveries m"
  "m_nextDeliveryID (snd (markReversal a b target at' now m)) = m_nextDeliveryID m"
  by (simp_all add: markReversal_def Let_def split: option.split)

lemma MaxAttempts_eq: "MaxAttempts = 6"
  by (simp add: MaxAttempts_def retrySchedule_def)

lemma Decide_pending:
  "oc_Status (Decide r d res now) = WebhookPending \<Longrightarrow> dl_Attempt d + 1 < MaxAttempts"
  by (auto simp: Decide_def delivery_statuses ShouldRetry_def split: if_splits)

lemma Decide_status: "oc_Status (Decide r d res now) \<in> {WebhookPending, WebhookDelivered, WebhookDeadLetter}"
  by (simp add: Decide_def)

lemma attempt_unresolved:
  "w_secrets w (dd_SecretRef item) = Inl e \<Longrightarrow> attempt_delivery w S item s = (Inl e, s)"
  by (simp add: attempt_delivery_def fail_def)

text \<open>One attempt was recorded: the count is one higher and the status is the decision's.\<close>

definition attempted :: "DeliveryRecord \<Rightarrow> DeliveryRecord \<Rightarrow> bool" where
  "attempted d d' \<longleftrightarrow> dr_ID d' = dr_ID d \<and> dr_Attempt d' = dr_Attempt d + 1 \<and>
    (dr_Status d' = WebhookPending \<longrightarrow> dr_Attempt d' < MaxAttempts) \<and>
    dr_Status d' \<in> {WebhookPending, WebhookDelivered, WebhookDeadLetter}"

lemma attempt_resolved:
  assumes "w_secrets w (dd_SecretRef item) = Inr secrets" "map_of (m_deliveries m) (dd_ID item) = Some d"
    and "dr_Attempt d = dd_Attempt item"
  shows "\<exists>d'. m_deliveries (snd (attempt_delivery w (memory_full dg now) item m)) =
      AList.update (dd_ID item) d' (m_deliveries m) \<and>
    m_nextDeliveryID (snd (attempt_delivery w (memory_full dg now) item m)) = m_nextDeliveryID m \<and> attempted d d'"
proof -
  let ?dl = "delivery_of item secrets"
  let ?oc = "Decide (w_draw w (dd_ID item)) ?dl (Send w ?dl) (w_now w)"
  define out where "out = \<lparr>do_Status = oc_Status ?oc,
      do_ResponseCode = (if sr_StatusCode (Send w ?dl) \<noteq> 0 then Some (sr_StatusCode (Send w ?dl)) else None),
      do_ResponseBody = sr_ResponseBody (Send w ?dl), do_DurationMS = go_div (sr_Duration (Send w ?dl)) 1000000,
      do_NextRetryAt = oc_NextRetryAt ?oc\<rparr>"
  obtain d' m1 where m1: "RecordDeliveryOutcome (dd_ID item) out m = (Inr (), m1)"
    "m_deliveries m1 = AList.update (dd_ID item) d' (m_deliveries m)" "m_nextDeliveryID m1 = m_nextDeliveryID m"
    "dr_ID d' = dr_ID d" "dr_Attempt d' = dr_Attempt d + 1" "dr_Status d' = oc_Status ?oc"
    using assms(2) by (simp add: RecordDeliveryOutcome_def Let_def out_def)
  have "dl_Attempt ?dl = dr_Attempt d" by (simp add: delivery_of_def assms(3))
  then have "attempted d d'"
    using m1(4-6) Decide_pending [of "w_draw w (dd_ID item)" ?dl "Send w ?dl" "w_now w"]
      Decide_status [of "w_draw w (dd_ID item)" ?dl "Send w ?dl" "w_now w"]
    by (simp add: attempted_def)
  moreover have "m_deliveries (snd (attempt_delivery w (memory_full dg now) item m)) = m_deliveries m1 \<and>
      m_nextDeliveryID (snd (attempt_delivery w (memory_full dg now) item m)) = m_nextDeliveryID m1"
  proof -
    have "snd (attempt_delivery w (memory_full dg now) item m) =
        (if oc_Status ?oc = WebhookDeadLetter \<and> dl_Event ?dl = EventReversalTriggered
         then snd (MarkReversalFailed (dd_TenantID item) (dd_TransactionID item) (w_now w) now m1) else m1)"
      by (simp add: attempt_delivery_def assms(1) seq_def attempt_def Let_def out_def [symmetric] m1(1) ret_def fail_def
          split_beta split: sum.split)
    then show ?thesis by (simp add: MarkReversalFailed_def)
  qed
  ultimately show ?thesis using m1(2,3) by auto
qed

text \<open>The items of a round are the records they were made from.\<close>

definition matches_queue :: "memory \<Rightarrow> DueDelivery \<Rightarrow> bool" where
  "matches_queue m item \<longleftrightarrow> (\<exists>d. map_of (m_deliveries m) (dd_ID item) = Some d \<and> dr_Attempt d = dd_Attempt item)"

definition resolves :: "world \<Rightarrow> DueDelivery \<Rightarrow> bool" where
  "resolves w item \<longleftrightarrow> \<not> isl (w_secrets w (dd_SecretRef item))"

lemma dispatch_loop_effect:
  assumes "queue_ok m" "distinct (map dd_ID due)" "list_all (matches_queue m) due"
    and "m' = snd (dispatch_loop w (memory_full dg now) due res m)"
  shows "queue_ok m' \<and>
    (\<forall>i. i \<notin> dd_ID ` {x \<in> set due. resolves w x} \<longrightarrow> map_of (m_deliveries m') i = map_of (m_deliveries m) i) \<and>
    (\<forall>x \<in> set due. resolves w x \<longrightarrow> (\<exists>d d'. map_of (m_deliveries m) (dd_ID x) = Some d \<and>
      map_of (m_deliveries m') (dd_ID x) = Some d' \<and> attempted d d'))"
  using assms
proof (induction due arbitrary: m res)
  case (Cons item due)
  let ?S = "memory_full dg now"
  let ?m1 = "snd (attempt_delivery w ?S item m)"
  obtain res1 where m': "m' = snd (dispatch_loop w ?S due res1 ?m1)"
    using Cons.prems(4) by (cases "attempt_delivery w ?S item m"; cases "fst (attempt_delivery w ?S item m)")
      (auto simp: attempt_def)
  obtain d where d: "map_of (m_deliveries m) (dd_ID item) = Some d" "dr_Attempt d = dd_Attempt item"
    using Cons.prems(3) by (auto simp: matches_queue_def)
  show ?case
  proof (cases "w_secrets w (dd_SecretRef item)")
    case (Inl e)
    then have "?m1 = m" "\<not> resolves w item" by (simp_all add: attempt_unresolved resolves_def)
    then show ?thesis using Cons.IH [OF Cons.prems(1) _ _ m' [unfolded \<open>?m1 = m\<close>]] Cons.prems by auto
  next
    case (Inr secrets)
    then have r: "resolves w item" by (simp add: resolves_def)
    obtain d' where q: "m_deliveries ?m1 = AList.update (dd_ID item) d' (m_deliveries m)"
      "m_nextDeliveryID ?m1 = m_nextDeliveryID m" "attempted d d'"
      using attempt_resolved [OF Inr d] by blast
    have map1: "map_of (m_deliveries ?m1) i = (if i = dd_ID item then Some d' else map_of (m_deliveries m) i)" for i
      by (auto simp: q(1) update_conv)
    have "dr_ID d' = dr_ID d" using q(3) by (simp add: attempted_def)
    from queue_ok_update [OF Cons.prems(1) d(1) this] have ok1: "queue_ok ?m1"
      by (rule queue_ok_same) (simp_all add: q)
    have ne: "dd_ID x \<noteq> dd_ID item" if "x \<in> set due" for x
      using that Cons.prems(2) by (auto simp: image_iff)
    have "list_all (matches_queue ?m1) due"
      unfolding list_all_iff
    proof
      fix x
      assume x: "x \<in> set due"
      then have "matches_queue m x" using Cons.prems(3) by (simp add: list_all_iff)
      with ne [OF x] show "matches_queue ?m1 x" by (simp add: matches_queue_def map1)
    qed
    note IH = Cons.IH [OF ok1 _ this m']
    have "dd_ID item \<notin> dd_ID ` {x \<in> set due. resolves w x}" using Cons.prems(2) by auto
    with IH Cons.prems(2) have own: "map_of (m_deliveries m') (dd_ID item) = Some d'" by (simp add: map1)
    have rest: "map_of (m_deliveries ?m1) (dd_ID x) = map_of (m_deliveries m) (dd_ID x)" if "x \<in> set due" for x
      using ne [OF that] by (simp add: map1)
    show ?thesis
    proof (intro conjI allI impI ballI)
      show "queue_ok m'" using IH Cons.prems(2) by simp
    next
      fix i
      assume i: "i \<notin> dd_ID ` {x \<in> set (item # due). resolves w x}"
      then have "i \<noteq> dd_ID item" "i \<notin> dd_ID ` {x \<in> set due. resolves w x}" using r by auto
      with IH Cons.prems(2) show "map_of (m_deliveries m') i = map_of (m_deliveries m) i" by (simp add: map1)
    next
      fix x
      assume x: "x \<in> set (item # due)" "resolves w x"
      show "\<exists>d d'. map_of (m_deliveries m) (dd_ID x) = Some d \<and> map_of (m_deliveries m') (dd_ID x) = Some d' \<and> attempted d d'"
      proof (cases "x = item")
        case True
        with own q(3) d(1) show ?thesis by auto
      next
        case False
        with x have due: "x \<in> set due" by simp
        have "\<forall>x \<in> set due. resolves w x \<longrightarrow> (\<exists>d d'. map_of (m_deliveries ?m1) (dd_ID x) = Some d \<and>
            map_of (m_deliveries m') (dd_ID x) = Some d' \<and> attempted d d')"
          using IH Cons.prems(2) by simp
        with due x(2) have "\<exists>d d'. map_of (m_deliveries ?m1) (dd_ID x) = Some d \<and>
            map_of (m_deliveries m') (dd_ID x) = Some d' \<and> attempted d d'" by blast
        then show ?thesis unfolding rest [OF due] .
      qed
    qed
  qed
qed (auto simp: ret_def)

section \<open>Rounds among other operations\<close>

datatype dispatch_op =
    Queue_Op queue_op
  | Round world duration int

text \<open>The deliveries a round attempts: those it claims and whose secret resolves.\<close>

fun exec_dispatch :: "digest \<Rightarrow> dispatch_op \<Rightarrow> memory \<Rightarrow> int list \<times> memory" where
  "exec_dispatch dg (Queue_Op p) m = ([], snd (exec_queue p m))"
| "exec_dispatch dg (Round w lease batch) m =
    (let due = (case fst (ClaimDueDeliveries (w_now w) (if lease \<le> 0 then DefaultLease else lease)
                 (if batch \<le> 0 then DefaultDispatchBatch else batch) m) of Inl _ \<Rightarrow> [] | Inr xs \<Rightarrow> xs)
     in (map dd_ID (filter (resolves w) due), snd (Dispatch w (memory_full dg (w_now w)) lease batch m)))"

text \<open>Outcomes are recorded by rounds only, and an operator does not replay delivery \<open>i\<close>.\<close>

fun left_to_rounds :: "int \<Rightarrow> dispatch_op \<Rightarrow> bool" where
  "left_to_rounds i (Queue_Op (Outcome _ _)) \<longleftrightarrow> False"
| "left_to_rounds i (Queue_Op (Replay a j now)) \<longleftrightarrow> j \<noteq> i"
| "left_to_rounds i _ \<longleftrightarrow> True"

lemma claimed_matches:
  assumes ok: "queue_ok m" and run: "ClaimDueDeliveries now lease limit m = (Inr due, m')"
  shows "list_all (matches_queue m') due" "distinct (map dd_ID due)" "queue_ok m'"
    "\<forall>i. map_option dr_Attempt (map_of (m_deliveries m') i) = map_option dr_Attempt (map_of (m_deliveries m) i) \<and>
      map_option dr_Status (map_of (m_deliveries m') i) = map_option dr_Status (map_of (m_deliveries m) i)"
    "\<forall>x\<in>set due. \<exists>d. map_of (m_deliveries m) (dd_ID x) = Some d \<and> dr_Status d = WebhookPending"
proof -
  have d: "distinct (map fst (m_deliveries m))" using ok by (simp add: queue_ok_def)
  let ?due = "claimed_due now limit m"
  have due: "due = map (\<lambda>(i, d). hand_out m i d) ?due"
    and m': "m_deliveries m' = leased (now + lease_of lease) ?due (m_deliveries m)"
    using run by (auto simp: ClaimDueDeliveries_eq)
  note leased = map_of_leased [OF claimed_due_distinct [OF d], of "now + lease_of lease" now limit "m_deliveries m"]
  have item: "map_of (m_deliveries m) i = Some e \<and> map_of ?due i = Some e \<and> dr_Status e = WebhookPending \<and>
      dd_ID (hand_out m i e) = i \<and> dd_Attempt (hand_out m i e) = dr_Attempt e" if "(i, e) \<in> set ?due" for i e
    using claimed_due_sub [OF that] that ok d claimed_due_distinct [OF d, of now limit]
    by (auto simp: queue_ok_def hand_out_def Let_def deliverable_def WebhookPending_def)
  show "list_all (matches_queue m') due"
    using item by (fastforce simp: list_all_iff due matches_queue_def m' leased)
  have "map dd_ID due = map fst ?due" using item by (auto simp: due)
  then show "distinct (map dd_ID due)" using claimed_due_distinct [OF d] by simp
  show "queue_ok m'" using ClaimDueDeliveries_queue_ok [OF ok, of now lease limit] run by simp
  show "\<forall>i. map_option dr_Attempt (map_of (m_deliveries m') i) = map_option dr_Attempt (map_of (m_deliveries m) i) \<and>
      map_option dr_Status (map_of (m_deliveries m') i) = map_option dr_Status (map_of (m_deliveries m) i)"
    using item by (auto simp: m' leased split: option.split dest!: map_of_SomeD)
  show "\<forall>x\<in>set due. \<exists>d. map_of (m_deliveries m) (dd_ID x) = Some d \<and> dr_Status d = WebhookPending"
    using item by (fastforce simp: due)
qed


lemma count_list_distinct: "distinct xs \<Longrightarrow> count_list xs x = (if x \<in> set xs then 1 else 0)"
  by (induction xs) auto

lemma Dispatch_eq:
  assumes "ClaimDueDeliveries (w_now w) (if lease \<le> 0 then DefaultLease else lease)
      (if batch \<le> 0 then DefaultDispatchBatch else batch) m = (Inr due, m1)"
  shows "snd (Dispatch w (memory_full dg (w_now w)) lease batch m) = snd (dispatch_loop w (memory_full dg (w_now w)) due
    \<lparr>dsr_Claimed = length due, dsr_Delivered = 0, dsr_Retrying = 0, dsr_DeadLetters = 0\<rparr> m1)"
  using assms by (simp add: Dispatch_def seq_def)

text \<open>A history, or one step of it, seen from one delivery that it sends \<open>n\<close> times.\<close>

definition sent :: "nat \<Rightarrow> DeliveryRecord \<Rightarrow> DeliveryRecord \<Rightarrow> bool" where
  "sent n d d' \<longleftrightarrow> within_attempts d' \<and> dr_Attempt d' = dr_Attempt d + int n \<and>
    (dr_Status d \<noteq> WebhookPending \<longrightarrow> n = 0) \<and> (n = 0 \<longrightarrow> dr_Status d' = dr_Status d) \<and>
    (0 < n \<longrightarrow> dr_Status d' \<in> {WebhookPending, WebhookDelivered, WebhookDeadLetter})"

lemma sent_trans: "sent n d d1 \<Longrightarrow> sent k d1 d' \<Longrightarrow> sent (n + k) d d'"
  unfolding sent_def by (cases "n = 0"; cases "k = 0") auto

abbreviation sends :: "int \<Rightarrow> (dispatch_op \<times> int list) list \<Rightarrow> nat" where
  "sends i rs \<equiv> sum_list (map (\<lambda>(p, ids). count_list ids i) rs)"

lemma exec_dispatch_step:
  assumes ok: "queue_ok m" and d: "map_of (m_deliveries m) i = Some d" "within_attempts d"
    and quiet: "left_to_rounds i p" and run: "exec_dispatch dg p m = (ids, m')"
  shows "queue_ok m' \<and> (\<exists>d'. map_of (m_deliveries m') i = Some d' \<and> sent (count_list ids i) d d')"
proof (cases p)
  case (Queue_Op q)
  with run have m': "m' = snd (exec_queue q m)" and ids: "ids = []" by simp_all
  have "\<exists>d'. map_of (m_deliveries m') i = Some d' \<and> dr_Attempt d' = dr_Attempt d \<and> dr_Status d' = dr_Status d"
  proof (cases q)
    case (Claim_Due now lease limit)
    obtain due m1 where c: "ClaimDueDeliveries now lease limit m = (Inr due, m1)" using ClaimDueDeliveries_eq by blast
    have "m' = m1" using m' c Claim_Due by simp
    with claimed_matches(4) [OF ok c] d show ?thesis by (metis option.map_disc_iff option.map_sel option.exhaust_sel option.sel option.distinct(1))
  next
    case (Enqueue a pd now)
    have "i \<le> m_nextDeliveryID m" using d queue_okD [OF ok] by blast
    then show ?thesis using Enqueue d m' by (auto simp: EnqueueDelivery_def Let_def update_conv)
  next
    case (Replay a j now)
    then have "j \<noteq> i" using quiet Queue_Op by simp
    then show ?thesis using Replay d m' by (auto simp: ReplayDelivery_def update_conv split: option.splits)
  qed (use quiet Queue_Op d m' in auto)
  then show ?thesis
    using exec_queue_ok [OF ok, of q] m' d ids by (auto simp: within_attempts_def sent_def)
next
  case (Round w lease batch)
  let ?lease = "if lease \<le> 0 then DefaultLease else lease" and ?batch = "if batch \<le> 0 then DefaultDispatchBatch else batch"
  obtain due m1 where c: "ClaimDueDeliveries (w_now w) ?lease ?batch m = (Inr due, m1)" using ClaimDueDeliveries_eq by blast
  note claim = claimed_matches [OF ok c]
  have ids: "ids = map dd_ID (filter (resolves w) due)"
    and m': "m' = snd (dispatch_loop w (memory_full dg (w_now w)) due
      \<lparr>dsr_Claimed = length due, dsr_Delivered = 0, dsr_Retrying = 0, dsr_DeadLetters = 0\<rparr> m1)"
    using run Round c Dispatch_eq [OF c, of dg] by (auto simp: Let_def)
  note effect = dispatch_loop_effect [OF claim(3,2,1) m']
  obtain d1 where d1: "map_of (m_deliveries m1) i = Some d1" "dr_Attempt d1 = dr_Attempt d" "dr_Status d1 = dr_Status d"
    using claim(4) d(1) by (metis option.map_disc_iff option.map_sel option.exhaust_sel option.sel option.distinct(1))
  have distinct: "distinct ids" using claim(2) by (simp add: ids distinct_map_filter)
  show ?thesis
  proof (cases "i \<in> set ids")
    case True
    then obtain x where x: "x \<in> set due" "resolves w x" "dd_ID x = i" by (auto simp: ids)
    have n: "count_list ids i = 1" using distinct True by (simp add: count_list_distinct)
    obtain d' where d': "map_of (m_deliveries m') i = Some d'" "attempted d1 d'"
      using effect x d1(1) by force
    have "dr_Status d = WebhookPending" using claim(5) x d(1) by force
    with d d' d1 n effect show ?thesis
      by (auto simp: attempted_def within_attempts_def sent_def)
  next
    case False
    then have n: "count_list ids i = 0" by (simp add: count_list_0_iff)
    have "i \<notin> dd_ID ` {x \<in> set due. resolves w x}" using False by (auto simp: ids)
    with effect d1(1) have "map_of (m_deliveries m') i = Some d1" by simp
    with effect d d1 n show ?thesis by (auto simp: within_attempts_def sent_def)
  qed
qed

lemma run_dispatch_sent:
  "queue_ok m \<Longrightarrow> map_of (m_deliveries m) i = Some d \<Longrightarrow> within_attempts d \<Longrightarrow> list_all (left_to_rounds i) ops \<Longrightarrow>
    run_ops (exec_dispatch dg) ops m = (rs, m') \<Longrightarrow> \<exists>d'. map_of (m_deliveries m') i = Some d' \<and> sent (sends i rs) d d'"
proof (induction ops arbitrary: m d rs)
  case (Cons p ops)
  obtain ids m1 where p: "exec_dispatch dg p m = (ids, m1)" by fastforce
  obtain ts where rest: "run_ops (exec_dispatch dg) ops m1 = (ts, m')" and rs: "rs = (p, ids) # ts"
    using Cons.prems(5) p by (auto split: prod.splits)
  have quiet: "left_to_rounds i p" "list_all (left_to_rounds i) ops" using Cons.prems(4) by simp_all
  from exec_dispatch_step [OF Cons.prems(1-3) quiet(1) p] obtain d1 where
    d1: "queue_ok m1" "map_of (m_deliveries m1) i = Some d1" "sent (count_list ids i) d d1" by blast
  then have "within_attempts d1" by (simp add: sent_def)
  from Cons.IH [OF d1(1,2) this quiet(2) rest] sent_trans [OF d1(3)] show ?case by (auto simp: rs)
qed (simp add: sent_def)

lemma exec_dispatch_queue_ok: "queue_ok m \<Longrightarrow> queue_ok (snd (exec_dispatch dg p m))"
proof (cases p)
  case (Round w lease batch)
  assume ok: "queue_ok m"
  obtain due m1 where c: "ClaimDueDeliveries (w_now w) (if lease \<le> 0 then DefaultLease else lease)
      (if batch \<le> 0 then DefaultDispatchBatch else batch) m = (Inr due, m1)" using ClaimDueDeliveries_eq by blast
  note claim = claimed_matches [OF ok c]
  show ?thesis
    using dispatch_loop_effect [OF claim(3,2,1) refl] by (simp add: Round Let_def Dispatch_eq [OF c])
qed (simp add: exec_queue_ok)

lemma run_dispatch_queue_ok: "queue_ok m \<Longrightarrow> queue_ok (snd (run_ops (exec_dispatch dg) ops m))"
  by (induction ops arbitrary: m) (auto simp: Let_def split_beta exec_dispatch_queue_ok)

text \<open>
  C26. A delivery is attempted at most six times. Over any history of dispatcher rounds,
  whatever the network answers and whatever else happens to the queue short of an operator
  replaying it, a pending delivery is sent at most once per round and at most six times in
  all; after the sixth attempt it is delivered or dead-lettered, and once it is either of
  these it is never sent again.
\<close>

theorem delivery_terminates:
  assumes "queue_ok m" "map_of (m_deliveries m) i = Some d" "dr_Status d = WebhookPending" "dr_Attempt d = 0"
    and "list_all (left_to_rounds i) ops" "run_ops (exec_dispatch dg) ops m = (rs, m')"
  shows "sends i rs \<le> 6 \<and> (\<exists>d'. map_of (m_deliveries m') i = Some d' \<and> dr_Attempt d' = int (sends i rs) \<and>
      dr_Status d' \<in> {WebhookPending, WebhookDelivered, WebhookDeadLetter} \<and>
      (sends i rs = 6 \<longrightarrow> dr_Status d' \<in> {WebhookDelivered, WebhookDeadLetter}) \<and>
      (dr_Status d' \<noteq> WebhookPending \<longrightarrow> (\<forall>ops'. list_all (left_to_rounds i) ops' \<longrightarrow>
        sends i (fst (run_ops (exec_dispatch dg) ops' m')) = 0)))"
proof -
  have w: "within_attempts d" using assms(3,4) by (simp add: within_attempts_def MaxAttempts_eq)
  from run_dispatch_sent [OF assms(1,2) w assms(5,6)] obtain d' where
    d': "map_of (m_deliveries m') i = Some d'" "sent (sends i rs) d d'" by blast
  then have w': "within_attempts d'" "dr_Attempt d' = int (sends i rs)"
    "dr_Status d' \<in> {WebhookPending, WebhookDelivered, WebhookDeadLetter}"
    using assms(3,4) by (auto simp: sent_def)
  have ok': "queue_ok m'" using run_dispatch_queue_ok [OF assms(1), of dg ops] assms(6) by simp
  have silent: "sends i (fst (run_ops (exec_dispatch dg) ops' m')) = 0"
    if h: "dr_Status d' \<noteq> WebhookPending" "list_all (left_to_rounds i) ops'" for ops'
  proof -
    obtain ts m2 where "run_ops (exec_dispatch dg) ops' m' = (ts, m2)" by fastforce
    with run_dispatch_sent [OF ok' d'(1) w'(1) h(2) this] h(1) show ?thesis by (auto simp: sent_def)
  qed
  have n: "sends i rs \<le> 6" using w'(1,2) by (simp add: within_attempts_def MaxAttempts_eq)
  have final: "dr_Status d' \<in> {WebhookDelivered, WebhookDeadLetter}" if "sends i rs = 6"
  proof -
    have "dr_Status d' \<noteq> WebhookPending" using that w'(1,2) by (auto simp: within_attempts_def MaxAttempts_eq)
    with w'(3) show ?thesis by blast
  qed
  show ?thesis
    by (intro conjI exI [of _ d'] allI impI) (fact n, fact d'(1), fact w'(2), fact w'(3), erule final, erule (1) silent)
qed


text \<open>An endpoint that answers 500, tried once an hour.\<close>

definition failing_world :: "gotime \<Rightarrow> world" where
  "failing_world now = \<lparr>w_NewRequest = (\<lambda>_. None), w_Do = (\<lambda>_. Inr (500, ''busy'')), w_hmac = sample_mac,
    w_secrets = (\<lambda>_. Inr [''s'']), w_draw = (\<lambda>_. 1 / 2), w_now = now, w_took = 1\<rparr>"

theorem delivery_terminates_witness:
  "let rs = fst (run_ops (exec_dispatch (\<lambda>_. Inr ''h''))
      (map (\<lambda>k. Round (failing_world (int k * hour)) 0 0) [1..<40]) sample_queue)
   in sends 1 rs \<le> 6"
proof -
  have ok: "queue_ok sample_queue"
    unfolding sample_queue_def by (intro EnqueueDelivery_queue_ok) (simp add: queue_ok_def NewMemory_def)
  obtain d where d: "map_of (m_deliveries sample_queue) 1 = Some d" "dr_Status d = WebhookPending" "dr_Attempt d = 0"
    by (simp add: sample_queue_def EnqueueDelivery_def NewMemory_def WebhookPending_def)
  let ?ops = "map (\<lambda>k. Round (failing_world (int k * hour)) 0 0) [1..<40]"
  obtain rs m' where run: "run_ops (exec_dispatch (\<lambda>_. Inr ''h'')) ?ops sample_queue = (rs, m')" by fastforce
  have "list_all (left_to_rounds 1) ?ops" by (simp add: list_all_iff)
  from delivery_terminates [OF ok d this run] run show ?thesis by (simp only: Let_def fst_conv)
qed

end
