(* ===== verification/Provider_Registry.thy ===== *)
theory Provider_Registry
  imports Domain_Status Go_Prelude
begin

text \<open>
  Asking a payment rail what happened (\<^verbatim>\<open>internal/provider/provider.go\<close>): the outcomes, the
  registry of adapters and the query that turns whatever an adapter does into one of four
  answers. An adapter is a function from the reference to what Go returns, a status and an
  error.
\<close>

datatype ProviderOutcome = Settled | Failed | NotFound | Unknown | OtherOutcome string

definition Conclusive :: "ProviderOutcome \<Rightarrow> bool" where
  "Conclusive o' \<longleftrightarrow> o' = Settled \<or> o' = Failed \<or> o' = NotFound"

record Ref =
  ref_TenantID :: string
  ref_TransactionID :: string
  ref_Provider :: string
  ref_ProviderRef :: string
  ref_AmountMinor :: int
  ref_Currency :: string

record ProviderStatus =
  pst_Outcome :: ProviderOutcome
  pst_Provider :: string
  pst_Reference :: string
  pst_ObservedAt :: gotime
  pst_Detail :: string

type_synonym adapter = "Ref \<Rightarrow> ProviderStatus \<times> goerror option"

text \<open>The registry maps a rail's name to its adapter.\<close>

type_synonym registry = "(string \<times> adapter) list"

definition NewRegistry :: registry where "NewRegistry = []"

definition Register :: "string \<Rightarrow> adapter \<Rightarrow> registry \<Rightarrow> goerror option \<times> registry" where
  "Register name p r =
    (if name = '''' then (Some (ErrMessage ''provider: adapter has no name''), r)
     else (None, AList.update name p r))"

definition Names :: "registry \<Rightarrow> string list" where
  "Names r = sort (map fst r)"

definition unknown_status :: "Ref \<Rightarrow> gotime \<Rightarrow> string \<Rightarrow> ProviderStatus" where
  "unknown_status ref now detail =
    \<lparr>pst_Outcome = Unknown, pst_Provider = ref_Provider ref, pst_Reference = '''', pst_ObservedAt = now,
     pst_Detail = detail\<rparr>"

text \<open>The text of an adapter's error is not modelled, so the detail ends before it.\<close>

definition Registry_Query :: "registry \<Rightarrow> Ref \<Rightarrow> gotime \<Rightarrow> ProviderStatus" where
  "Registry_Query r ref now =
    (case map_of r (ref_Provider ref) of
       None \<Rightarrow> unknown_status ref now ''no status provider registered for this rail''
     | Some p \<Rightarrow>
         (case p ref of
            (status, Some err) \<Rightarrow> unknown_status ref now ''provider query failed: ''
          | (status, None) \<Rightarrow>
              if pst_Outcome status \<in> {Settled, Failed, NotFound, Unknown}
              then let status = (if pst_Provider status = '''' then status\<lparr>pst_Provider := ref_Provider ref\<rparr> else status)
                   in (if IsZero (pst_ObservedAt status) then status\<lparr>pst_ObservedAt := now\<rparr> else status)
              else unknown_status ref now ''adapter returned an unrecognised outcome''))"

text \<open>
  Asking the registry always gives one of the four known outcomes. The answer is
  conclusive only when an adapter is registered under the rail's name and
  itself gave that outcome without an error; everything else - no adapter, an error, an
  outcome nobody knows - is \<open>Unknown\<close>.
\<close>

theorem provider_query_typed:
  "pst_Outcome (Registry_Query r ref now) \<in> {Settled, Failed, NotFound, Unknown} \<and>
    (Conclusive (pst_Outcome (Registry_Query r ref now)) =
      (case map_of r (ref_Provider ref) of None \<Rightarrow> False
       | Some p \<Rightarrow> Conclusive (pst_Outcome (fst (p ref))) \<and> snd (p ref) = None \<and>
           pst_Outcome (Registry_Query r ref now) = pst_Outcome (fst (p ref))))"
proof (cases "map_of r (ref_Provider ref)")
  case None
  then show ?thesis by (auto simp: Registry_Query_def unknown_status_def Conclusive_def)
next
  case (Some p)
  obtain st err where p: "p ref = (st, err)" by fastforce
  show ?thesis
  proof (cases err)
    case None
    with Some p show ?thesis
      by (cases "pst_Outcome st") (auto simp: Registry_Query_def unknown_status_def Conclusive_def IsZero_def Let_def)
  qed (use Some p in \<open>simp add: Registry_Query_def unknown_status_def Conclusive_def\<close>)
qed

end
