(* ===== verification/Detector.thy ===== *)
theory Detector
  imports Store_Port Webhook_Payload Provider_Registry
begin

text \<open>
  The detection sweep (\<^verbatim>\<open>internal/service/detector.go\<close>): claim the transactions whose window
  has closed, weigh the evidence, ask the rail, and queue the webhook. The sweep sees the store
  through its interface. Its configuration holds the one reading of the clock a sweep is given
  here, the two JSON encodings of webhook bodies, and how a time is printed on the audit chain.
  Logs and metrics are not modelled. A sweep that fails returns its error only; the caller
  discards the counts of a failed sweep.
\<close>

section \<open>Configuration\<close>

definition DefaultDetectBatch :: int where "DefaultDetectBatch = 500"
definition DefaultQuietPeriod :: duration where "DefaultQuietPeriod = 5 * minute"
definition DefaultBaselinePeriod :: duration where "DefaultBaselinePeriod = hour"
definition DefaultMinActiveBuckets :: int where "DefaultMinActiveBuckets = 10"
definition DefaultReversalDeadline :: duration where "DefaultReversalDeadline = 24 * hour"
definition DefaultSLAWarnBefore :: duration where "DefaultSLAWarnBefore = 4 * hour"

record DetectorOptions =
  dto_Batch :: int
  dto_Silence :: "SilenceParams option"
  dto_MinReversalConfidence :: rat
  dto_ReversalDeadline :: duration
  dto_SLAWarnBefore :: duration
  dto_Providers :: "registry option"

record Detector =
  dt_now :: gotime
  dt_batch :: int
  dt_silence :: SilenceParams
  dt_providers :: "registry option"
  dt_deadline :: duration
  dt_slaWarnAhead :: duration
  dt_minConfidence :: rat
  dt_marshal :: "Envelope \<Rightarrow> goerror + string"
  dt_marshal_integration :: "IntegrationEnvelope \<Rightarrow> goerror + string"
  dt_render_time :: "gotime \<Rightarrow> string"

definition NewDetector ::
  "gotime \<Rightarrow> (Envelope \<Rightarrow> goerror + string) \<Rightarrow> (IntegrationEnvelope \<Rightarrow> goerror + string) \<Rightarrow> (gotime \<Rightarrow> string) \<Rightarrow>
    DetectorOptions \<Rightarrow> Detector" where
  "NewDetector now encode encode_integration render opts =
    \<lparr>dt_now = now,
     dt_batch = (if dto_Batch opts \<le> 0 then DefaultDetectBatch else dto_Batch opts),
     dt_silence = (case dto_Silence opts of
         Some s \<Rightarrow> s
       | None \<Rightarrow> \<lparr>sp_Quiet = DefaultQuietPeriod, sp_Baseline = DefaultBaselinePeriod,
                  sp_MinActiveBuckets = DefaultMinActiveBuckets\<rparr>),
     dt_providers = dto_Providers opts,
     dt_deadline = (if dto_ReversalDeadline opts \<le> 0 then DefaultReversalDeadline else dto_ReversalDeadline opts),
     dt_slaWarnAhead = (if dto_SLAWarnBefore opts = 0 then DefaultSLAWarnBefore else dto_SLAWarnBefore opts),
     dt_minConfidence = dto_MinReversalConfidence opts,
     dt_marshal = encode, dt_marshal_integration = encode_integration, dt_render_time = render\<rparr>"

record SweepResult =
  swr_Claimed :: nat
  swr_Queued :: nat
  swr_Suspect :: nat
  swr_NoTarget :: nat
  swr_SilentTenants :: "string list"
  swr_SilenceAlerts :: nat
  swr_RecoveryAlerts :: nat
  swr_AtRisk :: nat
  swr_BelowConfidenceFloor :: nat
  swr_Settled :: nat
  swr_Corroborated :: nat
  swr_Uncertain :: nat

definition no_sweep :: SweepResult where
  "no_sweep = \<lparr>swr_Claimed = 0, swr_Queued = 0, swr_Suspect = 0, swr_NoTarget = 0, swr_SilentTenants = [],
    swr_SilenceAlerts = 0, swr_RecoveryAlerts = 0, swr_AtRisk = 0, swr_BelowConfidenceFloor = 0,
    swr_Settled = 0, swr_Corroborated = 0, swr_Uncertain = 0\<rparr>"

definition subscribes :: "WebhookEndpoint \<Rightarrow> EventType \<Rightarrow> bool" where
  "subscribes ep event \<longleftrightarrow> (if length (ep_Events ep) = 0 then True else list_ex (\<lambda>e. e = event) (ep_Events ep))"

section \<open>Evidence\<close>

definition baseEvidence :: "'s store \<Rightarrow> transaction \<Rightarrow> ('s, evidence) action" where
  "baseEvidence S txn =
    (let window = go_div (Window txn) second;
         detail = ''no credit within '' @ show_int window @ ''s'';
         detail = (if tx_CreditedMinor txn > 0
                   then ''only '' @ show_int (tx_CreditedMinor txn) @ '' of '' @ show_int (ExpectedCredit txn) @
                     '' credited within '' @ show_int window @ ''s''
                   else detail);
         ev = Evidence_Add SignalWindowExpired detail WeightWindowExpired NewEvidence
     in attempt (hs_HasIngestGap (st_health S) (tx_TenantID txn) (tx_DebitAt txn) (tx_ExpectedCompletionAt txn))
          (\<lambda>r. ret (case r of
             Inl err \<Rightarrow> Evidence_Add SignalIngestGap ''could not verify ingest health'' WeightIngestGap ev
           | Inr gap \<Rightarrow>
               if gap then Evidence_Add SignalIngestGap ''events were dropped over this window'' WeightIngestGap ev
               else Evidence_Add SignalIngestIntact ''no events lost over this window'' WeightIngestIntact ev)))"

definition belowConfidenceFloor :: "Detector \<Rightarrow> evidence \<Rightarrow> bool" where
  "belowConfidenceFloor D ev \<longleftrightarrow> dt_minConfidence D > 0 \<and> Confidence ev < dt_minConfidence D"

section \<open>Asking the rail\<close>

definition tolerateRace :: "transaction \<Rightarrow> string \<Rightarrow> goerror \<Rightarrow> ('s, unit) action" where
  "tolerateRace txn action err =
    (if is_invalid_transition err \<or> errors_is err ErrNotFound then ret ()
     else fail (ErrWrapped (action @ '' '' @ tx_TransactionID txn) err))"

definition ref_of :: "transaction \<Rightarrow> Ref" where
  "ref_of txn = \<lparr>ref_TenantID = tx_TenantID txn, ref_TransactionID = tx_TransactionID txn,
    ref_Provider = tx_Provider txn, ref_ProviderRef = '''', ref_AmountMinor = tx_AmountMinor txn,
    ref_Currency = tx_Currency txn\<rparr>"

text \<open>The result: whether the rail says the money arrived, and the transaction, the counts and
  the evidence as they are afterwards.\<close>

definition corroborate :: "Detector \<Rightarrow> 's store \<Rightarrow> transaction \<Rightarrow> SweepResult \<Rightarrow> evidence \<Rightarrow>
    ('s, bool \<times> transaction \<times> SweepResult \<times> evidence) action" where
  "corroborate D S txn res ev =
    (case dt_providers D of
       None \<Rightarrow> ret (False, txn, res, ev)
     | Some registry \<Rightarrow>
         if tx_Status txn \<noteq> StatusOrphaned then ret (False, txn, res, ev)
         else let st = Registry_Query registry (ref_of txn) (dt_now D)
         in case pst_Outcome st of
              Settled \<Rightarrow>
                attempt (ts_MarkSettled (st_tx S) (tx_TenantID txn) (tx_TransactionID txn) (dt_now D))
                  (\<lambda>r. case r of
                     Inl err \<Rightarrow> seq (tolerateRace txn ''settle'' err) (\<lambda>_. ret (False, txn, res, ev))
                   | Inr _ \<Rightarrow> ret (True, txn, res\<lparr>swr_Settled := swr_Settled res + 1\<rparr>, ev))
            | Unknown \<Rightarrow>
                let ev = Evidence_Add SignalProviderUnreachable (pst_Detail st) WeightProviderUnreached ev
                in attempt (ts_MarkUncertain (st_tx S) (tx_TenantID txn) (tx_TransactionID txn) (dt_now D))
                     (\<lambda>r. case r of
                        Inl err \<Rightarrow> seq (tolerateRace txn ''mark uncertain'' err) (\<lambda>_. ret (False, txn, res, ev))
                      | Inr _ \<Rightarrow> ret (False, txn\<lparr>tx_Status := StatusSuspect\<rparr>,
                                      res\<lparr>swr_Uncertain := swr_Uncertain res + 1\<rparr>, ev))
            | Failed \<Rightarrow>
                ret (False, txn, res\<lparr>swr_Corroborated := swr_Corroborated res + 1\<rparr>,
                  Evidence_Add SignalProviderFailed (pst_Provider st @ '' reports the credit leg failed'')
                    WeightProviderFailed ev)
            | _ \<Rightarrow>
                ret (False, txn, res\<lparr>swr_Corroborated := swr_Corroborated res + 1\<rparr>,
                  Evidence_Add SignalProviderNotFound (pst_Provider st @ '' has no record of this transaction'')
                    WeightProviderNotFound ev))"

section \<open>Recording and queueing\<close>

definition signal_json :: "Signal \<Rightarrow> json" where
  "signal_json s = JObject [(''signal'', JString (sig_Name s)), (''value'', JString (sig_Value s)),
    (''weight'', JFraction (quotient_of (sig_Weight s)))]"

definition system_actor :: bag where
  "system_actor = [(''type'', JString ''system''), (''id'', JString ''detection-sweep'')]"

definition audit_entry :: "string \<Rightarrow> gotime \<Rightarrow> bag \<Rightarrow> bag \<Rightarrow> Record" where
  "audit_entry event at_time subject payload =
    \<lparr>ar_ID = 0, ar_Seq = 0, ar_TenantID = '''', ar_EventType = event, ar_OccurredAt = at_time, ar_RecordedAt = 0,
     ar_Actor = Some system_actor, ar_Subject = Some subject, ar_Payload = Some payload,
     ar_PrevHash = '''', ar_Hash = ''''\<rparr>"

definition recordVerdict :: "Detector \<Rightarrow> 's store \<Rightarrow> transaction \<Rightarrow> EventType \<Rightarrow> evidence \<Rightarrow> ('s, unit) action" where
  "recordVerdict D S txn event ev =
    attempt (au_AppendAudit (st_audit S) (tx_TenantID txn)
        (audit_entry EventDetected (dt_now D)
          [(''type'', JString ''transaction''), (''id'', JString (tx_TransactionID txn))]
          [(''verdict'', JString (status_string (tx_Status txn))), (''event'', JString event),
           (''confidence'', JFraction (quotient_of (Confidence ev))),
           (''evidence'', JArray (map signal_json (Signals ev))),
           (''amount_minor'', JNumber (tx_AmountMinor txn)), (''currency'', JString (tx_Currency txn)),
           (''window_seconds'', JNumber (go_div (Window txn) second))]))
      (\<lambda>_. ret ())"

fun queue_loop :: "'s store \<Rightarrow> string \<Rightarrow> string \<Rightarrow> EventType \<Rightarrow> string \<Rightarrow> WebhookEndpoint list \<Rightarrow> nat \<Rightarrow> ('s, nat) action" where
  "queue_loop S tenant i event payload [] queued = ret queued"
| "queue_loop S tenant i event payload (ep # eps) queued =
    (if \<not> ep_Enabled ep \<or> \<not> subscribes ep event then queue_loop S tenant i event payload eps queued
     else seq (ws_EnqueueDelivery (st_webhook S) tenant
                \<lparr>pd_TenantID = tenant, pd_EndpointID = ep_ID ep, pd_TransactionID = i, pd_EventType = event,
                 pd_Payload = payload\<rparr>)
            (\<lambda>_. queue_loop S tenant i event payload eps (queued + 1)))"

definition queue :: "Detector \<Rightarrow> 's store \<Rightarrow> transaction \<Rightarrow> EventType \<Rightarrow> WebhookEndpoint list \<Rightarrow> evidence \<Rightarrow>
    ('s, nat) action" where
  "queue D S txn event eps ev =
    (case dt_marshal D (EnvelopeFor event txn (dt_now D) ev) of
       Inl err \<Rightarrow> fail err
     | Inr payload \<Rightarrow>
         seq (queue_loop S (tx_TenantID txn) (tx_TransactionID txn) event payload eps 0)
           (\<lambda>queued.
             if queued > 0 \<and> event = EventReversalTriggered
             then attempt (ts_MarkReversalPending (st_tx S) (tx_TenantID txn) (tx_TransactionID txn) (dt_now D))
                    (\<lambda>r. case r of
                       Inr _ \<Rightarrow> ret queued
                     | Inl err \<Rightarrow> if is_invalid_transition err then ret queued else fail err)
             else ret queued))"

section \<open>The loop over claimed transactions\<close>

text \<open>What a transaction leads to: the event, the transaction and the counts.\<close>

definition choose_event :: "Detector \<Rightarrow> 's store \<Rightarrow> transaction \<Rightarrow> SweepResult \<Rightarrow> evidence \<Rightarrow>
    ('s, EventType \<times> transaction \<times> SweepResult) action" where
  "choose_event D S txn res ev =
    (if tx_Status txn = StatusSuspect
     then ret (EventTransactionSuspect, txn, res\<lparr>swr_Suspect := swr_Suspect res + 1\<rparr>)
     else if belowConfidenceFloor D ev
     then seq (attempt (ts_MarkUncertain (st_tx S) (tx_TenantID txn) (tx_TransactionID txn) (dt_now D))
                 (\<lambda>r. case r of Inr _ \<Rightarrow> ret () | Inl err \<Rightarrow> tolerateRace txn ''mark uncertain'' err))
            (\<lambda>_. ret (EventTransactionSuspect, txn\<lparr>tx_Status := StatusSuspect\<rparr>,
                      res\<lparr>swr_BelowConfidenceFloor := swr_BelowConfidenceFloor res + 1,
                          swr_Suspect := swr_Suspect res + 1\<rparr>))
     else ret (EventReversalTriggered, txn, res))"

type_synonym endpoint_cache = "(string \<times> WebhookEndpoint list) list"

definition endpoints_for :: "'s store \<Rightarrow> string \<Rightarrow> endpoint_cache \<Rightarrow> ('s, WebhookEndpoint list \<times> endpoint_cache) action" where
  "endpoints_for S tenant endpoints =
    (case map_of endpoints tenant of
       Some eps \<Rightarrow> ret (eps, endpoints)
     | None \<Rightarrow> seq (ws_ListEndpoints (st_webhook S) tenant)
                 (\<lambda>eps. ret (eps, AList.update tenant eps endpoints)))"

definition notify :: "Detector \<Rightarrow> 's store \<Rightarrow> transaction \<Rightarrow> EventType \<Rightarrow> evidence \<Rightarrow> endpoint_cache \<Rightarrow> SweepResult \<Rightarrow>
    ('s, endpoint_cache \<times> SweepResult) action" where
  "notify D S txn event ev endpoints res =
    (if tx_IsBackfill txn then ret (endpoints, res)
     else seq (endpoints_for S (tx_TenantID txn) endpoints)
       (\<lambda>(eps, endpoints). seq (recordVerdict D S txn event ev)
         (\<lambda>_. seq (queue D S txn event eps ev)
           (\<lambda>queued. ret (endpoints,
              if queued = 0 then res\<lparr>swr_NoTarget := swr_NoTarget res + 1\<rparr>
              else res\<lparr>swr_Queued := swr_Queued res + queued\<rparr>)))))"

definition handle_one :: "Detector \<Rightarrow> 's store \<Rightarrow> transaction \<Rightarrow> endpoint_cache \<Rightarrow> SweepResult \<Rightarrow>
    ('s, endpoint_cache \<times> SweepResult) action" where
  "handle_one D S txn endpoints res =
    seq (baseEvidence S txn)
      (\<lambda>ev. seq (corroborate D S txn res ev)
        (\<lambda>(settled, txn, res, ev).
          if settled then ret (endpoints, res)
          else seq (choose_event D S txn res ev)
            (\<lambda>(event, txn, res). notify D S txn event ev endpoints res)))"

fun sweep_loop :: "Detector \<Rightarrow> 's store \<Rightarrow> transaction list \<Rightarrow> endpoint_cache \<Rightarrow> SweepResult \<Rightarrow> ('s, SweepResult) action" where
  "sweep_loop D S [] endpoints res = ret res"
| "sweep_loop D S (txn # claimed) endpoints res =
    seq (handle_one D S txn endpoints res) (\<lambda>(endpoints, res). sweep_loop D S claimed endpoints res)"

section \<open>Deadlines and silence\<close>

fun warn_loop :: "Detector \<Rightarrow> 's store \<Rightarrow> transaction list \<Rightarrow> endpoint_cache \<Rightarrow> SweepResult \<Rightarrow> ('s, SweepResult) action" where
  "warn_loop D S [] endpoints res = ret res"
| "warn_loop D S (txn # atRisk) endpoints res =
    seq (endpoints_for S (tx_TenantID txn) endpoints)
      (\<lambda>(eps, endpoints).
        case dt_marshal D (AtRiskEnvelope txn (tx_DebitAt txn + dt_deadline D) (dt_now D)) of
          Inl err \<Rightarrow> fail err
        | Inr payload \<Rightarrow>
            seq (queue_loop S (tx_TenantID txn) (tx_TransactionID txn) EventSLAAtRisk payload eps 0)
              (\<lambda>_. warn_loop D S atRisk endpoints (res\<lparr>swr_AtRisk := swr_AtRisk res + 1\<rparr>)))"

definition warnAtRisk :: "Detector \<Rightarrow> 's store \<Rightarrow> SweepResult \<Rightarrow> ('s, SweepResult) action" where
  "warnAtRisk D S res =
    (if dt_slaWarnAhead D \<le> 0 then ret res
     else seq (wrapping ''claim transactions at risk''
                (ts_ClaimSLAAtRisk (st_tx S) (dt_now D) (dt_deadline D) (dt_slaWarnAhead D) (dt_batch D)))
            (\<lambda>atRisk. warn_loop D S atRisk [] res))"

fun alert_loop :: "'s store \<Rightarrow> string \<Rightarrow> EventType \<Rightarrow> string \<Rightarrow> WebhookEndpoint list \<Rightarrow> bool \<Rightarrow> ('s, bool) action" where
  "alert_loop S tenant event payload [] queued = ret queued"
| "alert_loop S tenant event payload (ep # eps) queued =
    (if \<not> ep_Enabled ep \<or> \<not> subscribes ep event then alert_loop S tenant event payload eps queued
     else attempt (ws_EnqueueDelivery (st_webhook S) tenant
                    \<lparr>pd_TenantID = tenant, pd_EndpointID = ep_ID ep, pd_TransactionID = '''', pd_EventType = event,
                     pd_Payload = payload\<rparr>)
            (\<lambda>r. case r of
               Inl err \<Rightarrow> alert_loop S tenant event payload eps queued
             | Inr _ \<Rightarrow> alert_loop S tenant event payload eps True))"

definition queueIntegrationAlert :: "Detector \<Rightarrow> 's store \<Rightarrow> string \<Rightarrow> IntegrationEnvelope \<Rightarrow> ('s, bool) action" where
  "queueIntegrationAlert D S tenant env =
    (case dt_marshal_integration D env of
       Inl err \<Rightarrow> ret False
     | Inr payload \<Rightarrow>
         attempt (ws_ListEndpoints (st_webhook S) tenant)
           (\<lambda>r. case r of
              Inl err \<Rightarrow> ret False
            | Inr eps \<Rightarrow> alert_loop S tenant (ien_Event env) payload eps False))"

definition recordSilence :: "Detector \<Rightarrow> 's store \<Rightarrow> string \<Rightarrow> SilenceEpisode \<Rightarrow> ('s, unit) action" where
  "recordSilence D S event ep =
    attempt (au_AppendAudit (st_audit S) (se_TenantID ep)
        (audit_entry event (dt_now D)
          [(''type'', JString ''tenant''), (''id'', JString (se_TenantID ep))]
          [(''silent_since'', JString (dt_render_time D (se_SilentSince ep))),
           (''silent_for_seconds'', JNumber (go_div (time_sub (dt_now D) (se_SilentSince ep)) second)),
           (''quiet_threshold_s'', JNumber (go_div (sp_Quiet (dt_silence D)) second))]))
      (\<lambda>_. ret ())"

fun opened_loop :: "Detector \<Rightarrow> 's store \<Rightarrow> SilenceEpisode list \<Rightarrow> SweepResult \<Rightarrow> ('s, SweepResult) action" where
  "opened_loop D S [] res = ret res"
| "opened_loop D S (ep # eps) res =
    seq (queueIntegrationAlert D S (se_TenantID ep) (SilenceEnvelope (se_TenantID ep) (se_SilentSince ep) (dt_now D)))
      (\<lambda>queued. seq (recordSilence D S EventSilenceDetected ep)
        (\<lambda>_. opened_loop D S eps
          (if queued then res\<lparr>swr_SilenceAlerts := swr_SilenceAlerts res + 1\<rparr> else res)))"

fun recovered_loop :: "Detector \<Rightarrow> 's store \<Rightarrow> SilenceEpisode list \<Rightarrow> SweepResult \<Rightarrow> ('s, SweepResult) action" where
  "recovered_loop D S [] res = ret res"
| "recovered_loop D S (ep # eps) res =
    seq (queueIntegrationAlert D S (se_TenantID ep) (RecoveryEnvelope (se_TenantID ep) (se_SilentSince ep) (dt_now D)))
      (\<lambda>queued. seq (recordSilence D S EventSilenceResolved ep)
        (\<lambda>_. recovered_loop D S eps
          (if queued then res\<lparr>swr_RecoveryAlerts := swr_RecoveryAlerts res + 1\<rparr> else res)))"

definition alertOnSilence :: "Detector \<Rightarrow> 's store \<Rightarrow> string list \<Rightarrow> SweepResult \<Rightarrow> ('s, SweepResult) action" where
  "alertOnSilence D S silent res =
    (if sp_Quiet (dt_silence D) \<le> 0 \<or> sp_Baseline (dt_silence D) \<le> 0 \<or> sp_MinActiveBuckets (dt_silence D) \<le> 0
     then ret res
     else seq (wrapping ''sync silence episodes'' (hs_SyncSilenceEpisodes (st_health S) silent (dt_now D)))
            (\<lambda>change. seq (opened_loop D S (sch_Opened change) res)
              (\<lambda>res. recovered_loop D S (sch_Recovered change) res)))"

section \<open>A sweep\<close>

definition Sweep :: "Detector \<Rightarrow> 's store \<Rightarrow> ('s, SweepResult) action" where
  "Sweep D S =
    seq (wrapping ''check for silent tenants'' (hs_SilentTenants (st_health S) (dt_now D) (dt_silence D)))
      (\<lambda>silent. seq (alertOnSilence D S silent (no_sweep\<lparr>swr_SilentTenants := silent\<rparr>))
        (\<lambda>res. seq (ts_ClaimExpired (st_tx S) (dt_now D) (dt_batch D) silent)
          (\<lambda>claimed. seq (sweep_loop D S claimed [] (res\<lparr>swr_Claimed := length claimed\<rparr>))
            (\<lambda>res. warnAtRisk D S res))))"

end
