(* ===== verification/Detector_Safety.thy ===== *)
theory Detector_Safety
  imports Detector
begin

text \<open>
  What a detection sweep on the in-memory store may advise: the parts of a sweep that cannot
  give a reversal advice keep a relation on the store that says so, the handling of one
  transaction is followed through its branches, and the two theorems say when a reversal is
  advised and what happens when a credit lands while the rail is being asked.
\<close>

section \<open>What the parts of a sweep leave alone\<close>

definition is_advice :: "DeliveryRecord \<Rightarrow> bool" where
  "is_advice d \<longleftrightarrow> dr_EventType d = EventReversalTriggered"

text \<open>Nothing changes but for the transactions in \<open>K\<close>, and advice is added only for those.\<close>

definition frame :: "(string \<times> string) set \<Rightarrow> memory \<Rightarrow> memory \<Rightarrow> bool" where
  "frame K m m' \<longleftrightarrow> m_health m' = m_health m \<and>
    (\<forall>a b. (a, b) \<notin> K \<longrightarrow> stored m' a b = stored m a b) \<and>
    (\<forall>i d. map_of (m_deliveries m') i = Some d \<and> is_advice d \<and> (dr_TenantID d, dr_TransactionID d) \<notin> K \<longrightarrow>
      map_of (m_deliveries m) i = Some d)"

text \<open>Rows and counters stay and no advice is added at all.\<close>

definition quiet :: "memory \<Rightarrow> memory \<Rightarrow> bool" where
  "quiet m m' \<longleftrightarrow> same_rows m m' \<and> m_health m' = m_health m \<and>
    (\<forall>i d. map_of (m_deliveries m') i = Some d \<and> is_advice d \<longrightarrow> map_of (m_deliveries m) i = Some d)"

lemma frame_refl: "reflp (frame K)" by (simp add: reflp_def frame_def)

lemma frame_trans: "transp (frame K)" by (auto simp: transp_def frame_def)

lemma quiet_refl: "reflp quiet" by (simp add: reflp_def quiet_def same_rows_def)

lemma quiet_trans: "transp quiet" by (auto simp: transp_def quiet_def same_rows_def)

lemma quiet_frame: "quiet m m' \<Longrightarrow> frame K m m'"
  by (auto simp: quiet_def frame_def same_rows_def)

lemma frame_mono: "frame K m m' \<Longrightarrow> K \<subseteq> L \<Longrightarrow> frame L m m'"
  unfolding frame_def by blast

lemma quiet_same: "m_byTenant m' = m_byTenant m \<Longrightarrow> m_idem m' = m_idem m \<Longrightarrow> m_nextID m' = m_nextID m \<Longrightarrow>
    m_health m' = m_health m \<Longrightarrow> m_deliveries m' = m_deliveries m \<Longrightarrow> quiet m m'"
  by (simp add: quiet_def same_rows_def)

lemma memory_full_sweep [simp]:
  "hs_HasIngestGap (st_health (memory_full dg now)) = HasIngestGap"
  "hs_SilentTenants (st_health (memory_full dg now)) = SilentTenants"
  "hs_SyncSilenceEpisodes (st_health (memory_full dg now)) = SyncSilenceEpisodes"
  "ts_ClaimExpired (st_tx (memory_full dg now)) = ClaimExpired"
  "ts_ClaimSLAAtRisk (st_tx (memory_full dg now)) = ClaimSLAAtRisk"
  "ts_MarkSettled (st_tx (memory_full dg now)) a b t = MarkSettled a b t now"
  "ts_MarkUncertain (st_tx (memory_full dg now)) a b t = MarkUncertain a b t now"
  "ts_MarkReversalPending (st_tx (memory_full dg now)) a b t = MarkReversalPending a b t now"
  "au_AppendAudit (st_audit (memory_full dg now)) a r = AppendAudit dg a r now now"
  "ws_ListEndpoints (st_webhook (memory_full dg now)) = ListEndpoints"
  "ws_EnqueueDelivery (st_webhook (memory_full dg now)) a pd = EnqueueDelivery a pd now"
  by (simp_all add: memory_full_def memory_store_def memory_health_def memory_audit_def memory_webhooks_def)

lemma EnqueueDelivery_quiet: "pd_EventType d \<noteq> EventReversalTriggered \<Longrightarrow> quiet m (snd (EnqueueDelivery a d now m))"
  by (auto simp: EnqueueDelivery_def Let_def quiet_def same_rows_def is_advice_def update_conv)

lemma EnqueueDelivery_frame: "(a, pd_TransactionID d) \<in> K \<Longrightarrow> frame K m (snd (EnqueueDelivery a d now m))"
  by (auto simp: EnqueueDelivery_def Let_def frame_def update_conv)

lemma AppendAudit_quiet: "quiet m (snd (AppendAudit dg a r now now' m))"
  by (cases rule: AppendAudit_cases [of dg a r now now' m]) (auto intro: quiet_same)

lemma open_episodes_quiet: "quiet m (snd (open_episodes xs now m ops))"
proof (induction xs arbitrary: m ops)
  case (Cons a xs)
  show ?case
  proof (cases "map_of (m_silence m) a")
    case None
    have "quiet m (m\<lparr>m_silence := AList.update a (silentSinceLocked m a now) (m_silence m)\<rparr>)"
      by (rule quiet_same) simp_all
    with Cons.IH show ?thesis using None quiet_trans by (simp add: Let_def) (metis transpD)
  qed (use Cons.IH in simp)
qed (simp add: quiet_refl [THEN reflpD])

lemma SyncSilence_quiet: "quiet m (snd (SyncSilenceEpisodes silent now m))"
proof -
  have "quiet (snd (open_episodes silent now m []))
      ((snd (open_episodes silent now m []))\<lparr>m_silence := x\<rparr>)" for x by (rule quiet_same) simp_all
  with open_episodes_quiet [of m silent now "[]"] quiet_trans show ?thesis
    by (simp add: SyncSilenceEpisodes_def Let_def split_beta) (metis transpD)
qed

lemma markReversal_frame: "(a, b) \<in> K \<Longrightarrow> frame K m (snd (markReversal a b target t now m))"
  by (auto simp: markReversal_def Let_def frame_def get2_put2 split: option.split)

lemma quiet_ops:
  "keeps quiet (HasIngestGap a f t)" "keeps quiet (SilentTenants now p)" "keeps quiet (ListEndpoints a)"
  "keeps quiet (SyncSilenceEpisodes silent now)" "keeps quiet (AppendAudit dg a r now now')"
  "pd_EventType d \<noteq> EventReversalTriggered \<Longrightarrow> keeps quiet (EnqueueDelivery a d now)"
  by (simp_all add: keeps_def SyncSilence_quiet AppendAudit_quiet EnqueueDelivery_quiet HasIngestGap_def
      SilentTenants_def ListEndpoints_def Let_def quiet_refl [THEN reflpD])

lemma keeps_quiet_frame: "keeps quiet f \<Longrightarrow> keeps (frame K) f"
  by (simp add: keeps_def quiet_frame)

lemma frame_ops:
  "(a, b) \<in> K \<Longrightarrow> keeps (frame K) (MarkSettled a b t now)"
  "(a, b) \<in> K \<Longrightarrow> keeps (frame K) (MarkUncertain a b t now)"
  "(a, b) \<in> K \<Longrightarrow> keeps (frame K) (MarkReversalPending a b t now)"
  "(a, pd_TransactionID d) \<in> K \<Longrightarrow> keeps (frame K) (EnqueueDelivery a d now)"
  by (simp_all add: keeps_def MarkSettled_def MarkUncertain_def MarkReversalPending_def markReversal_frame
      EnqueueDelivery_frame)

lemmas quiet_rules = keeps_ret [OF quiet_refl] keeps_fail [OF quiet_refl] keeps_attempt [OF quiet_trans]
  keeps_seq [OF quiet_trans] keeps_wrapping quiet_ops

lemmas frame_rules = keeps_ret [OF frame_refl] keeps_fail [OF frame_refl] keeps_attempt [OF frame_trans]
  keeps_seq [OF frame_trans] keeps_wrapping frame_ops

section \<open>The parts that give no advice\<close>

lemma baseEvidence_quiet: "keeps quiet (baseEvidence (memory_full dg now) txn)"
  unfolding baseEvidence_def Let_def by (simp add: quiet_rules)

lemma endpoints_for_quiet: "keeps quiet (endpoints_for (memory_full dg now) a eps)"
  unfolding endpoints_for_def by (auto intro!: quiet_rules split: option.split)

lemma recordVerdict_quiet: "keeps quiet (recordVerdict D (memory_full dg now) txn event ev)"
  unfolding recordVerdict_def by (simp add: quiet_rules)

lemma queue_loop_quiet:
  "event \<noteq> EventReversalTriggered \<Longrightarrow> keeps quiet (queue_loop (memory_full dg now) a i event p eps n)"
  by (induction eps arbitrary: n) (auto intro!: quiet_rules)

lemma queue_quiet: "event \<noteq> EventReversalTriggered \<Longrightarrow> keeps quiet (queue D (memory_full dg now) txn event eps ev)"
  unfolding queue_def by (auto intro!: quiet_rules queue_loop_quiet split: sum.split)

lemma notify_quiet:
  "event \<noteq> EventReversalTriggered \<Longrightarrow> keeps quiet (notify D (memory_full dg now) txn event ev endpoints res)"
  unfolding notify_def by (auto intro!: quiet_rules endpoints_for_quiet recordVerdict_quiet queue_quiet)

lemma alert_loop_quiet:
  "event \<noteq> EventReversalTriggered \<Longrightarrow> keeps quiet (alert_loop (memory_full dg now) a event p eps b)"
  by (induction eps arbitrary: b) (auto intro!: quiet_rules split: sum.split)

lemma queueIntegrationAlert_quiet:
  "ien_Event env \<noteq> EventReversalTriggered \<Longrightarrow> keeps quiet (queueIntegrationAlert D (memory_full dg now) a env)"
  unfolding queueIntegrationAlert_def by (auto intro!: quiet_rules alert_loop_quiet split: sum.split)

lemma integration_events:
  "ien_Event (SilenceEnvelope a s t) \<noteq> EventReversalTriggered" "ien_Event (RecoveryEnvelope a s t) \<noteq> EventReversalTriggered"
  by (simp_all add: SilenceEnvelope_def RecoveryEnvelope_def event_names)

lemma recordSilence_quiet: "keeps quiet (recordSilence D (memory_full dg now) event ep)"
  unfolding recordSilence_def by (simp add: quiet_rules)

lemma alertOnSilence_quiet: "keeps quiet (alertOnSilence D (memory_full dg now) silent res)"
proof -
  have o: "keeps quiet (opened_loop D (memory_full dg now) eps res)" for eps res
    by (induction eps arbitrary: res) (auto intro!: quiet_rules queueIntegrationAlert_quiet integration_events recordSilence_quiet)
  have r: "keeps quiet (recovered_loop D (memory_full dg now) eps res)" for eps res
    by (induction eps arbitrary: res) (auto intro!: quiet_rules queueIntegrationAlert_quiet integration_events recordSilence_quiet)
  show ?thesis unfolding alertOnSilence_def by (auto intro!: quiet_rules o r)
qed

lemma warn_loop_quiet: "keeps quiet (warn_loop D (memory_full dg now) txns endpoints res)"
proof (induction txns arbitrary: endpoints res)
  case (Cons t txns)
  have "EventSLAAtRisk \<noteq> EventReversalTriggered" by (simp add: event_names)
  with Cons show ?case
    by (auto intro!: quiet_rules endpoints_for_quiet queue_loop_quiet split: sum.split)
qed (simp add: quiet_rules)

section \<open>The frame of one transaction\<close>

lemma tolerateRace_frame: "keeps (frame K) (tolerateRace txn what err)"
  by (simp add: tolerateRace_def frame_rules)

lemma corroborate_frame:
  "(tx_TenantID txn, tx_TransactionID txn) \<in> K \<Longrightarrow> keeps (frame K) (corroborate D (memory_full dg now) txn res ev)"
  unfolding corroborate_def
  by (auto simp: Let_def intro!: frame_rules tolerateRace_frame split: option.split ProviderOutcome.split sum.split)

lemma choose_event_frame:
  "(tx_TenantID txn, tx_TransactionID txn) \<in> K \<Longrightarrow> keeps (frame K) (choose_event D (memory_full dg now) txn res ev)"
  unfolding choose_event_def by (auto intro!: frame_rules tolerateRace_frame split: sum.split)

lemma queue_loop_frame: "(a, i) \<in> K \<Longrightarrow> keeps (frame K) (queue_loop (memory_full dg now) a i event p eps n)"
  by (induction eps arbitrary: n) (auto intro!: frame_rules)

lemma notify_frame:
  "(tx_TenantID txn, tx_TransactionID txn) \<in> K \<Longrightarrow> keeps (frame K) (notify D (memory_full dg now) txn event ev endpoints res)"
  unfolding notify_def queue_def
  by (auto intro!: frame_rules keeps_quiet_frame [OF endpoints_for_quiet] keeps_quiet_frame [OF recordVerdict_quiet]
      queue_loop_frame split: sum.split)

text \<open>A transaction that a step hands on is the one it was given, but for its status.\<close>

definition same_txn :: "transaction \<Rightarrow> transaction \<Rightarrow> bool" where
  "same_txn t t' \<longleftrightarrow> t' = t \<or> t' = t\<lparr>tx_Status := StatusSuspect\<rparr>"

lemma corroborate_same: "yields (corroborate D S t res ev) (\<lambda>(settled, t', res, ev). same_txn t t')"
  unfolding corroborate_def
  by (auto simp: Let_def same_txn_def intro!: yields_rules split: option.split ProviderOutcome.split sum.split)

lemma choose_event_same: "yields (choose_event D S t res ev) (\<lambda>(event, t', res). same_txn t t')"
  unfolding choose_event_def by (auto simp: same_txn_def intro!: yields_rules)

lemma handle_one_frame:
  assumes "(tx_TenantID t, tx_TransactionID t) \<in> K"
  shows "keeps (frame K) (handle_one D (memory_full dg now) t endpoints res)"
proof -
  have key: "(tx_TenantID t', tx_TransactionID t') \<in> K" if "same_txn t t'" for t'
    using that assms by (auto simp: same_txn_def)
  have decide: "keeps (frame K) (seq (choose_event D (memory_full dg now) t1 res1 ev1)
      (\<lambda>(event, t2, res2). notify D (memory_full dg now) t2 event ev1 endpoints res2))"
    if "same_txn t t1" for t1 res1 ev1
    by (rule keeps_seq_yields [OF frame_trans choose_event_frame [OF key [OF that]] choose_event_same])
      (use that in \<open>auto simp: same_txn_def intro!: notify_frame key\<close>)
  show ?thesis
    unfolding handle_one_def
    by (intro keeps_seq [OF frame_trans] keeps_quiet_frame [OF baseEvidence_quiet]
        keeps_seq_yields [OF frame_trans corroborate_frame [OF assms] corroborate_same])
      (auto intro!: frame_rules decide)
qed

end
