(* ===== verification/Detector_Advice.thy ===== *)
theory Detector_Advice
  imports Detector_Safety
begin

text \<open>
  When a sweep on the in-memory store advises a reversal, and what that advice rests on. One
  claimed transaction is followed through its branches (\<open>handle_one_advice\<close>), the loop is an
  induction over that, and the sweep adds what the claim guarantees. The second property is a
  flaw of the order of steps: the rail may confirm a payment and the advice still goes out.
\<close>

section \<open>Advice that is new\<close>

definition advised :: "memory \<Rightarrow> memory \<Rightarrow> int \<Rightarrow> DeliveryRecord \<Rightarrow> bool" where
  "advised m m' i d \<longleftrightarrow> map_of (m_deliveries m') i = Some d \<and> is_advice d \<and> map_of (m_deliveries m) i \<noteq> Some d"

definition silent_step :: "memory \<Rightarrow> memory \<Rightarrow> bool" where
  "silent_step m m' \<longleftrightarrow> (\<forall>i d. \<not> advised m m' i d)"

lemma silent_refl: "silent_step m m" by (simp add: silent_step_def advised_def)

lemma silent_trans: "silent_step m m1 \<Longrightarrow> silent_step m1 m2 \<Longrightarrow> silent_step m m2"
  by (auto simp: silent_step_def advised_def)

lemma quiet_silent: "quiet m m' \<Longrightarrow> silent_step m m'"
  by (auto simp: quiet_def silent_step_def advised_def)

lemma silent_deliveries: "m_deliveries m' = m_deliveries m \<Longrightarrow> silent_step m m'"
  by (simp add: silent_step_def advised_def)

lemma markReversal_silent: "silent_step m (snd (markReversal a b target t now m))"
  by (rule silent_deliveries) (auto simp: markReversal_def Let_def split: option.split)

lemma mark_silent:
  "silent_step m (snd (MarkSettled a b t now m))" "silent_step m (snd (MarkUncertain a b t now m))"
  "silent_step m (snd (MarkReversalPending a b t now m))"
  by (simp_all add: MarkSettled_def MarkUncertain_def MarkReversalPending_def markReversal_silent)

section \<open>What advice rests on\<close>

definition with_status :: "memory \<Rightarrow> string \<Rightarrow> string \<Rightarrow> status \<Rightarrow> bool" where
  "with_status m a b st \<longleftrightarrow> (\<exists>t. stored m a b = Some t \<and> tx_Status t = st)"

text \<open>What the rail answered, and how sure that makes the verdict.\<close>

definition rail_denies :: "Detector \<Rightarrow> transaction \<Rightarrow> bool" where
  "rail_denies D t = (case dt_providers D of None \<Rightarrow> True
    | Some reg \<Rightarrow> pst_Outcome (Registry_Query reg (ref_of t) (dt_now D)) \<in> {Failed, NotFound})"

definition assurance :: "Detector \<Rightarrow> transaction \<Rightarrow> rat" where
  "assurance D t = (case dt_providers D of None \<Rightarrow> 70 / 100
    | Some reg \<Rightarrow> if pst_Outcome (Registry_Query reg (ref_of t) (dt_now D)) = Failed then 1 else 95 / 100)"

definition justified :: "Detector \<Rightarrow> transaction \<Rightarrow> bool" where
  "justified D t \<longleftrightarrow> tx_Status t = StatusOrphaned \<and> \<not> tx_IsBackfill t \<and> rail_denies D t \<and>
    dt_minConfidence D \<le> assurance D t"

definition no_gap :: "memory \<Rightarrow> transaction \<Rightarrow> bool" where
  "no_gap m t \<longleftrightarrow> \<not> hasGapLocked m (tx_TenantID t) (tx_DebitAt t) (tx_ExpectedCompletionAt t)"

definition weighing :: "rat list \<Rightarrow> evidence \<Rightarrow> bool" where
  "weighing ws ev \<longleftrightarrow> (\<exists>sigs. ev = Some sigs \<and> map sig_Weight sigs = ws)"

lemma weighing_Add: "weighing ws ev \<Longrightarrow> weighing (ws @ [w]) (Evidence_Add n v w ev)"
  by (auto simp: weighing_def Evidence_Add_def)

lemma Confidence_of_weights:
  "weighing ws ev \<Longrightarrow> Confidence ev =
    (let total = sum_list ws in if total < 0 then 0 else if total > 1 then 1 else round2 total)"
  by (auto simp: weighing_def Confidence_Some)

lemma Confidence_weighing:
  "weighing [WeightWindowExpired, WeightIngestIntact] ev \<Longrightarrow> Confidence ev = 70 / 100"
  "weighing [WeightWindowExpired, WeightIngestIntact, WeightProviderFailed] ev \<Longrightarrow> Confidence ev = 1"
  "weighing [WeightWindowExpired, WeightIngestIntact, WeightProviderNotFound] ev \<Longrightarrow> Confidence ev = 95 / 100"
  by (simp_all add: Confidence_of_weights weights round2_def go_trunc_def Let_def floor_eq_iff)

lemma baseEvidence_weighing:
  assumes "no_gap m t"
  shows "\<exists>ev. baseEvidence (memory_full dg now) t m = (Inr ev, m) \<and> weighing [WeightWindowExpired, WeightIngestIntact] ev"
  using assms by (simp add: baseEvidence_def action_defs HasIngestGap_def no_gap_def Let_def NewEvidence_def
      Evidence_Add_def weighing_def)

section \<open>One claimed transaction\<close>

lemma queue_loop_run:
  "\<exists>k m'. queue_loop (memory_full dg now) a i event p eps n m = (Inr (n + k), m') \<and> same_rows m m' \<and> (k = 0 \<longrightarrow> m' = m)"
proof (induction eps arbitrary: n m)
  case Nil
  then show ?case by (intro exI [of _ 0]) (simp add: ret_def same_rows_def)
next
  case (Cons ep eps)
  show ?case
  proof (cases "\<not> ep_Enabled ep \<or> \<not> subscribes ep event")
    case True
    with Cons.IH show ?thesis by simp
  next
    case False
    let ?pd = "\<lparr>pd_TenantID = a, pd_EndpointID = ep_ID ep, pd_TransactionID = i, pd_EventType = event, pd_Payload = p\<rparr>"
    obtain j m1 where e: "EnqueueDelivery a ?pd now m = (Inr j, m1)" "same_rows m m1"
      by (simp add: EnqueueDelivery_def Let_def same_rows_def)
    obtain k m' where "queue_loop (memory_full dg now) a i event p eps (n + 1) m1 = (Inr (n + 1 + k), m')" "same_rows m1 m'"
      using Cons.IH [of "n + 1" m1] by blast
    with False e show ?thesis by (intro exI [of _ "Suc k"] exI [of _ m']) (auto simp: seq_def same_rows_def)
  qed
qed

lemma with_status_rows: "same_rows m m' \<Longrightarrow> with_status m' a b st = with_status m a b st"
  by (simp add: with_status_def same_rows_def)

lemma MarkReversalPending_orphan:
  "with_status m a b StatusOrphaned \<Longrightarrow> with_status (snd (MarkReversalPending a b t now m)) a b StatusReversalPending"
  by (auto simp: with_status_def MarkReversalPending_def markReversal_ok CanTransition_iff get2_put2)

lemma queue_advice:
  assumes "with_status m (tx_TenantID t) (tx_TransactionID t) StatusOrphaned"
  shows "silent_step m (snd (queue D (memory_full dg now) t EventReversalTriggered eps ev m)) \<or>
    with_status (snd (queue D (memory_full dg now) t EventReversalTriggered eps ev m)) (tx_TenantID t) (tx_TransactionID t)
      StatusReversalPending"
proof (cases "dt_marshal D (EnvelopeFor EventReversalTriggered t (dt_now D) ev)")
  case (Inr p)
  obtain k m1 where q: "queue_loop (memory_full dg now) (tx_TenantID t) (tx_TransactionID t) EventReversalTriggered p eps 0 m
      = (Inr k, m1)" "same_rows m m1" "k = 0 \<longrightarrow> m1 = m"
    using queue_loop_run [of dg now "tx_TenantID t" "tx_TransactionID t" EventReversalTriggered p eps 0 m] by auto
  obtain r m2 where mk: "MarkReversalPending (tx_TenantID t) (tx_TransactionID t) (dt_now D) now m1 = (r, m2)" by fastforce
  have "with_status m2 (tx_TenantID t) (tx_TransactionID t) StatusReversalPending"
    using MarkReversalPending_orphan [of m1 "tx_TenantID t" "tx_TransactionID t" "dt_now D" now] assms q(2) mk
    by (simp add: with_status_rows)
  with Inr q mk show ?thesis
    by (cases "k = 0") (auto simp: queue_def action_defs silent_refl split: sum.split)
qed (simp add: queue_def fail_def silent_refl)

definition confident :: "Detector \<Rightarrow> transaction \<Rightarrow> evidence \<Rightarrow> bool" where
  "confident D t ev \<longleftrightarrow> rail_denies D t \<and> Confidence ev = assurance D t"

lemma corroborate_cases:
  assumes st: "tx_Status t \<in> {StatusOrphaned, StatusSuspect}"
    and w: "tx_Status t = StatusOrphaned \<longrightarrow> weighing [WeightWindowExpired, WeightIngestIntact] ev"
    and row: "with_status m (tx_TenantID t) (tx_TransactionID t) (tx_Status t)"
  obtains (settled) m1 t1 res1 ev1 where
      "corroborate D (memory_full dg now) t res ev m = (Inr (True, t1, res1, ev1), m1)" "silent_step m m1"
  | (doubt) m1 t1 res1 ev1 where
      "corroborate D (memory_full dg now) t res ev m = (Inr (False, t1, res1, ev1), m1)" "silent_step m m1"
      "tx_Status t1 = StatusSuspect"
  | (agreed) res1 ev1 where
      "corroborate D (memory_full dg now) t res ev m = (Inr (False, t, res1, ev1), m)" "tx_Status t = StatusOrphaned"
      "confident D t ev1"
proof (cases "tx_Status t = StatusOrphaned")
  case False
  then have "corroborate D (memory_full dg now) t res ev m = (Inr (False, t, res, ev), m)"
    by (simp add: corroborate_def ret_def split: option.split)
  with False st doubt silent_refl show ?thesis by blast
next
  case orphan: True
  let ?a = "tx_TenantID t" and ?b = "tx_TransactionID t"
  show ?thesis
  proof (cases "dt_providers D")
    case None
    with w orphan have "confident D t ev" by (simp add: confident_def rail_denies_def assurance_def Confidence_weighing)
    with None orphan agreed show ?thesis by (simp add: corroborate_def ret_def)
  next
    case (Some reg)
    let ?st = "Registry_Query reg (ref_of t) (dt_now D)"
    from row orphan obtain s where s: "stored m ?a ?b = Some s" "tx_Status s = StatusOrphaned"
      by (auto simp: with_status_def)
    have settle: "fst (MarkSettled ?a ?b (dt_now D) now m) = Inr (marked StatusCompleted (dt_now D) now s)"
      and doubts: "fst (MarkUncertain ?a ?b (dt_now D) now m) = Inr (marked StatusSuspect (dt_now D) now s)"
      using s by (simp_all add: MarkSettled_def MarkUncertain_def markReversal_ok CanTransition_iff)
    have known: "pst_Outcome ?st \<in> {Settled, Failed, NotFound, Unknown}"
      by (auto simp: Registry_Query_def unknown_status_def Let_def split: option.split prod.split)
    show ?thesis
    proof (cases "pst_Outcome ?st")
      case Settled
      obtain m1 where "MarkSettled ?a ?b (dt_now D) now m = (Inr (marked StatusCompleted (dt_now D) now s), m1)"
        using settle by (metis prod.collapse)
      with Some orphan Settled settled mark_silent(1) [of m ?a ?b "dt_now D" now] show ?thesis
        by (simp add: corroborate_def action_defs Let_def)
    next
      case Unknown
      obtain m1 where "MarkUncertain ?a ?b (dt_now D) now m = (Inr (marked StatusSuspect (dt_now D) now s), m1)"
        using doubts by (metis prod.collapse)
      with Some orphan Unknown doubt mark_silent(2) [of m ?a ?b "dt_now D" now] show ?thesis
        by (simp add: corroborate_def action_defs Let_def)
    next
      case Failed
      with w orphan Some agreed show ?thesis
        by (simp add: corroborate_def ret_def Let_def confident_def rail_denies_def assurance_def
            Confidence_weighing weighing_Add [of "[WeightWindowExpired, WeightIngestIntact]", simplified])
    next
      case NotFound
      with w orphan Some agreed show ?thesis
        by (simp add: corroborate_def ret_def Let_def confident_def rail_denies_def assurance_def
            Confidence_weighing weighing_Add [of "[WeightWindowExpired, WeightIngestIntact]", simplified])
    qed (use known in simp)
  qed
qed

definition advice_ok :: "Detector \<Rightarrow> transaction \<Rightarrow> memory \<Rightarrow> memory \<Rightarrow> bool" where
  "advice_ok D t m m' \<longleftrightarrow> silent_step m m' \<or>
    justified D t \<and> with_status m' (tx_TenantID t) (tx_TransactionID t) StatusReversalPending"

lemma choose_notify_advice:
  assumes row: "with_status m (tx_TenantID t) (tx_TransactionID t) StatusOrphaned"
    and t: "tx_Status t = StatusOrphaned" and c: "confident D t ev"
  shows "advice_ok D t m (snd (seq (choose_event D (memory_full dg now) t res ev)
    (\<lambda>(event, t, res). notify D (memory_full dg now) t event ev endpoints res) m))"
proof (cases "belowConfidenceFloor D ev")
  case True
  let ?f = "choose_event D (memory_full dg now) t res ev"
  obtain r m1 where f: "?f m = (r, m1)" by fastforce
  have "silent_step m m1"
    using f True t mark_silent(2) [of m "tx_TenantID t" "tx_TransactionID t" "dt_now D" now]
    by (auto simp: choose_event_def action_defs tolerateRace_def split: prod.splits sum.splits if_splits)
  moreover have "silent_step m1 (snd (notify D (memory_full dg now) u e ev endpoints res' m1))"
    if "r = Inr (e, u, res')" for e u res'
  proof -
    have "e \<noteq> EventReversalTriggered"
      using f True t that by (auto simp: choose_event_def action_defs event_names split: prod.splits sum.splits)
    from quiet_silent [OF keepsD [OF notify_quiet [OF this]]] show ?thesis .
  qed
  ultimately show ?thesis
    using f silent_trans by (auto simp: seq_def advice_ok_def split: sum.split prod.split)
next
  case False
  with c have sure: "tx_IsBackfill t \<or> justified D t"
    using t by (auto simp: belowConfidenceFloor_def justified_def confident_def assurance_def split: option.splits)
  have ev: "choose_event D (memory_full dg now) t res ev m = (Inr (EventReversalTriggered, t, res), m)"
    using False t by (simp add: choose_event_def ret_def)
  show ?thesis
  proof (cases "tx_IsBackfill t")
    case True
    with ev show ?thesis by (simp add: seq_def notify_def ret_def advice_ok_def silent_refl)
  next
    case live: False
    obtain r1 m1 where e: "endpoints_for (memory_full dg now) (tx_TenantID t) endpoints m = (r1, m1)" by fastforce
    obtain r2 m2 where v: "recordVerdict D (memory_full dg now) t EventReversalTriggered ev m1 = (r2, m2)" by fastforce
    have q1: "quiet m m1" using keepsD [OF endpoints_for_quiet] e by (metis snd_conv)
    have q2: "quiet m1 m2" using keepsD [OF recordVerdict_quiet] v by (metis snd_conv)
    have s: "silent_step m m1" "silent_step m m2" "same_rows m m2"
      using q1 silent_trans [OF quiet_silent [OF q1] quiet_silent [OF q2]] q2
      by (simp_all add: quiet_silent) (simp add: quiet_def same_rows_def)
    have row2: "with_status m2 (tx_TenantID t) (tx_TransactionID t) StatusOrphaned"
      using row with_status_rows [OF s(3)] by simp
    have "silent_step m m3 \<or> with_status m3 (tx_TenantID t) (tx_TransactionID t) StatusReversalPending"
      if "queue D (memory_full dg now) t EventReversalTriggered eps ev m2 = (r3, m3)" for eps r3 m3
      using queue_advice [OF row2, of D dg now eps ev] silent_trans [OF s(2)] that by auto
    with ev e v live s sure show ?thesis
      by (auto simp: seq_def notify_def advice_ok_def ret_def split: sum.splits prod.splits)
  qed
qed

lemma handle_one_advice:
  assumes st: "tx_Status t \<in> {StatusOrphaned, StatusSuspect}"
    and row: "with_status m (tx_TenantID t) (tx_TransactionID t) (tx_Status t)"
    and gap: "tx_Status t = StatusOrphaned \<longrightarrow> no_gap m t"
  shows "advice_ok D t m (snd (handle_one D (memory_full dg now) t endpoints res m))"
proof -
  let ?S = "memory_full dg now"
  obtain ev where ev: "baseEvidence ?S t m = (Inr ev, m)"
    "tx_Status t = StatusOrphaned \<longrightarrow> weighing [WeightWindowExpired, WeightIngestIntact] ev"
    using gap baseEvidence_weighing by (cases "tx_Status t = StatusOrphaned")
      (blast, simp add: baseEvidence_def action_defs HasIngestGap_def Let_def)
  from st ev(2) row show ?thesis
  proof (cases rule: corroborate_cases [where D = D and dg = dg and now = now and res = res])
    case (settled m1 t1 res1 ev1)
    with ev(1) show ?thesis by (simp add: handle_one_def seq_def ret_def advice_ok_def)
  next
    case (doubt m1 t1 res1 ev1)
    have "EventTransactionSuspect \<noteq> EventReversalTriggered" by (simp add: event_names)
    note later = quiet_silent [OF keepsD [OF notify_quiet [OF this]]]
    have "silent_step m (snd (notify D ?S t1 EventTransactionSuspect ev1 endpoints r m1))" for r
      by (rule silent_trans [OF doubt(2) later])
    with doubt(1,3) ev(1) show ?thesis
      by (simp add: handle_one_def choose_event_def seq_def ret_def advice_ok_def)
  next
    case (agreed res1 ev1)
    from row agreed(2) have "with_status m (tx_TenantID t) (tx_TransactionID t) StatusOrphaned" by simp
    from ev(1) agreed(1) choose_notify_advice [OF this agreed(2,3), of dg now res1 endpoints] show ?thesis
      by (simp add: handle_one_def seq_def)
  qed
qed

section \<open>All claimed transactions\<close>

definition at_key :: "transaction \<Rightarrow> string \<times> string" where
  "at_key t = (tx_TenantID t, tx_TransactionID t)"

definition claimed_ok :: "memory \<Rightarrow> transaction \<Rightarrow> bool" where
  "claimed_ok m t \<longleftrightarrow> tx_Status t \<in> {StatusOrphaned, StatusSuspect} \<and>
    with_status m (tx_TenantID t) (tx_TransactionID t) (tx_Status t) \<and> (tx_Status t = StatusOrphaned \<longrightarrow> no_gap m t)"

definition accounted :: "Detector \<Rightarrow> transaction list \<Rightarrow> memory \<Rightarrow> memory \<Rightarrow> bool" where
  "accounted D ts m m' \<longleftrightarrow> (\<forall>i d. advised m m' i d \<longrightarrow> (\<exists>t\<in>set ts. at_key t = (dr_TenantID d, dr_TransactionID d) \<and>
    justified D t \<and> with_status m' (dr_TenantID d) (dr_TransactionID d) StatusReversalPending))"

lemma frame_status: "frame K m m' \<Longrightarrow> (a, b) \<notin> K \<Longrightarrow> with_status m' a b st = with_status m a b st"
  by (simp add: frame_def with_status_def)

lemma frame_claimed: "frame K m m' \<Longrightarrow> at_key t \<notin> K \<Longrightarrow> claimed_ok m t \<Longrightarrow> claimed_ok m' t"
  by (simp add: claimed_ok_def at_key_def frame_status no_gap_def hasGapLocked_def) (simp add: frame_def)

lemma frame_advised: "frame K m m' \<Longrightarrow> advised m m' i d \<Longrightarrow> (dr_TenantID d, dr_TransactionID d) \<in> K"
  by (auto simp: frame_def advised_def)

lemma sweep_loop_frame:
  "at_key ` set ts \<subseteq> K \<Longrightarrow> keeps (frame K) (sweep_loop D (memory_full dg now) ts endpoints res)"
  by (induction ts arbitrary: endpoints res)
    (auto intro!: frame_rules handle_one_frame simp: at_key_def split: prod.split)

lemma sweep_loop_accounted:
  "list_all (claimed_ok m) ts \<Longrightarrow> distinct (map at_key ts) \<Longrightarrow>
    accounted D ts m (snd (sweep_loop D (memory_full dg now) ts endpoints res m))"
proof (induction ts arbitrary: m endpoints res)
  case (Cons t ts)
  let ?S = "memory_full dg now"
  obtain r m1 where h: "handle_one D ?S t endpoints res m = (r, m1)" by fastforce
  have key: "at_key t \<notin> at_key ` set ts" using Cons.prems(2) by simp
  have f1: "frame {at_key t} m m1"
    using keepsD [OF handle_one_frame [of t "{at_key t}" D dg now endpoints res], of m] h by (simp add: at_key_def)
  have ok: "advice_ok D t m m1"
    using handle_one_advice [of t m D dg now endpoints res] Cons.prems(1) h by (simp add: claimed_ok_def)
  have one: "at_key t = (dr_TenantID d, dr_TransactionID d) \<and> justified D t \<and>
      with_status m1 (dr_TenantID d) (dr_TransactionID d) StatusReversalPending" if "advised m m1 i d" for i d
  proof -
    have k: "at_key t = (dr_TenantID d, dr_TransactionID d)" using frame_advised [OF f1 that] by simp
    moreover have "\<not> silent_step m m1" using that by (auto simp: silent_step_def)
    ultimately show ?thesis using ok by (simp add: advice_ok_def at_key_def)
  qed
  show ?case
  proof (cases r)
    case (Inl e)
    with h one show ?thesis by (auto simp: seq_def accounted_def)
  next
    case (Inr x)
    obtain eps res1 where x: "x = (eps, res1)" by fastforce
    let ?m' = "snd (sweep_loop D ?S ts eps res1 m1)"
    have f2: "frame (at_key ` set ts) m1 ?m'" by (rule keepsD [OF sweep_loop_frame]) simp
    have "at_key u \<notin> {at_key t}" if "u \<in> set ts" for u using key that by (metis image_eqI singletonD)
    then have "list_all (claimed_ok m1) ts"
      using Cons.prems(1) frame_claimed [OF f1] by (simp add: list_all_iff)
    with Cons.IH Cons.prems(2) have IH: "accounted D ts m1 ?m'" by simp
    have "\<exists>u\<in>set (t # ts). at_key u = (dr_TenantID d, dr_TransactionID d) \<and> justified D u \<and>
        with_status ?m' (dr_TenantID d) (dr_TransactionID d) StatusReversalPending" if a: "advised m ?m' i d" for i d
    proof (cases "advised m1 ?m' i d")
      case True
      with IH show ?thesis by (auto simp: accounted_def)
    next
      case False
      with a have "advised m m1 i d" by (auto simp: advised_def)
      from one [OF this] frame_status [OF f2] key show ?thesis by auto
    qed
    with h Inr x show ?thesis by (simp add: seq_def accounted_def)
  qed
qed (simp add: accounted_def advised_def ret_def)

section \<open>The sweep\<close>

definition sane :: "memory \<Rightarrow> memory \<Rightarrow> bool" where
  "sane m m' \<longleftrightarrow> (store_ok m \<longrightarrow> store_ok m')"

lemma sane_in_place: "in_place m m' \<Longrightarrow> sane m m'"
  using store_ok_in_place by (auto simp: sane_def)

lemma frame_rows_sane: "same_rows m m' \<Longrightarrow> sane m m'"
  by (simp add: sane_def same_rows_def store_ok_def)

lemma sane_refl: "reflp sane" by (simp add: reflp_def sane_def)

lemma sane_trans: "transp sane" by (auto simp: transp_def sane_def)

lemma keeps_quiet_sane: "keeps quiet f \<Longrightarrow> keeps sane f"
  by (simp add: keeps_def quiet_def frame_rows_sane)

lemma sane_ops:
  "keeps sane (MarkSettled a b t now)" "keeps sane (MarkUncertain a b t now)" "keeps sane (MarkReversalPending a b t now)"
  "keeps sane (EnqueueDelivery a d now)"
  by (simp_all add: keeps_def MarkSettled_def MarkUncertain_def MarkReversalPending_def sane_in_place
      markReversal_in_place) (simp add: EnqueueDelivery_def Let_def frame_rows_sane same_rows_def sane_refl [THEN reflpD])

lemmas sane_rules = keeps_ret [OF sane_refl] keeps_fail [OF sane_refl] keeps_attempt [OF sane_trans]
  keeps_seq [OF sane_trans] keeps_wrapping sane_ops

lemma queue_loop_sane: "keeps sane (queue_loop (memory_full dg now) a i event p eps n)"
  by (induction eps arbitrary: n) (auto intro!: sane_rules)

lemma handle_one_sane: "keeps sane (handle_one D (memory_full dg now) t endpoints res)"
  unfolding handle_one_def corroborate_def choose_event_def notify_def queue_def tolerateRace_def
  by (auto simp: Let_def intro!: sane_rules keeps_quiet_sane [OF baseEvidence_quiet]
      keeps_quiet_sane [OF endpoints_for_quiet] keeps_quiet_sane [OF recordVerdict_quiet] queue_loop_sane
      split: option.split ProviderOutcome.split sum.split)

lemma sweep_loop_sane: "keeps sane (sweep_loop D (memory_full dg now) ts endpoints res)"
  by (induction ts arbitrary: endpoints res) (auto intro!: sane_rules handle_one_sane split: prod.split)

lemma warnAtRisk_keeps:
  assumes "store_ok m"
  shows "silent_step m (snd (warnAtRisk D (memory_full dg now) res m)) \<and>
    (with_status m a b st \<longrightarrow> with_status (snd (warnAtRisk D (memory_full dg now) res m)) a b st)"
proof (cases "dt_slaWarnAhead D \<le> 0")
  case False
  let ?f = "ClaimSLAAtRisk (dt_now D) (dt_deadline D) (dt_slaWarnAhead D) (dt_batch D)"
  obtain out m1 where c: "?f m = (Inr out, m1)" by (simp add: ClaimSLAAtRisk_def Let_def)
  have "silent_step m m1" using c by (intro silent_deliveries) (auto simp: ClaimSLAAtRisk_def Let_def)
  moreover have "with_status m a b st \<longrightarrow> with_status m1 a b st"
    using ClaimSLAAtRisk_stored [OF assms, of "dt_now D" "dt_deadline D" "dt_slaWarnAhead D" "dt_batch D" a b] c
    by (auto simp: with_status_def)
  moreover have "quiet m1 (snd (warn_loop D (memory_full dg now) out [] res m1))"
    by (rule keepsD [OF warn_loop_quiet])
  ultimately show ?thesis
    using False c silent_trans [OF _ quiet_silent] with_status_rows
    by (simp add: warnAtRisk_def seq_def wrapping_def quiet_def) blast
qed (simp add: warnAtRisk_def ret_def silent_refl)

lemma claimed_ok_expired:
  assumes ok: "store_ok m" and run: "ClaimExpired now limit skip m = (Inr out, m1)"
  shows "list_all (claimed_ok m1) out \<and> distinct (map at_key out) \<and> silent_step m m1 \<and> store_ok m1 \<and>
    (\<forall>u\<in>set out. \<exists>t. stored m (tx_TenantID u) (tx_TransactionID u) = Some t \<and> IsExpiredAt t now \<and>
      tx_TenantID u \<notin> set skip \<and> u = expire m now t)"
proof -
  let ?due = "cut limit (expired_due now skip m)"
  have out: "out = map (\<lambda>(a, b, t). expire m now t) ?due" and m1: "m1 = snd (ClaimExpired now limit skip m)"
    using run by (auto simp: ClaimExpired_def Let_def)
  have mem: "stored m a b = Some t \<and> a \<notin> set skip \<and> IsExpiredAt t now \<and> stored m1 a b = Some (expire m now t) \<and>
      at_key (expire m now t) = (a, b)" if "(a, b, t) \<in> set ?due" for a b t
  proof -
    have t: "stored m a b = Some t \<and> a \<notin> set skip \<and> IsExpiredAt t now"
      using subsetD [OF set_cut that] ok by (simp add: set_expired_due)
    with store_ok_row(1,2) [OF ok, of a b t] expire_fields(3) [of t m now] that show ?thesis
      by (simp add: m1 ClaimExpired_stored [OF ok] at_key_def same_identity_def)
  qed
  have health: "hasGapLocked m1 = hasGapLocked m" and quiet: "silent_step m m1"
    by (simp_all add: m1 ClaimExpired_def Let_def hasGapLocked_def fun_eq_iff silent_deliveries)
  have claimed: "claimed_ok m1 (expire m now t)" if "(a, b, t) \<in> set ?due" for a b t
    using mem [OF that] health expire_fields(1) [of m now t] expire_fields(3) [of t m now]
    by (auto simp: claimed_ok_def with_status_def at_key_def no_gap_def same_identity_def)
  have "map at_key out = map (\<lambda>(a, b, t). (a, b)) ?due"
    unfolding out using mem by (auto simp: comp_def)
  moreover have "distinct (map (\<lambda>(a, b, t). (a, b)) ?due)"
    using ok by (intro distinct_map_cut distinct_expired_due) simp
  ultimately have keys: "distinct (map at_key out)" by metis
  have ok1: "store_ok m1" using store_ok_in_place [OF ok ClaimExpired_in_place] by (simp add: m1)
  have source: "(\<exists>t. stored m (tx_TenantID u) (tx_TransactionID u) = Some t \<and> IsExpiredAt t now \<and>
      tx_TenantID u \<notin> set skip \<and> u = expire m now t) \<and> claimed_ok m1 u" if u: "u \<in> set out" for u
  proof -
    obtain a b t where "(a, b, t) \<in> set ?due" "u = expire m now t" using u unfolding out by (blast dest: map_entryE)
    with mem [of a b t] claimed [of a b t] show ?thesis by (auto simp: at_key_def)
  qed
  then have "list_all (claimed_ok m1) out" by (simp add: list_all_iff)
  with quiet keys ok1 source show ?thesis by blast
qed

lemma SilentTenants_run: "\<exists>silent. SilentTenants now p m = (Inr silent, m)"
  by (auto simp: SilentTenants_def Let_def)

text \<open>
  C5. The sweep advises a reversal only when it may. Every reversal advice a sweep adds is for a
  transaction that was waiting for its credit past its deadline, of a tenant that was not silent,
  was not reported late as a backfill, lost no events over its window, and that the rail, where one
  is registered, said failed or was never seen; the confidence behind it reaches the configured
  floor. And the transaction is marked reversal pending when the sweep ends.
\<close>

theorem sweep_advice_justified:
  assumes "store_ok m" "Sweep D (memory_full dg now) m = (r, m')"
    and "map_of (m_deliveries m') i = Some d" "dr_EventType d = EventReversalTriggered"
    and "map_of (m_deliveries m) i \<noteq> Some d"
  shows "\<exists>t t' silent. stored m (dr_TenantID d) (dr_TransactionID d) = Some t \<and>
    fst (SilentTenants (dt_now D) (dt_silence D) m) = Inr silent \<and> dr_TenantID d \<notin> set silent \<and>
    tx_Status t = StatusPendingDebit \<and> IsExpiredAt t (dt_now D) \<and> \<not> tx_IsBackfill t \<and>
    \<not> hasGapLocked m (dr_TenantID d) (tx_DebitAt t) (tx_ExpectedCompletionAt t) \<and>
    (case dt_providers D of None \<Rightarrow> dt_minConfidence D \<le> 70 / 100
     | Some reg \<Rightarrow> case pst_Outcome (Registry_Query reg (ref_of t) (dt_now D)) of
         Failed \<Rightarrow> dt_minConfidence D \<le> 1
       | NotFound \<Rightarrow> dt_minConfidence D \<le> 95 / 100
       | _ \<Rightarrow> False) \<and>
    stored m' (dr_TenantID d) (dr_TransactionID d) = Some t' \<and> tx_Status t' = StatusReversalPending"
proof -
  let ?S = "memory_full dg now"
  obtain silent where silent: "SilentTenants (dt_now D) (dt_silence D) m = (Inr silent, m)"
    using SilentTenants_run by blast
  have adv: "advised m m' i d" using assms(3-5) by (simp add: advised_def is_advice_def)
  obtain r1 m1 where alert: "alertOnSilence D ?S silent (no_sweep\<lparr>swr_SilentTenants := silent\<rparr>) m = (r1, m1)" by fastforce
  have q1: "quiet m m1" using keepsD [OF alertOnSilence_quiet] alert by (metis snd_conv)
  have ok1: "store_ok m1" using assms(1) q1 frame_rows_sane [of m m1] by (simp add: quiet_def sane_def)
  obtain out m2 where claim: "ClaimExpired (dt_now D) (dt_batch D) silent m1 = (Inr out, m2)"
    by (simp add: ClaimExpired_def Let_def)
  note c = claimed_ok_expired [OF ok1 claim]
  obtain res1 where r1: "r1 = Inr res1"
    using adv assms(2) silent alert quiet_silent [OF q1]
    by (cases r1) (auto simp: Sweep_def seq_def wrapping_def silent_step_def)
  obtain r3 m3 where loop: "sweep_loop D ?S out [] (res1\<lparr>swr_Claimed := length out\<rparr>) m2 = (r3, m3)" by fastforce
  have acc: "accounted D out m2 m3" and ok3: "store_ok m3"
    using sweep_loop_accounted [of m2 out D dg now "[]" "res1\<lparr>swr_Claimed := length out\<rparr>"] loop c
      keepsD [OF sweep_loop_sane, of m2 D dg now out "[]" "res1\<lparr>swr_Claimed := length out\<rparr>"]
    by (simp_all add: sane_def)
  have run: "(case r3 of Inl e \<Rightarrow> (Inl e, m3) | Inr res3 \<Rightarrow> warnAtRisk D ?S res3 m3) = (r, m')"
    using assms(2) silent alert r1 claim loop by (simp add: Sweep_def seq_def wrapping_def split: sum.splits)
  have last: "silent_step m3 m' \<and> (with_status m3 a b st \<longrightarrow> with_status m' a b st)" for a b st
  proof (cases r3)
    case (Inr res3)
    with run have "m' = snd (warnAtRisk D ?S res3 m3)" by simp
    with warnAtRisk_keeps [OF ok3, of D dg now res3 a b st] show ?thesis by simp
  qed (use run in \<open>simp add: silent_refl\<close>)
  have "advised m2 m3 i d"
  proof -
    have "silent_step m m2" using silent_trans [OF quiet_silent [OF q1]] c by blast
    with adv last show ?thesis by (auto simp: advised_def silent_step_def)
  qed
  with acc obtain u where u: "u \<in> set out" "at_key u = (dr_TenantID d, dr_TransactionID d)" "justified D u"
    "with_status m3 (dr_TenantID d) (dr_TransactionID d) StatusReversalPending"
    by (auto simp: accounted_def)
  obtain t where t: "stored m1 (dr_TenantID d) (dr_TransactionID d) = Some t" "IsExpiredAt t (dt_now D)"
    "dr_TenantID d \<notin> set silent" "u = expire m1 (dt_now D) t"
    using c u(1,2) by (auto simp: at_key_def)
  have t0: "stored m (dr_TenantID d) (dr_TransactionID d) = Some t" and gap: "hasGapLocked m1 = hasGapLocked m"
    using t(1) q1 by (simp_all add: quiet_def same_rows_def hasGapLocked_def fun_eq_iff)
  obtain t' where t': "stored m' (dr_TenantID d) (dr_TransactionID d) = Some t'" "tx_Status t' = StatusReversalPending"
    using u(4) last [of "dr_TenantID d" "dr_TransactionID d" StatusReversalPending] by (auto simp: with_status_def)
  note e = expire_fields(1) [of m1 "dt_now D" t, folded t(4)] expire_fields(3) [of t m1 "dt_now D", folded t(4)]
  have tenant: "tx_TenantID t = dr_TenantID d" using e(2) u(2) by (simp add: at_key_def same_identity_def)
  have j: "tx_Status u = StatusOrphaned" "\<not> tx_IsBackfill u" "rail_denies D u" "dt_minConfidence D \<le> assurance D u"
    using u(3) by (simp_all add: justified_def)
  have ref: "ref_of u = ref_of t" and backfill: "tx_IsBackfill u = tx_IsBackfill t"
    using e(2) by (simp_all add: ref_of_def same_identity_def t(4) expire_def Let_def)
  have st: "tx_Status t \<noteq> StatusPendingUnknown"
    "\<not> hasGapLocked m (dr_TenantID d) (tx_DebitAt t) (tx_ExpectedCompletionAt t)"
    using e(1) j(1) tenant gap by (auto split: if_splits)
  have pending: "tx_Status t = StatusPendingDebit" using t(2) st(1) by (auto simp: IsExpiredAt_def IsOpen_def)
  have rail: "case dt_providers D of None \<Rightarrow> dt_minConfidence D \<le> 70 / 100
     | Some reg \<Rightarrow> case pst_Outcome (Registry_Query reg (ref_of t) (dt_now D)) of
         Failed \<Rightarrow> dt_minConfidence D \<le> 1
       | NotFound \<Rightarrow> dt_minConfidence D \<le> 95 / 100
       | _ \<Rightarrow> False"
    using j(3,4) unfolding rail_denies_def assurance_def ref
    by (auto split: option.splits ProviderOutcome.splits)
  show ?thesis
    using t0 silent t(2,3) pending j(2) backfill st(2) rail t' by (intro exI conjI) (assumption | simp)+
qed

definition sample_endpoint :: WebhookEndpoint where
  "sample_endpoint = \<lparr>ep_ID = ''e'', ep_TenantID = ''t'', ep_URL = ''https://x'', ep_SecretRef = '''', ep_Events = [],
    ep_Enabled = True\<rparr>"

definition sample_detector :: "registry option \<Rightarrow> Detector" where
  "sample_detector providers = NewDetector 60 (\<lambda>e. Inr ''body'') (\<lambda>e. Inr ''body'') (\<lambda>t. '''')
    \<lparr>dto_Batch = 0, dto_Silence = None, dto_MinReversalConfidence = 70 / 100, dto_ReversalDeadline = 0,
     dto_SLAWarnBefore = 0, dto_Providers = providers\<rparr>"

definition watched_store :: "transaction \<Rightarrow> memory" where
  "watched_store t = (sample_store t)\<lparr>m_endpoints := [(''e'', sample_endpoint)]\<rparr>"

theorem sweep_advice_justified_witness:
  "let m = watched_store sample_tx; D = sample_detector None; (r, m') = Sweep D (memory_full (\<lambda>c. Inr ''h'') 60) m
   in store_ok m \<and> (\<exists>d t'. map_of (m_deliveries m') 1 = Some d \<and> dr_EventType d = EventReversalTriggered \<and>
     stored m' (dr_TenantID d) (dr_TransactionID d) = Some t' \<and> tx_Status t' = StatusReversalPending)"
proof -
  let ?m = "watched_store sample_tx" and ?D = "sample_detector None" and ?S = "memory_full (\<lambda>c. Inr ''h'') 60"
  obtain r m' where run: "Sweep ?D ?S ?m = (r, m')" by fastforce
  have ok: "store_ok ?m" using sample_store_ok [of sample_tx] frame_rows_sane [of "sample_store sample_tx" ?m]
    by (simp add: watched_store_def same_rows_def sane_def)
  have d: "map_option dr_EventType (map_of (m_deliveries (snd (Sweep ?D ?S ?m))) 1) = Some EventReversalTriggered"
    by code_simp
  have none: "map_of (m_deliveries ?m) 1 \<noteq> Some d" for d
    by (simp add: watched_store_def sample_store_def NewMemory_def)
  from d run obtain d where d: "map_of (m_deliveries m') 1 = Some d" "dr_EventType d = EventReversalTriggered" by auto
  from sweep_advice_justified [OF ok run d none] d run ok show ?thesis by (auto simp: Let_def)
qed

section \<open>A credit that lands while the rail is asked\<close>

section \<open>A credit that lands while the rail is asked\<close>

lemma queue_loop_deliveries:
  "m_nextDeliveryID m \<le> m_nextDeliveryID (snd (queue_loop (memory_full dg now) a i event p eps n m)) \<and>
    (\<forall>j. j \<le> m_nextDeliveryID m \<longrightarrow>
      map_of (m_deliveries (snd (queue_loop (memory_full dg now) a i event p eps n m))) j = map_of (m_deliveries m) j)"
proof (induction eps arbitrary: n m)
  case (Cons ep eps)
  let ?pd = "\<lparr>pd_TenantID = a, pd_EndpointID = ep_ID ep, pd_TransactionID = i, pd_EventType = event, pd_Payload = p\<rparr>"
  obtain m1 where m1: "EnqueueDelivery a ?pd now m = (Inr (m_nextDeliveryID m + 1), m1)"
    "m_nextDeliveryID m1 = m_nextDeliveryID m + 1"
    "\<forall>j. j \<le> m_nextDeliveryID m \<longrightarrow> map_of (m_deliveries m1) j = map_of (m_deliveries m) j"
    by (simp add: EnqueueDelivery_def Let_def update_conv)
  show ?case
  proof (cases "ep_Enabled ep \<and> subscribes ep event")
    case True
    with m1 Cons.IH [of m1 "n + 1"] show ?thesis by (simp add: seq_def)
  next
    case False
    with Cons.IH [of m n] show ?thesis by auto
  qed
qed (simp add: ret_def)

lemma queue_loop_adds:
  assumes "\<exists>ep\<in>set eps. ep_Enabled ep \<and> subscribes ep event"
  shows "\<exists>j d. m_nextDeliveryID m < j \<and>
    map_of (m_deliveries (snd (queue_loop (memory_full dg now) a i event p eps n m))) j = Some d \<and>
    dr_EventType d = event \<and> dr_TenantID d = a \<and> dr_TransactionID d = i"
  using assms
proof (induction eps arbitrary: n m)
  case (Cons ep eps)
  show ?case
  proof (cases "ep_Enabled ep \<and> subscribes ep event")
    case True
    let ?pd = "\<lparr>pd_TenantID = a, pd_EndpointID = ep_ID ep, pd_TransactionID = i, pd_EventType = event, pd_Payload = p\<rparr>"
    obtain m1 d where e: "EnqueueDelivery a ?pd now m = (Inr (m_nextDeliveryID m + 1), m1)"
      "m_nextDeliveryID m1 = m_nextDeliveryID m + 1" "map_of (m_deliveries m1) (m_nextDeliveryID m + 1) = Some d"
      "dr_EventType d = event" "dr_TenantID d = a" "dr_TransactionID d = i"
      by (simp add: EnqueueDelivery_def Let_def update_conv)
    have "map_of (m_deliveries (snd (queue_loop (memory_full dg now) a i event p eps (n + 1) m1))) (m_nextDeliveryID m + 1) = Some d"
      using queue_loop_deliveries [of m1 dg now a i event p eps "n + 1"] e(2,3) by simp
    with True e show ?thesis by (intro exI [of _ "m_nextDeliveryID m + 1"]) (simp add: seq_def)
  next
    case False
    then have "queue_loop (memory_full dg now) a i event p (ep # eps) n m = queue_loop (memory_full dg now) a i event p eps n m"
      by auto
    moreover have "\<exists>ep\<in>set eps. ep_Enabled ep \<and> subscribes ep event" using False Cons.prems by auto
    ultimately show ?thesis using Cons.IH by metis
  qed
qed simp

lemma queue_refused:
  assumes eps: "\<exists>ep\<in>set eps. ep_Enabled ep \<and> subscribes ep EventReversalTriggered"
    and row: "with_status m (tx_TenantID t) (tx_TransactionID t) StatusCompleted"
    and p: "dt_marshal D (EnvelopeFor EventReversalTriggered t (dt_now D) ev) = Inr p"
  shows "\<exists>j d. m_nextDeliveryID m < j \<and>
    map_of (m_deliveries (snd (queue D (memory_full dg now) t EventReversalTriggered eps ev m))) j = Some d \<and>
    is_advice d \<and> dr_TenantID d = tx_TenantID t \<and> dr_TransactionID d = tx_TransactionID t \<and>
    with_status (snd (queue D (memory_full dg now) t EventReversalTriggered eps ev m)) (tx_TenantID t) (tx_TransactionID t)
      StatusCompleted \<and> isl (fst (queue D (memory_full dg now) t EventReversalTriggered eps ev m)) = False"
proof -
  let ?q = "queue_loop (memory_full dg now) (tx_TenantID t) (tx_TransactionID t) EventReversalTriggered p eps 0 m"
  obtain k m1 where q: "?q = (Inr k, m1)" "same_rows m m1" "k = 0 \<longrightarrow> m1 = m"
    using queue_loop_run [of dg now "tx_TenantID t" "tx_TransactionID t" EventReversalTriggered p eps 0 m] by auto
  have row1: "with_status m1 (tx_TenantID t) (tx_TransactionID t) StatusCompleted" using row q(2) by (simp add: with_status_rows)
  then obtain e where "MarkReversalPending (tx_TenantID t) (tx_TransactionID t) (dt_now D) now m1 = (Inl e, m1)"
    "is_invalid_transition e"
    by (auto simp: with_status_def MarkReversalPending_def markReversal_rejected CanTransition_iff)
  with p q(1) have "queue D (memory_full dg now) t EventReversalTriggered eps ev m = (Inr k, m1)"
    by (simp add: queue_def action_defs)
  with queue_loop_adds [OF eps, of m dg now "tx_TenantID t" "tx_TransactionID t" p 0] q(1) row1 show ?thesis
    by (simp add: is_advice_def)
qed

lemma recordVerdict_run:
  "\<exists>m'. recordVerdict D (memory_full dg now) t event ev m = (Inr (), m') \<and> m_nextDeliveryID m' = m_nextDeliveryID m"
proof -
  have "m_nextDeliveryID (snd (AppendAudit dg a r now now m)) = m_nextDeliveryID m" for a r
    by (cases rule: AppendAudit_cases [of dg a r now now m]) auto
  then show ?thesis by (simp add: recordVerdict_def action_defs split_beta)
qed

text \<open>
  C27. The rail's confirmation does not stop the advice when a credit has just landed. If the
  credit of a claimed transaction is stored after the claim, and the rail, asked next, says the
  payment settled, the store refuses to settle it a second time; the sweep takes that refusal for a
  lost race, goes on with its stale copy, and still tells every subscribed endpoint to
  reverse the payment. The transaction stays completed.
\<close>

theorem advice_after_rail_confirms:
  assumes "tx_Status t = StatusOrphaned" "\<not> tx_IsBackfill t"
    "\<not> hasGapLocked m (tx_TenantID t) (tx_DebitAt t) (tx_ExpectedCompletionAt t)"
    and "stored m (tx_TenantID t) (tx_TransactionID t) = Some s" "tx_Status s = StatusCompleted"
    and "dt_providers D = Some reg" "pst_Outcome (Registry_Query reg (ref_of t) (dt_now D)) = Settled"
    and "dt_minConfidence D \<le> 70 / 100" "\<And>env. \<not> isl (dt_marshal D env)"
    and "ListEndpoints (tx_TenantID t) m = (Inr eps, m)" "ep \<in> set eps" "ep_Enabled ep"
    and "subscribes ep EventReversalTriggered"
    and "handle_one D (memory_full dg now) t [] res m = (r, m')"
  shows "\<not> isl r \<and> (\<exists>j d t'. m_nextDeliveryID m < j \<and> map_of (m_deliveries m') j = Some d \<and>
    dr_EventType d = EventReversalTriggered \<and> dr_TenantID d = tx_TenantID t \<and> dr_TransactionID d = tx_TransactionID t \<and>
    stored m' (tx_TenantID t) (tx_TransactionID t) = Some t' \<and> tx_Status t' = StatusCompleted)"
proof -
  let ?S = "memory_full dg now"
  obtain ev where ev: "baseEvidence ?S t m = (Inr ev, m)" "weighing [WeightWindowExpired, WeightIngestIntact] ev"
    using baseEvidence_weighing [of m t dg now] assms(3) by (auto simp: no_gap_def)
  have cor: "corroborate D ?S t res ev m = (Inr (False, t, res, ev), m)"
    using assms(1,4-7)
    by (simp add: corroborate_def Let_def action_defs MarkSettled_def markReversal_rejected CanTransition_iff tolerateRace_def)
  have "\<not> belowConfidenceFloor D ev"
    using assms(8) ev(2) by (simp add: belowConfidenceFloor_def Confidence_weighing)
  then have ch: "choose_event D ?S t res ev m = (Inr (EventReversalTriggered, t, res), m)"
    using assms(1) by (simp add: choose_event_def ret_def)
  obtain m2 where v: "recordVerdict D ?S t EventReversalTriggered ev m = (Inr (), m2)"
    "m_nextDeliveryID m2 = m_nextDeliveryID m" using recordVerdict_run by blast
  have q2: "quiet m m2" using keepsD [OF recordVerdict_quiet] v by (metis snd_conv)
  have row: "with_status m2 (tx_TenantID t) (tx_TransactionID t) StatusCompleted"
    using assms(4,5) q2 by (auto simp: quiet_def with_status_rows) (auto simp: with_status_def)
  obtain p where p: "dt_marshal D (EnvelopeFor EventReversalTriggered t (dt_now D) ev) = Inr p"
    using assms(9) by (metis isl_def sum.exhaust)
  obtain rq mq where q: "queue D ?S t EventReversalTriggered eps ev m2 = (rq, mq)" by fastforce
  have "\<exists>ep\<in>set eps. ep_Enabled ep \<and> subscribes ep EventReversalTriggered" using assms(11-13) by blast
  from queue_refused [OF this row p, of dg now] q v(2) obtain j d k where
    adv: "m_nextDeliveryID m < j" "map_of (m_deliveries mq) j = Some d" "is_advice d" "dr_TenantID d = tx_TenantID t"
      "dr_TransactionID d = tx_TransactionID t" "with_status mq (tx_TenantID t) (tx_TransactionID t) StatusCompleted"
      "rq = Inr k" by (cases rq) auto
  have "handle_one D ?S t [] res m = notify D ?S t EventReversalTriggered ev [] res m"
    using ev(1) cor ch by (simp add: handle_one_def seq_def)
  also have "snd \<dots> = mq \<and> \<not> isl (fst \<dots>)"
    using assms(2,10) v(1) q adv(7) by (simp add: notify_def endpoints_for_def action_defs)
  finally have "m' = mq" "\<not> isl r" using assms(14) by simp_all
  with adv show ?thesis by (auto simp: with_status_def is_advice_def)
qed

theorem advice_after_rail_confirms_witness:
  "let s = sample_tx\<lparr>tx_Status := StatusCompleted, tx_Provider := ''rail''\<rparr>; t = s\<lparr>tx_Status := StatusOrphaned\<rparr>;
     D = sample_detector (Some [(''rail'', \<lambda>ref. (\<lparr>pst_Outcome = Settled, pst_Provider = '''', pst_Reference = '''',
       pst_ObservedAt = 1, pst_Detail = ''''\<rparr>, None))]);
     m = watched_store s; (r, m') = handle_one D (memory_full (\<lambda>c. Inr ''h'') 60) t [] no_sweep m
   in (\<exists>j d. m_nextDeliveryID m < j \<and> map_of (m_deliveries m') j = Some d \<and> dr_EventType d = EventReversalTriggered)"
proof -
  let ?s = "sample_tx\<lparr>tx_Status := StatusCompleted, tx_Provider := ''rail''\<rparr>"
  let ?t = "?s\<lparr>tx_Status := StatusOrphaned\<rparr>"
  let ?reg = "[(''rail'', \<lambda>ref. (\<lparr>pst_Outcome = Settled, pst_Provider = '''', pst_Reference = '''',
       pst_ObservedAt = 1, pst_Detail = ''''\<rparr>, None))]"
  let ?D = "sample_detector (Some ?reg)" and ?m = "watched_store ?s"
  obtain r m' where run: "handle_one ?D (memory_full (\<lambda>c. Inr ''h'') 60) ?t [] no_sweep ?m = (r, m')" by fastforce
  have rail: "pst_Outcome (Registry_Query ?reg (ref_of ?t) (dt_now ?D)) = Settled"
    by (simp add: Registry_Query_def ref_of_def Let_def)
  have D: "dt_providers ?D = Some ?reg" "dt_minConfidence ?D \<le> 70 / 100" "\<not> isl (dt_marshal ?D env)" for env
    by (simp_all add: sample_detector_def NewDetector_def)
  have eps: "ListEndpoints (tx_TenantID ?t) ?m = (Inr [sample_endpoint], ?m)"
    by (simp add: ListEndpoints_def watched_store_def sample_endpoint_def)
  have m: "\<not> hasGapLocked ?m (tx_TenantID ?t) (tx_DebitAt ?t) (tx_ExpectedCompletionAt ?t)"
    "stored ?m (tx_TenantID ?t) (tx_TransactionID ?t) = Some ?s"
    by (simp_all add: watched_store_def hasGapLocked_def sample_store_def NewMemory_def get2_def inner_def Let_def)
  have ep: "sample_endpoint \<in> set [sample_endpoint]" "ep_Enabled sample_endpoint"
    "subscribes sample_endpoint EventReversalTriggered"
    by (simp_all add: sample_endpoint_def subscribes_def)
  from advice_after_rail_confirms [OF _ _ m _ D(1) rail D(2,3) eps ep run] run show ?thesis by (auto simp: Let_def)
qed

end
