(* ===== verification/Health_Recorder.thy ===== *)
theory Health_Recorder
  imports Store_Health
begin

text \<open>
  The recorder of ingest health (\<^verbatim>\<open>internal/health/recorder.go\<close>): counters per tenant and
  minute kept in memory and written to the store in batches. A flush takes the counters and
  then writes them without the lock, so events are counted while a flush is in flight; that
  interleaving is a step relation here, with the counters in flight as part of the state. The
  ticker and the log are not modelled.
\<close>

section \<open>The recorder\<close>

record counts =
  cn_received :: int
  cn_dropped :: int
  cn_handlerErrors :: int

type_synonym health_counts = "((string \<times> gotime) \<times> counts) list"

record Recorder =
  rec_every :: duration
  rec_pending :: health_counts

definition DefaultFlushInterval :: duration where "DefaultFlushInterval = 5 * second"

definition NewRecorder :: "duration \<Rightarrow> Recorder" where
  "NewRecorder every = \<lparr>rec_every = (if every \<le> 0 then DefaultFlushInterval else every), rec_pending = []\<rparr>"

definition no_counts :: counts where
  "no_counts = \<lparr>cn_received = 0, cn_dropped = 0, cn_handlerErrors = 0\<rparr>"

definition bump :: "gotime \<Rightarrow> string \<Rightarrow> (counts \<Rightarrow> counts) \<Rightarrow> Recorder \<Rightarrow> Recorder" where
  "bump now tenantID f r =
    (if tenantID = '''' then r
     else let k = (tenantID, trunc_time minute now);
              c = (case map_of (rec_pending r) k of None \<Rightarrow> no_counts | Some c \<Rightarrow> c)
          in r\<lparr>rec_pending := AList.update k (f c) (rec_pending r)\<rparr>)"

definition Recorder_Accepted :: "gotime \<Rightarrow> string \<Rightarrow> Recorder \<Rightarrow> Recorder" where
  "Recorder_Accepted now tenantID = bump now tenantID (\<lambda>c. c\<lparr>cn_received := wrap64 (cn_received c + 1)\<rparr>)"

definition Recorder_Dropped :: "gotime \<Rightarrow> string \<Rightarrow> Recorder \<Rightarrow> Recorder" where
  "Recorder_Dropped now tenantID = bump now tenantID (\<lambda>c. c\<lparr>cn_dropped := wrap64 (cn_dropped c + 1)\<rparr>)"

definition Recorder_BatchFailed :: "gotime \<Rightarrow> string \<Rightarrow> int \<Rightarrow> Recorder \<Rightarrow> Recorder" where
  "Recorder_BatchFailed now tenantID events r =
    (if events \<le> 0 then r
     else bump now tenantID (\<lambda>c. c\<lparr>cn_handlerErrors := wrap64 (cn_handlerErrors c + events)\<rparr>) r)"

definition samples_of :: "health_counts \<Rightarrow> IngestSample list" where
  "samples_of pending = map (\<lambda>((tenantID, bucket), c).
    \<lparr>is_TenantID = tenantID, is_Bucket = bucket, is_Received = cn_received c, is_Dropped = cn_dropped c,
     is_HandlerErrors = cn_handlerErrors c\<rparr>) pending"

fun put_back :: "(string \<times> gotime) \<times> counts \<Rightarrow> health_counts \<Rightarrow> health_counts" where
  "put_back (k, c) p =
    (case map_of p k of
       None \<Rightarrow> AList.update k c p
     | Some existing \<Rightarrow> AList.update k
         \<lparr>cn_received = wrap64 (cn_received existing + cn_received c),
          cn_dropped = wrap64 (cn_dropped existing + cn_dropped c),
          cn_handlerErrors = wrap64 (cn_handlerErrors existing + cn_handlerErrors c)\<rparr> p)"

definition restore :: "health_counts \<Rightarrow> Recorder \<Rightarrow> Recorder" where
  "restore pending r = r\<lparr>rec_pending := fold put_back pending (rec_pending r)\<rparr>"

text \<open>The three parts of \<^verbatim>\<open>Flush\<close>: take the counters, write them, and put them back if that failed.\<close>

definition flush_take :: "Recorder \<Rightarrow> health_counts \<times> Recorder" where
  "flush_take r = (rec_pending r, r\<lparr>rec_pending := []\<rparr>)"

definition Flush :: "(IngestSample list \<Rightarrow> 's \<Rightarrow> (goerror + unit) \<times> 's) \<Rightarrow> Recorder \<Rightarrow> 's \<Rightarrow>
    (goerror option \<times> Recorder) \<times> 's" where
  "Flush write r s =
    (let (pending, r) = flush_take r
     in if length pending = 0 then ((None, r), s)
        else case write (samples_of pending) s of
               (Inl err, s') \<Rightarrow> ((Some err, restore pending r), s')
             | (Inr _, s') \<Rightarrow> ((None, r), s'))"

section \<open>Counting while a flush is in flight\<close>

record recording =
  rg_recorder :: Recorder
  rg_flight :: "health_counts option"
  rg_store :: memory

datatype record_op =
    Note_Accepted string gotime
  | Note_Dropped string gotime
  | Note_Failed string int gotime
  | Flush_Begin
  | Flush_Written
  | Flush_Refused

text \<open>A write that the store refuses has recorded nothing.\<close>

fun exec_record :: "record_op \<Rightarrow> recording \<Rightarrow> recording" where
  "exec_record (Note_Accepted a now) g = g\<lparr>rg_recorder := Recorder_Accepted now a (rg_recorder g)\<rparr>"
| "exec_record (Note_Dropped a now) g = g\<lparr>rg_recorder := Recorder_Dropped now a (rg_recorder g)\<rparr>"
| "exec_record (Note_Failed a n now) g = g\<lparr>rg_recorder := Recorder_BatchFailed now a n (rg_recorder g)\<rparr>"
| "exec_record Flush_Begin g =
    (if rg_flight g \<noteq> None then g
     else let (pending, r) = flush_take (rg_recorder g)
          in if length pending = 0 then g else g\<lparr>rg_recorder := r, rg_flight := Some pending\<rparr>)"
| "exec_record Flush_Written g =
    (case rg_flight g of None \<Rightarrow> g
     | Some pending \<Rightarrow> g\<lparr>rg_flight := None, rg_store := snd (RecordIngestHealth (samples_of pending) (rg_store g))\<rparr>)"
| "exec_record Flush_Refused g =
    (case rg_flight g of None \<Rightarrow> g
     | Some pending \<Rightarrow> g\<lparr>rg_flight := None, rg_recorder := restore pending (rg_recorder g)\<rparr>)"

section \<open>What is counted is conserved\<close>

datatype counter = Received | Dropped | HandlerErrors

fun in_counts :: "counter \<Rightarrow> counts \<Rightarrow> int" where
  "in_counts Received c = cn_received c"
| "in_counts Dropped c = cn_dropped c"
| "in_counts HandlerErrors c = cn_handlerErrors c"

fun in_sample :: "counter \<Rightarrow> IngestSample \<Rightarrow> int" where
  "in_sample Received s = is_Received s"
| "in_sample Dropped s = is_Dropped s"
| "in_sample HandlerErrors s = is_HandlerErrors s"

definition held_at :: "counter \<Rightarrow> health_counts \<Rightarrow> string \<times> gotime \<Rightarrow> int" where
  "held_at x p k = (case map_of p k of None \<Rightarrow> 0 | Some c \<Rightarrow> in_counts x c)"

text \<open>What an operation adds to a counter.\<close>

fun noted :: "counter \<Rightarrow> string \<times> gotime \<Rightarrow> record_op \<Rightarrow> int" where
  "noted Received k (Note_Accepted a now) = (if k = (a, trunc_time minute now) \<and> a \<noteq> '''' then 1 else 0)"
| "noted Dropped k (Note_Dropped a now) = (if k = (a, trunc_time minute now) \<and> a \<noteq> '''' then 1 else 0)"
| "noted HandlerErrors k (Note_Failed a n now) = (if k = (a, trunc_time minute now) \<and> a \<noteq> '''' \<and> 0 < n then n else 0)"
| "noted x k p = 0"

definition in_flight :: "recording \<Rightarrow> health_counts" where
  "in_flight g = (case rg_flight g of None \<Rightarrow> [] | Some p \<Rightarrow> p)"

definition held :: "counter \<Rightarrow> recording \<Rightarrow> string \<times> gotime \<Rightarrow> int" where
  "held x g k = in_sample x (health_at (m_health (rg_store g)) k) + held_at x (in_flight g) k +
    held_at x (rec_pending (rg_recorder g)) k"

text \<open>Keys are whole minutes and occur once.\<close>

definition whole :: "health_counts \<Rightarrow> bool" where
  "whole p \<longleftrightarrow> distinct (map fst p) \<and> (\<forall>(a, b)\<in>fst ` set p. trunc_time minute b = b)"

lemma trunc_trunc [simp]: "trunc_time d (trunc_time d t) = trunc_time d t"
  by (simp add: trunc_time_def)

lemma whole_update: "whole p \<Longrightarrow> trunc_time minute b = b \<Longrightarrow> whole (AList.update (a, b) c p)"
  by (auto simp: whole_def distinct_update set_update_distinct)

lemma held_at_update: "held_at x (AList.update k c p) k' = (if k' = k then in_counts x c else held_at x p k')"
  by (simp add: held_at_def update_conv)

lemma in_no_counts [simp]: "in_counts x no_counts = 0"
  by (cases x) (simp_all add: no_counts_def)

lemma held_at_Cons: "k \<notin> fst ` set p \<Longrightarrow>
    held_at x ((k, c) # p) k' = (if k' = k then in_counts x c else 0) + held_at x p k'"
  by (simp add: held_at_def map_of_eq_None_iff [THEN iffD2])

lemma held_at_Nil [simp]: "held_at x [] k = 0"
  by (simp add: held_at_def)

lemma wrap64_add_wrap64 [simp]: "wrap64 (x + wrap64 y) = wrap64 (x + y)"
  using wrap64_wrap64_add [of y x] by (simp add: add.commute)

lemma wrap64_cong: "wrap64 x = wrap64 y \<Longrightarrow> wrap64 (x + z) = wrap64 (y + z)"
  by (metis wrap64_wrap64_add)

lemma wrap64_cong2: "wrap64 x = wrap64 y \<Longrightarrow> wrap64 (z + x) = wrap64 (z + y)"
  by (metis wrap64_add_wrap64)

lemma bump_held:
  assumes "whole (rec_pending r)" "a \<noteq> ''''"
    and "\<And>c. wrap64 (in_counts x (f c)) = wrap64 (in_counts x c + n)"
  shows "whole (rec_pending (bump now a f r))"
    and "wrap64 (held_at x (rec_pending (bump now a f r)) k) =
      wrap64 (held_at x (rec_pending r) k + (if k = (a, trunc_time minute now) then n else 0))"
proof -
  define c where "c = (case map_of (rec_pending r) (a, trunc_time minute now) of None \<Rightarrow> no_counts | Some c \<Rightarrow> c)"
  have p: "rec_pending (bump now a f r) = AList.update (a, trunc_time minute now) (f c) (rec_pending r)"
    using assms(2) by (simp add: bump_def Let_def c_def)
  have c: "in_counts x c = held_at x (rec_pending r) (a, trunc_time minute now)"
    by (simp add: c_def held_at_def split: option.split)
  show "whole (rec_pending (bump now a f r))" unfolding p by (rule whole_update [OF assms(1)]) simp
  show "wrap64 (held_at x (rec_pending (bump now a f r)) k) =
      wrap64 (held_at x (rec_pending r) k + (if k = (a, trunc_time minute now) then n else 0))"
    unfolding p held_at_update using c assms(3) by simp
qed

declare put_back.simps [simp del]

lemma put_back_held:
  assumes "whole p" "trunc_time minute (snd k) = snd k"
  shows "whole (put_back (k, c) p)"
    and "wrap64 (held_at x (put_back (k, c) p) k') = wrap64 (held_at x p k' + (if k' = k then in_counts x c else 0))"
proof -
  obtain d where d: "put_back (k, c) p = AList.update k d p" and
    s: "wrap64 (in_counts x d) = wrap64 (held_at x p k + in_counts x c)"
    by (cases "map_of p k"; cases x) (auto simp: held_at_def put_back.simps)
  show "whole (put_back (k, c) p)" unfolding d using whole_update [OF assms(1), of "snd k" "fst k" d] assms(2) by simp
  show "wrap64 (held_at x (put_back (k, c) p) k') = wrap64 (held_at x p k' + (if k' = k then in_counts x c else 0))"
    unfolding d held_at_update using s by simp
qed

lemma restore_held:
  "whole p \<Longrightarrow> whole q \<Longrightarrow> whole (fold put_back q p) \<and>
    (\<forall>k. wrap64 (held_at x (fold put_back q p) k) = wrap64 (held_at x p k + held_at x q k))"
proof (induction q arbitrary: p)
  case (Cons e q)
  obtain k c where e: "e = (k, c)" by fastforce
  have k: "trunc_time minute (snd k) = snd k" "k \<notin> fst ` set q" "whole q"
    using Cons.prems(2) by (auto simp: e whole_def)
  note step = put_back_held [OF Cons.prems(1) k(1), where c = c]
  have "wrap64 (held_at x (fold put_back q (put_back (k, c) p)) k') = wrap64 (held_at x p k' + held_at x (e # q) k')" for k'
  proof -
    have "wrap64 (held_at x (fold put_back q (put_back (k, c) p)) k') =
        wrap64 (held_at x (put_back (k, c) p) k' + held_at x q k')"
      by (rule spec [OF conjunct2 [OF Cons.IH [OF step(1) k(3)]]])
    also have "\<dots> = wrap64 (held_at x p k' + (if k' = k then in_counts x c else 0) + held_at x q k')"
      by (rule wrap64_cong [OF step(2)])
    finally show ?thesis by (simp add: e held_at_Cons [OF k(2)] add.assoc)
  qed
  then have "\<forall>k'. wrap64 (held_at x (fold put_back (e # q) p) k') = wrap64 (held_at x p k' + held_at x (e # q) k')"
    unfolding e fold_simps o_apply by (rule allI)
  moreover have "whole (fold put_back (e # q) p)" using conjunct1 [OF Cons.IH [OF step(1) k(3)]] by (simp add: e)
  ultimately show ?case by (rule conjI [rotated])
qed simp

lemma record_held:
  "whole p \<Longrightarrow> wrap64 (in_sample x (health_at (fold record_sample (samples_of p) h) k)) =
    wrap64 (in_sample x (health_at h k) + held_at x p k)"
proof (induction p arbitrary: h)
  case (Cons e p)
  obtain a b c where e: "e = ((a, b), c)" by (cases e) auto
  have b: "trunc_time minute b = b" "(a, b) \<notin> fst ` set p" "whole p" using Cons.prems by (auto simp: e whole_def)
  let ?s = "\<lparr>is_TenantID = a, is_Bucket = b, is_Received = cn_received c, is_Dropped = cn_dropped c,
    is_HandlerErrors = cn_handlerErrors c\<rparr>"
  have key: "health_key ?s = (a, b)" using b(1) by (simp add: health_key_def)
  have step: "wrap64 (in_sample x (health_at (record_sample ?s h) k)) =
      wrap64 (in_sample x (health_at h k) + (if k = (a, b) then in_counts x c else 0))"
    by (cases x) (simp_all add: health_at_record key)
  have "wrap64 (in_sample x (health_at (fold record_sample (samples_of (e # p)) h) k)) =
      wrap64 (in_sample x (health_at (record_sample ?s h) k) + held_at x p k)"
    using Cons.IH [OF b(3), of "record_sample ?s h"] by (simp add: samples_of_def e)
  also have "\<dots> = wrap64 (in_sample x (health_at h k) + (if k = (a, b) then in_counts x c else 0) + held_at x p k)"
    by (rule wrap64_cong [OF step])
  finally show ?case by (simp add: e held_at_Cons [OF b(2)] add.assoc)
qed (simp add: samples_of_def)

definition sound :: "recording \<Rightarrow> bool" where
  "sound g \<longleftrightarrow> whole (rec_pending (rg_recorder g)) \<and> whole (in_flight g)"

lemma whole_Nil: "whole []"
  by (simp add: whole_def)

lemma bump_whole: "whole (rec_pending r) \<Longrightarrow> whole (rec_pending (bump now a f r))"
  by (simp add: bump_def Let_def whole_update)

lemma noted_bump:
  assumes "whole (rec_pending (rg_recorder g))" "\<And>c. wrap64 (in_counts x (f c)) = wrap64 (in_counts x c + n)"
  shows "wrap64 (held x (g\<lparr>rg_recorder := bump now a f (rg_recorder g)\<rparr>) k) =
    wrap64 (held x g k + (if k = (a, trunc_time minute now) \<and> a \<noteq> '''' then n else 0))"
proof (cases "a = ''''")
  case False
  have "wrap64 (held_at x (rec_pending (bump now a f (rg_recorder g))) k) =
      wrap64 (held_at x (rec_pending (rg_recorder g)) k + (if k = (a, trunc_time minute now) then n else 0))"
    by (rule bump_held(2) [OF assms(1) False assms(2)])
  from wrap64_cong2 [OF this, of "in_sample x (health_at (m_health (rg_store g)) k) + held_at x (in_flight g) k"] False
  show ?thesis by (simp add: held_def in_flight_def add.assoc)
qed (simp add: bump_def held_def in_flight_def)

lemma exec_record_sound: "sound g \<Longrightarrow> sound (exec_record p g)"
  using restore_held [THEN conjunct1, of "rec_pending (rg_recorder g)" "in_flight g"]
  by (cases p) (auto simp: sound_def in_flight_def Recorder_Accepted_def Recorder_Dropped_def Recorder_BatchFailed_def
      bump_whole flush_take_def restore_def whole_Nil split: option.split)

lemma exec_record_held:
  assumes "sound g"
  shows "wrap64 (held x (exec_record p g) k) = wrap64 (held x g k + noted x k p)"
proof -
  note w = assms [unfolded sound_def]
  show ?thesis
  proof (cases p)
    case (Note_Accepted a now)
    with noted_bump [of g x "\<lambda>c. c\<lparr>cn_received := wrap64 (cn_received c + 1)\<rparr>" "if x = Received then 1 else 0" now a k] w
    show ?thesis by (cases x) (simp_all add: Recorder_Accepted_def)
  next
    case (Note_Dropped a now)
    with noted_bump [of g x "\<lambda>c. c\<lparr>cn_dropped := wrap64 (cn_dropped c + 1)\<rparr>" "if x = Dropped then 1 else 0" now a k] w
    show ?thesis by (cases x) (simp_all add: Recorder_Dropped_def)
  next
    case (Note_Failed a n now)
    with noted_bump [of g x "\<lambda>c. c\<lparr>cn_handlerErrors := wrap64 (cn_handlerErrors c + n)\<rparr>" "if x = HandlerErrors then n else 0" now a k] w
    show ?thesis by (cases x) (auto simp: Recorder_BatchFailed_def)
  next
    case Flush_Begin
    then show ?thesis by (auto simp: held_def in_flight_def flush_take_def split: option.split)
  next
    case Flush_Written
    with w record_held [of "in_flight g" x "m_health (rg_store g)" k] show ?thesis
      by (cases "rg_flight g") (auto simp: held_def in_flight_def RecordIngestHealth_def intro: wrap64_cong)
  next
    case Flush_Refused
    show ?thesis
    proof (cases "rg_flight g")
      case (Some q)
      have "wrap64 (held_at x (fold put_back q (rec_pending (rg_recorder g))) k) =
          wrap64 (held_at x (rec_pending (rg_recorder g)) k + held_at x q k)"
        using w Some by (intro spec [OF conjunct2 [OF restore_held]]) (simp_all add: in_flight_def)
      from wrap64_cong2 [OF this, of "in_sample x (health_at (m_health (rg_store g)) k)"] Flush_Refused Some show ?thesis
        by (simp add: held_def in_flight_def restore_def add.commute add.left_commute)
    qed (use Flush_Refused in simp)
  qed
qed

definition stored_sound :: "recording \<Rightarrow> bool" where
  "stored_sound g \<longleftrightarrow> distinct (map fst (m_health (rg_store g))) \<and>
    (\<forall>x k. int64 (in_sample x (health_at (m_health (rg_store g)) k)))"

lemma record_int64:
  "(\<And>k. int64 (in_sample x (health_at h k))) \<Longrightarrow> int64 (in_sample x (health_at (fold record_sample ss h) k))"
proof (induction ss arbitrary: h)
  case (Cons s ss)
  have "int64 (in_sample x (health_at (record_sample s h) k))" for k
    using Cons.prems by (cases x; simp add: health_at_record)
  with Cons.IH show ?case by simp
qed simp

lemma exec_record_stored: "stored_sound g \<Longrightarrow> stored_sound (exec_record p g)"
proof -
  assume s: "stored_sound g"
  have fine: "stored_sound (g\<lparr>rg_flight := None, rg_store := snd (RecordIngestHealth ss (rg_store g))\<rparr>)" for ss
    using s record_int64 [of _ "m_health (rg_store g)" ss]
    by (simp add: stored_sound_def RecordIngestHealth_def distinct_record del: split_paired_All)
  have same: "stored_sound g'" if "rg_store g' = rg_store g" for g' :: recording
    using s that by (simp add: stored_sound_def)
  show ?thesis
    by (cases p) (auto simp: flush_take_def intro: fine same split: option.split)
qed

definition recording_start :: "duration \<Rightarrow> memory \<Rightarrow> recording" where
  "recording_start every m = \<lparr>rg_recorder = NewRecorder every, rg_flight = None, rg_store = m\<rparr>"

definition noted_all :: "counter \<Rightarrow> string \<times> gotime \<Rightarrow> record_op list \<Rightarrow> int" where
  "noted_all x k ops = sum_list (map (noted x k) ops)"

lemma run_record:
  "sound g \<Longrightarrow> stored_sound g \<Longrightarrow> sound (fold exec_record ops g) \<and> stored_sound (fold exec_record ops g) \<and>
    wrap64 (held x (fold exec_record ops g) k) = wrap64 (held x g k + noted_all x k ops)"
proof (induction ops arbitrary: g)
  case (Cons p ops)
  have "wrap64 (held x (exec_record p g) k + noted_all x k ops) = wrap64 (held x g k + noted x k p + noted_all x k ops)"
    by (rule wrap64_cong [OF exec_record_held [OF Cons.prems(1)]])
  with Cons.IH [OF exec_record_sound [OF Cons.prems(1)] exec_record_stored [OF Cons.prems(2)]] show ?case
    by (simp add: noted_all_def add.assoc)
qed (simp add: noted_all_def)

text \<open>
  C33. No count is lost or doubled on its way to the store. Whatever the interleaving of events with
  flushes that are in flight, succeed or are refused, what the store holds for a tenant's minute, what
  a flush is carrying and what waits in memory add up to what was there plus what was noted. So once
  everything is flushed, a tenant with a dropped or failed event in a minute has an ingest gap over
  every window that contains the minute (the counters being far from the \<^verbatim>\<open>int64\<close> limit).
\<close>

theorem counts_reach_the_store:
  assumes "m_health m = []" "g = fold exec_record ops (recording_start every m)"
  shows "wrap64 (held x g (a, b)) = wrap64 (noted_all x (a, b) ops) \<and>
    (rg_flight g = None \<and> rec_pending (rg_recorder g) = [] \<and> x \<in> {Dropped, HandlerErrors} \<and>
      0 < noted_all x (a, b) ops \<and> noted_all x (a, b) ops < 2 ^ 63 \<and>
      trunc_time minute from \<le> b \<and> b \<le> trunc_time minute to \<longrightarrow> hasGapLocked (rg_store g) a from to)"
proof -
  let ?s = "recording_start every m" and ?k = "(a, b)"
  have "sound ?s" by (simp add: recording_start_def NewRecorder_def sound_def in_flight_def whole_Nil)
  moreover have "stored_sound ?s"
  proof -
    have "in_sample x (health_at [] k) = 0" for x k by (cases x) (simp_all add: health_at_def no_sample_def)
    then show ?thesis by (simp add: stored_sound_def recording_start_def assms(1) int64_def)
  qed
  ultimately have run: "stored_sound g" "wrap64 (held x g ?k) = wrap64 (held x ?s ?k + noted_all x ?k ops)"
    using run_record [of ?s ops x ?k] assms(2) by simp_all
  have "held x ?s ?k = 0"
    by (cases x) (simp_all add: held_def recording_start_def NewRecorder_def in_flight_def assms(1) health_at_def no_sample_def)
  with run(2) have sum: "wrap64 (held x g ?k) = wrap64 (noted_all x ?k ops)" by simp
  have "hasGapLocked (rg_store g) a from to"
    if h: "rg_flight g = None" "rec_pending (rg_recorder g) = []" "x \<in> {Dropped, HandlerErrors}"
      "0 < noted_all x ?k ops" "noted_all x ?k ops < 2 ^ 63" "trunc_time minute from \<le> b" "b \<le> trunc_time minute to"
  proof -
    have "int64 (noted_all x ?k ops)" using h(4,5) by (simp add: int64_def)
    moreover have "int64 (in_sample x (health_at (m_health (rg_store g)) ?k))" using run(1) by (simp add: stored_sound_def)
    ultimately have "in_sample x (health_at (m_health (rg_store g)) ?k) = noted_all x ?k ops"
      using sum h(1,2) by (simp add: held_def in_flight_def)
    with h(3,4) have "lost (health_at (m_health (rg_store g)) ?k)" by (auto simp: lost_def)
    with h(6,7) run(1) show ?thesis by (auto simp: hasGap_iff stored_sound_def)
  qed
  with sum show ?thesis by blast
qed

theorem counts_reach_the_store_witness:
  "let ops = [Note_Accepted ''t'' 5, Note_Dropped ''t'' 7, Flush_Begin, Note_Failed ''t'' 3 9, Flush_Refused,
       Note_Accepted ''u'' 8, Flush_Begin, Note_Dropped ''t'' 11, Flush_Written, Flush_Begin, Flush_Written];
     g = fold exec_record ops (recording_start 0 NewMemory)
   in rg_flight g = None \<and> rec_pending (rg_recorder g) = [] \<and> noted_all Dropped (''t'', 0) ops = 2 \<and>
     hasGapLocked (rg_store g) ''t'' 0 20"
proof -
  let ?ops = "[Note_Accepted ''t'' 5, Note_Dropped ''t'' 7, Flush_Begin, Note_Failed ''t'' 3 9, Flush_Refused,
       Note_Accepted ''u'' 8, Flush_Begin, Note_Dropped ''t'' 11, Flush_Written, Flush_Begin, Flush_Written]"
  define g where g: "g = fold exec_record ?ops (recording_start 0 NewMemory)"
  have flushed: "rg_flight g = None \<and> rec_pending (rg_recorder g) = []" unfolding g by code_simp
  have two: "noted_all Dropped (''t'', 0) ?ops = 2" by code_simp
  have "m_health NewMemory = []" by (simp add: NewMemory_def)
  from counts_reach_the_store [OF this g, of Dropped "''t''" 0 0 20] flushed two
  have "hasGapLocked (rg_store g) ''t'' 0 20" by (simp add: trunc_time_def)
  with flushed two show ?thesis unfolding Let_def g by blast
qed

end
