(* ===== verification/Pipeline.thy ===== *)
theory Pipeline
  imports Health_Recorder Go_Actions "HOL-Library.Word" "HOL-Library.Multiset"
begin

text \<open>
  The pipeline between the ingest handlers and the correlation engine
  (\<^verbatim>\<open>internal/pipeline/pipeline.go\<close>): a bounded queue, a pool of workers that batch what they
  take, and a handler called once per tenant of a batch. The program's goroutines are the
  step relation \<open>pstep\<close>: any producer, any worker, the closing and the cancelling of the context
  may go next. A worker's flush is one step, so the handler calls of two workers do not interleave
  here. The counters are \<open>64 word\<close>, as \<^verbatim>\<open>atomic.Uint64\<close> is. The handler, the observer and the order in
  which Go walks a map are parameters.
\<close>

section \<open>Configuration and state\<close>

definition ErrBackpressure :: goerror where "ErrBackpressure = ErrMessage ''pipeline: at capacity''"
definition ErrClosed :: goerror where "ErrClosed = ErrMessage ''pipeline: closed''"

definition DefaultBufferSize :: int where "DefaultBufferSize = 10000"
definition DefaultBatchSize :: int where "DefaultBatchSize = 100"
definition PipelineFlushInterval :: duration where "PipelineFlushInterval = 200 * 1000000"

type_synonym 'h handler = "string \<Rightarrow> Event list \<Rightarrow> ('h, unit) action"

record 'o observer =
  ob_Accepted :: "string \<Rightarrow> 'o \<Rightarrow> 'o"
  ob_Dropped :: "string \<Rightarrow> 'o \<Rightarrow> 'o"
  ob_BatchFailed :: "string \<Rightarrow> int \<Rightarrow> 'o \<Rightarrow> 'o"

record PipelineConfig =
  pc_BufferSize :: int
  pc_Workers :: int
  pc_BatchSize :: int
  pc_FlushInterval :: duration

text \<open>\<open>procs\<close> is \<^verbatim>\<open>runtime.GOMAXPROCS(0)\<close>.\<close>

definition setDefaults :: "int \<Rightarrow> PipelineConfig \<Rightarrow> PipelineConfig" where
  "setDefaults procs c =
    \<lparr>pc_BufferSize = (if pc_BufferSize c \<le> 0 then DefaultBufferSize else pc_BufferSize c),
     pc_Workers = (if pc_Workers c \<le> 0 then procs * 4 else pc_Workers c),
     pc_BatchSize = (if pc_BatchSize c \<le> 0 then DefaultBatchSize else pc_BatchSize c),
     pc_FlushInterval = (if pc_FlushInterval c \<le> 0 then PipelineFlushInterval else pc_FlushInterval c)\<rparr>"

text \<open>A worker is a goroutine with the batch it holds, until it returns.\<close>

datatype worker = Running (batch_of: "Event list") | Stopped
where "batch_of Stopped = []"

text \<open>The handler's and the observer's own states are part of the state.\<close>

record ('h, 'o) pipeline =
  pl_cfg :: PipelineConfig
  pl_ingest :: "Event list"
  pl_closed :: bool
  pl_cancelled :: bool
  pl_started :: bool
  pl_workers :: "worker list"
  pl_received :: "64 word"
  pl_dropped :: "64 word"
  pl_flushed :: "64 word"
  pl_batches :: "64 word"
  pl_handlerErrors :: "64 word"
  pl_handler :: 'h
  pl_observer :: 'o

definition NewPipeline :: "int \<Rightarrow> PipelineConfig \<Rightarrow> 'h \<Rightarrow> 'o \<Rightarrow> ('h, 'o) pipeline" where
  "NewPipeline procs cfg h ob =
    \<lparr>pl_cfg = setDefaults procs cfg, pl_ingest = [], pl_closed = False, pl_cancelled = False, pl_started = False,
     pl_workers = [], pl_received = 0, pl_dropped = 0, pl_flushed = 0, pl_batches = 0, pl_handlerErrors = 0,
     pl_handler = h, pl_observer = ob\<rparr>"

definition Start :: "('h, 'o) pipeline \<Rightarrow> ('h, 'o) pipeline" where
  "Start p = (if pl_started p then p
    else p\<lparr>pl_started := True, pl_workers := replicate (nat (pc_Workers (pl_cfg p))) (Running [])\<rparr>)"

record pipeline_stats =
  ps_Received :: "64 word"
  ps_Dropped :: "64 word"
  ps_Flushed :: "64 word"
  ps_Batches :: "64 word"
  ps_HandlerErrors :: "64 word"
  ps_QueueDepth :: int

definition Stats :: "('h, 'o) pipeline \<Rightarrow> pipeline_stats" where
  "Stats p = \<lparr>ps_Received = pl_received p, ps_Dropped = pl_dropped p, ps_Flushed = pl_flushed p,
    ps_Batches = pl_batches p, ps_HandlerErrors = pl_handlerErrors p, ps_QueueDepth = int (length (pl_ingest p))\<rparr>"

section \<open>Producers\<close>

text \<open>An observer may be nil.\<close>

definition observe :: "('o observer \<Rightarrow> 'o \<Rightarrow> 'o) \<Rightarrow> 'o observer option \<Rightarrow> ('h, 'o) pipeline \<Rightarrow> ('h, 'o) pipeline" where
  "observe f ob p = (case ob of None \<Rightarrow> p | Some obs \<Rightarrow> p\<lparr>pl_observer := f obs (pl_observer p)\<rparr>)"

definition Submit :: "'o observer option \<Rightarrow> Event \<Rightarrow> ('h, 'o) pipeline \<Rightarrow> goerror option \<times> ('h, 'o) pipeline" where
  "Submit ob ev p =
    (if pl_closed p then (Some ErrClosed, p)
     else if int (length (pl_ingest p)) < pc_BufferSize (pl_cfg p)
     then (None, observe (\<lambda>obs. ob_Accepted obs (Event_TenantID ev)) ob
            (p\<lparr>pl_ingest := pl_ingest p @ [ev], pl_received := pl_received p + 1\<rparr>))
     else (Some ErrBackpressure, observe (\<lambda>obs. ob_Dropped obs (Event_TenantID ev)) ob
            (p\<lparr>pl_dropped := pl_dropped p + 1\<rparr>)))"

text \<open>\<^verbatim>\<open>Close\<close> up to its wait for the workers.\<close>

definition Close :: "('h, 'o) pipeline \<Rightarrow> ('h, 'o) pipeline" where
  "Close p = (if pl_closed p then p else p\<lparr>pl_closed := True\<rparr>)"

section \<open>Flushing a batch\<close>

definition by_tenant :: "Event list \<Rightarrow> (string \<times> Event list) list" where
  "by_tenant batch =
    fold (\<lambda>ev m. AList.update (Event_TenantID ev) (inner m (Event_TenantID ev) @ [ev]) m) batch []"

fun flush_groups :: "'h handler \<Rightarrow> 'o observer option \<Rightarrow> (string \<times> Event list) list \<Rightarrow> ('h, 'o) pipeline \<Rightarrow>
    ('h, 'o) pipeline" where
  "flush_groups H ob [] p = p"
| "flush_groups H ob ((tenantID, events) # groups) p =
    (let p = p\<lparr>pl_batches := pl_batches p + 1\<rparr>;
         (r, h) = H tenantID events (pl_handler p);
         p = p\<lparr>pl_handler := h\<rparr>
     in flush_groups H ob groups
          (case r of
             Inl err \<Rightarrow> observe (\<lambda>obs. ob_BatchFailed obs tenantID (int (length events))) ob
               (p\<lparr>pl_handlerErrors := pl_handlerErrors p + 1\<rparr>)
           | Inr _ \<Rightarrow> p\<lparr>pl_flushed := pl_flushed p + of_nat (length events)\<rparr>))"

text \<open>\<open>order\<close> is the order in which the map of groups is walked.\<close>

definition flush :: "'h handler \<Rightarrow> 'o observer option \<Rightarrow> string list \<Rightarrow> Event list \<Rightarrow> ('h, 'o) pipeline \<Rightarrow>
    ('h, 'o) pipeline" where
  "flush H ob order batch p =
    (if length batch = 0 then p
     else flush_groups H ob (map (\<lambda>a. (a, inner (by_tenant batch) a)) order) p)"

section \<open>One turn of a worker\<close>

definition set_worker :: "nat \<Rightarrow> worker \<Rightarrow> ('h, 'o) pipeline \<Rightarrow> ('h, 'o) pipeline" where
  "set_worker i w p = p\<lparr>pl_workers := (pl_workers p)[i := w]\<rparr>"

text \<open>The three cases of the worker's \<^verbatim>\<open>select\<close>: the channel, the ticker, the context.\<close>

definition take_event :: "'h handler \<Rightarrow> 'o observer option \<Rightarrow> string list \<Rightarrow> nat \<Rightarrow> Event list \<Rightarrow> ('h, 'o) pipeline \<Rightarrow>
    ('h, 'o) pipeline" where
  "take_event H ob order i batch p =
    (case pl_ingest p of
       [] \<Rightarrow> set_worker i Stopped (flush H ob order batch p)
     | ev # rest \<Rightarrow>
         let p = p\<lparr>pl_ingest := rest\<rparr>; batch = batch @ [ev]
         in if int (length batch) \<ge> pc_BatchSize (pl_cfg p)
            then set_worker i (Running []) (flush H ob order batch p)
            else set_worker i (Running batch) p)"

definition tick :: "'h handler \<Rightarrow> 'o observer option \<Rightarrow> string list \<Rightarrow> nat \<Rightarrow> Event list \<Rightarrow> ('h, 'o) pipeline \<Rightarrow>
    ('h, 'o) pipeline" where
  "tick H ob order i batch p =
    (if length batch > 0 then set_worker i (Running []) (flush H ob order batch p) else p)"

definition cancelled :: "'h handler \<Rightarrow> 'o observer option \<Rightarrow> string list \<Rightarrow> nat \<Rightarrow> Event list \<Rightarrow> ('h, 'o) pipeline \<Rightarrow>
    ('h, 'o) pipeline" where
  "cancelled H ob order i batch p = set_worker i Stopped (flush H ob order batch p)"

section \<open>The interleaving\<close>

datatype label = Submitted Event "goerror option" gotime | Worked gotime | Environment

definition running :: "nat \<Rightarrow> Event list \<Rightarrow> ('h, 'o) pipeline \<Rightarrow> bool" where
  "running i batch p \<longleftrightarrow> i < length (pl_workers p) \<and> pl_workers p ! i = Running batch"

text \<open>A walk over the groups of a batch visits each tenant once. A tick that finds nothing to flush
  changes nothing and is not a step.\<close>

definition walks :: "string list \<Rightarrow> Event list \<Rightarrow> bool" where
  "walks order batch \<longleftrightarrow> mset order = mset (map fst (by_tenant batch))"

inductive pstep :: "'h handler \<Rightarrow> (gotime \<Rightarrow> 'o observer option) \<Rightarrow> ('h, 'o) pipeline \<Rightarrow> label \<Rightarrow> ('h, 'o) pipeline \<Rightarrow> bool"
  for H ob where
  submit: "Submit (ob now) ev p = (r, p') \<Longrightarrow> pstep H ob p (Submitted ev r now) p'"
| close: "pstep H ob p Environment (Close p)"
| cancel: "pstep H ob p Environment (p\<lparr>pl_cancelled := True\<rparr>)"
| receive: "running i batch p \<Longrightarrow> pl_ingest p = ev # rest \<Longrightarrow> walks order (batch @ [ev]) \<Longrightarrow>
    pstep H ob p (Worked now) (take_event H (ob now) order i batch p)"
| drained: "running i batch p \<Longrightarrow> pl_ingest p = [] \<Longrightarrow> pl_closed p \<Longrightarrow> walks order batch \<Longrightarrow>
    pstep H ob p (Worked now) (take_event H (ob now) order i batch p)"
| ticked: "running i batch p \<Longrightarrow> batch \<noteq> [] \<Longrightarrow> walks order batch \<Longrightarrow>
    pstep H ob p (Worked now) (tick H (ob now) order i batch p)"
| stop: "running i batch p \<Longrightarrow> pl_cancelled p \<Longrightarrow> walks order batch \<Longrightarrow>
    pstep H ob p (Worked now) (cancelled H (ob now) order i batch p)"

inductive prun :: "'h handler \<Rightarrow> (gotime \<Rightarrow> 'o observer option) \<Rightarrow> ('h, 'o) pipeline \<Rightarrow> label list \<Rightarrow> ('h, 'o) pipeline \<Rightarrow> bool"
  for H ob where
  none: "prun H ob p [] p"
| more: "prun H ob p ls p' \<Longrightarrow> pstep H ob p' l p'' \<Longrightarrow> prun H ob p (ls @ [l]) p''"

section \<open>What a batch is split into\<close>

lemma inner_by_tenant: "inner (by_tenant batch) a = filter (\<lambda>ev. Event_TenantID ev = a) batch"
proof -
  have "inner (fold (\<lambda>ev m. AList.update (Event_TenantID ev) (inner m (Event_TenantID ev) @ [ev]) m) batch m) a =
      inner m a @ filter (\<lambda>ev. Event_TenantID ev = a) batch" for m
    by (induction batch arbitrary: m) auto
  then show ?thesis by (simp add: by_tenant_def)
qed

lemma keys_by_tenant: "distinct (map fst (by_tenant batch)) \<and> fst ` set (by_tenant batch) = Event_TenantID ` set batch"
proof -
  let ?f = "\<lambda>ev m. AList.update (Event_TenantID ev) (inner m (Event_TenantID ev) @ [ev]) m"
  have "distinct (map fst m) \<Longrightarrow> distinct (map fst (fold ?f batch m)) \<and>
      fst ` set (fold ?f batch m) = fst ` set m \<union> Event_TenantID ` set batch" for m
  proof (induction batch arbitrary: m)
    case (Cons ev batch)
    have "distinct (map fst (?f ev m))" using Cons.prems by (rule distinct_update)
    moreover have "fst ` set (?f ev m) = insert (Event_TenantID ev) (fst ` set m)"
      using Cons.prems by (auto simp: set_update_distinct image_iff)
    ultimately show ?case using Cons.IH [of "?f ev m"] by simp
  qed simp
  from this [of "[]"] show ?thesis by (simp add: by_tenant_def)
qed

lemma walks_iff: "walks order batch \<longleftrightarrow> distinct order \<and> set order = Event_TenantID ` set batch"
  using keys_by_tenant [of batch] unfolding walks_def
  by (metis mset_eq_imp_distinct_iff mset_eq_setD set_eq_iff_mset_eq_distinct set_map)

definition groups_of :: "string list \<Rightarrow> Event list \<Rightarrow> (string \<times> Event list) list" where
  "groups_of order batch = map (\<lambda>a. (a, inner (by_tenant batch) a)) order"

lemma groups_walk:
  assumes "walks order batch"
  shows "(\<Sum>(a, evs)\<leftarrow>groups_of order batch. mset evs) = mset batch"
    and "\<forall>(a, evs)\<in>set (groups_of order batch). evs \<noteq> [] \<and> length evs \<le> length batch \<and> (\<forall>ev\<in>set evs. Event_TenantID ev = a)"
proof -
  have "distinct order \<Longrightarrow> set order = Event_TenantID ` set batch \<Longrightarrow>
      (\<Sum>a\<leftarrow>order. mset (filter (\<lambda>ev. Event_TenantID ev = a) batch)) = mset batch" for batch
  proof (induction order arbitrary: batch)
    case (Cons a order)
    let ?rest = "filter (\<lambda>ev. Event_TenantID ev \<noteq> a) batch"
    have rest: "set order = Event_TenantID ` set ?rest" using Cons.prems by auto
    have "filter (\<lambda>ev. Event_TenantID ev = b) ?rest = filter (\<lambda>ev. Event_TenantID ev = b) batch"
      if "b \<in> set order" for b using that Cons.prems(1) by (auto intro!: filter_cong)
    then have same: "map (\<lambda>b. mset (filter (\<lambda>ev. Event_TenantID ev = b) ?rest)) order =
        map (\<lambda>b. mset (filter (\<lambda>ev. Event_TenantID ev = b) batch)) order"
      by (intro map_cong refl arg_cong [where f = mset])
    have "(\<Sum>b\<leftarrow>order. mset (filter (\<lambda>ev. Event_TenantID ev = b) ?rest)) = mset ?rest"
      using Cons.prems(1) by (intro Cons.IH rest) simp
    then have "(\<Sum>b\<leftarrow>order. mset (filter (\<lambda>ev. Event_TenantID ev = b) batch)) = mset ?rest"
      unfolding same .
    then show ?case by (simp flip: mset_filter) (simp add: multiset_partition [symmetric])
  qed simp
  with assms show "(\<Sum>(a, evs)\<leftarrow>groups_of order batch. mset evs) = mset batch"
    by (simp add: walks_iff groups_of_def inner_by_tenant comp_def)
  show "\<forall>(a, evs)\<in>set (groups_of order batch). evs \<noteq> [] \<and> length evs \<le> length batch \<and> (\<forall>ev\<in>set evs. Event_TenantID ev = a)"
    using assms by (auto simp: walks_iff groups_of_def inner_by_tenant filter_empty_conv)
qed

end
