(* ===== verification/Pipeline_Accounts.thy ===== *)
theory Pipeline_Accounts
  imports Pipeline
begin

text \<open>
  What the pipeline owes its callers: every accepted event is in the queue, in a worker's hands,
  or has been handed over with its own tenant's events only, the counters and what the observer
  was told agree with that, and closing drains everything in a bounded number of steps. The
  third property is a flaw: when the context the workers run under is cancelled, as the program
  does on a shutdown signal, the workers leave and what is queued is lost without a trace.
\<close>

section \<open>A handler that keeps a log, an observer that keeps what it is told\<close>

type_synonym hand_log = "(string \<times> Event list \<times> bool) list"

definition logged :: "'h handler \<Rightarrow> ('h \<times> hand_log) handler" where
  "logged H a evs s = (case H a evs (fst s) of
      (Inl e, h) \<Rightarrow> (Inl e, (h, snd s @ [(a, evs, False)]))
    | (Inr u, h) \<Rightarrow> (Inr u, (h, snd s @ [(a, evs, True)])))"

definition telling :: "gotime \<Rightarrow> record_op list observer option" where
  "telling now = Some \<lparr>ob_Accepted = (\<lambda>a told. told @ [Note_Accepted a now]),
    ob_Dropped = (\<lambda>a told. told @ [Note_Dropped a now]),
    ob_BatchFailed = (\<lambda>a n told. told @ [Note_Failed a n now])\<rparr>"

type_synonym 'h audited = "('h \<times> hand_log, record_op list) pipeline"

section \<open>What was handed over\<close>

definition handed :: "hand_log \<Rightarrow> Event multiset" where
  "handed log = (\<Sum>(a, evs, ok)\<leftarrow>log. mset evs)"

definition failed_groups :: "hand_log \<Rightarrow> hand_log" where
  "failed_groups log = filter (\<lambda>(a, evs, ok). \<not> ok) log"

definition flushed_events :: "hand_log \<Rightarrow> nat" where
  "flushed_events log = sum_list (map (\<lambda>(a, evs, ok). if ok then length evs else 0) log)"

definition failed_events :: "string \<Rightarrow> hand_log \<Rightarrow> int" where
  "failed_events t log = sum_list (map (\<lambda>(a, evs, ok). if \<not> ok \<and> a = t then int (length evs) else 0) log)"

definition own_tenant :: "int \<Rightarrow> hand_log \<Rightarrow> bool" where
  "own_tenant n log \<longleftrightarrow> list_all (\<lambda>(a, evs, ok). evs \<noteq> [] \<and> int (length evs) \<le> n \<and>
    list_all (\<lambda>ev. Event_TenantID ev = a) evs) log"

lemmas log_defs = handed_def failed_groups_def flushed_events_def failed_events_def own_tenant_def

lemma log_append [simp]:
  "handed (l @ l') = handed l + handed l'" "failed_groups (l @ l') = failed_groups l @ failed_groups l'"
  "flushed_events (l @ l') = flushed_events l + flushed_events l'"
  "failed_events t (l @ l') = failed_events t l + failed_events t l'"
  "own_tenant n (l @ l') \<longleftrightarrow> own_tenant n l \<and> own_tenant n l'"
  by (simp_all add: log_defs)

lemma log_Nil [simp]:
  "handed [] = {#}" "failed_groups [] = []" "flushed_events [] = 0" "failed_events t [] = 0" "own_tenant n []"
  by (simp_all add: log_defs)

text \<open>What the observer was told about one tenant.\<close>

definition told_accepted :: "string \<Rightarrow> record_op list \<Rightarrow> int" where
  "told_accepted t told = sum_list (map (\<lambda>n. case n of Note_Accepted a _ \<Rightarrow> if a = t then 1 else 0 | _ \<Rightarrow> 0) told)"

definition told_dropped :: "string \<Rightarrow> record_op list \<Rightarrow> int" where
  "told_dropped t told = sum_list (map (\<lambda>n. case n of Note_Dropped a _ \<Rightarrow> if a = t then 1 else 0 | _ \<Rightarrow> 0) told)"

definition told_failed :: "string \<Rightarrow> record_op list \<Rightarrow> int" where
  "told_failed t told = sum_list (map (\<lambda>n. case n of Note_Failed a k _ \<Rightarrow> if a = t then k else 0 | _ \<Rightarrow> 0) told)"

lemmas told_defs = told_accepted_def told_dropped_def told_failed_def

definition told_by :: "gotime \<Rightarrow> hand_log \<Rightarrow> record_op list" where
  "told_by now log = map (\<lambda>(a, evs, ok). Note_Failed a (int (length evs)) now) (failed_groups log)"

lemma told_append [simp]:
  "told_accepted t (l @ l') = told_accepted t l + told_accepted t l'"
  "told_dropped t (l @ l') = told_dropped t l + told_dropped t l'"
  "told_failed t (l @ l') = told_failed t l + told_failed t l'"
  by (simp_all add: told_defs)

lemma told_told_by [simp]:
  "told_accepted t (told_by now log) = 0" "told_dropped t (told_by now log) = 0"
  "told_failed t (told_by now log) = failed_events t log"
  by (induction log) (auto simp: told_defs told_by_def log_defs)

section \<open>A flush\<close>

text \<open>\<open>p'\<close> is \<open>p\<close> after the groups \<open>new\<close> have been handed over.\<close>

definition extends :: "gotime \<Rightarrow> hand_log \<Rightarrow> 'h audited \<Rightarrow> 'h audited \<Rightarrow> bool" where
  "extends now new p p' \<longleftrightarrow> pl_cfg p' = pl_cfg p \<and> pl_ingest p' = pl_ingest p \<and> pl_closed p' = pl_closed p \<and>
    pl_cancelled p' = pl_cancelled p \<and> pl_workers p' = pl_workers p \<and> pl_received p' = pl_received p \<and>
    pl_dropped p' = pl_dropped p \<and> pl_flushed p' = pl_flushed p + of_nat (flushed_events new) \<and>
    pl_batches p' = pl_batches p + of_nat (length new) \<and>
    pl_handlerErrors p' = pl_handlerErrors p + of_nat (length (failed_groups new)) \<and>
    snd (pl_handler p') = snd (pl_handler p) @ new \<and> pl_observer p' = pl_observer p @ told_by now new"

lemma told_by_append [simp]: "told_by now (l @ l') = told_by now l @ told_by now l'"
  by (simp add: told_by_def)

lemma extends_refl: "extends now [] p p"
  by (simp add: extends_def told_by_def)

lemma extends_trans: "extends now new p q \<Longrightarrow> extends now new' q r \<Longrightarrow> extends now (new @ new') p r"
  by (simp add: extends_def)

lemma flush_group_step:
  "\<exists>ok q. flush_groups (logged H) (telling now) ((a, evs) # gs) p = flush_groups (logged H) (telling now) gs q \<and>
    extends now [(a, evs, ok)] p q"
proof (cases "H a evs (fst (pl_handler p))")
  case (Pair r h)
  then show ?thesis
    by (cases r; intro exI [of _ "\<not> isl r"] exI conjI)
      (simp add: logged_def Let_def, (simp add: extends_def observe_def telling_def told_by_def log_defs)+)+
qed

lemma flush_groups_log:
  "list_all (\<lambda>(a, evs). evs \<noteq> [] \<and> int (length evs) \<le> n \<and> list_all (\<lambda>ev. Event_TenantID ev = a) evs) gs \<Longrightarrow>
    \<exists>new. extends now new p (flush_groups (logged H) (telling now) gs p) \<and>
      handed new = (\<Sum>(a, evs)\<leftarrow>gs. mset evs) \<and> own_tenant n new"
proof (induction gs arbitrary: p)
  case Nil
  have "extends now [] p (flush_groups (logged H) (telling now) [] p)" by (simp add: extends_refl)
  then show ?case by (intro exI [of _ "[]"]) simp
next
  case (Cons g gs)
  obtain a evs where g: "g = (a, evs)" by fastforce
  obtain ok q where q: "flush_groups (logged H) (telling now) (g # gs) p = flush_groups (logged H) (telling now) gs q"
    "extends now [(a, evs, ok)] p q" using flush_group_step [of H now a evs gs p] g by blast
  have "list_all (\<lambda>(a, evs). evs \<noteq> [] \<and> int (length evs) \<le> n \<and> list_all (\<lambda>ev. Event_TenantID ev = a) evs) gs"
    using Cons.prems by simp
  from Cons.IH [OF this, of q] obtain new where new:
    "extends now new q (flush_groups (logged H) (telling now) gs q)"
    "handed new = (\<Sum>(a, evs)\<leftarrow>gs. mset evs)" "own_tenant n new" by blast
  have "handed ([(a, evs, ok)] @ new) = (\<Sum>(a, evs)\<leftarrow>g # gs. mset evs)" using new(2) by (simp add: handed_def g)
  moreover have "own_tenant n ([(a, evs, ok)] @ new)" using new(3) Cons.prems by (simp add: own_tenant_def g)
  ultimately show ?case unfolding q(1) using extends_trans [OF q(2) new(1)] by blast
qed

lemma flush_log:
  assumes "walks order batch" "int (length batch) \<le> n"
  shows "\<exists>new. extends now new p (flush (logged H) (telling now) order batch p) \<and> handed new = mset batch \<and> own_tenant n new"
proof (cases "batch = []")
  case True
  have "extends now [] p (flush (logged H) (telling now) order batch p)" by (simp add: flush_def True extends_refl)
  then show ?thesis by (intro exI [of _ "[]"]) (simp add: True)
next
  case False
  have "list_all (\<lambda>(a, evs). evs \<noteq> [] \<and> int (length evs) \<le> n \<and> list_all (\<lambda>ev. Event_TenantID ev = a) evs)
      (groups_of order batch)"
    using groups_walk(2) [OF assms(1)] assms(2) by (fastforce simp: list_all_iff)
  from flush_groups_log [OF this, of now p H] groups_walk(1) [OF assms(1)] False show ?thesis
    by (simp add: flush_def groups_of_def)
qed

lemma flush_groups_fields:
  "pl_cfg (flush_groups H ob gs p) = pl_cfg p \<and> pl_ingest (flush_groups H ob gs p) = pl_ingest p \<and>
    pl_closed (flush_groups H ob gs p) = pl_closed p \<and> pl_cancelled (flush_groups H ob gs p) = pl_cancelled p \<and>
    pl_workers (flush_groups H ob gs p) = pl_workers p"
proof (induction gs arbitrary: p)
  case (Cons g gs)
  obtain a evs where g: "g = (a, evs)" by fastforce
  obtain r h where H: "H a evs (pl_handler p) = (r, h)" by fastforce
  have o: "pl_cfg (observe f ob q) = pl_cfg q \<and> pl_ingest (observe f ob q) = pl_ingest q \<and>
    pl_closed (observe f ob q) = pl_closed q \<and> pl_cancelled (observe f ob q) = pl_cancelled q \<and>
    pl_workers (observe f ob q) = pl_workers q" for f q
    by (cases ob) (simp_all add: observe_def)
  show ?case by (cases r) (simp_all add: g H Let_def Cons.IH o)
qed simp

lemma flush_fields:
  "pl_cfg (flush H ob order batch p) = pl_cfg p" "pl_ingest (flush H ob order batch p) = pl_ingest p"
  "pl_closed (flush H ob order batch p) = pl_closed p" "pl_cancelled (flush H ob order batch p) = pl_cancelled p"
  "pl_workers (flush H ob order batch p) = pl_workers p"
  using flush_groups_fields by (auto simp: flush_def)

lemma Submit_fields:
  "Submit ob ev p = (r, p') \<Longrightarrow> pl_cfg p' = pl_cfg p \<and> pl_closed p' = pl_closed p \<and> pl_cancelled p' = pl_cancelled p \<and>
    pl_workers p' = pl_workers p \<and> (pl_closed p \<longrightarrow> pl_ingest p' = pl_ingest p)"
proof -
  have "pl_cfg (snd (Submit ob ev p)) = pl_cfg p \<and> pl_closed (snd (Submit ob ev p)) = pl_closed p \<and>
    pl_cancelled (snd (Submit ob ev p)) = pl_cancelled p \<and> pl_workers (snd (Submit ob ev p)) = pl_workers p \<and>
    (pl_closed p \<longrightarrow> pl_ingest (snd (Submit ob ev p)) = pl_ingest p)"
    by (cases ob) (simp_all add: Submit_def observe_def)
  then show "Submit ob ev p = (r, p') \<Longrightarrow> ?thesis" by simp
qed

lemma step_cfg: "pstep H ob p l p' \<Longrightarrow> pl_cfg p' = pl_cfg p"
proof (induction rule: pstep.induct)
  case (submit now ev p r p')
  then show ?case by (simp add: Submit_fields)
qed (simp_all add: Close_def take_event_def tick_def cancelled_def set_worker_def flush_fields Let_def split: list.split)

lemma run_cfg: "prun H ob p ls p' \<Longrightarrow> pl_cfg p' = pl_cfg p"
  by (induction rule: prun.induct) (auto dest: step_cfg)

lemma step_workers: "pstep H ob p l p' \<Longrightarrow> length (pl_workers p') = length (pl_workers p)"
proof (induction rule: pstep.induct)
  case (submit now ev p r p')
  then show ?case by (simp add: Submit_fields)
qed (simp_all add: Close_def take_event_def tick_def cancelled_def set_worker_def flush_fields Let_def split: list.split)

lemma run_workers: "prun H ob p ls p' \<Longrightarrow> length (pl_workers p') = length (pl_workers p)"
  by (induction rule: prun.induct) (auto dest: step_workers)

section \<open>The books balance\<close>

definition accepted :: "label list \<Rightarrow> Event list" where
  "accepted ls = concat (map (\<lambda>l. case l of Submitted ev None _ \<Rightarrow> [ev] | _ \<Rightarrow> []) ls)"

definition refused :: "label list \<Rightarrow> Event list" where
  "refused ls = concat (map (\<lambda>l. case l of
    Submitted ev (Some e) _ \<Rightarrow> if e = ErrBackpressure then [ev] else [] | _ \<Rightarrow> []) ls)"

definition held_batches :: "worker list \<Rightarrow> Event multiset" where
  "held_batches ws = (\<Sum>w\<leftarrow>ws. mset (batch_of w))"

definition of_tenant :: "string \<Rightarrow> Event list \<Rightarrow> int" where
  "of_tenant t evs = int (length (filter (\<lambda>ev. Event_TenantID ev = t) evs))"

definition balanced :: "'h audited \<Rightarrow> label list \<Rightarrow> bool" where
  "balanced p ls \<longleftrightarrow>
    mset (accepted ls) = mset (pl_ingest p) + held_batches (pl_workers p) + handed (snd (pl_handler p))"

definition counted :: "'h audited \<Rightarrow> label list \<Rightarrow> bool" where
  "counted p ls \<longleftrightarrow> pl_received p = of_nat (length (accepted ls)) \<and> pl_dropped p = of_nat (length (refused ls)) \<and>
    pl_flushed p = of_nat (flushed_events (snd (pl_handler p))) \<and>
    pl_batches p = of_nat (length (snd (pl_handler p))) \<and>
    pl_handlerErrors p = of_nat (length (failed_groups (snd (pl_handler p))))"

definition told_all :: "'h audited \<Rightarrow> label list \<Rightarrow> bool" where
  "told_all p ls \<longleftrightarrow> (\<forall>t. told_accepted t (pl_observer p) = of_tenant t (accepted ls) \<and>
    told_dropped t (pl_observer p) = of_tenant t (refused ls) \<and>
    told_failed t (pl_observer p) = failed_events t (snd (pl_handler p)))"

definition bounded :: "'h audited \<Rightarrow> bool" where
  "bounded p \<longleftrightarrow> 0 < pc_BatchSize (pl_cfg p) \<and> int (length (pl_ingest p)) \<le> pc_BufferSize (pl_cfg p) \<and>
    (\<forall>w\<in>set (pl_workers p). int (length (batch_of w)) < pc_BatchSize (pl_cfg p)) \<and>
    own_tenant (pc_BatchSize (pl_cfg p)) (snd (pl_handler p))"

definition accounts :: "'h audited \<Rightarrow> label list \<Rightarrow> bool" where
  "accounts p ls \<longleftrightarrow> balanced p ls \<and> counted p ls \<and> told_all p ls \<and> bounded p"

lemma label_lists [simp]:
  "accepted (ls @ [Worked now]) = accepted ls" "refused (ls @ [Worked now]) = refused ls"
  "accepted (ls @ [Environment]) = accepted ls" "refused (ls @ [Environment]) = refused ls"
  "accepted (ls @ [Submitted ev None now]) = accepted ls @ [ev]" "refused (ls @ [Submitted ev None now]) = refused ls"
  "accepted (ls @ [Submitted ev (Some e) now]) = accepted ls"
  "refused (ls @ [Submitted ev (Some e) now]) = refused ls @ (if e = ErrBackpressure then [ev] else [])"
  "accepted [] = []" "refused [] = []"
  by (simp_all add: accepted_def refused_def)

lemma held_update:
  assumes "i < length ws" "ws ! i = w"
  shows "held_batches (ws[i := w']) + mset (batch_of w) = held_batches ws + mset (batch_of w')"
  using assms
proof (induction ws arbitrary: i)
  case (Cons v ws)
  then show ?case by (cases i) (auto simp: held_batches_def add.commute add.left_commute)
qed simp

lemma set_worker_fields [simp]:
  "pl_cfg (set_worker i w p) = pl_cfg p" "pl_ingest (set_worker i w p) = pl_ingest p"
  "pl_workers (set_worker i w p) = (pl_workers p)[i := w]" "pl_handler (set_worker i w p) = pl_handler p"
  "pl_observer (set_worker i w p) = pl_observer p" "pl_received (set_worker i w p) = pl_received p"
  "pl_dropped (set_worker i w p) = pl_dropped p" "pl_flushed (set_worker i w p) = pl_flushed p"
  "pl_batches (set_worker i w p) = pl_batches p" "pl_handlerErrors (set_worker i w p) = pl_handlerErrors p"
  "pl_closed (set_worker i w p) = pl_closed p" "pl_cancelled (set_worker i w p) = pl_cancelled p"
  by (simp_all add: set_worker_def)

text \<open>A worker hands over its batch, perhaps with the event it just took, and goes on with nothing.\<close>

lemma accounts_flush:
  assumes acc: "accounts p ls" and run: "running i batch p" and q: "q = p\<lparr>pl_ingest := rest\<rparr>"
    and taken: "pl_ingest p = taken @ rest" and w: "walks order (batch @ taken)" "batch_of w = []"
    and size: "int (length (batch @ taken)) \<le> pc_BatchSize (pl_cfg p)"
  shows "accounts (set_worker i w (flush (logged H) (telling now) order (batch @ taken) q)) (ls @ [Worked now])"
proof -
  let ?q' = "flush (logged H) (telling now) order (batch @ taken) q"
  obtain new where new: "extends now new q ?q'" "handed new = mset (batch @ taken)" "own_tenant (pc_BatchSize (pl_cfg p)) new"
    using flush_log [OF w(1) size, of now q H] by blast
  note e = new(1) [unfolded extends_def]
  have held: "held_batches ((pl_workers p)[i := w]) + mset batch = held_batches (pl_workers p)"
    using held_update [of i "pl_workers p" "Running batch" w] run w(2) by (simp add: running_def)
  have "balanced (set_worker i w ?q') (ls @ [Worked now])"
    using acc held e new(2) by (simp add: accounts_def balanced_def q taken add.commute add.left_commute)
  moreover have "counted (set_worker i w ?q') (ls @ [Worked now])"
    using acc e by (simp add: accounts_def counted_def q)
  moreover have "told_all (set_worker i w ?q') (ls @ [Worked now])"
    using acc e by (simp add: accounts_def told_all_def q)
  moreover have "bounded (set_worker i w ?q')"
    using acc e new(3) w(2) by (auto simp: accounts_def bounded_def q taken dest!: set_update_subset_insert [THEN subsetD])
  ultimately show ?thesis by (simp add: accounts_def)
qed

lemma accounts_take:
  assumes acc: "accounts p ls" and run: "running i batch p" and taken: "pl_ingest p = ev # rest"
    and room: "int (length (batch @ [ev])) < pc_BatchSize (pl_cfg p)"
  shows "accounts (set_worker i (Running (batch @ [ev])) (p\<lparr>pl_ingest := rest\<rparr>)) (ls @ [Worked now])"
proof -
  have held: "held_batches ((pl_workers p)[i := Running (batch @ [ev])]) = held_batches (pl_workers p) + {#ev#}"
    using held_update [of i "pl_workers p" "Running batch" "Running (batch @ [ev])"] run by (simp add: running_def)
  have "balanced (set_worker i (Running (batch @ [ev])) (p\<lparr>pl_ingest := rest\<rparr>)) (ls @ [Worked now])"
    using acc held taken by (simp add: accounts_def balanced_def)
  moreover have "bounded (set_worker i (Running (batch @ [ev])) (p\<lparr>pl_ingest := rest\<rparr>))"
    using acc taken room by (auto simp: accounts_def bounded_def dest!: set_update_subset_insert [THEN subsetD])
  ultimately show ?thesis using acc by (simp add: accounts_def counted_def told_all_def)
qed

lemma accounts_submit:
  assumes "accounts p ls" "Submit (telling now) ev p = (r, p')"
  shows "accounts p' (ls @ [Submitted ev r now])"
proof -
  consider (closed) "r = Some ErrClosed" "p' = p"
    | (full) "r = Some ErrBackpressure" "p' = p\<lparr>pl_dropped := pl_dropped p + 1,
        pl_observer := pl_observer p @ [Note_Dropped (Event_TenantID ev) now]\<rparr>"
    | (room) "r = None" "int (length (pl_ingest p)) < pc_BufferSize (pl_cfg p)"
      "p' = p\<lparr>pl_ingest := pl_ingest p @ [ev], pl_received := pl_received p + 1,
        pl_observer := pl_observer p @ [Note_Accepted (Event_TenantID ev) now]\<rparr>"
  proof (cases "pl_closed p")
    case True
    with assms(2) that(1) show ?thesis by (simp add: Submit_def)
  next
    case False
    with assms(2) that(2,3) show ?thesis
      by (cases "int (length (pl_ingest p)) < pc_BufferSize (pl_cfg p)") (simp_all add: Submit_def observe_def telling_def)
  qed
  then show ?thesis
  proof cases
    case closed
    moreover have "ErrClosed \<noteq> ErrBackpressure" by (simp add: ErrClosed_def ErrBackpressure_def)
    ultimately show ?thesis using assms(1) by (simp add: accounts_def balanced_def counted_def told_all_def bounded_def)
  next
    case full
    with assms(1) show ?thesis
      by (simp add: accounts_def balanced_def counted_def told_all_def bounded_def) (simp add: told_defs of_tenant_def)
  next
    case room
    with assms(1) show ?thesis
      by (simp add: accounts_def balanced_def counted_def told_all_def bounded_def) (simp add: told_defs of_tenant_def)
  qed
qed

lemma batch_small: "accounts p ls \<Longrightarrow> running i batch p \<Longrightarrow> int (length batch) < pc_BatchSize (pl_cfg p)"
  by (auto simp: accounts_def bounded_def running_def) (metis nth_mem worker.sel(1))

lemma same_ingest: "p = p\<lparr>pl_ingest := pl_ingest p\<rparr>"
  by simp

lemma accounts_step: "pstep (logged H) telling p l p' \<Longrightarrow> accounts p ls \<Longrightarrow> accounts p' (ls @ [l])"
proof (induction rule: pstep.induct)
  case (submit now ev p r p')
  then show ?case by (simp add: accounts_submit)
next
  case (close p)
  then show ?case by (simp add: Close_def accounts_def balanced_def counted_def told_all_def bounded_def)
next
  case (cancel p)
  then show ?case by (simp add: accounts_def balanced_def counted_def told_all_def bounded_def)
next
  case (receive i batch p ev rest order now)
  have small: "int (length (batch @ [ev])) \<le> pc_BatchSize (pl_cfg p)" using batch_small [OF receive.prems receive.hyps(1)] by simp
  show ?case
  proof (cases "int (length (batch @ [ev])) \<ge> pc_BatchSize (pl_cfg p)")
    case True
    with accounts_flush [OF receive.prems receive.hyps(1) refl, of "[ev]" rest order "Running []" H now] receive.hyps(2,3) small
    show ?thesis by (simp add: take_event_def)
  next
    case False
    with accounts_take [OF receive.prems receive.hyps(1,2)] show ?thesis
      by (simp add: take_event_def receive.hyps(2))
  qed
next
  case (drained i batch p order now)
  have "int (length batch) \<le> pc_BatchSize (pl_cfg p)" using batch_small [OF drained.prems drained.hyps(1)] by simp
  with accounts_flush [OF drained.prems drained.hyps(1) same_ingest, of "[]" order Stopped H now] drained.hyps
  show ?case by (simp add: take_event_def)
next
  case (ticked i batch p order now)
  have "int (length batch) \<le> pc_BatchSize (pl_cfg p)" using batch_small [OF ticked.prems ticked.hyps(1)] by simp
  with accounts_flush [OF ticked.prems ticked.hyps(1) same_ingest, of "[]" order "Running []" H now] ticked.hyps
  show ?case by (simp add: tick_def)
next
  case (stop i batch p order now)
  have "int (length batch) \<le> pc_BatchSize (pl_cfg p)" using batch_small [OF stop.prems stop.hyps(1)] by simp
  with accounts_flush [OF stop.prems stop.hyps(1) same_ingest, of "[]" order Stopped H now] stop.hyps
  show ?case by (simp add: cancelled_def)
qed

definition started :: "int \<Rightarrow> PipelineConfig \<Rightarrow> 'h \<Rightarrow> 'h audited" where
  "started procs cfg h = Start (NewPipeline procs cfg (h, []) [])"

lemma started_fields [simp]:
  "pl_ingest (started procs cfg h) = []" "pl_closed (started procs cfg h) = False" "pl_cancelled (started procs cfg h) = False"
  "pl_workers (started procs cfg h) = replicate (nat (pc_Workers (setDefaults procs cfg))) (Running [])"
  "pl_cfg (started procs cfg h) = setDefaults procs cfg" "pl_handler (started procs cfg h) = (h, [])"
  "pl_observer (started procs cfg h) = []"
  by (simp_all add: started_def Start_def NewPipeline_def)

lemma setDefaults_pos: "0 < pc_BatchSize (setDefaults procs cfg)" "0 < pc_BufferSize (setDefaults procs cfg)"
  "0 < procs \<Longrightarrow> 0 < pc_Workers (setDefaults procs cfg)"
  by (simp_all add: setDefaults_def DefaultBatchSize_def DefaultBufferSize_def)

lemma held_none [simp]: "held_batches (replicate n (Running [])) = {#}"
  by (induction n) (simp_all add: held_batches_def)

lemma accounts_started: "accounts (started procs cfg h) []"
  using setDefaults_pos [of procs cfg]
  by (auto simp: accounts_def balanced_def counted_def told_all_def bounded_def told_defs of_tenant_def)
    (simp_all add: started_def Start_def NewPipeline_def)

lemma accounts_run: "prun (logged H) telling p ls p' \<Longrightarrow> accounts p [] \<Longrightarrow> accounts p' ls"
  by (induction rule: prun.induct) (auto intro: accounts_step)

text \<open>
  C7. Every accepted event is accounted for. At any moment, whatever the interleaving, the accepted
  events are exactly those in the queue, those in the workers' hands and those handed to the
  handler, each once; a group that was handed over is not empty and holds one tenant's events
  only; the queue and the batches stay within their sizes; the counters are the true numbers modulo
  2 to the 64; and the observer was told of every refused event and of every event of a failed group.
\<close>

theorem pipeline_accounts:
  assumes "prun (logged H) telling (started procs cfg h) ls p"
  shows "mset (accepted ls) = mset (pl_ingest p) + (\<Sum>w\<leftarrow>pl_workers p. mset (batch_of w)) +
      (\<Sum>(a, evs, ok)\<leftarrow>snd (pl_handler p). mset evs) \<and>
    list_all (\<lambda>(a, evs, ok). evs \<noteq> [] \<and> list_all (\<lambda>ev. Event_TenantID ev = a) evs) (snd (pl_handler p)) \<and>
    int (length (pl_ingest p)) \<le> pc_BufferSize (setDefaults procs cfg) \<and>
    list_all (\<lambda>w. int (length (batch_of w)) < pc_BatchSize (setDefaults procs cfg)) (pl_workers p) \<and>
    pl_received p = of_nat (length (accepted ls)) \<and> pl_dropped p = of_nat (length (refused ls)) \<and>
    pl_flushed p = of_nat (flushed_events (snd (pl_handler p))) \<and>
    told_dropped t (pl_observer p) = of_tenant t (refused ls) \<and>
    told_failed t (pl_observer p) = failed_events t (snd (pl_handler p))"
proof -
  have acc: "accounts p ls" by (rule accounts_run [OF assms accounts_started])
  have "pl_cfg p = setDefaults procs cfg" using run_cfg [OF assms] by simp
  with acc show ?thesis
    by (simp add: accounts_def balanced_def counted_def told_all_def bounded_def held_batches_def handed_def
        own_tenant_def list_all_iff) (auto simp: case_prod_unfold)
qed

section \<open>Closing\<close>

definition work_in :: "worker \<Rightarrow> nat" where
  "work_in w = (case w of Stopped \<Rightarrow> 0 | Running batch \<Rightarrow> if batch = [] then 1 else 2)"

definition work_left :: "('h, 'o) pipeline \<Rightarrow> nat" where
  "work_left p = 2 * length (pl_ingest p) + sum_list (map work_in (pl_workers p))"

lemma work_update:
  "i < length ws \<Longrightarrow> sum_list (map work_in (ws[i := w])) + work_in (ws ! i) = sum_list (map work_in ws) + work_in w"
proof (induction ws arbitrary: i)
  case (Cons v ws)
  then show ?case by (cases i) (auto simp: add.commute add.left_commute)
qed simp

lemma worker_step:
  assumes "pstep H ob p (Worked now) p'"
  shows "work_left p' < work_left p \<and> pl_closed p' = pl_closed p \<and> pl_cancelled p' = pl_cancelled p"
  using assms
proof (cases rule: pstep.cases)
  case (receive i batch ev rest order)
  let ?w = "if int (length (batch @ [ev])) \<ge> pc_BatchSize (pl_cfg p) then Running [] else Running (batch @ [ev])"
  have "work_in ?w \<le> 2" "1 \<le> work_in (pl_workers p ! i)" using receive by (auto simp: work_in_def running_def)
  moreover have "p' = set_worker i ?w (if int (length (batch @ [ev])) \<ge> pc_BatchSize (pl_cfg p)
      then flush H (ob now) order (batch @ [ev]) (p\<lparr>pl_ingest := rest\<rparr>) else p\<lparr>pl_ingest := rest\<rparr>)"
    using receive by (simp add: take_event_def Let_def)
  ultimately show ?thesis
    using receive work_update [of i "pl_workers p" ?w] by (auto simp: work_left_def running_def flush_fields)
next
  case (drained i batch order)
  with work_update [of i "pl_workers p" Stopped] show ?thesis
    by (auto simp: take_event_def work_left_def running_def flush_fields work_in_def split: if_splits)
next
  case (ticked i batch order)
  with work_update [of i "pl_workers p" "Running []"] show ?thesis
    by (auto simp: tick_def work_left_def running_def flush_fields work_in_def split: if_splits)
next
  case (stop i batch order)
  with work_update [of i "pl_workers p" Stopped] show ?thesis
    by (auto simp: cancelled_def work_left_def running_def flush_fields work_in_def split: if_splits)
qed

definition leaves_empty :: "('h, 'o) pipeline \<Rightarrow> bool" where
  "leaves_empty p \<longleftrightarrow> (Stopped \<in> set (pl_workers p) \<and> \<not> pl_cancelled p \<longrightarrow> pl_closed p \<and> pl_ingest p = [])"

lemma set_update_Running: "Stopped \<in> set (ws[i := Running b]) \<Longrightarrow> Stopped \<in> set ws"
  using set_update_subset_insert [of ws i "Running b"] by auto

lemma leaves_empty_step: "pstep H ob p l p' \<Longrightarrow> leaves_empty p \<Longrightarrow> leaves_empty p'"
proof (induction rule: pstep.induct)
  case (submit now ev p r p')
  then show ?case
    by (auto simp: leaves_empty_def dest!: Submit_fields)
next
  case (receive i batch p ev rest order now)
  then show ?case
    by (auto simp: leaves_empty_def take_event_def flush_fields Let_def split: if_splits dest: set_update_Running)
next
  case (ticked i batch p order now)
  then show ?case by (auto simp: leaves_empty_def tick_def flush_fields dest: set_update_Running)
qed (auto simp: leaves_empty_def Close_def take_event_def cancelled_def flush_fields)

lemma worker_can_step:
  assumes "pl_closed p" "running i batch p"
  shows "\<exists>now p'. pstep H ob p (Worked now) p'"
proof (cases "pl_ingest p")
  case Nil
  with pstep.drained [OF assms(2) Nil assms(1), of "map fst (by_tenant batch)" H ob] show ?thesis by (auto simp: walks_def)
next
  case (Cons ev rest)
  with pstep.receive [OF assms(2) Cons, of "map fst (by_tenant (batch @ [ev]))" H ob] show ?thesis by (auto simp: walks_def)
qed

definition is_work :: "label \<Rightarrow> bool" where
  "is_work l \<longleftrightarrow> (case l of Worked _ \<Rightarrow> True | _ \<Rightarrow> False)"

lemma prun_trans: "prun H ob p' ls' p'' \<Longrightarrow> prun H ob p ls p' \<Longrightarrow> prun H ob p (ls @ ls') p''"
proof (induction rule: prun.induct)
  case (more p ls p' l p'')
  then show ?case by (metis append.assoc prun.more)
qed simp

lemma work_run:
  "prun H ob p ls p' \<Longrightarrow> list_all is_work ls \<Longrightarrow>
    work_left p' + length ls \<le> work_left p \<and> pl_closed p' = pl_closed p \<and> pl_cancelled p' = pl_cancelled p"
proof (induction rule: prun.induct)
  case (more p ls p' l p'')
  then obtain now where "l = Worked now" by (cases l) (auto simp: is_work_def)
  with worker_step [of H ob p' now p''] more show ?case by auto
qed simp

lemma accepted_work: "list_all is_work ls' \<Longrightarrow> accepted (ls @ ls') = accepted ls"
  by (induction ls' rule: rev_induct) (auto simp: accepted_def is_work_def split: label.splits)

lemma leaves_empty_run: "prun H ob p ls p' \<Longrightarrow> leaves_empty p \<Longrightarrow> leaves_empty p'"
  by (induction rule: prun.induct) (auto intro: leaves_empty_step)

lemma all_stopped: "\<forall>i batch. \<not> running i batch p \<Longrightarrow> w \<in> set (pl_workers p) \<Longrightarrow> w = Stopped"
  by (cases w) (auto simp: running_def in_set_conv_nth)

text \<open>
  C8. Closing drains the pipeline and ends. Once it is closed, the workers together take at most
  \<open>work_left\<close> more turns, however they interleave; a turn is possible as long as a worker runs; and
  unless the context was cancelled, when none is left to take, every worker has returned, the queue
  is empty and every event ever accepted was handed to the handler exactly once.
\<close>

theorem close_drains:
  assumes "prun (logged H) telling (started procs cfg h) ls p" "pl_closed p" "0 < procs"
    and "prun (logged H) telling p ls' p'" "list_all is_work ls'"
  shows "length ls' \<le> work_left p \<and>
    (\<forall>i batch. running i batch p' \<longrightarrow> (\<exists>now q. pstep (logged H) telling p' (Worked now) q)) \<and>
    (\<not> pl_cancelled p \<and> (\<forall>now q. \<not> pstep (logged H) telling p' (Worked now) q) \<longrightarrow>
      list_all (\<lambda>w. w = Stopped) (pl_workers p') \<and> pl_ingest p' = [] \<and>
      (\<Sum>(a, evs, ok)\<leftarrow>snd (pl_handler p'). mset evs) = mset (accepted ls))"
proof -
  have w: "work_left p' + length ls' \<le> work_left p" "pl_closed p'" "pl_cancelled p' = pl_cancelled p"
    using work_run [OF assms(4,5)] assms(2) by simp_all
  have run: "prun (logged H) telling (started procs cfg h) (ls @ ls') p'" by (rule prun_trans [OF assms(4,1)])
  have step: "\<exists>now q. pstep (logged H) telling p' (Worked now) q" if "running i batch p'" for i batch
    by (rule worker_can_step [OF w(2) that])
  have finished: "list_all (\<lambda>w. w = Stopped) (pl_workers p') \<and> pl_ingest p' = [] \<and>
      (\<Sum>(a, evs, ok)\<leftarrow>snd (pl_handler p'). mset evs) = mset (accepted ls)"
    if h: "\<not> pl_cancelled p" "\<forall>now q. \<not> pstep (logged H) telling p' (Worked now) q"
  proof -
    have stopped: "list_all (\<lambda>w. w = Stopped) (pl_workers p')"
    proof -
      have "\<forall>i batch. \<not> running i batch p'" using step h(2) by blast
      from all_stopped [OF this] show ?thesis by (simp add: list_all_iff)
    qed
    have "length (pl_workers p') = nat (pc_Workers (setDefaults procs cfg))" using run_workers [OF run] by simp
    then have "pl_workers p' \<noteq> []" using setDefaults_pos(3) [OF assms(3), of cfg] by auto
    with stopped have "Stopped \<in> set (pl_workers p')" by (cases "pl_workers p'") auto
    moreover have "leaves_empty (started procs cfg h)" by (simp add: leaves_empty_def)
    ultimately have empty: "pl_ingest p' = []"
      using leaves_empty_run [OF run] h(1) w(3) by (simp add: leaves_empty_def)
    have "map (\<lambda>w. mset (batch_of w)) (pl_workers p') = map (\<lambda>w. {#}) (pl_workers p')"
      using stopped by (auto simp: list_all_iff)
    then have "held_batches (pl_workers p') = {#}" unfolding held_batches_def by (metis sum_list_0)
    with accounts_run [OF run accounts_started] empty stopped accepted_work [OF assms(5)] show ?thesis
      by (simp add: accounts_def balanced_def handed_def)
  qed
  show ?thesis using w(1) step finished by (intro conjI allI impI) (simp, blast, blast, blast, blast)
qed

section \<open>Shutting down\<close>

lemma submit_run:
  "int (length (pl_ingest p) + length evs) \<le> pc_BufferSize (pl_cfg p) \<Longrightarrow> \<not> pl_closed p \<Longrightarrow>
    prun H telling p (map (\<lambda>ev. Submitted ev None now) evs)
      (p\<lparr>pl_ingest := pl_ingest p @ evs, pl_received := pl_received p + of_nat (length evs),
         pl_observer := pl_observer p @ map (\<lambda>ev. Note_Accepted (Event_TenantID ev) now) evs\<rparr>)"
proof (induction evs rule: rev_induct)
  case Nil
  have "p\<lparr>pl_ingest := pl_ingest p @ [], pl_received := pl_received p + of_nat (length []),
      pl_observer := pl_observer p @ []\<rparr> = p" by simp
  then show ?case using prun.none [of H telling p] by simp
next
  case (snoc ev evs)
  let ?q = "\<lambda>evs. p\<lparr>pl_ingest := pl_ingest p @ evs, pl_received := pl_received p + of_nat (length evs),
    pl_observer := pl_observer p @ map (\<lambda>ev. Note_Accepted (Event_TenantID ev) now) evs\<rparr>"
  have "Submit (telling now) ev (?q evs) = (None, ?q (evs @ [ev]))"
    using snoc.prems by (simp add: Submit_def observe_def telling_def add.assoc)
  then have "pstep H telling (?q evs) (Submitted ev None now) (?q (evs @ [ev]))"
    by (rule pstep.submit [where ob = telling and now = now])
  with snoc have "prun H telling p (map (\<lambda>ev. Submitted ev None now) evs @ [Submitted ev None now])
      (?q (evs @ [ev]))" by (intro prun.more) auto
  then show ?case by simp
qed

lemma stop_run:
  assumes "pl_cancelled p" "pl_workers p = replicate n (Running [])"
  shows "j \<le> n \<Longrightarrow> prun H ob p (replicate j (Worked now))
    (p\<lparr>pl_workers := replicate j Stopped @ replicate (n - j) (Running [])\<rparr>)"
proof (induction j)
  case 0
  have "p\<lparr>pl_workers := replicate n (Running [])\<rparr> = p" using assms(2) [symmetric] by simp
  then show ?case using prun.none [of H ob p] by simp
next
  case (Suc j)
  let ?q = "p\<lparr>pl_workers := replicate j Stopped @ replicate (n - j) (Running [])\<rparr>"
  have split: "replicate (n - j) (Running []) = Running [] # replicate (n - Suc j) (Running [])"
    using Suc.prems by (metis Suc_diff_Suc Suc_le_lessD replicate_Suc)
  have r: "running j [] ?q" by (simp add: running_def split nth_append)
  have w: "walks [] []" by (simp add: walks_def by_tenant_def)
  have "cancelled H (ob now) [] j [] ?q = p\<lparr>pl_workers := replicate (Suc j) Stopped @ replicate (n - Suc j) (Running [])\<rparr>"
    by (simp add: cancelled_def flush_def set_worker_def split list_update_append replicate_append_same flip: append_Cons)
  with pstep.stop [OF r _ w, of H ob now] assms(1) have "pstep H ob ?q (Worked now)
      (p\<lparr>pl_workers := replicate (Suc j) Stopped @ replicate (n - Suc j) (Running [])\<rparr>)" by simp
  from prun.more [OF Suc.IH this] Suc.prems show ?case by (simp add: replicate_append_same)
qed

text \<open>
  A shutdown signal loses what is queued, silently. The workers run under the context the
  signal cancels (\<^verbatim>\<open>pipe.Start(ctx)\<close> in \<^verbatim>\<open>cmd/reconsync/main.go\<close>), and a worker whose context is done
  returns without looking at the queue. So from any filling of the queue there is a run in which
  every event was accepted, the workers return, the pipeline is closed, and all of it is still in the
  queue, where no later step can move it; nothing was handed over, the drop and error counters are
  zero and the observer, whose notes are what stops false reversals, was told of no loss.
\<close>

theorem shutdown_loses_queue:
  assumes "int (length evs) \<le> pc_BufferSize (setDefaults procs cfg)"
  shows "\<exists>ls p. prun (logged H) telling (started procs cfg h) ls p \<and> accepted ls = evs \<and>
    list_all (\<lambda>w. w = Stopped) (pl_workers p) \<and> pl_closed p \<and> pl_ingest p = evs \<and> snd (pl_handler p) = [] \<and>
    pl_dropped p = 0 \<and> pl_handlerErrors p = 0 \<and>
    (\<forall>t. told_dropped t (pl_observer p) = 0 \<and> told_failed t (pl_observer p) = 0) \<and>
    (\<forall>l q. pstep (logged H) telling p l q \<longrightarrow> pl_ingest q = evs)"
proof -
  let ?s = "started procs cfg h" and ?n = "nat (pc_Workers (setDefaults procs cfg))"
  let ?told = "map (\<lambda>ev. Note_Accepted (Event_TenantID ev) 0) evs"
  let ?subs = "map (\<lambda>ev. Submitted ev None 0) evs"
  let ?q = "?s\<lparr>pl_ingest := evs, pl_received := of_nat (length evs), pl_observer := ?told\<rparr>"
  let ?c = "?q\<lparr>pl_cancelled := True\<rparr>"
  let ?d = "?c\<lparr>pl_workers := replicate ?n Stopped\<rparr>"
  have recv: "pl_received ?s = 0" by (simp add: started_def Start_def NewPipeline_def)
  have 1: "prun (logged H) telling ?s ?subs ?q"
    using submit_run [of ?s evs "logged H" 0] assms recv by simp
  have 2: "prun (logged H) telling ?s (?subs @ [Environment]) ?c"
    by (rule prun.more [OF 1 pstep.cancel])
  have 3: "prun (logged H) telling ?c (replicate ?n (Worked 0)) ?d"
    using stop_run [of ?c ?n ?n "logged H" telling 0] by simp
  let ?ls = "((?subs @ [Environment]) @ replicate ?n (Worked 0)) @ [Environment]"
  have 4: "prun (logged H) telling ?s ?ls (Close ?d)"
    by (rule prun.more [OF prun_trans [OF 3 2] pstep.close])
  have acc: "accepted ?ls = evs"
  proof -
    have "accepted (map (\<lambda>ev. Submitted ev None 0) xs) = xs" for xs by (induction xs) (simp_all add: accepted_def)
    moreover have "list_all is_work (replicate ?n (Worked 0))" by (simp add: list_all_iff is_work_def)
    ultimately show ?thesis by (simp add: accepted_work flip: append_assoc)
  qed
  have told: "told_dropped t ?told = 0 \<and> told_failed t ?told = 0" for t
    by (induction evs) (simp_all add: told_defs)
  have fields: "pl_workers (Close ?d) = replicate ?n Stopped" "pl_closed (Close ?d)" "pl_ingest (Close ?d) = evs"
    "snd (pl_handler (Close ?d)) = []" "pl_dropped (Close ?d) = 0" "pl_handlerErrors (Close ?d) = 0"
    "pl_observer (Close ?d) = ?told"
    by (simp_all add: Close_def) (simp_all add: started_def Start_def NewPipeline_def)
  have stuck: "pl_ingest q = evs" if "pstep (logged H) telling (Close ?d) l q" for l q
    using that
  proof (cases rule: pstep.cases)
    case (submit now ev r)
    with fields show ?thesis by (auto dest!: Submit_fields)
  qed (use fields in \<open>auto simp: running_def Close_def\<close>)
  show ?thesis
    using 4 acc fields told stuck
    by (intro exI [of _ ?ls] exI [of _ "Close ?d"]) (simp add: list_all_iff)
qed

section \<open>Concrete runs\<close>

definition accept_all :: "unit handler" where
  "accept_all a evs s = (Inr (), s)"

definition default_config :: PipelineConfig where
  "default_config = \<lparr>pc_BufferSize = 0, pc_Workers = 0, pc_BatchSize = 0, pc_FlushInterval = 0\<rparr>"

definition sample_event :: Event where
  "sample_event = NewCreditEvent (sample_credit ''k'' 5)"

lemma room_for_one: "int (length [sample_event]) \<le> pc_BufferSize (setDefaults procs default_config)"
  by (simp add: setDefaults_def default_config_def DefaultBufferSize_def)

lemma submitted_run:
  "\<exists>p. prun (logged H) telling (started procs default_config h) [Submitted sample_event None 3] p \<and> \<not> pl_cancelled p"
proof -
  have "prun (logged H) telling (started procs default_config h) (map (\<lambda>ev. Submitted ev None 3) [sample_event])
      ((started procs default_config h)\<lparr>pl_ingest := [sample_event],
         pl_received := pl_received (started procs default_config h) + 1,
         pl_observer := [Note_Accepted (Event_TenantID sample_event) 3]\<rparr>)"
    using submit_run [of "started procs default_config h" "[sample_event]" "logged H" 3] room_for_one by simp
  moreover have "\<not> pl_cancelled ((started procs default_config h)\<lparr>pl_ingest := [sample_event],
         pl_received := pl_received (started procs default_config h) + 1,
         pl_observer := [Note_Accepted (Event_TenantID sample_event) 3]\<rparr>)" by simp
  ultimately show ?thesis unfolding list.map by blast
qed

lemma longest_run:
  "\<exists>ls' p'. prun H ob p ls' p' \<and> list_all is_work ls' \<and> (\<forall>now q. \<not> pstep H ob p' (Worked now) q)"
proof (induction p rule: measure_induct_rule [of work_left])
  case (less p)
  show ?case
  proof (cases "\<exists>now q. pstep H ob p (Worked now) q")
    case True
    then obtain now q where s: "pstep H ob p (Worked now) q" by blast
    then obtain ls' p' where r: "prun H ob q ls' p'" "list_all is_work ls'" "\<forall>now q. \<not> pstep H ob p' (Worked now) q"
      using less worker_step by blast
    have "prun H ob p ([] @ [Worked now]) q" by (rule prun.more [OF prun.none s])
    from prun_trans [OF r(1) this] have "prun H ob p (Worked now # ls') p'" by simp
    moreover have "list_all is_work (Worked now # ls')" using r(2) by (simp add: is_work_def)
    ultimately show ?thesis using r(3) by blast
  next
    case False
    then show ?thesis by (intro exI [of _ "[]"] exI [of _ p]) (simp add: prun.none)
  qed
qed

theorem pipeline_accounts_witness:
  "\<exists>p. prun (logged accept_all) telling (started 1 default_config ()) [Submitted sample_event None 3] p \<and>
    mset (pl_ingest p) + (\<Sum>w\<leftarrow>pl_workers p. mset (batch_of w)) + (\<Sum>(a, evs, ok)\<leftarrow>snd (pl_handler p). mset evs) =
      {#sample_event#} \<and> pl_received p = 1"
proof -
  obtain p where p: "prun (logged accept_all) telling (started 1 default_config ()) [Submitted sample_event None 3] p"
    using submitted_run [of accept_all 1 "()"] by blast
  have "accepted [Submitted sample_event None 3] = [sample_event]" by (simp add: accepted_def)
  with pipeline_accounts [OF p] p show ?thesis by (intro exI [of _ p]) simp
qed

theorem close_drains_witness:
  "\<exists>p ls' p'. prun (logged accept_all) telling (started 1 default_config ()) [Submitted sample_event None 3, Environment] p \<and>
    pl_closed p \<and> prun (logged accept_all) telling p ls' p' \<and> list_all is_work ls' \<and> pl_ingest p' = [] \<and>
    (\<Sum>(a, evs, ok)\<leftarrow>snd (pl_handler p'). mset evs) = {#sample_event#}"
proof -
  obtain p where p: "prun (logged accept_all) telling (started 1 default_config ()) [Submitted sample_event None 3] p"
    "\<not> pl_cancelled p" using submitted_run [of accept_all 1 "()"] by blast
  let ?ls = "[Submitted sample_event None 3, Environment]"
  have run: "prun (logged accept_all) telling (started 1 default_config ()) ?ls (Close p)"
    using prun.more [OF p(1) pstep.close] by simp
  have c: "pl_closed (Close p)" "\<not> pl_cancelled (Close p)" using p(2) by (simp_all add: Close_def)
  obtain ls' p' where r: "prun (logged accept_all) telling (Close p) ls' p'" "list_all is_work ls'"
    "\<forall>now q. \<not> pstep (logged accept_all) telling p' (Worked now) q" using longest_run by blast
  have "accepted ?ls = [sample_event]" by (simp add: accepted_def)
  with close_drains [OF run c(1) _ r(1,2)] r c(2) have "pl_ingest p' = []"
    "(\<Sum>(a, evs, ok)\<leftarrow>snd (pl_handler p'). mset evs) = {#sample_event#}" by simp_all
  with run c(1) r(1,2) show ?thesis by blast
qed

theorem shutdown_loses_queue_witness:
  "\<exists>ls p. prun (logged accept_all) telling (started 1 default_config ()) ls p \<and> accepted ls = [sample_event] \<and>
    pl_ingest p = [sample_event] \<and> pl_closed p \<and> snd (pl_handler p) = [] \<and> pl_dropped p = 0"
  using shutdown_loses_queue [OF room_for_one, of accept_all 1 "()"] by blast

end
