(* ===== verification/Ingest_Flow.thy ===== *)
theory Ingest_Flow
  imports Pipeline_Accounts Correlate_Memory
begin

text \<open>
  The pipeline with the correlation engine behind it, as \<^verbatim>\<open>cmd/reconsync/main.go\<close> wires them, on
  the in-memory store: the handler, and what follows for the whole way from an accepted event
  to the store.
\<close>

definition engine_handler :: "Engine \<Rightarrow> 's transaction_store \<Rightarrow> 's handler" where
  "engine_handler E P tenantID events =
    seq (Apply E P tenantID events) (\<lambda>(res, err). case err of Some e \<Rightarrow> fail e | None \<Rightarrow> ret ())"

definition providers_answer :: "Engine \<Rightarrow> bool" where
  "providers_answer E \<longleftrightarrow> (\<forall>a. (\<exists>rs. eng_rules E a = Inr rs) \<and> (\<exists>salt. eng_salt E a = Inr salt))"

definition in_order :: "memory \<times> hand_log \<Rightarrow> bool" where
  "in_order s \<longleftrightarrow> reachable (fst s) \<and> parked_ok (fst s) \<and> failed_groups (snd s) = []"

lemma handler_in_order:
  assumes "providers_answer E" "in_order s"
  shows "in_order (snd (logged (engine_handler E (memory_store now)) a evs s))"
proof -
  let ?m = "fst s"
  obtain rs salt where e: "eng_rules E a = Inr rs" "eng_salt E a = Inr salt"
    using assms(1) unfolding providers_answer_def by blast
  have ok: "reachable ?m" "parked_ok ?m" "failed_groups (snd s) = []" using assms(2) by (simp_all add: in_order_def)
  obtain x m' where run: "Apply E (memory_store now) a evs ?m = (Inr x, m')" "parked_ok m'"
    "case x of (res, err) \<Rightarrow> err = None \<and> length evs \<le> accounted res \<and> accounted res \<le> length evs + DebitsStored res"
    by (rule totalE [OF dep.Apply_total [OF e] ok(2)])
  obtain res where x: "x = (res, None)" using run(3) by (cases x) auto
  have "reachable m'" using by_ops_reachable [OF Apply_by_ops ok(1), of E now a evs] run(1) by simp
  moreover have "logged (engine_handler E (memory_store now)) a evs s = (Inr (), (m', snd s @ [(a, evs, True)]))"
    by (simp add: logged_def engine_handler_def seq_def run(1) x ret_def)
  ultimately show ?thesis using run(2) ok(3) by (simp add: in_order_def failed_groups_def)
qed

lemma observe_handler [simp]: "pl_handler (observe f ob p) = pl_handler p"
  by (cases ob) (simp_all add: observe_def)

lemma flush_groups_in_order:
  "providers_answer E \<Longrightarrow> in_order (pl_handler p) \<Longrightarrow>
    in_order (pl_handler (flush_groups (logged (engine_handler E (memory_store now))) ob gs p))"
proof (induction gs arbitrary: p)
  case (Cons g gs)
  obtain a evs where g: "g = (a, evs)" by fastforce
  obtain r h where H: "logged (engine_handler E (memory_store now)) a evs (pl_handler p) = (r, h)" by (rule prod.exhaust)
  have "in_order h" using handler_in_order [OF Cons.prems, of now a evs] H by simp
  with Cons.prems(1) show ?case by (cases r) (simp_all add: g H Let_def Cons.IH)
qed simp

lemma step_in_order:
  "pstep (logged (engine_handler E (memory_store now))) ob p l p' \<Longrightarrow> providers_answer E \<Longrightarrow>
    in_order (pl_handler p) \<Longrightarrow> in_order (pl_handler p')"
proof (induction rule: pstep.induct)
  case (submit now ev p r p')
  have "pl_handler (snd (Submit (ob now) ev p)) = pl_handler p" by (cases "ob now") (simp_all add: Submit_def observe_def)
  with submit show ?case by simp
qed (simp_all add: Close_def take_event_def tick_def cancelled_def flush_def set_worker_def flush_groups_in_order Let_def
    split: list.split)

lemma run_in_order:
  "prun (logged (engine_handler E (memory_store now))) ob p ls p' \<Longrightarrow> providers_answer E \<Longrightarrow>
    in_order (pl_handler p) \<Longrightarrow> in_order (pl_handler p')"
  by (induction rule: prun.induct) (auto intro: step_in_order)

lemma flushed_all: "failed_groups hist = [] \<Longrightarrow> flushed_events hist = size (handed hist)"
  by (induction hist) (auto simp: log_defs split: if_splits)

lemma size_held: "size (held_batches ws) = sum_list (map (\<lambda>w. length (batch_of w)) ws)"
  by (induction ws) (simp_all add: held_batches_def)

text \<open>
  C6. From an accepted event to the store nothing fails. With the correlation engine as the
  handler on the in-memory store, and rules and salts available, every reachable state of the pipeline
  has a reachable store, no batch ever failed and the observer was told of no failed event, and
  the events received are exactly those applied plus those still in the queue or in a worker's
  hands, as \<^verbatim>\<open>uint64\<close> counters.
\<close>

theorem ingest_never_fails:
  assumes "prun (logged (engine_handler E (memory_store now))) telling (started procs cfg NewMemory) ls p"
    and "\<And>a. \<not> isl (eng_rules E a) \<and> \<not> isl (eng_salt E a)"
  shows "reachable (fst (pl_handler p)) \<and> pl_handlerErrors p = 0 \<and> told_failed t (pl_observer p) = 0 \<and>
    pl_received p = pl_flushed p +
      of_nat (length (pl_ingest p) + sum_list (map (\<lambda>w. length (batch_of w)) (pl_workers p)))"
proof -
  have E: "providers_answer E"
    unfolding providers_answer_def
  proof
    fix a show "(\<exists>rs. eng_rules E a = Inr rs) \<and> (\<exists>salt. eng_salt E a = Inr salt)"
      using assms(2) [of a] by (cases "eng_rules E a"; cases "eng_salt E a") auto
  qed
  have "in_order (pl_handler (started procs cfg NewMemory))"
    by (simp add: in_order_def reachable.start parked_ok_def NewMemory_def [THEN arg_cong [where f = m_parked]])
  from run_in_order [OF assms(1) E this] have o: "reachable (fst (pl_handler p))" "failed_groups (snd (pl_handler p)) = []"
    by (simp_all add: in_order_def)
  have acc: "accounts p ls" by (rule accounts_run [OF assms(1) accounts_started])
  then have "size (mset (accepted ls)) = size (mset (pl_ingest p) + held_batches (pl_workers p) + handed (snd (pl_handler p)))"
    by (simp only: accounts_def balanced_def)
  then have "length (accepted ls) = length (pl_ingest p) + sum_list (map (\<lambda>w. length (batch_of w)) (pl_workers p)) +
      flushed_events (snd (pl_handler p))"
    by (simp add: size_held flushed_all [OF o(2)])
  moreover have "failed_events t (snd (pl_handler p)) = 0"
    using o(2) by (simp add: log_defs filter_empty_conv) (auto simp: sum_list_eq_0_iff split_beta intro!: sum_list_0 cong: map_cong)
  ultimately show ?thesis using acc o by (simp add: accounts_def counted_def told_all_def)
qed

theorem ingest_never_fails_witness:
  "\<exists>p. prun (logged (engine_handler sample_engine (memory_store 9))) telling (started 1 default_config NewMemory)
      [Submitted sample_event None 3] p \<and> pl_handlerErrors p = 0 \<and> reachable (fst (pl_handler p))"
proof -
  obtain p where p: "prun (logged (engine_handler sample_engine (memory_store 9))) telling
      (started 1 default_config NewMemory) [Submitted sample_event None 3] p"
    using submitted_run [of "engine_handler sample_engine (memory_store 9)" 1 NewMemory] by blast
  have "\<not> isl (eng_rules sample_engine a) \<and> \<not> isl (eng_salt sample_engine a)" for a
    by (simp add: sample_engine_def)
  from ingest_never_fails [OF p this] p show ?thesis by blast
qed

end
