(* ===== verification/Report_Compliance.thy ===== *)
theory Report_Compliance
  imports Complex_Main "HOL-Library.Multiset" Domain_Transaction Go_Text
begin

text \<open>
  The compliance report (\<^verbatim>\<open>internal/report/compliance.go\<close>): how many failed transfers were
  reversed in time. Durations are exact; a \<^verbatim>\<open>float64\<close> number of seconds is the exact rational here, so
  the rounding of floating point is not modelled.
\<close>

section \<open>Seconds, rounding and percentiles\<close>

definition seconds :: "duration \<Rightarrow> rat" where
  "seconds d = of_int d / 1000000000"

text \<open>\<^verbatim>\<open>int(v)\<close> truncates toward zero.\<close>

definition to_int :: "rat \<Rightarrow> int" where
  "to_int v = (if v < 0 then \<lceil>v\<rceil> else \<lfloor>v\<rfloor>)"

definition round1 :: "rat \<Rightarrow> rat" where
  "round1 v = of_int (to_int (v * 10 + 1 / 2)) / 10"

definition percentile :: "rat list \<Rightarrow> rat \<Rightarrow> rat" where
  "percentile xs p =
    (if length xs = 0 then 0
     else let idx = to_int (p * of_nat (length xs) + 1 / 2) - 1;
              idx = (if idx < 0 then 0 else idx);
              idx = (if idx \<ge> int (length xs) then int (length xs) - 1 else idx)
          in xs ! nat idx)"

record Latency =
  lt_Samples :: int
  lt_P50 :: rat
  lt_P95 :: rat
  lt_Max :: rat

definition no_latency :: Latency where
  "no_latency = \<lparr>lt_Samples = 0, lt_P50 = 0, lt_P95 = 0, lt_Max = 0\<rparr>"

definition summarise :: "rat list \<Rightarrow> Latency" where
  "summarise values =
    (if length values = 0 then no_latency
     else let xs = sort values
          in \<lparr>lt_Samples = int (length xs), lt_P50 = round1 (percentile xs (50 / 100)),
              lt_P95 = round1 (percentile xs (95 / 100)), lt_Max = round1 (last xs)\<rparr>)"

text \<open>
  \<^verbatim>\<open>%.0f\<close> and \<^verbatim>\<open>%.1f\<close> round to nearest, ties to even, and print the sign of what they
  were given.
\<close>

definition round_even :: "rat \<Rightarrow> int" where
  "round_even v =
    (let f = \<lfloor>v\<rfloor>; d = v - of_int f
     in if d < 1 / 2 then f else if d > 1 / 2 then f + 1 else if even f then f else f + 1)"

definition fixed0 :: "rat \<Rightarrow> string" where
  "fixed0 v = (if v < 0 then ''-'' else []) @ show_int (round_even \<bar>v\<bar>)"

definition fixed1 :: "rat \<Rightarrow> string" where
  "fixed1 v =
    (let n = round_even (\<bar>v\<bar> * 10)
     in (if v < 0 then ''-'' else []) @ show_int (n div 10) @ ''.'' @ show_int (n mod 10))"

section \<open>The report\<close>

definition ReportReversalDeadline :: duration where "ReportReversalDeadline = 24 * hour"
definition MaxBreaches :: nat where "MaxBreaches = 1000"

record Totals =
  tt_Transactions :: int
  tt_Settled :: int
  tt_OrphansDetected :: int
  tt_ReversalsDispatched :: int
  tt_ReversalsCompleted :: int
  tt_ReversalsFailed :: int
  tt_AwaitingInvestigation :: int
  tt_StillOpen :: int

record Compliance =
  cm_WithinDeadline :: int
  cm_Breached :: int
  cm_Outstanding :: int
  cm_Rate :: "rat option"

record Breach =
  bh_TransactionID :: string
  bh_AmountMinor :: int
  bh_Currency :: string
  bh_DebitAt :: gotime
  bh_DetectedAt :: "gotime option"
  bh_ReversalCompletedAt :: "gotime option"
  bh_ElapsedSeconds :: rat
  bh_Status :: string
  bh_Reason :: string

record Report =
  rp_TenantID :: string
  rp_From :: gotime
  rp_To :: gotime
  rp_GeneratedAt :: gotime
  rp_ReversalDeadlineSeconds :: int
  rp_Totals :: Totals
  rp_Detection :: Latency
  rp_Reversal :: Latency
  rp_Compliance :: Compliance
  rp_Breaches :: "Breach list"
  rp_Truncated :: bool
  rp_Incomplete :: bool
  rp_Notice :: string

record Input =
  in_TenantID :: string
  in_From :: gotime
  in_To :: gotime
  in_CountsByStatus :: "(status \<times> int) list"
  in_Reversals :: "transaction list"
  in_Incomplete :: bool

definition addBreach :: "transaction \<Rightarrow> rat \<Rightarrow> string \<Rightarrow> Report \<Rightarrow> Report" where
  "addBreach txn elapsed reason r =
    (if length (rp_Breaches r) \<ge> MaxBreaches then r\<lparr>rp_Truncated := True\<rparr>
     else r\<lparr>rp_Breaches := rp_Breaches r @
       [\<lparr>bh_TransactionID = tx_TransactionID txn, bh_AmountMinor = tx_AmountMinor txn, bh_Currency = tx_Currency txn,
         bh_DebitAt = tx_DebitAt txn, bh_DetectedAt = tx_DetectedAt txn,
         bh_ReversalCompletedAt = tx_ReversalCompletedAt txn, bh_ElapsedSeconds = round1 elapsed,
         bh_Status = status_string (tx_Status txn), bh_Reason = reason\<rparr>]\<rparr>)"

fun count_status :: "status \<Rightarrow> int \<Rightarrow> Totals \<Rightarrow> Totals" where
  "count_status StatusCompleted n t = t\<lparr>tt_Settled := tt_Settled t + n\<rparr>"
| "count_status StatusOrphaned n t = t\<lparr>tt_OrphansDetected := tt_OrphansDetected t + n\<rparr>"
| "count_status StatusReversalPending n t = t\<lparr>tt_ReversalsDispatched := tt_ReversalsDispatched t + n\<rparr>"
| "count_status StatusReversalCompleted n t = t\<lparr>tt_ReversalsCompleted := tt_ReversalsCompleted t + n\<rparr>"
| "count_status StatusReversalFailed n t = t\<lparr>tt_ReversalsFailed := tt_ReversalsFailed t + n\<rparr>"
| "count_status StatusSuspect n t = t\<lparr>tt_AwaitingInvestigation := tt_AwaitingInvestigation t + n\<rparr>"
| "count_status StatusPendingDebit n t = t\<lparr>tt_StillOpen := tt_StillOpen t + n\<rparr>"
| "count_status StatusPendingUnknown n t = t\<lparr>tt_StillOpen := tt_StillOpen t + n\<rparr>"

fun count_totals :: "(status \<times> int) list \<Rightarrow> Totals \<Rightarrow> Totals" where
  "count_totals [] t = t"
| "count_totals ((status, n) # counts) t =
    count_totals counts (count_status status n (t\<lparr>tt_Transactions := tt_Transactions t + n\<rparr>))"

text \<open>Each counts one transaction.\<close>

definition breached :: "Report \<Rightarrow> Report" where
  "breached r = r\<lparr>rp_Compliance := (rp_Compliance r)\<lparr>cm_Breached := cm_Breached (rp_Compliance r) + 1\<rparr>\<rparr>"

definition in_time :: "Report \<Rightarrow> Report" where
  "in_time r = r\<lparr>rp_Compliance := (rp_Compliance r)\<lparr>cm_WithinDeadline := cm_WithinDeadline (rp_Compliance r) + 1\<rparr>\<rparr>"

definition outstanding :: "Report \<Rightarrow> Report" where
  "outstanding r = r\<lparr>rp_Compliance := (rp_Compliance r)\<lparr>cm_Outstanding := cm_Outstanding (rp_Compliance r) + 1\<rparr>\<rparr>"

text \<open>The \<^verbatim>\<open>switch\<close> of the loop over the reversals.\<close>

definition judge :: "duration \<Rightarrow> gotime \<Rightarrow> transaction \<Rightarrow> Report \<Rightarrow> Report" where
  "judge deadline now txn r =
    (case tx_ReversalCompletedAt txn of
       Some completed \<Rightarrow>
         let elapsed = time_sub completed (tx_DebitAt txn)
         in if elapsed \<le> deadline then in_time r
            else addBreach txn (seconds elapsed) ''reversal completed after the deadline'' (breached r)
     | None \<Rightarrow>
         let age = time_sub now (tx_DebitAt txn)
         in if tx_Status txn = StatusReversalFailed
            then addBreach txn (seconds age) ''reversal delivery dead-lettered; no confirmation received'' (breached r)
            else if age > deadline
            then addBreach txn (seconds age) ''deadline passed with no reversal confirmation'' (breached r)
            else outstanding r)"

fun judge_loop ::
  "duration \<Rightarrow> gotime \<Rightarrow> transaction list \<Rightarrow> Report \<times> rat list \<times> rat list \<Rightarrow> Report \<times> rat list \<times> rat list" where
  "judge_loop deadline now [] acc = acc"
| "judge_loop deadline now (txn # txns) (r, detection, reversal) =
    (let detection = (case tx_DetectedAt txn of
           None \<Rightarrow> detection
         | Some detected \<Rightarrow> detection @ [seconds (time_sub detected (tx_ExpectedCompletionAt txn))]);
         reversal = (case (tx_ReversalCompletedAt txn, tx_DetectedAt txn) of
           (Some completed, Some detected) \<Rightarrow> reversal @ [seconds (time_sub completed detected)]
         | _ \<Rightarrow> reversal)
     in judge_loop deadline now txns (judge deadline now txn r, detection, reversal))"

definition Compute :: "Input \<Rightarrow> duration \<Rightarrow> gotime \<Rightarrow> Report" where
  "Compute inp deadline now =
    (let deadline = (if deadline \<le> 0 then ReportReversalDeadline else deadline);
         totals = count_totals (in_CountsByStatus inp)
           \<lparr>tt_Transactions = 0, tt_Settled = 0, tt_OrphansDetected = 0, tt_ReversalsDispatched = 0,
            tt_ReversalsCompleted = 0, tt_ReversalsFailed = 0, tt_AwaitingInvestigation = 0, tt_StillOpen = 0\<rparr>;
         r = \<lparr>rp_TenantID = in_TenantID inp, rp_From = in_From inp, rp_To = in_To inp, rp_GeneratedAt = now,
           rp_ReversalDeadlineSeconds = go_div deadline second,
           rp_Totals = totals\<lparr>tt_OrphansDetected := int (length (in_Reversals inp))\<rparr>,
           rp_Detection = no_latency, rp_Reversal = no_latency,
           rp_Compliance = \<lparr>cm_WithinDeadline = 0, cm_Breached = 0, cm_Outstanding = 0, cm_Rate = None\<rparr>,
           rp_Breaches = [], rp_Truncated = False, rp_Incomplete = in_Incomplete inp,
           rp_Notice = (if in_Incomplete inp
             then ''more transactions were detected in this period than the report could examine; ''
               @ ''every compliance count below is a lower bound. Narrow the period and run it again.''
             else '''')\<rparr>;
         (r, detection, reversal) = judge_loop deadline now (in_Reversals inp) (r, [], []);
         c = rp_Compliance r;
         concluded = cm_WithinDeadline c + cm_Breached c;
         c = (if concluded > 0 then c\<lparr>cm_Rate := Some (of_int (cm_WithinDeadline c) / of_int concluded)\<rparr> else c)
     in r\<lparr>rp_Compliance := c, rp_Detection := summarise detection, rp_Reversal := summarise reversal,
         rp_Breaches := sort_key (\<lambda>b. - bh_ElapsedSeconds b) (rp_Breaches r)\<rparr>)"

section \<open>What the counts mean\<close>

definition on_time :: "duration \<Rightarrow> transaction \<Rightarrow> bool" where
  "on_time d t \<longleftrightarrow> (\<exists>c. tx_ReversalCompletedAt t = Some c \<and> time_sub c (tx_DebitAt t) \<le> d)"

definition missed :: "duration \<Rightarrow> gotime \<Rightarrow> transaction \<Rightarrow> bool" where
  "missed d now t \<longleftrightarrow>
    (case tx_ReversalCompletedAt t of
       Some c \<Rightarrow> d < time_sub c (tx_DebitAt t)
     | None \<Rightarrow> tx_Status t = StatusReversalFailed \<or> d < time_sub now (tx_DebitAt t))"

definition in_flight :: "duration \<Rightarrow> gotime \<Rightarrow> transaction \<Rightarrow> bool" where
  "in_flight d now t \<longleftrightarrow> \<not> on_time d t \<and> \<not> missed d now t"

lemma on_time_not_missed: "on_time d t \<Longrightarrow> \<not> missed d now t"
  by (auto simp: on_time_def missed_def)

definition breach_reason :: "transaction \<Rightarrow> string" where
  "breach_reason t =
    (if tx_ReversalCompletedAt t \<noteq> None then ''reversal completed after the deadline''
     else if tx_Status t = StatusReversalFailed then ''reversal delivery dead-lettered; no confirmation received''
     else ''deadline passed with no reversal confirmation'')"

definition breach_of :: "gotime \<Rightarrow> transaction \<Rightarrow> Breach" where
  "breach_of now t =
    \<lparr>bh_TransactionID = tx_TransactionID t, bh_AmountMinor = tx_AmountMinor t, bh_Currency = tx_Currency t,
     bh_DebitAt = tx_DebitAt t, bh_DetectedAt = tx_DetectedAt t, bh_ReversalCompletedAt = tx_ReversalCompletedAt t,
     bh_ElapsedSeconds = round1 (seconds (time_sub (case tx_ReversalCompletedAt t of Some c \<Rightarrow> c | None \<Rightarrow> now) (tx_DebitAt t))),
     bh_Status = status_string (tx_Status t), bh_Reason = breach_reason t\<rparr>"

lemma judge_missed:
  "missed d now t \<Longrightarrow> judge d now t r = addBreach t
     (seconds (time_sub (case tx_ReversalCompletedAt t of Some c \<Rightarrow> c | None \<Rightarrow> now) (tx_DebitAt t))) (breach_reason t) (breached r)"
  by (cases "tx_ReversalCompletedAt t") (auto simp: judge_def missed_def breach_reason_def Let_def)

lemma judge_on_time: "on_time d t \<Longrightarrow> judge d now t r = in_time r"
  by (auto simp: judge_def on_time_def Let_def)

lemma judge_in_flight: "in_flight d now t \<Longrightarrow> judge d now t r = outstanding r"
  by (cases "tx_ReversalCompletedAt t") (auto simp: judge_def missed_def in_flight_def on_time_def Let_def)

lemma judged_cases [case_names on_time missed in_flight]:
  obtains "on_time d t" "\<not> missed d now t" "\<not> in_flight d now t"
  | "missed d now t" "\<not> on_time d t" "\<not> in_flight d now t"
  | "in_flight d now t" "\<not> on_time d t" "\<not> missed d now t"
  by (cases "on_time d t"; cases "missed d now t") (auto simp: in_flight_def dest: on_time_not_missed [of d t now])

lemmas judge_simps = judge_on_time judge_missed judge_in_flight

text \<open>One lap moves exactly one count and, for a breach, the list while it has room.\<close>

lemma judge_counts:
  "cm_WithinDeadline (rp_Compliance (judge d now t r)) = cm_WithinDeadline (rp_Compliance r) + of_bool (on_time d t)"
  "cm_Breached (rp_Compliance (judge d now t r)) = cm_Breached (rp_Compliance r) + of_bool (missed d now t)"
  "cm_Outstanding (rp_Compliance (judge d now t r)) = cm_Outstanding (rp_Compliance r) + of_bool (in_flight d now t)"
  "cm_Rate (rp_Compliance (judge d now t r)) = cm_Rate (rp_Compliance r)"
  by (cases rule: judged_cases [of d t now];
      simp add: judge_simps addBreach_def in_time_def breached_def outstanding_def)+

lemma judge_list:
  "rp_Breaches (judge d now t r) =
    (if missed d now t \<and> length (rp_Breaches r) < MaxBreaches then rp_Breaches r @ [breach_of now t] else rp_Breaches r)"
  "rp_Truncated (judge d now t r) \<longleftrightarrow>
    rp_Truncated r \<or> missed d now t \<and> MaxBreaches \<le> length (rp_Breaches r)"
  by (cases rule: judged_cases [of d t now];
      simp add: judge_simps addBreach_def in_time_def breached_def outstanding_def breach_of_def)+

lemma judge_frame:
  "rp_Totals (judge d now t r) = rp_Totals r"
  "rp_Incomplete (judge d now t r) = rp_Incomplete r"
  "rp_Notice (judge d now t r) = rp_Notice r"
  by (cases rule: judged_cases [of d t now];
      simp add: judge_simps addBreach_def in_time_def breached_def outstanding_def)+

lemma judge_loop_fold: "fst (judge_loop d now ts acc) = fold (judge d now) ts (fst acc)"
  by (induction d now ts acc rule: judge_loop.induct) (simp_all add: Let_def)

lemma fold_counts:
  "cm_WithinDeadline (rp_Compliance (fold (judge d now) ts r)) =
     cm_WithinDeadline (rp_Compliance r) + int (length (filter (on_time d) ts))"
  "cm_Breached (rp_Compliance (fold (judge d now) ts r)) =
     cm_Breached (rp_Compliance r) + int (length (filter (missed d now) ts))"
  "cm_Outstanding (rp_Compliance (fold (judge d now) ts r)) =
     cm_Outstanding (rp_Compliance r) + int (length (filter (in_flight d now) ts))"
  "cm_Rate (rp_Compliance (fold (judge d now) ts r)) = cm_Rate (rp_Compliance r)"
  by (induction ts arbitrary: r) (simp_all add: judge_counts)

lemma fold_frame:
  "rp_Totals (fold (judge d now) ts r) = rp_Totals r"
  "rp_Incomplete (fold (judge d now) ts r) = rp_Incomplete r"
  "rp_Notice (fold (judge d now) ts r) = rp_Notice r"
  by (induction ts arbitrary: r) (simp_all add: judge_frame)

lemma fold_list:
  "length (rp_Breaches r) \<le> MaxBreaches \<Longrightarrow>
   rp_Breaches (fold (judge d now) ts r) =
     take MaxBreaches (rp_Breaches r @ map (breach_of now) (filter (missed d now) ts)) \<and>
   (rp_Truncated (fold (judge d now) ts r) \<longleftrightarrow>
     rp_Truncated r \<or> MaxBreaches < length (rp_Breaches r) + length (filter (missed d now) ts))"
proof (induction ts arbitrary: r)
  case Nil
  then show ?case by simp
next
  case (Cons t ts)
  have "length (rp_Breaches (judge d now t r)) \<le> MaxBreaches"
    using Cons.prems by (simp add: judge_list)
  note IH = Cons.IH [OF this]
  show ?case
  proof (cases "missed d now t")
    case True
    show ?thesis
    proof (cases "length (rp_Breaches r) < MaxBreaches")
      case room: True
      then show ?thesis using IH True by (simp add: judge_list)
    next
      case False
      then show ?thesis using IH True Cons.prems by (auto simp: judge_list)
    qed
  qed (use IH in \<open>simp add: judge_list\<close>)
qed

lemmas judge_folds = judge_loop_fold fold_counts fold_frame

lemma three_way: "length (filter (on_time d) ts) + length (filter (missed d now) ts) + length (filter (in_flight d now) ts) = length ts"
  by (induction ts) (auto simp: in_flight_def dest: on_time_not_missed [of d _ now])

definition deadline_of :: "duration \<Rightarrow> duration" where
  "deadline_of d = (if d \<le> 0 then ReportReversalDeadline else d)"

lemma Compute_Compliance:
  "rp_Compliance (Compute inp d now) =
    (let ts = in_Reversals inp; k = int (length (filter (on_time (deadline_of d)) ts));
         b = int (length (filter (missed (deadline_of d) now) ts))
     in \<lparr>cm_WithinDeadline = k, cm_Breached = b,
         cm_Outstanding = int (length (filter (in_flight (deadline_of d) now) ts)),
         cm_Rate = (if k + b > 0 then Some (of_int k / of_int (k + b)) else None)\<rparr>)"
  by (rule Compliance.equality)
    (simp_all add: Compute_def Let_def split_beta judge_folds deadline_of_def)

lemma Compute_Breaches:
  "rp_Breaches (Compute inp d now) = sort_key (\<lambda>b. - bh_ElapsedSeconds b)
     (take MaxBreaches (map (breach_of now) (filter (missed (deadline_of d) now) (in_Reversals inp))))"
  "rp_Truncated (Compute inp d now) \<longleftrightarrow> MaxBreaches < length (filter (missed (deadline_of d) now) (in_Reversals inp))"
  by (simp_all add: Compute_def Let_def split_beta judge_loop_fold fold_list deadline_of_def)

lemma Compute_frame:
  "rp_Incomplete (Compute inp d now) \<longleftrightarrow> in_Incomplete inp"
  "tt_OrphansDetected (rp_Totals (Compute inp d now)) = int (length (in_Reversals inp))"
  by (simp_all add: Compute_def Let_def split_beta judge_folds)

text \<open>
  C29. The compliance report counts every transaction it was given exactly once, as reversed in
  time, breached or outstanding, by when its reversal was confirmed; its rate is over the concluded
  ones alone and absent when there are none; and the breach list holds the first thousand
  breaches, worst first, and is marked truncated exactly when there were more.
\<close>

theorem compliance_accounts:
  "let r = Compute inp d now; c = rp_Compliance r; D = deadline_of d; ts = in_Reversals inp;
       late = filter (missed D now) ts; timely = filter (on_time D) ts; shown = take 1000 late
   in cm_WithinDeadline c + cm_Breached c + cm_Outstanding c = int (length ts) \<and>
      cm_WithinDeadline c = int (length timely) \<and> cm_Breached c = int (length late) \<and>
      cm_Rate c = (if timely = [] \<and> late = [] then None
        else Some (of_nat (length timely) / of_nat (length timely + length late))) \<and>
      sorted (map (\<lambda>b. - bh_ElapsedSeconds b) (rp_Breaches r)) \<and>
      mset (rp_Breaches r) = mset (map (breach_of now) shown) \<and>
      rp_Truncated r = (1000 < length late) \<and> rp_Incomplete r = in_Incomplete inp"
proof -
  have "(if 0 < int (length xs) + int (length ys) then Some (of_int (int (length xs)) / of_int (int (length xs) + int (length ys))) else None) =
      (if xs = [] \<and> ys = [] then None else Some (of_nat (length xs) / of_nat (length xs + length ys) :: rat))"
    for xs ys :: "transaction list"
    by (cases xs; cases ys) auto
  then show ?thesis
    using three_way [of "deadline_of d" "in_Reversals inp" now]
    by (simp add: Compute_Compliance Compute_Breaches Compute_frame MaxBreaches_def Let_def take_map del: of_int_add)
qed

end
