(* ===== verification/Report_Rails.thy ===== *)
theory Report_Rails
  imports Report_Compliance "HOL-Library.Multiset"
begin

text \<open>
  The provider scorecard (\<^verbatim>\<open>internal/report/provider.go\<close>) and the window fit
  (\<^verbatim>\<open>internal/report/windowfit.go\<close>): rails judged by what their transactions did. A
  \<^verbatim>\<open>float64\<close> is the exact rational it stands for.
\<close>

section \<open>Stable sorting by a comparison\<close>

text \<open>\<^verbatim>\<open>sort.SliceStable\<close> with the \<^verbatim>\<open>less\<close> function of the code.\<close>

fun insert_by :: "('a \<Rightarrow> 'a \<Rightarrow> bool) \<Rightarrow> 'a \<Rightarrow> 'a list \<Rightarrow> 'a list" where
  "insert_by lt x [] = [x]"
| "insert_by lt x (y # ys) = (if lt y x then y # insert_by lt x ys else x # y # ys)"

definition stable_sort :: "('a \<Rightarrow> 'a \<Rightarrow> bool) \<Rightarrow> 'a list \<Rightarrow> 'a list" where
  "stable_sort lt xs = foldr (insert_by lt) xs []"

lemma mset_insert_by [simp]: "mset (insert_by lt x ys) = add_mset x (mset ys)"
  by (induction ys) auto

lemma set_insert_by [simp]: "set (insert_by lt x ys) = insert x (set ys)"
  by (induction ys) auto

lemma mset_stable_sort [simp]: "mset (stable_sort lt xs) = mset xs"
  unfolding stable_sort_def by (induction xs) simp_all

lemma set_stable_sort [simp]: "set (stable_sort lt xs) = set xs"
  unfolding stable_sort_def by (induction xs) simp_all

text \<open>What a comparison has to satisfy for the result to be sorted.\<close>

locale comparison =
  fixes lt :: "'a \<Rightarrow> 'a \<Rightarrow> bool"
  assumes asym: "lt a b \<Longrightarrow> \<not> lt b a"
    and between: "lt a c \<Longrightarrow> lt a b \<or> lt b c"
begin

lemma insert_sorted:
  "sorted_wrt (\<lambda>a b. \<not> lt b a) ys \<Longrightarrow> sorted_wrt (\<lambda>a b. \<not> lt b a) (insert_by lt x ys)"
proof (induction ys)
  case (Cons y ys)
  show ?case
  proof (cases "lt y x")
    case True
    with Cons asym show ?thesis by auto
  next
    case False
    with Cons.prems have "\<not> lt z x" if "z \<in> set ys" for z
      using between [of z x y] that by auto
    with False Cons.prems show ?thesis by auto
  qed
qed simp

lemma in_order: "sorted_wrt (\<lambda>a b. \<not> lt b a) (stable_sort lt xs)"
  unfolding stable_sort_def by (induction xs) (simp_all add: insert_sorted)

end

section \<open>The scorecard\<close>

definition MinScorecardSample :: int where "MinScorecardSample = 30"

record ProviderStat =
  ps_Provider :: string
  ps_Total :: int
  ps_Settled :: int
  ps_Failed :: int
  ps_Suspect :: int
  ps_StillOpen :: int
  ps_P50 :: rat
  ps_P95 :: rat
  ps_Max :: rat

record ProviderScore =
  sc_Provider :: string
  sc_Total :: int
  sc_Settled :: int
  sc_Failed :: int
  sc_Suspect :: int
  sc_StillOpen :: int
  sc_FailureRate :: "rat option"
  sc_LowSample :: bool
  sc_Settlement :: Latency
  sc_Verdict :: string

record Scorecard =
  cd_TenantID :: string
  cd_From :: gotime
  cd_To :: gotime
  cd_Providers :: "ProviderScore list"
  cd_Scope :: string

definition provider_rank :: "ProviderScore \<Rightarrow> int" where
  "provider_rank s = (if sc_FailureRate s = None then 2 else if sc_LowSample s then 1 else 0)"

definition verdictFor :: "ProviderScore \<Rightarrow> int \<Rightarrow> string" where
  "verdictFor s concluded =
    (if concluded = 0 then ''nothing has concluded in this period; no judgement to make''
     else if sc_LowSample s then ''only '' @ show_int concluded @ '' concluded transactions; too thin to route on''
     else if (case sc_FailureRate s of None \<Rightarrow> False | Some rate \<Rightarrow> rate \<ge> 5 / 100)
     then fixed1 (the (sc_FailureRate s) * 100) @ ''% of transactions did not settle; worth raising with them''
     else if sc_Suspect s > 0 \<and> sc_Suspect s * 20 \<ge> concluded
     then show_int (sc_Suspect s) @ '' transactions could not be resolved either way; ''
       @ ''their status API is the problem, not their settlement''
     else ''settling normally'')"

definition score_provider :: "ProviderStat \<Rightarrow> ProviderScore" where
  "score_provider s =
    (let score = \<lparr>sc_Provider = ps_Provider s, sc_Total = ps_Total s, sc_Settled = ps_Settled s, sc_Failed = ps_Failed s,
           sc_Suspect = ps_Suspect s, sc_StillOpen = ps_StillOpen s, sc_FailureRate = None, sc_LowSample = False,
           sc_Settlement = \<lparr>lt_Samples = ps_Settled s, lt_P50 = round1 (ps_P50 s), lt_P95 = round1 (ps_P95 s),
             lt_Max = round1 (ps_Max s)\<rparr>,
           sc_Verdict = ''''\<rparr>;
         score = (if ps_Settled s = 0 then score\<lparr>sc_Settlement := no_latency\<rparr> else score);
         concluded = ps_Settled s + ps_Failed s + ps_Suspect s;
         score = (if concluded > 0
           then score\<lparr>sc_FailureRate := Some (of_int (ps_Failed s + ps_Suspect s) / of_int concluded),
             sc_LowSample := concluded < MinScorecardSample\<rparr>
           else score)
     in score\<lparr>sc_Verdict := verdictFor score concluded\<rparr>)"

definition worse_rail :: "ProviderScore \<Rightarrow> ProviderScore \<Rightarrow> bool" where
  "worse_rail a b =
    (if provider_rank a \<noteq> provider_rank b then provider_rank a < provider_rank b
     else case (sc_FailureRate a, sc_FailureRate b) of
       (Some ra, Some rb) \<Rightarrow> if ra \<noteq> rb then ra > rb else lt_P95 (sc_Settlement a) > lt_P95 (sc_Settlement b)
     | _ \<Rightarrow> lt_P95 (sc_Settlement a) > lt_P95 (sc_Settlement b))"

definition ScoreProviders :: "string \<Rightarrow> gotime \<Rightarrow> gotime \<Rightarrow> ProviderStat list \<Rightarrow> Scorecard" where
  "ScoreProviders tenantID from to stats =
    \<lparr>cd_TenantID = tenantID, cd_From = from, cd_To = to,
     cd_Providers = stable_sort worse_rail (map score_provider stats),
     cd_Scope = ''this deployment's own traffic only; not an industry benchmark''\<rparr>"

section \<open>The window fit\<close>

definition SafetyMargin :: rat where "SafetyMargin = 3 / 2"
definition MinWindowSamples :: int where "MinWindowSamples = 30"

record WindowFit =
  wf_Provider :: string
  wf_WindowSeconds :: int
  wf_P95Seconds :: rat
  wf_MaxSeconds :: rat
  wf_SettledSamples :: int
  wf_RecommendedSecs :: int
  wf_Verdict :: string
  wf_TooTight :: bool

record WindowReport =
  wr_TenantID :: string
  wr_From :: gotime
  wr_To :: gotime
  wr_Rails :: "WindowFit list"
  wr_Notice :: string

definition recommend :: "rat \<Rightarrow> int" where
  "recommend p95 =
    (let want = to_int (p95 * SafetyMargin) + 1
     in case filter (\<lambda>step. want \<le> step) [30, 60, 120, 300, 600, 900, 1800, 3600] of
          step # _ \<Rightarrow> step
        | [] \<Rightarrow> (go_div want 3600 + 1) * 3600)"

definition comfortable :: string where "comfortable = ''window comfortably clears observed latency''"

definition fit_window :: "int \<Rightarrow> ProviderStat \<Rightarrow> WindowFit" where
  "fit_window configured s =
    (let fit = \<lparr>wf_Provider = ps_Provider s, wf_WindowSeconds = configured, wf_P95Seconds = round1 (ps_P95 s),
           wf_MaxSeconds = round1 (ps_Max s), wf_SettledSamples = ps_Settled s, wf_RecommendedSecs = 0,
           wf_Verdict = '''', wf_TooTight = False\<rparr>
     in if ps_Settled s < MinWindowSamples
        then fit\<lparr>wf_Verdict := ''only '' @ show_int (ps_Settled s) @ '' settled transactions; too few to size a window on''\<rparr>
        else if of_int configured \<le> ps_P95 s
        then fit\<lparr>wf_TooTight := True, wf_RecommendedSecs := recommend (ps_P95 s),
          wf_Verdict := ''window is '' @ show_int configured @ ''s but 5% of settlements take longer than '' @ fixed0 (ps_P95 s)
            @ ''s; those are being detected as orphans. Widen to about '' @ show_int (recommend (ps_P95 s)) @ ''s''\<rparr>
        else if of_int configured < ps_P95 s * SafetyMargin
        then fit\<lparr>wf_RecommendedSecs := recommend (ps_P95 s),
          wf_Verdict := ''window is '' @ show_int configured @ ''s against a p95 of '' @ fixed0 (ps_P95 s)
            @ ''s '' @ [CHR 0xE2, CHR 0x80, CHR 0x94] @ '' little headroom. About '' @ show_int (recommend (ps_P95 s)) @ ''s would be safer''\<rparr>
        else fit\<lparr>wf_Verdict := comfortable\<rparr>)"

definition headroom :: "WindowFit \<Rightarrow> rat" where
  "headroom f = (if wf_P95Seconds f \<le> 0 then 1000000000 else of_int (wf_WindowSeconds f) / wf_P95Seconds f)"

definition tighter :: "WindowFit \<Rightarrow> WindowFit \<Rightarrow> bool" where
  "tighter a b = (if wf_TooTight a \<noteq> wf_TooTight b then wf_TooTight a else headroom a < headroom b)"

text \<open>\<open>window\<close> finds the configured window of a rail; a rail without one is left out.\<close>

definition FitWindows ::
  "string \<Rightarrow> gotime \<Rightarrow> gotime \<Rightarrow> ProviderStat list \<Rightarrow> (string \<Rightarrow> int option) \<Rightarrow> WindowReport" where
  "FitWindows tenantID from to stats window =
    \<lparr>wr_TenantID = tenantID, wr_From = from, wr_To = to,
     wr_Rails = stable_sort tighter
       (List.map_filter (\<lambda>s. map_option (\<lambda>configured. fit_window configured s) (window (ps_Provider s))) stats),
     wr_Notice = ''settlement latency is measured only on transactions that settled. ''
       @ ''A window at or below it turns slow settlements into orphans that were never failures.''\<rparr>"

section \<open>Both comparisons sort\<close>

interpretation rails: comparison worse_rail
proof
  show "\<not> worse_rail b a" if "worse_rail a b" for a b
    using that by (auto simp: worse_rail_def split: option.splits if_splits)
  show "worse_rail a b \<or> worse_rail b c" if "worse_rail a c" for a b c
    using that
    by (cases "sc_FailureRate a"; cases "sc_FailureRate b"; cases "sc_FailureRate c")
      (auto simp: worse_rail_def provider_rank_def split: if_splits)
qed

interpretation fits: comparison tighter
  by unfold_locales (auto simp: tighter_def split: if_splits)

section \<open>What the judgements are\<close>

lemma recommend_covers: "p95 * SafetyMargin < of_int (recommend p95) \<and> 30 \<le> recommend p95"
proof -
  define want where "want = to_int (p95 * SafetyMargin) + 1"
  have margin: "p95 * SafetyMargin < of_int want"
    unfolding want_def to_int_def by (simp; linarith)
  have "want \<le> recommend p95 \<and> 30 \<le> recommend p95"
  proof (cases "want \<le> 3600")
    case True
    then show ?thesis by (auto simp: recommend_def want_def Let_def)
  next
    case False
    then have "recommend p95 = (want div 3600 + 1) * 3600"
      by (simp add: recommend_def want_def [symmetric] go_div_def Let_def)
    moreover have "want < (want div 3600 + 1) * 3600"
      using div_mult_mod_eq [of want 3600] pos_mod_bound [of 3600 want] by (simp add: algebra_simps)
    ultimately show ?thesis using False by simp
  qed
  then have "of_int want \<le> (of_int (recommend p95) :: rat)" "30 \<le> recommend p95"
    by simp_all
  with margin show ?thesis by linarith
qed

lemma recommended_enough:
  "ps_P95 s < of_int (recommend (ps_P95 s))" "ps_P95 s * SafetyMargin < of_int (recommend (ps_P95 s))"
proof -
  note r = recommend_covers [of "ps_P95 s"]
  then show "ps_P95 s * SafetyMargin < of_int (recommend (ps_P95 s))" ..
  have "0 < (of_int (recommend (ps_P95 s)) :: rat)"
    using r by simp
  with r show "ps_P95 s < of_int (recommend (ps_P95 s))"
    by (cases "0 \<le> ps_P95 s") (simp_all add: SafetyMargin_def)
qed

lemma recommended_comfortable:
  assumes "MinWindowSamples \<le> ps_Settled s"
  shows "wf_Verdict (fit_window (recommend (ps_P95 s)) s) = comfortable"
  using assms recommended_enough [of s] by (simp add: fit_window_def Let_def)

lemma recommended_wider:
  assumes "wf_RecommendedSecs (fit_window c s) \<noteq> 0"
  shows "MinWindowSamples \<le> ps_Settled s" "wf_RecommendedSecs (fit_window c s) = recommend (ps_P95 s)"
    "c < recommend (ps_P95 s)"
proof -
  from assms show "MinWindowSamples \<le> ps_Settled s" "wf_RecommendedSecs (fit_window c s) = recommend (ps_P95 s)"
    by (auto simp: fit_window_def Let_def split: if_splits)
  from assms have "of_int c \<le> ps_P95 s \<or> of_int c < ps_P95 s * SafetyMargin"
    by (auto simp: fit_window_def Let_def split: if_splits)
  then have "of_int c < (of_int (recommend (ps_P95 s)) :: rat)"
    using recommended_enough [of s] by linarith
  then show "c < recommend (ps_P95 s)" by simp
qed

lemma too_tight_exact:
  "wf_TooTight (fit_window c s) \<longleftrightarrow> MinWindowSamples \<le> ps_Settled s \<and> of_int c \<le> ps_P95 s"
  by (auto simp: fit_window_def Let_def)

text \<open>
  The window fit judges every rail that has a window once, rails whose window makes orphans
  first and then by headroom; a window is too tight exactly when at least 30 transactions settled
  and it does not exceed their 95th percentile; and a recommended window is wider than the
  configured one and, once adopted, is found comfortable on the same traffic.
\<close>

theorem FitWindows_exact:
  "let rails = wr_Rails (FitWindows tenantID from to stats window);
       judged = filter (\<lambda>s. window (ps_Provider s) \<noteq> None) stats;
       fit = (\<lambda>s. fit_window (the (window (ps_Provider s))) s)
   in mset rails = mset (map fit judged) \<and> sorted_wrt (\<lambda>a b. \<not> tighter b a) rails \<and>
      list_all (\<lambda>s.
        (wf_TooTight (fit s) \<longleftrightarrow> 30 \<le> ps_Settled s \<and> of_int (the (window (ps_Provider s))) \<le> ps_P95 s) \<and>
        (wf_RecommendedSecs (fit s) = 0 \<or>
          wf_RecommendedSecs (fit s) > the (window (ps_Provider s)) \<and>
          wf_Verdict (fit_window (wf_RecommendedSecs (fit s)) s) = comfortable)) judged"
proof -
  let ?fit = "\<lambda>s. fit_window (the (window (ps_Provider s))) s"
  have "List.map_filter (\<lambda>s. map_option (\<lambda>c. fit_window c s) (window (ps_Provider s))) stats =
      map ?fit (filter (\<lambda>s. window (ps_Provider s) \<noteq> None) stats)"
    by (induction stats) (auto simp: List.map_filter_simps)
  moreover have "wf_RecommendedSecs (?fit s) = 0 \<or>
      wf_RecommendedSecs (?fit s) > the (window (ps_Provider s)) \<and>
      wf_Verdict (fit_window (wf_RecommendedSecs (?fit s)) s) = comfortable" for s
    using recommended_wider recommended_comfortable by (metis (no_types))
  ultimately show ?thesis
    by (simp add: FitWindows_def Let_def fits.in_order list_all_iff too_tight_exact MinWindowSamples_def)
qed

lemma scored:
  "sc_LowSample (score_provider s) \<longleftrightarrow>
     0 < ps_Settled s + ps_Failed s + ps_Suspect s \<and> ps_Settled s + ps_Failed s + ps_Suspect s < MinScorecardSample"
  "sc_FailureRate (score_provider s) =
     (let n = ps_Settled s + ps_Failed s + ps_Suspect s
      in if 0 < n then Some (of_int (ps_Failed s + ps_Suspect s) / of_int n) else None)"
  by (simp_all add: score_provider_def Let_def)

definition fails_less :: "ProviderScore \<Rightarrow> ProviderScore \<Rightarrow> bool" where
  "fails_less a b = (case (sc_FailureRate a, sc_FailureRate b) of (Some ra, Some rb) \<Rightarrow> ra < rb | _ \<Rightarrow> False)"

definition ranked :: "ProviderScore \<Rightarrow> ProviderScore \<Rightarrow> bool" where
  "ranked a b = (if provider_rank a = provider_rank b then \<not> fails_less a b else provider_rank a < provider_rank b)"

text \<open>
  The scorecard judges every rail once, with its failure rate over concluded transactions
  alone; rails worth acting on stand before rails with too few, those before rails with none, and
  within a tier no rail fails less than one below it.
\<close>

theorem scorecard_exact:
  "let card = cd_Providers (ScoreProviders tenantID from to stats)
   in mset card = mset (map score_provider stats) \<and>
      sorted_wrt ranked card \<and>
      list_all (\<lambda>s. let n = ps_Settled s + ps_Failed s + ps_Suspect s; score = score_provider s in
        sc_FailureRate score = (if 0 < n then Some (of_int (ps_Failed s + ps_Suspect s) / of_int n) else None) \<and>
        provider_rank score = (if n \<le> 0 then 2 else if n < 30 then 1 else 0)) stats"
proof -
  have "sorted_wrt ranked (stable_sort worse_rail (map score_provider stats))"
    by (rule sorted_wrt_mono_rel [OF _ rails.in_order])
      (auto simp: worse_rail_def ranked_def fails_less_def split: if_splits option.splits)
  then show ?thesis
    by (simp add: ScoreProviders_def list_all_iff scored provider_rank_def MinScorecardSample_def Let_def)
qed

end
