(* ===== verification/Report_Exposure.thy ===== *)
theory Report_Exposure
  imports Go_Prelude
begin

text \<open>
  The exposure report (\<^verbatim>\<open>internal/report/exposure.go\<close>): money that left and has neither arrived
  nor come back, per currency and by age. A \<^verbatim>\<open>map[string]T\<close> is an association list.
\<close>

section \<open>Scopes and age bands\<close>

type_synonym scope = string

definition ScopeAll :: scope where "ScopeAll = ''all''"
definition ScopeBackfill :: scope where "ScopeBackfill = ''backfill''"
definition ScopeLive :: scope where "ScopeLive = ''live''"

definition ValidScope :: "scope \<Rightarrow> bool" where
  "ValidScope s \<longleftrightarrow> s = ScopeAll \<or> s = ScopeBackfill \<or> s = ScopeLive"

record ExposureTotal =
  xt_Currency :: string
  xt_Transactions :: int
  xt_Customers :: int
  xt_AmountMinor :: int
  xt_OldestDebitAt :: gotime
  xt_UnresolvedTransactions :: int
  xt_UnresolvedAmountMinor :: int

record AgeBand =
  ab_Currency :: string
  ab_Band :: string
  ab_Transactions :: int
  ab_AmountMinor :: int

definition AgeBands :: "(string \<times> duration) list" where
  "AgeBands = [(''over_30d'', 30 * 24 * hour), (''7d_to_30d'', 7 * 24 * hour), (''1d_to_7d'', 24 * hour), (''under_1d'', 0)]"

definition BandFor :: "duration \<Rightarrow> string" where
  "BandFor age =
    (case filter (\<lambda>(name, from). age \<ge> from) AgeBands of
       (name, from) # _ \<Rightarrow> name
     | [] \<Rightarrow> fst (last AgeBands))"

section \<open>The report\<close>

record AgeBandView =
  av_Band :: string
  av_Transactions :: int
  av_AmountMinor :: int

record UnresolvedExposure =
  ux_Transactions :: int
  ux_AmountMinor :: int

record CurrencyExposure =
  ce_Currency_code :: string
  ce_Transactions :: int
  ce_Customers :: int
  ce_Exposed :: int
  ce_OldestDebitAt :: gotime
  ce_OldestAgeDays :: int
  ce_Unresolved :: UnresolvedExposure
  ce_ByAge :: "AgeBandView list"

record Exposure =
  xp_TenantID :: string
  xp_AsOf :: gotime
  xp_Scope :: scope
  xp_Currencies :: "CurrencyExposure list"
  xp_Notice :: string

definition exposure_notice :: string where
  "exposure_notice = ''debits with no confirmed credit and no confirmed reversal. ''
    @ ''Amounts are per currency and are never summed across them. ''
    @ ''ReconSync moves no money: these are transactions for your own system to settle or reverse.''"

text \<open>\<open>byCurrency\<close>, filled in the order of the bands; an absent key reads as no bands.\<close>

fun byCurrency :: "AgeBand list \<Rightarrow> (string \<times> AgeBandView list) list \<Rightarrow> (string \<times> AgeBandView list) list" where
  "byCurrency [] m = m"
| "byCurrency (b # bands) m =
    byCurrency bands (AList.update (ab_Currency b)
      (inner m (ab_Currency b) @ [\<lparr>av_Band = ab_Band b, av_Transactions = ab_Transactions b, av_AmountMinor = ab_AmountMinor b\<rparr>]) m)"

text \<open>\<open>order\<close>: where a band stands in \<open>AgeBands\<close>; Go's zero for a name that is not there.\<close>

fun order_from :: "int \<Rightarrow> (string \<times> duration) list \<Rightarrow> (string \<times> int) list \<Rightarrow> (string \<times> int) list" where
  "order_from i [] m = m"
| "order_from i (b # bands) m = order_from (i + 1) bands (AList.update (fst b) i m)"

definition band_order :: "string \<Rightarrow> int" where
  "band_order name = (case map_of (order_from 0 AgeBands []) name of None \<Rightarrow> 0 | Some i \<Rightarrow> i)"

definition expose_currency :: "(string \<times> AgeBandView list) list \<Rightarrow> gotime \<Rightarrow> ExposureTotal \<Rightarrow> CurrencyExposure" where
  "expose_currency m now t =
    \<lparr>ce_Currency_code = xt_Currency t, ce_Transactions = xt_Transactions t, ce_Customers = xt_Customers t,
     ce_Exposed = xt_AmountMinor t, ce_OldestDebitAt = xt_OldestDebitAt t,
     ce_OldestAgeDays = (if IsZero (xt_OldestDebitAt t) then 0 else go_div (time_sub now (xt_OldestDebitAt t)) (24 * hour)),
     ce_Unresolved = \<lparr>ux_Transactions = xt_UnresolvedTransactions t, ux_AmountMinor = xt_UnresolvedAmountMinor t\<rparr>,
     ce_ByAge = sort_key (\<lambda>v. band_order (av_Band v)) (inner m (xt_Currency t))\<rparr>"

definition ComputeExposure :: "string \<Rightarrow> scope \<Rightarrow> ExposureTotal list \<Rightarrow> AgeBand list \<Rightarrow> gotime \<Rightarrow> Exposure" where
  "ComputeExposure tenantID scope totals bands now =
    \<lparr>xp_TenantID = tenantID, xp_AsOf = now, xp_Scope = scope,
     xp_Currencies = sort_key (\<lambda>c. - ce_Exposed c) (map (expose_currency (byCurrency bands []) now) totals),
     xp_Notice = exposure_notice\<rparr>"

section \<open>Lemmas\<close>

definition view_of_band :: "AgeBand \<Rightarrow> AgeBandView" where
  "view_of_band b = \<lparr>av_Band = ab_Band b, av_Transactions = ab_Transactions b, av_AmountMinor = ab_AmountMinor b\<rparr>"

lemma byCurrency_inner:
  "inner (byCurrency bands m) c = inner m c @ map view_of_band (filter (\<lambda>b. ab_Currency b = c) bands)"
  by (induction bands m rule: byCurrency.induct) (auto simp: view_of_band_def)

lemma BandFor_cases:
  "BandFor age = (if age \<ge> 30 * 24 * hour then ''over_30d'' else if age \<ge> 7 * 24 * hour then ''7d_to_30d''
     else if age \<ge> 24 * hour then ''1d_to_7d'' else ''under_1d'')"
  by (simp add: BandFor_def AgeBands_def)

lemma band_order_values:
  "band_order ''over_30d'' = 0" "band_order ''7d_to_30d'' = 1" "band_order ''1d_to_7d'' = 2" "band_order ''under_1d'' = 3"
  by (simp_all add: band_order_def AgeBands_def)

lemma band_order_BandFor_mono: "age \<le> age' \<Longrightarrow> band_order (BandFor age') \<le> band_order (BandFor age)"
  by (simp add: BandFor_cases band_order_values)

lemma band_order_BandFor_inj: "band_order (BandFor a) = band_order (BandFor b) \<Longrightarrow> BandFor a = BandFor b"
  by (auto simp: BandFor_cases band_order_values split: if_splits)

end
