(* ===== verification/Report_Queries.thy ===== *)
theory Report_Queries
  imports Store_Transactions Report_Rails Report_Exposure
begin

text \<open>
  What the in-memory store answers the reports with (\<^verbatim>\<open>internal/store/memory_report.go\<close>,
  \<^verbatim>\<open>memory_exposure.go\<close>).
\<close>

section \<open>Counts and candidates\<close>

definition inPeriod :: "gotime \<Rightarrow> gotime \<Rightarrow> gotime \<Rightarrow> bool" where
  "inPeriod t from to \<longleftrightarrow> \<not> t < from \<and> t < to"

abbreviation tenant_rows :: "memory \<Rightarrow> string \<Rightarrow> transaction list" where
  "tenant_rows m tenantID \<equiv> map snd (inner (m_byTenant m) tenantID)"

fun count_rows :: "gotime \<Rightarrow> gotime \<Rightarrow> transaction list \<Rightarrow> (status \<times> int) list \<Rightarrow> (status \<times> int) list" where
  "count_rows from to [] out = out"
| "count_rows from to (t # ts) out =
    (if \<not> inPeriod (tx_DebitAt t) from to then count_rows from to ts out
     else count_rows from to ts
       (AList.update (tx_Status t) ((case map_of out (tx_Status t) of None \<Rightarrow> 0 | Some n \<Rightarrow> n) + 1) out))"

definition CountByStatus :: "string \<Rightarrow> gotime \<Rightarrow> gotime \<Rightarrow> memory \<Rightarrow> (status \<times> int) list outcome" where
  "CountByStatus tenantID from to m = (Inr (count_rows from to (tenant_rows m tenantID) []), m)"

definition ListReversalCandidates ::
  "string \<Rightarrow> gotime \<Rightarrow> gotime \<Rightarrow> int \<Rightarrow> memory \<Rightarrow> transaction list outcome" where
  "ListReversalCandidates tenantID from to limit m =
    (let limit = (if limit \<le> 0 then 10000 else limit);
         out = filter (\<lambda>t. \<not> (\<not> inPeriod (tx_DebitAt t) from to \<or> tx_DetectedAt t = None)) (tenant_rows m tenantID)
     in (Inr (take (nat limit) (sort_key tx_DebitAt out)), m))"

section \<open>Rails\<close>

definition percentiles :: "rat list \<Rightarrow> rat \<times> rat \<times> rat" where
  "percentiles values =
    (if length values = 0 then (0, 0, 0)
     else let xs = sort values;
              at_rank = (\<lambda>p. let idx = to_int (p * of_nat (length xs) + 1 / 2) - 1;
                                idx = (if idx < 0 then 0 else idx);
                                idx = (if idx \<ge> int (length xs) then int (length xs) - 1 else idx)
                            in xs ! nat idx)
          in (at_rank (50 / 100), at_rank (95 / 100), xs ! (length xs - 1)))"

definition rail_of :: "transaction \<Rightarrow> string" where
  "rail_of t = (if tx_Provider t = '''' then ''unspecified'' else tx_Provider t)"

definition add_rail :: "transaction \<Rightarrow> ProviderStat \<times> rat list \<Rightarrow> ProviderStat \<times> rat list" where
  "add_rail t a =
    (let stat = (fst a)\<lparr>ps_Total := ps_Total (fst a) + 1\<rparr>
     in case tx_Status t of
          StatusCompleted \<Rightarrow>
            (stat\<lparr>ps_Settled := ps_Settled stat + 1\<rparr>,
             case tx_CreditAt t of
               None \<Rightarrow> snd a
             | Some creditAt \<Rightarrow> snd a @ [seconds (time_sub creditAt (tx_DebitAt t))])
        | StatusOrphaned \<Rightarrow> (stat\<lparr>ps_Failed := ps_Failed stat + 1\<rparr>, snd a)
        | StatusReversalPending \<Rightarrow> (stat\<lparr>ps_Failed := ps_Failed stat + 1\<rparr>, snd a)
        | StatusReversalCompleted \<Rightarrow> (stat\<lparr>ps_Failed := ps_Failed stat + 1\<rparr>, snd a)
        | StatusReversalFailed \<Rightarrow> (stat\<lparr>ps_Failed := ps_Failed stat + 1\<rparr>, snd a)
        | StatusSuspect \<Rightarrow> (stat\<lparr>ps_Suspect := ps_Suspect stat + 1\<rparr>, snd a)
        | StatusPendingDebit \<Rightarrow> (stat\<lparr>ps_StillOpen := ps_StillOpen stat + 1\<rparr>, snd a)
        | StatusPendingUnknown \<Rightarrow> (stat\<lparr>ps_StillOpen := ps_StillOpen stat + 1\<rparr>, snd a))"

definition new_rail :: "string \<Rightarrow> ProviderStat \<times> rat list" where
  "new_rail rail =
    (\<lparr>ps_Provider = rail, ps_Total = 0, ps_Settled = 0, ps_Failed = 0, ps_Suspect = 0, ps_StillOpen = 0,
      ps_P50 = 0, ps_P95 = 0, ps_Max = 0\<rparr>, [])"

type_synonym rail_accs = "(string \<times> ProviderStat \<times> rat list) list"

fun rail_loop :: "gotime \<Rightarrow> gotime \<Rightarrow> transaction list \<Rightarrow> rail_accs \<Rightarrow> rail_accs" where
  "rail_loop from to [] byRail = byRail"
| "rail_loop from to (t # ts) byRail =
    (if \<not> inPeriod (tx_DebitAt t) from to then rail_loop from to ts byRail
     else rail_loop from to ts
       (AList.update (rail_of t)
         (add_rail t (case map_of byRail (rail_of t) of None \<Rightarrow> new_rail (rail_of t) | Some a \<Rightarrow> a)) byRail))"

definition ProviderStats :: "string \<Rightarrow> gotime \<Rightarrow> gotime \<Rightarrow> memory \<Rightarrow> ProviderStat list outcome" where
  "ProviderStats tenantID from to m =
    (let byRail = rail_loop from to (tenant_rows m tenantID) [];
         out = map (\<lambda>(rail, stat, latencies).
           case percentiles latencies of (p50, p95, mx) \<Rightarrow> stat\<lparr>ps_P50 := p50, ps_P95 := p95, ps_Max := mx\<rparr>) byRail
     in (Inr (sort_key ps_Provider out), m))"

section \<open>Exposure\<close>

definition isExposed :: "status \<Rightarrow> bool" where
  "isExposed s \<longleftrightarrow>
    (case s of
       StatusOrphaned \<Rightarrow> True | StatusReversalPending \<Rightarrow> True | StatusReversalFailed \<Rightarrow> True | StatusSuspect \<Rightarrow> True
     | _ \<Rightarrow> False)"

definition inScope :: "bool \<Rightarrow> scope \<Rightarrow> bool" where
  "inScope isBackfill scope =
    (if scope = ScopeBackfill then isBackfill else if scope = ScopeLive then \<not> isBackfill else True)"

type_synonym bands = "((string \<times> string) \<times> AgeBand) list"

definition accumulateBand :: "bands \<Rightarrow> string \<Rightarrow> duration \<Rightarrow> int \<Rightarrow> bands" where
  "accumulateBand agg currency age amount =
    (let key = (currency, BandFor age);
         b = (case map_of agg key of
                Some b \<Rightarrow> b
              | None \<Rightarrow> \<lparr>ab_Currency = currency, ab_Band = snd key, ab_Transactions = 0, ab_AmountMinor = 0\<rparr>)
     in AList.update key
          (b\<lparr>ab_Transactions := ab_Transactions b + 1, ab_AmountMinor := wrap64 (ab_AmountMinor b + amount)\<rparr>) agg)"

definition flattenBands :: "bands \<Rightarrow> AgeBand list" where
  "flattenBands agg = map snd agg"

text \<open>An accumulator is a total and the set of customers behind it.\<close>

type_synonym accs = "(string \<times> ExposureTotal \<times> string list) list"

definition outstanding_of :: "transaction \<Rightarrow> int" where
  "outstanding_of t =
    (let outstanding = wrap64 (tx_AmountMinor t - tx_CreditedMinor t) in if outstanding < 0 then 0 else outstanding)"

definition add_exposed :: "gotime \<Rightarrow> transaction \<Rightarrow> accs \<times> bands \<Rightarrow> accs \<times> bands" where
  "add_exposed now t s =
    (let (totals, customers) =
           (case map_of (fst s) (tx_Currency t) of
              Some a \<Rightarrow> a
            | None \<Rightarrow> (\<lparr>xt_Currency = tx_Currency t, xt_Transactions = 0, xt_Customers = 0, xt_AmountMinor = 0,
                xt_OldestDebitAt = tx_DebitAt t, xt_UnresolvedTransactions = 0, xt_UnresolvedAmountMinor = 0\<rparr>, []));
         outstanding = outstanding_of t;
         totals = totals\<lparr>xt_Transactions := xt_Transactions totals + 1,
           xt_AmountMinor := wrap64 (xt_AmountMinor totals + outstanding)\<rparr>;
         customers = List.insert (tx_CustomerRefHash t) customers;
         totals = (if tx_DebitAt t < xt_OldestDebitAt totals then totals\<lparr>xt_OldestDebitAt := tx_DebitAt t\<rparr> else totals);
         totals = (if tx_Status t = StatusSuspect
           then totals\<lparr>xt_UnresolvedTransactions := xt_UnresolvedTransactions totals + 1,
             xt_UnresolvedAmountMinor := wrap64 (xt_UnresolvedAmountMinor totals + outstanding)\<rparr>
           else totals)
     in (AList.update (tx_Currency t) (totals, customers) (fst s),
         accumulateBand (snd s) (tx_Currency t) (time_sub now (tx_DebitAt t)) outstanding))"

fun exposure_loop :: "scope \<Rightarrow> gotime \<Rightarrow> transaction list \<Rightarrow> accs \<times> bands \<Rightarrow> accs \<times> bands" where
  "exposure_loop scope now [] s = s"
| "exposure_loop scope now (t # ts) s =
    (if \<not> isExposed (tx_Status t) \<or> \<not> inScope (tx_IsBackfill t) scope then exposure_loop scope now ts s
     else exposure_loop scope now ts (add_exposed now t s))"

definition Exposure_rows :: "string \<Rightarrow> scope \<Rightarrow> gotime \<Rightarrow> memory \<Rightarrow> (ExposureTotal list \<times> AgeBand list) outcome" where
  "Exposure_rows tenantID scope now m =
    (let (byCurrency, bands) = exposure_loop scope now (tenant_rows m tenantID) ([], []);
         totals = map (\<lambda>(currency, t, customers). t\<lparr>xt_Customers := int (length customers)\<rparr>) byCurrency
     in (Inr (sort_key xt_Currency totals, flattenBands bands), m))"

end
