(* ===== verification/Ingest_Api.thy ===== *)
theory Ingest_Api
  imports Pipeline Store_Port Auth Go_Text Report_Queries
begin

text \<open>
  The HTTP front door (\<^verbatim>\<open>internal/ingest/handlers.go\<close>, the helpers of \<^verbatim>\<open>server.go\<close>): what a
  request becomes and what it is answered with. A request arrives with its body decoded, as
  \<^verbatim>\<open>encoding/json\<close> does it, and with the principal the authentication found. The server's state is a
  pair: what the store holds and what the event sink holds. One request reads the clock once; the
  log, and the rendering of an answer as JSON, are not modelled.
\<close>

section \<open>The server\<close>

record 's claim_store =
  cs_ClaimReversal :: "string \<Rightarrow> string \<Rightarrow> string \<Rightarrow> string \<Rightarrow> gotime \<Rightarrow> ('s, ReversalClaim \<times> bool) action"
  cs_GetReversalClaim :: "string \<Rightarrow> string \<Rightarrow> ('s, ReversalClaim) action"
  cs_ReleaseReversalClaim :: "string \<Rightarrow> string \<Rightarrow> ('s, unit) action"
  cs_ConfirmReversalClaim :: "string \<Rightarrow> string \<Rightarrow> gotime \<Rightarrow> ('s, unit) action"

definition memory_claims :: "memory claim_store" where
  "memory_claims =
    \<lparr>cs_ClaimReversal = ClaimReversal, cs_GetReversalClaim = GetReversalClaim,
     cs_ReleaseReversalClaim = ReleaseReversalClaim, cs_ConfirmReversalClaim = ConfirmReversalClaim\<rparr>"

record 's report_store =
  st_CountByStatus :: "string \<Rightarrow> gotime \<Rightarrow> gotime \<Rightarrow> ('s, (status \<times> int) list) action"
  st_ListReversalCandidates :: "string \<Rightarrow> gotime \<Rightarrow> gotime \<Rightarrow> int \<Rightarrow> ('s, transaction list) action"
  st_ProviderStats :: "string \<Rightarrow> gotime \<Rightarrow> gotime \<Rightarrow> ('s, ProviderStat list) action"
  st_Exposure :: "string \<Rightarrow> scope \<Rightarrow> gotime \<Rightarrow> ('s, ExposureTotal list \<times> AgeBand list) action"

definition memory_reports :: "memory report_store" where
  "memory_reports =
    \<lparr>st_CountByStatus = CountByStatus, st_ListReversalCandidates = ListReversalCandidates,
     st_ProviderStats = ProviderStats, st_Exposure = Exposure_rows\<rparr>"

text \<open>\<open>sv_licence\<close> is \<^verbatim>\<open>None\<close> when no licence is configured, and otherwise whether the reports may be
  served and the notice; \<open>sv_error_text\<close> is \<^verbatim>\<open>err.Error()\<close>.\<close>

record ('m, 'q) Server =
  sv_Submit :: "Event \<Rightarrow> ('q, unit) action"
  sv_rules :: "string \<Rightarrow> goerror + Rule list"
  sv_store :: "'m transaction_store"
  sv_audit :: "'m audit_store option"
  sv_claims :: "'m claim_store option"
  sv_reports :: "'m report_store option"
  sv_licence :: "(bool \<times> string) option"
  sv_now :: gotime
  sv_retryAfter :: duration
  sv_error_text :: "goerror \<Rightarrow> string"

definition MaxBulkEvents :: nat where "MaxBulkEvents = 1000"
definition maxClockSkew :: duration where "maxClockSkew = 5 * minute"

section \<open>Requests and answers\<close>

record debitRequest =
  dq_TransactionID :: string
  dq_IdempotencyKey :: string
  dq_TransactionType :: string
  dq_Provider :: string
  dq_AmountMinor :: int
  dq_Currency :: string
  dq_DebitAt :: gotime
  dq_CustomerRef :: string
  dq_Metadata :: "(string \<times> json) list"
  dq_Backfill :: bool
  dq_ExpectedCreditMinor :: int

record creditRequest =
  cr_TransactionID :: string
  cr_IdempotencyKey :: string
  cr_CreditAt :: gotime
  cr_ProviderReference :: string
  cr_Status :: string
  cr_AmountMinor :: int
  cr_Currency :: string

record reversalCompletedRequest =
  rr_TransactionID :: string
  rr_CompletedAt :: gotime

text \<open>The embedded struct is a field.\<close>

record bulkEvent =
  be_Type :: string
  be_debitRequest :: debitRequest
  be_CreditAt :: gotime
  be_ProviderReference :: string
  be_CreditStatus :: string

record transactionView =
  tv_TransactionID :: string
  tv_Status :: string
  tv_TransactionType :: string
  tv_Provider :: string
  tv_AmountMinor :: int
  tv_Currency :: string
  tv_DebitAt :: gotime
  tv_CreditAt :: "gotime option"
  tv_ExpectedCompletionAt :: gotime
  tv_DetectedAt :: "gotime option"
  tv_ReversalTriggeredAt :: "gotime option"
  tv_ReversalCompletedAt :: "gotime option"
  tv_IsBackfill :: bool

definition viewOf :: "transaction \<Rightarrow> transactionView" where
  "viewOf t =
    \<lparr>tv_TransactionID = tx_TransactionID t, tv_Status = status_string (tx_Status t),
     tv_TransactionType = tx_TransactionType t, tv_Provider = tx_Provider t, tv_AmountMinor = tx_AmountMinor t,
     tv_Currency = tx_Currency t, tv_DebitAt = tx_DebitAt t, tv_CreditAt = tx_CreditAt t,
     tv_ExpectedCompletionAt = tx_ExpectedCompletionAt t, tv_DetectedAt = tx_DetectedAt t,
     tv_ReversalTriggeredAt = tx_ReversalTriggeredAt t, tv_ReversalCompletedAt = tx_ReversalCompletedAt t,
     tv_IsBackfill = tx_IsBackfill t\<rparr>"

record debitAccepted =
  da_Status :: string
  da_TransactionID :: string
  da_ExpectedCompletionAt :: gotime
  da_WindowSeconds :: int

record creditAccepted =
  ca_Status :: string
  ca_TransactionID :: string

record bulkRejection =
  br_Index :: int
  br_Code :: string
  br_Error :: string
  br_Field :: string

record bulkAccepted =
  ba_Accepted :: int
  ba_Rejected :: "bulkRejection list"

record reversalCompleted =
  rc_Status :: string
  rc_CompletedTransactionID :: string
  rc_ReversalCompletedAt :: gotime
  rc_ElapsedMS :: "int option"

record verifyResponse =
  vr_Verification :: Verification
  vr_Checkpoint :: CheckpointCheck

record claimResponse =
  cl_Granted :: bool
  cl_TransactionID :: string
  cl_ClaimToken :: string
  cl_ClaimedBy :: string
  cl_ClaimedAt :: gotime
  cl_Status :: string
  cl_Instruction :: string

record apiError =
  ae_Code :: string
  ae_Message :: string
  ae_Field :: string
  ae_RequestID :: string

text \<open>The answers \<^verbatim>\<open>writeJSON\<close> is called with; the fixed texts of the map-valued ones are left out.
  A report sent as CSV or PDF is here the report, with the day that names the file.\<close>

datatype body =
    Error_Body apiError
  | Debit_Body debitAccepted
  | Credit_Body creditAccepted
  | Bulk_Body bulkAccepted
  | Reversal_Body reversalCompleted
  | View_Body transactionView
  | List_Body "transactionView list"
  | Checkpoints_Body string "Checkpoint list"
  | Verify_Body verifyResponse
  | Claim_Body claimResponse
  | Released_Body string
  | Licence_Body "(bool \<times> string) option"
  | Report_Body Report
  | Csv_Body gotime Report
  | Pdf_Body gotime Report
  | Scorecard_Body Scorecard
  | Exposure_Body Exposure
  | Windows_Body WindowReport

record response =
  rs_Status :: int
  rs_RetryAfter :: "string option"
  rs_Body :: body

definition writeJSON :: "int \<Rightarrow> body \<Rightarrow> response" where
  "writeJSON status body = \<lparr>rs_Status = status, rs_RetryAfter = None, rs_Body = body\<rparr>"

text \<open>A request: who sent it, its id, its \<^verbatim>\<open>Idempotency-Key\<close> header and its \<^verbatim>\<open>limit\<close> and \<^verbatim>\<open>status\<close>
  parameters. \<open>rq_wait\<close> is what the rate limiter says: \<open>Some d\<close> to wait \<open>d\<close>.\<close>

record request =
  rq_principal :: "Principal option"
  rq_id :: string
  rq_key :: string
  rq_limit :: string
  rq_status :: string
  rq_wait :: "duration option"

definition writeError :: "request \<Rightarrow> int \<Rightarrow> string \<Rightarrow> string \<Rightarrow> string \<Rightarrow> response" where
  "writeError rq status code message field =
    writeJSON status (Error_Body
      \<lparr>ae_Code = code, ae_Message = message, ae_Field = field, ae_RequestID = rq_id rq\<rparr>)"

text \<open>What decoding a body gives.\<close>

datatype 'b decoded = Decoded 'b | Too_Large | No_Body | Not_JSON

fun decode :: "request \<Rightarrow> 'b decoded \<Rightarrow> response + 'b" where
  "decode rq (Decoded b) = Inr b"
| "decode rq Too_Large = Inl (writeError rq 413 ''payload_too_large'' ''request body exceeds the limit'' '''')"
| "decode rq No_Body = Inl (writeError rq 400 ''invalid_request'' ''request body is empty'' '''')"
| "decode rq Not_JSON = Inl (writeError rq 400 ''invalid_request'' ''request body is not valid JSON'' '''')"

section \<open>Errors as answers\<close>

text \<open>\<^verbatim>\<open>errors.As\<close> for the three error types.\<close>

fun as_validation :: "goerror \<Rightarrow> (string \<times> string) option" where
  "as_validation (ValidationError field reason) = Some (field, reason)"
| "as_validation (ErrWrapped _ e) = as_validation e"
| "as_validation _ = None"

fun as_sensitive :: "goerror \<Rightarrow> (string \<times> string) option" where
  "as_sensitive (SensitiveDataError path reason) = Some (path, reason)"
| "as_sensitive (ErrWrapped _ e) = as_sensitive e"
| "as_sensitive _ = None"

fun as_transition :: "goerror \<Rightarrow> (status \<times> status) option" where
  "as_transition (InvalidTransitionError from to) = Some (from, to)"
| "as_transition (ErrWrapped _ e) = as_transition e"
| "as_transition _ = None"

text \<open>\<^verbatim>\<open>d.Round(time.Second)\<close>, halves away from zero.\<close>

definition round_second :: "duration \<Rightarrow> duration" where
  "round_second d = sgn d * ((\<bar>d\<bar> + second div 2) div second * second)"

fun itoa_loop :: "nat \<Rightarrow> string \<Rightarrow> string" where
  "itoa_loop n b = (if n > 0 then itoa_loop (n div 10) (digit_char (n mod 10) # b) else b)"

declare itoa_loop.simps [simp del]

definition itoa :: "int \<Rightarrow> string" where
  "itoa n = (if n = 0 then ''0'' else itoa_loop (nat n) [])"

definition retryAfterSeconds :: "duration \<Rightarrow> string" where
  "retryAfterSeconds d = (let secs = go_div (round_second d) second in itoa (if secs < 1 then 1 else secs))"

definition writeDomainError :: "('m, 'q) Server \<Rightarrow> request \<Rightarrow> goerror \<Rightarrow> response" where
  "writeDomainError S rq err =
    (case as_validation err of Some (field, reason) \<Rightarrow> writeError rq 400 ''invalid_request'' reason field
     | None \<Rightarrow>
     case as_sensitive err of Some (path, reason) \<Rightarrow> writeError rq 400 ''sensitive_data_rejected'' reason path
     | None \<Rightarrow>
     case as_transition err of
       Some (from, to) \<Rightarrow> writeError rq 409 ''invalid_state''
         (''transaction is '' @ status_string from @ '' and cannot become '' @ status_string to) ''''
     | None \<Rightarrow>
       if errors_is err ErrNotFound then writeError rq 404 ''not_found'' ''transaction not found'' ''''
       else if errors_is err ErrBackpressure
       then (writeError rq 429 ''backpressure'' ''ingest queue is at capacity, retry shortly'' '''')
              \<lparr>rs_RetryAfter := Some (retryAfterSeconds (sv_retryAfter S))\<rparr>
       else if errors_is err ErrClosed then writeError rq 503 ''shutting_down'' ''server is shutting down'' ''''
       else writeError rq 500 ''internal'' ''internal error'' '''')"

definition rejectionFor :: "('m, 'q) Server \<Rightarrow> int \<Rightarrow> goerror \<Rightarrow> bulkRejection" where
  "rejectionFor S i err =
    (let out = \<lparr>br_Index = i, br_Code = ''invalid_request'', br_Error = sv_error_text S err, br_Field = ''''\<rparr>
     in case as_validation err of Some (field, reason) \<Rightarrow> out\<lparr>br_Field := field\<rparr>
        | None \<Rightarrow>
        case as_sensitive err of
          Some (path, reason) \<Rightarrow> out\<lparr>br_Code := ''sensitive_data_rejected'', br_Field := path\<rparr>
        | None \<Rightarrow> if errors_is err ErrNotFound then out\<lparr>br_Code := ''not_found''\<rparr> else out)"

section \<open>From requests to events\<close>

text \<open>\<^verbatim>\<open>domain.CreditStatus(req.Status)\<close>.\<close>

definition credit_status :: "string \<Rightarrow> CreditStatus" where
  "credit_status s =
    (if s = ''success'' then CreditSuccess else if s = ''failed'' then CreditFailed
     else if s = ''unknown'' then CreditUnknown else CreditOther s)"

definition idempotencyKey :: "request \<Rightarrow> string \<Rightarrow> string" where
  "idempotencyKey rq fromBody = (if rq_key rq \<noteq> '''' then rq_key rq else fromBody)"

definition toDebitEvent :: "('m, 'q) Server \<Rightarrow> string \<Rightarrow> string \<Rightarrow> debitRequest \<Rightarrow> goerror + DebitEvent" where
  "toDebitEvent S tenantID idemKey req =
    (let ev = \<lparr>de_TenantID = tenantID, de_TransactionID = dq_TransactionID req, de_IdempotencyKey = idemKey,
           de_TransactionType = dq_TransactionType req, de_Provider = dq_Provider req,
           de_AmountMinor = dq_AmountMinor req, de_Currency = dq_Currency req, de_DebitAt = dq_DebitAt req,
           de_CustomerRef = dq_CustomerRef req, de_Metadata = dq_Metadata req,
           de_ExpectedCreditMinor = dq_ExpectedCreditMinor req, de_IsBackfill = dq_Backfill req\<rparr>
     in case first_error
          [DebitEvent_Validate ev,
           check (\<not> de_IsBackfill ev \<and> sv_now S + maxClockSkew < de_DebitAt ev) ''debit_at'' ''is too far in the future'',
           ScreenMetadata (de_Metadata ev),
           ScreenString ''transaction_id'' (de_TransactionID ev)] of
          Some err \<Rightarrow> Inl err
        | None \<Rightarrow> Inr ev)"

definition toCreditEvent :: "('m, 'q) Server \<Rightarrow> string \<Rightarrow> string \<Rightarrow> creditRequest \<Rightarrow> goerror + CreditEvent" where
  "toCreditEvent S tenantID idemKey req =
    (let ev = \<lparr>ce_TenantID = tenantID, ce_TransactionID = cr_TransactionID req, ce_IdempotencyKey = idemKey,
           ce_CreditAt = cr_CreditAt req, ce_ProviderReference = cr_ProviderReference req,
           ce_Status = credit_status (cr_Status req), ce_AmountMinor = cr_AmountMinor req,
           ce_Currency = to_upper (trim_space (cr_Currency req))\<rparr>;
         ev = (if IsZero (ce_CreditAt ev) then ev\<lparr>ce_CreditAt := sv_now S\<rparr> else ev)
     in case first_error
          [CreditEvent_Validate ev, ScreenString ''provider_reference'' (ce_ProviderReference ev)] of
          Some err \<Rightarrow> Inl err
        | None \<Rightarrow> Inr ev)"

definition toBulkEvent :: "('m, 'q) Server \<Rightarrow> string \<Rightarrow> bulkEvent \<Rightarrow> goerror + Event" where
  "toBulkEvent S tenantID raw =
    (let kind = (if be_Type raw = '''' then if be_CreditStatus raw \<noteq> '''' then ''credit'' else ''debit''
                 else be_Type raw);
         d = be_debitRequest raw
     in if kind = ''debit''
        then map_sum id NewDebitEvent (toDebitEvent S tenantID (dq_IdempotencyKey d) d)
        else if kind = ''credit''
        then map_sum id NewCreditEvent (toCreditEvent S tenantID (dq_IdempotencyKey d)
               \<lparr>cr_TransactionID = dq_TransactionID d, cr_IdempotencyKey = dq_IdempotencyKey d,
                cr_CreditAt = be_CreditAt raw, cr_ProviderReference = be_ProviderReference raw,
                cr_Status = be_CreditStatus raw, cr_AmountMinor = 0, cr_Currency = ''''\<rparr>)
        else Inl (ValidationError ''type'' ''must be debit or credit''))"

definition resolveWindow :: "('m, 'q) Server \<Rightarrow> DebitEvent \<Rightarrow> goerror + duration" where
  "resolveWindow S ev =
    (case sv_rules S (de_TenantID ev) of
       Inl err \<Rightarrow> Inl (ErrWrapped ''load rules'' err)
     | Inr ruleSet \<Rightarrow> Inr (res_Window (Resolve ruleSet
         (tx_zero\<lparr>tx_TransactionType := de_TransactionType ev, tx_Provider := de_Provider ev,
                  tx_Currency := de_Currency ev, tx_AmountMinor := de_AmountMinor ev\<rparr>))))"

end
