(* ===== verification/Ingest_Handlers.thy ===== *)
theory Ingest_Handlers
  imports Ingest_Api
begin

text \<open>
  The handlers of \<^verbatim>\<open>internal/ingest/handlers.go\<close> for events, reads, audit and claims. A handler turns the server's state, the store's and the sink's, into an
  answer and the next state.
\<close>

section \<open>The shape of a handler\<close>

type_synonym ('m, 'q) http = "'m \<times> 'q \<Rightarrow> response \<times> ('m \<times> 'q)"

definition answer :: "response \<Rightarrow> ('m, 'q) http" where
  "answer r s = (r, s)"

definition on_store :: "('m, 'a) action \<Rightarrow> (goerror + 'a \<Rightarrow> ('m, 'q) http) \<Rightarrow> ('m, 'q) http" where
  "on_store f g s = (case s of (m, q) \<Rightarrow> case f m of (r, m') \<Rightarrow> g r (m', q))"

definition on_sink :: "('q, 'a) action \<Rightarrow> (goerror + 'a \<Rightarrow> ('m, 'q) http) \<Rightarrow> ('m, 'q) http" where
  "on_sink f g s = (case s of (m, q) \<Rightarrow> case f q of (r, q') \<Rightarrow> g r (m, q'))"

text \<open>\<^verbatim>\<open>if err != nil { s.writeDomainError(w, r, err); return }\<close>.\<close>

definition or_error :: "('m, 'q) Server \<Rightarrow> request \<Rightarrow> ('a \<Rightarrow> ('m, 'q) http) \<Rightarrow> goerror + 'a \<Rightarrow> ('m, 'q) http" where
  "or_error S rq g r = (case r of Inl err \<Rightarrow> answer (writeDomainError S rq err) | Inr x \<Rightarrow> g x)"

definition with_principal :: "request \<Rightarrow> (Principal \<Rightarrow> ('m, 'q) http) \<Rightarrow> ('m, 'q) http" where
  "with_principal rq h =
    (case rq_principal rq of
       None \<Rightarrow> answer (writeError rq 401 ''unauthenticated'' ''invalid api key'' '''')
     | Some p \<Rightarrow> h p)"

definition with_body :: "request \<Rightarrow> 'b decoded \<Rightarrow> ('b \<Rightarrow> ('m, 'q) http) \<Rightarrow> ('m, 'q) http" where
  "with_body rq body h = (case decode rq body of Inl r \<Rightarrow> answer r | Inr req \<Rightarrow> h req)"

definition invalid :: "request \<Rightarrow> string \<Rightarrow> string \<Rightarrow> ('m, 'q) http" where
  "invalid rq message field = answer (writeError rq 400 ''invalid_request'' message field)"

definition unavailable :: "request \<Rightarrow> string \<Rightarrow> ('m, 'q) http" where
  "unavailable rq message = answer (writeError rq 501 ''unavailable'' message '''')"

lemmas http_defs = answer_def on_store_def on_sink_def or_error_def with_principal_def with_body_def
  invalid_def unavailable_def

section \<open>Events\<close>

definition handleDebit :: "('m, 'q) Server \<Rightarrow> request \<Rightarrow> debitRequest decoded \<Rightarrow> ('m, 'q) http" where
  "handleDebit S rq body =
    with_principal rq (\<lambda>principal. with_body rq body (\<lambda>req.
      or_error S rq (\<lambda>ev.
        or_error S rq (\<lambda>window.
          on_sink (sv_Submit S (NewDebitEvent ev)) (or_error S rq (\<lambda>_.
            answer (writeJSON 202 (Debit_Body
              \<lparr>da_Status = ''accepted'', da_TransactionID = de_TransactionID ev,
               da_ExpectedCompletionAt = de_DebitAt ev + window, da_WindowSeconds = go_div window second\<rparr>)))))
          (resolveWindow S ev))
        (toDebitEvent S (p_TenantID principal) (idempotencyKey rq (dq_IdempotencyKey req)) req)))"

definition handleCredit :: "('m, 'q) Server \<Rightarrow> request \<Rightarrow> creditRequest decoded \<Rightarrow> ('m, 'q) http" where
  "handleCredit S rq body =
    with_principal rq (\<lambda>principal. with_body rq body (\<lambda>req.
      or_error S rq (\<lambda>ev.
        on_sink (sv_Submit S (NewCreditEvent ev)) (or_error S rq (\<lambda>_.
          answer (writeJSON 202 (Credit_Body \<lparr>ca_Status = ''accepted'', ca_TransactionID = ce_TransactionID ev\<rparr>)))))
        (toCreditEvent S (p_TenantID principal) (idempotencyKey rq (cr_IdempotencyKey req)) req)))"

text \<open>The loop of \<^verbatim>\<open>handleBulk\<close>: backpressure ends it, any other refusal is one more rejection.\<close>

fun bulk_loop :: "('m, 'q) Server \<Rightarrow> string \<Rightarrow> int \<Rightarrow> bulkEvent list \<Rightarrow> bulkAccepted \<Rightarrow> ('q, bulkAccepted) action" where
  "bulk_loop S tenantID i [] res = ret res"
| "bulk_loop S tenantID i (raw # events) res =
    attempt (case toBulkEvent S tenantID raw of Inl err \<Rightarrow> fail err | Inr ev \<Rightarrow> sv_Submit S ev)
      (\<lambda>r. case r of
             Inl err \<Rightarrow>
               if errors_is err ErrBackpressure \<or> errors_is err ErrClosed then fail err
               else bulk_loop S tenantID (i + 1) events
                      (res\<lparr>ba_Rejected := ba_Rejected res @ [rejectionFor S i err]\<rparr>)
           | Inr _ \<Rightarrow> bulk_loop S tenantID (i + 1) events (res\<lparr>ba_Accepted := ba_Accepted res + 1\<rparr>))"

definition handleBulk :: "('m, 'q) Server \<Rightarrow> request \<Rightarrow> bulkEvent list decoded \<Rightarrow> ('m, 'q) http" where
  "handleBulk S rq body =
    with_principal rq (\<lambda>principal. with_body rq body (\<lambda>events.
      if length events = 0 then invalid rq ''events is required'' ''events''
      else if length events > MaxBulkEvents
      then invalid rq (''at most '' @ show_nat MaxBulkEvents @ '' events per request'') ''events''
      else on_sink (bulk_loop S (p_TenantID principal) 0 events \<lparr>ba_Accepted = 0, ba_Rejected = []\<rparr>)
             (or_error S rq (\<lambda>res. answer (writeJSON 202 (Bulk_Body res))))))"

text \<open>The confirmation of the claim is best effort: whatever it returns, only the log differs.\<close>

definition handleReversalCompleted ::
  "('m, 'q) Server \<Rightarrow> request \<Rightarrow> reversalCompletedRequest decoded \<Rightarrow> ('m, 'q) http" where
  "handleReversalCompleted S rq body =
    with_principal rq (\<lambda>principal. with_body rq body (\<lambda>req.
      let ev = \<lparr>rce_TenantID = p_TenantID principal, rce_TransactionID = rr_TransactionID req,
                rce_CompletedAt = rr_CompletedAt req\<rparr>;
          ev = (if IsZero (rce_CompletedAt ev) then ev\<lparr>rce_CompletedAt := sv_now S\<rparr> else ev)
      in case ReversalCompletedEvent_Validate ev of
           Some err \<Rightarrow> answer (writeDomainError S rq err)
         | None \<Rightarrow>
           on_store (ts_MarkReversalCompleted (sv_store S) (rce_TenantID ev) (rce_TransactionID ev) (rce_CompletedAt ev))
             (or_error S rq (\<lambda>txn.
               let out = answer (writeJSON 200 (Reversal_Body
                     \<lparr>rc_Status = ''recorded'', rc_CompletedTransactionID = tx_TransactionID txn,
                      rc_ReversalCompletedAt = (case tx_ReversalCompletedAt txn of Some completed \<Rightarrow> completed | None \<Rightarrow> 0),
                      rc_ElapsedMS = (case (tx_ReversalCompletedAt txn, tx_DetectedAt txn) of
                          (Some completed, Some detected) \<Rightarrow> Some (go_div (time_sub completed detected) 1000000)
                        | _ \<Rightarrow> None)\<rparr>))
               in case sv_claims S of
                    None \<Rightarrow> out
                  | Some claims \<Rightarrow>
                      on_store (cs_ConfirmReversalClaim claims (rce_TenantID ev) (rce_TransactionID ev)
                                 (rce_CompletedAt ev)) (\<lambda>_. out)))))"

section \<open>Reading\<close>

definition handleGetTransaction :: "('m, 'q) Server \<Rightarrow> request \<Rightarrow> string \<Rightarrow> ('m, 'q) http" where
  "handleGetTransaction S rq transactionID =
    with_principal rq (\<lambda>principal.
      on_store (ts_Get (sv_store S) (p_TenantID principal) transactionID) (or_error S rq (\<lambda>txn.
        answer (writeJSON 200 (View_Body (viewOf txn))))))"

definition query_limit :: "string \<Rightarrow> int \<Rightarrow> int \<Rightarrow> int option" where
  "query_limit raw fallback most =
    (if raw = '''' then Some fallback
     else case parse_int64 raw of
            None \<Rightarrow> None
          | Some n \<Rightarrow> if n \<le> 0 \<or> n > most then None else Some n)"

definition handleListTransactions :: "('m, 'q) Server \<Rightarrow> request \<Rightarrow> ('m, 'q) http" where
  "handleListTransactions S rq =
    with_principal rq (\<lambda>principal.
      case status_of_string (rq_status rq) of
        None \<Rightarrow> invalid rq ''status must be a known transaction state'' ''status''
      | Some status \<Rightarrow>
      case query_limit (rq_limit rq) 100 1000 of
        None \<Rightarrow> invalid rq ''limit must be between 1 and 1000'' ''limit''
      | Some limit \<Rightarrow>
        on_store (ts_ListByStatus (sv_store S) (p_TenantID principal) status limit) (or_error S rq (\<lambda>txns.
          answer (writeJSON 200 (List_Body (map viewOf txns))))))"

definition handleAuditCheckpoints :: "('m, 'q) Server \<Rightarrow> request \<Rightarrow> ('m, 'q) http" where
  "handleAuditCheckpoints S rq =
    with_principal rq (\<lambda>principal.
      case sv_audit S of
        None \<Rightarrow> unavailable rq ''audit verification is not configured on this deployment''
      | Some audit \<Rightarrow>
      case query_limit (rq_limit rq) 100 1000 of
        None \<Rightarrow> invalid rq ''limit must be between 1 and 1000'' ''limit''
      | Some limit \<Rightarrow>
        on_store (au_ListCheckpoints audit (p_TenantID principal) limit) (or_error S rq (\<lambda>checkpoints.
          answer (writeJSON 200 (Checkpoints_Body (p_TenantID principal) checkpoints)))))"

definition requireLicence :: "('m, 'q) Server \<Rightarrow> request \<Rightarrow> ('m, 'q) http \<Rightarrow> ('m, 'q) http" where
  "requireLicence S rq h =
    (case sv_licence S of
       None \<Rightarrow> h
     | Some (available, notice) \<Rightarrow>
         if available then h else answer (writeError rq 402 ''licence_expired'' notice ''''))"

definition no_check :: "string \<Rightarrow> CheckpointCheck" where
  "no_check reason = \<lparr>cc_Checked = False, cc_Seq = 0, cc_TakenAt = 0, cc_Matches = False, cc_PublicKey = '''',
    cc_Reason = reason\<rparr>"

text \<open>What \<^verbatim>\<open>handleAuditVerify\<close> does with a checkpoint.\<close>

definition with_checkpoint :: "Verification \<Rightarrow> CheckpointCheck \<Rightarrow> verifyResponse" where
  "with_checkpoint v c =
    \<lparr>vr_Verification =
       (if cc_Matches c then v
        else v\<lparr>v_Verified := False, v_Reason := (if v_Reason v = '''' then cc_Reason c else v_Reason v)\<rparr>),
     vr_Checkpoint = c\<rparr>"

definition handleAuditVerify ::
  "digest \<Rightarrow> 'k crypto \<Rightarrow> (gotime \<Rightarrow> string) \<Rightarrow> ('m, 'q) Server \<Rightarrow> request \<Rightarrow> ('m, 'q) http" where
  "handleAuditVerify digest cr render S rq =
    with_principal rq (\<lambda>principal. requireLicence S rq
      (case sv_audit S of
         None \<Rightarrow> unavailable rq ''audit verification is not configured on this deployment''
       | Some audit \<Rightarrow>
       case query_limit (rq_limit rq) 10000 100000 of
         None \<Rightarrow> invalid rq ''limit must be between 1 and 100000'' ''limit''
       | Some limit \<Rightarrow>
         on_store (au_ListAudit audit (p_TenantID principal) limit) (or_error S rq (\<lambda>records.
           let v = VerifyChain digest (p_TenantID principal) records
           in on_store (au_LatestCheckpoint audit (p_TenantID principal)) (\<lambda>latest.
                case latest of
                  Inl err \<Rightarrow>
                    if errors_is err ErrNotFound
                    then answer (writeJSON 200 (Verify_Body \<lparr>vr_Verification = v, vr_Checkpoint = no_check
                      ''no checkpoint has been signed for this tenant, so a rewrite of the whole chain would not be detectable''\<rparr>))
                    else answer (writeDomainError S rq err)
                | Inr c \<Rightarrow> answer (writeJSON 200 (Verify_Body (with_checkpoint v
                    (VerifyAgainstCheckpoint digest cr render records c (cp_PublicKey c))))))))))"

section \<open>Claims\<close>

definition claimableStatus :: status where "claimableStatus = StatusReversalPending"

text \<open>\<open>random\<close> is what \<^verbatim>\<open>crypto/rand\<close> gives, printed in hexadecimal.\<close>

definition newClaimToken :: "goerror + string \<Rightarrow> goerror + string" where
  "newClaimToken random =
    (case random of Inl err \<Rightarrow> Inl (ErrWrapped ''generate claim token'' err) | Inr b \<Rightarrow> Inr (''rcl_'' @ b))"

text \<open>The body is decoded only when there is one; it is the field \<^verbatim>\<open>claimed_by\<close>.\<close>

definition handleClaimReversal ::
  "goerror + string \<Rightarrow> ('m, 'q) Server \<Rightarrow> request \<Rightarrow> string \<Rightarrow> string decoded option \<Rightarrow> ('m, 'q) http" where
  "handleClaimReversal random S rq transactionID body =
    with_principal rq (\<lambda>principal.
      case sv_claims S of
        None \<Rightarrow> unavailable rq ''reversal claims are not configured on this deployment''
      | Some claims \<Rightarrow>
        with_body rq (case body of None \<Rightarrow> Decoded '''' | Some b \<Rightarrow> b) (\<lambda>claimedBy.
          if claimedBy = ''''
          then invalid rq ''claimed_by is required: name the worker taking the claim, so an outstanding one can be traced''
                 ''claimed_by''
          else on_store (ts_Get (sv_store S) (p_TenantID principal) transactionID) (or_error S rq (\<lambda>txn.
            if tx_Status txn \<noteq> claimableStatus
            then answer (writeError rq 409 ''not_reversible''
              (''this transaction is '' @ status_string (tx_Status txn) @ '', not '' @ status_string claimableStatus
               @ ''; there is no standing advice to reverse it'') '''')
            else or_error S rq (\<lambda>token.
              on_store (cs_ClaimReversal claims (p_TenantID principal) transactionID claimedBy token (sv_now S))
                (or_error S rq (\<lambda>(claim, granted).
                  let out = \<lparr>cl_Granted = granted, cl_TransactionID = transactionID, cl_ClaimToken = '''',
                        cl_ClaimedBy = rc_ClaimedBy claim, cl_ClaimedAt = rc_ClaimedAt claim,
                        cl_Status = status_string (tx_Status txn), cl_Instruction = ''''\<rparr>
                  in if \<not> granted
                     then answer (writeJSON 409 (Claim_Body (out\<lparr>cl_Instruction :=
                       ''another worker already holds this reversal; do not reverse''\<rparr>)))
                     else answer (writeJSON 200 (Claim_Body (out\<lparr>cl_ClaimToken := rc_ClaimToken claim,
                       cl_Instruction := ''you hold this reversal. Reverse it, then confirm with POST /v1/events/reversal-completed''\<rparr>))))))
              (newClaimToken random)))))"

definition handleReleaseReversalClaim :: "('m, 'q) Server \<Rightarrow> request \<Rightarrow> string \<Rightarrow> ('m, 'q) http" where
  "handleReleaseReversalClaim S rq transactionID =
    with_principal rq (\<lambda>principal.
      case sv_claims S of
        None \<Rightarrow> unavailable rq ''reversal claims are not configured on this deployment''
      | Some claims \<Rightarrow>
        on_store (cs_ReleaseReversalClaim claims (p_TenantID principal) transactionID) (\<lambda>r.
          case r of
            Inr _ \<Rightarrow> answer (writeJSON 200 (Released_Body transactionID))
          | Inl err \<Rightarrow>
              if errors_is err ErrNotFound
              then answer (writeError rq 409 ''not_releasable''
                ''no unconfirmed claim on this transaction; a confirmed claim is never released because the money has already moved'' '''')
              else answer (writeDomainError S rq err)))"

end
