(* ===== verification/Ingest_Reports.thy ===== *)
theory Ingest_Reports
  imports Ingest_Handlers
begin

text \<open>
  The report handlers of \<^verbatim>\<open>internal/ingest/handlers.go\<close>. A parameter that names a day arrives with
  what \<^verbatim>\<open>time.Parse\<close> makes of it under the two layouts the code tries, in their order.
\<close>

datatype day_param = No_Day | Timestamp gotime | Plain_Date gotime | Not_A_Day

record report_query =
  pq_from :: day_param
  pq_to :: day_param
  pq_deadline_seconds :: string
  pq_format :: string
  pq_scope :: string

fun parseDay :: "day_param \<Rightarrow> gotime \<Rightarrow> gotime option" where
  "parseDay No_Day fallback = Some fallback"
| "parseDay (Timestamp t) fallback = Some t"
| "parseDay (Plain_Date t) fallback = Some t"
| "parseDay Not_A_Day fallback = None"

definition reportPeriod ::
  "('m, 'q) Server \<Rightarrow> request \<Rightarrow> report_query \<Rightarrow> (gotime \<Rightarrow> gotime \<Rightarrow> ('m, 'q) http) \<Rightarrow> ('m, 'q) http" where
  "reportPeriod S rq pq h =
    (case parseDay (pq_from pq) (sv_now S - 30 * 24 * hour) of
       None \<Rightarrow> invalid rq ''from must be RFC3339 or YYYY-MM-DD'' ''from''
     | Some from \<Rightarrow>
     case parseDay (pq_to pq) (sv_now S) of
       None \<Rightarrow> invalid rq ''to must be RFC3339 or YYYY-MM-DD'' ''to''
     | Some to \<Rightarrow>
       if \<not> from < to then invalid rq ''from must be before to'' ''from'' else h from to)"

text \<open>The checks every report starts with: the caller, the licence, the store.\<close>

definition with_reports ::
  "('m, 'q) Server \<Rightarrow> request \<Rightarrow> (Principal \<Rightarrow> 'm report_store \<Rightarrow> ('m, 'q) http) \<Rightarrow> ('m, 'q) http" where
  "with_reports S rq h =
    with_principal rq (\<lambda>principal. requireLicence S rq
      (case sv_reports S of
         None \<Rightarrow> unavailable rq ''reporting is not configured on this deployment''
       | Some reports \<Rightarrow> h principal reports))"

definition maxReportCandidates :: nat where "maxReportCandidates = 10000"

text \<open>\<^verbatim>\<open>strconv.Atoi\<close>, then \<^verbatim>\<open>time.Duration(secs) * time.Second\<close> in 64 bits.\<close>

definition report_deadline :: "string \<Rightarrow> duration option" where
  "report_deadline raw =
    (if raw = '''' then Some ReportReversalDeadline
     else case parse_int64 raw of
            None \<Rightarrow> None
          | Some secs \<Rightarrow> if secs \<le> 0 then None else Some (wrap64 (secs * second)))"

definition handleComplianceReport :: "('m, 'q) Server \<Rightarrow> request \<Rightarrow> report_query \<Rightarrow> ('m, 'q) http" where
  "handleComplianceReport S rq pq =
    with_reports S rq (\<lambda>principal reports. reportPeriod S rq pq (\<lambda>from to.
      case report_deadline (pq_deadline_seconds pq) of
        None \<Rightarrow> invalid rq ''deadline_seconds must be a positive integer'' ''deadline_seconds''
      | Some deadline \<Rightarrow>
        on_store (st_CountByStatus reports (p_TenantID principal) from to) (or_error S rq (\<lambda>counts.
          on_store (st_ListReversalCandidates reports (p_TenantID principal) from to (int maxReportCandidates + 1))
            (or_error S rq (\<lambda>candidates.
              let incomplete = length candidates > maxReportCandidates;
                  candidates = (if incomplete then take maxReportCandidates candidates else candidates);
                  doc = Compute \<lparr>in_TenantID = p_TenantID principal, in_From = from, in_To = to,
                    in_CountsByStatus = counts, in_Reversals = candidates, in_Incomplete = incomplete\<rparr> deadline (sv_now S)
              in if pq_format pq = '''' \<or> pq_format pq = ''json'' then answer (writeJSON 200 (Report_Body doc))
                 else if pq_format pq = ''csv'' then answer (writeJSON 200 (Csv_Body from doc))
                 else if pq_format pq = ''pdf'' then answer (writeJSON 200 (Pdf_Body from doc))
                 else invalid rq ''format must be json, csv or pdf'' ''format''))))))"

definition handleProviderScorecard :: "('m, 'q) Server \<Rightarrow> request \<Rightarrow> report_query \<Rightarrow> ('m, 'q) http" where
  "handleProviderScorecard S rq pq =
    with_reports S rq (\<lambda>principal reports. reportPeriod S rq pq (\<lambda>from to.
      on_store (st_ProviderStats reports (p_TenantID principal) from to) (or_error S rq (\<lambda>stats.
        answer (writeJSON 200 (Scorecard_Body (ScoreProviders (p_TenantID principal) from to stats)))))))"

text \<open>The window a rail is judged against: that of a transfer in NGN of amount zero.\<close>

definition report_window :: "Rule list \<Rightarrow> string \<Rightarrow> int option" where
  "report_window ruleSet rail =
    (let res = Resolve ruleSet (tx_zero\<lparr>tx_TransactionType := ''transfer'', tx_Provider := rail, tx_Currency := ''NGN''\<rparr>)
     in Some (go_div (res_Window res) second))"

definition handleWindowFit :: "('m, 'q) Server \<Rightarrow> request \<Rightarrow> report_query \<Rightarrow> ('m, 'q) http" where
  "handleWindowFit S rq pq =
    with_reports S rq (\<lambda>principal reports. reportPeriod S rq pq (\<lambda>from to.
      on_store (st_ProviderStats reports (p_TenantID principal) from to) (or_error S rq (\<lambda>stats.
        or_error S rq (\<lambda>ruleSet.
          answer (writeJSON 200 (Windows_Body (FitWindows (p_TenantID principal) from to stats (report_window ruleSet)))))
          (sv_rules S (p_TenantID principal))))))"

definition handleExposure :: "('m, 'q) Server \<Rightarrow> request \<Rightarrow> report_query \<Rightarrow> ('m, 'q) http" where
  "handleExposure S rq pq =
    with_reports S rq (\<lambda>principal reports.
      let scope = (if pq_scope pq \<noteq> '''' then pq_scope pq else ScopeAll)
      in if \<not> ValidScope scope then invalid rq ''scope must be all, backfill or live'' ''scope''
         else on_store (st_Exposure reports (p_TenantID principal) scope (sv_now S)) (or_error S rq (\<lambda>(totals, bands).
           answer (writeJSON 200 (Exposure_Body (ComputeExposure (p_TenantID principal) scope totals bands (sv_now S)))))))"

section \<open>The licence\<close>

text \<open>What the licence checker says is sent as it is, or that there is none.\<close>

definition handleLicence :: "('m, 'q) Server \<Rightarrow> request \<Rightarrow> ('m, 'q) http" where
  "handleLicence S rq = with_principal rq (\<lambda>principal. answer (writeJSON 200 (Licence_Body (sv_licence S))))"

end
