(* ===== verification/Ingest_Routes.thy ===== *)
theory Ingest_Routes
  imports Ingest_Reports
begin

text \<open>
  Who may call what: the wrappers \<^verbatim>\<open>need\<close> and \<^verbatim>\<open>limit\<close> and the routes of
  \<^verbatim>\<open>internal/ingest/server.go\<close>.
\<close>

section \<open>Routes\<close>

definition need :: "string \<Rightarrow> request \<Rightarrow> ('m, 'q) http \<Rightarrow> ('m, 'q) http" where
  "need scope rq h =
    (case rq_principal rq of
       None \<Rightarrow> answer (writeError rq 401 ''unauthenticated'' ''not authenticated'' '''')
     | Some caller \<Rightarrow>
         if \<not> HasScope caller scope
         then answer (writeError rq 403 ''forbidden'' (''this caller does not hold '' @ scope) '''')
         else h)"

definition limitReports :: "request \<Rightarrow> ('m, 'q) http \<Rightarrow> ('m, 'q) http" where
  "limitReports rq h =
    (case rq_principal rq of
       None \<Rightarrow> h
     | Some caller \<Rightarrow>
         case rq_wait rq of
           None \<Rightarrow> h
         | Some wait \<Rightarrow> answer ((writeError rq 429 ''rate_limited''
             ''this tenant is running reports faster than the deployment will serve them'' '''')
             \<lparr>rs_RetryAfter := Some (retryAfterSeconds wait)\<rparr>))"

datatype call =
    Post_Debit "debitRequest decoded"
  | Post_Credit "creditRequest decoded"
  | Post_Bulk "bulkEvent list decoded"
  | Post_Reversal_Completed "reversalCompletedRequest decoded"
  | List_Transactions
  | Get_Transaction string
  | Get_Licence
  | Audit_Verify
  | Audit_Checkpoints
  | Get_Compliance report_query
  | Get_Providers report_query
  | Get_Exposure report_query
  | Get_Window_Fit report_query
  | Post_Claim string "string decoded option" "goerror + string"
  | Post_Release string

fun serve :: "digest \<Rightarrow> 'k crypto \<Rightarrow> (gotime \<Rightarrow> string) \<Rightarrow> ('m, 'q) Server \<Rightarrow> request \<Rightarrow> call \<Rightarrow> ('m, 'q) http" where
  "serve digest cr render S rq (Post_Debit b) = need ScopeEventsWrite rq (handleDebit S rq b)"
| "serve digest cr render S rq (Post_Credit b) = need ScopeEventsWrite rq (handleCredit S rq b)"
| "serve digest cr render S rq (Post_Bulk b) = need ScopeEventsWrite rq (handleBulk S rq b)"
| "serve digest cr render S rq (Post_Reversal_Completed b) = need ScopeEventsWrite rq (handleReversalCompleted S rq b)"
| "serve digest cr render S rq List_Transactions = need ScopeReportsRead rq (handleListTransactions S rq)"
| "serve digest cr render S rq (Get_Transaction i) = need ScopeReportsRead rq (handleGetTransaction S rq i)"
| "serve digest cr render S rq Get_Licence = need ScopeReportsRead rq (handleLicence S rq)"
| "serve digest cr render S rq Audit_Verify =
    need ScopeReportsRead rq (limitReports rq (handleAuditVerify digest cr render S rq))"
| "serve digest cr render S rq Audit_Checkpoints =
    need ScopeReportsRead rq (limitReports rq (handleAuditCheckpoints S rq))"
| "serve digest cr render S rq (Get_Compliance pq) =
    need ScopeReportsRead rq (limitReports rq (handleComplianceReport S rq pq))"
| "serve digest cr render S rq (Get_Providers pq) =
    need ScopeReportsRead rq (limitReports rq (handleProviderScorecard S rq pq))"
| "serve digest cr render S rq (Get_Exposure pq) =
    need ScopeReportsRead rq (limitReports rq (handleExposure S rq pq))"
| "serve digest cr render S rq (Get_Window_Fit pq) =
    need ScopeReportsRead rq (limitReports rq (handleWindowFit S rq pq))"
| "serve digest cr render S rq (Post_Claim i b random) =
    need ScopeEventsWrite rq (handleClaimReversal random S rq i b)"
| "serve digest cr render S rq (Post_Release i) = need ScopeEventsWrite rq (handleReleaseReversalClaim S rq i)"

end
