(* ===== verification/Ingest_Safety.thy ===== *)
theory Ingest_Safety
  imports Ingest_Routes Correlate_Memory
begin

text \<open>
  What a request can do. The locale \<open>front_door\<close> states what a handler relies on: an
  effect relation that every operation it calls, on its own tenant and with an event that was accepted,
  stays within; then the whole API stays within it.
\<close>

section \<open>Handlers stay within an effect\<close>

definition stays :: "('s \<Rightarrow> 's \<Rightarrow> bool) \<Rightarrow> ('s \<Rightarrow> 'r \<times> 's) \<Rightarrow> bool" where
  "stays R h \<longleftrightarrow> (\<forall>s. R s (snd (h s)))"

lemma stays_answer: "reflp R \<Longrightarrow> stays R (answer r)"
  by (simp add: stays_def answer_def reflpD)

lemma stays_on_store:
  fixes f :: "('m, 'a) action" and R :: "'m \<times> 'q \<Rightarrow> 'm \<times> 'q \<Rightarrow> bool"
  assumes "transp R" "\<And>m q. R (m, q) (snd (f m), q)" "\<And>r. stays R (g r)"
  shows "stays R (on_store f g)"
  unfolding stays_def
proof
  fix s :: "'m \<times> 'q"
  obtain m q where s: "s = (m, q)" by (rule prod.exhaust)
  obtain r m' where f: "f m = (r, m')" by (rule prod.exhaust)
  have "R (m, q) (m', q)" using assms(2) [of m q] f by simp
  moreover have "R (m', q) (snd (g r (m', q)))" using assms(3) by (simp add: stays_def)
  ultimately show "R s (snd (on_store f g s))"
    unfolding on_store_def s f prod.case by (rule transpD [OF assms(1)])
qed

lemma stays_on_sink:
  fixes f :: "('q, 'a) action" and R :: "'m \<times> 'q \<Rightarrow> 'm \<times> 'q \<Rightarrow> bool"
  assumes "transp R" "\<And>m q. R (m, q) (m, snd (f q))" "\<And>r. stays R (g r)"
  shows "stays R (on_sink f g)"
  unfolding stays_def
proof
  fix s :: "'m \<times> 'q"
  obtain m q where s: "s = (m, q)" by (rule prod.exhaust)
  obtain r q' where f: "f q = (r, q')" by (rule prod.exhaust)
  have "R (m, q) (m, q')" using assms(2) [of m q] f by simp
  moreover have "R (m, q') (snd (g r (m, q')))" using assms(3) by (simp add: stays_def)
  ultimately show "R s (snd (on_sink f g s))"
    unfolding on_sink_def s f prod.case by (rule transpD [OF assms(1)])
qed

lemma stays_or_error: "reflp R \<Longrightarrow> (\<And>x. r = Inr x \<Longrightarrow> stays R (g x)) \<Longrightarrow> stays R (or_error S rq g r)"
  by (cases r) (simp_all add: or_error_def stays_answer)

lemma stays_principal:
  "reflp R \<Longrightarrow> (\<And>p. rq_principal rq = Some p \<Longrightarrow> stays R (h p)) \<Longrightarrow> stays R (with_principal rq h)"
  by (simp add: with_principal_def stays_answer split: option.split)

lemma stays_body: "reflp R \<Longrightarrow> (\<And>b. stays R (h b)) \<Longrightarrow> stays R (with_body rq body h)"
  by (simp add: with_body_def stays_answer split: sum.split)

lemma stays_if: "(c \<Longrightarrow> stays R h) \<Longrightarrow> (\<not> c \<Longrightarrow> stays R k) \<Longrightarrow> stays R (if c then h else k)"
  by simp

lemma stays_option:
  "(x = None \<Longrightarrow> stays R h) \<Longrightarrow> (\<And>y. x = Some y \<Longrightarrow> stays R (k y)) \<Longrightarrow>
    stays R (case x of None \<Rightarrow> h | Some y \<Rightarrow> k y)"
  by (cases x) simp_all

lemma stays_sum:
  "(\<And>e. x = Inl e \<Longrightarrow> stays R (h e)) \<Longrightarrow> (\<And>y. x = Inr y \<Longrightarrow> stays R (k y)) \<Longrightarrow>
    stays R (case x of Inl e \<Rightarrow> h e | Inr y \<Rightarrow> k y)"
  by (cases x) simp_all

lemma stays_pair: "(\<And>y z. x = (y, z) \<Longrightarrow> stays R (h y z)) \<Longrightarrow> stays R (case x of (y, z) \<Rightarrow> h y z)"
  by (cases x) simp

lemmas stays_rules = stays_if stays_option stays_sum stays_pair stays_answer stays_on_store stays_on_sink stays_or_error stays_principal stays_body

text \<open>An event a handler may submit for a tenant: well formed, screened, and not from the future.\<close>

definition acceptable :: "('m, 'q) Server \<Rightarrow> string \<Rightarrow> Event \<Rightarrow> bool" where
  "acceptable S tenantID ev \<longleftrightarrow>
    Event_Validate ev = None \<and> Event_TenantID ev = tenantID \<and>
    (case ev_Debit ev of
       Some d \<Rightarrow> ScreenMetadata (de_Metadata d) = None \<and> ScreenString ''transaction_id'' (de_TransactionID d) = None \<and>
         (de_IsBackfill d \<or> de_DebitAt d \<le> sv_now S + maxClockSkew)
     | None \<Rightarrow> (case ev_Credit ev of
         Some c \<Rightarrow> ScreenString ''provider_reference'' (ce_ProviderReference c) = None
       | None \<Rightarrow> False))"

lemma toDebitEvent_acceptable: "toDebitEvent S a k req = Inr d \<Longrightarrow> acceptable S a (NewDebitEvent d)"
  by (auto simp: toDebitEvent_def acceptable_def NewDebitEvent_def Event_Validate_def Event_TenantID_def Let_def
      split: option.splits)

lemma toCreditEvent_acceptable: "toCreditEvent S a k req = Inr c \<Longrightarrow> acceptable S a (NewCreditEvent c)"
  by (auto simp: toCreditEvent_def acceptable_def NewCreditEvent_def Event_Validate_def Event_TenantID_def Let_def
      split: option.splits if_splits)

lemma toBulkEvent_acceptable: "toBulkEvent S a raw = Inr ev \<Longrightarrow> acceptable S a ev"
  by (auto simp: toBulkEvent_def Let_def map_sum_def intro: toDebitEvent_acceptable toCreditEvent_acceptable
      split: if_splits sum.splits)

definition caller_is :: "string \<Rightarrow> request \<Rightarrow> bool" where
  "caller_is a rq \<longleftrightarrow> (\<forall>p. rq_principal rq = Some p \<longrightarrow> p_TenantID p = a)"

lemma caller_isD: "caller_is a rq \<Longrightarrow> rq_principal rq = Some p \<Longrightarrow> p_TenantID p = a"
  by (simp add: caller_is_def)

fun writes :: "call \<Rightarrow> bool" where
  "writes List_Transactions = False"
| "writes (Get_Transaction i) = False"
| "writes Get_Licence = False"
| "writes Audit_Verify = False"
| "writes Audit_Checkpoints = False"
| "writes (Get_Compliance pq) = False"
| "writes (Get_Providers pq) = False"
| "writes (Get_Exposure pq) = False"
| "writes (Get_Window_Fit pq) = False"
| "writes _ = True"

locale reader =
  fixes S :: "('m, 'q) Server" and a :: string and R :: "'m \<times> 'q \<Rightarrow> 'm \<times> 'q \<Rightarrow> bool"
  assumes reflR: "reflp R" and transR: "transp R"
    and got: "R (m, q) (snd (ts_Get (sv_store S) a i m), q)"
    and listed: "R (m, q) (snd (ts_ListByStatus (sv_store S) a st n m), q)"
    and audited: "sv_audit S = Some au \<Longrightarrow> R (m, q) (snd (au_ListAudit au a n m), q) \<and>
      R (m, q) (snd (au_LatestCheckpoint au a m), q) \<and> R (m, q) (snd (au_ListCheckpoints au a n m), q)"
    and reported: "sv_reports S = Some rs \<Longrightarrow> R (m, q) (snd (st_CountByStatus rs a from to m), q) \<and>
      R (m, q) (snd (st_ListReversalCandidates rs a from to n m), q) \<and>
      R (m, q) (snd (st_ProviderStats rs a from to m), q) \<and> R (m, q) (snd (st_Exposure rs a scope now m), q)"
begin

lemmas within = stays_rules reflR transR

lemma get_stays: "caller_is a rq \<Longrightarrow> stays R (handleGetTransaction S rq i)"
  unfolding handleGetTransaction_def
  by (intro within) (simp add: caller_isD got)

lemma list_stays: "caller_is a rq \<Longrightarrow> stays R (handleListTransactions S rq)"
  unfolding handleListTransactions_def invalid_def
  by (intro within) (simp add: caller_isD listed)

lemma checkpoints_stays: "caller_is a rq \<Longrightarrow> stays R (handleAuditCheckpoints S rq)"
  unfolding handleAuditCheckpoints_def invalid_def unavailable_def
  by (intro within) (simp add: caller_isD audited)

lemma verify_stays: "caller_is a rq \<Longrightarrow> stays R (handleAuditVerify digest cr render S rq)"
  unfolding handleAuditVerify_def invalid_def unavailable_def requireLicence_def Let_def
  by (intro within) (simp_all add: caller_isD audited)

lemmas report_defs = with_reports_def reportPeriod_def invalid_def unavailable_def requireLicence_def Let_def

lemma report_stays:
  assumes "caller_is a rq"
  shows "stays R (handleComplianceReport S rq pq)" "stays R (handleProviderScorecard S rq pq)"
    "stays R (handleExposure S rq pq)" "stays R (handleWindowFit S rq pq)"
  unfolding handleComplianceReport_def handleProviderScorecard_def handleExposure_def handleWindowFit_def report_defs
  using assms by - (intro within; simp add: caller_isD reported)+

lemma licence_stays: "stays R (handleLicence S rq)"
  unfolding handleLicence_def by (intro within)

lemma read_stays: "caller_is a rq \<Longrightarrow> \<not> writes call \<Longrightarrow> stays R (serve digest cr render S rq call)"
  by (cases call) (auto simp: need_def limitReports_def intro!: within get_stays list_stays checkpoints_stays verify_stays report_stays licence_stays)

end

locale front_door = reader +
  assumes submit: "acceptable S a ev \<Longrightarrow> R (m, q) (m, snd (sv_Submit S ev q))"
    and completed: "R (m, q) (snd (ts_MarkReversalCompleted (sv_store S) a i stamp m), q)"
    and claims: "sv_claims S = Some cs \<Longrightarrow> R (m, q) (snd (cs_ClaimReversal cs a i who token stamp m), q) \<and>
      R (m, q) (snd (cs_ReleaseReversalClaim cs a i m), q) \<and>
      R (m, q) (snd (cs_ConfirmReversalClaim cs a i stamp m), q)"
begin

lemma bulk_submits: "R (m, q) (m, snd (bulk_loop S a i events res q))"
proof (induction events arbitrary: i res q)
  case Nil
  then show ?case by (simp add: ret_def reflpD [OF reflR])
next
  case (Cons raw events)
  show ?case
  proof (cases "toBulkEvent S a raw")
    case (Inl err)
    then show ?thesis using Cons.IH by (simp add: attempt_def fail_def reflpD [OF reflR])
  next
    case (Inr ev)
    obtain r q' where s: "sv_Submit S ev q = (r, q')" by (rule prod.exhaust)
    have "R (m, q) (m, q')"
      using submit [OF toBulkEvent_acceptable [OF Inr], of m q] s by simp
    moreover have "R (m, q') (m, snd (bulk_loop S a i' events res' q'))" for i' res' by (rule Cons.IH)
    ultimately have "R (m, q) (m, snd (bulk_loop S a i' events res' q'))" for i' res'
      using transpD [OF transR] by blast
    with \<open>R (m, q) (m, q')\<close> show ?thesis by (simp add: attempt_def Inr s fail_def split: sum.split)
  qed
qed

text \<open>\<open>caller_is\<close>: if anyone sent the request, it is the tenant.\<close>

lemma debit_stays: "caller_is a rq \<Longrightarrow> stays R (handleDebit S rq b)"
  unfolding handleDebit_def
  by (intro within) (simp add: caller_isD submit toDebitEvent_acceptable)

lemma credit_stays: "caller_is a rq \<Longrightarrow> stays R (handleCredit S rq b)"
  unfolding handleCredit_def
  by (intro within) (simp add: caller_isD submit toCreditEvent_acceptable)

lemma bulk_stays: "caller_is a rq \<Longrightarrow> stays R (handleBulk S rq b)"
  unfolding handleBulk_def invalid_def
  by (intro within) (simp add: caller_isD bulk_submits)

lemma completed_stays: "caller_is a rq \<Longrightarrow> stays R (handleReversalCompleted S rq b)"
  unfolding handleReversalCompleted_def Let_def
  by (intro within) (simp_all add: caller_isD completed claims)

lemma claim_stays: "caller_is a rq \<Longrightarrow> stays R (handleClaimReversal random S rq i b)"
  unfolding handleClaimReversal_def invalid_def unavailable_def Let_def
  by (intro within) (simp_all add: caller_isD claims got)

lemma release_stays: "caller_is a rq \<Longrightarrow> stays R (handleReleaseReversalClaim S rq i)"
  unfolding handleReleaseReversalClaim_def unavailable_def
  by (intro within) (simp_all add: caller_isD claims)

theorem serve_stays: "caller_is a rq \<Longrightarrow> stays R (serve digest cr render S rq call)"
  by (cases call) (auto simp: need_def limitReports_def intro!: within debit_stays credit_stays bulk_stays completed_stays
      get_stays list_stays checkpoints_stays verify_stays report_stays licence_stays claim_stays release_stays)

end

section \<open>The API on the in-memory store\<close>

text \<open>The sink with a record of what was offered to it and whether it was taken.\<close>

definition recording :: "(Event \<Rightarrow> ('q, unit) action) \<Rightarrow> Event \<Rightarrow> ((Event \<times> bool) list \<times> 'q, unit) action" where
  "recording submit ev s =
    (case s of (offers, q) \<Rightarrow> case submit ev q of (r, q') \<Rightarrow> (r, (offers @ [(ev, \<not> isl r)], q')))"

definition memory_server ::
  "digest \<Rightarrow> (Event \<Rightarrow> ('q, unit) action) \<Rightarrow> (string \<Rightarrow> goerror + Rule list) \<Rightarrow> (bool \<times> string) option \<Rightarrow> gotime \<Rightarrow>
    duration \<Rightarrow> (goerror \<Rightarrow> string) \<Rightarrow> (memory, (Event \<times> bool) list \<times> 'q) Server" where
  "memory_server digest submit rules licence now retry show_error =
    \<lparr>sv_Submit = recording submit, sv_rules = rules, sv_store = memory_store now,
     sv_audit = Some (memory_audit digest now), sv_claims = Some memory_claims, sv_reports = Some memory_reports, sv_licence = licence,
     sv_now = now, sv_retryAfter = retry, sv_error_text = show_error\<rparr>"

lemma memory_server_sel [simp]:
  "sv_Submit (memory_server d f rules lic now retry txt) = recording f"
  "sv_rules (memory_server d f rules lic now retry txt) = rules"
  "sv_store (memory_server d f rules lic now retry txt) = memory_store now"
  "sv_audit (memory_server d f rules lic now retry txt) = Some (memory_audit d now)"
  "sv_claims (memory_server d f rules lic now retry txt) = Some memory_claims"
  "sv_reports (memory_server d f rules lic now retry txt) = Some memory_reports"
  "sv_licence (memory_server d f rules lic now retry txt) = lic"
  "sv_now (memory_server d f rules lic now retry txt) = now"
  by (simp_all add: memory_server_def)

definition request_effect ::
  "('m, 'q) Server \<Rightarrow> string \<Rightarrow> memory \<times> (Event \<times> bool) list \<times> 'r \<Rightarrow> memory \<times> (Event \<times> bool) list \<times> 'r \<Rightarrow> bool" where
  "request_effect S a s s' \<longleftrightarrow> by_ops a (fst s) (fst s') \<and>
    (\<exists>new. fst (snd s') = fst (snd s) @ new \<and> list_all (\<lambda>(ev, taken). acceptable S a ev) new)"

lemma request_effectI:
  "by_ops a m m' \<Longrightarrow> offers' = offers @ new \<Longrightarrow> list_all (\<lambda>(ev, taken). acceptable S a ev) new \<Longrightarrow>
    request_effect S a (m, (offers, q)) (m', (offers', q'))"
  by (auto simp: request_effect_def)

lemma request_effect_refl: "reflp (request_effect S a)"
  by (auto simp: reflp_def intro!: request_effectI reflpD [OF by_ops_refl])

lemma request_effect_trans:
  "transp (request_effect S a :: memory \<times> (Event \<times> bool) list \<times> 'r \<Rightarrow> _ \<Rightarrow> bool)"
proof (rule transpI)
  fix x y z :: "memory \<times> (Event \<times> bool) list \<times> 'r"
  assume "request_effect S a x y" "request_effect S a y z"
  then obtain n1 n2 where 1: "by_ops a (fst x) (fst y)" "fst (snd y) = fst (snd x) @ n1"
      "list_all (\<lambda>(ev, taken). acceptable S a ev) n1"
    and 2: "by_ops a (fst y) (fst z)" "fst (snd z) = fst (snd y) @ n2"
      "list_all (\<lambda>(ev, taken). acceptable S a ev) n2"
    by (auto simp: request_effect_def)
  have "by_ops a (fst x) (fst z)" using transpD [OF by_ops_trans 1(1) 2(1)] .
  moreover have "fst (snd z) = fst (snd x) @ (n1 @ n2)" using 1(2) 2(2) by simp
  ultimately show "request_effect S a x z"
    using 1(3) 2(3) unfolding request_effect_def by (intro conjI exI [of _ "n1 @ n2"]) simp_all
qed

lemma store_effect: "by_ops a m m' \<Longrightarrow> request_effect S a (m, q) (m', q)"
  by (cases q) (auto intro: request_effectI [where new = "[]"])

lemma claim_effects:
  "by_ops a m (snd (ClaimReversal a i who token stamp m))" "by_ops a m (snd (ReleaseReversalClaim a i m))"
  "by_ops a m (snd (ConfirmReversalClaim a i stamp m))" "by_ops a m (snd (MarkReversalCompleted a i stamp now m))"
proof -
  show "by_ops a m (snd (ClaimReversal a i who token stamp m))"
    by (rule by_opsI [of "Op_Claim (Claim a i who token stamp)"]) (auto split: prod.split sum.split bool.split)
  show "by_ops a m (snd (ReleaseReversalClaim a i m))"
    by (rule by_opsI [of "Op_Claim (Release a i)"]) (auto split: prod.split sum.split)
  show "by_ops a m (snd (ConfirmReversalClaim a i stamp m))"
    by (rule by_opsI [of "Op_Claim (Confirm a i stamp)"]) (auto split: prod.split sum.split)
  show "by_ops a m (snd (MarkReversalCompleted a i stamp now m))"
    by (rule by_opsI [of "Op_MarkReversalCompleted a i stamp now"]) simp_all
qed

lemma read_effects:
  "by_ops a m (snd (Get a i m))" "by_ops a m (snd (ListByStatus a st n m))" "by_ops a m (snd (ListAudit a n m))"
  "by_ops a m (snd (LatestCheckpoint a m))" "by_ops a m (snd (ListCheckpoints a n m))"
  "by_ops a m (snd (CountByStatus a from to m))" "by_ops a m (snd (ListReversalCandidates a from to n m))"
  "by_ops a m (snd (ProviderStats a from to m))" "by_ops a m (snd (Exposure_rows a scope now m))"
  using reflpD [OF by_ops_refl, of a m]
  by (simp_all add: Get_def ListByStatus_def ListAudit_def LatestCheckpoint_def ListCheckpoints_def CountByStatus_def ListReversalCandidates_def ProviderStats_def
      Exposure_rows_def split_beta Let_def split: option.split)

interpretation api: front_door "memory_server digest submit rules licence now retry show_error" a
  "request_effect (memory_server digest submit rules licence now retry show_error) a"
proof (unfold_locales, goal_cases)
  case 1 show ?case by (rule request_effect_refl)
next
  case 2 show ?case by (rule request_effect_trans)
next
  case (7 ev m q)
  obtain offers q0 where q: "q = (offers, q0)" by (rule prod.exhaust)
  obtain r q' where "submit ev q0 = (r, q')" by (rule prod.exhaust)
  with 7 q show ?case
    by (auto simp: recording_def intro!: request_effectI [where new = "[(ev, \<not> isl r)]"] reflpD [OF by_ops_refl])
qed (auto simp: store_effect memory_store_def memory_audit_def memory_claims_def memory_reports_def claim_effects read_effects)

interpretation api_reads: reader "memory_server digest submit rules licence now retry show_error" a "\<lambda>s s'. s' = s"
  by unfold_locales
    (auto simp: reflp_def transp_def memory_store_def memory_audit_def memory_reports_def Get_def ListByStatus_def ListAudit_def
      LatestCheckpoint_def ListCheckpoints_def CountByStatus_def ListReversalCandidates_def ProviderStats_def
      Exposure_rows_def split_beta Let_def split: option.split)

text \<open>
  C4. A request does only what its caller may do, to its caller's tenant. On the in-memory store with
  any event sink, a request either changes nothing, or its caller holds the scope to write events
  and the call is one that writes; then the store is reachable again, everything any other tenant
  has in it is as before, and every event newly offered to the sink is of the caller's own tenant,
  well formed, screened for card data, and not a live debit more than five minutes in the future.
\<close>

theorem request_confined:
  assumes "reachable m"
    and "serve digest cr render (memory_server digest submit rules licence now retry show_error) rq call (m, (offers, q)) =
      (resp, (m', (offers', q')))"
  shows "m' = m \<and> offers' = offers \<and> q' = q \<or>
    (\<exists>p new. rq_principal rq = Some p \<and> HasScope p ScopeEventsWrite \<and> writes call \<and>
      reachable m' \<and> (\<forall>b. b = p_TenantID p \<or> same_tenant b m m') \<and> offers' = offers @ new \<and>
      list_all (\<lambda>(ev, taken). acceptable (memory_server digest submit rules licence now retry show_error)
        (p_TenantID p) ev) new)"
proof (cases "\<exists>p. rq_principal rq = Some p \<and> HasScope p ScopeEventsWrite \<and> writes call")
  let ?S = "memory_server digest submit rules licence now retry show_error"
  case True
  then obtain p where p: "rq_principal rq = Some p" "HasScope p ScopeEventsWrite" "writes call" by blast
  then have "caller_is (p_TenantID p) rq" by (simp add: caller_is_def)
  then have "stays (request_effect ?S (p_TenantID p)) (serve digest cr render ?S rq call)"
    by (rule api.serve_stays)
  then have "request_effect ?S (p_TenantID p) (m, (offers, q)) (m', (offers', q'))"
    using assms(2) unfolding stays_def by (metis snd_conv)
  then obtain new where ops: "by_ops (p_TenantID p) m m'" and new: "offers' = offers @ new"
      "list_all (\<lambda>(ev, taken). acceptable (memory_server digest submit rules licence now retry show_error)
        (p_TenantID p) ev) new"
    by (auto simp: request_effect_def)
  have "b = p_TenantID p \<or> same_tenant b m m'" for b
    using ops exec_all_same_tenant [OF assms(1), of "p_TenantID p" _ b] by (auto simp: by_ops_def)
  with p new by_ops_reachable [OF ops assms(1)] show ?thesis by blast
next
  let ?S = "memory_server digest submit rules licence now retry show_error"
  case False
  show ?thesis
  proof (cases "writes call")
    case True
    with False have "\<exists>r. serve digest cr render (memory_server digest submit rules licence now retry show_error) rq call
        (m, (offers, q)) = (r, (m, (offers, q)))"
      by (cases call) (auto simp: need_def answer_def split: option.split)
    with assms(2) show ?thesis by auto
  next
    case False
    obtain a where "caller_is a rq" by (cases "rq_principal rq") (auto simp: caller_is_def)
    then have "stays (\<lambda>s s'. s' = s) (serve digest cr render ?S rq call)"
      using False by (rule api_reads.read_stays)
    then show ?thesis using assms(2) unfolding stays_def by (metis snd_conv prod.inject)
  qed
qed

section \<open>From a credit request to its event\<close>

text \<open>The event a credit request stands for, before it is checked.\<close>

definition credit_of :: "('m, 'q) Server \<Rightarrow> string \<Rightarrow> string \<Rightarrow> creditRequest \<Rightarrow> CreditEvent" where
  "credit_of S a k req =
    \<lparr>ce_TenantID = a, ce_TransactionID = cr_TransactionID req, ce_IdempotencyKey = k,
     ce_CreditAt = (if IsZero (cr_CreditAt req) then sv_now S else cr_CreditAt req),
     ce_ProviderReference = cr_ProviderReference req, ce_Status = credit_status (cr_Status req),
     ce_AmountMinor = cr_AmountMinor req, ce_Currency = to_upper (trim_space (cr_Currency req))\<rparr>"

lemma toCreditEvent_Inr:
  "toCreditEvent S a k req = Inr c \<longleftrightarrow> c = credit_of S a k req \<and> CreditEvent_Validate c = None \<and>
    ScreenString ''provider_reference'' (ce_ProviderReference c) = None"
proof -
  have "toCreditEvent S a k req = (case first_error [CreditEvent_Validate (credit_of S a k req),
      ScreenString ''provider_reference'' (ce_ProviderReference (credit_of S a k req))] of
      Some err \<Rightarrow> Inl err | None \<Rightarrow> Inr (credit_of S a k req))"
    unfolding toCreditEvent_def credit_of_def Let_def by (cases "IsZero (cr_CreditAt req)") (simp_all cong: option.case_cong)
  then show ?thesis
    by (cases "CreditEvent_Validate (credit_of S a k req)";
        cases "ScreenString ''provider_reference'' (ce_ProviderReference (credit_of S a k req))") auto
qed

lemma toCreditEvent_fields:
  "toCreditEvent S a k req = Inr c \<Longrightarrow>
    ce_TransactionID c = cr_TransactionID req \<and> ce_IdempotencyKey c = k \<and> ce_Status c = credit_status (cr_Status req) \<and>
    ce_AmountMinor c = cr_AmountMinor req \<and> ce_Currency c = to_upper (trim_space (cr_Currency req))"
  by (simp add: toCreditEvent_Inr credit_of_def)

section \<open>A sample request\<close>

definition sample_caller :: Principal where
  "sample_caller = \<lparr>p_TenantID = ''t'', p_KeyID = ''k'', p_Environment = ''live'', p_Scopes = [''events:write'']\<rparr>"

definition sample_request :: "string \<Rightarrow> request" where
  "sample_request most = \<lparr>rq_principal = Some sample_caller, rq_id = ''r'', rq_key = ''i'', rq_limit = most, rq_status = '''',
    rq_wait = None\<rparr>"

definition sample_api :: "(memory, (Event \<times> bool) list \<times> unit) Server" where
  "sample_api = memory_server sample_digest (\<lambda>ev. ret ()) (\<lambda>a. Inr []) None 9 second (\<lambda>e. ''error'')"

definition sample_credit_request :: creditRequest where
  "sample_credit_request = \<lparr>cr_TransactionID = ''x'', cr_IdempotencyKey = ''c'', cr_CreditAt = 0,
    cr_ProviderReference = ''p'', cr_Status = ''success'', cr_AmountMinor = 30, cr_Currency = ''NGN''\<rparr>"

lemma sample_api_simps [simp]:
  "sv_Submit sample_api = recording (\<lambda>ev. ret ())" "sv_rules sample_api = (\<lambda>a. Inr [])" "sv_now sample_api = 9"
  by (simp_all add: sample_api_def)

lemma sample_request_simps [simp]:
  "rq_key (sample_request l) = ''i''" "HasScope sample_caller ScopeEventsWrite"
  "rq_principal (sample_request l) = Some sample_caller" "p_TenantID sample_caller = ''t''" "rq_limit (sample_request l) = l"
  by (simp_all add: sample_request_def sample_caller_def HasScope_def ScopeEventsWrite_def)

definition sample_sent :: "string \<Rightarrow> CreditEvent" where
  "sample_sent k = \<lparr>ce_TenantID = ''t'', ce_TransactionID = ''x'',
      ce_IdempotencyKey = k, ce_CreditAt = 9, ce_ProviderReference = ''p'', ce_Status = CreditSuccess,
      ce_AmountMinor = 30, ce_Currency = ''NGN''\<rparr>"

lemma sample_converted: "k \<noteq> '''' \<Longrightarrow> length k \<le> 255 \<Longrightarrow> toCreditEvent sample_api ''t'' k sample_credit_request = Inr (sample_sent k)"
proof -
  assume k: "k \<noteq> ''''" "length k \<le> 255"
  have "credit_of sample_api ''t'' k sample_credit_request = sample_sent k"
    unfolding credit_of_def sample_credit_request_def sample_sent_def
    by (simp add: IsZero_def credit_status_def to_upper_def trim_space_def is_space_def byte_def)
  moreover have "ScreenString ''provider_reference'' ''p'' = None" by code_simp
  ultimately show ?thesis using k
    by (simp add: toCreditEvent_Inr CreditEvent_Validate_None sample_sent_def ident_ok_def maxIdentifierLen_def CreditStatus_Valid_def)
qed

lemma sample_posted:
  "snd (serve sample_digest sample_crypto (\<lambda>_. '''') sample_api (sample_request '''') (Post_Credit (Decoded sample_credit_request))
    (NewMemory, ([], ()))) = (NewMemory, ([(NewCreditEvent (sample_sent ''i''), True)], ()))"
  by (simp add: need_def handleCredit_def http_defs idempotencyKey_def sample_converted recording_def ret_def)

theorem request_confined_witness:
  "\<exists>m' offers'. snd (serve sample_digest sample_crypto (\<lambda>_. '''') sample_api (sample_request '''')
      (Post_Credit (Decoded sample_credit_request)) (NewMemory, ([], ()))) = (m', (offers', ())) \<and> reachable m' \<and>
    length offers' = 1 \<and> list_all (\<lambda>(ev, taken). acceptable sample_api ''t'' ev) offers'"
proof -
  let ?call = "Post_Credit (Decoded sample_credit_request)"
  obtain resp m' offers' where s: "serve sample_digest sample_crypto (\<lambda>_. '''') sample_api (sample_request '''') ?call
      (NewMemory, ([], ())) = (resp, (m', (offers', ())))" by (metis old.unit.exhaust prod.exhaust)
  have "m' = NewMemory" "length offers' = 1" using sample_posted s by auto
  with request_confined [OF reachable.start s [unfolded sample_api_def]] s show ?thesis
    by (auto simp: sample_api_def)
qed

end
