(* ===== verification/Ingest_Bulk.thy ===== *)
theory Ingest_Bulk
  imports Ingest_Safety
begin

text \<open>
  Bulk requests (\<^verbatim>\<open>handleBulk\<close> and \<^verbatim>\<open>toBulkEvent\<close> of \<^verbatim>\<open>internal/ingest/handlers.go\<close>): the answer
  accounts for every event, and what a credit loses on this route.
\<close>

section \<open>Errors that are the client's\<close>

fun client_error :: "goerror \<Rightarrow> bool" where
  "client_error (ValidationError f r) = True"
| "client_error (SensitiveDataError f r) = True"
| "client_error _ = False"

definition stopping :: "goerror \<Rightarrow> bool" where
  "stopping err \<longleftrightarrow> errors_is err ErrBackpressure \<or> errors_is err ErrClosed"

lemma client_error_not_stopping: "client_error err \<Longrightarrow> \<not> stopping err"
  by (cases err) (simp_all add: stopping_def ErrBackpressure_def ErrClosed_def)

lemma first_error_in: "first_error es = Some e \<Longrightarrow> Some e \<in> set es"
  by (induction es rule: first_error.induct) auto

lemma screen_client_error:
  "screenValue path v d = Some e \<Longrightarrow> client_error e"
  "screenMembers path ms d = Some e \<Longrightarrow> client_error e"
  "screenItems path i vs d = Some e \<Longrightarrow> client_error e"
proof (induction path v d and path ms d and path i vs d rule: screenValue_screenMembers_screenItems.induct)
  case (1 path v depth)
  then show ?case by (auto simp: screenValue.simps [of path v depth] split: if_splits json.splits)
qed (auto split: if_splits option.splits)

lemma Validate_client_error:
  "DebitEvent_Validate d = Some e \<Longrightarrow> client_error e" "CreditEvent_Validate c = Some e \<Longrightarrow> client_error e"
  by (auto simp: DebitEvent_Validate_def CreditEvent_Validate_def requireIdentifier_def validateCurrency_def check_def
      dest!: first_error_in split: if_splits)

lemma first_error_sum:
  "(case first_error es of None \<Rightarrow> Inr x | Some err \<Rightarrow> Inl err) = Inl e \<Longrightarrow>
    list_all (\<lambda>x. case x of None \<Rightarrow> True | Some e \<Rightarrow> client_error e) es \<Longrightarrow> client_error e"
  by (cases "first_error es") (auto simp: list_all_iff dest!: first_error_in split: option.splits)

lemma check_client: "check b f r = Some e \<Longrightarrow> client_error e"
  by (auto simp: check_def split: if_splits)

lemma ScreenString_client: "ScreenString f v = Some e \<Longrightarrow> client_error e"
  by (auto simp: ScreenString_def split: if_splits)

lemma ScreenMetadata_client: "ScreenMetadata ms = Some e \<Longrightarrow> client_error e"
  by (auto simp: ScreenMetadata_def dest: screen_client_error)

lemmas clients = check_client ScreenString_client ScreenMetadata_client Validate_client_error

lemma toDebitEvent_client_error: "toDebitEvent S a k req = Inl err \<Longrightarrow> client_error err"
  unfolding toDebitEvent_def Let_def
  by (erule first_error_sum) (simp add: clients split: option.split)

lemma toCreditEvent_client_error: "toCreditEvent S a k req = Inl err \<Longrightarrow> client_error err"
  unfolding toCreditEvent_def Let_def
  by (erule first_error_sum) (simp add: clients split: option.split)

lemma toBulkEvent_client_error: "toBulkEvent S a raw = Inl err \<Longrightarrow> client_error err"
  by (auto simp: toBulkEvent_def Let_def map_sum_def dest: toDebitEvent_client_error toCreditEvent_client_error
      split: if_splits sum.splits)

section \<open>The answer to a bulk request\<close>

text \<open>The events of a bulk request that make an event at all.\<close>

definition convertible :: "('m, 'q) Server \<Rightarrow> string \<Rightarrow> bulkEvent list \<Rightarrow> Event list" where
  "convertible S a raws = List.map_filter (\<lambda>raw. case toBulkEvent S a raw of Inl e \<Rightarrow> None | Inr ev \<Rightarrow> Some ev) raws"

lemma convertible_simps [simp]:
  "convertible S a [] = []"
  "convertible S a (raw # raws) =
    (case toBulkEvent S a raw of Inl e \<Rightarrow> convertible S a raws | Inr ev \<Rightarrow> ev # convertible S a raws)"
  by (simp_all add: convertible_def map_filter_simps split: sum.split)

lemma rejection_index [simp]: "br_Index (rejectionFor S i err) = i"
  by (simp add: rejectionFor_def Let_def split: option.split)

text \<open>What the loop adds to an answer when it offers \<open>new\<close> for the events of \<open>raws\<close> from index \<open>i\<close> on.\<close>

definition answered :: "int \<Rightarrow> bulkEvent list \<Rightarrow> (Event \<times> bool) list \<Rightarrow> bulkAccepted \<Rightarrow> bulkAccepted \<Rightarrow> bool" where
  "answered i raws new res res' \<longleftrightarrow>
    ba_Accepted res' = ba_Accepted res + int (length (filter snd new)) \<and>
    (\<exists>rej. ba_Rejected res' = ba_Rejected res @ rej \<and> length rej + length (filter snd new) = length raws \<and>
      sorted_wrt (<) (map br_Index rej) \<and> list_all (\<lambda>x. i \<le> br_Index x \<and> br_Index x < i + int (length raws)) rej)"

lemma answered_Nil: "answered i [] [] res res"
  by (simp add: answered_def)

lemma answered_rejected:
  assumes "answered (i + 1) raws new (res\<lparr>ba_Rejected := ba_Rejected res @ [x]\<rparr>) res'" "br_Index x = i"
    "filter snd new' = filter snd new"
  shows "answered i (raw # raws) new' res res'"
proof -
  obtain rej where "ba_Rejected res' = (ba_Rejected res @ [x]) @ rej" "length rej + length (filter snd new) = length raws"
    "sorted_wrt (<) (map br_Index rej)"
    "list_all (\<lambda>y. i + 1 \<le> br_Index y \<and> br_Index y < i + 1 + int (length raws)) rej"
    using assms(1) by (auto simp: answered_def)
  with assms show ?thesis
    unfolding answered_def by (intro conjI exI [of _ "x # rej"]) (auto simp: list_all_iff answered_def)
qed

lemma answered_accepted:
  assumes "answered (i + 1) raws new (res\<lparr>ba_Accepted := ba_Accepted res + 1\<rparr>) res'"
  shows "answered i (raw # raws) ((ev, True) # new) res res'"
proof -
  obtain rej where "ba_Rejected res' = ba_Rejected res @ rej" "length rej + length (filter snd new) = length raws"
    "sorted_wrt (<) (map br_Index rej)"
    "list_all (\<lambda>y. i + 1 \<le> br_Index y \<and> br_Index y < i + 1 + int (length raws)) rej"
    using assms(1) by (auto simp: answered_def)
  with assms show ?thesis
    unfolding answered_def by (intro conjI exI [of _ rej]) (auto simp: list_all_iff answered_def)
qed

text \<open>What the loop did from index \<open>i\<close> on: \<open>new\<close> is what it offered and \<open>r\<close> what it returned.\<close>

definition looped ::
  "('m, 'q) Server \<Rightarrow> string \<Rightarrow> int \<Rightarrow> bulkEvent list \<Rightarrow> bulkAccepted \<Rightarrow> (Event \<times> bool) list \<Rightarrow>
    goerror + bulkAccepted \<Rightarrow> bool" where
  "looped S a i raws res new r \<longleftrightarrow>
    (case r of
       Inl err \<Rightarrow> stopping err \<and> (\<exists>later. convertible S a raws = map fst new @ later)
     | Inr res' \<Rightarrow> map fst new = convertible S a raws \<and> answered i raws new res res')"

lemma looped_unread:
  "looped S a (i + 1) raws (res\<lparr>ba_Rejected := ba_Rejected res @ [rejectionFor S i err]\<rparr>) new r \<Longrightarrow>
    toBulkEvent S a raw = Inl err \<Longrightarrow> looped S a i (raw # raws) res new r"
  using answered_rejected [of i raws new res "rejectionFor S i err" _ "new" raw]
  by (cases r) (auto simp: looped_def)

lemma looped_refused:
  "looped S a (i + 1) raws (res\<lparr>ba_Rejected := ba_Rejected res @ [rejectionFor S i err]\<rparr>) new r \<Longrightarrow>
    toBulkEvent S a raw = Inr ev \<Longrightarrow> looped S a i (raw # raws) res ((ev, False) # new) r"
  using answered_rejected [of i raws new res "rejectionFor S i err" _ "((ev, False) # new)" raw]
  by (cases r) (auto simp: looped_def)

lemma looped_taken:
  "looped S a (i + 1) raws (res\<lparr>ba_Accepted := ba_Accepted res + 1\<rparr>) new r \<Longrightarrow>
    toBulkEvent S a raw = Inr ev \<Longrightarrow> looped S a i (raw # raws) res ((ev, True) # new) r"
  using answered_accepted [of i raws new res _ raw ev] by (cases r) (auto simp: looped_def)

lemma bulk_loop_stopped:
  assumes "(case toBulkEvent S a raw of Inl e \<Rightarrow> fail e | Inr ev \<Rightarrow> sv_Submit S ev) s = (Inl err, s')" "stopping err"
  shows "bulk_loop S a i (raw # raws) res s = (Inl err, s')"
  using assms(2) unfolding bulk_loop.simps attempt_def assms(1) stopping_def by (simp add: fail_def del: bulk_loop.simps)

lemma bulk_loop_refused:
  assumes "(case toBulkEvent S a raw of Inl e \<Rightarrow> fail e | Inr ev \<Rightarrow> sv_Submit S ev) s = (Inl err, s')" "\<not> stopping err"
  shows "bulk_loop S a i (raw # raws) res s =
    bulk_loop S a (i + 1) raws (res\<lparr>ba_Rejected := ba_Rejected res @ [rejectionFor S i err]\<rparr>) s'"
  using assms(2) unfolding bulk_loop.simps attempt_def assms(1) stopping_def by (simp add: fail_def del: bulk_loop.simps)

lemma bulk_loop_taken:
  assumes "(case toBulkEvent S a raw of Inl e \<Rightarrow> fail e | Inr ev \<Rightarrow> sv_Submit S ev) s = (Inr u, s')"
  shows "bulk_loop S a i (raw # raws) res s = bulk_loop S a (i + 1) raws (res\<lparr>ba_Accepted := ba_Accepted res + 1\<rparr>) s'"
  unfolding bulk_loop.simps attempt_def assms by (simp del: bulk_loop.simps)

lemma bulk_loop_answers:
  assumes "sv_Submit S = recording f" "bulk_loop S a i raws res (offers, q) = (r, (offers', q'))"
  shows "\<exists>new. offers' = offers @ new \<and> looped S a i raws res new r"
  using assms(2)
proof (induction raws arbitrary: i res offers q)
  case Nil
  then show ?case by (auto simp: ret_def looped_def answered_Nil)
next
  case (Cons raw raws)
  let ?one = "case toBulkEvent S a raw of Inl e \<Rightarrow> fail e | Inr ev \<Rightarrow> sv_Submit S ev"
  let ?rej = "\<lambda>err. res\<lparr>ba_Rejected := ba_Rejected res @ [rejectionFor S i err]\<rparr>"
  show ?case
  proof (cases "toBulkEvent S a raw")
    case (Inl err)
    then have one: "?one (offers, q) = (Inl err, (offers, q))" by (simp add: fail_def)
    have "\<not> stopping err" by (rule client_error_not_stopping [OF toBulkEvent_client_error [OF Inl]])
    from trans [OF sym [OF bulk_loop_refused [OF one this]] Cons.prems]
    have "bulk_loop S a (i + 1) raws (?rej err) (offers, q) = (r, (offers', q'))" .
    from Cons.IH [OF this] obtain new where "offers' = offers @ new" "looped S a (i + 1) raws (?rej err) new r" by auto
    then show ?thesis by (intro exI [of _ new] conjI looped_unread [OF _ Inl])
  next
    case ev: (Inr ev)
    obtain t q1 where f: "f ev q = (t, q1)" by (rule prod.exhaust)
    show ?thesis
    proof (cases t)
      case (Inl err)
      then have one: "?one (offers, q) = (Inl err, (offers @ [(ev, False)], q1))"
        by (simp add: ev assms(1) recording_def f)
      show ?thesis
      proof (cases "stopping err")
        case True
        then have "r = Inl err" "offers' = offers @ [(ev, False)]"
          using trans [OF sym [OF bulk_loop_stopped [OF one True]] Cons.prems] by simp_all
        then show ?thesis using True ev by (auto simp: looped_def intro!: exI [of _ "[(ev, False)]"])
      next
        case False
        from trans [OF sym [OF bulk_loop_refused [OF one this]] Cons.prems]
        have "bulk_loop S a (i + 1) raws (?rej err) (offers @ [(ev, False)], q1) = (r, (offers', q'))" .
        from Cons.IH [OF this] obtain new where "offers' = offers @ (ev, False) # new" "looped S a (i + 1) raws (?rej err) new r"
          by auto
        then show ?thesis by (intro exI [of _ "(ev, False) # new"] conjI looped_refused [OF _ ev])
      qed
    next
      case (Inr u)
      then have one: "?one (offers, q) = (Inr u, (offers @ [(ev, True)], q1))"
        by (simp add: ev assms(1) recording_def f)
      from trans [OF sym [OF bulk_loop_taken [OF one]] Cons.prems]
      have "bulk_loop S a (i + 1) raws (res\<lparr>ba_Accepted := ba_Accepted res + 1\<rparr>) (offers @ [(ev, True)], q1) = (r, (offers', q'))" .
      from Cons.IH [OF this] obtain new where "offers' = offers @ (ev, True) # new"
        "looped S a (i + 1) raws (res\<lparr>ba_Accepted := ba_Accepted res + 1\<rparr>) new r" by auto
      then show ?thesis by (intro exI [of _ "(ev, True) # new"] conjI looped_taken [OF _ ev])
    qed
  qed
qed


section \<open>A credit as an element of a bulk request\<close>

text \<open>The same credit as an element of a bulk request.\<close>

definition bulk_of :: "creditRequest \<Rightarrow> bulkEvent" where
  "bulk_of req =
    \<lparr>be_Type = ''credit'',
     be_debitRequest = \<lparr>dq_TransactionID = cr_TransactionID req, dq_IdempotencyKey = cr_IdempotencyKey req,
       dq_TransactionType = '''', dq_Provider = '''', dq_AmountMinor = cr_AmountMinor req, dq_Currency = cr_Currency req,
       dq_DebitAt = 0, dq_CustomerRef = '''', dq_Metadata = [], dq_Backfill = False, dq_ExpectedCreditMinor = 0\<rparr>,
     be_CreditAt = cr_CreditAt req, be_ProviderReference = cr_ProviderReference req, be_CreditStatus = cr_Status req\<rparr>"

lemma Validate_amount [simp]:
  "CreditEvent_Validate (c\<lparr>ce_AmountMinor := x, ce_Currency := y\<rparr>) = CreditEvent_Validate c"
  by (simp add: CreditEvent_Validate_def)

lemma bulk_of_credit:
  assumes "toCreditEvent S a (cr_IdempotencyKey req) req = Inr c"
  shows "toBulkEvent S a (bulk_of req) = Inr (NewCreditEvent (c\<lparr>ce_AmountMinor := 0, ce_Currency := ''''\<rparr>))"
proof -
  let ?req = "\<lparr>cr_TransactionID = cr_TransactionID req, cr_IdempotencyKey = cr_IdempotencyKey req,
    cr_CreditAt = cr_CreditAt req, cr_ProviderReference = cr_ProviderReference req, cr_Status = cr_Status req,
    cr_AmountMinor = 0, cr_Currency = ''''\<rparr>"
  have "credit_of S a k ?req = (credit_of S a k req)\<lparr>ce_AmountMinor := 0, ce_Currency := ''''\<rparr>" for k
    by (simp add: credit_of_def to_upper_def trim_space_def)
  with assms have "toCreditEvent S a (cr_IdempotencyKey req) ?req = Inr (c\<lparr>ce_AmountMinor := 0, ce_Currency := ''''\<rparr>)"
    by (auto simp: toCreditEvent_Inr)
  then show ?thesis by (simp add: toBulkEvent_def bulk_of_def Let_def)
qed

lemma sample_bulk_converted:
  "toBulkEvent sample_api ''t'' (bulk_of sample_credit_request) =
     Inr (NewCreditEvent ((sample_sent ''c'')\<lparr>ce_AmountMinor := 0, ce_Currency := ''''\<rparr>))"
  using bulk_of_credit [of sample_api "''t''" sample_credit_request] sample_converted [of "''c''"]
  by (simp add: sample_credit_request_def)

lemma sample_bulk_unread:
  "toBulkEvent sample_api ''t'' ((bulk_of sample_credit_request)\<lparr>be_Type := ''refund''\<rparr>) =
    Inl (ValidationError ''type'' ''must be debit or credit'')"
  by (simp add: toBulkEvent_def Let_def)


end
