(* ===== verification/Ingest_Audit.thy ===== *)
theory Ingest_Audit
  imports Ingest_Safety Checkpointer
begin

text \<open>
  What the claim and the verification endpoints answer (\<^verbatim>\<open>handleClaimReversal\<close> and
  \<^verbatim>\<open>handleAuditVerify\<close> of \<^verbatim>\<open>internal/ingest/handlers.go\<close>) on the in-memory store.
\<close>
section \<open>Claims\<close>

text \<open>When the claim endpoint grants: the row is pending reversal and nobody holds it.\<close>

definition may_claim :: "memory \<Rightarrow> string \<Rightarrow> string \<Rightarrow> bool" where
  "may_claim m a i \<longleftrightarrow>
    (\<exists>t. stored m a i = Some t \<and> tx_Status t = StatusReversalPending) \<and> map_of (m_claims m) (a, i) = None"

lemma claim_granted:
  assumes "rq_principal rq = Some p" "who \<noteq> ''''" "may_claim m (p_TenantID p) i"
  shows "\<exists>out. handleClaimReversal (Inr random) (memory_server digest submit rules licence now retry show_error) rq i
      (Some (Decoded who)) (m, q) =
    (writeJSON 200 (Claim_Body out), (m\<lparr>m_claims := AList.update (p_TenantID p, i)
         \<lparr>rc_TenantID = p_TenantID p, rc_TransactionID = i, rc_ClaimToken = ''rcl_'' @ random, rc_ClaimedBy = who,
          rc_ClaimedAt = now, rc_ConfirmedAt = None\<rparr> (m_claims m)\<rparr>, q)) \<and>
    cl_Granted out \<and> cl_ClaimToken out = ''rcl_'' @ random"
proof -
  obtain t where t: "stored m (p_TenantID p) i = Some t" "tx_Status t = StatusReversalPending"
    and free: "map_of (m_claims m) (p_TenantID p, i) = None" using assms(3) by (auto simp: may_claim_def)
  have "Get (p_TenantID p) i m = (Inr t, m)" using t by (simp add: Get_def)
  with assms(1,2) t free show ?thesis
    by (auto simp: handleClaimReversal_def http_defs memory_store_def memory_claims_def ClaimReversal_def
        claimableStatus_def newClaimToken_def Let_def)
qed

text \<open>
  The claim endpoint hands a reversal out exactly when it should. For a caller that names its
  worker and with a random token at hand, the answer is 200, granted, with that token, and the
  claim recorded for that worker, exactly when the caller's tenant has the transaction, it is
  pending reversal and nobody holds a claim on it; otherwise nothing changes and the status is
  404 for an unknown transaction and 409 for one that is in another state or already claimed.
\<close>

theorem claim_endpoint_exact:
  assumes "rq_principal rq = Some p" and "who \<noteq> ''''"
    and "handleClaimReversal (Inr random) (memory_server digest submit rules licence now retry show_error) rq i
      (Some (Decoded who)) (m, q) = (resp, (m', q'))"
  shows "q' = q \<and>
    (if may_claim m (p_TenantID p) i
     then rs_Status resp = 200 \<and>
       (case rs_Body resp of Claim_Body out \<Rightarrow> cl_Granted out \<and> cl_ClaimToken out = ''rcl_'' @ random | _ \<Rightarrow> False) \<and>
       m' = m\<lparr>m_claims := AList.update (p_TenantID p, i)
         \<lparr>rc_TenantID = p_TenantID p, rc_TransactionID = i, rc_ClaimToken = ''rcl_'' @ random, rc_ClaimedBy = who,
          rc_ClaimedAt = now, rc_ConfirmedAt = None\<rparr> (m_claims m)\<rparr>
     else m' = m \<and> rs_Status resp = (if stored m (p_TenantID p) i = None then 404 else 409))"
proof (cases "may_claim m (p_TenantID p) i")
  case True
  from claim_granted [OF assms(1,2) this, of random digest submit rules licence now retry show_error q] assms(3) True
  show ?thesis by (auto simp: writeJSON_def)
next
  case no: False
  show ?thesis
  proof (cases "stored m (p_TenantID p) i")
    case None
    then show ?thesis using assms no
      by (auto simp: handleClaimReversal_def http_defs memory_store_def Get_def writeDomainError_def
          writeError_def writeJSON_def newClaimToken_def)
  next
    case (Some t)
    then have get: "Get (p_TenantID p) i m = (Inr t, m)" by (simp add: Get_def)
    show ?thesis
    proof (cases "tx_Status t = StatusReversalPending")
      case True
      then obtain c where "map_of (m_claims m) (p_TenantID p, i) = Some c" using no Some by (auto simp: may_claim_def)
      then show ?thesis using assms no get Some True
        by (auto simp: handleClaimReversal_def http_defs memory_store_def memory_claims_def ClaimReversal_def
            claimableStatus_def newClaimToken_def Let_def writeJSON_def)
    next
      case False
      then show ?thesis using assms no get Some
        by (auto simp: handleClaimReversal_def http_defs memory_store_def claimableStatus_def writeError_def writeJSON_def)
    qed
  qed
qed

theorem claim_endpoint_exact_witness:
  "rs_Status (fst (handleClaimReversal (Inr ''0f'') sample_api (sample_request '''') ''x'' (Some (Decoded ''worker''))
    (sample_store (sample_tx\<lparr>tx_Status := StatusReversalPending\<rparr>), ([], ())))) = 200"
proof -
  let ?m = "sample_store (sample_tx\<lparr>tx_Status := StatusReversalPending\<rparr>)"
  have may: "may_claim ?m (p_TenantID sample_caller) ''x''"
    by (simp add: may_claim_def) (simp add: sample_store_def NewMemory_def)
  obtain resp m' q' where h: "handleClaimReversal (Inr ''0f'') sample_api (sample_request '''') ''x'' (Some (Decoded ''worker''))
    (?m, ([], ())) = (resp, m', q')" by (rule prod_cases3)
  have "rs_Status resp = 200"
    using claim_endpoint_exact [OF _ _ h [unfolded sample_api_def], of sample_caller] may by simp
  with h show ?thesis by simp
qed

section \<open>What the verification endpoint says\<close>

lemma sample_laws:
  "b64_decode sample_crypto (b64_encode sample_crypto x) = Some x"
  "ed_verify sample_crypto (ed_public sample_crypto k) msg (ed_sign sample_crypto k msg)"
  "length (ed_public sample_crypto k) = 32"
  by (simp_all add: sample_crypto_def)

lemma audit_verify_answer:
  assumes "rq_principal rq = Some p" "query_limit (rq_limit rq) 10000 100000 = Some n"
    "licence = None \<or> (\<exists>notice. licence = Some (True, notice))"
    "latest_loop (saved_of m (p_TenantID p)) None = Some c"
  shows "handleAuditVerify digest cr render (memory_server digest submit rules licence now retry show_error) rq (m, q) =
    (writeJSON 200 (Verify_Body
      (let records = take (nat n) (chain_of m (p_TenantID p))
       in with_checkpoint (VerifyChain digest (p_TenantID p) records)
            (VerifyAgainstCheckpoint digest cr render records c (cp_PublicKey c)))), (m, q))"
proof -
  have n: "0 < n" using assms(2) by (auto simp: query_limit_def split: if_splits option.splits)
  then have "ListAudit a n m = (Inr (take (nat n) (chain_of m a)), m)" for a
    by (auto simp: ListAudit_def Let_def)
  moreover have "LatestCheckpoint (p_TenantID p) m = (Inr c, m)" using assms(4) by (simp add: LatestCheckpoint_def)
  ultimately show ?thesis using assms(1-3)
    by (auto simp: handleAuditVerify_def http_defs requireLicence_def memory_audit_def Let_def)
qed

text \<open>
  The verification endpoint trusts whatever key it finds in the store. It checks the latest
  checkpoint under the public key saved beside it, so for any chain of records that links, however
  it was fabricated, and a checkpoint over its head signed with anyone's key, the answer is verified
  and matching the checkpoint: rewriting the chain and the checkpoint together goes unseen. (Ed25519
  and base64 are assumed to do what they document.)
\<close>

theorem verify_trusts_stored_key:
  assumes "\<And>x. b64_decode cr (b64_encode cr x) = Some x"
    and "\<And>k msg. ed_verify cr (ed_public cr k) msg (ed_sign cr k msg)"
    and "\<And>k. length (ed_public cr k) = 32"
    and "rq_principal rq = Some p" and "licence = None" and "rq_limit rq = ''''"
    and "chain_of m (p_TenantID p) = forged" and "forged \<noteq> []" and "length forged \<le> 10000"
    and "linked digest 0 '''' forged"
    and "Sign cr anyone \<lparr>cp_TenantID = p_TenantID p, cp_Seq = int (length forged), cp_Hash = ar_Hash (last forged),
        cp_TakenAt = stamp, cp_Signature = '''', cp_PublicKey = ''''\<rparr> = Inr c"
    and "saved_of m (p_TenantID p) = [c]"
  shows "\<exists>vr. handleAuditVerify digest cr render (memory_server digest submit rules licence now retry show_error) rq (m, q) =
      (writeJSON 200 (Verify_Body vr), (m, q)) \<and>
    v_Verified (vr_Verification vr) \<and> cc_Checked (vr_Checkpoint vr) \<and> cc_Matches (vr_Checkpoint vr)"
proof -
  have lim: "query_limit (rq_limit rq) 10000 100000 = Some 10000" using assms(6) by (simp add: query_limit_def)
  have latest: "latest_loop (saved_of m (p_TenantID p)) None = Some c" by (simp add: assms(12))
  obtain msg where c: "c = \<lparr>cp_TenantID = p_TenantID p, cp_Seq = int (length forged), cp_Hash = ar_Hash (last forged),
        cp_TakenAt = stamp, cp_Signature = b64_encode cr (ed_sign cr anyone msg), cp_PublicKey = Signer_PublicKey cr anyone\<rparr>"
    using assms(11) by (rule Sign_Inr) simp
  have "VerifyCheckpoint cr c (cp_PublicKey c) = None" using Sign_verifies [OF assms(1-3,11)] by (simp add: c)
  then have "genuine digest cr anyone (length forged) (p_TenantID p) forged c"
    using assms(8,10) by (auto simp: genuine_def c last_hash_def intro!: exI [of _ "length forged"])
  from genuine_matches [OF assms(10) this, of render]
  have m: "cc_Matches (VerifyAgainstCheckpoint digest cr render forged c (cp_PublicKey c))" by (simp add: c)
  moreover have "cc_Checked (VerifyAgainstCheckpoint digest cr render forged c (cp_PublicKey c))"
    by (simp add: VerifyAgainstCheckpoint_def Let_def split: option.split sum.split)
  moreover have "v_Verified (VerifyChain digest (p_TenantID p) forged)" using assms(10) by (simp add: VerifyChain_linked)
  moreover have "take (nat 10000) forged = forged" using assms(9) by simp
  ultimately show ?thesis
    using audit_verify_answer [OF assms(4) lim _ latest, of licence digest cr render submit rules now retry show_error q]
      assms(5,7) by (intro exI conjI) (auto simp: with_checkpoint_def Let_def)
qed

theorem verify_trusts_stored_key_witness:
  "let chain = [sample_record 1 ''a'' '''']; c = \<lparr>cp_TenantID = ''t'', cp_Seq = 1, cp_Hash = ''sha256:a'', cp_TakenAt = 5,
        cp_Signature = ''sha256:a'', cp_PublicKey = replicate 32 CHR ''k''\<rparr>;
       m = NewMemory\<lparr>m_audit := [(''t'', chain)], m_checkpoints := [(''t'', [c])]\<rparr>
   in \<exists>vr. handleAuditVerify sample_digest sample_crypto (\<lambda>_. '''') sample_api (sample_request '''') (m, ([], ())) =
      (writeJSON 200 (Verify_Body vr), (m, ([], ()))) \<and> v_Verified (vr_Verification vr) \<and> cc_Matches (vr_Checkpoint vr)"
proof -
  define chain where "chain = [sample_record 1 ''a'' '''']"
  define c where "c = \<lparr>cp_TenantID = ''t'', cp_Seq = 1, cp_Hash = ''sha256:a'', cp_TakenAt = 5,
        cp_Signature = ''sha256:a'', cp_PublicKey = replicate 32 CHR ''k''\<rparr>"
  define m where "m = NewMemory\<lparr>m_audit := [(''t'', chain)], m_checkpoints := [(''t'', [c])]\<rparr>"
  have "Sign sample_crypto () \<lparr>cp_TenantID = p_TenantID sample_caller, cp_Seq = int (length chain), cp_Hash = ar_Hash (last chain),
        cp_TakenAt = 5, cp_Signature = '''', cp_PublicKey = ''''\<rparr> = Inr c"
    by (simp add: Sign_def checkpointMessage_def Signer_PublicKey_def sample_crypto_def c_def chain_def sample_record_def)
  moreover have "linked sample_digest 0 '''' chain" by (simp add: chain_def sample_defs)
  ultimately have "\<exists>vr. handleAuditVerify sample_digest sample_crypto (\<lambda>_. '''')
      sample_api (sample_request '''') (m, ([], ())) = (writeJSON 200 (Verify_Body vr), (m, ([], ()))) \<and>
    v_Verified (vr_Verification vr) \<and> cc_Checked (vr_Checkpoint vr) \<and> cc_Matches (vr_Checkpoint vr)"
    unfolding sample_api_def
    by (intro verify_trusts_stored_key [where anyone = "()" and stamp = 5 and c = c and forged = chain and p = sample_caller]
        sample_laws) (simp_all add: m_def chain_def inner_def)
  then show ?thesis unfolding Let_def m_def c_def chain_def by blast
qed

text \<open>
  Asking to verify fewer records than the checkpoint covers reports tampering. On any honest
  history, whose whole chain verifies, a request whose limit is below the sequence number of the
  latest checkpoint is answered not verified, with no record named as broken.
\<close>

theorem short_verify_cries_tampering:
  assumes "\<And>x. b64_decode cr (b64_encode cr x) = Some x"
    and "\<And>k msg. ed_verify cr (ed_public cr k) msg (ed_sign cr k msg)"
    and "\<And>k. length (ed_public cr k) = 32"
    and "run_ops (exec_ledger digest cr k) ops NewMemory = (rs, m)"
    and "rq_principal rq = Some p" and "licence = None"
    and "latest_loop (saved_of m (p_TenantID p)) None = Some c"
    and "query_limit (rq_limit rq) 10000 100000 = Some n" and "n < cp_Seq c"
  shows "v_Verified (VerifyChain digest (p_TenantID p) (chain_of m (p_TenantID p))) \<and>
    (\<exists>vr. handleAuditVerify digest cr render (memory_server digest submit rules licence now retry show_error) rq (m, q) =
      (writeJSON 200 (Verify_Body vr), (m, q)) \<and> \<not> v_Verified (vr_Verification vr) \<and> v_BrokenAt (vr_Verification vr) = 0)"
proof -
  have "ledger_ok digest cr k NewMemory" by (simp add: ledger_ok_def NewMemory_def)
  from run_ledger_ok [OF assms(1-4) this] have L: "linked digest 0 '''' (chain_of m (p_TenantID p))"
    by (simp add: ledger_ok_def)
  let ?rs = "take (nat n) (chain_of m (p_TenantID p))"
  have Lt: "linked digest 0 '''' ?rs" by (rule take_linked [OF L])
  have n: "0 < n" using assms(8) by (auto simp: query_limit_def split: if_splits option.splits)
  have "length ?rs < nat (cp_Seq c)" using n assms(9) by simp
  then have "\<not> cc_Matches (VerifyAgainstCheckpoint digest cr render ?rs c (cp_PublicKey c))"
    using Matches_prefix [OF Lt] Matches_positive [OF Lt] by (metis not_less)
  moreover have "v_BrokenAt (VerifyChain digest (p_TenantID p) ?rs) = 0"
    using verify_loop_result [OF Lt] by (simp add: VerifyChain_def Let_def del: length_take)
  moreover define vr where "vr = with_checkpoint (VerifyChain digest (p_TenantID p) ?rs)
    (VerifyAgainstCheckpoint digest cr render ?rs c (cp_PublicKey c))"
  ultimately have "\<not> v_Verified (vr_Verification vr)" "v_BrokenAt (vr_Verification vr) = 0"
    by (simp_all add: with_checkpoint_def)
  moreover have "handleAuditVerify digest cr render (memory_server digest submit rules licence now retry show_error) rq (m, q) =
      (writeJSON 200 (Verify_Body vr), (m, q))"
    using audit_verify_answer [OF assms(5,8) _ assms(7), of licence digest cr render submit rules now retry show_error q]
      assms(6) by (simp add: vr_def Let_def)
  ultimately show ?thesis using L by (auto simp: VerifyChain_linked)
qed

theorem short_verify_cries_tampering_witness:
  "let ops = [Record_Event ''t'' (sample_record 0 ''a'' ''x'') 1 2, Record_Event ''t'' (sample_record 0 ''b'' ''x'') 3 4,
       Checkpoint_Round 5]; m = snd (run_ops (exec_ledger sample_digest sample_crypto ()) ops NewMemory)
   in v_Verified (VerifyChain sample_digest ''t'' (chain_of m ''t'')) \<and>
     (\<exists>vr. handleAuditVerify sample_digest sample_crypto (\<lambda>_. '''') sample_api (sample_request ''1'') (m, ([], ())) =
       (writeJSON 200 (Verify_Body vr), (m, ([], ()))) \<and> \<not> v_Verified (vr_Verification vr))"
proof -
  let ?ops = "[Record_Event ''t'' (sample_record 0 ''a'' ''x'') 1 2, Record_Event ''t'' (sample_record 0 ''b'' ''x'') 3 4,
       Checkpoint_Round 5]"
  obtain rs m where run: "run_ops (exec_ledger sample_digest sample_crypto ()) ?ops NewMemory = (rs, m)" by (rule prod.exhaust)
  have "case latest_loop (saved_of (snd (run_ops (exec_ledger sample_digest sample_crypto ()) ?ops NewMemory)) ''t'') None of
      None \<Rightarrow> False | Some c \<Rightarrow> 1 < cp_Seq c" by code_simp
  then obtain c where c: "latest_loop (saved_of m (p_TenantID sample_caller)) None = Some c" "1 < cp_Seq c"
    unfolding run by (auto split: option.splits)
  have "query_limit (rq_limit (sample_request ''1'')) 10000 100000 = Some 1"
    by (simp add: query_limit_def) code_simp
  from short_verify_cries_tampering [OF sample_laws run _ _ c(1) this c(2), of None "\<lambda>_. ''''" "\<lambda>ev. ret ()" "\<lambda>a. Inr []"
      9 second "\<lambda>e. ''error''" "([], ())"]
  show ?thesis unfolding Let_def run by (auto simp: sample_api_def)
qed

end
