(* ===== verification/Ingest_Credits.thy ===== *)
theory Ingest_Credits
  imports Ingest_Bulk Ingest_Audit
begin

text \<open>
  Two things a credit does not do on its way from the API to the store: on the bulk route it does
  not carry its amount, and once a reversal has been advised it does not stop the claim.
\<close>

section \<open>A reversal once advised\<close>

text \<open>A row pending reversal, and the claims, are untouched.\<close>

definition advice_stands :: "string \<Rightarrow> string \<Rightarrow> transaction \<Rightarrow> memory \<Rightarrow> memory \<Rightarrow> bool" where
  "advice_stands a i t m m' \<longleftrightarrow> m_claims m' = m_claims m \<and>
    (tx_Status t = StatusReversalPending \<and> stored m a i = Some t \<longrightarrow> stored m' a i = Some t)"

lemma advice_stands_refl: "reflp (advice_stands a i t)"
  by (simp add: reflp_def advice_stands_def)

lemma advice_stands_trans: "transp (advice_stands a i t)"
  by (auto simp: transp_def advice_stands_def)

lemma ApplyCredit_advice:
  assumes "target \<in> {StatusCompleted, StatusOrphaned, StatusPendingUnknown}"
  shows "advice_stands a i t m (snd (ApplyCredit a j target stamp now m))"
proof (cases "stored m a j")
  case (Some s)
  show ?thesis
  proof (cases "CanTransition (tx_Status s) target")
    case True
    then have "tx_Status s \<noteq> StatusReversalPending"
      using assms by (auto simp: CanTransition_def dests_def allowedTransitions_def)
    with Some True show ?thesis by (auto simp: advice_stands_def store_simps get2_put2)
  qed (use Some in \<open>simp add: advice_stands_def store_simps\<close>)
qed (simp add: advice_stands_def store_simps)

lemma ApplyPartialCredit_advice: "advice_stands a i t m (snd (ApplyPartialCredit a c now m))"
proof (cases "stored m a (ce_TransactionID c)")
  case (Some s)
  show ?thesis
  proof (cases "IsOpen (tx_Status s)")
    case True
    then have "tx_Status s \<noteq> StatusReversalPending" by (auto simp: IsOpen_def)
    with Some True show ?thesis
      by (cases "ce_IdempotencyKey c \<in> set (inner (m_applied m) a)")
        (auto simp: advice_stands_def store_simps get2_put2 note_key_def)
  qed (use Some in \<open>simp add: advice_stands_def store_simps\<close>)
qed (simp add: advice_stands_def store_simps)

lemma UpsertDebits_advice: "advice_stands a i t m (snd (UpsertDebits a txns now m))"
proof (cases "\<forall>u\<in>set txns. tx_TenantID u = a")
  case True
  then show ?thesis
    using upsert_keeps [of "with_tenant a m" a i t a now txns] upsert_other [of a now txns "with_tenant a m"]
    by (auto simp: UpsertDebits_ok advice_stands_def with_tenant_def)
qed (simp add: UpsertDebits_mismatch advice_stands_def)

lemma parking_advice:
  "advice_stands a i t m (snd (ParkCredit a c m))" "advice_stands a i t m (snd (PeekParkedCredits a ids m))"
  "advice_stands a i t m (snd (DeleteParkedCredit a j m))"
  by (auto simp: advice_stands_def ParkCredit_def PeekParkedCredits_def DeleteParkedCredit_def Let_def split: option.split)

interpretation advice: correlation "memory_store now" a "advice_stands a i t" "\<lambda>_. True" "\<lambda>_. True"
  by unfold_locales
    (auto simp: keeps_def memory_store_def UpsertDebits_advice ApplyCredit_advice ApplyPartialCredit_advice
      parking_advice advice_stands_refl advice_stands_trans)

text \<open>
  Once a reversal is advised, money that arrives does not stop it. Whatever batch of events
  comes in for the tenant, the row that is pending reversal stays exactly as it is, a settlement
  reported by the rail is refused, and the claim endpoint still hands the reversal out, although
  it is there to read the current verdict before money moves.
\<close>

theorem late_credit_does_not_stop_claim:
  assumes "stored m (p_TenantID p) i = Some t" "tx_Status t = StatusReversalPending"
    and "map_of (m_claims m) (p_TenantID p, i) = None" "rq_principal rq = Some p" "who \<noteq> ''''"
    and "m1 = snd (Apply E (memory_store stamp) (p_TenantID p) evs m)"
  shows "stored m1 (p_TenantID p) i = Some t \<and>
    MarkSettled (p_TenantID p) i settled now m1 = (Inl (InvalidTransitionError StatusReversalPending StatusCompleted), m1) \<and>
    rs_Status (fst (handleClaimReversal (Inr random) (memory_server digest submit rules licence now retry show_error) rq i
      (Some (Decoded who)) (m1, q))) = 200"
proof -
  have "advice_stands (p_TenantID p) i t m m1"
    using advice.Apply_keeps [of E "p_TenantID p" evs i t stamp] assms(6) by (simp add: keeps_def)
  with assms(1-3) have row: "stored m1 (p_TenantID p) i = Some t" and free: "map_of (m_claims m1) (p_TenantID p, i) = None"
    by (simp_all add: advice_stands_def)
  then have "may_claim m1 (p_TenantID p) i" using assms(2) by (simp add: may_claim_def)
  from claim_granted [OF assms(4,5) this, of random digest submit rules licence now retry show_error q]
  have "rs_Status (fst (handleClaimReversal (Inr random) (memory_server digest submit rules licence now retry show_error) rq i
      (Some (Decoded who)) (m1, q))) = 200" by (auto simp: writeJSON_def)
  moreover have "MarkSettled (p_TenantID p) i settled now m1 =
      (Inl (InvalidTransitionError StatusReversalPending StatusCompleted), m1)"
    using row assms(2) by (simp add: MarkSettled_def store_simps CanTransition_def dests_def allowedTransitions_def)
  ultimately show ?thesis using row by simp
qed

theorem late_credit_does_not_stop_claim_witness:
  "let m = sample_store (sample_tx\<lparr>tx_Status := StatusReversalPending\<rparr>);
       m1 = snd (Apply sample_engine (memory_store 9) ''t'' [NewCreditEvent (sample_sent ''c'')] m)
   in stored m1 ''t'' ''x'' = stored m ''t'' ''x'' \<and>
     rs_Status (fst (handleClaimReversal (Inr ''0f'') sample_api (sample_request '''') ''x'' (Some (Decoded ''worker''))
       (m1, ([], ())))) = 200"
proof -
  let ?t = "sample_tx\<lparr>tx_Status := StatusReversalPending\<rparr>"
  have "stored (sample_store ?t) (p_TenantID sample_caller) ''x'' = Some ?t" by simp
  moreover have "map_of (m_claims (sample_store ?t)) (p_TenantID sample_caller, ''x'') = None"
    by (simp add: sample_store_def NewMemory_def)
  ultimately show ?thesis
    using late_credit_does_not_stop_claim [where m = "sample_store ?t" and p = sample_caller and i = "''x''" and t = ?t
        and rq = "sample_request ''''" and who = "''worker''" and E = sample_engine and stamp = 9
        and evs = "[NewCreditEvent (sample_sent ''c'')]" and random = "''0f''" and digest = sample_digest
        and submit = "\<lambda>ev. ret ()" and rules = "\<lambda>a. Inr []" and licence = None and now = 9 and retry = second
        and show_error = "\<lambda>e. ''error''" and q = "([], ())"]
    by (simp add: Let_def sample_api_def)
qed

section \<open>The amount of a credit on the bulk route\<close>

lemma Apply_one_credit:
  assumes "eng_rules E a = Inr rs" "eng_salt E a = Inr salt" "acceptable S a (NewCreditEvent c)"
    "ScreenString ''transaction_id'' (ce_TransactionID c) = None"
  shows "snd (Apply E P a [NewCreditEvent c] m) = snd (applyCredit P a c m)"
  using assms
  by (cases "applyCredit P a c m"; cases "fst (applyCredit P a c m)")
    (simp_all add: Apply_def acceptable_def screenCredit_def NewCreditEvent_def Event_TenantID_def Event_Validate_def
      attempt_def ret_def Let_def)

text \<open>
  The bulk route drops what a credit is worth. A part payment sent to the credit endpoint is
  added to what the transaction has received and leaves it open; the very same credit sent as an
  element of a bulk request loses its amount and currency, and settles the transaction in full
  with nothing added.
\<close>

theorem bulk_credit_settles_in_full:
  assumes "toCreditEvent S a (cr_IdempotencyKey req) req = Inr c"
    and "ScreenString ''transaction_id'' (cr_TransactionID req) = None"
    and "eng_rules E a = Inr rules" and "eng_salt E a = Inr salt"
    and "stored m a (cr_TransactionID req) = Some s" and "IsOpen (tx_Status s)"
    and "cr_Status req = ''success''" and "cr_IdempotencyKey req \<notin> set (inner (m_applied m) a)"
    and "to_upper (trim_space (cr_Currency req)) \<in> {'''', tx_Currency s}"
    and "0 < cr_AmountMinor req" and "0 \<le> tx_CreditedMinor s"
    and "tx_CreditedMinor s + cr_AmountMinor req < ExpectedCredit s" and "int64 (ExpectedCredit s)"
  shows "\<exists>c' t t'. toBulkEvent S a (bulk_of req) = Inr (NewCreditEvent c') \<and>
    stored (snd (Apply E (memory_store now) a [NewCreditEvent c] m)) a (cr_TransactionID req) = Some t \<and>
    tx_Status t = tx_Status s \<and> tx_CreditedMinor t = tx_CreditedMinor s + cr_AmountMinor req \<and>
    stored (snd (Apply E (memory_store now) a [NewCreditEvent c'] m)) a (cr_TransactionID req) = Some t' \<and>
    tx_Status t' = StatusCompleted \<and> tx_CreditedMinor t' = tx_CreditedMinor s"
proof -
  let ?i = "cr_TransactionID req"
  define c' where "c' = c\<lparr>ce_AmountMinor := 0, ce_Currency := ''''\<rparr>"
  note f = toCreditEvent_fields [OF assms(1)]
  have b: "toBulkEvent S a (bulk_of req) = Inr (NewCreditEvent c')" using bulk_of_credit [OF assms(1)] by (simp add: c'_def)
  have c: "ce_TransactionID c = ?i" "ce_Status c = CreditSuccess" "0 < ce_AmountMinor c"
    and c': "ce_TransactionID c' = ?i" "ce_Status c' = CreditSuccess" "ce_AmountMinor c' = 0"
    using f assms(7,10) by (simp_all add: c'_def credit_status_def)
  have single: "snd (Apply E (memory_store now) a [NewCreditEvent c] m) =
      (note_key a c m)\<lparr>m_byTenant := put2 (m_byTenant m) a ?i (partially_credited c now s)\<rparr>"
    using assms(2-6,8) c f Apply_one_credit [OF assms(3,4) toCreditEvent_acceptable [OF assms(1)], of "memory_store now" m]
    by (simp add: applyCredit_def tryApply_def seq_def attempt_def ret_def memory_store_def ApplyPartialCredit_fresh)
  have "CanTransition (tx_Status s) StatusCompleted"
    using assms(6) by (auto simp: IsOpen_def CanTransition_def dests_def allowedTransitions_def)
  then have bulk: "snd (Apply E (memory_store now) a [NewCreditEvent c'] m) =
      m\<lparr>m_byTenant := put2 (m_byTenant m) a ?i (credited StatusCompleted (ce_CreditAt c') now s)\<rparr>"
    using assms(2-6) c' Apply_one_credit [OF assms(3,4) toBulkEvent_acceptable [OF b], of "memory_store now" m]
    by (simp add: applyCredit_def tryApply_def seq_def attempt_def ret_def memory_store_def ApplyCredit_ok)
  have "int64 (tx_CreditedMinor s + cr_AmountMinor req)" using assms(10-13) by (simp add: int64_def)
  then have "tx_Status (partially_credited c now s) = tx_Status s"
    "tx_CreditedMinor (partially_credited c now s) = tx_CreditedMinor s + cr_AmountMinor req"
    using assms(9,12) f by (auto simp: partially_credited_def Let_def)
  with single bulk b show ?thesis
    by (intro exI [of _ c'] exI [of _ "partially_credited c now s"] exI [of _ "credited StatusCompleted (ce_CreditAt c') now s"])
      (simp add: get2_put2)
qed

theorem bulk_credit_settles_in_full_witness:
  "\<exists>c' t t'. toBulkEvent sample_api ''t'' (bulk_of sample_credit_request) = Inr (NewCreditEvent c') \<and>
    stored (snd (Apply sample_engine (memory_store 9) ''t'' [NewCreditEvent (sample_sent ''c'')] (sample_store sample_tx)))
      ''t'' ''x'' = Some t \<and> tx_Status t = StatusPendingDebit \<and>
    stored (snd (Apply sample_engine (memory_store 9) ''t'' [NewCreditEvent c'] (sample_store sample_tx))) ''t'' ''x'' = Some t' \<and>
    tx_Status t' = StatusCompleted"
proof -
  let ?r = sample_credit_request
  have req: "cr_TransactionID ?r = ''x''" "cr_IdempotencyKey ?r = ''c''" "cr_Status ?r = ''success''"
    "cr_AmountMinor ?r = 30" "to_upper (trim_space (cr_Currency ?r)) = ''NGN''"
    by (simp_all add: sample_credit_request_def to_upper_def trim_space_def is_space_def byte_def)
  have "toCreditEvent sample_api ''t'' (cr_IdempotencyKey ?r) ?r = Inr (sample_sent ''c'')"
    using sample_converted [of "''c''"] by (simp add: req)
  moreover have "ScreenString ''transaction_id'' (cr_TransactionID ?r) = None" unfolding req by code_simp
  moreover have "eng_rules sample_engine ''t'' = Inr []" "eng_salt sample_engine ''t'' = Inr ''salt''"
    by (simp_all add: sample_engine_def)
  moreover have "cr_IdempotencyKey ?r \<notin> set (inner (m_applied (sample_store sample_tx)) ''t'')"
    by (simp add: sample_store_def NewMemory_def)
  ultimately show ?thesis
    using bulk_credit_settles_in_full [of sample_api "''t''" ?r "sample_sent ''c''" sample_engine "[]" "''salt''"
        "sample_store sample_tx" sample_tx 9]
    by (simp add: req IsOpen_def int64_def) blast
qed

end
