(* ===== verification/Report_Csv.thy ===== *)
theory Report_Csv
  imports Report_Compliance
begin

text \<open>
  The breach list as CSV (\<^verbatim>\<open>internal/report/compliance.go\<close>), with the writer of
  \<^verbatim>\<open>encoding/csv\<close> as the code configures it, a reader of RFC 4180 in the other direction, and
  that the one undoes the other whatever the fields hold.
\<close>

section \<open>Writing\<close>

abbreviation (input) LF :: char where "LF \<equiv> CHR 0x0A"
abbreviation (input) CR :: char where "CR \<equiv> CHR 0x0D"
abbreviation (input) DQ :: char where "DQ \<equiv> CHR 0x22"

definition csvSafe :: "string \<Rightarrow> string" where
  "csvSafe v =
    (case v of
       [] \<Rightarrow> v
     | c # _ \<Rightarrow> if c \<in> {CHR ''='', CHR ''+'', CHR ''-'', CHR ''@'', CHR 0x09, CR} then CHR 0x27 # v else v)"

text \<open>\<open>rfc3339\<close> prints an instant.\<close>

definition formatPtr :: "(gotime \<Rightarrow> string) \<Rightarrow> gotime option \<Rightarrow> string" where
  "formatPtr rfc3339 t = (case t of None \<Rightarrow> [] | Some t \<Rightarrow> rfc3339 t)"

definition csv_header :: "string list" where
  "csv_header = [''transaction_id'', ''status'', ''amount_minor'', ''currency'', ''debit_at'', ''detected_at'',
    ''reversal_completed_at'', ''elapsed_seconds'', ''reason'']"

definition csv_row :: "(gotime \<Rightarrow> string) \<Rightarrow> Breach \<Rightarrow> string list" where
  "csv_row rfc3339 b =
    [csvSafe (bh_TransactionID b), csvSafe (bh_Status b), show_int (bh_AmountMinor b), csvSafe (bh_Currency b),
     rfc3339 (bh_DebitAt b), formatPtr rfc3339 (bh_DetectedAt b), formatPtr rfc3339 (bh_ReversalCompletedAt b),
     fixed1 (bh_ElapsedSeconds b), csvSafe (bh_Reason b)]"

text \<open>A field that could be misread is quoted, its quotes doubled.\<close>

definition needs_quotes :: "string \<Rightarrow> bool" where
  "needs_quotes f \<longleftrightarrow> f \<noteq> [] \<and>
    (f = [CHR 0x5C, CHR ''.''] \<or> list_ex (\<lambda>c. c \<in> {LF, CR, DQ, CHR '',''}) f \<or> is_space (hd f))"

fun escape :: "string \<Rightarrow> string" where
  "escape [] = []"
| "escape (c # f) = (if c = DQ then [DQ, DQ] else [c]) @ escape f"

definition csv_field :: "string \<Rightarrow> string" where
  "csv_field f = (if needs_quotes f then DQ # escape f @ [DQ] else f)"

definition csv_record :: "string list \<Rightarrow> string" where
  "csv_record cells = join_with '','' (map csv_field cells) @ [LF]"

definition CSV :: "(gotime \<Rightarrow> string) \<Rightarrow> Report \<Rightarrow> string" where
  "CSV rfc3339 r = concat (map csv_record (csv_header # map (csv_row rfc3339) (rp_Breaches r)))"

section \<open>Reading\<close>

datatype csv_state = Field_Start | Bare | Quoted | Quote_Seen

function read_csv :: "csv_state \<Rightarrow> string \<Rightarrow> string list \<Rightarrow> string \<Rightarrow> string list list" where
  "read_csv st f fs [] = (if st = Field_Start \<and> fs = [] then [] else [fs @ [f]])"
| "read_csv Quoted f fs (c # s) =
    (if c = DQ then read_csv Quote_Seen f fs s else read_csv Quoted (f @ [c]) fs s)"
| "st \<noteq> Quoted \<Longrightarrow> read_csv st f fs (c # s) =
    (if c = CHR '','' then read_csv Field_Start [] (fs @ [f]) s
     else if c = LF then (fs @ [f]) # read_csv Field_Start [] [] s
     else if c = DQ \<and> st = Field_Start then read_csv Quoted [] fs s
     else if c = DQ \<and> st = Quote_Seen then read_csv Quoted (f @ [DQ]) fs s
     else read_csv Bare (f @ [c]) fs s)"
  by (auto, metis list.exhaust)
termination by (relation "measure (\<lambda>(_, _, _, s). length s)") auto

lemma read_quoted: "read_csv Quoted f fs (escape v @ DQ # s) = read_csv Quote_Seen (f @ v) fs s"
  by (induction v arbitrary: f) auto

lemma read_bare:
  "list_all (\<lambda>c. c \<notin> {LF, DQ, CHR '',''}) v \<Longrightarrow>
   read_csv Bare f fs (v @ s) = read_csv Bare (f @ v) fs s"
  by (induction v arbitrary: f) auto

lemma read_unquoted:
  assumes "list_all (\<lambda>c. c \<notin> {LF, DQ, CHR '',''}) v" "v \<noteq> []"
  shows "read_csv Field_Start [] fs (v @ s) = read_csv Bare v fs s"
  using assms by (cases v) (auto simp: read_bare)

lemma read_field:
  "read_csv Field_Start [] fs (csv_field v @ CHR '','' # s) = read_csv Field_Start [] (fs @ [v]) s"
  "read_csv Field_Start [] fs (csv_field v @ LF # s) = (fs @ [v]) # read_csv Field_Start [] [] s"
proof -
  have plain: "list_all (\<lambda>c. c \<notin> {LF, DQ, CHR '',''}) v" if "\<not> needs_quotes v"
    using that by (cases v) (auto simp: needs_quotes_def list_ex_iff list_all_iff)
  show "read_csv Field_Start [] fs (csv_field v @ CHR '','' # s) = read_csv Field_Start [] (fs @ [v]) s"
    "read_csv Field_Start [] fs (csv_field v @ LF # s) = (fs @ [v]) # read_csv Field_Start [] [] s"
    using plain by (cases "v = []"; cases "needs_quotes v";
      simp add: csv_field_def read_quoted read_unquoted needs_quotes_def)+
qed

lemma read_record:
  "cells \<noteq> [] \<Longrightarrow> read_csv Field_Start [] fs (csv_record cells @ s) = (fs @ cells) # read_csv Field_Start [] [] s"
proof (induction cells arbitrary: fs rule: list_nonempty_induct)
  case (single v)
  then show ?case by (simp add: csv_record_def read_field)
next
  case (cons v vs)
  then have "csv_record (v # vs) = csv_field v @ CHR '','' # csv_record vs"
    by (cases vs) (auto simp: csv_record_def)
  with cons.IH show ?case by (simp add: read_field)
qed

lemma read_records:
  "list_all (\<lambda>cells. cells \<noteq> []) rows \<Longrightarrow> read_csv Field_Start [] [] (concat (map csv_record rows)) = rows"
  by (induction rows) (simp_all add: read_record)

text \<open>A cell a spreadsheet would run.\<close>

definition formula_start :: "string \<Rightarrow> bool" where
  "formula_start v \<longleftrightarrow> (case v of [] \<Rightarrow> False | c # _ \<Rightarrow> c \<in> {CHR ''='', CHR ''+'', CHR ''-'', CHR ''@'', CHR 0x09, CR})"

lemma csvSafe_safe: "\<not> formula_start (csvSafe v)"
  by (cases v) (auto simp: csvSafe_def formula_start_def)

text \<open>
  C31. The CSV of any report reads back as the header and one row per breach, every cell as it
  was written, whatever commas, quotes or line breaks the tenant's identifiers hold; and no cell
  of the tenant's choosing (the id, the status, the currency, the reason) starts like a formula.
\<close>

theorem CSV_reads_back:
  "read_csv Field_Start [] [] (CSV rfc3339 r) = csv_header # map (csv_row rfc3339) (rp_Breaches r) \<and>
   list_all (\<lambda>row. length row = length csv_header \<and> \<not> formula_start (row ! 0) \<and> \<not> formula_start (row ! 1) \<and>
     \<not> formula_start (row ! 3) \<and> \<not> formula_start (row ! 8)) (tl (read_csv Field_Start [] [] (CSV rfc3339 r)))"
proof -
  have reads: "read_csv Field_Start [] [] (CSV rfc3339 r) = csv_header # map (csv_row rfc3339) (rp_Breaches r)"
    unfolding CSV_def by (rule read_records) (simp add: csv_header_def csv_row_def list_all_iff)
  then show ?thesis
    by (simp add: list_all_iff csv_row_def csv_header_def csvSafe_safe)
qed

end
