(* ===== verification/Report_Totals.thy ===== *)
theory Report_Totals
  imports Report_Queries "HOL-Library.Multiset"
begin

text \<open>
  What the reports' numbers are, over any store: the counts by status, adjacent periods, and the
  exposure per currency, whose age bands add up to the totals.
\<close>

section \<open>Sums over an updated map\<close>

lemma sum_update:
  fixes g :: "'a \<times> 'b \<Rightarrow> int"
  assumes "distinct (map fst m)"
  shows "sum_list (map g (AList.update k v m)) =
    sum_list (map g m) + g (k, v) - (case map_of m k of None \<Rightarrow> 0 | Some u \<Rightarrow> g (k, u))"
  using assms
proof (induction m)
  case (Cons p m)
  then show ?case by (cases p) (auto split: option.splits dest: map_of_SomeD)
qed simp

lemma wrap64_add_nested [simp]: "wrap64 (x + wrap64 y) = wrap64 (x + y)"
  by (metis add.commute wrap64_wrap64_add)

lemma wrap64_0 [simp]: "wrap64 0 = 0"
  by (simp add: int64_def)

lemma wrap64_replace: "wrap64 (x + wrap64 (y + z) - y) = wrap64 (x + z)"
proof -
  have "wrap64 (x + wrap64 (y + z) - y) = wrap64 ((x - y) + wrap64 (y + z))"
    by (simp add: algebra_simps)
  also have "\<dots> = wrap64 (x + z)"
    by (simp only: wrap64_add_nested) simp
  finally show ?thesis .
qed

lemma set_fold_insert: "set (fold List.insert xs ys) = set xs \<union> set ys"
  by (induction xs arbitrary: ys) auto

lemma distinct_fold_insert: "distinct ys \<Longrightarrow> distinct (fold List.insert xs ys)"
  by (induction xs arbitrary: ys) auto

section \<open>Counts by status\<close>

lemma count_rows_lookup:
  "(case map_of (count_rows from to ts out) s of None \<Rightarrow> 0 | Some n \<Rightarrow> n) =
   (case map_of out s of None \<Rightarrow> 0 | Some n \<Rightarrow> n) +
     int (length (filter (\<lambda>t. tx_Status t = s \<and> inPeriod (tx_DebitAt t) from to) ts))"
  by (induction "from" to ts out rule: count_rows.induct) (auto simp: update_conv)

lemma count_rows_distinct: "distinct (map fst out) \<Longrightarrow> distinct (map fst (count_rows from to ts out))"
  by (induction "from" to ts out rule: count_rows.induct) (simp_all add: distinct_update)

lemma inPeriod_adjacent:
  "a \<le> b \<Longrightarrow> b \<le> c \<Longrightarrow> inPeriod t a c \<longleftrightarrow> inPeriod t a b \<or> inPeriod t b c"
  "\<not> (inPeriod t a b \<and> inPeriod t b c)"
  by (auto simp: inPeriod_def)

section \<open>Exposure\<close>

definition exposed :: "scope \<Rightarrow> transaction \<Rightarrow> bool" where
  "exposed scope t \<longleftrightarrow> isExposed (tx_Status t) \<and> inScope (tx_IsBackfill t) scope"

lemma exposure_loop_fold:
  "exposure_loop scope now ts s = fold (add_exposed now) (filter (exposed scope) ts) s"
  by (induction scope now ts s rule: exposure_loop.induct) (auto simp: exposed_def)

abbreviation suspect :: "transaction \<Rightarrow> bool" where
  "suspect t \<equiv> tx_Status t = StatusSuspect"

definition total_of :: "string \<Rightarrow> transaction list \<Rightarrow> ExposureTotal" where
  "total_of c ys =
    \<lparr>xt_Currency = c, xt_Transactions = int (length ys), xt_Customers = 0,
     xt_AmountMinor = wrap64 (sum_list (map outstanding_of ys)), xt_OldestDebitAt = Min (tx_DebitAt ` set ys),
     xt_UnresolvedTransactions = int (length (filter suspect ys)),
     xt_UnresolvedAmountMinor = wrap64 (sum_list (map outstanding_of (filter suspect ys)))\<rparr>"

abbreviation customers_of :: "transaction list \<Rightarrow> string list" where
  "customers_of ys \<equiv> fold List.insert (map tx_CustomerRefHash ys) []"

abbreviation of_currency :: "string \<Rightarrow> transaction list \<Rightarrow> transaction list" where
  "of_currency c \<equiv> filter (\<lambda>t. tx_Currency t = c)"

text \<open>The accumulator of a currency after a list is the total of its part of the list.\<close>

definition acc_of :: "string \<Rightarrow> transaction list \<Rightarrow> (ExposureTotal \<times> string list) option" where
  "acc_of c ys = (if ys = [] then None else Some (total_of c ys, customers_of ys))"

lemma add_exposed_totals:
  assumes "map_of (fst s) (tx_Currency t) = acc_of (tx_Currency t) ys"
  shows "fst (add_exposed now t s) =
    AList.update (tx_Currency t) (total_of (tx_Currency t) (ys @ [t]), customers_of (ys @ [t])) (fst s)"
proof (cases "ys = []")
  case True
  with assms show ?thesis
    by (simp add: add_exposed_def acc_of_def total_of_def Let_def)
next
  case False
  define M where "M = Min (tx_DebitAt ` set ys)"
  have "Min (tx_DebitAt ` set (ys @ [t])) = (if tx_DebitAt t < M then tx_DebitAt t else M)"
    using False by (simp add: min_def flip: M_def)
  note total = total_of_def [of _ "ys @ [t]", unfolded this] total_of_def [of _ ys, folded M_def]
  show ?thesis
    unfolding add_exposed_def assms acc_of_def total
    using False by (simp add: Let_def add.commute)
qed

lemma fold_totals:
  "map_of (fst (fold (add_exposed now) xs ([], []))) c = acc_of c (of_currency c xs)"
proof (induction xs arbitrary: c rule: rev_induct)
  case (snoc t xs)
  show ?case
    by (simp add: add_exposed_totals [OF snoc] update_conv snoc) (auto simp: acc_of_def)
qed (simp add: acc_of_def)

definition band_of :: "gotime \<Rightarrow> transaction \<Rightarrow> string" where
  "band_of now t = BandFor (time_sub now (tx_DebitAt t))"

abbreviation band_sum :: "string \<Rightarrow> (AgeBand \<Rightarrow> int) \<Rightarrow> bands \<Rightarrow> int" where
  "band_sum c f agg \<equiv> sum_list (map (\<lambda>(k, b). if fst k = c then f b else 0) agg)"

definition bands_ok :: "transaction list \<Rightarrow> bands \<Rightarrow> bool" where
  "bands_ok xs agg \<longleftrightarrow> distinct (map fst agg) \<and>
    (\<forall>(k, b) \<in> set agg. ab_Currency b = fst k \<and> ab_Band b = snd k \<and> snd k \<in> fst ` set AgeBands) \<and>
    (\<forall>c. band_sum c ab_Transactions agg = int (length (of_currency c xs))) \<and>
    (\<forall>c. wrap64 (band_sum c ab_AmountMinor agg) = wrap64 (sum_list (map outstanding_of (of_currency c xs))))"

lemma BandFor_known: "BandFor age \<in> fst ` set AgeBands"
  by (simp add: BandFor_cases AgeBands_def)

lemma bands_ok_step:
  assumes "bands_ok xs agg"
  shows "bands_ok (xs @ [t]) (accumulateBand agg (tx_Currency t) age (outstanding_of t))"
proof -
  let ?k = "(tx_Currency t, BandFor age)" and ?o = "outstanding_of t"
  define b where "b = (case map_of agg ?k of Some b \<Rightarrow> b
    | None \<Rightarrow> \<lparr>ab_Currency = tx_Currency t, ab_Band = BandFor age, ab_Transactions = 0, ab_AmountMinor = 0\<rparr>)"
  define b' where "b' = b\<lparr>ab_Transactions := ab_Transactions b + 1, ab_AmountMinor := wrap64 (ab_AmountMinor b + ?o)\<rparr>"
  have new: "accumulateBand agg (tx_Currency t) age ?o = AList.update ?k b' agg"
    unfolding accumulateBand_def b'_def b_def Let_def snd_conv by (rule refl)
  have d: "distinct (map fst agg)"
    using assms by (simp add: bands_ok_def)
  have old: "(case map_of agg ?k of None \<Rightarrow> 0 | Some u \<Rightarrow> f u) = (if map_of agg ?k = None then 0 else f b)" for f :: "AgeBand \<Rightarrow> int"
    by (simp add: b_def split: option.split)
  have fresh: "map_of agg ?k = None \<Longrightarrow> ab_Transactions b = 0 \<and> ab_AmountMinor b = 0"
    by (simp add: b_def)
  have labels: "ab_Currency b = tx_Currency t \<and> ab_Band b = BandFor age"
    using assms by (auto simp: b_def bands_ok_def split: option.split dest!: map_of_SomeD)
  have sums: "band_sum c f (AList.update ?k b' agg) =
      (if c = tx_Currency t then band_sum c f agg + f b' - (if map_of agg ?k = None then 0 else f b) else band_sum c f agg)"
    for c and f :: "AgeBand \<Rightarrow> int"
    using old [of f] by (auto simp: sum_update [OF d] split: option.splits)
  have counts: "band_sum c ab_Transactions (AList.update ?k b' agg) = int (length (of_currency c (xs @ [t])))" for c
    using assms fresh unfolding sums by (auto simp: bands_ok_def b'_def)
  have amounts: "wrap64 (band_sum c ab_AmountMinor (AList.update ?k b' agg)) =
      wrap64 (sum_list (map outstanding_of (of_currency c (xs @ [t]))))" for c
  proof (cases "c = tx_Currency t")
    case False
    then show ?thesis using assms unfolding sums by (simp add: bands_ok_def)
  next
    case True
    have "wrap64 (band_sum c ab_AmountMinor agg + wrap64 (ab_AmountMinor b + ?o) - ab_AmountMinor b) =
        wrap64 (wrap64 (band_sum c ab_AmountMinor agg) + ?o)"
      by (simp only: wrap64_replace wrap64_wrap64_add)
    also have "\<dots> = wrap64 (sum_list (map outstanding_of (of_currency c (xs @ [t]))))"
      using assms True by (simp add: bands_ok_def)
    finally show ?thesis
      using True fresh unfolding sums by (auto simp: b'_def)
  qed
  have "set (AList.update ?k b' agg) = insert (?k, b') {p \<in> set agg. fst p \<noteq> ?k}"
    by (rule set_update_distinct [OF d])
  then have "\<forall>(k, b) \<in> set (AList.update ?k b' agg). ab_Currency b = fst k \<and> ab_Band b = snd k \<and> snd k \<in> fst ` set AgeBands"
    using assms labels by (auto simp: bands_ok_def b'_def BandFor_known)
  then show ?thesis
    unfolding new bands_ok_def using counts amounts by (simp add: distinct_update [OF d])
qed

lemma fold_bands: "bands_ok xs (snd (fold (add_exposed now) xs ([], [])))"
proof (induction xs rule: rev_induct)
  case Nil
  show ?case by (simp add: bands_ok_def)
next
  case (snoc t xs)
  have "snd (add_exposed now t s) = accumulateBand (snd s) (tx_Currency t) (time_sub now (tx_DebitAt t)) (outstanding_of t)" for s
    by (simp add: add_exposed_def Let_def split_beta)
  with bands_ok_step [OF snoc] show ?case by simp
qed

lemma fold_keys: "distinct (map fst (fst (fold (add_exposed now) xs ([], []))))"
  by (induction xs rule: rev_induct) (simp_all add: add_exposed_def Let_def split_beta distinct_update)

text \<open>Each band holds the transactions of its currency and age, and only those.\<close>

definition band_at :: "string \<Rightarrow> string \<Rightarrow> transaction list \<Rightarrow> AgeBand option" where
  "band_at c b zs =
    (if zs = [] then None
     else Some \<lparr>ab_Currency = c, ab_Band = b, ab_Transactions = int (length zs),
       ab_AmountMinor = wrap64 (sum_list (map outstanding_of zs))\<rparr>)"

abbreviation in_band :: "gotime \<Rightarrow> string \<Rightarrow> string \<Rightarrow> transaction list \<Rightarrow> transaction list" where
  "in_band now c b \<equiv> filter (\<lambda>t. tx_Currency t = c \<and> band_of now t = b)"

lemma add_exposed_bands:
  assumes "map_of (snd s) (tx_Currency t, band_of now t) = band_at (tx_Currency t) (band_of now t) zs"
  shows "map_of (snd (add_exposed now t s)) k =
    (if k = (tx_Currency t, band_of now t) then band_at (tx_Currency t) (band_of now t) (zs @ [t]) else map_of (snd s) k)"
  using assms
  by (cases "zs = []") (simp_all add: add_exposed_def accumulateBand_def band_at_def update_conv Let_def split_beta
    add.commute flip: band_of_def)

lemma fold_band_at:
  "map_of (snd (fold (add_exposed now) xs ([], []))) (c, b) = band_at c b (in_band now c b xs)"
proof (induction xs arbitrary: c b rule: rev_induct)
  case (snoc t xs)
  show ?case
    by (simp add: add_exposed_bands [OF snoc] snoc)
qed (simp add: band_at_def)

lemma band_at_SomeD:
  "band_at c n zs = Some b \<Longrightarrow> ab_Transactions b = int (length zs) \<and> ab_AmountMinor b = wrap64 (sum_list (map outstanding_of zs))"
  by (auto simp: band_at_def split: if_splits)

section \<open>The report\<close>

definition exposure_report :: "string \<Rightarrow> scope \<Rightarrow> gotime \<Rightarrow> memory \<Rightarrow> Exposure option" where
  "exposure_report tenantID scope now m =
    (case fst (Exposure_rows tenantID scope now m) of
       Inl e \<Rightarrow> None
     | Inr (totals, bands) \<Rightarrow> Some (ComputeExposure tenantID scope totals bands now))"

definition currency_exact :: "gotime \<Rightarrow> transaction list \<Rightarrow> CurrencyExposure \<Rightarrow> bool" where
  "currency_exact now ys c \<longleftrightarrow>
    ce_Transactions c = int (length ys) \<and>
    ce_Customers c = int (card (tx_CustomerRefHash ` set ys)) \<and>
    ce_Exposed c = wrap64 (sum_list (map outstanding_of ys)) \<and>
    ce_OldestDebitAt c = Min (tx_DebitAt ` set ys) \<and>
    ce_Unresolved c = \<lparr>ux_Transactions = int (length (filter suspect ys)),
      ux_AmountMinor = wrap64 (sum_list (map outstanding_of (filter suspect ys)))\<rparr>"

definition bands_exact :: "gotime \<Rightarrow> transaction list \<Rightarrow> CurrencyExposure \<Rightarrow> bool" where
  "bands_exact now ys c \<longleftrightarrow>
    sum_list (map av_Transactions (ce_ByAge c)) = ce_Transactions c \<and>
    wrap64 (sum_list (map av_AmountMinor (ce_ByAge c))) = ce_Exposed c \<and>
    distinct (map av_Band (ce_ByAge c)) \<and> sorted (map (\<lambda>v. band_order (av_Band v)) (ce_ByAge c)) \<and>
    list_all (\<lambda>v. av_Transactions v = int (length (filter (\<lambda>t. band_of now t = av_Band v) ys)) \<and>
      av_AmountMinor v = wrap64 (sum_list (map outstanding_of (filter (\<lambda>t. band_of now t = av_Band v) ys)))) (ce_ByAge c)"

abbreviation views :: "string \<Rightarrow> bands \<Rightarrow> AgeBandView list" where
  "views c agg \<equiv> map view_of_band (filter (\<lambda>b. ab_Currency b = c) (map snd agg))"

lemma sum_views:
  assumes "\<forall>(k, b) \<in> set agg. ab_Currency b = fst k"
  shows "sum_list (map av_Transactions (views c agg)) = band_sum c ab_Transactions agg"
    "sum_list (map av_AmountMinor (views c agg)) = band_sum c ab_AmountMinor agg"
  using assms by (induction agg) (auto simp: view_of_band_def)

lemma distinct_views:
  assumes "distinct (map fst agg)" "\<forall>(k, b) \<in> set agg. ab_Currency b = fst k \<and> ab_Band b = snd k"
  shows "distinct (map av_Band (views c agg))"
  using assms
proof (induction agg)
  case (Cons p agg)
  have "ab_Band (snd p) \<notin> ab_Band ` {b \<in> snd ` set agg. ab_Currency b = ab_Currency (snd p)}"
  proof
    assume "ab_Band (snd p) \<in> ab_Band ` {b \<in> snd ` set agg. ab_Currency b = ab_Currency (snd p)}"
    then obtain q where q: "q \<in> set agg" "ab_Band (snd q) = ab_Band (snd p)" "ab_Currency (snd q) = ab_Currency (snd p)"
      by auto
    with Cons.prems(2) have "fst q = fst p"
      by (auto simp: split_beta prod_eq_iff)
    then have "fst p \<in> fst ` set agg"
      using q(1) by (metis image_eqI)
    with Cons.prems(1) show False by simp
  qed
  with Cons show ?case by (auto simp: view_of_band_def)
qed simp

lemma sum_list_sort_key [simp]:
  fixes f :: "'a \<Rightarrow> int"
  shows "sum_list (map f (sort_key k xs)) = sum_list (map f xs)"
  by (metis mset_map mset_sort sum_mset_sum_list)

lemma distinct_map_sort_key [simp]: "distinct (map f (sort_key k xs)) = distinct (map f xs)"
  by (simp add: distinct_map inj_on_def)

lemma bands_exact_expose:
  assumes "bands_ok xs agg" "\<And>b. map_of agg (c, b) = band_at c b (in_band now c b xs)"
    "t = (total_of c (of_currency c xs))\<lparr>xt_Customers := n\<rparr>"
  shows "bands_exact now (of_currency c xs) (expose_currency (byCurrency (flattenBands agg) []) now t)"
proof -
  have keys: "distinct (map fst agg)" "\<forall>(k, b) \<in> set agg. ab_Currency b = fst k \<and> ab_Band b = snd k"
    using assms(1) by (auto simp: bands_ok_def)
  then have labels: "\<forall>(k, b) \<in> set agg. ab_Currency b = fst k"
    by auto
  have views: "inner (byCurrency (flattenBands agg) []) c = views c agg"
    by (simp add: byCurrency_inner flattenBands_def)
  have one: "av_Transactions v = int (length (filter (\<lambda>t. band_of now t = av_Band v) (of_currency c xs))) \<and>
      av_AmountMinor v = wrap64 (sum_list (map outstanding_of (filter (\<lambda>t. band_of now t = av_Band v) (of_currency c xs))))"
    if "v \<in> set (views c agg)" for v
  proof -
    from that obtain k b where b: "(k, b) \<in> set agg" "ab_Currency b = c" "v = view_of_band b"
      by auto
    with keys have "map_of agg (c, ab_Band b) = Some b"
      by (intro map_of_is_SomeI) auto
    then have "band_at c (ab_Band b) (in_band now c (ab_Band b) xs) = Some b"
      by (simp add: assms(2))
    note band_at_SomeD [OF this]
    then show ?thesis
      by (simp add: b view_of_band_def conj_commute)
  qed
  have "sum_list (map av_Transactions (views c agg)) = int (length (of_currency c xs))"
    "wrap64 (sum_list (map av_AmountMinor (views c agg))) = wrap64 (sum_list (map outstanding_of (of_currency c xs)))"
    unfolding sum_views [OF labels] using assms(1) by (simp_all add: bands_ok_def)
  moreover have "distinct (map av_Band (views c agg))"
    by (rule distinct_views [OF keys])
  ultimately show ?thesis
    using one by (simp add: bands_exact_def expose_currency_def assms(3) total_of_def views list_all_iff)
qed


end
