(* ===== verification/Report_Answers.thy ===== *)
theory Report_Answers
  imports Report_Totals Store_Steps
begin

text \<open>
  What the store's answers make the rail and compliance reports say: every transaction of the
  period counted once on its rail, adjacent periods adding up, and what happens to a detected
  transaction that turned out to be settled.
\<close>

section \<open>Rails\<close>

abbreviation on_rail :: "gotime \<Rightarrow> gotime \<Rightarrow> string \<Rightarrow> transaction list \<Rightarrow> transaction list" where
  "on_rail from to r \<equiv> filter (\<lambda>t. inPeriod (tx_DebitAt t) from to \<and> rail_of t = r)"

lemma rail_loop_lookup:
  "map_of (rail_loop from to ts byRail) r =
    (if map_of byRail r = None \<and> on_rail from to r ts = [] then None
     else Some (fold add_rail (on_rail from to r ts) (case map_of byRail r of None \<Rightarrow> new_rail r | Some a \<Rightarrow> a)))"
  by (induction "from" to ts byRail rule: rail_loop.induct) (auto simp: update_conv split: option.splits)

lemma rail_loop_distinct: "distinct (map fst byRail) \<Longrightarrow> distinct (map fst (rail_loop from to ts byRail))"
  by (induction "from" to ts byRail rule: rail_loop.induct) (simp_all add: distinct_update)

definition with_status :: "status set \<Rightarrow> transaction list \<Rightarrow> int" where
  "with_status S ts = int (length (filter (\<lambda>t. tx_Status t \<in> S) ts))"

abbreviation failed_statuses :: "status set" where
  "failed_statuses \<equiv> {StatusOrphaned, StatusReversalPending, StatusReversalCompleted, StatusReversalFailed}"

definition latency_of :: "transaction \<Rightarrow> rat list" where
  "latency_of t =
    (case tx_CreditAt t of
       None \<Rightarrow> []
     | Some c \<Rightarrow> if tx_Status t = StatusCompleted then [seconds (time_sub c (tx_DebitAt t))] else [])"

abbreviation latencies_of :: "transaction list \<Rightarrow> rat list" where
  "latencies_of ts \<equiv> concat (map latency_of ts)"

lemma add_rail_counts:
  "ps_Provider (fst (add_rail t a)) = ps_Provider (fst a)"
  "ps_Total (fst (add_rail t a)) = ps_Total (fst a) + 1"
  "ps_Settled (fst (add_rail t a)) = ps_Settled (fst a) + of_bool (tx_Status t = StatusCompleted)"
  "ps_Failed (fst (add_rail t a)) = ps_Failed (fst a) + of_bool (tx_Status t \<in> failed_statuses)"
  "ps_Suspect (fst (add_rail t a)) = ps_Suspect (fst a) + of_bool (tx_Status t = StatusSuspect)"
  "ps_StillOpen (fst (add_rail t a)) = ps_StillOpen (fst a) + of_bool (tx_Status t \<in> {StatusPendingDebit, StatusPendingUnknown})"
  "snd (add_rail t a) = snd a @ latency_of t"
  by (cases "tx_Status t"; simp add: add_rail_def Let_def latency_of_def split: option.split)+

lemma fold_add_rail:
  "ps_Provider (fst (fold add_rail ts a)) = ps_Provider (fst a)"
  "ps_Total (fst (fold add_rail ts a)) = ps_Total (fst a) + int (length ts)"
  "ps_Settled (fst (fold add_rail ts a)) = ps_Settled (fst a) + with_status {StatusCompleted} ts"
  "ps_Failed (fst (fold add_rail ts a)) = ps_Failed (fst a) + with_status failed_statuses ts"
  "ps_Suspect (fst (fold add_rail ts a)) = ps_Suspect (fst a) + with_status {StatusSuspect} ts"
  "ps_StillOpen (fst (fold add_rail ts a)) = ps_StillOpen (fst a) + with_status {StatusPendingDebit, StatusPendingUnknown} ts"
  "snd (fold add_rail ts a) = snd a @ latencies_of ts"
  by (induction ts arbitrary: a) (simp_all add: add_rail_counts with_status_def)

lemma status_partition:
  "with_status {StatusCompleted} ts + with_status failed_statuses ts + with_status {StatusSuspect} ts +
     with_status {StatusPendingDebit, StatusPendingUnknown} ts = int (length ts)"
proof (induction ts)
  case (Cons t ts)
  then show ?case by (cases "tx_Status t") (simp_all add: with_status_def)
qed (simp add: with_status_def)

definition rail_exact :: "transaction list \<Rightarrow> ProviderStat \<Rightarrow> bool" where
  "rail_exact ys s \<longleftrightarrow>
    ps_Total s = int (length ys) \<and>
    ps_Settled s = with_status {StatusCompleted} ys \<and> ps_Failed s = with_status failed_statuses ys \<and>
    ps_Suspect s = with_status {StatusSuspect} ys \<and>
    ps_StillOpen s = with_status {StatusPendingDebit, StatusPendingUnknown} ys \<and>
    ps_Total s = ps_Settled s + ps_Failed s + ps_Suspect s + ps_StillOpen s \<and>
    (ps_P50 s, ps_P95 s, ps_Max s) = percentiles (latencies_of ys)"

definition finish_rail :: "string \<times> ProviderStat \<times> rat list \<Rightarrow> ProviderStat" where
  "finish_rail = (\<lambda>(rail, stat, latencies).
     case percentiles latencies of (p50, p95, mx) \<Rightarrow> stat\<lparr>ps_P50 := p50, ps_P95 := p95, ps_Max := mx\<rparr>)"

lemma finish_rail_exact:
  "rail_exact ys (finish_rail (r, fold add_rail ys (new_rail r)))"
  using status_partition [of ys]
  by (simp add: finish_rail_def rail_exact_def split_beta fold_add_rail new_rail_def)

text \<open>
  The store's rail statistics, over any store: one entry per rail with traffic in the period,
  in order of name, and each transaction of the period counted on its rail exactly once as
  settled, failed, suspect or still open, with the latencies of the settled ones.
\<close>

theorem rails_account:
  "\<exists>stats. ProviderStats tenantID from to m = (Inr stats, m) \<and>
    (let rows = filter (\<lambda>t. inPeriod (tx_DebitAt t) from to) (tenant_rows m tenantID)
     in sorted (map ps_Provider stats) \<and> distinct (map ps_Provider stats) \<and>
        set (map ps_Provider stats) = rail_of ` set rows \<and>
        list_all (\<lambda>s. rail_exact (filter (\<lambda>t. rail_of t = ps_Provider s) rows) s) stats)"
proof -
  define rows where "rows = filter (\<lambda>t. inPeriod (tx_DebitAt t) from to) (tenant_rows m tenantID)"
  define accs where "accs = rail_loop from to (tenant_rows m tenantID) []"
  define on where "on r = filter (\<lambda>t. rail_of t = r) rows" for r
  have lookup: "map_of accs r = (if on r = [] then None else Some (fold add_rail (on r) (new_rail r)))" for r
    by (simp add: accs_def rail_loop_lookup on_def rows_def conj_commute)
  have keys: "distinct (map fst accs)"
    by (simp add: accs_def rail_loop_distinct)
  have entry: "a = fold add_rail (on r) (new_rail r) \<and> on r \<noteq> []" if "(r, a) \<in> set accs" for r a
    using map_of_is_SomeI [OF keys that] by (auto simp: lookup split: if_splits)
  have names: "map ps_Provider (map finish_rail accs) = map fst accs"
    unfolding map_map by (rule map_cong)
      (auto dest!: entry simp: finish_rail_def split_beta fold_add_rail new_rail_def)
  have heads: "fst ` set accs = rail_of ` set rows"
  proof -
    have "r \<in> fst ` set accs \<longleftrightarrow> on r \<noteq> []" for r
      by (metis lookup map_of_eq_None_iff option.distinct(1))
    moreover have "on r \<noteq> [] \<longleftrightarrow> r \<in> rail_of ` set rows" for r
      by (auto simp: on_def filter_empty_conv)
    ultimately show ?thesis by (simp add: set_eq_iff)
  qed
  have exact: "rail_exact (on (ps_Provider s)) s" if "s \<in> set (map finish_rail accs)" for s
  proof -
    from that obtain r a where ra: "(r, a) \<in> set accs" and s: "s = finish_rail (r, a)" by auto
    from entry [OF ra] have a: "a = fold add_rail (on r) (new_rail r)" ..
    have "ps_Provider s = r"
      by (simp add: s a finish_rail_def split_beta fold_add_rail new_rail_def)
    then show ?thesis
      using finish_rail_exact [of "on r" r] by (simp add: s a)
  qed
  have "ProviderStats tenantID from to m = (Inr (sort_key ps_Provider (map finish_rail accs)), m)"
    by (simp add: ProviderStats_def accs_def finish_rail_def Let_def)
  moreover have "distinct (map ps_Provider (sort_key ps_Provider (map finish_rail accs)))"
    unfolding distinct_map_sort_key names by (rule keys)
  moreover have "set (map ps_Provider (sort_key ps_Provider (map finish_rail accs))) = rail_of ` set rows"
    unfolding set_map set_sort unfolding set_map [symmetric] names by (simp add: heads)
  moreover have "list_all (\<lambda>s. rail_exact (on (ps_Provider s)) s) (sort_key ps_Provider (map finish_rail accs))"
    using exact by (simp add: list_all_iff)
  ultimately show ?thesis
    by (intro exI [of _ "sort_key ps_Provider (map finish_rail accs)"])
      (simp add: Let_def on_def rows_def [symmetric])
qed

section \<open>The 95th percentile\<close>

text \<open>\<^verbatim>\<open>percentile_disc\<close> is the first value at or below which the share of values reaches \<open>p\<close>.\<close>

definition percentile_disc :: "rat \<Rightarrow> rat list \<Rightarrow> rat" where
  "percentile_disc p values =
    hd (filter (\<lambda>v. p * of_nat (length values) \<le> of_nat (length (filter (\<lambda>w. w \<le> v) values))) (sort values))"

text \<open>Of eleven latencies one, more than one in twenty, exceeds the memory store's 95th percentile.\<close>

lemma percentiles_not_disc:
  "let values = [1, 2, 3, 4, 5, 6, 7, 8, 9, 10, 11]
   in fst (snd (percentiles values)) = 10 \<and> percentile_disc (95 / 100) values = 11"
proof -
  have "\<lfloor>219 / 20 :: rat\<rfloor> = 10"
    by (rule floor_unique) simp_all
  then show ?thesis
    by (simp add: percentiles_def percentile_disc_def to_int_def)
qed

section \<open>Compliance\<close>

text \<open>The breach list of the report on what the store returns.\<close>

definition compliance_report :: "string \<Rightarrow> gotime \<Rightarrow> gotime \<Rightarrow> duration \<Rightarrow> gotime \<Rightarrow> memory \<Rightarrow> Report option" where
  "compliance_report tenantID from to deadline now m =
    (case (fst (CountByStatus tenantID from to m), fst (ListReversalCandidates tenantID from to 10001 m)) of
       (Inr counts, Inr candidates) \<Rightarrow> Some (Compute
         \<lparr>in_TenantID = tenantID, in_From = from, in_To = to, in_CountsByStatus = counts,
          in_Reversals = take 10000 candidates, in_Incomplete = length candidates > 10000\<rparr> deadline now)
     | _ \<Rightarrow> None)"

abbreviation candidate :: "gotime \<Rightarrow> gotime \<Rightarrow> transaction \<Rightarrow> bool" where
  "candidate from to t \<equiv> inPeriod (tx_DebitAt t) from to \<and> tx_DetectedAt t \<noteq> None"

lemma candidates:
  "fst (ListReversalCandidates tenantID from to 10001 m) =
    Inr (take 10001 (sort_key tx_DebitAt (filter (candidate from to) (tenant_rows m tenantID))))"
  by (simp add: ListReversalCandidates_def)

lemma length_update_present: "map_of m k = Some v \<Longrightarrow> length (AList.update k w m) = length m"
  by (induction m) (auto split: if_splits)

lemma small_candidates:
  assumes "length (tenant_rows m tenantID) \<le> 10000"
  shows "length (sort_key tx_DebitAt (filter (candidate from to) (tenant_rows m tenantID))) \<le> 10000"
  unfolding length_sort by (rule order_trans [OF length_filter_le assms])

lemma compliance_report_small:
  assumes "length (tenant_rows m tenantID) \<le> 10000"
  shows "compliance_report tenantID from to deadline now m = Some (Compute
    \<lparr>in_TenantID = tenantID, in_From = from, in_To = to,
     in_CountsByStatus = count_rows from to (tenant_rows m tenantID) [],
     in_Reversals = sort_key tx_DebitAt (filter (candidate from to) (tenant_rows m tenantID)),
     in_Incomplete = False\<rparr> deadline now)"
proof -
  define c where "c = sort_key tx_DebitAt (filter (candidate from to) (tenant_rows m tenantID))"
  have "length c \<le> 10000"
    unfolding c_def by (rule small_candidates [OF assms])
  then show ?thesis
    unfolding compliance_report_def candidates CountByStatus_def c_def [symmetric] by simp
qed

text \<open>
  A detected transaction that the rail or a late credit then settles is a breach in every report
  on its period made after the deadline.
\<close>

lemma settled_counts_as_breach:
  assumes "stored m a b = Some s" "tx_Status s \<in> {StatusOrphaned, StatusSuspect}"
    and "tx_DetectedAt s \<noteq> None" "tx_ReversalCompletedAt s = None"
    and "inPeriod (tx_DebitAt s) from to" "0 < deadline" "deadline < time_sub now (tx_DebitAt s)"
    and "length (tenant_rows m a) \<le> 1000"
    and "m' \<in> {snd (MarkSettled a b settledAt clock m), snd (ApplyCredit a b StatusCompleted settledAt clock m)}"
  shows "\<exists>r x. compliance_report a from to deadline now m' = Some r \<and> x \<in> set (rp_Breaches r) \<and>
    bh_TransactionID x = tx_TransactionID s \<and> bh_Status x = ''completed'' \<and>
    bh_Reason x = ''deadline passed with no reversal confirmation'' \<and> cm_Breached (rp_Compliance r) > 0"
proof -
  from assms(2) have can: "CanTransition (tx_Status s) StatusCompleted"
    by auto
  obtain t where t: "tx_Status t = StatusCompleted" "tx_DetectedAt t = tx_DetectedAt s"
      "tx_ReversalCompletedAt t = None" "tx_DebitAt t = tx_DebitAt s" "tx_TransactionID t = tx_TransactionID s"
    and m': "m_byTenant m' = put2 (m_byTenant m) a b t"
    using assms(4,9) by (auto simp: MarkSettled_def store_simps assms(1) can marked_def credited_def Let_def
      intro: that [of "marked StatusCompleted settledAt clock s"] that [of "credited StatusCompleted settledAt clock s"])
  let ?D = "deadline_of deadline" and ?c = "sort_key tx_DebitAt (filter (candidate from to) (tenant_rows m' a))"
  have D: "?D = deadline"
    using assms(6) by (simp add: deadline_of_def)
  have "length (tenant_rows m' a) = length (tenant_rows m a)"
    using assms(1) by (simp add: m' put2_def get2_def length_update_present)
  with assms(8) have small: "length (tenant_rows m' a) \<le> 1000" by simp
  define r where "r = Compute \<lparr>in_TenantID = a, in_From = from, in_To = to,
      in_CountsByStatus = count_rows from to (tenant_rows m' a) [], in_Reversals = ?c, in_Incomplete = False\<rparr> deadline now"
  have r: "compliance_report a from to deadline now m' = Some r"
    unfolding r_def using small by (intro compliance_report_small) simp
  have "map_of (inner (m_byTenant m') a) b = Some t"
    by (simp add: m' flip: get2_def)
  then have "t \<in> set (tenant_rows m' a)"
    by (force dest: map_of_SomeD)
  with assms(3,5) t have "t \<in> set ?c" by simp
  moreover have missed: "missed ?D now t"
    using t assms(7) by (simp add: missed_def D)
  ultimately have in_late: "t \<in> set (filter (missed ?D now) ?c)" by simp
  have "length (filter (missed ?D now) ?c) \<le> length ?c"
    by (rule length_filter_le)
  also have "\<dots> \<le> length (tenant_rows m' a)"
    unfolding length_sort by (rule length_filter_le)
  finally have "set (rp_Breaches r) = breach_of now ` set (filter (missed ?D now) ?c)"
    using small by (simp add: r_def Compute_Breaches MaxBreaches_def)
  then have "breach_of now t \<in> set (rp_Breaches r)"
    using in_late by simp
  moreover have "cm_Breached (rp_Compliance r) > 0"
    using length_pos_if_in_set [OF in_late] by (simp add: r_def Compute_Compliance Let_def)
  ultimately show ?thesis
    using r t by (intro exI [of _ r] exI [of _ "breach_of now t"]) (simp add: breach_of_def breach_reason_def)
qed

end
