(* ===== verification/Ingest_Report_Answers.thy ===== *)
theory Ingest_Report_Answers
  imports Ingest_Safety Report_Answers
begin

text \<open>
  What the report endpoints answer on the in-memory store: a settled transaction reported as a
  breach, deadlines too long for the clock, and the rule a rail's window is taken from.
\<close>

section \<open>The compliance endpoint\<close>

text \<open>The report of the last thirty days under the default deadline, as JSON.\<close>

definition default_query :: report_query where
  "default_query = \<lparr>pq_from = No_Day, pq_to = No_Day, pq_deadline_seconds = '''', pq_format = '''', pq_scope = ''''\<rparr>"

lemma compliance_endpoint:
  assumes "rq_principal rq = Some p"
    and "compliance_report (p_TenantID p) (now - 30 * 24 * hour) now ReportReversalDeadline now m = Some doc"
  shows "handleComplianceReport (memory_server digest submit rules None now retry show_error) rq default_query (m, q) =
    (writeJSON 200 (Report_Body doc), (m, q))"
proof -
  let ?a = "p_TenantID p" and ?from = "now - 2592000000000000"
  obtain c where c: "ListReversalCandidates ?a ?from now 10001 m = (Inr c, m)"
    by (simp add: ListReversalCandidates_def)
  obtain n where n: "CountByStatus ?a ?from now m = (Inr n, m)"
    by (simp add: CountByStatus_def)
  have "(if 10000 < length c then take 10000 c else c) = take 10000 c" by simp
  then have "Compute \<lparr>in_TenantID = ?a, in_From = ?from, in_To = now, in_CountsByStatus = n,
      in_Reversals = (if 10000 < length c then take 10000 c else c), in_Incomplete = length c > 10000\<rparr>
      ReportReversalDeadline now = doc"
    using assms(2) by (simp add: compliance_report_def c n)
  moreover have "?from < now" by simp
  ultimately show ?thesis
    unfolding handleComplianceReport_def with_reports_def reportPeriod_def requireLicence_def default_query_def http_defs
    using c n by (cases "10000 < length c")
      (simp_all add: assms(1) memory_reports_def report_deadline_def maxReportCandidates_def Let_def)
qed

text \<open>
  A transaction that was detected, and that a late credit or the rail then settled, is
  reported to the regulator as a breach: more than a day after the debit the default compliance
  report lists it with status completed and the reason that no reversal was confirmed, though none
  was due.
\<close>

theorem settled_reported_as_breach:
  assumes "rq_principal rq = Some p" "stored m (p_TenantID p) i = Some s"
    and "tx_Status s \<in> {StatusOrphaned, StatusSuspect}" "tx_DetectedAt s \<noteq> None" "tx_ReversalCompletedAt s = None"
    and "now - 30 * 24 * hour \<le> tx_DebitAt s" "tx_DebitAt s + 24 * hour < now"
    and "length (tenant_rows m (p_TenantID p)) \<le> 1000"
    and "m' \<in> {snd (MarkSettled (p_TenantID p) i settledAt clock m),
               snd (ApplyCredit (p_TenantID p) i StatusCompleted settledAt clock m)}"
  shows "\<exists>doc x.
    handleComplianceReport (memory_server digest submit rules None now retry show_error) rq default_query (m', q) =
      (writeJSON 200 (Report_Body doc), (m', q)) \<and>
    x \<in> set (rp_Breaches doc) \<and> bh_TransactionID x = tx_TransactionID s \<and> bh_Status x = ''completed'' \<and>
    bh_Reason x = ''deadline passed with no reversal confirmation'' \<and> cm_Breached (rp_Compliance doc) > 0"
proof -
  have period: "inPeriod (tx_DebitAt s) (now - 30 * 24 * hour) now"
    using assms(6,7) by (simp add: inPeriod_def)
  have late: "ReportReversalDeadline < time_sub now (tx_DebitAt s)"
    using assms(7) by (simp add: ReportReversalDeadline_def time_sub_def)
  from settled_counts_as_breach [OF assms(2-5) period _ late assms(8,9)]
  obtain doc x where "compliance_report (p_TenantID p) (now - 30 * 24 * hour) now ReportReversalDeadline now m' = Some doc"
    and x: "x \<in> set (rp_Breaches doc)" "bh_TransactionID x = tx_TransactionID s" "bh_Status x = ''completed''"
      "bh_Reason x = ''deadline passed with no reversal confirmation''" "cm_Breached (rp_Compliance doc) > 0"
    by (auto simp: ReportReversalDeadline_def)
  with compliance_endpoint [OF assms(1)] show ?thesis by blast
qed

definition sample_orphan :: transaction where
  "sample_orphan = tx_zero\<lparr>tx_TransactionID := ''x'', tx_Status := StatusOrphaned, tx_DebitAt := 1, tx_DetectedAt := Some 5\<rparr>"

definition orphan_store :: memory where
  "orphan_store = NewMemory\<lparr>m_byTenant := [(''t'', [(''x'', sample_orphan)])]\<rparr>"

lemma settled_reported_as_breach_witness:
  "\<exists>doc x.
    handleComplianceReport (memory_server sample_digest (\<lambda>ev. ret ()) (\<lambda>t. Inr []) None (25 * hour) 0 (\<lambda>e. ''''))
        (sample_request '''') default_query
        (snd (MarkSettled ''t'' ''x'' 6 7 orphan_store), ([], ())) =
      (writeJSON 200 (Report_Body doc), (snd (MarkSettled ''t'' ''x'' 6 7 orphan_store), ([], ()))) \<and>
    x \<in> set (rp_Breaches doc) \<and> bh_TransactionID x = ''x'' \<and> bh_Status x = ''completed'' \<and>
    bh_Reason x = ''deadline passed with no reversal confirmation'' \<and> cm_Breached (rp_Compliance doc) > 0"
  using settled_reported_as_breach [of "sample_request ''''" sample_caller orphan_store "''x''" sample_orphan "25 * hour"
      "snd (MarkSettled ''t'' ''x'' 6 7 orphan_store)" 6 7 sample_digest "\<lambda>ev. ret ()" "\<lambda>t. Inr []" 0 "\<lambda>e. ''''" "([], ())"]
  by (simp add: orphan_store_def sample_orphan_def get2_def inner_def tx_zero_def)

section \<open>Deadlines\<close>

text \<open>
  A deadline given in seconds is honoured exactly while its nanoseconds fit 64 bits; a longer
  one wraps, and the report is made for another deadline.
\<close>

theorem long_deadline_wraps:
  assumes "0 < secs" "secs < 2 ^ 63"
  shows "\<exists>d. report_deadline (show_int secs) = Some d \<and> (deadline_of d = secs * second \<longleftrightarrow> secs \<le> 9223372036)"
proof -
  have parsed: "parse_int64 (show_int secs) = Some secs"
    using assms by (intro parse_show_int) (simp add: int64_def)
  then have d: "report_deadline (show_int secs) = Some (wrap64 (secs * second))"
    using assms by (auto simp: report_deadline_def parse_int64_def)
  have "deadline_of (wrap64 (secs * second)) = secs * second \<longleftrightarrow> secs \<le> 9223372036"
  proof (cases "secs \<le> 9223372036")
    case True
    then have "int64 (secs * second)"
      using assms(1) by (simp add: int64_def)
    then show ?thesis
      using True assms(1) by (simp add: deadline_of_def)
  next
    case False
    then have "2 ^ 63 \<le> secs * second" by simp
    moreover have "deadline_of (wrap64 (secs * second)) < 2 ^ 63"
      using int64_wrap64 [of "secs * second"] by (simp add: deadline_of_def int64_def ReportReversalDeadline_def)
    ultimately show ?thesis using False by simp
  qed
  with d show ?thesis by blast
qed

lemma long_deadline_wraps_witness:
  "\<exists>d. report_deadline (show_int 10000000000) = Some d \<and> deadline_of d \<noteq> 10000000000 * second"
  using long_deadline_wraps [of 10000000000] by simp

section \<open>The window a rail is judged against\<close>

text \<open>
  All this rail's traffic is in USD and was admitted under a two-hour rule; the report judges it
  against the default five minutes and calls the window too tight.
\<close>

lemma window_fit_other_rule:
  assumes "rule = \<lparr>r_ID = 1, r_TransactionType = '''', r_Provider = ''swift'', r_Currency = ''USD'',
      r_MinAmountMinor = None, r_MaxAmountMinor = None, r_WindowSeconds = 7200, r_Action = ActionAutoReverse,
      r_Priority = 1, r_Enabled = True\<rparr>"
    and "tx_Provider t = ''swift''" "tx_Currency t = ''USD''" "ps_Provider stat = ''swift''" "40 = ps_Settled stat" "ps_P95 stat = 3600"
  shows "res_Window (Resolve [rule] t) = 7200 * second" "report_window [rule] ''swift'' = Some 300"
    "wf_TooTight (fit_window 300 stat)"
  using assms by (simp_all add: Resolve_def matches_def report_window_def DefaultWindow_def go_div_def fit_window_def
    MinWindowSamples_def tx_zero_def int64_def)

end
