(* ===== verification/Accounts.thy ===== *)
theory Accounts
  imports Auth Go_Text Go_Actions
begin

text \<open>
  People (\<^verbatim>\<open>internal/account\<close>): roles and the scopes they carry, the checks on addresses and
  passwords, password hashes, one-time codes and recovery codes. Argon2, HMAC, SHA-256, the
  encodings and random bytes are outside. Changing case is modelled on ASCII letters.
\<close>

section \<open>Roles\<close>

type_synonym Role = string

definition RoleViewer :: Role where "RoleViewer = ''viewer''"
definition RoleOperator :: Role where "RoleOperator = ''operator''"
definition RoleAdmin :: Role where "RoleAdmin = ''admin''"

definition role_scopes :: "(Role \<times> string list) list" where
  "role_scopes =
    [(RoleViewer, [ScopeReportsRead]),
     (RoleOperator, [ScopeReportsRead, ScopeEventsWrite]),
     (RoleAdmin, [ScopeReportsRead, ScopeEventsWrite, ScopeEndpointsWrite])]"

definition Role_Valid :: "Role \<Rightarrow> bool" where
  "Role_Valid r \<longleftrightarrow> map_of role_scopes r \<noteq> None"

text \<open>An absent key of a map reads as the empty slice.\<close>

definition Role_Scopes :: "Role \<Rightarrow> string list" where
  "Role_Scopes r = (case map_of role_scopes r of None \<Rightarrow> [] | Some ss \<Rightarrow> ss)"

definition Role_Can :: "Role \<Rightarrow> string \<Rightarrow> bool" where
  "Role_Can r scope \<longleftrightarrow> list_ex (\<lambda>s. s = scope) (Role_Scopes r)"

section \<open>People and sessions\<close>

text \<open>\<open>us_TOTPSecret\<close> is the nullable column; \<open>scanUser\<close> reads its absence as the empty string.\<close>

record User =
  us_ID :: string
  us_TenantID :: string
  us_Email :: string
  us_PasswordHash :: string
  us_Role :: Role
  us_TOTPSecret :: "string option"
  us_TOTPEnabled :: bool
  us_FailedLogins :: int
  us_LockedUntil :: "gotime option"
  us_DisabledAt :: "gotime option"
  us_LastLoginAt :: "gotime option"
  us_CreatedAt :: gotime
  us_UpdatedAt :: gotime

definition secret_of :: "User \<Rightarrow> string" where
  "secret_of u = (case us_TOTPSecret u of None \<Rightarrow> '''' | Some s \<Rightarrow> s)"

definition User_Active :: "User \<Rightarrow> gotime \<Rightarrow> bool" where
  "User_Active u now =
    (if us_DisabledAt u \<noteq> None then False
     else case us_LockedUntil u of None \<Rightarrow> True | Some until \<Rightarrow> now > until)"

record Session =
  sn_TokenHash :: string
  sn_UserID :: string
  sn_UserAgent :: string
  sn_IP :: string
  sn_CreatedAt :: gotime
  sn_LastSeenAt :: gotime
  sn_ExpiresAt :: gotime

definition SessionLifetime :: duration where "SessionLifetime = 24 * hour"
definition ResetLifetime :: duration where "ResetLifetime = hour"
definition MaxFailedLogins :: int where "MaxFailedLogins = 5"
definition LockDuration :: duration where "LockDuration = 15 * minute"

definition ErrInvalidCredentials :: goerror where "ErrInvalidCredentials = ErrMessage ''account: invalid credentials''"
definition ErrLocked :: goerror where "ErrLocked = ErrMessage ''account: temporarily locked''"
definition ErrTOTPInvalid :: goerror where "ErrTOTPInvalid = ErrMessage ''account: invalid code''"
definition ErrAccountNotFound :: goerror where "ErrAccountNotFound = ErrMessage ''account: not found''"
definition ErrEmailTaken :: goerror where "ErrEmailTaken = ErrMessage ''account: email already registered''"

lemmas account_errors = ErrInvalidCredentials_def ErrLocked_def ErrTOTPInvalid_def ErrAccountNotFound_def ErrEmailTaken_def

section \<open>Addresses and passwords\<close>

definition NormaliseEmail :: "string \<Rightarrow> string" where
  "NormaliseEmail v = to_lower (trim_space v)"

text \<open>\<^verbatim>\<open>strings.IndexByte\<close>: \<open>-1\<close> when the byte is not there.\<close>

definition index_byte :: "string \<Rightarrow> char \<Rightarrow> int" where
  "index_byte s c = (if c \<in> set s then int (length (takeWhile (\<lambda>d. d \<noteq> c) s)) else -1)"

definition ValidateEmail :: "string \<Rightarrow> goerror option" where
  "ValidateEmail v =
    (let v = NormaliseEmail v; i = index_byte v CHR ''@''
     in if v = '''' then Some (ErrMessage ''account: email is required'')
        else if i \<le> 0 \<or> i = int (length v) - 1 then Some (ErrMessage ''account: email must contain a name and a domain'')
        else if CHR '' '' \<in> set v then Some (ErrMessage ''account: email must not contain spaces'')
        else if length v > 320 then Some (ErrMessage ''account: email is too long'')
        else None)"

text \<open>\<open>len([]rune(s))\<close>: how many characters UTF-8 decoding finds, a stray byte counting as one.\<close>

definition continues :: "nat \<Rightarrow> nat \<Rightarrow> string \<Rightarrow> bool" where
  "continues lo hi s \<longleftrightarrow> (case s of [] \<Rightarrow> False | c # _ \<Rightarrow> lo \<le> byte c \<and> byte c \<le> hi)"

definition rune_size :: "string \<Rightarrow> nat" where
  "rune_size s =
    (let b = byte (hd s); r = tl s; tail = (\<lambda>n. continues 128 191 (drop n r))
     in if 194 \<le> b \<and> b \<le> 223 \<and> tail 0 then 2
        else if 224 \<le> b \<and> b \<le> 239 \<and> continues (if b = 224 then 160 else 128) (if b = 237 then 159 else 191) r \<and> tail 1 then 3
        else if 240 \<le> b \<and> b \<le> 244 \<and> continues (if b = 240 then 144 else 128) (if b = 244 then 143 else 191) r
          \<and> tail 1 \<and> tail 2 then 4
        else 1)"

lemma rune_size_pos: "0 < rune_size s"
  by (simp add: rune_size_def Let_def)

function rune_count :: "string \<Rightarrow> nat" where
  "rune_count s = (if s = [] then 0 else 1 + rune_count (drop (rune_size s) s))"
  by pat_completeness auto
termination by (relation "measure length") (auto simp: rune_size_pos)

declare rune_count.simps [simp del]

definition MinPasswordLength :: nat where "MinPasswordLength = 12"

definition ValidatePassword :: "string \<Rightarrow> goerror option" where
  "ValidatePassword pw =
    (if rune_count pw < MinPasswordLength
     then Some (ErrMessage (''account: password must be at least '' @ show_nat MinPasswordLength @ '' characters''))
     else if length pw > 1024 then Some (ErrMessage ''account: password is too long'')
     else None)"

section \<open>Password hashes\<close>

text \<open>
  \<open>pc_argon pw salt t m p n\<close> is \<^verbatim>\<open>argon2.IDKey\<close>; the encodings are those of \<^verbatim>\<open>encoding/base64\<close>,
  \<^verbatim>\<open>base32\<close> and \<^verbatim>\<open>hex\<close> as the code configures them.
\<close>

record account_crypto =
  pc_argon :: "string \<Rightarrow> string \<Rightarrow> int \<Rightarrow> int \<Rightarrow> int \<Rightarrow> nat \<Rightarrow> string"
  pc_encode64 :: "string \<Rightarrow> string"
  pc_decode64 :: "string \<Rightarrow> string option"
  pc_encode32 :: "string \<Rightarrow> string"
  pc_decode32 :: "string \<Rightarrow> string option"
  pc_url64 :: "string \<Rightarrow> string"
  pc_hex :: "string \<Rightarrow> string"
  pc_sha256 :: "string \<Rightarrow> string"
  pc_hmac_sha1 :: "string \<Rightarrow> string \<Rightarrow> string"

definition argonTime :: int where "argonTime = 1"
definition argonMemory :: int where "argonMemory = 64 * 1024"
definition argonThreads :: int where "argonThreads = 4"
definition argonKeyLen :: nat where "argonKeyLen = 32"

text \<open>\<open>salt\<close> is what \<^verbatim>\<open>crypto/rand\<close> gave.\<close>

definition HashPassword :: "account_crypto \<Rightarrow> goerror + string \<Rightarrow> string \<Rightarrow> goerror + string" where
  "HashPassword cr salt pw =
    (case ValidatePassword pw of
       Some err \<Rightarrow> Inl err
     | None \<Rightarrow>
     case salt of
       Inl err \<Rightarrow> Inl (ErrWrapped ''account: generate salt'' err)
     | Inr salt \<Rightarrow>
         let key = pc_argon cr pw salt argonTime argonMemory argonThreads argonKeyLen
         in Inr (''argon2id$'' @ show_int argonTime @ ''$'' @ show_int argonMemory @ ''$'' @ show_int argonThreads @ ''$''
              @ pc_encode64 cr salt @ ''$'' @ pc_encode64 cr key))"

text \<open>
  \<^verbatim>\<open>fmt.Sscanf\<close> with \<^verbatim>\<open>%d\<close>: blanks are skipped, a sign may lead, and the number is as long as its
  digits; a space of the format wants a blank in the text. What follows the last number is ignored.
\<close>

definition blank :: "char \<Rightarrow> bool" where
  "blank c \<longleftrightarrow> is_space c \<and> c \<noteq> CHR 0x0A"

definition scan_d :: "string \<Rightarrow> (int \<times> string) option" where
  "scan_d s =
    (let s = dropWhile blank s;
         (sign, r) = (case s of [] \<Rightarrow> ([], []) | c # r \<Rightarrow> if c = CHR ''-'' \<or> c = CHR ''+'' then ([c], r) else ([], s))
     in case parse_int64 (sign @ takeWhile is_digit r) of
          None \<Rightarrow> None
        | Some v \<Rightarrow> Some (v, dropWhile is_digit r))"

definition scan_gap :: "string \<Rightarrow> string option" where
  "scan_gap s = (case s of [] \<Rightarrow> None | c # r \<Rightarrow> if blank c then Some (dropWhile blank s) else None)"

definition scan_three :: "string \<Rightarrow> (int \<times> int \<times> int) option" where
  "scan_three s =
    Option.bind (scan_d s) (\<lambda>(t, s). Option.bind (scan_gap s) (\<lambda>s.
    Option.bind (scan_d s) (\<lambda>(m, s). Option.bind (scan_gap s) (\<lambda>s.
    Option.bind (scan_d s) (\<lambda>(p, s). Some (t, m, p))))))"

definition VerifyPassword :: "account_crypto \<Rightarrow> string \<Rightarrow> string \<Rightarrow> bool" where
  "VerifyPassword cr encoded pw =
    (let parts = split_on CHR ''$'' encoded
     in if length parts \<noteq> 6 \<or> parts ! 0 \<noteq> ''argon2id'' then False
        else case scan_three (parts ! 1 @ '' '' @ parts ! 2 @ '' '' @ parts ! 3) of
          None \<Rightarrow> False
        | Some (t, m, p) \<Rightarrow>
            if t < 1 \<or> t > 16 \<or> m < 8 * 1024 \<or> m > 1024 * 1024 \<or> p < 1 \<or> p > 16 then False
            else (case (pc_decode64 cr (parts ! 4), pc_decode64 cr (parts ! 5)) of
              (Some salt, Some want) \<Rightarrow> pc_argon cr pw salt t m p (length want) = want
            | _ \<Rightarrow> False))"

definition HashToken :: "account_crypto \<Rightarrow> string \<Rightarrow> string" where
  "HashToken cr token = pc_hex cr (pc_sha256 cr token)"

definition NewToken :: "account_crypto \<Rightarrow> goerror + string \<Rightarrow> goerror + string \<times> string" where
  "NewToken cr random =
    (case random of
       Inl err \<Rightarrow> Inl (ErrWrapped ''account: generate token'' err)
     | Inr b \<Rightarrow> let token = pc_url64 cr b in Inr (token, HashToken cr token))"

section \<open>One-time codes\<close>

definition TOTPPeriod :: duration where "TOTPPeriod = 30 * second"
definition TOTPSkew :: int where "TOTPSkew = 1"

definition NewTOTPSecret :: "account_crypto \<Rightarrow> goerror + string \<Rightarrow> goerror + string" where
  "NewTOTPSecret cr random =
    (case random of
       Inl err \<Rightarrow> Inl (ErrWrapped ''account: generate totp secret'' err)
     | Inr b \<Rightarrow> Inr (pc_encode32 cr b))"

text \<open>\<^verbatim>\<open>t.Unix()\<close>: whole seconds since 1970, which is this many seconds after Go's zero time.\<close>

definition unix :: "gotime \<Rightarrow> int" where
  "unix t = t div second - 62135596800"

text \<open>Eight and four bytes, most significant first.\<close>

fun be_bytes :: "nat \<Rightarrow> nat \<Rightarrow> string" where
  "be_bytes 0 n = []"
| "be_bytes (Suc k) n = be_bytes k (n div 256) @ [char_of (n mod 256)]"

definition be_value :: "string \<Rightarrow> nat" where
  "be_value s = foldl (\<lambda>v c. v * 256 + byte c) 0 s"

text \<open>\<^verbatim>\<open>%06d\<close>.\<close>

definition six_digits :: "nat \<Rightarrow> string" where
  "six_digits n = (let s = show_nat n in replicate (6 - length s) CHR ''0'' @ s)"

definition TOTPCode :: "account_crypto \<Rightarrow> string \<Rightarrow> gotime \<Rightarrow> goerror + string" where
  "TOTPCode cr secret at_time =
    (case pc_decode32 cr (map (\<lambda>c. if 97 \<le> byte c \<and> byte c \<le> 122 then char_of (byte c - 32) else c) (trim_space secret)) of
       None \<Rightarrow> Inl (ErrMessage ''account: totp secret is not base32'')
     | Some key \<Rightarrow>
         let seconds = unix at_time
         in if seconds < 0 then Inl (ErrMessage ''account: the clock reads before the TOTP epoch'')
            else let counter = nat seconds div nat (go_div TOTPPeriod second);
                     digest = pc_hmac_sha1 cr key (be_bytes 8 counter);
                     offset = byte (last digest) mod 16;
                     value = be_value (take 4 (drop offset digest)) mod 2 ^ 31
                 in Inr (six_digits (value mod 1000000)))"

text \<open>The loop tries the steps from \<open>step\<close> to \<open>TOTPSkew\<close>; a failing step ends it.\<close>

function totp_loop :: "account_crypto \<Rightarrow> string \<Rightarrow> string \<Rightarrow> gotime \<Rightarrow> int \<Rightarrow> bool" where
  "totp_loop cr secret code now step =
    (if step > TOTPSkew then False
     else case TOTPCode cr secret (now + step * TOTPPeriod) of
            Inl err \<Rightarrow> False
          | Inr want \<Rightarrow> if want = code then True else totp_loop cr secret code now (step + 1))"
  by pat_completeness auto
termination by (relation "measure (\<lambda>(_, _, _, _, step). nat (TOTPSkew + 1 - step))") auto

declare totp_loop.simps [simp del]

definition VerifyTOTP :: "account_crypto \<Rightarrow> string \<Rightarrow> string \<Rightarrow> gotime \<Rightarrow> bool" where
  "VerifyTOTP cr secret code now =
    (let code = trim_space code
     in if length code \<noteq> 6 then False else totp_loop cr secret code now (- TOTPSkew))"

text \<open>
  \<^verbatim>\<open>url.PathEscape\<close> and \<^verbatim>\<open>url.QueryEscape\<close> on bytes. \<^verbatim>\<open>url.Values.Encode\<close> lists the keys in order.
\<close>

definition hex_upper :: "nat \<Rightarrow> char" where
  "hex_upper d = (if d < 10 then char_of (48 + d) else char_of (55 + d))"

definition percent :: "char \<Rightarrow> string" where
  "percent c = [CHR 0x25, hex_upper (byte c div 16), hex_upper (byte c mod 16)]"

definition unreserved :: "char \<Rightarrow> bool" where
  "unreserved c \<longleftrightarrow> is_digit c \<or> 65 \<le> byte c \<and> byte c \<le> 90 \<or> 97 \<le> byte c \<and> byte c \<le> 122 \<or> c \<in> set ''-_.~''"

definition path_escape :: "string \<Rightarrow> string" where
  "path_escape s = concat (map (\<lambda>c. if unreserved c \<or> c \<in> set ''$&+=:@'' then [c] else percent c) s)"

definition query_escape :: "string \<Rightarrow> string" where
  "query_escape s = concat (map (\<lambda>c. if unreserved c then [c] else if c = CHR '' '' then ''+'' else percent c) s)"

definition TOTPURI :: "string \<Rightarrow> string \<Rightarrow> string \<Rightarrow> string" where
  "TOTPURI issuer email secret =
    (let label = path_escape (issuer @ '':'' @ email)
     in ''otpauth://totp/'' @ label @ ''?'' @ ''algorithm=SHA1&digits=6&issuer='' @ query_escape issuer @
        ''&period='' @ query_escape (show_int (go_div TOTPPeriod second)) @ ''&secret='' @ query_escape secret)"

section \<open>Recovery codes\<close>

definition RecoveryCodeCount :: nat where "RecoveryCodeCount = 10"

definition recovery_alphabet :: string where
  "recovery_alphabet = ''abcdefghjkmnpqrstuvwxyz23456789''"

text \<open>One code from ten random bytes, a hyphen before the sixth character.\<close>

fun recovery_code :: "nat \<Rightarrow> string \<Rightarrow> string" where
  "recovery_code j [] = []"
| "recovery_code j (b # raw) =
    (if j = 5 then ''-'' else []) @ recovery_alphabet ! (byte b mod length recovery_alphabet) # recovery_code (j + 1) raw"

text \<open>\<open>random\<close> is what the reads of \<^verbatim>\<open>crypto/rand\<close> give, one per code.\<close>

fun recovery_loop :: "(goerror + string) list \<Rightarrow> string list \<Rightarrow> goerror + string list" where
  "recovery_loop [] codes = Inr codes"
| "recovery_loop (raw # random) codes =
    (case raw of
       Inl err \<Rightarrow> Inl (ErrWrapped ''account: generate recovery code'' err)
     | Inr b \<Rightarrow> recovery_loop random (codes @ [recovery_code 0 b]))"

definition NewRecoveryCodes :: "(goerror + string) list \<Rightarrow> goerror + string list" where
  "NewRecoveryCodes random = recovery_loop (take RecoveryCodeCount random) []"

definition normaliseCode :: "string \<Rightarrow> string" where
  "normaliseCode v = to_lower (filter (\<lambda>c. c \<noteq> CHR '' '' \<and> c \<noteq> CHR 0x09) v)"

end
