(* ===== verification/Account_Store.thy ===== *)
theory Account_Store
  imports Accounts "HOL-Library.AList"
begin

text \<open>
  The account tables (\<^verbatim>\<open>internal/store/postgres_account.go\<close>, \<^verbatim>\<open>migrations/0011_users_and_sessions.up.sql\<close>).
  Each function is one method: its SQL statement on the tables it touches. A table is an association
  list from its primary key. \<open>clock\<close> is the database's \<open>now()\<close>. Failures of the connection are not
  modelled.
\<close>

record reset =
  rs_UserID :: string
  rs_ExpiresAt :: gotime
  rs_UsedAt :: "gotime option"

record accounts =
  db_users :: "(string \<times> User) list"
  db_sessions :: "(string \<times> Session) list"
  db_codes :: "((string \<times> string) \<times> gotime option) list"
  db_resets :: "(string \<times> reset) list"

definition no_accounts :: accounts where
  "no_accounts = \<lparr>db_users = [], db_sessions = [], db_codes = [], db_resets = []\<rparr>"

type_synonym 'a account_call = "(accounts, 'a) action"

section \<open>Users\<close>

definition CreateUser :: "gotime \<Rightarrow> User \<Rightarrow> unit account_call" where
  "CreateUser clock u db =
    (if map_of (db_users db) (us_ID u) \<noteq> None \<or>
        list_ex (\<lambda>(i, v). to_lower (us_Email v) = to_lower (NormaliseEmail (us_Email u))) (db_users db)
     then (Inl ErrEmailTaken, db)
     else (Inr (), db\<lparr>db_users := AList.update (us_ID u)
       \<lparr>us_ID = us_ID u, us_TenantID = us_TenantID u, us_Email = NormaliseEmail (us_Email u),
        us_PasswordHash = us_PasswordHash u, us_Role = us_Role u, us_TOTPSecret = None, us_TOTPEnabled = False,
        us_FailedLogins = 0, us_LockedUntil = None, us_DisabledAt = None, us_LastLoginAt = None,
        us_CreatedAt = clock, us_UpdatedAt = clock\<rparr> (db_users db)\<rparr>))"

definition UserByEmail :: "string \<Rightarrow> User account_call" where
  "UserByEmail email db =
    (case filter (\<lambda>(i, u). to_lower (us_Email u) = to_lower (NormaliseEmail email)) (db_users db) of
       [] \<Rightarrow> (Inl ErrAccountNotFound, db)
     | (i, u) # _ \<Rightarrow> (Inr u, db))"

definition UserByID :: "string \<Rightarrow> User account_call" where
  "UserByID i db = (case map_of (db_users db) i of None \<Rightarrow> (Inl ErrAccountNotFound, db) | Some u \<Rightarrow> (Inr u, db))"

definition ListUsers :: "string \<Rightarrow> User list account_call" where
  "ListUsers tenantID db =
    (Inr (sort_key (\<lambda>u. to_lower (us_Email u)) (filter (\<lambda>u. us_TenantID u = tenantID) (map snd (db_users db)))), db)"

definition CountUsers :: "string \<Rightarrow> int account_call" where
  "CountUsers tenantID db = (Inr (int (length (filter (\<lambda>u. us_TenantID u = tenantID) (map snd (db_users db))))), db)"

text \<open>\<open>touchUser\<close>: the update of the row that meets the condition, or not found.\<close>

definition touchUser :: "string \<Rightarrow> (User \<Rightarrow> bool) \<Rightarrow> (User \<Rightarrow> User) \<Rightarrow> unit account_call" where
  "touchUser i cond f db =
    (case map_of (db_users db) i of
       None \<Rightarrow> (Inl ErrAccountNotFound, db)
     | Some u \<Rightarrow>
         if cond u then (Inr (), db\<lparr>db_users := AList.update i (f u) (db_users db)\<rparr>) else (Inl ErrAccountNotFound, db))"

definition UpdateUserRole :: "gotime \<Rightarrow> string \<Rightarrow> string \<Rightarrow> Role \<Rightarrow> unit account_call" where
  "UpdateUserRole clock tenantID i role =
    touchUser i (\<lambda>u. us_TenantID u = tenantID) (\<lambda>u. u\<lparr>us_Role := role, us_UpdatedAt := clock\<rparr>)"

definition DeleteUserSessions :: "string \<Rightarrow> unit account_call" where
  "DeleteUserSessions userID db =
    (Inr (), db\<lparr>db_sessions := filter (\<lambda>(h, s). sn_UserID s \<noteq> userID) (db_sessions db)\<rparr>)"

definition SetUserDisabled :: "gotime \<Rightarrow> gotime \<Rightarrow> string \<Rightarrow> string \<Rightarrow> bool \<Rightarrow> unit account_call" where
  "SetUserDisabled now clock tenantID i disabled =
    seq (touchUser i (\<lambda>u. us_TenantID u = tenantID)
          (\<lambda>u. u\<lparr>us_DisabledAt := (if disabled then Some now else None), us_UpdatedAt := clock\<rparr>))
      (\<lambda>_. if \<not> disabled then ret () else DeleteUserSessions i)"

definition SetPassword :: "gotime \<Rightarrow> string \<Rightarrow> string \<Rightarrow> unit account_call" where
  "SetPassword clock i passwordHash =
    seq (touchUser i (\<lambda>u. True)
          (\<lambda>u. u\<lparr>us_PasswordHash := passwordHash, us_FailedLogins := 0, us_LockedUntil := None, us_UpdatedAt := clock\<rparr>))
      (\<lambda>_. DeleteUserSessions i)"

definition failed_once :: "gotime \<Rightarrow> gotime \<Rightarrow> User \<Rightarrow> User" where
  "failed_once clock at_time u =
    u\<lparr>us_FailedLogins := us_FailedLogins u + 1,
      us_LockedUntil := (if us_FailedLogins u + 1 \<ge> MaxFailedLogins then Some (at_time + LockDuration) else us_LockedUntil u),
      us_UpdatedAt := clock\<rparr>"

definition RecordLoginFailure :: "gotime \<Rightarrow> string \<Rightarrow> gotime \<Rightarrow> gotime option account_call" where
  "RecordLoginFailure clock i at_time db =
    (case map_of (db_users db) i of
       None \<Rightarrow> (Inl ErrAccountNotFound, db)
     | Some u \<Rightarrow> let u' = failed_once clock at_time u
         in (Inr (us_LockedUntil u'), db\<lparr>db_users := AList.update i u' (db_users db)\<rparr>))"

definition RecordLoginSuccess :: "gotime \<Rightarrow> string \<Rightarrow> gotime \<Rightarrow> unit account_call" where
  "RecordLoginSuccess clock i at_time =
    touchUser i (\<lambda>u. True)
      (\<lambda>u. u\<lparr>us_FailedLogins := 0, us_LockedUntil := None, us_LastLoginAt := Some at_time, us_UpdatedAt := clock\<rparr>)"

section \<open>The second factor\<close>

definition BeginTOTP :: "gotime \<Rightarrow> string \<Rightarrow> string \<Rightarrow> unit account_call" where
  "BeginTOTP clock i secret =
    touchUser i (\<lambda>u. True) (\<lambda>u. u\<lparr>us_TOTPSecret := Some secret, us_TOTPEnabled := False, us_UpdatedAt := clock\<rparr>)"

definition EnableTOTP :: "gotime \<Rightarrow> string \<Rightarrow> unit account_call" where
  "EnableTOTP clock i =
    touchUser i (\<lambda>u. us_TOTPSecret u \<noteq> None) (\<lambda>u. u\<lparr>us_TOTPEnabled := True, us_UpdatedAt := clock\<rparr>)"

definition clear_codes :: "string \<Rightarrow> accounts \<Rightarrow> accounts" where
  "clear_codes userID db = db\<lparr>db_codes := filter (\<lambda>((i, h), used). i \<noteq> userID) (db_codes db)\<rparr>"

definition DisableTOTP :: "gotime \<Rightarrow> string \<Rightarrow> unit account_call" where
  "DisableTOTP clock i =
    seq (touchUser i (\<lambda>u. True) (\<lambda>u. u\<lparr>us_TOTPEnabled := False, us_TOTPSecret := None, us_UpdatedAt := clock\<rparr>))
      (\<lambda>_ db. (Inr (), clear_codes i db))"

text \<open>A transaction: a repeated hash breaks the primary key, an unknown user the foreign key, and either
  rolls everything back.\<close>

definition ReplaceRecoveryCodes :: "string \<Rightarrow> string list \<Rightarrow> unit account_call" where
  "ReplaceRecoveryCodes userID hashes db =
    (if \<not> distinct hashes \<or> hashes \<noteq> [] \<and> map_of (db_users db) userID = None then (Inl (ErrMessage ''store recovery code''), db)
     else (Inr (), (clear_codes userID db)\<lparr>db_codes :=
       db_codes (clear_codes userID db) @ map (\<lambda>h. ((userID, h), None)) hashes\<rparr>))"

definition UseRecoveryCode :: "string \<Rightarrow> string \<Rightarrow> gotime \<Rightarrow> unit account_call" where
  "UseRecoveryCode userID h at_time db =
    (case map_of (db_codes db) (userID, h) of
       Some None \<Rightarrow> (Inr (), db\<lparr>db_codes := AList.update (userID, h) (Some at_time) (db_codes db)\<rparr>)
     | _ \<Rightarrow> (Inl ErrAccountNotFound, db))"

definition CountRecoveryCodes :: "string \<Rightarrow> int account_call" where
  "CountRecoveryCodes userID db =
    (Inr (int (length (filter (\<lambda>((i, h), used). i = userID \<and> used = None) (db_codes db)))), db)"

section \<open>Sessions\<close>

definition CreateSession :: "gotime \<Rightarrow> Session \<Rightarrow> unit account_call" where
  "CreateSession clock s db =
    (if map_of (db_sessions db) (sn_TokenHash s) \<noteq> None \<or> map_of (db_users db) (sn_UserID s) = None then (Inl (ErrMessage ''create session''), db)
     else (Inr (), db\<lparr>db_sessions := AList.update (sn_TokenHash s)
       (s\<lparr>sn_CreatedAt := clock, sn_LastSeenAt := clock\<rparr>) (db_sessions db)\<rparr>))"

definition SessionByToken :: "string \<Rightarrow> gotime \<Rightarrow> (Session \<times> User) account_call" where
  "SessionByToken tokenHash now db =
    (case map_of (db_sessions db) tokenHash of
       None \<Rightarrow> (Inl ErrAccountNotFound, db)
     | Some s \<Rightarrow>
     case map_of (db_users db) (sn_UserID s) of
       None \<Rightarrow> (Inl ErrAccountNotFound, db)
     | Some u \<Rightarrow>
         if \<not> sn_ExpiresAt s > now then (Inl ErrAccountNotFound, db)
         else if us_DisabledAt u \<noteq> None then (Inl ErrAccountNotFound, db)
         else (Inr (s, u), db))"

definition TouchSession :: "string \<Rightarrow> gotime \<Rightarrow> unit account_call" where
  "TouchSession tokenHash at_time db =
    (case map_of (db_sessions db) tokenHash of
       None \<Rightarrow> (Inr (), db)
     | Some s \<Rightarrow> (Inr (), db\<lparr>db_sessions := AList.update tokenHash (s\<lparr>sn_LastSeenAt := at_time\<rparr>) (db_sessions db)\<rparr>))"

definition DeleteSession :: "string \<Rightarrow> unit account_call" where
  "DeleteSession tokenHash db = (Inr (), db\<lparr>db_sessions := AList.delete tokenHash (db_sessions db)\<rparr>)"

definition ListSessions :: "string \<Rightarrow> gotime \<Rightarrow> Session list account_call" where
  "ListSessions userID now db =
    (Inr (sort_key (\<lambda>s. - sn_LastSeenAt s)
       (filter (\<lambda>s. sn_UserID s = userID \<and> sn_ExpiresAt s > now) (map snd (db_sessions db)))), db)"

section \<open>Password resets\<close>

definition CreateReset :: "string \<Rightarrow> string \<Rightarrow> gotime \<Rightarrow> unit account_call" where
  "CreateReset userID tokenHash expires db =
    (let db = db\<lparr>db_resets := filter (\<lambda>(h, r). \<not> (rs_UserID r = userID \<and> rs_UsedAt r = None)) (db_resets db)\<rparr>
     in if map_of (db_resets db) tokenHash \<noteq> None \<or> map_of (db_users db) userID = None then (Inl (ErrMessage ''create reset''), db)
        else (Inr (), db\<lparr>db_resets := AList.update tokenHash
          \<lparr>rs_UserID = userID, rs_ExpiresAt = expires, rs_UsedAt = None\<rparr> (db_resets db)\<rparr>))"

definition ConsumeReset :: "string \<Rightarrow> gotime \<Rightarrow> User account_call" where
  "ConsumeReset tokenHash at_time db =
    (case map_of (db_resets db) tokenHash of
       None \<Rightarrow> (Inl ErrAccountNotFound, db)
     | Some r \<Rightarrow>
         if rs_UsedAt r = None \<and> rs_ExpiresAt r > at_time
         then UserByID (rs_UserID r) (db\<lparr>db_resets := AList.update tokenHash (r\<lparr>rs_UsedAt := Some at_time\<rparr>) (db_resets db)\<rparr>)
         else (Inl ErrAccountNotFound, db))"

end
