(* ===== verification/Account_Service.thy ===== *)
theory Account_Service
  imports Account_Store
begin

text \<open>
  The decisions about authenticating a person (\<^verbatim>\<open>internal/account/service.go\<close>) over the account
  tables. \<open>now\<close> is the service's clock, read once per call, \<open>clock\<close> the database's, and the last
  arguments stand for what \<^verbatim>\<open>crypto/rand\<close> gives.
\<close>

record Attempt =
  at_User :: User
  at_NeedsTOTP :: bool

definition Account_Authenticate ::
  "account_crypto \<Rightarrow> gotime \<Rightarrow> gotime \<Rightarrow> string \<Rightarrow> string \<Rightarrow> Attempt account_call" where
  "Account_Authenticate cr now clock email password =
    attempt (UserByEmail email) (\<lambda>r. case r of
      Inl err \<Rightarrow> if errors_is err ErrAccountNotFound then fail ErrInvalidCredentials else fail err
    | Inr u \<Rightarrow>
        if us_DisabledAt u \<noteq> None then fail ErrInvalidCredentials
        else if (case us_LockedUntil u of None \<Rightarrow> False | Some until \<Rightarrow> now < until) then fail ErrLocked
        else if \<not> VerifyPassword cr (us_PasswordHash u) password
        then seq (RecordLoginFailure clock (us_ID u) now) (\<lambda>_. fail ErrInvalidCredentials)
        else if us_TOTPEnabled u then ret \<lparr>at_User = u, at_NeedsTOTP = True\<rparr>
        else seq (RecordLoginSuccess clock (us_ID u) now) (\<lambda>_. ret \<lparr>at_User = u, at_NeedsTOTP = False\<rparr>))"

definition VerifySecondFactor ::
  "account_crypto \<Rightarrow> gotime \<Rightarrow> gotime \<Rightarrow> string \<Rightarrow> string \<Rightarrow> User account_call" where
  "VerifySecondFactor cr now clock userID code =
    seq (UserByID userID) (\<lambda>u.
      if \<not> User_Active u now then fail ErrLocked
      else if \<not> us_TOTPEnabled u then fail (ErrMessage ''account: second factor is not enabled'')
      else if VerifyTOTP cr (secret_of u) code now
      then seq (RecordLoginSuccess clock (us_ID u) now) (\<lambda>_. ret u)
      else attempt (UseRecoveryCode (us_ID u) (HashToken cr (normaliseCode code)) now) (\<lambda>r. case r of
        Inr _ \<Rightarrow> seq (RecordLoginSuccess clock (us_ID u) now) (\<lambda>_. ret u)
      | Inl _ \<Rightarrow> seq (RecordLoginFailure clock (us_ID u) now) (\<lambda>_. fail ErrTOTPInvalid)))"

definition truncate_text :: "string \<Rightarrow> nat \<Rightarrow> string" where
  "truncate_text v n = (if length v \<le> n then v else take n v)"

definition StartSession ::
  "account_crypto \<Rightarrow> gotime \<Rightarrow> gotime \<Rightarrow> User \<Rightarrow> string \<Rightarrow> string \<Rightarrow> goerror + string \<Rightarrow> (string \<times> Session) account_call" where
  "StartSession cr now clock u userAgent ip random =
    (case NewToken cr random of
       Inl err \<Rightarrow> fail err
     | Inr (token, h) \<Rightarrow>
         let sess = \<lparr>sn_TokenHash = h, sn_UserID = us_ID u, sn_UserAgent = truncate_text userAgent 400,
               sn_IP = truncate_text ip 60, sn_CreatedAt = 0, sn_LastSeenAt = 0, sn_ExpiresAt = now + SessionLifetime\<rparr>
         in seq (CreateSession clock sess) (\<lambda>_. ret (token, sess)))"

definition Account_Resolve :: "account_crypto \<Rightarrow> gotime \<Rightarrow> string \<Rightarrow> (Session \<times> User) account_call" where
  "Account_Resolve cr now token =
    (if token = '''' then fail ErrAccountNotFound else SessionByToken (HashToken cr token) now)"

definition EndSession :: "account_crypto \<Rightarrow> string \<Rightarrow> unit account_call" where
  "EndSession cr token = DeleteSession (HashToken cr token)"

definition newID :: "account_crypto \<Rightarrow> string \<Rightarrow> goerror + string \<Rightarrow> goerror + string" where
  "newID cr prefix random =
    (case random of
       Inl err \<Rightarrow> Inl (ErrWrapped ''account: generate id'' err)
     | Inr b \<Rightarrow> Inr (prefix @ ''_'' @ pc_hex cr b))"

definition from_sum :: "goerror + 'a \<Rightarrow> 'a account_call" where
  "from_sum r = (case r of Inl err \<Rightarrow> fail err | Inr x \<Rightarrow> ret x)"

definition check_that :: "goerror option \<Rightarrow> unit account_call" where
  "check_that e = (case e of Some err \<Rightarrow> fail err | None \<Rightarrow> ret ())"

definition Account_Create ::
  "account_crypto \<Rightarrow> gotime \<Rightarrow> string \<Rightarrow> string \<Rightarrow> string \<Rightarrow> Role \<Rightarrow> goerror + string \<Rightarrow> goerror + string \<Rightarrow> User account_call" where
  "Account_Create cr clock tenantID email password role salt random =
    seq (check_that (ValidateEmail email)) (\<lambda>_.
    seq (check_that (ValidatePassword password)) (\<lambda>_.
    seq (CountUsers tenantID) (\<lambda>n.
      let role = (if n = 0 then RoleAdmin else role)
      in if \<not> Role_Valid role then fail (ErrMessage (''account: unknown role '' @ role))
         else seq (from_sum (HashPassword cr salt password)) (\<lambda>h.
              seq (from_sum (newID cr ''usr'' random)) (\<lambda>i.
                let u = \<lparr>us_ID = i, us_TenantID = tenantID, us_Email = NormaliseEmail email, us_PasswordHash = h,
                      us_Role = role, us_TOTPSecret = None, us_TOTPEnabled = False, us_FailedLogins = 0,
                      us_LockedUntil = None, us_DisabledAt = None, us_LastLoginAt = None, us_CreatedAt = 0, us_UpdatedAt = 0\<rparr>
                in seq (CreateUser clock u) (\<lambda>_. ret u))))))"

definition BeginTOTPEnrolment ::
  "account_crypto \<Rightarrow> gotime \<Rightarrow> User \<Rightarrow> string \<Rightarrow> goerror + string \<Rightarrow> (string \<times> string) account_call" where
  "BeginTOTPEnrolment cr clock u issuer random =
    seq (from_sum (NewTOTPSecret cr random)) (\<lambda>secret.
    seq (BeginTOTP clock (us_ID u) secret) (\<lambda>_. ret (secret, TOTPURI issuer (us_Email u) secret)))"

definition ConfirmTOTPEnrolment ::
  "account_crypto \<Rightarrow> gotime \<Rightarrow> gotime \<Rightarrow> string \<Rightarrow> string \<Rightarrow> (goerror + string) list \<Rightarrow> string list account_call" where
  "ConfirmTOTPEnrolment cr now clock userID code random =
    seq (UserByID userID) (\<lambda>u.
      if secret_of u = '''' then fail (ErrMessage ''account: start enrolment first'')
      else if \<not> VerifyTOTP cr (secret_of u) code now then fail ErrTOTPInvalid
      else seq (from_sum (NewRecoveryCodes random)) (\<lambda>codes.
           seq (ReplaceRecoveryCodes (us_ID u) (map (HashToken cr) codes)) (\<lambda>_.
           seq (EnableTOTP clock (us_ID u)) (\<lambda>_. ret codes))))"

definition ChangePassword ::
  "account_crypto \<Rightarrow> gotime \<Rightarrow> string \<Rightarrow> string \<Rightarrow> string \<Rightarrow> goerror + string \<Rightarrow> unit account_call" where
  "ChangePassword cr clock userID current next_password salt =
    seq (UserByID userID) (\<lambda>u.
      if \<not> VerifyPassword cr (us_PasswordHash u) current then fail ErrInvalidCredentials
      else seq (check_that (ValidatePassword next_password)) (\<lambda>_.
           seq (from_sum (HashPassword cr salt next_password)) (\<lambda>h. SetPassword clock (us_ID u) h)))"

definition IssueReset ::
  "account_crypto \<Rightarrow> gotime \<Rightarrow> string \<Rightarrow> goerror + string \<Rightarrow> (string \<times> gotime) account_call" where
  "IssueReset cr now userID random =
    seq (from_sum (NewToken cr random)) (\<lambda>(token, h).
      let expires = now + ResetLifetime
      in seq (CreateReset userID h expires) (\<lambda>_. ret (token, expires)))"

definition CompleteReset ::
  "account_crypto \<Rightarrow> gotime \<Rightarrow> gotime \<Rightarrow> string \<Rightarrow> string \<Rightarrow> goerror + string \<Rightarrow> User account_call" where
  "CompleteReset cr now clock token password salt =
    seq (check_that (ValidatePassword password)) (\<lambda>_.
    seq (ConsumeReset (HashToken cr token) now) (\<lambda>u.
    seq (from_sum (HashPassword cr salt password)) (\<lambda>h.
    seq (SetPassword clock (us_ID u) h) (\<lambda>_. ret u))))"

end
