(* ===== verification/Account_Laws.thy ===== *)
theory Account_Laws
  imports Account_Service
begin

text \<open>
  Histories of account calls. The operations a person, an administrator or an attacker can reach are
  one datatype; what they keep of the tables is proved once per operation, and what holds over any
  history follows: lockout, revocation, single use.
\<close>

section \<open>Operations\<close>

datatype account_op =
    Sign_In gotime gotime string string
  | Second_Factor gotime gotime string string
  | Open_Session gotime gotime User string string "goerror + string"
  | Look_Up gotime string
  | Touch string gotime
  | Sign_Out string
  | Revoke_Sessions string
  | New_User gotime string string string Role "goerror + string" "goerror + string"
  | Set_Role gotime string string Role
  | Set_Disabled gotime gotime string string bool
  | Change_Password gotime string string string "goerror + string"
  | Begin_TOTP gotime User "goerror + string"
  | Confirm_TOTP gotime gotime string string "(goerror + string) list"
  | Turn_Off_TOTP gotime string
  | Issue_Reset gotime string "goerror + string"
  | Complete_Reset gotime gotime string string "goerror + string"

fun exec_account :: "account_crypto \<Rightarrow> account_op \<Rightarrow> unit account_call" where
  "exec_account cr (Sign_In now clock email pw) = ignoring (Account_Authenticate cr now clock email pw)"
| "exec_account cr (Second_Factor now clock i code) = ignoring (VerifySecondFactor cr now clock i code)"
| "exec_account cr (Open_Session now clock u agent ip rnd) = ignoring (StartSession cr now clock u agent ip rnd)"
| "exec_account cr (Look_Up now token) = ignoring (Account_Resolve cr now token)"
| "exec_account cr (Touch h now) = TouchSession h now"
| "exec_account cr (Sign_Out token) = EndSession cr token"
| "exec_account cr (Revoke_Sessions i) = DeleteUserSessions i"
| "exec_account cr (New_User clock a email pw role salt rnd) = ignoring (Account_Create cr clock a email pw role salt rnd)"
| "exec_account cr (Set_Role clock a i role) = UpdateUserRole clock a i role"
| "exec_account cr (Set_Disabled now clock a i off) = SetUserDisabled now clock a i off"
| "exec_account cr (Change_Password clock i cur new salt) = ChangePassword cr clock i cur new salt"
| "exec_account cr (Begin_TOTP clock u rnd) = ignoring (BeginTOTPEnrolment cr clock u ''ReconSync'' rnd)"
| "exec_account cr (Confirm_TOTP now clock i code rnd) = ignoring (ConfirmTOTPEnrolment cr now clock i code rnd)"
| "exec_account cr (Turn_Off_TOTP clock i) = DisableTOTP clock i"
| "exec_account cr (Issue_Reset now i rnd) = ignoring (IssueReset cr now i rnd)"
| "exec_account cr (Complete_Reset now clock token pw salt) = ignoring (CompleteReset cr now clock token pw salt)"

definition account_step :: "account_crypto \<Rightarrow> account_op \<Rightarrow> accounts \<Rightarrow> accounts" where
  "account_step cr op db = snd (exec_account cr op db)"

definition account_run :: "account_crypto \<Rightarrow> account_op list \<Rightarrow> accounts \<Rightarrow> accounts" where
  "account_run cr ops db = fold (account_step cr) ops db"

lemma account_run_simps [simp]:
  "account_run cr [] db = db" "account_run cr (op # ops) db = account_run cr ops (account_step cr op db)"
  by (simp_all add: account_run_def)

lemma snd_ignoring [simp]: "snd (ignoring f s) = snd (f s)"
  by (simp add: ignoring_def split: prod.split sum.split)

lemmas service_defs = Account_Authenticate_def VerifySecondFactor_def StartSession_def Account_Resolve_def EndSession_def
  Account_Create_def BeginTOTPEnrolment_def ConfirmTOTPEnrolment_def ChangePassword_def IssueReset_def CompleteReset_def

section \<open>Relations that every table operation stays within\<close>

lemma keeps_if: "(c \<Longrightarrow> keeps R f) \<Longrightarrow> (\<not> c \<Longrightarrow> keeps R g) \<Longrightarrow> keeps R (if c then f else g)"
  by simp

lemma keeps_case_sum:
  "(\<And>e. r = Inl e \<Longrightarrow> keeps R (f e)) \<Longrightarrow> (\<And>x. r = Inr x \<Longrightarrow> keeps R (g x)) \<Longrightarrow>
    keeps R (case r of Inl e \<Rightarrow> f e | Inr x \<Rightarrow> g x)"
  by (cases r) simp_all

lemma keeps_case_prod: "(\<And>x y. p = (x, y) \<Longrightarrow> keeps R (f x y)) \<Longrightarrow> keeps R (case p of (x, y) \<Rightarrow> f x y)"
  by (cases p) simp

lemma keeps_reads:
  assumes "reflp R"
  shows "keeps R (UserByEmail e)" "keeps R (UserByID i)" "keeps R (CountUsers a)" "keeps R (SessionByToken h t)"
    "keeps R (from_sum r)" "keeps R (check_that c)"
  using assms by (auto simp: keeps_def reflpD UserByEmail_def UserByID_def CountUsers_def SessionByToken_def from_sum_def
      check_that_def ret_def fail_def split: list.split option.split sum.split)

definition guesses :: "account_op \<Rightarrow> bool" where
  "guesses op = (case op of Sign_In _ _ _ _ \<Rightarrow> True | Second_Factor _ _ _ _ \<Rightarrow> True | _ \<Rightarrow> False)"

definition opens_for :: "string \<Rightarrow> account_op \<Rightarrow> bool" where
  "opens_for i op = (case op of Open_Session _ _ u _ _ _ \<Rightarrow> us_ID u = i | _ \<Rightarrow> False)"

definition sets_password :: "account_op \<Rightarrow> bool" where
  "sets_password op = (case op of Change_Password _ _ _ _ _ \<Rightarrow> True | Complete_Reset _ _ _ _ _ \<Rightarrow> True | _ \<Rightarrow> False)"

text \<open>
  The tables change only through the store's methods, so a reflexive and transitive relation that
  each method an operation calls stays within relates the start and the end of the operation.
\<close>

locale account_frame =
  fixes R :: "accounts \<Rightarrow> accounts \<Rightarrow> bool" and op :: account_op
  assumes refl: "reflp R" and trans: "transp R"
    and guess: "guesses op \<Longrightarrow> keeps R (RecordLoginFailure clock i t) \<and> keeps R (RecordLoginSuccess clock i t) \<and>
      keeps R (UseRecoveryCode i h t)"
    and create_session: "opens_for (sn_UserID s) op \<Longrightarrow> keeps R (CreateSession clock s)"
    and sessions: "keeps R (TouchSession h t)" "keeps R (DeleteSession h)" "keeps R (DeleteUserSessions i)"
    and create_user: "us_FailedLogins u = 0 \<Longrightarrow> us_LockedUntil u = None \<Longrightarrow> keeps R (CreateUser clock u)"
    and administer: "keeps R (UpdateUserRole clock a i role)" "keeps R (SetUserDisabled t clock a i off)"
    and set_password: "sets_password op \<Longrightarrow> keeps R (SetPassword clock i h)"
    and totp: "keeps R (BeginTOTP clock i secret)" "keeps R (EnableTOTP clock i)" "keeps R (DisableTOTP clock i)"
      "keeps R (ReplaceRecoveryCodes i hs)"
    and resets: "keeps R (CreateReset i h t)" "keeps R (ConsumeReset h t)"
begin

lemmas frame_rules = keeps_seq keeps_attempt keeps_ret keeps_fail keeps_if keeps_case_sum keeps_case_prod keeps_ignoring
  keeps_reads refl trans sessions administer totp resets

lemma within: "keeps R (exec_account cr op)"
proof (cases op)
  case (Open_Session now clock u agent ip rnd)
  then show ?thesis
    unfolding Open_Session exec_account.simps StartSession_def Let_def
    by (intro frame_rules create_session) (simp add: opens_for_def Open_Session)
next
  case (New_User clock a email pw role salt rnd)
  then show ?thesis
    unfolding New_User exec_account.simps Account_Create_def Let_def
    by (intro frame_rules create_user) simp_all
next
  case (Sign_In now clock email pw)
  then show ?thesis
    unfolding Sign_In exec_account.simps Account_Authenticate_def
    by (intro frame_rules; simp add: guess guesses_def \<open>op = _\<close>)
next
  case (Second_Factor now clock i code)
  then show ?thesis
    unfolding Second_Factor exec_account.simps VerifySecondFactor_def
    by (intro frame_rules; simp add: guess guesses_def \<open>op = _\<close>)
next
  case (Change_Password clock i cur new salt)
  then show ?thesis
    unfolding Change_Password exec_account.simps ChangePassword_def
    by (intro frame_rules set_password; simp add: sets_password_def \<open>op = _\<close>)
next
  case (Complete_Reset now clock token pw salt)
  then show ?thesis
    unfolding Complete_Reset exec_account.simps CompleteReset_def
    by (intro frame_rules set_password; simp add: sets_password_def \<open>op = _\<close>)
qed (simp_all only: exec_account.simps Account_Resolve_def EndSession_def BeginTOTPEnrolment_def ConfirmTOTPEnrolment_def
      IssueReset_def Let_def, (intro frame_rules)+)

lemma step: "R db (account_step cr op db)"
  using within [of cr] by (simp add: keeps_def account_step_def)

end

end
