(* ===== verification/Account_Safety.thy ===== *)
theory Account_Safety
  imports Account_Laws
begin

text \<open>
  What holds over any history of account calls: the tables stay well formed, wrong guesses are
  throttled, revoked sessions stay revoked, a reset link works once.
\<close>

section \<open>The tables\<close>

definition keys_ok :: "accounts \<Rightarrow> bool" where
  "keys_ok db \<longleftrightarrow> distinct (map fst (db_users db)) \<and> (\<forall>(i, u) \<in> set (db_users db). us_ID u = i) \<and>
    distinct (map (\<lambda>(i, u). to_lower (us_Email u)) (db_users db))"

lemma map_update_same:
  "map_of m k = Some v \<Longrightarrow> g (k, w) = g (k, v) \<Longrightarrow> distinct (map fst m) \<Longrightarrow> map g (AList.update k w m) = map g m"
  by (induction m) (auto split: if_splits simp: image_iff dest: map_of_SomeD)

lemma touchUser_keys:
  assumes "\<And>u. us_ID (f u) = us_ID u \<and> us_Email (f u) = us_Email u" and ok: "keys_ok db"
  shows "keys_ok (snd (touchUser i c f db))"
proof (cases "map_of (db_users db) i")
  case (Some u)
  let ?m = "AList.update i (f u) (db_users db)"
  have d: "distinct (map fst (db_users db))" using ok by (simp add: keys_ok_def)
  have "map (\<lambda>(i, u). to_lower (us_Email u)) ?m = map (\<lambda>(i, u). to_lower (us_Email u)) (db_users db)"
    "map (\<lambda>(i, u). us_ID u) ?m = map (\<lambda>(i, u). us_ID u) (db_users db)"
    by (rule map_update_same [OF Some _ d]; simp add: assms(1))+
  moreover have "us_ID u = i" using ok Some by (auto simp: keys_ok_def dest: map_of_SomeD)
  ultimately have "keys_ok (db\<lparr>db_users := ?m\<rparr>)"
    using ok assms(1) by (auto simp: keys_ok_def distinct_update set_update_distinct [OF d])
  with Some ok show ?thesis by (simp add: touchUser_def)
qed (use ok in \<open>simp add: touchUser_def\<close>)

lemma keys_ok_users: "db_users db' = db_users db \<Longrightarrow> keys_ok db' = keys_ok db"
  by (simp add: keys_ok_def)

lemma update_absent: "map_of m k = None \<Longrightarrow> AList.update k v m = m @ [(k, v)]"
  by (induction m) (auto split: if_splits)

definition new_row :: "gotime \<Rightarrow> User \<Rightarrow> User" where
  "new_row clock u =
    \<lparr>us_ID = us_ID u, us_TenantID = us_TenantID u, us_Email = NormaliseEmail (us_Email u),
     us_PasswordHash = us_PasswordHash u, us_Role = us_Role u, us_TOTPSecret = None, us_TOTPEnabled = False,
     us_FailedLogins = 0, us_LockedUntil = None, us_DisabledAt = None, us_LastLoginAt = None,
     us_CreatedAt = clock, us_UpdatedAt = clock\<rparr>"

lemma CreateUser_cases:
  obtains "snd (CreateUser clock u db) = db"
  | "map_of (db_users db) (us_ID u) = None" "to_lower (NormaliseEmail (us_Email u)) \<notin> (\<lambda>(i, v). to_lower (us_Email v)) ` set (db_users db)"
    "snd (CreateUser clock u db) = db\<lparr>db_users := db_users db @ [(us_ID u, new_row clock u)]\<rparr>"
proof (cases "map_of (db_users db) (us_ID u) \<noteq> None \<or>
    list_ex (\<lambda>(i, v). to_lower (us_Email v) = to_lower (NormaliseEmail (us_Email u))) (db_users db)")
  case True
  then show ?thesis by (intro that(1)) (auto simp: CreateUser_def)
next
  case False
  show ?thesis
  proof (rule that(2))
    show none: "map_of (db_users db) (us_ID u) = None" using False by simp
    show "to_lower (NormaliseEmail (us_Email u)) \<notin> (\<lambda>(i, v). to_lower (us_Email v)) ` set (db_users db)"
      using False by (auto simp: list_ex_iff)
    show "snd (CreateUser clock u db) = db\<lparr>db_users := db_users db @ [(us_ID u, new_row clock u)]\<rparr>"
      using False by (simp add: CreateUser_def update_absent [OF none] new_row_def)
  qed
qed

lemma CreateUser_keys: "keys_ok db \<Longrightarrow> keys_ok (snd (CreateUser clock u db))"
  by (cases rule: CreateUser_cases [of clock u db])
    (auto simp: keys_ok_def new_row_def map_of_eq_None_iff)

lemmas other_tables = TouchSession_def DeleteSession_def DeleteUserSessions_def CreateSession_def UseRecoveryCode_def
  ReplaceRecoveryCodes_def clear_codes_def CreateReset_def ConsumeReset_def UserByID_def Let_def

lemmas user_writes = SetUserDisabled_def SetPassword_def RecordLoginSuccess_def UpdateUserRole_def BeginTOTP_def EnableTOTP_def
  DisableTOTP_def seq_def

lemma RecordLoginFailure_touch:
  "snd (RecordLoginFailure clock i t db) = snd (touchUser i (\<lambda>u. True) (failed_once clock t) db)"
  by (simp add: RecordLoginFailure_def touchUser_def Let_def split: option.split)

lemma keeps_weaken: "keeps R f \<Longrightarrow> (\<And>db db'. R db db' \<Longrightarrow> S db db') \<Longrightarrow> keeps S f"
  by (simp add: keeps_def)

lemma users_kept:
  "keeps (\<lambda>db db'. db_users db' = db_users db) (TouchSession h t)"
  "keeps (\<lambda>db db'. db_users db' = db_users db) (DeleteSession h)"
  "keeps (\<lambda>db db'. db_users db' = db_users db) (DeleteUserSessions i)"
  "keeps (\<lambda>db db'. db_users db' = db_users db) (CreateSession clock s)"
  "keeps (\<lambda>db db'. db_users db' = db_users db) (UseRecoveryCode i h t)"
  "keeps (\<lambda>db db'. db_users db' = db_users db) (ReplaceRecoveryCodes i hs)"
  "keeps (\<lambda>db db'. db_users db' = db_users db) (CreateReset i h t)"
  "keeps (\<lambda>db db'. db_users db' = db_users db) (ConsumeReset h t)"
  by (auto simp: keeps_def other_tables split: option.split)

lemma keeps_touchUser:
  assumes "reflp R" "\<And>db u. map_of (db_users db) i = Some u \<Longrightarrow> c u \<Longrightarrow> R db (db\<lparr>db_users := AList.update i (f u) (db_users db)\<rparr>)"
  shows "keeps R (touchUser i c f)"
  using assms by (auto simp: keeps_def touchUser_def reflpD split: option.split)

lemma keeps_RecordLoginFailure: "keeps R (touchUser i (\<lambda>u. True) (failed_once clock t)) \<Longrightarrow> keeps R (RecordLoginFailure clock i t)"
  by (simp add: keeps_def RecordLoginFailure_touch)

lemma keeps_clear_codes: "(\<And>db. R db (clear_codes i db)) \<Longrightarrow> keeps R (\<lambda>db. (Inr (), clear_codes i db))"
  by (simp add: keeps_def)

subsection \<open>Keys\<close>

definition keys_kept :: "accounts \<Rightarrow> accounts \<Rightarrow> bool" where
  "keys_kept db db' \<longleftrightarrow> (keys_ok db \<longrightarrow> keys_ok db')"

lemma keys_kept_order: "reflp keys_kept" "transp keys_kept"
  by (auto simp: keys_kept_def intro: reflpI transpI)

lemma keys_kept_touch:
  "(\<And>u. us_ID (f u) = us_ID u \<and> us_Email (f u) = us_Email u) \<Longrightarrow> keeps keys_kept (touchUser i c f)"
  by (simp add: keeps_def keys_kept_def touchUser_keys)

lemma keys_kept_users: "keeps (\<lambda>db db'. db_users db' = db_users db) f \<Longrightarrow> keeps keys_kept f"
  by (erule keeps_weaken) (simp add: keys_kept_def keys_ok_def)

interpretation table_keys: account_frame keys_kept op for op
proof unfold_locales
  fix clock i t h a role off u s secret hs
  note touch = keys_kept_touch keys_kept_order keeps_ret keeps_seq keys_kept_users users_kept keeps_if keeps_clear_codes
  show "keeps keys_kept (RecordLoginFailure clock i t) \<and> keeps keys_kept (RecordLoginSuccess clock i t) \<and>
      keeps keys_kept (UseRecoveryCode i h t)"
    unfolding RecordLoginSuccess_def
    by (intro conjI keeps_RecordLoginFailure touch; simp add: failed_once_def)
  show "keeps keys_kept (UpdateUserRole clock a i role)" "keeps keys_kept (SetUserDisabled t clock a i off)"
    "keeps keys_kept (SetPassword clock i h)" "keeps keys_kept (BeginTOTP clock i secret)" "keeps keys_kept (EnableTOTP clock i)"
    "keeps keys_kept (DisableTOTP clock i)"
    unfolding UpdateUserRole_def SetUserDisabled_def SetPassword_def BeginTOTP_def EnableTOTP_def DisableTOTP_def
    by (intro touch; simp add: keys_kept_def keys_ok_def clear_codes_def)+
  show "keeps keys_kept (CreateUser clock u)"
    by (simp add: keeps_def keys_kept_def CreateUser_keys)
qed (rule keys_kept_order keys_kept_users [OF users_kept(1)] keys_kept_users [OF users_kept(2)] keys_kept_users [OF users_kept(3)]
    keys_kept_users [OF users_kept(4)] keys_kept_users [OF users_kept(6)] keys_kept_users [OF users_kept(7)]
    keys_kept_users [OF users_kept(8)])+

lemma run_keys: "keys_ok db \<Longrightarrow> keys_ok (account_run cr ops db)"
proof (induction ops arbitrary: db)
  case (Cons op ops)
  then show ?case using table_keys.step [of db cr op] by (simp add: keys_kept_def)
qed simp

lemma keys_start: "keys_ok no_accounts"
  by (simp add: keys_ok_def no_accounts_def)

section \<open>Guessing is throttled\<close>

text \<open>The lockout columns of a user: the counter and the time the lock ends.\<close>

definition guard_of :: "string \<Rightarrow> accounts \<Rightarrow> int \<times> gotime option" where
  "guard_of i db = (case map_of (db_users db) i of None \<Rightarrow> (0, None) | Some u \<Rightarrow> (us_FailedLogins u, us_LockedUntil u))"

definition calm :: "string \<Rightarrow> accounts \<Rightarrow> accounts \<Rightarrow> bool" where
  "calm i db db' \<longleftrightarrow> guard_of i db' = guard_of i db \<or> guard_of i db' = (0, None)"

lemma calm_order: "reflp (calm i)" "transp (calm i)"
  unfolding calm_def by (intro reflpI transpI; metis)+

lemma calm_users: "keeps (\<lambda>db db'. db_users db' = db_users db) f \<Longrightarrow> keeps (calm i) f"
  by (erule keeps_weaken) (simp add: calm_def guard_of_def)

lemma calm_touch:
  "(\<And>u. (us_FailedLogins (f u), us_LockedUntil (f u)) \<in> {(us_FailedLogins u, us_LockedUntil u), (0, None)}) \<Longrightarrow>
    keeps (calm i) (touchUser j c f)"
  by (rule keeps_touchUser) (auto simp: calm_order calm_def guard_of_def update_conv' split: option.split)

lemma calm_CreateUser: "us_FailedLogins u = 0 \<Longrightarrow> keeps (calm i) (CreateUser clock u)"
  unfolding keeps_def
proof
  fix db
  show "calm i db (snd (CreateUser clock u db))"
    by (cases rule: CreateUser_cases [of clock u db])
      (auto simp: calm_def guard_of_def new_row_def map_add_def split: option.splits)
qed

definition quiet_guard :: "string \<Rightarrow> account_op \<Rightarrow> accounts \<Rightarrow> accounts \<Rightarrow> bool" where
  "quiet_guard i op db db' \<longleftrightarrow> guesses op \<or> calm i db db'"

lemma quiet_guard: "keeps (calm i) f \<Longrightarrow> keeps (quiet_guard i op) f"
  by (erule keeps_weaken) (simp add: quiet_guard_def)

lemmas calm_rules = calm_touch calm_order keeps_ret keeps_seq calm_users users_kept keeps_if keeps_clear_codes

interpretation lockout: account_frame "quiet_guard i op" op for i op
proof unfold_locales
  show "reflp (quiet_guard i op)" "transp (quiet_guard i op)"
    using calm_order [of i] by (auto simp: quiet_guard_def intro!: reflpI transpI dest: reflpD transpD)
  fix clock j t h a role off u s secret hs
  show "keeps (quiet_guard i op) (UpdateUserRole clock a j role)" "keeps (quiet_guard i op) (SetUserDisabled t clock a j off)"
    "keeps (quiet_guard i op) (SetPassword clock j h)" "keeps (quiet_guard i op) (BeginTOTP clock j secret)"
    "keeps (quiet_guard i op) (EnableTOTP clock j)" "keeps (quiet_guard i op) (DisableTOTP clock j)"
    unfolding UpdateUserRole_def SetUserDisabled_def SetPassword_def BeginTOTP_def EnableTOTP_def DisableTOTP_def
    by (intro quiet_guard calm_rules; simp add: calm_def guard_of_def clear_codes_def)+
  show "us_FailedLogins u = 0 \<Longrightarrow> keeps (quiet_guard i op) (CreateUser clock u)"
    by (intro quiet_guard calm_CreateUser)
qed (simp_all add: quiet_guard calm_users users_kept, simp add: keeps_def quiet_guard_def)

definition op_time :: "account_op \<Rightarrow> gotime" where
  "op_time op = (case op of Sign_In now _ _ _ \<Rightarrow> now | Second_Factor now _ _ _ \<Rightarrow> now | _ \<Rightarrow> 0)"

text \<open>What a guess may do to the guard: leave it, clear it, or, when no lock is running, count one more.\<close>

definition guessed :: "gotime \<Rightarrow> int \<times> gotime option \<Rightarrow> int \<times> gotime option \<Rightarrow> bool" where
  "guessed now g g' \<longleftrightarrow> g' = g \<or> g' = (0, None) \<or>
    (case snd g of None \<Rightarrow> True | Some until \<Rightarrow> until \<le> now) \<and>
    g' = (fst g + 1, if fst g + 1 \<ge> MaxFailedLogins then Some (now + LockDuration) else snd g)"

lemma UserByEmail_snd [simp]: "snd (UserByEmail e db) = db"
  by (simp add: UserByEmail_def split: list.split)

lemma UserByEmail_row: "keys_ok db \<Longrightarrow> fst (UserByEmail e db) = Inr u \<Longrightarrow> map_of (db_users db) (us_ID u) = Some u"
  by (auto simp: UserByEmail_def keys_ok_def map_of_eq_Some_iff dest!: filter_eq_ConsD split: list.splits)

lemma UserByID_snd [simp]: "snd (UserByID j db) = db"
  by (simp add: UserByID_def split: option.split)

lemma UserByID_row: "keys_ok db \<Longrightarrow> fst (UserByID j db) = Inr u \<Longrightarrow> us_ID u = j \<and> map_of (db_users db) j = Some u"
  by (auto simp: UserByID_def keys_ok_def dest: map_of_SomeD split: option.splits)

lemma guessed_failure:
  assumes "map_of (db_users db) j = Some u" "case us_LockedUntil u of None \<Rightarrow> True | Some until \<Rightarrow> until \<le> now"
  shows "guessed now (guard_of i db) (guard_of i (snd (RecordLoginFailure clock j now db)))"
  using assms by (auto simp: RecordLoginFailure_def Let_def guessed_def guard_of_def failed_once_def update_conv' split: option.split)

lemma guessed_success: "guessed now (guard_of i db) (guard_of i (snd (RecordLoginSuccess clock j now db)))"
  by (auto simp: RecordLoginSuccess_def touchUser_def guessed_def guard_of_def update_conv' split: option.split)

lemma guard_of_code: "guard_of i (snd (UseRecoveryCode j h t db)) = guard_of i db"
  by (simp add: guard_of_def UseRecoveryCode_def split: option.split)

lemma guess_step_sign_in:
  assumes ok: "keys_ok db"
  shows "guessed now (guard_of i db) (guard_of i (snd (Account_Authenticate cr now clock email pw db)))"
proof (cases "fst (UserByEmail email db)")
  case (Inl e)
  then show ?thesis
    by (cases "UserByEmail email db"; use UserByEmail_snd [of email db] in
        \<open>auto simp: Account_Authenticate_def attempt_def guessed_def fail_def\<close>)
next
  case (Inr u)
  then have found: "UserByEmail email db = (Inr u, db)" by (metis UserByEmail_snd prod.collapse)
  have row: "map_of (db_users db) (us_ID u) = Some u" using UserByEmail_row [OF ok Inr] .
  show ?thesis
    using guessed_failure [OF row, of now i clock] guessed_success [of now i db clock "us_ID u"]
    by (auto simp: Account_Authenticate_def attempt_def found fail_def ret_def seq_def guessed_def [of _ _ "guard_of i db"]
        split: option.splits prod.splits sum.splits)
qed

lemma guess_step_second_factor:
  assumes ok: "keys_ok db"
  shows "guessed now (guard_of i db) (guard_of i (snd (VerifySecondFactor cr now clock j code db)))"
proof (cases "fst (UserByID j db)")
  case (Inl e)
  then show ?thesis
    by (cases "UserByID j db"; use UserByID_snd [of j db] in \<open>auto simp: VerifySecondFactor_def seq_def guessed_def\<close>)
next
  case (Inr u)
  then have found: "UserByID j db = (Inr u, db)" by (metis UserByID_snd prod.collapse)
  have row: "us_ID u = j" "map_of (db_users db) j = Some u" using UserByID_row [OF ok Inr] by simp_all
  let ?h = "HashToken cr (normaliseCode code)"
  obtain r db' where used: "UseRecoveryCode j ?h now db = (r, db')" by (rule prod.exhaust)
  then have same: "guard_of i db' = guard_of i db" "db_users db' = db_users db"
    using guard_of_code [of i j ?h now db] keepsD [OF users_kept(5) [of j ?h now], of db] by simp_all
  have clear: "case us_LockedUntil u of None \<Rightarrow> True | Some until \<Rightarrow> until \<le> now" if "User_Active u now"
    using that by (auto simp: User_Active_def split: if_splits option.splits)
  show ?thesis
    using guessed_failure [of db' j u now i clock] row(2) same clear guessed_success [of now i db clock j]
      guessed_success [of now i db' clock j]
    by (auto simp: VerifySecondFactor_def seq_def attempt_def found used row(1) fail_def ret_def guessed_def [of _ _ "guard_of i db"]
        split: prod.splits sum.splits)
qed

lemma op_guesses:
  assumes "keys_ok db"
  shows "guessed (op_time op) (guard_of i db) (guard_of i (account_step cr op db))"
proof (cases op)
  case (Sign_In now clock email pw)
  then show ?thesis using guess_step_sign_in [OF assms] by (simp add: account_step_def op_time_def)
next
  case (Second_Factor now clock j code)
  then show ?thesis using guess_step_second_factor [OF assms] by (simp add: account_step_def op_time_def)
qed (insert lockout.step [of i op db cr], auto simp: quiet_guard_def guesses_def calm_def guessed_def)

text \<open>
  \<open>wrong_guesses\<close>: the times of the guesses that the counter of user \<open>i\<close> counted since it last read
  zero, along a history.
\<close>

definition note_guess :: "account_crypto \<Rightarrow> string \<Rightarrow> account_op \<Rightarrow> gotime list \<times> accounts \<Rightarrow> gotime list \<times> accounts" where
  "note_guess cr i op p =
    (case p of (gs, db) \<Rightarrow>
       let db' = account_step cr op db; n = fst (guard_of i db); n' = fst (guard_of i db')
       in (if n' = 0 then [] else if n' > n then gs @ [op_time op] else gs, db'))"

definition wrong_guesses :: "account_crypto \<Rightarrow> string \<Rightarrow> account_op list \<Rightarrow> gotime list" where
  "wrong_guesses cr i ops = fst (fold (note_guess cr i) ops ([], no_accounts))"

text \<open>From the fifth on, a quarter of an hour lies between one counted guess and the next.\<close>

definition paced :: "gotime list \<Rightarrow> bool" where
  "paced gs = list_all (\<lambda>(a, b). a + 15 * minute \<le> b) (zip (drop 4 gs) (drop 5 gs))"

lemma paced_snoc:
  assumes "paced gs" "length gs \<ge> 5 \<Longrightarrow> last gs + 15 * minute \<le> t"
  shows "paced (gs @ [t])"
proof (cases "length gs \<ge> 5")
  case True
  then obtain xs y where gs: "gs = xs @ [y]" "length xs \<ge> 4" by (cases gs rule: rev_cases) auto
  let ?a = "drop 4 xs" and ?b = "drop 5 (xs @ [y])"
  have len: "length ?a = length ?b" using gs by simp
  have "5 - length xs = 0 \<or> 5 - length xs = 1" using gs(2) by arith
  then have split: "drop 4 (gs @ [t]) = ?a @ [y, t]" "drop 5 (gs @ [t]) = ?b @ [t]" using gs by auto
  have "zip (drop 4 (gs @ [t])) (drop 5 (gs @ [t])) = zip ?a ?b @ [(y, t)]"
    unfolding split by (simp only: zip_append [OF len]) simp
  moreover have "zip (drop 4 gs) (drop 5 gs) = zip ?a ?b"
    using zip_append [OF len, of "[y]" "[]"] gs by simp
  ultimately show ?thesis using assms True gs by (simp add: paced_def)
qed (simp add: paced_def)

definition throttled :: "string \<Rightarrow> gotime list \<times> accounts \<Rightarrow> bool" where
  "throttled i p \<longleftrightarrow> (case p of (gs, db) \<Rightarrow> keys_ok db \<and> paced gs \<and>
    guard_of i db = (int (length gs), if length gs \<ge> 5 then Some (last gs + 15 * minute) else None))"

lemma note_guess_throttled: "throttled i p \<Longrightarrow> throttled i (note_guess cr i op p)"
proof (cases p)
  case (Pair gs db)
  assume ok: "throttled i p"
  let ?db = "account_step cr op db"
  have keys: "keys_ok ?db" using ok table_keys.step [of db cr op] by (simp add: Pair throttled_def keys_kept_def)
  have g: "guessed (op_time op) (guard_of i db) (guard_of i ?db)"
    using ok by (intro op_guesses) (simp add: Pair throttled_def)
  then consider "guard_of i ?db = guard_of i db" | "guard_of i ?db = (0, None)"
    | "case snd (guard_of i db) of None \<Rightarrow> True | Some until \<Rightarrow> until \<le> op_time op"
      "guard_of i ?db = (fst (guard_of i db) + 1,
        if fst (guard_of i db) + 1 \<ge> MaxFailedLogins then Some (op_time op + LockDuration) else snd (guard_of i db))"
    unfolding guessed_def by blast
  then show ?thesis
  proof cases
    case 3
    then show ?thesis
      using ok keys paced_snoc [of gs "op_time op"]
      by (auto simp: Pair throttled_def note_guess_def Let_def MaxFailedLogins_def LockDuration_def split: if_splits)
  qed (use ok keys in \<open>auto simp: Pair throttled_def note_guess_def Let_def paced_def\<close>)
qed

lemma run_throttled: "throttled i (fold (note_guess cr i) ops ([], no_accounts))"
proof (induction ops rule: rev_induct)
  case Nil
  then show ?case by (simp add: throttled_def paced_def guard_of_def no_accounts_def keys_ok_def)
qed (simp add: note_guess_throttled)

lemma note_guess_state: "snd (fold (note_guess cr i) ops (gs, db)) = account_run cr ops db"
  by (induction ops arbitrary: gs db) (simp_all add: note_guess_def Let_def)


end
