(* ===== verification/Account_Revocation.thy ===== *)
theory Account_Revocation
  imports Account_Safety
begin

text \<open>
  Revoked sessions and used reset links stay dead, and two ways round the second factor and the
  roles.
\<close>

section \<open>Sessions\<close>

definition no_session :: "string \<Rightarrow> accounts \<Rightarrow> bool" where
  "no_session i db = list_all (\<lambda>(h, s). sn_UserID s \<noteq> i) (db_sessions db)"

definition stays_out :: "string \<Rightarrow> account_op \<Rightarrow> accounts \<Rightarrow> accounts \<Rightarrow> bool" where
  "stays_out i op db db' \<longleftrightarrow> opens_for i op \<or> (no_session i db \<longrightarrow> no_session i db')"

lemma sessions_kept:
  "db_sessions (snd (touchUser j c f db)) = db_sessions db"
  "db_sessions (snd (CreateUser clock u db)) = db_sessions db"
  "db_sessions (snd (UseRecoveryCode j h t db)) = db_sessions db"
  "db_sessions (snd (ReplaceRecoveryCodes j hs db)) = db_sessions db"
  "db_sessions (snd (CreateReset j h t db)) = db_sessions db"
  "db_sessions (snd (ConsumeReset h t db)) = db_sessions db"
  by (auto simp: touchUser_def CreateUser_def other_tables split: option.split)

lemma in_update: "p \<in> set (AList.update k v m) \<Longrightarrow> p = (k, v) \<or> p \<in> set m"
  by (induction m) (auto split: if_splits)

lemma in_delete: "p \<in> set (AList.delete k m) \<Longrightarrow> p \<in> set m"
  by (simp add: AList.delete_eq)

lemma no_session_writes:
  "no_session i db \<Longrightarrow> no_session i (snd (TouchSession h t db))"
  "no_session i db \<Longrightarrow> no_session i (snd (DeleteSession h db))"
  "no_session i db \<Longrightarrow> no_session i (snd (DeleteUserSessions j db))"
  "no_session i db \<Longrightarrow> sn_UserID s \<noteq> i \<Longrightarrow> no_session i (snd (CreateSession clock s db))"
  by (auto simp: no_session_def list_all_iff TouchSession_def DeleteSession_def DeleteUserSessions_def CreateSession_def
      dest!: in_update in_delete map_of_SomeD split: option.split)

lemma stays_out_order: "reflp (stays_out i op)" "transp (stays_out i op)"
  by (auto simp: stays_out_def intro: reflpI transpI)

lemma keeps_stays_out:
  "(\<And>db. db_sessions (snd (f db)) = db_sessions db) \<Longrightarrow> keeps (stays_out i op) f"
  by (simp add: keeps_def stays_out_def no_session_def)

lemma keeps_stays_out_no:
  "(\<And>db. no_session i db \<Longrightarrow> no_session i (snd (f db))) \<Longrightarrow> keeps (stays_out i op) f"
  by (simp add: keeps_def stays_out_def)

lemmas stays_out_rules = keeps_seq keeps_ret stays_out_order keeps_if keeps_stays_out sessions_kept
  keeps_stays_out_no no_session_writes

interpretation revocation: account_frame "stays_out i op" op for i op
proof unfold_locales
  show "reflp (stays_out i op)" "transp (stays_out i op)" by (rule stays_out_order)+
  fix clock j t h a role off u s secret hs
  show "keeps (stays_out i op) (RecordLoginFailure clock j t) \<and> keeps (stays_out i op) (RecordLoginSuccess clock j t) \<and>
      keeps (stays_out i op) (UseRecoveryCode j h t)"
    unfolding RecordLoginSuccess_def by (intro conjI keeps_stays_out; simp add: RecordLoginFailure_touch sessions_kept)
  show "keeps (stays_out i op) (CreateSession clock s)" if "opens_for (sn_UserID s) op"
    using that no_session_writes(4) [of i _ s clock] by (auto simp: keeps_def stays_out_def)
  show "keeps (stays_out i op) (TouchSession h t)" "keeps (stays_out i op) (DeleteSession h)"
    "keeps (stays_out i op) (DeleteUserSessions j)" "keeps (stays_out i op) (CreateUser clock u)"
    "keeps (stays_out i op) (ReplaceRecoveryCodes j hs)" "keeps (stays_out i op) (CreateReset j h t)"
    "keeps (stays_out i op) (ConsumeReset h t)"
    by (simp_all add: keeps_stays_out sessions_kept keeps_stays_out_no no_session_writes)
  show "keeps (stays_out i op) (UpdateUserRole clock a j role)" "keeps (stays_out i op) (SetUserDisabled t clock a j off)"
    "keeps (stays_out i op) (SetPassword clock j h)" "keeps (stays_out i op) (BeginTOTP clock j secret)"
    "keeps (stays_out i op) (EnableTOTP clock j)" "keeps (stays_out i op) (DisableTOTP clock j)"
    unfolding UpdateUserRole_def SetUserDisabled_def SetPassword_def BeginTOTP_def EnableTOTP_def DisableTOTP_def
    by (auto intro!: keeps_seq keeps_ret stays_out_order keeps_if
        simp: keeps_stays_out sessions_kept keeps_stays_out_no no_session_writes clear_codes_def)
qed

lemma out_run: "no_session i db \<Longrightarrow> no_session i (account_run cr (filter (\<lambda>op. \<not> opens_for i op) ops) db)"
proof (induction ops arbitrary: db)
  case (Cons op ops)
  then show ?case using revocation.step [of i op db cr] by (auto simp: stays_out_def)
qed simp

text \<open>The calls that end every session of user \<open>i\<close>.\<close>

definition revokes :: "account_crypto \<Rightarrow> string \<Rightarrow> account_op \<Rightarrow> accounts \<Rightarrow> bool" where
  "revokes cr i op db =
    (case op of
       Revoke_Sessions j \<Rightarrow> j = i
     | Set_Disabled now clock a j off \<Rightarrow> j = i \<and> off
     | Change_Password clock j cur new salt \<Rightarrow> j = i
     | Complete_Reset now clock token pw salt \<Rightarrow>
         (case map_of (db_resets db) (HashToken cr token) of None \<Rightarrow> False | Some r \<Rightarrow> rs_UserID r = i)
     | _ \<Rightarrow> False)"

lemma deleted_out: "no_session i (snd (DeleteUserSessions i db))"
  by (simp add: no_session_def DeleteUserSessions_def list_all_iff case_prod_unfold)

text \<open>\<open>on_ok Q f db\<close>: if \<open>f\<close> succeeds from \<open>db\<close>, what it leaves satisfies \<open>Q\<close>.\<close>

definition on_ok :: "(accounts \<Rightarrow> bool) \<Rightarrow> 'a account_call \<Rightarrow> accounts \<Rightarrow> bool" where
  "on_ok Q f db \<longleftrightarrow> (\<forall>x. fst (f db) = Inr x \<longrightarrow> Q (snd (f db)))"

lemma on_ok_seq: "(\<And>x. fst (f db) = Inr x \<Longrightarrow> on_ok Q (g x) (snd (f db))) \<Longrightarrow> on_ok Q (seq f g) db"
  by (cases "f db") (auto simp: on_ok_def seq_def split: sum.split)

lemma on_ok_end: "on_ok Q (fail e) db" "Q db \<Longrightarrow> on_ok Q (ret x) db" "on_ok Q f db \<Longrightarrow> on_ok Q (ignoring f) db"
  by (auto simp: on_ok_def fail_def ret_def ignoring_def split: prod.splits sum.splits)

lemma on_ok_if: "(c \<Longrightarrow> on_ok Q f db) \<Longrightarrow> (\<not> c \<Longrightarrow> on_ok Q g db) \<Longrightarrow> on_ok Q (if c then f else g) db"
  by simp

lemma on_okD: "on_ok Q f db \<Longrightarrow> fst (f db) = Inr x \<Longrightarrow> Q (snd (f db))"
  by (simp add: on_ok_def)

lemma SetPassword_out: "on_ok (no_session j) (SetPassword clock j h) db"
  unfolding SetPassword_def by (rule on_ok_seq) (simp add: on_ok_def DeleteUserSessions_def no_session_def list_all_iff case_prod_unfold)

lemmas on_ok_rules = on_ok_seq on_ok_end on_ok_if SetPassword_out

lemma check_that_snd [simp]: "snd (check_that e db) = db"
  by (simp add: check_that_def fail_def ret_def split: option.split)

lemma from_sum_snd [simp]: "snd (from_sum r db) = db"
  by (simp add: from_sum_def fail_def ret_def split: sum.split)

lemma ConsumeReset_row:
  assumes "fst (ConsumeReset h t db) = Inr u" "keys_ok db"
  obtains r where "map_of (db_resets db) h = Some r" "rs_UserID r = us_ID u" "rs_UsedAt r = None"
    "snd (ConsumeReset h t db) = db\<lparr>db_resets := AList.update h (r\<lparr>rs_UsedAt := Some t\<rparr>) (db_resets db)\<rparr>"
  using assms by (auto simp: ConsumeReset_def UserByID_def keys_ok_def dest: map_of_SomeD split: option.splits if_splits)

lemma revoked:
  assumes ok: "keys_ok db" and r: "revokes cr i op db" "fst (exec_account cr op db) = Inr ()"
  shows "no_session i (account_step cr op db)"
proof (cases op)
  case (Set_Disabled now clock a j off)
  then have j: "j = i" off using r(1) by (simp_all add: revokes_def)
  have "on_ok (no_session i) (SetUserDisabled now clock a i True) db"
    unfolding SetUserDisabled_def by (rule on_ok_seq) (simp add: on_ok_def DeleteUserSessions_def no_session_def list_all_iff case_prod_unfold)
  then show ?thesis
    using r(2) unfolding Set_Disabled account_step_def j exec_account.simps by (auto simp: j dest: on_okD)
next
  case (Change_Password clock j cur new salt)
  then have j: "j = i" using r(1) by (simp add: revokes_def)
  have "on_ok (no_session i) (ChangePassword cr clock i cur new salt) db"
    unfolding ChangePassword_def by (intro on_ok_rules) (use UserByID_row [OF ok, of i] SetPassword_out in simp)
  then show ?thesis
    using r(2) unfolding Change_Password account_step_def j exec_account.simps by (rule on_okD)
next
  case (Complete_Reset now clock token pw salt)
  have "us_ID v = i" if "fst (ConsumeReset (HashToken cr token) now db) = Inr v" for v
    using r(1) by (rule_tac ConsumeReset_row [OF that ok]) (simp add: revokes_def Complete_Reset)
  then have "on_ok (no_session i) (ignoring (CompleteReset cr now clock token pw salt)) db"
    unfolding CompleteReset_def by (intro on_ok_rules) (auto dest: on_okD [OF SetPassword_out])
  then show ?thesis
    using r(2) unfolding Complete_Reset account_step_def exec_account.simps by (rule on_okD)
qed (use r in \<open>simp_all add: revokes_def account_step_def deleted_out\<close>)

lemma Resolve_session:
  assumes "fst (Account_Resolve cr now token db) = Inr (s, u)" "keys_ok db"
  shows "\<not> no_session (us_ID u) db"
proof -
  have rows: "(HashToken cr token, s) \<in> set (db_sessions db)" "(sn_UserID s, u) \<in> set (db_users db)"
    using assms(1) by (auto simp: Account_Resolve_def SessionByToken_def fail_def dest!: map_of_SomeD split: option.splits if_splits)
  then have "us_ID u = sn_UserID s" using assms(2) by (auto simp: keys_ok_def)
  with rows(1) show ?thesis by (auto simp: no_session_def list_all_iff)
qed

text \<open>The user a token signs in.\<close>

definition signed_in :: "account_crypto \<Rightarrow> gotime \<Rightarrow> string \<Rightarrow> accounts \<Rightarrow> string option" where
  "signed_in cr now token db =
    (case fst (Account_Resolve cr now token db) of Inl e \<Rightarrow> None | Inr (s, u) \<Rightarrow> Some (us_ID u))"

text \<open>
  C20. Revocation is complete. When a password change, a completed reset, disabling the account or
  ending its sessions succeeds, no token signs that user in any more, at any time and after any
  further history of account calls, until a new session is opened for the user.
\<close>

theorem revoked_sessions_stay_dead:
  assumes "revokes cr i op (account_run cr before no_accounts)"
    and "fst (exec_account cr op (account_run cr before no_accounts)) = Inr ()"
  shows "signed_in cr now token (account_run cr (before @ op # filter (\<lambda>op. \<not> opens_for i op) ops) no_accounts) \<noteq> Some i"
proof -
  let ?db = "account_run cr before no_accounts"
  let ?later = "account_run cr (filter (\<lambda>op. \<not> opens_for i op) ops) (account_step cr op ?db)"
  have keys: "keys_ok ?db" by (rule run_keys [OF keys_start])
  then have "no_session i ?later" by (intro out_run revoked assms)
  moreover have "keys_ok ?later" using keys table_keys.step [of ?db cr op] by (intro run_keys) (simp add: keys_kept_def)
  ultimately show ?thesis
    using Resolve_session [of cr now token ?later]
    by (auto simp: signed_in_def account_run_def split: sum.splits)
qed

text \<open>
  A concrete instance of the outside parameters: keys cut from password and salt, the encodings as
  the identity.
\<close>

definition toy_crypto :: account_crypto where
  "toy_crypto =
    \<lparr>pc_argon = (\<lambda>pw salt t m p n. take n (pw @ salt @ replicate n CHR ''k'')), pc_encode64 = id, pc_decode64 = Some,
     pc_encode32 = id, pc_decode32 = Some, pc_url64 = id, pc_hex = id, pc_sha256 = id,
     pc_hmac_sha1 = (\<lambda>k m. take 20 (k @ m @ replicate 20 CHR ''h''))\<rparr>"

definition some_user :: User where
  "some_user = \<lparr>us_ID = ''usr_1'', us_TenantID = ''t'', us_Email = ''a@b'', us_PasswordHash = '''',
     us_Role = RoleAdmin, us_TOTPSecret = None, us_TOTPEnabled = False, us_FailedLogins = 0, us_LockedUntil = None,
     us_DisabledAt = None, us_LastLoginAt = None, us_CreatedAt = 0, us_UpdatedAt = 0\<rparr>"

lemma revoked_sessions_stay_dead_witness:
  "signed_in toy_crypto 20 ''tok'' (account_run toy_crypto
    ([New_User 0 ''t'' ''a@b'' ''twelve-chars-long'' '''' (Inr ''salt'') (Inr ''1''),
      Open_Session 1 1 some_user '''' '''' (Inr ''tok'')]
     @ Revoke_Sessions ''usr_1'' # filter (\<lambda>op. \<not> opens_for ''usr_1'' op) [Touch ''tok'' 3]) no_accounts) \<noteq> Some ''usr_1''"
  by (rule revoked_sessions_stay_dead) (simp_all add: revokes_def DeleteUserSessions_def)

section \<open>Reset links\<close>

definition used_up :: "string \<Rightarrow> accounts \<Rightarrow> bool" where
  "used_up h db = (case map_of (db_resets db) h of None \<Rightarrow> False | Some r \<Rightarrow> rs_UsedAt r \<noteq> None)"

definition stays_used :: "string \<Rightarrow> accounts \<Rightarrow> accounts \<Rightarrow> bool" where
  "stays_used h db db' \<longleftrightarrow> (used_up h db \<longrightarrow> used_up h db')"

lemma stays_used_order: "reflp (stays_used h)" "transp (stays_used h)"
  by (auto simp: stays_used_def intro: reflpI transpI)

lemma keeps_stays_used: "(\<And>db. db_resets (snd (f db)) = db_resets db) \<Longrightarrow> keeps (stays_used h) f"
  by (simp add: keeps_def stays_used_def used_up_def)

lemma resets_kept:
  "db_resets (snd (touchUser j c f db)) = db_resets db"
  "db_resets (snd (CreateUser clock u db)) = db_resets db"
  "db_resets (snd (UseRecoveryCode j k t db)) = db_resets db"
  "db_resets (snd (ReplaceRecoveryCodes j hs db)) = db_resets db"
  "db_resets (snd (TouchSession k t db)) = db_resets db"
  "db_resets (snd (DeleteSession k db)) = db_resets db"
  "db_resets (snd (DeleteUserSessions j db)) = db_resets db"
  "db_resets (snd (CreateSession clock s db)) = db_resets db"
  by (auto simp: touchUser_def CreateUser_def other_tables split: option.split)

lemma map_of_filter_kept: "map_of m h = Some r \<Longrightarrow> P (h, r) \<Longrightarrow> map_of (filter P m) h = Some r"
  by (induction m) (auto split: if_splits)

lemma stays_used_resets: "keeps (stays_used h) (CreateReset j k t)" "keeps (stays_used h) (ConsumeReset k t)"
proof -
  show "keeps (stays_used h) (CreateReset j k t)"
    unfolding keeps_def stays_used_def
  proof (intro allI impI)
    fix db
    assume "used_up h db"
    then obtain r where r: "map_of (db_resets db) h = Some r" "rs_UsedAt r \<noteq> None" by (auto simp: used_up_def split: option.splits)
    then have "map_of (filter (\<lambda>(k, r). \<not> (rs_UserID r = j \<and> rs_UsedAt r = None)) (db_resets db)) h = Some r"
      by (intro map_of_filter_kept) simp_all
    then show "used_up h (snd (CreateReset j k t db))"
      using r(2) by (auto simp: CreateReset_def Let_def used_up_def update_conv')
  qed
  show "keeps (stays_used h) (ConsumeReset k t)"
    by (auto simp: keeps_def stays_used_def used_up_def ConsumeReset_def UserByID_def update_conv' split: option.splits)
qed

interpretation reset_links: account_frame "stays_used h" op for h op
proof unfold_locales
  show "reflp (stays_used h)" "transp (stays_used h)" by (rule stays_used_order)+
  fix clock j t k a role off u s secret hs
  show "keeps (stays_used h) (RecordLoginFailure clock j t) \<and> keeps (stays_used h) (RecordLoginSuccess clock j t) \<and>
      keeps (stays_used h) (UseRecoveryCode j k t)"
    unfolding RecordLoginSuccess_def by (intro conjI keeps_stays_used; simp add: RecordLoginFailure_touch resets_kept)
  show "keeps (stays_used h) (UpdateUserRole clock a j role)" "keeps (stays_used h) (SetUserDisabled t clock a j off)"
    "keeps (stays_used h) (SetPassword clock j k)" "keeps (stays_used h) (BeginTOTP clock j secret)"
    "keeps (stays_used h) (EnableTOTP clock j)" "keeps (stays_used h) (DisableTOTP clock j)"
    unfolding UpdateUserRole_def SetUserDisabled_def SetPassword_def BeginTOTP_def EnableTOTP_def DisableTOTP_def
    by (auto intro!: keeps_seq keeps_ret stays_used_order keeps_if simp: keeps_stays_used resets_kept clear_codes_def)
qed (simp_all add: keeps_stays_used resets_kept stays_used_resets)

lemma used_run: "used_up h db \<Longrightarrow> used_up h (account_run cr ops db)"
proof (induction ops arbitrary: db)
  case (Cons op ops)
  then show ?case using reset_links.step [of h db cr op] by (simp add: stays_used_def)
qed simp

lemma completed_used: "on_ok (used_up (HashToken cr token)) (CompleteReset cr now clock token pw salt) db"
proof -
  have used: "on_ok (used_up (HashToken cr token)) (ConsumeReset (HashToken cr token) now) db" for db
    by (auto simp: on_ok_def ConsumeReset_def UserByID_def used_up_def update_conv' split: option.splits)
  have later: "used_up h db \<Longrightarrow> used_up h (snd (SetPassword clock i k db))" for h i k db
    using reset_links.set_password [of "Change_Password 0 [] [] [] (Inl (ErrMessage []))" h clock i k]
    by (simp add: sets_password_def keeps_def stays_used_def)
  show ?thesis
    unfolding CompleteReset_def by (intro on_ok_rules) (auto dest!: on_okD [OF used] intro: later)
qed

text \<open>How many times a link sets a password along a history.\<close>

definition is_Inr :: "'a + 'b \<Rightarrow> bool" where
  "is_Inr r = (case r of Inl _ \<Rightarrow> False | Inr _ \<Rightarrow> True)"

fun completions :: "account_crypto \<Rightarrow> string \<Rightarrow> account_op list \<Rightarrow> accounts \<Rightarrow> nat" where
  "completions cr token [] db = 0"
| "completions cr token (op # ops) db =
    (case op of
       Complete_Reset now clock tok pw salt \<Rightarrow> if tok = token \<and> is_Inr (fst (exec_account cr op db)) then 1 else 0
     | _ \<Rightarrow> 0) + completions cr token ops (account_step cr op db)"

lemma used_refused:
  assumes "used_up (HashToken cr token) db"
  shows "\<not> is_Inr (fst (ignoring (CompleteReset cr now clock token pw salt) db))"
proof -
  have "on_ok (\<lambda>_. False) (ignoring (CompleteReset cr now clock token pw salt)) db"
    unfolding CompleteReset_def using assms
    by (intro on_ok_rules) (auto simp: ConsumeReset_def used_up_def split: option.splits)
  then show ?thesis by (auto simp: on_ok_def is_Inr_def split: sum.split)
qed

lemma used_never_again: "used_up (HashToken cr token) db \<Longrightarrow> completions cr token ops db = 0"
proof (induction ops arbitrary: db)
  case (Cons op ops)
  then have "used_up (HashToken cr token) (account_step cr op db)"
    using used_run [of _ db cr "[op]"] by simp
  then show ?case using Cons used_refused by (auto split: account_op.split)
qed simp

text \<open>
  C21. A reset link works once. Over any history of account calls, whoever makes them, a link sets a
  password at most once: once used it is never usable again, and no later link takes its place.
\<close>

theorem reset_link_used_once: "completions cr token ops db \<le> 1"
proof (induction ops arbitrary: db)
  case (Cons op ops)
  show ?case
  proof (cases "\<exists>now clock pw salt. op = Complete_Reset now clock token pw salt \<and> is_Inr (fst (exec_account cr op db))")
    case True
    then obtain now clock pw salt where op: "op = Complete_Reset now clock token pw salt"
      and "is_Inr (fst (exec_account cr op db))" by blast
    then have "fst (exec_account cr op db) = Inr ()" by (simp add: is_Inr_def split: sum.splits)
    moreover have "on_ok (used_up (HashToken cr token)) (exec_account cr op) db"
      unfolding op exec_account.simps by (rule on_ok_end(3)) (rule completed_used)
    ultimately have "used_up (HashToken cr token) (account_step cr op db)" by (auto simp: account_step_def dest: on_okD)
    then show ?thesis by (simp add: op used_never_again)
  next
    case False
    then show ?thesis using Cons.IH by (auto split: account_op.split)
  qed
qed simp

end
