(* ===== verification/Account_Codes.thy ===== *)
theory Account_Codes
  imports Account_Revocation
begin

text \<open>
  What passwords, codes and roles check: a stored hash accepts exactly its password, a one-time code
  is right for three steps, and where the answers say more than they mean to.
\<close>

section \<open>Passwords\<close>

lemma argon_header:
  "show_int argonTime = ''1''" "show_int argonMemory = ''65536''" "show_int argonThreads = ''4''"
  by (simp_all add: argonTime_def argonMemory_def argonThreads_def show_int_def show_nat.simps) code_simp+

lemma scan_header: "scan_three ''1 65536 4'' = Some (1, 65536, 4)"
  by (simp add: scan_three_def scan_d_def scan_gap_def blank_def is_space_def byte_def is_digit_def parse_int64_def
      digit_val_def int64_def)

text \<open>The rules of the outside functions that a stored hash relies on.\<close>

definition encodes :: "account_crypto \<Rightarrow> bool" where
  "encodes cr \<longleftrightarrow> (\<forall>s. pc_decode64 cr (pc_encode64 cr s) = Some s \<and> CHR ''$'' \<notin> set (pc_encode64 cr s)) \<and>
    (\<forall>pw salt t m p n. length (pc_argon cr pw salt t m p n) = n)"

lemma HashPassword_checks:
  assumes "encodes cr" "HashPassword cr (Inr salt) pw = Inr h"
  shows "VerifyPassword cr h other \<longleftrightarrow>
    pc_argon cr other salt 1 65536 4 32 = pc_argon cr pw salt 1 65536 4 32"
proof -
  have e: "CHR ''$'' \<notin> set (pc_encode64 cr s)" "pc_decode64 cr (pc_encode64 cr s) = Some s" for s
    using assms(1) by (simp_all add: encodes_def)
  let ?key = "pc_argon cr pw salt argonTime argonMemory argonThreads argonKeyLen"
  have h: "h = ''argon2id$'' @ ''1'' @ ''$'' @ ''65536'' @ ''$'' @ ''4'' @ ''$'' @ pc_encode64 cr salt @ ''$'' @ pc_encode64 cr ?key"
    using assms(2) by (simp add: HashPassword_def argon_header Let_def split: option.splits)
  have "split_on CHR ''$'' h = [''argon2id'', ''1'', ''65536'', ''4'', pc_encode64 cr salt, pc_encode64 cr ?key]"
    unfolding h by (simp add: split_on_append [where w = "''argon2id''", simplified] split_on_append split_on_plain e)
  moreover have "length ?key = 32" using assms(1) by (simp add: encodes_def argonKeyLen_def)
  ultimately show ?thesis
    by (simp add: VerifyPassword_def scan_header e argonTime_def argonMemory_def argonThreads_def argonKeyLen_def)
qed

section \<open>One-time codes\<close>

lemma show_nat_length: "n < 10 ^ Suc k \<Longrightarrow> length (show_nat n) \<le> Suc k"
proof (induction k arbitrary: n)
  case 0
  then show ?case by (simp add: show_nat.simps [of n])
next
  case (Suc k)
  then have "n div 10 < 10 ^ Suc k" by (simp add: less_mult_imp_div_less algebra_simps)
  with Suc.IH [of "n div 10"] show ?case by (subst show_nat.simps) simp
qed

lemma TOTPCode_length: "TOTPCode cr secret t = Inr code \<Longrightarrow> length code = 6"
  using show_nat_length [of "_ mod 1000000" 5]
  by (auto simp: TOTPCode_def six_digits_def Let_def split: option.splits if_splits)

text \<open>A code is right exactly when it is the code of the step before, of this one or of the next.\<close>

lemma VerifyTOTP_window:
  assumes "\<And>k. k \<in> {-1, 0, 1} \<Longrightarrow> TOTPCode cr secret (now + k * TOTPPeriod) = Inr (c k)"
  shows "VerifyTOTP cr secret code now \<longleftrightarrow> trim_space code \<in> {c (- 1), c 0, c 1}"
proof -
  have "length (c k) = 6" if "k \<in> {-1, 0, 1}" for k using TOTPCode_length [OF assms [OF that]] .
  moreover have "totp_loop cr secret w now (- 1) \<longleftrightarrow> w \<in> {c (- 1), c 0, c 1}" for w
    using assms [of "- 1"] assms [of 0] assms [of 1]
    by (simp add: totp_loop.simps [of cr secret w now] TOTPSkew_def eq_commute [of w])
  ultimately show ?thesis by (auto simp: VerifyTOTP_def Let_def TOTPSkew_def)
qed

section \<open>Answers that say too much\<close>

text \<open>A role that is not one of the three carries no scope, and an empty list of scopes means all of them.\<close>

lemma unknown_role_may_everything:
  "\<not> Role_Valid r \<Longrightarrow> HasScope \<lparr>p_TenantID = a, p_KeyID = i, p_Environment = [], p_Scopes = Role_Scopes r\<rparr> want \<and> \<not> Role_Can r want"
  by (simp add: Role_Valid_def HasScope_def Role_Scopes_def Role_Can_def)

lemma seq_Inl:
  "fst (seq f g db) = Inl e \<longleftrightarrow> fst (f db) = Inl e \<or> (\<exists>x. fst (f db) = Inr x \<and> fst (g x (snd (f db))) = Inl e)"
  by (cases "f db") (auto simp: seq_def split: sum.split)

text \<open>A sign-in is answered "locked" exactly for an address that has an account: whatever the password.\<close>

lemma lock_tells_address:
  "fst (Account_Authenticate cr now clock email pw db) = Inl ErrLocked \<longleftrightarrow>
    (\<exists>u. fst (UserByEmail email db) = Inr u \<and> us_DisabledAt u = None \<and>
      (\<exists>until. us_LockedUntil u = Some until \<and> now < until)) \<or> fst (UserByEmail email db) = Inl ErrLocked"
proof -
  obtain r db' where r: "UserByEmail email db = (r, db')" by (rule prod.exhaust)
  have "fst (RecordLoginFailure clock i now db) \<noteq> Inl ErrLocked" "fst (RecordLoginSuccess clock i now db) \<noteq> Inl ErrLocked" for i db
    by (auto simp: RecordLoginFailure_def RecordLoginSuccess_def touchUser_def ErrLocked_def ErrAccountNotFound_def Let_def split: option.split)
  then show ?thesis
    by (auto simp: Account_Authenticate_def attempt_def r fail_def ret_def seq_Inl account_errors
        split: sum.splits option.splits if_splits)
qed

end
