(* ===== verification/Qr_Field.thy ===== *)
theory Qr_Field
  imports Main "HOL-Library.Word"
begin

text \<open>
  The field of 256 elements and the Reed-Solomon code of \<^verbatim>\<open>internal/account/qr.go\<close>: the tables, the
  product through them, the error correction codewords, and what the code they form can repair.
\<close>

unbundle bit_operations_syntax

type_synonym byte8 = "8 word"

section \<open>The tables\<close>

text \<open>\<^verbatim>\<open>init\<close>: \<open>x\<close> is an \<^verbatim>\<open>int\<close>.\<close>

fun gf_fill :: "nat \<Rightarrow> nat \<Rightarrow> int \<Rightarrow> byte8 list \<times> byte8 list \<Rightarrow> byte8 list \<times> byte8 list" where
  "gf_fill 0 i x t = t"
| "gf_fill (Suc n) i x (gfExp, gfLog) =
    (let gfExp = gfExp[i := of_int x]; gfLog = gfLog[nat x := of_nat i]; x = push_bit 1 x;
         x = (if x AND 0x100 \<noteq> 0 then x XOR 0x11D else x)
     in gf_fill n (i + 1) x (gfExp, gfLog))"

fun gf_double :: "nat \<Rightarrow> nat \<Rightarrow> byte8 list \<Rightarrow> byte8 list" where
  "gf_double 0 i gfExp = gfExp"
| "gf_double (Suc n) i gfExp = gf_double n (i + 1) (gfExp[i := gfExp ! (i - 255)])"

definition gf_tables :: "byte8 list \<times> byte8 list" where
  "gf_tables = (case gf_fill 255 0 1 (replicate 512 0, replicate 256 0) of (e, l) \<Rightarrow> (gf_double 257 255 e, l))"

definition gfExp :: "byte8 list" where "gfExp = fst gf_tables"
definition gfLog :: "byte8 list" where "gfLog = snd gf_tables"

definition gfMul :: "byte8 \<Rightarrow> byte8 \<Rightarrow> byte8" where
  "gfMul a b = (if a = 0 \<or> b = 0 then 0 else gfExp ! (unat (gfLog ! unat a) + unat (gfLog ! unat b)))"

section \<open>Powers of the generator\<close>

text \<open>Multiplication by \<open>x\<close> modulo the polynomial.\<close>

definition xtime :: "byte8 \<Rightarrow> byte8" where
  "xtime w = push_bit 1 w XOR (if bit w 7 then 0x1D else 0)"

lemma xtime_xor: "xtime (a XOR b) = xtime a XOR xtime b"
  by (rule bit_word_eqI) (auto simp: xtime_def bit_simps)

lemma xtime_0 [simp]: "xtime 0 = 0"
  by (simp add: xtime_def)

definition pw :: "nat \<Rightarrow> byte8" where
  "pw n = (xtime ^^ n) 1"

definition int_step :: "int \<Rightarrow> int" where
  "int_step x = (let x = push_bit 1 x in if x AND 0x100 \<noteq> 0 then x XOR 0x11D else x)"

lemma int_step_table: "list_all (\<lambda>x. (of_int (int_step x) :: byte8) = xtime (of_int x) \<and> 0 \<le> int_step x \<and> int_step x < 256) [0..255]"
  by code_simp

lemma orbit_fold:
  "fold (\<lambda>_ (w, ok). (xtime w, ok \<and> w \<noteq> 1)) xs (w, ok) =
    ((xtime ^^ length xs) w, ok \<and> (\<forall>i<length xs. (xtime ^^ i) w \<noteq> 1))"
proof (induction xs arbitrary: w ok)
  case (Cons x xs)
  have "(\<forall>i<Suc n. P i) \<longleftrightarrow> P 0 \<and> (\<forall>i<n. P (Suc i))" for P and n :: nat
    by (metis less_Suc_eq_0_disj Suc_less_eq zero_less_Suc)
  with Cons show ?case by (simp add: funpow_swap1)
qed simp

lemma orbit_table: "fold (\<lambda>_ (w, ok). (xtime w, ok \<and> w \<noteq> 1)) [0..253] (2 :: byte8, True) = (1, True)"
  by code_simp

lemma pw_0 [simp]: "pw 0 = 1"
  by (simp add: pw_def)

lemma pw_shift: "(xtime ^^ i) (pw n) = pw (i + n)"
  by (simp add: pw_def funpow_add)

lemma pw_255: "pw 255 = 1"
proof -
  have "(xtime ^^ 254) 2 = 1" using orbit_table by (simp add: orbit_fold)
  moreover have "xtime 1 = 2" by code_simp
  ultimately show ?thesis using pw_shift [of 254 1] by (simp add: pw_def)
qed

lemma pw_period [simp]: "pw (n + 255) = pw n"
  using pw_shift [of n 255] pw_shift [of n 0] by (simp add: pw_255)

lemma pw_ne_1: "0 < d \<Longrightarrow> d < 255 \<Longrightarrow> pw d \<noteq> 1"
proof -
  assume d: "0 < d" "d < 255"
  have "\<forall>i<254. (xtime ^^ i) 2 \<noteq> 1" using orbit_table by (simp add: orbit_fold)
  moreover have "xtime 1 = 2" by code_simp
  then have "pw d = (xtime ^^ (d - 1)) 2" using pw_shift [of "d - 1" 1] d by (simp add: pw_def)
  ultimately show ?thesis using d by simp
qed

lemma xtime_eq_0: "xtime w = 0 \<longleftrightarrow> w = 0"
proof -
  have "list_all (\<lambda>x. (xtime (of_int x) = 0) = (x = 0)) [0..255]" by code_simp
  moreover have "uint w \<in> set [0..255]" using uint_lt2p [of w] by simp
  ultimately have "(xtime (of_int (uint w)) = 0) = (uint w = 0)" unfolding list_all_iff by blast
  then show ?thesis by (simp add: uint_0_iff)
qed

lemma xor_0_iff: "a XOR b = 0 \<longleftrightarrow> a = (b :: byte8)"
  by (metis xor.assoc xor_self_eq xor.right_neutral xor.left_neutral)

lemma xtime_inj: "xtime a = xtime b \<longleftrightarrow> a = b"
proof -
  have "xtime a = xtime b \<longleftrightarrow> xtime (a XOR b) = 0" by (simp add: xtime_xor xor_0_iff)
  then show ?thesis by (simp add: xtime_eq_0 xor_0_iff)
qed

lemma xtime_pow_inj: "(xtime ^^ i) a = (xtime ^^ i) b \<longleftrightarrow> a = b"
  by (induction i) (simp_all add: xtime_inj)

lemma xtime_pow_xor: "(xtime ^^ i) (a XOR b) = (xtime ^^ i) a XOR (xtime ^^ i) b"
  by (induction i) (simp_all add: xtime_xor)

lemma xtime_pow_0 [simp]: "(xtime ^^ i) 0 = 0"
  by (induction i) simp_all

lemma pw_nonzero [simp]: "pw n \<noteq> 0"
  using xtime_pow_inj [of n 1 0] by (simp add: pw_def)

lemma pw_inj: "i < 255 \<Longrightarrow> j < 255 \<Longrightarrow> pw i = pw j \<longleftrightarrow> i = j"
proof (induction i j rule: linorder_wlog)
  case (le i j)
  have "pw j = (xtime ^^ i) (pw (j - i))" using le by (simp add: pw_shift)
  then have "pw i = pw j \<longleftrightarrow> pw (j - i) = 1"
    using pw_shift [of i 0] xtime_pow_inj [of i 1 "pw (j - i)"] by auto
  then show ?case using le pw_ne_1 [of "j - i"] by (cases "i = j") auto
qed auto

lemma pw_onto: "w \<noteq> 0 \<Longrightarrow> \<exists>i<255. w = pw i"
proof -
  have "inj_on pw {..<255}" by (rule inj_onI) (simp add: pw_inj)
  then have "card (pw ` {..<255}) = 255" by (simp add: card_image)
  moreover have "card (UNIV - {0 :: byte8}) = 255" by (simp add: card_Diff_singleton card_word)
  ultimately have "pw ` {..<255} = UNIV - {0}" by (intro card_subset_eq) auto
  moreover assume "w \<noteq> 0"
  ultimately show ?thesis by auto
qed

section \<open>What the tables hold\<close>

lemma int_step:
  assumes "0 \<le> x" "x < 256"
  shows "(of_int (int_step x) :: byte8) = xtime (of_int x)" "0 \<le> int_step x" "int_step x < 256"
  using int_step_table assms by (auto simp: list_all_iff)

lemma pw_Suc: "pw (Suc n) = xtime (pw n)"
  by (simp add: pw_def)

lemma int_step_pw: "int_step (uint (pw i)) = uint (pw (Suc i))"
proof -
  have b: "0 \<le> uint (pw i)" "uint (pw i) < 256" using uint_lt2p [of "pw i"] by simp_all
  have "(of_int (int_step (uint (pw i))) :: byte8) = pw (Suc i)" using int_step(1) [OF b] by (simp add: pw_Suc)
  then have "uint (of_int (int_step (uint (pw i))) :: byte8) = uint (pw (Suc i))" by simp
  then show ?thesis using int_step(2,3) [OF b] by (simp add: uint_word_of_int take_bit_int_eq_self)
qed

lemma gf_fill_spec:
  assumes "length e = 512" "length l = 256" "i + n \<le> 255"
  shows "case gf_fill n i (uint (pw i)) (e, l) of (e', l') \<Rightarrow>
    length e' = 512 \<and> length l' = 256 \<and>
    (\<forall>k<512. e' ! k = (if i \<le> k \<and> k < i + n then pw k else e ! k)) \<and>
    (\<forall>k<255. l' ! unat (pw k) = (if i \<le> k \<and> k < i + n then of_nat k else l ! unat (pw k)))"
  using assms
proof (induction n arbitrary: i e l)
  case (Suc n)
  define e1 l1 where "e1 = e[i := pw i]" and "l1 = l[unat (pw i) := of_nat i]"
  have len: "length e1 = 512" "length l1 = 256" using Suc.prems by (simp_all add: e1_def l1_def)
  obtain e' l' where f: "gf_fill n (Suc i) (uint (pw (Suc i))) (e1, l1) = (e', l')" by (rule prod.exhaust)
  have "gf_fill (Suc n) i (uint (pw i)) (e, l) = gf_fill n (Suc i) (int_step (uint (pw i))) (e1, l1)"
    unfolding gf_fill.simps int_step_def Let_def e1_def l1_def by simp
  then have run: "gf_fill (Suc n) i (uint (pw i)) (e, l) = (e', l')" by (simp only: int_step_pw f)
  have IH: "length e' = 512" "length l' = 256"
    "\<And>k. k < 512 \<Longrightarrow> e' ! k = (if Suc i \<le> k \<and> k < Suc i + n then pw k else e1 ! k)"
    "\<And>k. k < 255 \<Longrightarrow> l' ! unat (pw k) = (if Suc i \<le> k \<and> k < Suc i + n then of_nat k else l1 ! unat (pw k))"
    using Suc.IH [of e1 l1 "Suc i", unfolded f prod.case] Suc.prems len by auto
  have small: "unat w < 256" for w :: byte8 using uint_lt2p [of w] by (simp flip: nat_uint_eq)
  have "e' ! k = (if i \<le> k \<and> k < i + Suc n then pw k else e ! k)" if "k < 512" for k
    using IH(3) [OF that] Suc.prems(1) that by (cases "k = i") (auto simp: e1_def nth_list_update)
  moreover have "l' ! unat (pw k) = (if i \<le> k \<and> k < i + Suc n then of_nat k else l ! unat (pw k))" if "k < 255" for k
  proof -
    have "unat (pw k) = unat (pw i) \<longleftrightarrow> k = i" using pw_inj [OF that, of i] Suc.prems(3) by (simp flip: word_unat_eq_iff)
    then show ?thesis using IH(4) [OF that] Suc.prems(2) small [of "pw i"] by (cases "k = i") (auto simp: l1_def nth_list_update)
  qed
  ultimately show ?case unfolding run prod.case using IH(1,2) by blast
qed auto

lemma gf_double_spec:
  assumes "length e = 512" "255 \<le> i" "i + n \<le> 512" "\<forall>k<i. e ! k = pw k"
  shows "length (gf_double n i e) = 512 \<and> (\<forall>k<i + n. gf_double n i e ! k = pw k)"
  using assms
proof (induction n arbitrary: i e)
  case (Suc n)
  have "e ! (i - 255) = pw i" using Suc.prems pw_period [of "i - 255"] by simp
  then have "\<forall>k<Suc i. e[i := e ! (i - 255)] ! k = pw k"
    using Suc.prems by (simp add: nth_list_update less_Suc_eq)
  then show ?case using Suc.IH [of "e[i := e ! (i - 255)]" "Suc i"] Suc.prems by simp
qed simp

lemma gf_tables_spec:
  "\<forall>k<512. gfExp ! k = pw k" "\<forall>k<255. gfLog ! unat (pw k) = of_nat k"
proof -
  obtain e l where f: "gf_fill 255 0 1 (replicate 512 0, replicate 256 0) = (e, l)" by (rule prod.exhaust)
  have "length e = 512" "\<forall>k<255. e ! k = pw k" "\<forall>k<255. l ! unat (pw k) = of_nat k"
    using gf_fill_spec [of "replicate 512 0" "replicate 256 0" 0 255] f by simp_all
  then show "\<forall>k<512. gfExp ! k = pw k" "\<forall>k<255. gfLog ! unat (pw k) = of_nat k"
    using gf_double_spec [of e 255 257] by (simp_all add: gfExp_def gfLog_def gf_tables_def f)
qed

section \<open>The product\<close>

lemma gfMul_zero [simp]: "gfMul 0 b = 0" "gfMul a 0 = 0"
  by (simp_all add: gfMul_def)

lemma gfMul_pw_less: "i < 255 \<Longrightarrow> j < 255 \<Longrightarrow> gfMul (pw i) (pw j) = pw (i + j)"
  using gf_tables_spec by (simp add: gfMul_def unsigned_of_nat take_bit_nat_eq_self)

lemma gfMul_xtime: "gfMul (pw n) b = (xtime ^^ n) b"
proof (induction n rule: less_induct)
  case (less n)
  show ?case
  proof (cases "n < 255")
    case True
    show ?thesis
    proof (cases "b = 0")
      case False
      then obtain j where "j < 255" "b = pw j" using pw_onto by blast
      with True show ?thesis by (simp add: gfMul_pw_less pw_shift)
    qed simp
  next
    case False
    then obtain m where n: "n = m + 255" by (metis le_add_diff_inverse2 not_less)
    have "(xtime ^^ 255) b = b"
      using pw_onto [of b] pw_shift [of 255] by (metis add.commute pw_period xtime_pow_0)
    then show ?thesis using less [of m] n by (simp add: funpow_add)
  qed
qed

lemma gfMul_pw: "gfMul (pw i) (pw j) = pw (i + j)"
  by (simp add: gfMul_xtime pw_shift)

lemma gfMul_commute: "gfMul a b = gfMul b a"
  using pw_onto [of a] pw_onto [of b] by (cases "a = 0 \<or> b = 0") (auto simp: gfMul_pw add.commute)

lemma gfMul_1 [simp]: "gfMul 1 b = b" "gfMul b 1 = b"
  using gfMul_xtime [of 0 b] gfMul_commute [of b 1] by simp_all

lemma gfMul_xor_right: "gfMul a (b XOR c) = gfMul a b XOR gfMul a c"
  using pw_onto [of a] by (cases "a = 0") (auto simp: gfMul_xtime xtime_pow_xor)

lemma gfMul_xor_left: "gfMul (b XOR c) a = gfMul b a XOR gfMul c a"
  by (simp add: gfMul_commute [of _ a] gfMul_xor_right)

lemma gfMul_assoc: "gfMul (gfMul a b) c = gfMul a (gfMul b c)"
proof (cases "a = 0 \<or> b = 0")
  case False
  then obtain i j where ij: "a = pw i" "b = pw j" using pw_onto by meson
  have "gfMul a b = pw (i + j)" by (simp add: ij gfMul_pw)
  then show ?thesis by (simp only:) (simp add: ij gfMul_xtime funpow_add)
qed auto

lemma gfMul_eq_0: "gfMul a b = 0 \<longleftrightarrow> a = 0 \<or> b = 0"
proof (cases "a = 0 \<or> b = 0")
  case False
  then obtain i j where "a = pw i" "b = pw j" using pw_onto by meson
  then show ?thesis by (simp add: gfMul_pw)
qed auto

lemma gfMul_left_commute: "gfMul a (gfMul b c) = gfMul b (gfMul a c)"
  by (simp add: gfMul_assoc [symmetric] gfMul_commute [of a b])

lemmas gfMul_ac = gfMul_assoc gfMul_commute gfMul_left_commute

end
