(* ===== verification/Qr_Solomon.thy ===== *)
theory Qr_Solomon
  imports Qr_Field
begin

text \<open>
  \<^verbatim>\<open>reedSolomon\<close> of \<^verbatim>\<open>internal/account/qr.go\<close>: every block with its error correction vanishes at
  the roots of the generator, and two different blocks differ in more places than they have error
  correction codewords.
\<close>

unbundle bit_operations_syntax

section \<open>The code\<close>

text \<open>The generator, lowest degree first, one factor at a time; the inner loop counts \<open>j\<close> down.\<close>

fun gen_inner :: "nat \<Rightarrow> byte8 \<Rightarrow> byte8 list \<Rightarrow> byte8 list" where
  "gen_inner 0 e gen = gen"
| "gen_inner (Suc j) e gen = gen_inner j e (gen[Suc j := gen ! j XOR gfMul (gen ! Suc j) e])"

definition gen_step :: "nat \<Rightarrow> byte8 list \<Rightarrow> byte8 list" where
  "gen_step i gen =
    (let gen = gen @ [0]; gen = gen_inner (length gen - 1) (gfExp ! i) gen
     in gen[0 := gfMul (gen ! 0) (gfExp ! i)])"

definition generator :: "nat \<Rightarrow> byte8 list" where
  "generator n = rev (fold gen_step [0..<n] [1])"

text \<open>One row of the division, from position \<open>p\<close> of the remainder on.\<close>

fun rs_row :: "byte8 list \<Rightarrow> byte8 \<Rightarrow> nat \<Rightarrow> byte8 list \<Rightarrow> byte8 list" where
  "rs_row [] factor p remainder = remainder"
| "rs_row (g # gen) factor p remainder =
    rs_row gen factor (p + 1) (remainder[p := remainder ! p XOR gfMul g factor])"

definition rs_step :: "byte8 list \<Rightarrow> nat \<Rightarrow> byte8 list \<Rightarrow> byte8 list" where
  "rs_step gen i remainder =
    (let factor = remainder ! i in if factor = 0 then remainder else rs_row gen factor i remainder)"

definition reedSolomon :: "byte8 list \<Rightarrow> nat \<Rightarrow> byte8 list" where
  "reedSolomon data n = drop (length data) (fold (rs_step (generator n)) [0..<length data] (data @ replicate n 0))"

section \<open>Values of polynomials\<close>

text \<open>The value at \<open>x\<close>, lowest degree first, and the sum of two lists.\<close>

fun ev :: "byte8 \<Rightarrow> byte8 list \<Rightarrow> byte8" where
  "ev x [] = 0"
| "ev x (c # cs) = c XOR gfMul x (ev x cs)"

abbreviation xors :: "byte8 list \<Rightarrow> byte8 list \<Rightarrow> byte8 list" where
  "xors \<equiv> map2 (XOR)"

lemma xor_swap: "(a XOR b) XOR (c XOR d) = (a XOR c) XOR (b XOR d :: byte8)"
  by (simp add: ac_simps)

lemma ev_xors: "length p = length q \<Longrightarrow> ev x (xors p q) = ev x p XOR ev x q"
  by (induction p q rule: list_induct2) (simp_all add: gfMul_xor_right xor_swap)

lemma ev_scale: "ev x (map (gfMul f) p) = gfMul f (ev x p)"
  by (induction p) (simp_all add: gfMul_xor_right gfMul_assoc [symmetric] gfMul_commute [of x f])

lemma ev_zeros [simp]: "ev x (replicate n 0) = 0"
  by (induction n) simp_all

lemma ev_zeros_append: "ev x p = 0 \<Longrightarrow> ev x (replicate n 0 @ p) = 0"
  by (induction n) simp_all

lemma ev_append_zeros [simp]: "ev x (p @ replicate n 0) = ev x p"
  by (induction p) simp_all

section \<open>The generator's roots\<close>

lemma length_gen_inner [simp]: "length (gen_inner m e gen) = length gen"
  by (induction m arbitrary: gen) simp_all

lemma gen_inner_nth:
  "m < length gen \<Longrightarrow> k < length gen \<Longrightarrow>
    gen_inner m e gen ! k = (if 1 \<le> k \<and> k \<le> m then gen ! (k - 1) XOR gfMul (gen ! k) e else gen ! k)"
  by (induction m arbitrary: gen) (auto simp: nth_list_update le_Suc_eq)

lemma gen_step_eq:
  assumes "gen \<noteq> []" "i < 255"
  shows "gen_step i gen = xors (0 # gen) (map (gfMul (pw i)) gen @ [0])"
proof (rule nth_equalityI)
  fix k
  assume "k < length (gen_step i gen)"
  then have k: "k \<le> length gen" by (simp add: gen_step_def Let_def)
  have e: "gfExp ! i = pw i" using gf_tables_spec(1) assms(2) by simp
  show "gen_step i gen ! k = xors (0 # gen) (map (gfMul (pw i)) gen @ [0]) ! k"
    using k assms(1)
    by (cases k) (auto simp: gen_step_def Let_def e gen_inner_nth nth_append gfMul_commute [of _ "pw i"])
qed (simp add: gen_step_def Let_def)

lemma ev_gen_step: "gen \<noteq> [] \<Longrightarrow> i < 255 \<Longrightarrow> ev x (gen_step i gen) = gfMul (x XOR pw i) (ev x gen)"
  by (simp add: gen_step_eq ev_xors ev_scale gfMul_xor_left ev_append_zeros [of x _ 1, simplified])

lemma gens:
  assumes "n \<le> 255"
  shows "length (fold gen_step [0..<n] [1]) = Suc n \<and> last (fold gen_step [0..<n] [1]) = 1 \<and>
    (\<forall>k<n. ev (pw k) (fold gen_step [0..<n] [1]) = 0)"
  using assms
proof (induction n)
  case (Suc n)
  let ?g = "fold gen_step [0..<n] [1]"
  have g: "?g \<noteq> []" "length ?g = Suc n" "last ?g = 1" using Suc by auto
  have step: "fold gen_step [0..<Suc n] [1] = gen_step n ?g" by simp
  have eq: "gen_step n ?g = xors (0 # ?g) (map (gfMul (pw n)) ?g @ [0])" using g(1) Suc.prems by (simp add: gen_step_eq)
  have len: "length (gen_step n ?g) = Suc (Suc n)" using g by (simp add: eq)
  have "last (gen_step n ?g) = gen_step n ?g ! Suc n" using len by (subst last_conv_nth) auto
  also have "\<dots> = ?g ! n" using g by (simp add: eq nth_append)
  also have "\<dots> = 1" using g last_conv_nth [of ?g] by simp
  finally have "last (gen_step n ?g) = 1" .
  moreover have "ev (pw k) (gen_step n ?g) = 0" if "k < Suc n" for k
    using that Suc g(1) by (cases "k = n") (auto simp: ev_gen_step)
  ultimately show ?case unfolding step using len by simp
qed simp

lemma generator:
  assumes "n \<le> 255"
  shows "length (generator n) = Suc n" "hd (generator n) = 1" "k < n \<Longrightarrow> ev (pw k) (rev (generator n)) = 0"
proof -
  have "fold gen_step [0..<n] [1] \<noteq> []" using gens [OF assms] by auto
  then show "length (generator n) = Suc n" "hd (generator n) = 1" "k < n \<Longrightarrow> ev (pw k) (rev (generator n)) = 0"
    using gens [OF assms] by (auto simp: generator_def hd_rev)
qed

section \<open>The division\<close>

lemma length_rs_row [simp]: "length (rs_row gen f p r) = length r"
  by (induction gen arbitrary: p r) simp_all

lemma rs_row_nth:
  "p + length gen \<le> length r \<Longrightarrow> k < length r \<Longrightarrow>
    rs_row gen f p r ! k = r ! k XOR (if p \<le> k \<and> k < p + length gen then gfMul (gen ! (k - p)) f else 0)"
proof (induction gen arbitrary: p r)
  case (Cons g gen)
  show ?case
  proof (cases "k \<le> p")
    case True
    then show ?thesis using Cons.IH [of "p + 1" "r[p := r ! p XOR gfMul g f]"] Cons.prems by (auto simp: nth_list_update)
  next
    case False
    then obtain d where "k = p + Suc d" by (metis add_Suc_right less_imp_Suc_add not_le)
    then show ?thesis using Cons.IH [of "p + 1" "r[p := r ! p XOR gfMul g f]"] Cons.prems by simp
  qed
qed auto

lemma rs_row_eq:
  assumes "p + length gen \<le> length r"
  shows "rs_row gen f p r =
    xors r (replicate p 0 @ map (gfMul f) gen @ replicate (length r - (p + length gen)) 0)"
proof (rule nth_equalityI)
  fix k
  assume "k < length (rs_row gen f p r)"
  then show "rs_row gen f p r ! k =
      xors r (replicate p 0 @ map (gfMul f) gen @ replicate (length r - (p + length gen)) 0) ! k"
    using assms by (auto simp: rs_row_nth nth_append gfMul_commute [of _ f])
qed (use assms in simp)

lemma rev_xors: "length p = length q \<Longrightarrow> rev (xors p q) = xors (rev p) (rev q)"
  by (simp add: zip_rev rev_map [symmetric])

lemma rs_row_ev:
  assumes "p + length gen \<le> length r" "ev x (rev gen) = 0"
  shows "ev x (rev (rs_row gen f p r)) = ev x (rev r)"
proof -
  let ?z = "replicate p 0 @ map (gfMul f) gen @ replicate (length r - (p + length gen)) 0"
  have "ev x (rev (map (gfMul f) gen)) = 0" using ev_scale [of x f "rev gen"] assms(2) by (simp add: rev_map)
  then have "ev x (rev ?z) = 0" by (simp add: ev_zeros_append flip: append_assoc)
  moreover have "length ?z = length r" using assms(1) by simp
  ultimately show ?thesis by (simp only: rs_row_eq [OF assms(1)] rev_xors ev_xors length_rev xor.right_neutral)
qed

text \<open>What the loop keeps: the values at the roots, and zeros where it has been.\<close>

definition divided :: "byte8 list \<Rightarrow> nat \<Rightarrow> nat \<Rightarrow> byte8 list \<Rightarrow> bool" where
  "divided r0 n i r \<longleftrightarrow> length r = length r0 \<and> (\<forall>k<n. ev (pw k) (rev r) = ev (pw k) (rev r0)) \<and> (\<forall>j<i. r ! j = 0)"

lemma rs_step_divided:
  assumes "divided r0 n i r" "n \<le> 255" "i + n < length r0"
  shows "divided r0 n (Suc i) (rs_step (generator n) i r)"
proof (cases "r ! i = 0")
  case True
  then show ?thesis using assms(1) by (auto simp: divided_def rs_step_def less_Suc_eq)
next
  case False
  let ?g = "generator n" and ?r = "rs_row (generator n) (r ! i) i r"
  have g: "length ?g = Suc n" "?g ! 0 = 1"
    using generator(1,2) [OF assms(2)] by (cases "generator n"; simp)+
  have fits: "i + length ?g \<le> length r" using assms(1,3) g by (simp add: divided_def)
  have "?r ! j = 0" if "j < Suc i" for j
    using rs_row_nth [OF fits, of j "r ! i"] that assms(1,3) g by (auto simp: divided_def less_Suc_eq)
  moreover have "ev (pw k) (rev ?r) = ev (pw k) (rev r)" if "k < n" for k
    using rs_row_ev [OF fits] generator(3) [OF assms(2) that] by simp
  ultimately show ?thesis using assms(1) False by (simp add: divided_def rs_step_def Let_def)
qed

lemma rs_loop_divided:
  assumes "n \<le> 255" "m + n \<le> length r0"
  shows "divided r0 n m (fold (rs_step (generator n)) [0..<m] r0)"
  using assms(2) by (induction m) (auto simp: divided_def [of _ _ 0] assms(1) intro: rs_step_divided)

lemma length_reedSolomon: "n \<le> 255 \<Longrightarrow> length (reedSolomon data n) = n"
  using rs_loop_divided [of n "length data" "data @ replicate n 0"] by (simp add: reedSolomon_def divided_def)

text \<open>A block and its error correction is a multiple of the generator.\<close>

lemma syndromes:
  assumes "n \<le> 255" "k < n"
  shows "ev (pw k) (rev (data @ reedSolomon data n)) = 0"
proof -
  let ?start = "data @ replicate n 0" and ?ec = "reedSolomon data n"
  let ?r = "fold (rs_step (generator n)) [0..<length data] ?start"
  have d: "divided ?start n (length data) ?r" using assms(1) using rs_loop_divided [of n "length data" ?start] by simp
  have zeros: "take (length data) ?r = replicate (length data) 0"
    using d by (intro nth_equalityI) (simp_all add: divided_def)
  then have r: "?r = replicate (length data) 0 @ ?ec"
    unfolding reedSolomon_def by (metis append_take_drop_id)
  have len: "length ?ec = n" using length_reedSolomon [OF assms(1)] .
  have "data @ ?ec = xors ?start ?r"
    unfolding r using len by (intro nth_equalityI) (auto simp: nth_append)
  then have "ev (pw k) (rev (data @ ?ec)) = ev (pw k) (rev ?start) XOR ev (pw k) (rev ?r)"
    using d by (simp only: divided_def rev_xors ev_xors length_rev)
  then show ?thesis using d assms(2) by (simp add: divided_def)
qed

section \<open>What the code can repair\<close>

text \<open>A polynomial by its non-zero coefficients, each with its exponent.\<close>

fun sparse :: "(byte8 \<times> nat) list \<Rightarrow> nat \<Rightarrow> byte8" where
  "sparse [] k = 0"
| "sparse ((c, e) # ps) k = gfMul c (pw (k * e)) XOR sparse ps k"

lemma sparse_eliminate:
  "sparse (map (\<lambda>(c, e). (gfMul c (pw e XOR w), e)) ps) k = sparse ps (Suc k) XOR gfMul w (sparse ps k)"
proof (induction ps)
  case (Cons p ps)
  obtain c e where p: "p = (c, e)" by (rule prod.exhaust)
  have "gfMul (gfMul c (pw e XOR w)) (pw (k * e)) = gfMul c (pw (Suc k * e)) XOR gfMul w (gfMul c (pw (k * e)))"
    using gfMul_pw [of e "k * e"] by (simp add: gfMul_xor_left gfMul_xor_right gfMul_ac)
  then show ?case using Cons by (simp add: p gfMul_xor_right xor_swap)
qed simp

lemma vandermonde:
  assumes "distinct (map snd ps)" "\<forall>(c, e) \<in> set ps. c \<noteq> 0 \<and> e < 255" "\<forall>k<length ps. sparse ps k = 0"
  shows "ps = []"
  using assms
proof (induction "length ps" arbitrary: ps)
  case (Suc n)
  then obtain c e qs where ps: "ps = (c, e) # qs" "length qs = n" by (cases ps) auto
  let ?qs = "map (\<lambda>(d, f). (gfMul d (pw f XOR pw e), f)) qs"
  have "sparse ?qs k = 0" if "k < n" for k
  proof -
    have "sparse ?qs k = sparse qs (Suc k) XOR gfMul (pw e) (sparse qs k)" by (rule sparse_eliminate)
    also have "\<dots> = sparse ps (Suc k) XOR gfMul (pw e) (sparse ps k)"
      by (simp add: ps gfMul_xor_right gfMul_commute [of "pw e" "gfMul c _"] gfMul_assoc gfMul_pw xor_swap [of "gfMul c _" _ "gfMul c _"] add.commute)
    finally show ?thesis using Suc.prems(3) that ps(2) by (simp add: ps(1) del: sparse.simps)
  qed
  moreover have "\<forall>(d, f) \<in> set ?qs. d \<noteq> 0 \<and> f < 255"
    using Suc.prems(1,2) ps(1) by (force simp: gfMul_eq_0 xor_0_iff pw_inj)
  moreover have "map snd ?qs = map snd qs" by (simp add: case_prod_unfold)
  moreover have "distinct (map snd qs)" using Suc.prems(1) ps(1) by simp
  ultimately have "?qs = []" using ps(2) by (intro Suc.hyps(1)) (auto simp only: length_map)
  then have "sparse ps 0 = c" by (simp add: ps)
  moreover have "sparse ps 0 = 0" using Suc.prems(3) Suc.hyps(2) by (metis zero_less_Suc)
  ultimately show ?case using Suc.prems(2) ps(1) by simp
qed simp

text \<open>In how many places two lists differ.\<close>

definition distance :: "byte8 list \<Rightarrow> byte8 list \<Rightarrow> nat" where
  "distance p q = length (filter (\<lambda>(a, b). a \<noteq> b) (zip p q))"

definition terms :: "byte8 list \<Rightarrow> (byte8 \<times> nat) list" where
  "terms p = filter (\<lambda>(c, e). c \<noteq> 0) (zip p [0..<length p])"

lemma ev_shifted:
  "ev (pw k) p = sparse (filter (\<lambda>(c, e). c \<noteq> 0) (zip p [0..<length p])) k"
proof -
  have "sparse (filter (\<lambda>(c, e). c \<noteq> 0) (zip p [i..<i + length p])) k = gfMul (pw (k * i)) (ev (pw k) p)" for i
  proof (induction p arbitrary: i)
    case (Cons c p)
    have "sparse (filter (\<lambda>(c, e). c \<noteq> 0) (zip (c # p) [i..<i + length (c # p)])) k =
        gfMul c (pw (k * i)) XOR gfMul (pw (k * Suc i)) (ev (pw k) p)"
      using Cons [of "Suc i"] by (simp add: upt_conv_Cons del: upt_Suc)
    then show ?case
      by (simp add: gfMul_xor_right gfMul_commute [of c] gfMul_assoc [symmetric] gfMul_pw add.commute)
  qed simp
  from this [of 0] show ?thesis by simp
qed

lemma few_terms_vanish:
  assumes "length p \<le> 255" "length (terms p) \<le> n" "\<And>k. k < n \<Longrightarrow> ev (pw k) p = 0"
  shows "terms p = []"
proof (rule vandermonde)
  show "distinct (map snd (terms p))"
    unfolding terms_def by (rule distinct_map_filter) simp
  show "\<forall>(c, e) \<in> set (terms p). c \<noteq> 0 \<and> e < 255"
    using assms(1) by (auto simp: terms_def set_zip)
  show "\<forall>k<length (terms p). sparse (terms p) k = 0"
    using assms(2,3) by (auto simp: terms_def ev_shifted [symmetric])
qed

lemma terms_distance: "length p = length q \<Longrightarrow> length (terms (xors p q)) = distance p q"
proof -
  assume len: "length p = length q"
  have "length (filter (\<lambda>(c, e). c \<noteq> 0) (zip r [i..<i + length r])) = length (filter (\<lambda>c. c \<noteq> 0) r)" for r :: "byte8 list" and i
  proof (induction r arbitrary: i)
    case (Cons c r)
    show ?case using Cons [of "Suc i"] by (simp add: upt_conv_Cons del: upt_Suc)
  qed simp
  from this [of "xors p q" 0] have "length (terms (xors p q)) = length (filter (\<lambda>c. c \<noteq> 0) (xors p q))"
    by (simp add: terms_def)
  also have "\<dots> = distance p q" by (simp add: distance_def filter_map comp_def case_prod_unfold xor_0_iff)
  finally show ?thesis .
qed

lemma distance_rev: "length p = length q \<Longrightarrow> distance (rev p) (rev q) = distance p q"
  by (simp add: distance_def zip_rev rev_filter [symmetric])

lemma distance_0: "length p = length q \<Longrightarrow> distance p q = 0 \<longleftrightarrow> p = q"
  by (induction p q rule: list_induct2) (auto simp: distance_def)

lemma distance_triangle:
  "length p = length q \<Longrightarrow> length q = length r \<Longrightarrow> distance p r \<le> distance p q + distance q r"
  by (induction p q r rule: list_induct3) (auto simp: distance_def)

lemma distance_commute: "distance p q = distance q p"
  by (induction p q rule: list_induct2') (auto simp: distance_def)

lemma blocks_far_apart:
  assumes "length a = length b" "length a + n \<le> 255" "a \<noteq> b"
  shows "n < distance (a @ reedSolomon a n) (b @ reedSolomon b n)"
proof (rule ccontr)
  let ?a = "a @ reedSolomon a n" and ?b = "b @ reedSolomon b n"
  assume near: "\<not> n < distance ?a ?b"
  have n: "n \<le> 255" using assms(2) by simp
  have len: "length ?a = length ?b" "length ?a \<le> 255" using assms(1,2) by (simp_all add: length_reedSolomon n)
  let ?d = "xors (rev ?a) (rev ?b)"
  have "terms ?d = []"
  proof (rule few_terms_vanish)
    show "length (terms ?d) \<le> n" using near len by (simp only: terms_distance length_rev distance_rev not_less)
    show "ev (pw k) ?d = 0" if "k < n" for k
      using syndromes [OF n that] len by (simp only: ev_xors length_rev) simp
  qed (use len in simp)
  then have "distance (rev ?a) (rev ?b) = 0" using len by (simp only: terms_distance [symmetric] length_rev list.size)
  then have "?a = ?b" using len by (simp only: distance_rev distance_0)
  then show False using assms(1,3) by simp
qed

text \<open>The smallest block with damage it can repair.\<close>

lemma small_block: "reedSolomon [1] 2 = [3, 2]"
proof -
  have e: "gfExp ! 0 = 1" "gfExp ! Suc 0 = 2"
    using gf_tables_spec(1) by (simp_all add: pw_Suc xtime_def)
  have m: "gfMul b 2 = xtime b" for b using gfMul_xtime [of 1 b] by (simp add: pw_Suc xtime_def gfMul_commute)
  have "generator 2 = [1, 3, 2]"
    by (simp add: generator_def gen_step_def e m xtime_def upt_rec Let_def numeral_eq_Suc)
  then show ?thesis by (simp add: reedSolomon_def rs_step_def numeral_eq_Suc)
qed

text \<open>
  Error correction works. For every block size the program uses, a received block that differs
  from an encoded one in at most half as many codewords as it has error correction codewords
  determines that block: no other block encodes to anything as close.
\<close>

theorem damage_is_repairable:
  assumes "length a = length b" "length a + n \<le> 255" "length r = length a + n"
    and "distance r (a @ reedSolomon a n) \<le> n div 2" "distance r (b @ reedSolomon b n) \<le> n div 2"
  shows "a = b"
proof (rule ccontr)
  assume "a \<noteq> b"
  then have "n < distance (a @ reedSolomon a n) (b @ reedSolomon b n)" using assms(1,2) by (rule_tac blocks_far_apart)
  also have "\<dots> \<le> distance (a @ reedSolomon a n) r + distance r (b @ reedSolomon b n)"
    using assms(1-3) by (intro distance_triangle) (simp_all add: length_reedSolomon)
  also have "\<dots> \<le> n" using assms(4,5) distance_commute [of r "a @ reedSolomon a n"] by simp
  finally show False by simp
qed

lemma damage_is_repairable_witness: "{b. distance [1, 0, 2] ([b] @ reedSolomon [b] 2) \<le> 1} = {1}"
proof -
  have near: "distance [1, 0, 2] ([1] @ reedSolomon [1] 2) = 1" by (simp add: small_block distance_def)
  have "[b] = [1]" if "distance [1, 0, 2] ([b] @ reedSolomon [b] 2) \<le> 1" for b
    using that near by (intro damage_is_repairable [of "[b]" "[1]" 2 "[1, 0, 2]"]) simp_all
  then show ?thesis using near by auto
qed

end
