(* ===== verification/Qr_Code.thy ===== *)
theory Qr_Code
  imports Qr_Solomon Domain_Status Go_Text
begin

text \<open>
  From a payload to codewords (\<^verbatim>\<open>internal/account/qr.go\<close>): the version that fits, the bits, the
  padding, the blocks and their interleaving; and how a reader gets the payload back.
\<close>

section \<open>Versions\<close>

record qrVersionInfo =
  vi_totalCodewords :: nat
  vi_ecPerBlock :: nat
  vi_group1Blocks :: nat
  vi_group1Data :: nat
  vi_group2Blocks :: nat
  vi_group2Data :: nat
  vi_alignment :: "nat list"

definition version_info :: "nat \<Rightarrow> nat \<Rightarrow> nat \<Rightarrow> nat \<Rightarrow> nat \<Rightarrow> nat \<Rightarrow> nat list \<Rightarrow> qrVersionInfo" where
  "version_info t e b d b2 d2 a =
    \<lparr>vi_totalCodewords = t, vi_ecPerBlock = e, vi_group1Blocks = b, vi_group1Data = d, vi_group2Blocks = b2,
     vi_group2Data = d2, vi_alignment = a\<rparr>"

text \<open>The slice has an unused element at index \<open>0\<close>.\<close>

definition qrVersions :: "qrVersionInfo list" where
  "qrVersions =
    [version_info 0 0 0 0 0 0 [],
     version_info 26 10 1 16 0 0 [],
     version_info 44 16 1 28 0 0 [6, 18],
     version_info 70 26 1 44 0 0 [6, 22],
     version_info 100 18 2 32 0 0 [6, 26],
     version_info 134 24 2 43 0 0 [6, 30],
     version_info 172 16 4 27 0 0 [6, 34],
     version_info 196 18 4 31 0 0 [6, 22, 38],
     version_info 242 22 2 38 2 39 [6, 24, 42],
     version_info 292 22 3 36 2 37 [6, 26, 46],
     version_info 346 26 4 43 1 44 [6, 28, 50]]"

definition dataCodewords :: "qrVersionInfo \<Rightarrow> nat" where
  "dataCodewords info = vi_group1Blocks info * vi_group1Data info + vi_group2Blocks info * vi_group2Data info"

definition qrCountBits :: "nat \<Rightarrow> nat" where
  "qrCountBits version = (if version < 10 then 8 else 16)"

definition qr_too_long :: "nat \<Rightarrow> goerror" where
  "qr_too_long n = ErrMessage (''account: '' @ show_nat n @ '' bytes is too long for a QR code at this size'')"

fun fit_loop :: "nat \<Rightarrow> nat list \<Rightarrow> goerror + nat \<times> qrVersionInfo" where
  "fit_loop n [] = Inl (qr_too_long n)"
| "fit_loop n (version # vs) =
    (let info = qrVersions ! version; overhead = 4 + qrCountBits version
     in if (overhead + 8 * n + 7) div 8 \<le> dataCodewords info then Inr (version, info) else fit_loop n vs)"

definition qrFit :: "nat \<Rightarrow> goerror + nat \<times> qrVersionInfo" where
  "qrFit n = fit_loop n [1..<11]"

section \<open>The bit buffer\<close>

text \<open>\<open>add\<close>: \<open>n\<close> bits of a value, most significant first.\<close>

definition bits_add :: "nat \<Rightarrow> nat \<Rightarrow> bool list \<Rightarrow> bool list" where
  "bits_add value n bits = bits @ map (bit value) (rev [0..<n])"

definition bits_bytes :: "bool list \<Rightarrow> byte8 list" where
  "bits_bytes bits =
    fold (\<lambda>(i, b) out. if b then out[i div 8 := out ! (i div 8) OR push_bit (7 - i mod 8) 1] else out)
      (List.enumerate 0 bits) (replicate ((length bits + 7) div 8) 0)"

section \<open>Codewords\<close>

function bits_align :: "bool list \<Rightarrow> bool list" where
  "bits_align bits = (if length bits mod 8 \<noteq> 0 then bits_align (bits_add 0 1 bits) else bits)"
  by pat_completeness auto

termination
  by (relation "measure (\<lambda>bits. (8 - length bits mod 8) mod 8)") (auto simp: bits_add_def mod_Suc)

declare bits_align.simps [simp del]

fun pad_loop :: "nat \<Rightarrow> nat \<Rightarrow> byte8 list \<Rightarrow> byte8 list" where
  "pad_loop 0 i padded = padded"
| "pad_loop (Suc k) i padded = pad_loop k (i + 1) (padded @ [if i mod 2 = 0 then 0xEC else 0x11])"

text \<open>The data codewords: mode, count, payload, terminator, padding.\<close>

definition qr_data :: "string \<Rightarrow> nat \<Rightarrow> qrVersionInfo \<Rightarrow> byte8 list" where
  "qr_data data version info =
    (let bits = bits_add 4 4 [];
         bits = bits_add (length data) (qrCountBits version) bits;
         bits = fold (\<lambda>c. bits_add (byte c) 8) data bits;
         spare = dataCodewords info * 8 - length bits;
         bits = (if spare < 4 then bits_add 0 spare bits else bits_add 0 4 bits);
         padded = bits_bytes (bits_align bits)
     in pad_loop (dataCodewords info - length padded) 0 padded)"

text \<open>The blocks: data and error correction, those of the first group, then those of the second.\<close>

fun cut_blocks :: "nat \<Rightarrow> nat \<Rightarrow> nat \<Rightarrow> byte8 list \<Rightarrow> (byte8 list \<times> byte8 list) list" where
  "cut_blocks 0 width ec padded = []"
| "cut_blocks (Suc k) width ec padded =
    (let d = take width padded in (d, reedSolomon d ec) # cut_blocks k width ec (drop width padded))"

definition qr_blocks :: "qrVersionInfo \<Rightarrow> byte8 list \<Rightarrow> (byte8 list \<times> byte8 list) list" where
  "qr_blocks info padded =
    cut_blocks (vi_group1Blocks info) (vi_group1Data info) (vi_ecPerBlock info) padded @
    cut_blocks (vi_group2Blocks info) (vi_group2Data info) (vi_ecPerBlock info)
      (drop (vi_group1Blocks info * vi_group1Data info) padded)"

definition interleave :: "nat \<Rightarrow> nat \<Rightarrow> (byte8 list \<times> byte8 list) list \<Rightarrow> byte8 list" where
  "interleave maxData ecPerBlock blocks =
    concat (map (\<lambda>i. concat (map (\<lambda>b. if i < length (fst b) then [fst b ! i] else []) blocks)) [0..<maxData]) @
    concat (map (\<lambda>i. map (\<lambda>b. snd b ! i) blocks) [0..<ecPerBlock])"

definition qrCodewords :: "string \<Rightarrow> nat \<Rightarrow> qrVersionInfo \<Rightarrow> byte8 list" where
  "qrCodewords data version info =
    interleave (max (vi_group1Data info) (vi_group2Data info)) (vi_ecPerBlock info)
      (qr_blocks info (qr_data data version info))"

end
