(* ===== verification/Qr_Matrix.thy ===== *)
theory Qr_Matrix
  imports Qr_Code
begin

text \<open>
  The symbol (\<^verbatim>\<open>qrPlace\<close> and below in \<^verbatim>\<open>internal/account/qr.go\<close>): function patterns, the zigzag of
  the data, masks, format information, the penalty and the drawing. \<open>m ! y ! x\<close> is \<^verbatim>\<open>m[y][x]\<close>;
  the second matrix of a pair is \<^verbatim>\<open>reserved\<close>.
\<close>

unbundle bit_operations_syntax

type_synonym QRMatrix = "bool list list"

definition put :: "nat \<Rightarrow> nat \<Rightarrow> bool \<Rightarrow> QRMatrix \<Rightarrow> QRMatrix" where
  "put y x dark m = m[y := (m ! y)[x := dark]]"

type_synonym drawing = "QRMatrix \<times> QRMatrix"

definition qr_set :: "nat \<Rightarrow> nat \<Rightarrow> bool \<Rightarrow> drawing \<Rightarrow> drawing" where
  "qr_set y x dark d = (case d of (m, reserved) \<Rightarrow> (put y x dark m, put y x True reserved))"

section \<open>Function patterns\<close>

definition finder_module :: "nat \<Rightarrow> nat \<times> nat \<Rightarrow> int \<Rightarrow> int \<Rightarrow> drawing \<Rightarrow> drawing" where
  "finder_module n p dy dx d =
    (let y = int (fst p) + dy; x = int (snd p) + dx
     in if y < 0 \<or> y \<ge> int n \<or> x < 0 \<or> x \<ge> int n then d
        else let inRing = dy = 0 \<or> dy = 6 \<or> dx = 0 \<or> dx = 6;
                 inCore = dy \<ge> 2 \<and> dy \<le> 4 \<and> dx \<ge> 2 \<and> dx \<le> 4;
                 outside = dy < 0 \<or> dy > 6 \<or> dx < 0 \<or> dx > 6
             in qr_set (nat y) (nat x) (\<not> outside \<and> (inRing \<or> inCore)) d)"

definition finders :: "nat \<Rightarrow> drawing \<Rightarrow> drawing" where
  "finders n = fold (\<lambda>p. fold (\<lambda>dy. fold (\<lambda>dx. finder_module n p dy dx) [-1..7]) [-1..7]) [(0, 0), (0, n - 7), (n - 7, 0)]"

definition timing :: "nat \<Rightarrow> drawing \<Rightarrow> drawing" where
  "timing n = fold (\<lambda>i d. qr_set i 6 (i mod 2 = 0) (qr_set 6 i (i mod 2 = 0) d)) [8..<n - 8]"

definition alignment_pattern :: "nat \<Rightarrow> nat \<Rightarrow> drawing \<Rightarrow> drawing" where
  "alignment_pattern cy cx =
    fold (\<lambda>dy. fold (\<lambda>dx.
      let ring = dy = -2 \<or> dy = 2 \<or> dx = -2 \<or> dx = 2
      in qr_set (nat (int cy + dy)) (nat (int cx + dx)) (ring \<or> dy = 0 \<and> dx = 0)) [-2..2]) [-2..2]"

definition alignments :: "nat \<Rightarrow> nat list \<Rightarrow> drawing \<Rightarrow> drawing" where
  "alignments n centres =
    fold (\<lambda>cy. fold (\<lambda>cx d.
      if cy = 6 \<and> cx = 6 \<or> cy = 6 \<and> cx = n - 7 \<or> cy = n - 7 \<and> cx = 6 then d
      else alignment_pattern cy cx d) centres) centres"

definition reserve :: "nat \<Rightarrow> nat \<Rightarrow> drawing \<Rightarrow> drawing" where
  "reserve y x d = (case d of (m, reserved) \<Rightarrow> (m, if \<not> reserved ! y ! x then put y x True reserved else reserved))"

definition format_areas :: "nat \<Rightarrow> drawing \<Rightarrow> drawing" where
  "format_areas n d =
    (let d = fold (\<lambda>i d. reserve i 8 (reserve 8 i d)) [0..<9] d
     in fold (\<lambda>i (m, reserved). (m, put (n - 1 - i) 8 True (put 8 (n - 1 - i) True reserved))) [0..<8] d)"

definition qrVersionBits :: "nat \<Rightarrow> int" where
  "qrVersionBits version =
    (let rest = fold (\<lambda>i rest. if rest AND push_bit i 1 \<noteq> 0 then rest XOR push_bit (i - 12) 0x1F25 else rest)
       [17, 16, 15, 14, 13, 12] (push_bit 12 (int version))
     in push_bit 12 (int version) OR rest)"

definition version_areas :: "nat \<Rightarrow> nat \<Rightarrow> drawing \<Rightarrow> drawing" where
  "version_areas version n d =
    (if version \<ge> 7
     then let bits = qrVersionBits version
          in fold (\<lambda>i d. let dark = (drop_bit i bits AND 1 = 1)
               in qr_set (n - 11 + i mod 3) (i div 3) dark (qr_set (i div 3) (n - 11 + i mod 3) dark d)) [0..<18] d
     else d)"

definition qr_size :: "nat \<Rightarrow> nat" where
  "qr_size version = version * 4 + 17"

definition blank_drawing :: "nat \<Rightarrow> drawing" where
  "blank_drawing n = (replicate n (replicate n False), replicate n (replicate n False))"

definition function_patterns :: "nat \<Rightarrow> qrVersionInfo \<Rightarrow> drawing" where
  "function_patterns version info =
    (let n = qr_size version
     in version_areas version n (format_areas n (qr_set (n - 8) 8 True
          (alignments n (vi_alignment info) (timing n (finders n (blank_drawing n)))))))"

section \<open>The data\<close>

definition data_module :: "QRMatrix \<Rightarrow> byte8 list \<Rightarrow> nat \<times> nat \<Rightarrow> QRMatrix \<times> nat \<Rightarrow> QRMatrix \<times> nat" where
  "data_module reserved codewords p s =
    (case p of (y, x) \<Rightarrow> case s of (m, k) \<Rightarrow>
       if reserved ! y ! x then (m, k)
       else (if k < length codewords * 8 then put y x (bit (codewords ! (k div 8)) (7 - k mod 8)) m else m, k + 1))"

text \<open>The right columns of the pairs, from the right edge on; the timing column is stepped over.\<close>

function rights :: "nat \<Rightarrow> nat list" where
  "rights right = (if right > 0 then let right = if right = 6 then 5 else right in right # rights (right - 2) else [])"
  by pat_completeness auto
termination by (relation "measure id") (auto split: if_splits)

declare rights.simps [simp del]

definition data_column :: "QRMatrix \<Rightarrow> byte8 list \<Rightarrow> nat \<Rightarrow> nat \<Rightarrow> QRMatrix \<times> nat \<times> bool \<Rightarrow> QRMatrix \<times> nat \<times> bool" where
  "data_column reserved codewords n right s =
    (case s of (m, k, upward) \<Rightarrow>
       let (m, k) = fold (\<lambda>i s. let y = if upward then n - 1 - i else i
             in data_module reserved codewords (y, right - 1) (data_module reserved codewords (y, right) s)) [0..<n] (m, k)
       in (m, k, \<not> upward))"

definition place_data :: "nat \<Rightarrow> byte8 list \<Rightarrow> drawing \<Rightarrow> QRMatrix" where
  "place_data n codewords d =
    (case d of (m, reserved) \<Rightarrow> fst (fold (data_column reserved codewords n) (rights (n - 1)) (m, 0, True)))"

section \<open>Masks and format information\<close>

definition qrMaskBit :: "nat \<Rightarrow> nat \<Rightarrow> nat \<Rightarrow> bool" where
  "qrMaskBit mk i j =
    (if mk = 0 then (i + j) mod 2 = 0
     else if mk = 1 then i mod 2 = 0
     else if mk = 2 then j mod 3 = 0
     else if mk = 3 then (i + j) mod 3 = 0
     else if mk = 4 then (i div 2 + j div 3) mod 2 = 0
     else if mk = 5 then (i * j) mod 2 + (i * j) mod 3 = 0
     else if mk = 6 then ((i * j) mod 2 + (i * j) mod 3) mod 2 = 0
     else ((i + j) mod 2 + (i * j) mod 3) mod 2 = 0)"

definition qrApplyMask :: "QRMatrix \<Rightarrow> QRMatrix \<Rightarrow> nat \<Rightarrow> QRMatrix" where
  "qrApplyMask src reserved mk =
    map (\<lambda>y. map (\<lambda>x. if reserved ! y ! x then src ! y ! x
        else if qrMaskBit mk y x then \<not> src ! y ! x else src ! y ! x) [0..<length (src ! y)]) [0..<length src]"

definition qrECBits :: int where "qrECBits = 0"

definition qrFormatBits :: "int \<Rightarrow> nat \<Rightarrow> int" where
  "qrFormatBits ec mk =
    (let data = push_bit 3 ec OR int mk;
         rest = fold (\<lambda>i rest. if rest AND push_bit i 1 \<noteq> 0 then rest XOR push_bit (i - 10) 0x537 else rest)
           [14, 13, 12, 11, 10] (push_bit 10 data)
     in (push_bit 10 data OR rest) XOR 0x5412)"

definition format_first :: "nat \<Rightarrow> nat \<times> nat" where
  "format_first i = (if i < 6 then (i, 8) else if i = 6 then (7, 8) else if i = 7 then (8, 8) else if i = 8 then (8, 7)
     else (8, 14 - i))"

definition format_second :: "nat \<Rightarrow> nat \<Rightarrow> nat \<times> nat" where
  "format_second n i = (if i < 8 then (8, n - 1 - i) else (n - 15 + i, 8))"

definition put_at :: "nat \<times> nat \<Rightarrow> bool \<Rightarrow> QRMatrix \<Rightarrow> QRMatrix" where
  "put_at p dark m = put (fst p) (snd p) dark m"

definition qrWriteFormat :: "QRMatrix \<Rightarrow> nat \<Rightarrow> QRMatrix" where
  "qrWriteFormat m mk =
    (let n = length m; bits = qrFormatBits qrECBits mk
     in fold (\<lambda>i m. let dark = (drop_bit i bits AND 1 = 1)
          in put_at (format_second n i) dark (put_at (format_first i) dark m)) [0..<15] m)"

section \<open>The penalty\<close>

definition qrRow :: "QRMatrix \<Rightarrow> nat \<Rightarrow> bool list" where
  "qrRow m i = m ! i"

definition qrCol :: "QRMatrix \<Rightarrow> nat \<Rightarrow> bool list" where
  "qrCol m i = map (\<lambda>y. m ! y ! i) [0..<length m]"

fun qrEqual :: "bool list \<Rightarrow> bool list \<Rightarrow> bool" where
  "qrEqual [] [] = True"
| "qrEqual (a # as) (b # bs) = (if a \<noteq> b then False else qrEqual as bs)"
| "qrEqual _ _ = False"

definition run_score :: "int \<Rightarrow> int" where
  "run_score run = (if run \<ge> 5 then 3 + run - 5 else 0)"

fun run_loop :: "bool list \<Rightarrow> int \<Rightarrow> bool \<Rightarrow> int \<Rightarrow> int" where
  "run_loop [] run prev score = score + run_score run"
| "run_loop (b # line) run prev score =
    (if b = prev then run_loop line (run + 1) prev score else run_loop line 1 b (score + run_score run))"

definition runs_penalty :: "QRMatrix \<Rightarrow> int \<Rightarrow> int" where
  "runs_penalty m =
    fold (\<lambda>i. fold (\<lambda>line score. run_loop (tl line) 1 (hd line) score) [qrRow m i, qrCol m i]) [0..<length m]"

definition blocks_penalty :: "QRMatrix \<Rightarrow> int \<Rightarrow> int" where
  "blocks_penalty m =
    fold (\<lambda>y. fold (\<lambda>x score.
      let a = m ! y ! x; b = m ! y ! (x + 1); c = m ! (y + 1) ! x; d = m ! (y + 1) ! (x + 1)
      in if a = b \<and> b = c \<and> c = d then score + 3 else score) [0..<length m - 1]) [0..<length m - 1]"

definition finder_line :: "bool list" where
  "finder_line = [True, False, True, True, True, False, True]"

definition slice :: "nat \<Rightarrow> nat \<Rightarrow> bool list \<Rightarrow> bool list" where
  "slice i j line = drop i (take j line)"

definition finder_penalty :: "QRMatrix \<Rightarrow> int \<Rightarrow> int" where
  "finder_penalty m =
    (let quiet = [False, False, False, False]; n = length m
     in fold (\<lambda>i. fold (\<lambda>line. fold (\<lambda>j score.
          if \<not> qrEqual (slice j (j + 7) line) finder_line then score
          else let score = (if j \<ge> 4 \<and> qrEqual (slice (j - 4) j line) quiet then score + 40 else score)
               in if j + 11 \<le> n \<and> qrEqual (slice (j + 7) (j + 11) line) quiet then score + 40 else score)
          [0..<n + 1 - 7]) [qrRow m i, qrCol m i]) [0..<n])"

definition contrast_penalty :: "QRMatrix \<Rightarrow> int \<Rightarrow> int" where
  "contrast_penalty m score =
    (let dark = fold (\<lambda>row. fold (\<lambda>v d. if v then d + 1 else d) row) m (0 :: int);
         percent = dark * 100 div (int (length m) * int (length m));
         deviation = (if percent - 50 < 0 then - (percent - 50) else percent - 50)
     in score + deviation div 5 * 10)"

definition qrPenalty :: "QRMatrix \<Rightarrow> int" where
  "qrPenalty m = contrast_penalty m (finder_penalty m (blocks_penalty m (runs_penalty m 0)))"

section \<open>The symbol\<close>

definition qr_candidate :: "drawing \<Rightarrow> nat \<Rightarrow> QRMatrix" where
  "qr_candidate d mk = qrWriteFormat (qrApplyMask (fst d) (snd d) mk) mk"

definition best_mask :: "drawing \<Rightarrow> nat \<Rightarrow> int \<times> QRMatrix \<Rightarrow> int \<times> QRMatrix" where
  "best_mask d mk best =
    (let candidate = qr_candidate d mk; score = qrPenalty candidate
     in if fst best < 0 \<or> score < fst best then (score, candidate) else best)"

definition qrPlace :: "nat \<Rightarrow> qrVersionInfo \<Rightarrow> byte8 list \<Rightarrow> int \<Rightarrow> QRMatrix" where
  "qrPlace version info codewords forceMask =
    (let d = function_patterns version info;
         d = (place_data (qr_size version) codewords d, snd d)
     in if forceMask \<ge> 0 then qr_candidate d (nat forceMask)
        else snd (fold (best_mask d) [0..<8] (-1, [])))"

definition QRCodeMask :: "string \<Rightarrow> int \<Rightarrow> goerror + QRMatrix" where
  "QRCodeMask payload mk =
    (case qrFit (length payload) of
       Inl err \<Rightarrow> Inl err
     | Inr (version, info) \<Rightarrow> Inr (qrPlace version info (qrCodewords payload version info) mk))"

definition QRCode :: "string \<Rightarrow> goerror + QRMatrix" where
  "QRCode payload = QRCodeMask payload (-1)"

section \<open>The drawing\<close>

definition qr_quiet :: nat where "qr_quiet = 4"

text \<open>One unit square per dark module, shifted by the quiet zone.\<close>

definition svg_row :: "nat \<Rightarrow> bool list \<Rightarrow> string" where
  "svg_row y row =
    concat (map (\<lambda>(x, dark). if dark
      then ''M'' @ show_nat (x + qr_quiet) @ '' '' @ show_nat (y + qr_quiet) @ ''h1v1h-1z'' else []) (List.enumerate 0 row))"

definition svg_text :: "QRMatrix \<Rightarrow> string" where
  "svg_text m =
    (let n = show_nat (length m + qr_quiet * 2); q = [CHR 0x22]
     in ''<svg xmlns='' @ q @ ''http://www.w3.org/2000/svg'' @ q @ '' viewBox='' @ q @ ''0 0 '' @ n @ '' '' @ n @ q @
        '' shape-rendering='' @ q @ ''crispEdges'' @ q @ '' role='' @ q @ ''img'' @ q @ '' aria-label='' @ q @
        ''Two-factor enrolment code'' @ q @ ''>'' @
        ''<rect width='' @ q @ n @ q @ '' height='' @ q @ n @ q @ '' fill='' @ q @ ''#ffffff'' @ q @ ''/>'' @
        ''<path fill='' @ q @ ''#000000'' @ q @ '' d='' @ q @
        concat (map (\<lambda>(y, row). svg_row y row) (List.enumerate 0 m)) @ q @ ''/></svg>'')"

definition QRSVG :: "string \<Rightarrow> goerror + string" where
  "QRSVG payload = (case QRCode payload of Inl err \<Rightarrow> Inl err | Inr m \<Rightarrow> Inr (svg_text m))"

end
