(* ===== verification/Qr_Layout.thy ===== *)
theory Qr_Layout
  imports Qr_Matrix
begin

text \<open>
  Which modules of a symbol are reserved, where the data runs, and that there is room for it.
\<close>

section \<open>Grids\<close>

text \<open>What the drawing needs of a square matrix: a module reads back what was last put there.\<close>

definition square :: "nat \<Rightarrow> QRMatrix \<Rightarrow> bool" where
  "square n m \<longleftrightarrow> length m = n \<and> (\<forall>i<n. length (m ! i) = n)"

definition at_module :: "QRMatrix \<Rightarrow> nat \<times> nat \<Rightarrow> bool" where
  "at_module m p = m ! fst p ! snd p"

definition inside :: "nat \<Rightarrow> nat \<times> nat \<Rightarrow> bool" where
  "inside n p \<longleftrightarrow> fst p < n \<and> snd p < n"

locale grid =
  fixes ok :: "'g \<Rightarrow> bool" and within :: "'p \<Rightarrow> bool" and look :: "'g \<Rightarrow> 'p \<Rightarrow> 'b" and paint :: "'p \<Rightarrow> 'b \<Rightarrow> 'g \<Rightarrow> 'g"
  assumes ok_paint: "ok g \<Longrightarrow> ok (paint p b g)"
    and look_paint: "ok g \<Longrightarrow> within p \<Longrightarrow> within q \<Longrightarrow> look (paint p b g) q = (if p = q then b else look g q)"
begin

definition writes :: "('p \<times> 'b) list \<Rightarrow> 'g \<Rightarrow> 'g" where
  "writes ws g = fold (\<lambda>(p, b). paint p b) ws g"

lemma ok_writes: "ok g \<Longrightarrow> ok (writes ws g)"
  by (induction ws arbitrary: g) (auto simp: writes_def ok_paint)

lemma look_writes_other:
  "ok g \<Longrightarrow> \<forall>p \<in> fst ` set ws. within p \<Longrightarrow> within q \<Longrightarrow> q \<notin> fst ` set ws \<Longrightarrow> look (writes ws g) q = look g q"
  by (induction ws arbitrary: g) (auto simp: writes_def ok_paint look_paint)

lemma look_writes:
  assumes "ok g" "\<forall>p \<in> fst ` set ws. within p" "distinct (map fst ws)" "(p, b) \<in> set ws"
  shows "look (writes ws g) p = b"
  using assms
proof (induction ws arbitrary: g)
  case (Cons w ws)
  obtain q c where w: "w = (q, c)" by (rule prod.exhaust)
  show ?case
  proof (cases "p = q \<and> b = c")
    case True
    then have "p \<notin> fst ` set ws" using Cons.prems(3) w by auto
    then have "look (writes ws (paint q c g)) p = look (paint q c g) p"
      using Cons.prems True w by (intro look_writes_other) (auto simp: ok_paint)
    then show ?thesis using Cons.prems(1,2) True w by (simp add: writes_def look_paint)
  next
    case False
    then have "(p, b) \<in> set ws" using Cons.prems(4) w by auto
    then show ?thesis using Cons.IH [of "paint q c g"] Cons.prems w by (simp add: writes_def ok_paint)
  qed
qed simp

end

lemma square_put: "square n m \<Longrightarrow> square n (put y x b m)"
  by (cases "y < n") (auto simp: square_def put_def nth_list_update)

lemma at_put: "square n m \<Longrightarrow> inside n p \<Longrightarrow> inside n q \<Longrightarrow> at_module (put_at p b m) q = (if p = q then b else at_module m q)"
  by (auto simp: square_def at_module_def put_at_def put_def inside_def nth_list_update prod_eq_iff)

interpretation modules: grid "square n" "inside n" at_module put_at for n
  by unfold_locales (auto simp: put_at_def square_put at_put [unfolded put_at_def])

lemma at_put_pair: "square n m \<Longrightarrow> y < n \<Longrightarrow> x < n \<Longrightarrow> inside n q \<Longrightarrow>
    at_module (put y x b m) q = (if q = (y, x) then b else at_module m q)"
  using at_put [of n m "(y, x)" q b] by (auto simp: put_at_def inside_def)

lemma at_pair: "m ! y ! x = at_module m (y, x)"
  by (simp add: at_module_def)

section \<open>Reserved modules\<close>

text \<open>\<open>marks n f S\<close>: \<open>f\<close> keeps the shape of both matrices and reserves exactly \<open>S\<close> besides what was.\<close>

definition drawn :: "nat \<Rightarrow> drawing \<Rightarrow> bool" where
  "drawn n d \<longleftrightarrow> square n (fst d) \<and> square n (snd d)"

definition marks :: "nat \<Rightarrow> (drawing \<Rightarrow> drawing) \<Rightarrow> (nat \<times> nat) set \<Rightarrow> bool" where
  "marks n f S \<longleftrightarrow> (\<forall>d. drawn n d \<longrightarrow> drawn n (f d) \<and>
    (\<forall>p. inside n p \<longrightarrow> at_module (snd (f d)) p = (at_module (snd d) p \<or> p \<in> S)))"

lemma marksI:
  assumes "\<And>d. drawn n d \<Longrightarrow> drawn n (f d)"
    and "\<And>d p. drawn n d \<Longrightarrow> inside n p \<Longrightarrow> at_module (snd (f d)) p = (at_module (snd d) p \<or> p \<in> S)"
  shows "marks n f S"
  unfolding marks_def using assms by blast

lemma marksD:
  "marks n f S \<Longrightarrow> drawn n d \<Longrightarrow> drawn n (f d)"
  "marks n f S \<Longrightarrow> drawn n d \<Longrightarrow> inside n p \<Longrightarrow> at_module (snd (f d)) p = (at_module (snd d) p \<or> p \<in> S)"
  unfolding marks_def by blast+

lemma qr_set_eq: "qr_set y x b d = (put_at (y, x) b (fst d), put_at (y, x) True (snd d))"
  by (simp add: qr_set_def put_at_def split: prod.split)

lemma square_put_at: "square n m \<Longrightarrow> square n (put_at p b m)"
  by (simp add: put_at_def square_put)

lemma marks_set: "y < n \<Longrightarrow> x < n \<Longrightarrow> marks n (qr_set y x b) {(y, x)}"
  by (rule marksI) (auto simp: qr_set_eq drawn_def square_put_at at_put inside_def split: if_splits)

lemma marks_id: "marks n (\<lambda>d. d) {}"
  by (rule marksI) auto

lemma marks_comp: "marks n f S \<Longrightarrow> marks n g T \<Longrightarrow> marks n (\<lambda>d. g (f d)) (S \<union> T)"
  by (rule marksI) (auto simp: marksD)

lemma marks_fold: "(\<And>x. x \<in> set xs \<Longrightarrow> marks n (f x) (S x)) \<Longrightarrow> marks n (fold f xs) (\<Union>x\<in>set xs. S x)"
proof (induction xs)
  case Nil
  then show ?case using marks_id by (simp add: id_def)
next
  case (Cons x xs)
  then have "marks n (\<lambda>d. fold f xs (f x d)) (S x \<union> (\<Union>x\<in>set xs. S x))" by (intro marks_comp) auto
  then show ?case by (simp add: comp_def)
qed

lemma marks_cong: "marks n f S \<Longrightarrow> (\<And>y x. y < n \<Longrightarrow> x < n \<Longrightarrow> (y, x) \<in> S \<longleftrightarrow> (y, x) \<in> T) \<Longrightarrow> marks n f T"
  by (auto simp: marks_def inside_def)

lemma finders_marks:
  assumes "8 \<le> n"
  shows "marks n (finders n) {(y, x). y \<le> 7 \<and> x \<le> 7 \<or> y \<le> 7 \<and> n - 8 \<le> x \<or> n - 8 \<le> y \<and> x \<le> 7}"
proof -
  let ?in = "\<lambda>p dy dx. 0 \<le> int (fst p) + dy \<and> int (fst p) + dy < int n \<and> 0 \<le> int (snd p) + dx \<and> int (snd p) + dx < int n"
  let ?one = "\<lambda>p dy dx. if ?in p dy dx then {(nat (int (fst p) + dy), nat (int (snd p) + dx))} else {}"
  have one: "marks n (finder_module n p dy dx) (?one p dy dx)" for p dy dx
  proof (cases "?in p dy dx")
    case True
    let ?b = "\<not> (dy < 0 \<or> dy > 6 \<or> dx < 0 \<or> dx > 6) \<and>
      (dy = 0 \<or> dy = 6 \<or> dx = 0 \<or> dx = 6 \<or> dy \<ge> 2 \<and> dy \<le> 4 \<and> dx \<ge> 2 \<and> dx \<le> 4)"
    have "finder_module n p dy dx = qr_set (nat (int (fst p) + dy)) (nat (int (snd p) + dx)) ?b"
      using True by (intro ext) (simp add: finder_module_def Let_def)
    then show ?thesis using True by (simp add: marks_set nat_less_iff)
  next
    case False
    then have "finder_module n p dy dx = (\<lambda>d. d)" by (intro ext) (auto simp: finder_module_def Let_def)
    then show ?thesis using False by (simp only: marks_id if_False)
  qed
  have "marks n (finders n) (\<Union>p\<in>set [(0, 0), (0, n - 7), (n - 7, 0)]. \<Union>dy\<in>set [-1..7]. \<Union>dx\<in>set [-1..7]. ?one p dy dx)"
    unfolding finders_def by (intro marks_fold one)
  then show ?thesis
  proof (rule marks_cong)
    fix y x
    assume "y < n" "x < n"
    have near: "(y, x) \<in> (\<Union>dy\<in>set [-1..7]. \<Union>dx\<in>set [-1..7]. ?one p dy dx) \<longleftrightarrow>
        int (fst p) - 1 \<le> int y \<and> int y \<le> int (fst p) + 7 \<and> int (snd p) - 1 \<le> int x \<and> int x \<le> int (snd p) + 7" for p
    proof
      assume "int (fst p) - 1 \<le> int y \<and> int y \<le> int (fst p) + 7 \<and> int (snd p) - 1 \<le> int x \<and> int x \<le> int (snd p) + 7"
      then show "(y, x) \<in> (\<Union>dy\<in>set [-1..7]. \<Union>dx\<in>set [-1..7]. ?one p dy dx)"
        using \<open>y < n\<close> \<open>x < n\<close> by (intro UN_I [of "int y - int (fst p)"] UN_I [of "int x - int (snd p)"]) auto
    qed (auto split: if_splits)
    show "(y, x) \<in> (\<Union>p\<in>set [(0, 0), (0, n - 7), (n - 7, 0)]. \<Union>dy\<in>set [-1..7]. \<Union>dx\<in>set [-1..7]. ?one p dy dx) \<longleftrightarrow>
        (y, x) \<in> {(y, x). y \<le> 7 \<and> x \<le> 7 \<or> y \<le> 7 \<and> n - 8 \<le> x \<or> n - 8 \<le> y \<and> x \<le> 7}"
      unfolding UN_iff [of "(y, x)" _ "set [(0, 0), (0, n - 7), (n - 7, 0)]"] near
      using assms \<open>y < n\<close> \<open>x < n\<close> by auto
  qed
qed

lemma timing_marks: "17 \<le> n \<Longrightarrow> marks n (timing n) {(y, x). y = 6 \<and> 8 \<le> x \<and> x < n - 8 \<or> x = 6 \<and> 8 \<le> y \<and> y < n - 8}"
proof -
  assume n: "17 \<le> n"
  have "marks n (timing n) (\<Union>i\<in>set [8..<n - 8]. {(6, i)} \<union> {(i, 6)})"
    unfolding timing_def using n by (intro marks_fold marks_comp marks_set) auto
  then show ?thesis by (rule marks_cong) auto
qed

lemma alignment_marks:
  assumes "2 \<le> cy" "2 \<le> cx" "cy + 2 < n" "cx + 2 < n"
  shows "marks n (alignment_pattern cy cx) {(y, x). cy - 2 \<le> y \<and> y \<le> cy + 2 \<and> cx - 2 \<le> x \<and> x \<le> cx + 2}"
proof -
  have "marks n (alignment_pattern cy cx) (\<Union>dy\<in>set [-2..2]. \<Union>dx\<in>set [-2..2]. {(nat (int cy + dy), nat (int cx + dx))})"
    unfolding alignment_pattern_def Let_def using assms by (intro marks_fold marks_set) auto
  then show ?thesis
  proof (rule marks_cong)
    fix y x
    show "(y, x) \<in> (\<Union>dy\<in>set [-2..2]. \<Union>dx\<in>set [-2..2]. {(nat (int cy + dy), nat (int cx + dx))}) \<longleftrightarrow>
        (y, x) \<in> {(y, x). cy - 2 \<le> y \<and> y \<le> cy + 2 \<and> cx - 2 \<le> x \<and> x \<le> cx + 2}"
    proof
      assume "(y, x) \<in> {(y, x). cy - 2 \<le> y \<and> y \<le> cy + 2 \<and> cx - 2 \<le> x \<and> x \<le> cx + 2}"
      then show "(y, x) \<in> (\<Union>dy\<in>set [-2..2]. \<Union>dx\<in>set [-2..2]. {(nat (int cy + dy), nat (int cx + dx))})"
        using assms by (intro UN_I [of "int y - int cy"] UN_I [of "int x - int cx"]) auto
    qed (use assms in auto)
  qed
qed

definition under_finder :: "nat \<Rightarrow> nat \<Rightarrow> nat \<Rightarrow> bool" where
  "under_finder n cy cx \<longleftrightarrow> cy = 6 \<and> cx = 6 \<or> cy = 6 \<and> cx = n - 7 \<or> cy = n - 7 \<and> cx = 6"

lemma alignments_marks:
  assumes "\<forall>c \<in> set cs. 2 \<le> c \<and> c + 2 < n"
  shows "marks n (alignments n cs) {(y, x). \<exists>cy \<in> set cs. \<exists>cx \<in> set cs. \<not> under_finder n cy cx \<and>
    cy - 2 \<le> y \<and> y \<le> cy + 2 \<and> cx - 2 \<le> x \<and> x \<le> cx + 2}"
proof -
  let ?S = "\<lambda>cy cx. {(y, x). \<not> under_finder n cy cx \<and> cy - 2 \<le> y \<and> y \<le> cy + 2 \<and> cx - 2 \<le> x \<and> x \<le> cx + 2}"
  have one: "marks n (\<lambda>d. if cy = 6 \<and> cx = 6 \<or> cy = 6 \<and> cx = n - 7 \<or> cy = n - 7 \<and> cx = 6 then d else alignment_pattern cy cx d) (?S cy cx)"
    if "cy \<in> set cs" "cx \<in> set cs" for cy cx
  proof (cases "under_finder n cy cx")
    case True
    then show ?thesis by (simp add: under_finder_def [symmetric] marks_id)
  next
    case False
    then show ?thesis using alignment_marks [of cy cx n] assms that by (simp add: under_finder_def [symmetric])
  qed
  have "marks n (alignments n cs) (\<Union>cy\<in>set cs. \<Union>cx\<in>set cs. ?S cy cx)"
    unfolding alignments_def by (intro marks_fold one)
  then show ?thesis by (rule marks_cong) auto
qed

lemma reserve_marks: "y < n \<Longrightarrow> x < n \<Longrightarrow> marks n (reserve y x) {(y, x)}"
  by (rule marksI)
    (auto simp: reserve_def drawn_def at_pair square_put at_put_pair inside_def split: prod.splits if_splits)

lemma format_marks:
  assumes "17 \<le> n"
  shows "marks n (format_areas n) {(y, x). y = 8 \<and> x \<le> 8 \<or> x = 8 \<and> y \<le> 8 \<or> y = 8 \<and> n - 8 \<le> x \<or> x = 8 \<and> n - 8 \<le> y}"
proof -
  have "marks n (\<lambda>d. reserve i 8 (reserve 8 i d)) ({(8, i)} \<union> {(i, 8)})" if "i < 9" for i
    using that assms by (intro marks_comp reserve_marks) auto
  then have "marks n (fold (\<lambda>i d. reserve i 8 (reserve 8 i d)) [0..<9]) (\<Union>i\<in>set [0..<9]. {(8, i)} \<union> {(i, 8)})"
    by (intro marks_fold) simp
  moreover have "marks n (\<lambda>(m, reserved). (m, put (n - 1 - i) 8 True (put 8 (n - 1 - i) True reserved))) ({(8, n - 1 - i), (n - 1 - i, 8)})" if "i < 8" for i
    using assms that
    by (intro marksI) (auto simp: drawn_def square_put inside_def at_put_pair [where n = n] split: prod.splits if_splits)
  then have "marks n (fold (\<lambda>i (m, reserved). (m, put (n - 1 - i) 8 True (put 8 (n - 1 - i) True reserved))) [0..<8])
      (\<Union>i\<in>set [0..<8]. {(8, n - 1 - i), (n - 1 - i, 8)})"
    by (intro marks_fold) simp
  ultimately have "marks n (format_areas n) ((\<Union>i\<in>set [0..<9]. {(8, i)} \<union> {(i, 8)}) \<union> (\<Union>i\<in>set [0..<8]. {(8, n - 1 - i), (n - 1 - i, 8)}))"
    unfolding format_areas_def Let_def by (rule marks_comp)
  then show ?thesis
  proof (rule marks_cong)
    fix y x
    assume "y < n" "x < n"
    have edge: "(\<exists>i < 8. z = n - 1 - i) \<longleftrightarrow> n - 8 \<le> z" if "z < n" for z
    proof
      assume "n - 8 \<le> z"
      then show "\<exists>i < 8. z = n - 1 - i" using that assms by (intro exI [of _ "n - 1 - z"]) auto
    qed (use assms in auto)
    have "(y, x) \<in> (\<Union>i\<in>set [0..<8]. {(8, n - 1 - i), (n - 1 - i, 8)}) \<longleftrightarrow>
        y = 8 \<and> (\<exists>i < 8. x = n - 1 - i) \<or> x = 8 \<and> (\<exists>i < 8. y = n - 1 - i)"
      unfolding UN_iff set_upt by (auto simp only: atLeastLessThan_iff insert_iff empty_iff prod.inject)
    moreover have "(y, x) \<in> (\<Union>i\<in>set [0..<9]. {(8, i)} \<union> {(i, 8)}) \<longleftrightarrow> y = 8 \<and> x \<le> 8 \<or> x = 8 \<and> y \<le> 8" by auto
    ultimately show "(y, x) \<in> (\<Union>i\<in>set [0..<9]. {(8, i)} \<union> {(i, 8)}) \<union> (\<Union>i\<in>set [0..<8]. {(8, n - 1 - i), (n - 1 - i, 8)}) \<longleftrightarrow>
        (y, x) \<in> {(y, x). y = 8 \<and> x \<le> 8 \<or> x = 8 \<and> y \<le> 8 \<or> y = 8 \<and> n - 8 \<le> x \<or> x = 8 \<and> n - 8 \<le> y}"
      unfolding Un_iff edge [OF \<open>y < n\<close>] edge [OF \<open>x < n\<close>] by blast
  qed
qed

lemma version_marks:
  assumes "21 \<le> n"
  shows "marks n (version_areas version n) {(y, x). 7 \<le> version \<and>
    (y < 6 \<and> n - 11 \<le> x \<and> x < n - 8 \<or> x < 6 \<and> n - 11 \<le> y \<and> y < n - 8)}"
proof (cases "7 \<le> version")
  case True
  let ?p = "\<lambda>i. (i div 3, n - 11 + i mod 3)" and ?q = "\<lambda>i. (n - 11 + i mod 3, i div 3)"
  have bounds: "i div 3 < n \<and> n - 11 + i mod 3 < n" if "i < 18" for i
  proof -
    have "i div 3 < 6" "i mod 3 < 3" using that by auto
    then show ?thesis using assms by linarith
  qed
  have "marks n (version_areas version n) (\<Union>i\<in>set [0..<18]. {?p i} \<union> {?q i})"
    unfolding version_areas_def Let_def if_P [OF True]
    by (intro marks_fold marks_comp marks_set) (use bounds in auto)
  then show ?thesis
  proof (rule marks_cong)
    fix y x
    have cell: "(\<exists>i < 18. a = i div 3 \<and> b = n - 11 + i mod 3) \<longleftrightarrow> a < 6 \<and> n - 11 \<le> b \<and> b < n - 8" for a b
    proof
      assume ab: "a < 6 \<and> n - 11 \<le> b \<and> b < n - 8"
      then obtain d where d: "b = n - 11 + d" "d < 3" using assms by (rule_tac that [of "b - (n - 11)"]) auto
      then show "\<exists>i < 18. a = i div 3 \<and> b = n - 11 + i mod 3" using ab by (intro exI [of _ "3 * a + d"]) simp
    next
      assume "\<exists>i < 18. a = i div 3 \<and> b = n - 11 + i mod 3"
      then obtain i where "i < 18" "a = i div 3" "b = n - 11 + i mod 3" by blast
      moreover have "i mod 3 < 3" by simp
      ultimately show "a < 6 \<and> n - 11 \<le> b \<and> b < n - 8" using assms by auto
    qed
    have "(y, x) \<in> (\<Union>i\<in>set [0..<18]. {?p i} \<union> {?q i}) \<longleftrightarrow>
        (\<exists>i < 18. y = i div 3 \<and> x = n - 11 + i mod 3) \<or> (\<exists>i < 18. x = i div 3 \<and> y = n - 11 + i mod 3)"
      unfolding UN_iff set_upt by (auto simp only: atLeastLessThan_iff insert_iff empty_iff prod.inject Un_iff)
    then show "(y, x) \<in> (\<Union>i\<in>set [0..<18]. {?p i} \<union> {?q i}) \<longleftrightarrow> (y, x) \<in> {(y, x). 7 \<le> version \<and>
        (y < 6 \<and> n - 11 \<le> x \<and> x < n - 8 \<or> x < 6 \<and> n - 11 \<le> y \<and> y < n - 8)}"
      using True unfolding cell by simp
  qed
next
  case False
  then have "version_areas version n = (\<lambda>d. d)" by (intro ext) (simp add: version_areas_def)
  then show ?thesis using False marks_id [of n] by simp
qed

text \<open>The reserved columns of row \<open>y\<close>, as intervals.\<close>

definition intervals :: "nat \<Rightarrow> nat list \<Rightarrow> nat \<Rightarrow> (int \<times> int) list" where
  "intervals v cs y =
    (let n = int (qr_size v); y = int y
     in (if y \<le> 8 then [(0, 8), (n - 8, n - 1)] else []) @ (if n - 8 \<le> y then [(0, 8)] else []) @
        (if y = 6 then [(0, n - 1)] else []) @ [(6, 6)] @
        concat (map (\<lambda>cy. if int cy - 2 \<le> y \<and> y \<le> int cy + 2
          then concat (map (\<lambda>cx. if under_finder (qr_size v) cy cx then [] else [(int cx - 2, int cx + 2)]) cs) else []) cs) @
        (if 7 \<le> v \<and> y \<le> 5 then [(n - 11, n - 9)] else []) @
        (if 7 \<le> v \<and> n - 11 \<le> y \<and> y \<le> n - 9 then [(0, 5)] else []))"

definition taken :: "nat \<Rightarrow> nat list \<Rightarrow> nat \<Rightarrow> nat \<Rightarrow> bool" where
  "taken v cs y x = list_ex (\<lambda>(lo, hi). lo \<le> int x \<and> int x \<le> hi) (intervals v cs y)"

lemma list_ex_when: "list_ex P (if c then xs else []) \<longleftrightarrow> c \<and> list_ex P xs"
  by simp

lemma list_ex_pairs:
  "list_ex P (concat (map (\<lambda>a. if A a then concat (map (\<lambda>b. if B a b then [] else [f b]) bs) else []) as)) \<longleftrightarrow>
    (\<exists>a \<in> set as. A a \<and> (\<exists>b \<in> set bs. \<not> B a b \<and> P (f b)))"
  by (auto simp: list_ex_iff)

lemma square_replicate: "square n (replicate n (replicate n b))"
  by (simp add: square_def)

lemma corners:
  fixes n y x :: nat
  assumes "21 \<le> n" "y < n" "x < n"
  shows "(y \<le> 7 \<and> x \<le> 7 \<or> y \<le> 7 \<and> n - 8 \<le> x \<or> n - 8 \<le> y \<and> x \<le> 7) \<or>
      (y = 6 \<and> 8 \<le> x \<and> x < n - 8 \<or> x = 6 \<and> 8 \<le> y \<and> y < n - 8) \<or> (y = n - 8 \<and> x = 8) \<or>
      (y = 8 \<and> x \<le> 8 \<or> x = 8 \<and> y \<le> 8 \<or> y = 8 \<and> n - 8 \<le> x \<or> x = 8 \<and> n - 8 \<le> y) \<longleftrightarrow>
    (y \<le> 8 \<and> (x \<le> 8 \<or> n - 8 \<le> x)) \<or> (n - 8 \<le> y \<and> x \<le> 8) \<or> y = 6 \<or> x = 6"
  using assms by presburger

lemma regroup: "(F \<or> T \<or> D \<or> G) = C \<Longrightarrow> t = (C \<or> A \<or> V) \<Longrightarrow> (((((F \<or> T) \<or> A) \<or> D) \<or> G) \<or> V) = t"
  by blast

lemma reserved_modules:
  assumes v: "1 \<le> v" and cs: "\<forall>c \<in> set (vi_alignment info). 2 \<le> c \<and> c + 2 < qr_size v"
  shows "drawn (qr_size v) (function_patterns v info)"
    "y < qr_size v \<Longrightarrow> x < qr_size v \<Longrightarrow> snd (function_patterns v info) ! y ! x = taken v (vi_alignment info) y x"
proof -
  let ?n = "qr_size v" and ?cs = "vi_alignment info"
  have n: "21 \<le> ?n" using v by (simp add: qr_size_def)
  have b: "drawn ?n (blank_drawing ?n)" by (simp add: drawn_def blank_drawing_def square_replicate)
  note all = marks_comp [OF marks_comp [OF marks_comp [OF marks_comp [OF marks_comp [OF finders_marks timing_marks]
    alignments_marks [OF cs]] marks_set [of "?n - 8" ?n 8 True]] format_marks] version_marks [of ?n v]]
  have m: "marks ?n (\<lambda>d. version_areas v ?n (format_areas ?n (qr_set (?n - 8) 8 True
      (alignments ?n ?cs (timing ?n (finders ?n d)))))) {(y, x). taken v ?cs y x}"
  proof (rule marks_cong [OF all])
    fix y x
    assume "y < ?n" "x < ?n"
    have near: "int c - 2 \<le> int z \<and> int z \<le> int c + 2 \<longleftrightarrow> c - 2 \<le> z \<and> z \<le> c + 2" for c z by auto
    let ?al = "\<exists>cy \<in> set ?cs. \<exists>cx \<in> set ?cs. \<not> under_finder ?n cy cx \<and>
      cy - 2 \<le> y \<and> y \<le> cy + 2 \<and> cx - 2 \<le> x \<and> x \<le> cx + 2"
    have al: "list_ex (\<lambda>(lo, hi). lo \<le> int x \<and> int x \<le> hi)
        (concat (map (\<lambda>cy. if int cy - 2 \<le> int y \<and> int y \<le> int cy + 2
          then concat (map (\<lambda>cx. if under_finder ?n cy cx then [] else [(int cx - 2, int cx + 2)]) ?cs) else []) ?cs)) = ?al"
      unfolding list_ex_pairs prod.case near by blast
    have edges: "int ?n - 8 \<le> int z \<longleftrightarrow> ?n - 8 \<le> z" "int ?n - 11 \<le> int z \<longleftrightarrow> ?n - 11 \<le> z" "int z \<le> int ?n - 9 \<longleftrightarrow> z < ?n - 8"
      "int z \<le> 8 \<longleftrightarrow> z \<le> 8" "int z \<le> 5 \<longleftrightarrow> z < 6" "0 \<le> int z \<longleftrightarrow> True" "int x \<le> int ?n - 1 \<longleftrightarrow> True"
      "int y = 6 \<longleftrightarrow> y = 6" "6 \<le> int x \<and> int x \<le> 6 \<longleftrightarrow> x = 6" for z
      using n \<open>x < ?n\<close> by auto
    have t: "taken v ?cs y x \<longleftrightarrow> ((y \<le> 8 \<and> (x \<le> 8 \<or> ?n - 8 \<le> x)) \<or> (?n - 8 \<le> y \<and> x \<le> 8) \<or> y = 6 \<or> x = 6) \<or> ?al \<or>
        7 \<le> v \<and> (y < 6 \<and> ?n - 11 \<le> x \<and> x < ?n - 8 \<or> x < 6 \<and> ?n - 11 \<le> y \<and> y < ?n - 8)"
      unfolding taken_def intervals_def Let_def list_ex_append al list_ex_when list_ex_Nil_iff list_ex_Cons_iff prod.case edges by blast
    show "(y, x) \<in> {(y, x). y \<le> 7 \<and> x \<le> 7 \<or> y \<le> 7 \<and> ?n - 8 \<le> x \<or> ?n - 8 \<le> y \<and> x \<le> 7} \<union>
        {(y, x). y = 6 \<and> 8 \<le> x \<and> x < ?n - 8 \<or> x = 6 \<and> 8 \<le> y \<and> y < ?n - 8} \<union>
        {(y, x). \<exists>cy \<in> set ?cs. \<exists>cx \<in> set ?cs. \<not> under_finder ?n cy cx \<and>
          cy - 2 \<le> y \<and> y \<le> cy + 2 \<and> cx - 2 \<le> x \<and> x \<le> cx + 2} \<union> {(?n - 8, 8)} \<union>
        {(y, x). y = 8 \<and> x \<le> 8 \<or> x = 8 \<and> y \<le> 8 \<or> y = 8 \<and> ?n - 8 \<le> x \<or> x = 8 \<and> ?n - 8 \<le> y} \<union>
        {(y, x). 7 \<le> v \<and> (y < 6 \<and> ?n - 11 \<le> x \<and> x < ?n - 8 \<or> x < 6 \<and> ?n - 11 \<le> y \<and> y < ?n - 8)} \<longleftrightarrow>
        (y, x) \<in> {(y, x). taken v ?cs y x}"
      unfolding Un_iff mem_Collect_eq prod.case insert_iff empty_iff prod.inject simp_thms
      by (rule regroup [OF corners [OF n \<open>y < ?n\<close> \<open>x < ?n\<close>] t])
  qed (use n in simp_all)
  have f: "function_patterns v info = version_areas v ?n (format_areas ?n (qr_set (?n - 8) 8 True
      (alignments ?n ?cs (timing ?n (finders ?n (blank_drawing ?n))))))"
    by (simp add: function_patterns_def Let_def)
  show "drawn ?n (function_patterns v info)" unfolding f by (rule marksD(1) [OF m b])
  show "snd (function_patterns v info) ! y ! x = taken v ?cs y x" if "y < ?n" "x < ?n"
    using marksD(2) [OF m b, of "(y, x)"] that unfolding f
    by (simp add: inside_def at_module_def blank_drawing_def)
qed

section \<open>The data path\<close>

fun path_columns :: "nat \<Rightarrow> nat list \<Rightarrow> bool \<Rightarrow> (nat \<times> nat) list" where
  "path_columns n [] upward = []"
| "path_columns n (r # rs) upward =
    concat (map (\<lambda>i. let y = if upward then n - 1 - i else i in [(y, r), (y, r - 1)]) [0..<n]) @ path_columns n rs (\<not> upward)"

definition qr_path :: "nat \<Rightarrow> (nat \<times> nat) list" where
  "qr_path n = path_columns n (rights (n - 1)) True"

abbreviation pair_columns :: "nat list \<Rightarrow> nat list" where
  "pair_columns rs \<equiv> concat (map (\<lambda>r. [r, r - 1]) rs)"

lemma pair_columns_rights: "pair_columns (rights (6 + 2 * k)) = rev [7..<7 + 2 * k] @ rev [0..<6]"
proof (induction k)
  case 0
  have "rights 6 = [5, 3, 1]" by (simp add: rights.simps)
  then show ?case by (simp add: upt_rec)
next
  case (Suc k)
  have "rights (6 + 2 * Suc k) = (8 + 2 * k) # rights (6 + 2 * k)"
    by (subst rights.simps) simp
  moreover have "[7..<7 + 2 * Suc k] = [7..<7 + 2 * k] @ [7 + 2 * k, 8 + 2 * k]"
    using upt_Suc [of 7 "7 + 2 * k"] upt_Suc [of 7 "8 + 2 * k"] by simp
  ultimately show ?case using Suc by simp
qed

lemma path_columns_set: "(y, x) \<in> set (path_columns n rs upward) \<longleftrightarrow> y < n \<and> x \<in> set (pair_columns rs)"
proof (induction rs arbitrary: upward)
  case (Cons r rs)
  have "(\<exists>i<n. y = (if upward then n - 1 - i else i)) \<longleftrightarrow> y < n"
    by (cases upward) (auto intro: exI [of _ "n - 1 - y"])
  then have "(y, x) \<in> set (concat (map (\<lambda>i. let y = if upward then n - 1 - i else i in [(y, r), (y, r - 1)]) [0..<n])) \<longleftrightarrow>
      y < n \<and> (x = r \<or> x = r - 1)"
    by (auto simp: Let_def)
  then show ?case using Cons [of "\<not> upward"] by auto
qed simp

lemma path_columns_distinct: "distinct (pair_columns rs) \<Longrightarrow> distinct (path_columns n rs upward)"
proof (induction rs arbitrary: upward)
  case (Cons r rs)
  have inj: "inj_on (\<lambda>i. if upward then n - 1 - i else i) {..<n}" by (auto simp: inj_on_def)
  have one: "distinct (concat (map (\<lambda>i. let y = if upward then n - 1 - i else i in [(y, r), (y, r - 1)]) [0..<m]))" if "m \<le> n" for m
    using that
  proof (induction m)
    case (Suc m)
    then have "(if upward then n - 1 - i else i) \<noteq> (if upward then n - 1 - m else m)" if "i < m" for i
      using inj_onD [OF inj, of i m] that by auto
    moreover have "r \<noteq> r - 1" using Cons.prems by auto
    ultimately show ?case using Suc by (auto simp: Let_def)
  qed simp
  have "set (concat (map (\<lambda>i. let y = if upward then n - 1 - i else i in [(y, r), (y, r - 1)]) [0..<n])) \<inter>
      set (path_columns n rs (\<not> upward)) = {}"
    using Cons.prems path_columns_set [of _ _ n rs "\<not> upward"] by (auto simp: Let_def)
  then show ?case using one [of n] Cons by simp
qed simp

lemma qr_path:
  assumes "1 \<le> v"
  shows "distinct (qr_path (qr_size v))" "set (qr_path (qr_size v)) = {(y, x). y < qr_size v \<and> x < qr_size v \<and> x \<noteq> 6}"
proof -
  define k where "k = 2 * v + 5"
  have n: "qr_size v = 7 + 2 * k" "qr_size v - 1 = 6 + 2 * k" by (simp_all add: qr_size_def k_def)
  have path: "qr_path (qr_size v) = path_columns (qr_size v) (rights (6 + 2 * k)) True" by (simp only: qr_path_def n(2))
  have "distinct (pair_columns (rights (6 + 2 * k)))" unfolding pair_columns_rights by auto
  then show "distinct (qr_path (qr_size v))" unfolding path by (rule path_columns_distinct)
  have "x \<in> set (pair_columns (rights (6 + 2 * k))) \<longleftrightarrow> x < qr_size v \<and> x \<noteq> 6" for x
    unfolding pair_columns_rights n(1) by auto
  then show "set (qr_path (qr_size v)) = {(y, x). y < qr_size v \<and> x < qr_size v \<and> x \<noteq> 6}"
    unfolding path by (intro set_eqI) (simp only: split_paired_all path_columns_set mem_Collect_eq prod.case)
qed

section \<open>Room for the data\<close>

definition row_room :: "int \<Rightarrow> (int \<times> int) list \<Rightarrow> nat" where
  "row_room n is = length (filter (\<lambda>x. \<not> list_ex (\<lambda>(lo, hi). lo \<le> x \<and> x \<le> hi) is) [0..n - 1])"

lemma row_room: "row_room (int n) (intervals v cs y) = card {x. x < n \<and> \<not> taken v cs y x}"
proof -
  have "distinct (filter (\<lambda>x. \<not> list_ex (\<lambda>(lo, hi). lo \<le> x \<and> x \<le> hi) (intervals v cs y)) [0..int n - 1])" by simp
  then have "row_room (int n) (intervals v cs y) =
      card {x. 0 \<le> x \<and> x < int n \<and> \<not> list_ex (\<lambda>(lo, hi). lo \<le> x \<and> x \<le> hi) (intervals v cs y)}"
    unfolding row_room_def by (subst distinct_card [symmetric]) (auto intro: arg_cong [of _ _ card])
  also have "\<dots> = card (int ` {x. x < n \<and> \<not> taken v cs y x})"
    by (rule arg_cong [of _ _ card]) (force simp: taken_def image_iff zero_le_imp_eq_int dest: zero_le_imp_eq_int)
  also have "\<dots> = card {x. x < n \<and> \<not> taken v cs y x}" by (simp add: card_image)
  finally show ?thesis .
qed

definition room :: "nat \<Rightarrow> nat list \<Rightarrow> nat" where
  "room v cs = sum_list (map (\<lambda>y. row_room (int (qr_size v)) (intervals v cs y)) [0..<qr_size v])"

lemma room_path:
  assumes "1 \<le> v"
  shows "length (filter (\<lambda>(y, x). \<not> taken v cs y x) (qr_path (qr_size v))) = room v cs"
proof -
  let ?n = "qr_size v"
  have six: "taken v cs y 6" for y by (simp add: taken_def intervals_def Let_def)
  have "length (filter (\<lambda>(y, x). \<not> taken v cs y x) (qr_path ?n)) = card (SIGMA y:{..<?n}. {x. x < ?n \<and> \<not> taken v cs y x})"
  proof -
    have "set (filter (\<lambda>(y, x). \<not> taken v cs y x) (qr_path ?n)) = (SIGMA y:{..<?n}. {x. x < ?n \<and> \<not> taken v cs y x})"
      using qr_path(2) [OF assms] six by auto
    moreover have "distinct (filter (\<lambda>(y, x). \<not> taken v cs y x) (qr_path ?n))" using qr_path(1) [OF assms] by simp
    ultimately show ?thesis by (metis distinct_card)
  qed
  also have "\<dots> = (\<Sum>y<?n. card {x. x < ?n \<and> \<not> taken v cs y x})" by simp
  also have "\<dots> = room v cs" by (simp add: room_def row_room sum_list_distinct_conv_sum_set atLeast0LessThan)
  finally show ?thesis .
qed

end
