(* ===== verification/Qr_Blocks.thy ===== *)
theory Qr_Blocks
  imports Qr_Code
begin

text \<open>
  Reading codewords back: the interleaved blocks are dealt out again, the bits joined, and the
  payload is found behind its length.
\<close>

section \<open>Bits\<close>

definition nat_bits :: "nat \<Rightarrow> nat \<Rightarrow> bool list" where
  "nat_bits value n = map (bit value) (rev [0..<n])"

definition of_bits :: "bool list \<Rightarrow> nat" where
  "of_bits bs = foldl (\<lambda>a b. 2 * a + of_bool b) 0 bs"

definition bits_of :: "byte8 list \<Rightarrow> bool list" where
  "bits_of ws = concat (map (\<lambda>w. map (bit w) (rev [0..<8])) ws)"

lemma nat_bits_Suc: "nat_bits v (Suc n) = bit v n # nat_bits v n"
  by (simp add: nat_bits_def)

lemma length_nat_bits [simp]: "length (nat_bits v n) = n"
  by (simp add: nat_bits_def)

lemma of_bits_nat_bits: "of_bits (nat_bits v n) = v mod 2 ^ n"
proof -
  have "foldl (\<lambda>a b. 2 * a + of_bool b) a (nat_bits v n) = a * 2 ^ n + v mod 2 ^ n" for a
  proof (induction n arbitrary: a)
    case (Suc n)
    have "v mod 2 ^ Suc n = of_bool (bit v n) * 2 ^ n + v mod 2 ^ n"
      using mod_mult2_eq [of v "2 ^ n" 2] by (simp add: bit_iff_odd mult.commute flip: mod_2_eq_odd)
    then show ?case using Suc by (simp add: nat_bits_Suc algebra_simps)
  qed (simp add: nat_bits_def)
  from this [of 0] show ?thesis by (simp add: of_bits_def)
qed

lemma bits_of_simps [simp]: "bits_of [] = []" "bits_of (w # ws) = map (bit w) (rev [0..<8]) @ bits_of ws"
  "bits_of (us @ ws) = bits_of us @ bits_of ws"
  by (simp_all add: bits_of_def)

lemma length_bits_of [simp]: "length (bits_of ws) = 8 * length ws"
  by (induction ws) simp_all

lemma bits_of_nth: "k < 8 * length ws \<Longrightarrow> bits_of ws ! k = bit (ws ! (k div 8)) (7 - k mod 8)"
proof (induction ws arbitrary: k)
  case (Cons w ws)
  show ?case
  proof (cases "k < 8")
    case True
    then show ?thesis by (simp add: nth_append rev_nth del: upt_rec_numeral)
  next
    case False
    then obtain j where j: "k = j + 8" by (metis le_add_diff_inverse2 not_less)
    then have "k div 8 = Suc (j div 8)" "k mod 8 = j mod 8" by simp_all
    with Cons j show ?thesis by (simp add: nth_append del: upt_rec_numeral)
  qed
qed simp

lemma bits_bytes_bits:
  fixes bits :: "bool list"
  defines "f \<equiv> \<lambda>(i, b) out. if b then out[i div 8 := out ! (i div 8) OR push_bit (7 - i mod 8) 1] else (out :: byte8 list)"
  assumes "m \<le> length bits"
  shows "length (fold f (List.enumerate 0 (take m bits)) (replicate ((length bits + 7) div 8) 0)) = (length bits + 7) div 8 \<and>
    (\<forall>k < 8 * ((length bits + 7) div 8).
      bit (fold f (List.enumerate 0 (take m bits)) (replicate ((length bits + 7) div 8) 0) ! (k div 8)) (7 - k mod 8) \<longleftrightarrow> k < m \<and> bits ! k)"
  using assms(2)
proof (induction m)
  case 0
  then show ?case by (auto simp: less_mult_imp_div_less mult.commute)
next
  case (Suc m)
  let ?n = "(length bits + 7) div 8"
  define out where "out = fold f (List.enumerate 0 (take m bits)) (replicate ?n 0)"
  have step: "fold f (List.enumerate 0 (take (Suc m) bits)) (replicate ?n 0) = f (m, bits ! m) out"
    using Suc.prems by (simp add: take_Suc_conv_app_nth enumerate_append_eq out_def)
  have IH: "length out = ?n" "\<And>k. k < 8 * ?n \<Longrightarrow> bit (out ! (k div 8)) (7 - k mod 8) \<longleftrightarrow> k < m \<and> bits ! k"
    using Suc by (simp_all add: out_def)
  have m: "m div 8 < ?n" using Suc.prems by simp
  have "bit (f (m, bits ! m) out ! (k div 8)) (7 - k mod 8) \<longleftrightarrow> k < Suc m \<and> bits ! k" if k: "k < 8 * ?n" for k
  proof (cases "bits ! m \<and> k div 8 = m div 8")
    case True
    have "k mod 8 \<le> 7" "m mod 8 \<le> 7" by simp_all
    then have "7 - k mod 8 = 7 - m mod 8 \<longleftrightarrow> k mod 8 = m mod 8" by arith
    also have "\<dots> \<longleftrightarrow> k = m" using True by (metis div_mult_mod_eq)
    finally have "7 - k mod 8 = 7 - m mod 8 \<longleftrightarrow> k = m" .
    moreover have "7 - k mod 8 < 8" by simp
    ultimately show ?thesis using True IH(2) [OF k] m IH(1)
      by (auto simp: f_def bit_or_iff bit_exp_iff less_Suc_eq)
  next
    case False
    then show ?thesis using IH(2) [OF k] m IH(1) by (auto simp: f_def less_Suc_eq nth_list_update)
  qed
  then show ?case using IH(1) unfolding step by (auto simp: f_def)
qed

lemma length_bits_bytes: "length (bits_bytes bits) = (length bits + 7) div 8"
  using bits_bytes_bits [of "length bits" bits] by (simp add: bits_bytes_def)

lemma bits_of_bits_bytes: "length bits mod 8 = 0 \<Longrightarrow> bits_of (bits_bytes bits) = bits"
proof -
  assume len: "length bits mod 8 = 0"
  then have n: "8 * ((length bits + 7) div 8) = length bits" by presburger
  show ?thesis
  proof (rule nth_equalityI)
    show len': "length (bits_of (bits_bytes bits)) = length bits" using n by (simp add: length_bits_bytes)
    fix k
    assume "k < length (bits_of (bits_bytes bits))"
    then have k: "k < length bits" using len' by simp
    have "bits_of (bits_bytes bits) ! k = bit (bits_bytes bits ! (k div 8)) (7 - k mod 8)"
      using k n by (intro bits_of_nth) (simp add: length_bits_bytes)
    also have "\<dots> = bits ! k"
      using bits_bytes_bits [of "length bits" bits] k n by (simp add: bits_bytes_def)
    finally show "bits_of (bits_bytes bits) ! k = bits ! k" .
  qed
qed

section \<open>The data codewords\<close>

lemma bits_add_eq: "bits_add v n bits = bits @ nat_bits v n"
  by (simp add: bits_add_def nat_bits_def)

lemma bits_align_eq: "\<exists>k. bits_align bits = bits @ replicate k False \<and> k < 8 \<and> length (bits_align bits) mod 8 = 0"
proof (induction bits rule: bits_align.induct)
  case (1 bits)
  show ?case
  proof (cases "length bits mod 8 = 0")
    case True
    then show ?thesis by (simp add: bits_align.simps [of bits])
  next
    case False
    from 1 [OF this] obtain k where k: "bits_align (bits_add 0 1 bits) = bits_add 0 1 bits @ replicate k False" "k < 8"
      "length (bits_align (bits_add 0 1 bits)) mod 8 = 0" by (elim exE conjE)
    have one: "bits_add 0 1 bits = bits @ [False]" by (simp add: bits_add_eq nat_bits_def)
    have next_step: "bits_align bits = bits_align (bits_add 0 1 bits)" using False by (subst bits_align.simps) simp
    have "(length bits + 1 + k) mod 8 = 0" using k(1,3) by (simp add: bits_add_eq)
    then have "k \<noteq> 7" using False by auto
    then have "Suc k < 8" using k(2) by simp
    moreover have "bits_align bits = bits @ replicate (Suc k) False" using k(1) unfolding next_step one by simp
    ultimately show ?thesis using k(3) by (metis next_step)
  qed
qed

lemma pad_loop_eq: "\<exists>ps. pad_loop k i padded = padded @ ps \<and> length ps = k"
  by (induction k arbitrary: i padded) (simp, metis append.assoc append_Cons append_Nil length_Cons pad_loop.simps(2))

definition char_bits :: "string \<Rightarrow> bool list" where
  "char_bits data = concat (map (\<lambda>c. nat_bits (byte c) 8) data)"

lemma fold_char_bits: "fold (\<lambda>c. bits_add (byte c) 8) data bits = bits @ char_bits data"
  by (induction data arbitrary: bits) (simp_all add: char_bits_def bits_add_eq)

lemma length_char_bits [simp]: "length (char_bits data) = 8 * length data"
  by (induction data) (simp_all add: char_bits_def)

definition qr_head :: "string \<Rightarrow> nat \<Rightarrow> bool list" where
  "qr_head data version = nat_bits 4 4 @ nat_bits (length data) (qrCountBits version) @ char_bits data"

lemma length_qr_head: "length (qr_head data version) = 4 + qrCountBits version + 8 * length data"
  by (simp add: qr_head_def)

lemma qr_data_eq:
  assumes "(4 + qrCountBits version + 8 * length data + 7) div 8 \<le> dataCodewords info"
  shows "length (qr_data data version info) = dataCodewords info \<and>
    (\<exists>rest. bits_of (qr_data data version info) = qr_head data version @ rest)"
proof -
  let ?b = "qr_head data version" and ?d = "dataCodewords info"
  define body where "body = (if ?d * 8 - length ?b < 4 then bits_add 0 (?d * 8 - length ?b) ?b else bits_add 0 4 ?b)"
  obtain z where z: "bits_align body = body @ replicate z False" "z < 8" "length (bits_align body) mod 8 = 0"
    using bits_align_eq [of body] by (elim exE conjE)
  let ?p = "bits_bytes (bits_align body)"
  obtain ps where ps: "pad_loop (?d - length ?p) 0 ?p = ?p @ ps" "length ps = ?d - length ?p"
    using pad_loop_eq [of "?d - length ?p" 0 ?p] by (elim exE conjE)
  have "qr_data data version info = pad_loop (?d - length ?p) 0 ?p"
    unfolding qr_data_def Let_def fold_char_bits bits_add_eq body_def qr_head_def
    by (simp only: append_Nil append_assoc)
  then have q: "qr_data data version info = ?p @ ps" by (simp only: ps(1))
  have b: "length ?b \<le> 8 * ?d" using assms by (simp add: length_qr_head)
  have t: "length body \<le> 8 * ?d" using b by (auto simp: body_def bits_add_eq)
  obtain q where q8: "length (bits_align body) = 8 * q" using z(3) by (metis mod_0_imp_dvd dvdE)
  then have "8 * q < 8 * ?d + 8" using z(1,2) t by simp
  then have "length (bits_align body) \<le> 8 * ?d" using q8 by simp
  then have "length ?p \<le> ?d" by (simp add: length_bits_bytes)
  moreover have "bits_of ?p = body @ replicate z False" using bits_of_bits_bytes [OF z(3)] z(1) by simp
  moreover have "\<exists>r. body = ?b @ r" by (auto simp: body_def bits_add_eq)
  ultimately show ?thesis using ps(2) by (auto simp: q)
qed

text \<open>Reading them: the count behind the mode, then as many characters.\<close>

fun read_chars :: "nat \<Rightarrow> bool list \<Rightarrow> string" where
  "read_chars 0 bs = []"
| "read_chars (Suc n) bs = char_of (of_bits (take 8 bs)) # read_chars n (drop 8 bs)"

definition qr_payload :: "nat \<Rightarrow> byte8 list \<Rightarrow> string" where
  "qr_payload version ws =
    (let bits = bits_of ws; n = of_bits (take (qrCountBits version) (drop 4 bits))
     in read_chars n (drop (4 + qrCountBits version) bits))"

lemma read_char_bits: "read_chars (length data) (char_bits data @ rest) = data"
proof (induction data)
  case (Cons c data)
  have "byte c < 256" by (simp add: byte_def)
  then have "of_bits (nat_bits (byte c) 8) = byte c" by (simp add: of_bits_nat_bits)
  then show ?case using Cons by (simp add: char_bits_def byte_def)
qed simp

lemma qr_payload_data:
  assumes "(4 + qrCountBits version + 8 * length data + 7) div 8 \<le> dataCodewords info" "length data < 2 ^ qrCountBits version"
  shows "qr_payload version (qr_data data version info) = data"
proof -
  obtain rest where "bits_of (qr_data data version info) = qr_head data version @ rest" using qr_data_eq [OF assms(1)] by blast
  then show ?thesis using assms(2) by (simp add: qr_payload_def qr_head_def of_bits_nat_bits read_char_bits)
qed

section \<open>Interleaving\<close>

text \<open>Which block, and which of its codewords, each data codeword of the stream is.\<close>

definition deal :: "nat \<Rightarrow> nat list \<Rightarrow> (nat \<times> nat) list" where
  "deal maxData widths =
    concat (map (\<lambda>i. concat (map (\<lambda>k. if i < widths ! k then [(k, i)] else []) [0..<length widths])) [0..<maxData])"

definition collect :: "nat \<Rightarrow> nat list \<Rightarrow> byte8 list \<Rightarrow> nat \<Rightarrow> byte8 list" where
  "collect maxData widths ws k = map snd (filter (\<lambda>(p, w). fst p = k) (zip (deal maxData widths) ws))"

definition deinterleave :: "nat \<Rightarrow> nat list \<Rightarrow> byte8 list \<Rightarrow> byte8 list" where
  "deinterleave maxData widths ws = concat (map (collect maxData widths ws) [0..<length widths])"

lemma deal_block: "k < length widths \<Longrightarrow> filter (\<lambda>p. fst p = k) (deal maxData widths) = map (Pair k) [0..<min maxData (widths ! k)]"
proof (induction maxData)
  case (Suc m)
  have row: "filter (\<lambda>p. fst p = k) (concat (map (\<lambda>j. if i < widths ! j then [(j, i)] else []) [0..<n])) =
      (if k < n \<and> i < widths ! k then [(k, i)] else [])" for i n
    by (induction n) (auto simp: less_Suc_eq)
  have "deal (Suc m) widths = deal m widths @ concat (map (\<lambda>j. if m < widths ! j then [(j, m)] else []) [0..<length widths])"
    by (simp add: deal_def)
  then show ?case using Suc row [of m "length widths"] by (auto simp: min_def)
qed (simp add: deal_def)

definition blocks_data :: "nat \<Rightarrow> (byte8 list \<times> byte8 list) list \<Rightarrow> byte8 list" where
  "blocks_data maxData blocks =
    concat (map (\<lambda>i. concat (map (\<lambda>b. if i < length (fst b) then [fst b ! i] else []) blocks)) [0..<maxData])"

lemma blocks_data_deal:
  "blocks_data maxData blocks = map (\<lambda>(k, i). fst (blocks ! k) ! i) (deal maxData (map (length \<circ> fst) blocks))"
proof -
  have row: "concat (map (\<lambda>b. if i < length (fst b) then [fst b ! i] else []) blocks) =
      map (\<lambda>(k, i). fst (blocks ! k) ! i)
        (concat (map (\<lambda>k. if i < map (length \<circ> fst) blocks ! k then [(k, i)] else []) [0..<length blocks]))" for i
  proof -
    have "map (\<lambda>b. if i < length (fst b) then [fst b ! i] else []) blocks =
        map (\<lambda>k. map (\<lambda>(k, i). fst (blocks ! k) ! i) (if i < map (length \<circ> fst) blocks ! k then [(k, i)] else [])) [0..<length blocks]"
      by (intro nth_equalityI) auto
    then show ?thesis by (simp add: map_concat comp_def)
  qed
  show ?thesis by (simp add: blocks_data_def deal_def row map_concat comp_def)
qed

lemma zip_map_same: "zip xs (map f xs @ rest) = map (\<lambda>x. (x, f x)) xs"
  by (induction xs) simp_all

lemma collect_blocks:
  assumes "k < length blocks" "length (fst (blocks ! k)) \<le> maxData"
  shows "collect maxData (map (length \<circ> fst) blocks) (blocks_data maxData blocks @ rest) k = fst (blocks ! k)"
proof -
  let ?w = "map (length \<circ> fst) blocks"
  let ?f = "\<lambda>p. fst (blocks ! fst p) ! snd p"
  have "zip (deal maxData ?w) (blocks_data maxData blocks @ rest) = map (\<lambda>p. (p, ?f p)) (deal maxData ?w)"
    by (simp add: blocks_data_deal zip_map_same case_prod_unfold)
  then have "collect maxData ?w (blocks_data maxData blocks @ rest) k = map ?f (filter (\<lambda>p. fst p = k) (deal maxData ?w))"
    by (simp add: collect_def filter_map comp_def)
  also have "\<dots> = map (\<lambda>i. fst (blocks ! k) ! i) [0..<length (fst (blocks ! k))]"
    using assms by (simp add: deal_block min_def comp_def)
  also have "\<dots> = fst (blocks ! k)" by (rule map_nth)
  finally show ?thesis .
qed

lemma deinterleave_blocks:
  assumes "\<forall>b \<in> set blocks. length (fst b) \<le> maxData"
  shows "deinterleave maxData (map (length \<circ> fst) blocks) (blocks_data maxData blocks @ rest) = concat (map fst blocks)"
proof -
  have "map (collect maxData (map (length \<circ> fst) blocks) (blocks_data maxData blocks @ rest)) [0..<length blocks] = map fst blocks"
    using assms by (intro nth_equalityI) (simp_all add: collect_blocks)
  then show ?thesis by (simp add: deinterleave_def)
qed

section \<open>The stream\<close>

lemma cut_blocks_eq:
  assumes "k * w \<le> length ws"
  shows "map (length \<circ> fst) (cut_blocks k w ec ws) = replicate k w \<and> concat (map fst (cut_blocks k w ec ws)) = take (k * w) ws \<and>
    length (cut_blocks k w ec ws) = k \<and>
    list_all (\<lambda>(d, e). e = reedSolomon d ec) (cut_blocks k w ec ws)"
  using assms
proof (induction k arbitrary: ws)
  case (Suc k)
  then have "k * w \<le> length (drop w ws)" by simp
  with Suc show ?case by (simp add: Let_def take_add)
qed simp

definition widths_of :: "qrVersionInfo \<Rightarrow> nat list" where
  "widths_of info =
    replicate (vi_group1Blocks info) (vi_group1Data info) @ replicate (vi_group2Blocks info) (vi_group2Data info)"

definition max_data :: "qrVersionInfo \<Rightarrow> nat" where
  "max_data info = max (vi_group1Data info) (vi_group2Data info)"

lemma qr_blocks_eq:
  assumes "length ws = dataCodewords info"
  shows "map (length \<circ> fst) (qr_blocks info ws) = widths_of info" "concat (map fst (qr_blocks info ws)) = ws"
    "list_all (\<lambda>(d, e). e = reedSolomon d (vi_ecPerBlock info)) (qr_blocks info ws)"
proof -
  let ?n = "vi_group1Blocks info * vi_group1Data info" and ?m = "vi_group2Blocks info * vi_group2Data info"
  have "?n \<le> length ws" "?m \<le> length (drop ?n ws)" using assms by (simp_all add: dataCodewords_def)
  note c = cut_blocks_eq [OF this(1), of "vi_ecPerBlock info"] cut_blocks_eq [OF this(2), of "vi_ecPerBlock info"]
  have "take ?n ws @ take ?m (drop ?n ws) = ws" using assms by (simp add: dataCodewords_def)
  then show "map (length \<circ> fst) (qr_blocks info ws) = widths_of info" "concat (map fst (qr_blocks info ws)) = ws"
    "list_all (\<lambda>(d, e). e = reedSolomon d (vi_ecPerBlock info)) (qr_blocks info ws)"
    using c by (simp_all add: qr_blocks_def widths_of_def)
qed

text \<open>Every block of the stream carries its error correction, and the stream reads back.\<close>

lemma qrCodewords_reads:
  assumes "length (qr_data data version info) = dataCodewords info"
  shows "deinterleave (max_data info) (widths_of info) (qrCodewords data version info) = qr_data data version info"
proof -
  let ?b = "qr_blocks info (qr_data data version info)"
  obtain rest where s: "qrCodewords data version info = blocks_data (max_data info) ?b @ rest"
    by (simp add: qrCodewords_def interleave_def blocks_data_def max_data_def)
  have "length (fst b) \<in> set (widths_of info)" if "b \<in> set ?b" for b
    using that qr_blocks_eq(1) [OF assms] by (metis comp_apply image_eqI set_map)
  then have "\<forall>b \<in> set ?b. length (fst b) \<le> max_data info" by (force simp: widths_of_def max_data_def)
  then show ?thesis
    using deinterleave_blocks [of ?b "max_data info" rest] qr_blocks_eq(1,2) [OF assms] by (simp add: s)
qed

lemma length_blocks_data: "\<forall>b \<in> set blocks. length (fst b) \<le> m \<Longrightarrow> length (blocks_data m blocks) = length (concat (map fst blocks))"
proof (induction blocks)
  case (Cons b blocks)
  have "length (concat (map (\<lambda>i. f i @ g i) xs)) = length (concat (map f xs)) + length (concat (map g xs))"
    for f g :: "nat \<Rightarrow> byte8 list" and xs
    by (induction xs) simp_all
  moreover have "length (concat (map (\<lambda>i. if i < n then [h i] else []) [0..<m])) = min n m" for h :: "nat \<Rightarrow> byte8" and n m
    by (induction m) (auto simp: min_def)
  ultimately show ?case using Cons by (simp add: blocks_data_def)
qed (simp add: blocks_data_def)

lemma length_qrCodewords:
  assumes "length (qr_data data version info) = dataCodewords info"
  shows "length (qrCodewords data version info) = dataCodewords info + vi_ecPerBlock info * (vi_group1Blocks info + vi_group2Blocks info)"
proof -
  let ?b = "qr_blocks info (qr_data data version info)"
  have w: "map (length \<circ> fst) ?b = widths_of info" by (rule qr_blocks_eq(1) [OF assms])
  have "length (fst b) \<in> set (widths_of info)" if "b \<in> set ?b" for b
    using that w by (metis comp_apply image_eqI set_map)
  then have "\<forall>b \<in> set ?b. length (fst b) \<le> max_data info" by (force simp: widths_of_def max_data_def)
  then have "length (blocks_data (max_data info) ?b) = dataCodewords info"
    using qr_blocks_eq(2) [OF assms] assms by (simp add: length_blocks_data)
  moreover have "length ?b = vi_group1Blocks info + vi_group2Blocks info"
    using arg_cong [OF w, of length] by (simp add: widths_of_def)
  moreover have "length (concat (map (\<lambda>i. map (g i) bs) [0..<n])) = n * length bs"
    for g :: "nat \<Rightarrow> byte8 list \<times> byte8 list \<Rightarrow> byte8" and bs n
    by (induction n) simp_all
  ultimately show ?thesis by (simp add: qrCodewords_def interleave_def blocks_data_def max_data_def)
qed

section \<open>Versions that fit\<close>

lemma fit_loop_Inr: "fit_loop n vs = Inr (v, info) \<Longrightarrow>
    v \<in> set vs \<and> info = qrVersions ! v \<and> (4 + qrCountBits v + 8 * n + 7) div 8 \<le> dataCodewords info"
  by (induction vs) (auto simp: Let_def split: if_splits)

lemma fit_loop_Inl: "fit_loop n vs = Inl e \<Longrightarrow>
    e = qr_too_long n \<and> list_all (\<lambda>v. dataCodewords (qrVersions ! v) < (4 + qrCountBits v + 8 * n + 7) div 8) vs"
  by (induction vs) (auto simp: Let_def split: if_splits)

lemma version_cases: "v \<in> set [1..<11] \<Longrightarrow> v \<in> {1, 2, 3, 4, 5, 6, 7, 8, 9, 10}"
  by simp presburger

lemma version_count: "v \<in> set [1..<11] \<Longrightarrow> dataCodewords (qrVersions ! v) < 2 ^ qrCountBits v + 2"
  by (drule version_cases) (auto simp: qrVersions_def version_info_def dataCodewords_def qrCountBits_def)

lemma version_total: "v \<in> set [1..<11] \<Longrightarrow> dataCodewords (qrVersions ! v) +
    vi_ecPerBlock (qrVersions ! v) * (vi_group1Blocks (qrVersions ! v) + vi_group2Blocks (qrVersions ! v)) = vi_totalCodewords (qrVersions ! v)"
  by (drule version_cases) (auto simp: qrVersions_def version_info_def dataCodewords_def)

lemma qrFit_Inr:
  assumes "qrFit (length data) = Inr (v, info)"
  shows "v \<in> set [1..<11]" "info = qrVersions ! v" "length (qr_data data v info) = dataCodewords info"
    "qr_payload v (qr_data data v info) = data" "length (qrCodewords data v info) = vi_totalCodewords info"
proof -
  have f: "v \<in> set [1..<11]" "info = qrVersions ! v" "(4 + qrCountBits v + 8 * length data + 7) div 8 \<le> dataCodewords info"
    using fit_loop_Inr [OF assms [unfolded qrFit_def]] by blast+
  have q: "8 \<le> qrCountBits v" by (simp add: qrCountBits_def)
  have len: "length data < 2 ^ qrCountBits v" using f(3) version_count [OF f(1)] q by (simp add: f(2))
  show "v \<in> set [1..<11]" "info = qrVersions ! v" by fact+
  show d: "length (qr_data data v info) = dataCodewords info" using qr_data_eq [OF f(3)] by blast
  show "qr_payload v (qr_data data v info) = data" by (rule qr_payload_data [OF f(3) len])
  show "length (qrCodewords data v info) = vi_totalCodewords info"
    using length_qrCodewords [OF d] version_total [OF f(1)] by (simp add: f(2))
qed

lemma qrFit_Inl: "qrFit n = Inl e \<Longrightarrow> e = qr_too_long n \<and> 213 < n"
proof -
  assume "qrFit n = Inl e"
  then have "e = qr_too_long n" "dataCodewords (qrVersions ! 10) < (4 + qrCountBits 10 + 8 * n + 7) div 8"
    using fit_loop_Inl [of n "[1..<11]" e] by (auto simp: qrFit_def list_all_iff)
  then show ?thesis by (simp add: qrVersions_def version_info_def dataCodewords_def qrCountBits_def)
qed

end
