(* ===== verification/Qr_Reads.thy ===== *)
theory Qr_Reads
  imports Qr_Layout Qr_Blocks
begin

text \<open>
  Reading a symbol: the mask from the format information, the modules along the path, the codewords
  and the payload. Whatever \<open>QRCode\<close> draws reads back.
\<close>

unbundle bit_operations_syntax

section \<open>The placed data\<close>

lemma data_columns:
  "\<exists>u. fold (data_column reserved cw n) rs (m, k, upward) =
    (case fold (data_module reserved cw) (path_columns n rs upward) (m, k) of (m', k') \<Rightarrow> (m', k', u))"
proof (induction rs arbitrary: m k upward)
  case (Cons r rs)
  have pairs: "fold (\<lambda>i s. g (f i, r - 1) (g (f i, r) s)) xs s =
      fold g (concat (map (\<lambda>i. [(f i, r), (f i, r - 1)]) xs)) s"
    for f :: "nat \<Rightarrow> nat" and g :: "nat \<times> nat \<Rightarrow> QRMatrix \<times> nat \<Rightarrow> QRMatrix \<times> nat" and xs s
    by (induction xs arbitrary: s) simp_all
  let ?f = "\<lambda>i. if upward then n - 1 - i else i"
  let ?col = "concat (map (\<lambda>i. [(?f i, r), (?f i, r - 1)]) [0..<n])"
  obtain m' k' where c: "fold (data_module reserved cw) ?col (m, k) = (m', k')" by (rule prod.exhaust)
  have "data_column reserved cw n r (m, k, upward) = (m', k', \<not> upward)"
    unfolding data_column_def Let_def prod.case pairs [of "data_module reserved cw" ?f] c by (rule refl)
  moreover have "path_columns n (r # rs) upward = ?col @ path_columns n rs (\<not> upward)" by (simp add: Let_def)
  ultimately show ?case using Cons [of m' k' "\<not> upward"] by (simp only: fold_append fold_Cons comp_apply c)
qed simp

definition free_modules :: "QRMatrix \<Rightarrow> (nat \<times> nat) list \<Rightarrow> (nat \<times> nat) list" where
  "free_modules reserved ps = filter (\<lambda>p. \<not> at_module reserved p) ps"

lemma writes_simps: "modules.writes [] m = m" "modules.writes ((p, b) # ws) m = modules.writes ws (put_at p b m)"
  by (simp_all add: modules.writes_def)

lemma data_module_eq: "data_module reserved cw p (m, k) =
    (if at_module reserved p then (m, k)
     else (if k < length cw * 8 then put_at p (bit (cw ! (k div 8)) (7 - k mod 8)) m else m, Suc k))"
  by (cases p) (simp add: data_module_def at_module_def put_at_def)

lemma data_modules:
  "fold (data_module reserved cw) ps (m, k) =
    (modules.writes (zip (free_modules reserved ps) (drop k (bits_of cw))) m, k + length (free_modules reserved ps))"
proof (induction ps arbitrary: m k)
  case (Cons p ps)
  show ?case
  proof (cases "k < length cw * 8")
    case True
    then have "drop k (bits_of cw) = bit (cw ! (k div 8)) (7 - k mod 8) # drop (Suc k) (bits_of cw)"
      by (simp add: Cons_nth_drop_Suc [symmetric] bits_of_nth)
    then show ?thesis using Cons True by (simp add: data_module_eq free_modules_def writes_simps)
  next
    case False
    then have "drop j (bits_of cw) = []" if "k \<le> j" for j using that by simp
    then show ?thesis using Cons False by (simp add: data_module_eq free_modules_def writes_simps)
  qed
qed (simp add: free_modules_def writes_simps)

lemma place_data_eq:
  "place_data n cw d = modules.writes (zip (free_modules (snd d) (qr_path n)) (bits_of cw)) (fst d)"
proof -
  obtain m r where d: "d = (m, r)" by (rule prod.exhaust)
  obtain u where "fold (data_column r cw n) (rights (n - 1)) (m, 0, True) =
      (case fold (data_module r cw) (qr_path n) (m, 0) of (m', k') \<Rightarrow> (m', k', u))"
    using data_columns [of r cw n "rights (n - 1)" m 0 True] by (auto simp: qr_path_def)
  then show ?thesis by (simp add: place_data_def d data_modules)
qed

lemma placed:
  assumes d: "drawn n d" and path: "distinct (qr_path n)" "\<forall>p \<in> set (qr_path n). inside n p"
    and room: "8 * length cw \<le> length (free_modules (snd d) (qr_path n))"
  shows "square n (place_data n cw d)"
    "map (at_module (place_data n cw d)) (take (8 * length cw) (free_modules (snd d) (qr_path n))) = bits_of cw"
proof -
  let ?f = "free_modules (snd d) (qr_path n)" and ?b = "bits_of cw"
  have sq: "square n (fst d)" using d by (simp add: drawn_def)
  show "square n (place_data n cw d)" unfolding place_data_eq by (rule modules.ok_writes [OF sq])
  have keys: "map fst (zip ?f ?b) = take (8 * length cw) ?f" using room by (simp add: map_fst_zip_take)
  have "distinct (map fst (zip ?f ?b))" unfolding keys using path(1) by (simp add: free_modules_def)
  moreover have "fst ` set (zip ?f ?b) \<subseteq> set (qr_path n)"
    by (auto simp: free_modules_def dest!: set_zip_leftD)
  ultimately have w: "at_module (place_data n cw d) p = b" if "(p, b) \<in> set (zip ?f ?b)" for p b
    unfolding place_data_eq using modules.look_writes [OF sq _ _ that] path(2) by blast
  show "map (at_module (place_data n cw d)) (take (8 * length cw) ?f) = ?b"
  proof (rule nth_equalityI)
    show "length (map (at_module (place_data n cw d)) (take (8 * length cw) ?f)) = length ?b" using room by simp
    fix j
    assume "j < length (map (at_module (place_data n cw d)) (take (8 * length cw) ?f))"
    then have j: "j < 8 * length cw" using room by simp
    then have "(?f ! j, ?b ! j) \<in> set (zip ?f ?b)" using room by (auto simp: set_zip)
    then show "map (at_module (place_data n cw d)) (take (8 * length cw) ?f) ! j = ?b ! j" using w j room by simp
  qed
qed

section \<open>Mask and format\<close>

lemma mask_square: "square n src \<Longrightarrow> square n (qrApplyMask src r mk)"
  by (simp add: square_def qrApplyMask_def)

lemma mask_at: "square n src \<Longrightarrow> inside n p \<Longrightarrow>
    at_module (qrApplyMask src r mk) p =
      (if at_module r p then at_module src p else at_module src p \<noteq> qrMaskBit mk (fst p) (snd p))"
  by (auto simp: square_def qrApplyMask_def at_module_def inside_def)

definition format_writes :: "nat \<Rightarrow> nat \<Rightarrow> ((nat \<times> nat) \<times> bool) list" where
  "format_writes n mk = concat (map (\<lambda>i. [(format_first i, bit (qrFormatBits qrECBits mk) i),
     (format_second n i, bit (qrFormatBits qrECBits mk) i)]) [0..<15])"

definition format_modules :: "nat \<Rightarrow> (nat \<times> nat) list" where
  "format_modules n = concat (map (\<lambda>i. [format_first i, format_second n i]) [0..<15])"

lemma low_bit: "(drop_bit i w AND 1 = 1) = bit (w :: int) i"
  by (simp add: bit_iff_odd_drop_bit and_one_eq odd_iff_mod_2_eq_one)

lemma qrWriteFormat_eq: "qrWriteFormat m mk = modules.writes (format_writes (length m) mk) m"
proof -
  have "fold (\<lambda>i m. let dark = (drop_bit i w AND 1 = 1) in put_at (g i) dark (put_at (f i) dark m)) xs m =
      modules.writes (concat (map (\<lambda>i. [(f i, bit w i), (g i, bit w i)]) xs)) m" for f g xs and w :: int
    by (induction xs arbitrary: m) (simp_all add: modules.writes_def low_bit Let_def)
  then show ?thesis by (simp add: qrWriteFormat_def format_writes_def Let_def)
qed

lemma format_places: "map fst (format_writes n mk) = format_modules n"
  by (simp add: format_writes_def format_modules_def map_concat comp_def)

lemma format_modules:
  assumes "21 \<le> n"
  shows "distinct (format_modules n)" "\<forall>p \<in> set (format_modules n). inside n p"
    "\<forall>(y, x) \<in> set (format_modules n). y = 8 \<and> (x \<le> 8 \<or> n - 8 \<le> x) \<or> x = 8 \<and> (y \<le> 8 \<or> n - 8 \<le> y)"
proof -
  obtain d where n: "n = 21 + d" using assms by (metis le_Suc_ex)
  have f: "format_modules n =
    [(0, 8), (8, 20 + d), (1, 8), (8, 19 + d), (2, 8), (8, 18 + d), (3, 8), (8, 17 + d), (4, 8), (8, 16 + d), (5, 8),
     (8, 15 + d), (7, 8), (8, 14 + d), (8, 8), (8, 13 + d), (8, 7), (14 + d, 8), (8, 5), (15 + d, 8), (8, 4), (16 + d, 8),
     (8, 3), (17 + d, 8), (8, 2), (18 + d, 8), (8, 1), (19 + d, 8), (8, 0), (20 + d, 8)]"
    unfolding n by (simp add: format_modules_def format_first_def format_second_def upt_rec)
  show "distinct (format_modules n)" unfolding f by simp
  show "\<forall>p \<in> set (format_modules n). inside n p" unfolding f unfolding n by (simp add: inside_def)
  show "\<forall>(y, x) \<in> set (format_modules n). y = 8 \<and> (x \<le> 8 \<or> n - 8 \<le> x) \<or> x = 8 \<and> (y \<le> 8 \<or> n - 8 \<le> y)"
    unfolding f unfolding n by simp
qed

text \<open>The formats of two masks differ in at least seven of the fifteen modules.\<close>

lemma formats_far_apart:
  "list_all (\<lambda>k. list_all (\<lambda>j. j = k \<or>
    7 \<le> length (filter (\<lambda>i. bit (qrFormatBits qrECBits k) i \<noteq> bit (qrFormatBits qrECBits j) i) [0..<15])) [0..<8]) [0..<8]"
  by code_simp

section \<open>The versions\<close>

lemma rooms: "list_all (\<lambda>v. 8 * vi_totalCodewords (qrVersions ! v) \<le> room v (vi_alignment (qrVersions ! v))) [1..<11]"
  by code_simp

lemma centres: "v \<in> set [1..<11] \<Longrightarrow> \<forall>c \<in> set (vi_alignment (qrVersions ! v)). 2 \<le> c \<and> c + 2 < qr_size v"
  by (drule version_cases) (auto simp: qrVersions_def version_info_def qr_size_def)

definition free_of :: "nat \<Rightarrow> nat list \<Rightarrow> (nat \<times> nat) list" where
  "free_of v cs = filter (\<lambda>(y, x). \<not> taken v cs y x) (qr_path (qr_size v))"

lemma free_of_version:
  assumes v: "v \<in> set [1..<11]"
  shows "8 * vi_totalCodewords (qrVersions ! v) \<le> length (free_of v (vi_alignment (qrVersions ! v)))"
    "free_modules (snd (function_patterns v (qrVersions ! v))) (qr_path (qr_size v)) = free_of v (vi_alignment (qrVersions ! v))"
proof -
  have v1: "1 \<le> v" using v by simp
  show "8 * vi_totalCodewords (qrVersions ! v) \<le> length (free_of v (vi_alignment (qrVersions ! v)))"
    using rooms v room_path [OF v1] by (simp add: list_all_iff free_of_def del: set_upt)
  show "free_modules (snd (function_patterns v (qrVersions ! v))) (qr_path (qr_size v)) = free_of v (vi_alignment (qrVersions ! v))"
    unfolding free_modules_def free_of_def
  proof (rule filter_cong [OF refl])
    fix p
    assume "p \<in> set (qr_path (qr_size v))"
    then show "(\<not> at_module (snd (function_patterns v (qrVersions ! v))) p) =
        (case p of (y, x) \<Rightarrow> \<not> taken v (vi_alignment (qrVersions ! v)) y x)"
      using qr_path(2) [OF v1] reserved_modules(2) [OF v1 centres [OF v]] by (auto simp: at_module_def)
  qed
qed

lemma format_taken: "1 \<le> v \<Longrightarrow> (y, x) \<in> set (format_modules (qr_size v)) \<Longrightarrow> taken v cs y x"
  using format_modules(2,3) [of "qr_size v"]
  by (fastforce simp: qr_size_def taken_def intervals_def Let_def inside_def)

section \<open>Reading\<close>

definition qr_mask :: "(nat \<Rightarrow> nat \<times> nat) \<Rightarrow> QRMatrix \<Rightarrow> nat option" where
  "qr_mask place m = find (\<lambda>k. list_all (\<lambda>i. at_module m (place i) = bit (qrFormatBits qrECBits k) i) [0..<15]) [0..<8]"

definition qr_read :: "(nat \<Rightarrow> nat \<times> nat) \<Rightarrow> QRMatrix \<Rightarrow> string option" where
  "qr_read place m =
    (let v = (length m - 17) div 4; info = qrVersions ! v
     in case qr_mask place m of
          None \<Rightarrow> None
        | Some k \<Rightarrow>
            let bits = map (\<lambda>p. at_module m p \<noteq> qrMaskBit k (fst p) (snd p))
              (take (8 * vi_totalCodewords info) (free_of v (vi_alignment info)))
            in Some (qr_payload v (deinterleave (max_data info) (widths_of info) (bits_bytes bits))))"

lemma qr_mask_found:
  assumes k: "k < 8" and bits: "\<And>i. i < 15 \<Longrightarrow> at_module m (place i) = bit (qrFormatBits qrECBits k) i"
  shows "qr_mask place m = Some k"
proof -
  let ?P = "\<lambda>k. list_all (\<lambda>i. at_module m (place i) = bit (qrFormatBits qrECBits k) i) [0..<15]"
  have "\<not> ?P j" if "j < 8" "j \<noteq> k" for j
  proof
    assume "?P j"
    then have "bit (qrFormatBits qrECBits k) i = bit (qrFormatBits qrECBits j) i" if "i < 15" for i
      using bits that by (simp add: list_all_iff del: upt_rec_numeral)
    then have "filter (\<lambda>i. bit (qrFormatBits qrECBits k) i \<noteq> bit (qrFormatBits qrECBits j) i) [0..<15] = []"
      by (simp add: filter_empty_conv del: upt_rec_numeral)
    moreover have "7 \<le> length (filter (\<lambda>i. bit (qrFormatBits qrECBits k) i \<noteq> bit (qrFormatBits qrECBits j) i) [0..<15])"
      using formats_far_apart k that unfolding list_all_iff set_upt by force
    ultimately show False by (simp del: upt_rec_numeral)
  qed
  moreover have "?P k" using bits by (simp add: list_all_iff del: upt_rec_numeral)
  ultimately show ?thesis
    unfolding qr_mask_def find_Some_iff using k by (intro exI [of _ k]) (simp del: upt_rec_numeral)
qed

lemma bits_of_inj: "length us = length ws \<Longrightarrow> bits_of us = bits_of ws \<Longrightarrow> us = ws"
proof (induction us ws rule: list_induct2)
  case (Cons u us w ws)
  then have "map (bit u) (rev [0..<8]) = map (bit w) (rev [0..<8])" and "bits_of us = bits_of ws"
    by (simp_all del: upt_rec_numeral)
  then have "bit u i = bit w i" if "i < 8" for i using that by (simp del: upt_rec_numeral)
  then have "u = w" by (intro bit_word_eqI) simp
  then show ?case using Cons.IH \<open>bits_of us = bits_of ws\<close> by simp
qed simp

lemma bits_bytes_bits_of: "bits_bytes (bits_of cw) = cw"
  by (rule bits_of_inj) (simp_all add: bits_of_bits_bytes length_bits_bytes)

section \<open>A symbol reads back\<close>

lemma candidate_reads:
  fixes v data
  defines "info \<equiv> qrVersions ! v" and "n \<equiv> qr_size v"
  defines "d \<equiv> function_patterns v info"
  assumes fit: "qrFit (length data) = Inr (v, info)" and k: "k < 8"
    and m: "m = qr_candidate (place_data n (qrCodewords data v info) d, snd d) k"
  shows "qr_read format_first m = Some data" "qr_read (format_second (length m)) m = Some data"
proof -
  let ?cw = "qrCodewords data v info" and ?free = "free_of v (vi_alignment info)"
  let ?src = "place_data n ?cw d"
  let ?mod = "qrApplyMask ?src (snd d) k"
  note f = qrFit_Inr [OF fit]
  have v1: "1 \<le> v" using f(1) by simp
  then have n21: "21 \<le> n" by (simp add: n_def qr_size_def)
  have dr: "drawn n d"
    unfolding d_def n_def info_def by (rule reserved_modules(1) [OF v1 centres [OF f(1)]])
  have path: "distinct (qr_path n)" "\<forall>p \<in> set (qr_path n). inside n p"
    using qr_path [OF v1] by (auto simp: n_def inside_def)
  have free: "free_modules (snd d) (qr_path n) = ?free"
    unfolding d_def n_def info_def by (rule free_of_version(2) [OF f(1)])
  have room: "8 * length ?cw \<le> length ?free"
    using free_of_version(1) [OF f(1)] f(5) by (simp add: info_def)
  note pl = placed [OF dr path, of ?cw, unfolded free, OF room]
  have sq: "square n ?mod" by (rule mask_square [OF pl(1)])
  then have len: "length ?mod = n" by (simp add: square_def)
  have m_eq: "m = modules.writes (format_writes n k) ?mod"
    unfolding m qr_candidate_def fst_conv snd_conv qrWriteFormat_eq len ..
  have lenm: "length m = n" using modules.ok_writes [OF sq] by (simp add: m_eq square_def)
  have keys: "fst ` set (format_writes n k) = set (format_modules n)"
    using arg_cong [OF format_places [of n k], of set] by simp
  have fm: "at_module m p = b" if "(p, b) \<in> set (format_writes n k)" for p b
    unfolding m_eq
    using format_modules(1,2) [OF n21] by (intro modules.look_writes [OF sq _ _ that]) (simp_all only: keys format_places)
  have ff: "at_module m (format_first i) = bit (qrFormatBits qrECBits k) i"
    "at_module m (format_second n i) = bit (qrFormatBits qrECBits k) i" if "i < 15" for i
    using that by (auto intro!: fm bexI [of _ i] simp: format_writes_def simp del: upt_rec_numeral)
  have data: "at_module m p = (at_module ?src p \<noteq> qrMaskBit k (fst p) (snd p))" if p: "p \<in> set ?free" for p
  proof -
    have "p \<in> set (free_modules (snd d) (qr_path n))" using p by (simp only: free)
    then have r: "\<not> at_module (snd d) p" by (simp add: free_modules_def)
    have i: "inside n p" "\<not> taken v (vi_alignment info) (fst p) (snd p)"
      using p path(2) by (auto simp: free_of_def n_def)
    then have "p \<notin> set (format_modules n)" using format_taken [OF v1, of "fst p" "snd p"] by (auto simp: n_def)
    then have "at_module m p = at_module ?mod p"
      unfolding m_eq using format_modules(2) [OF n21] i(1) by (intro modules.look_writes_other [OF sq]) (simp_all only: keys not_False_eq_True)
    then show ?thesis using mask_at [OF pl(1) i(1)] r by simp
  qed
  have "map (\<lambda>p. at_module m p \<noteq> qrMaskBit k (fst p) (snd p)) (take (8 * vi_totalCodewords info) ?free) =
      map (at_module ?src) (take (8 * length ?cw) ?free)"
    unfolding f(5) by (rule map_cong [OF refl]) (auto dest!: in_set_takeD simp: data)
  also have "\<dots> = bits_of ?cw" by (rule pl(2))
  finally have bits: "map (\<lambda>p. at_module m p \<noteq> qrMaskBit k (fst p) (snd p)) (take (8 * vi_totalCodewords info) ?free) = bits_of ?cw" .
  have ver: "(length m - 17) div 4 = v" by (simp add: lenm n_def qr_size_def)
  have "qr_read place m = Some data" if "\<And>i. i < 15 \<Longrightarrow> at_module m (place i) = bit (qrFormatBits qrECBits k) i" for place
  proof -
    have "qr_mask place m = Some k" using k that by (rule qr_mask_found)
    then show ?thesis
      using bits f(4) qrCodewords_reads [OF f(3)] by (simp add: qr_read_def Let_def ver flip: info_def) (simp add: bits_bytes_bits_of)
  qed
  then show "qr_read format_first m = Some data" "qr_read (format_second (length m)) m = Some data"
    using ff lenm by simp_all
qed

text \<open>The loop over the masks returns one of the eight candidates.\<close>

lemma best_mask_kept: "\<exists>k \<in> set ks. snd best = qr_candidate d k \<Longrightarrow> set js \<subseteq> set ks \<Longrightarrow>
    \<exists>k \<in> set ks. snd (fold (best_mask d) js best) = qr_candidate d k"
proof (induction js arbitrary: best)
  case (Cons j js)
  have "\<exists>k \<in> set ks. snd (best_mask d j best) = qr_candidate d k" using Cons.prems by (auto simp: best_mask_def Let_def)
  then show ?case using Cons.IH [of "best_mask d j best"] Cons.prems(2) by simp
qed simp

lemma place_candidate:
  "\<exists>k < 8. qrPlace version info cw mk =
    qr_candidate (place_data (qr_size version) cw (function_patterns version info), snd (function_patterns version info)) k"
  if "mk \<le> 7"
proof (cases "mk < 0")
  case True
  let ?d = "(place_data (qr_size version) cw (function_patterns version info), snd (function_patterns version info))"
  have "[0..<8] = 0 # [Suc 0..<8]" by (rule upt_conv_Cons) simp
  then have "fold (best_mask ?d) [0..<8] (-1, []) = fold (best_mask ?d) [Suc 0..<8] (qrPenalty (qr_candidate ?d 0), qr_candidate ?d 0)"
    by (simp add: best_mask_def Let_def del: upt_rec_numeral)
  moreover have "\<exists>k \<in> set [0..<8]. snd (fold (best_mask ?d) [Suc 0..<8] (qrPenalty (qr_candidate ?d 0), qr_candidate ?d 0)) = qr_candidate ?d k"
    by (rule best_mask_kept) (auto simp del: upt_rec_numeral)
  ultimately show ?thesis using True by (auto simp: qrPlace_def Let_def simp del: upt_rec_numeral)
next
  case False
  then show ?thesis using that by (intro exI [of _ "nat mk"]) (simp add: qrPlace_def Let_def)
qed


end
