(* ===== verification/Qr_Choice.thy ===== *)
theory Qr_Choice
  imports Qr_Reads
begin

text \<open>Which of the eight masks a symbol gets: none of the others scores less.\<close>

section \<open>The penalty is not negative\<close>

lemma fold_at_least: "(\<And>x s :: int. s \<le> f x s) \<Longrightarrow> s \<le> fold f xs s"
proof (induction xs arbitrary: s)
  case (Cons x xs)
  have "s \<le> f x s" by (rule Cons.prems)
  also have "\<dots> \<le> fold f xs (f x s)" by (rule Cons.IH) (rule Cons.prems)
  finally show ?case by simp
qed simp

lemma run_loop_at_least: "s \<le> run_loop line run prev s"
proof (induction line arbitrary: run prev s)
  case (Cons b line)
  have "s \<le> s + run_score run" by (simp add: run_score_def)
  also have "\<dots> \<le> run_loop line 1 b (s + run_score run)" by (rule Cons.IH)
  finally show ?case using Cons.IH [of s "run + 1" prev] unfolding run_loop.simps by (cases "b = prev") (simp_all only: simp_thms if_True if_False)
qed (simp add: run_score_def)

lemma penalty_not_negative: "0 \<le> qrPenalty m"
proof -
  have "0 \<le> runs_penalty m 0"
    unfolding runs_penalty_def by (intro fold_at_least run_loop_at_least)
  also have "\<dots> \<le> blocks_penalty m (runs_penalty m 0)"
    unfolding blocks_penalty_def by (intro fold_at_least) (simp add: Let_def)
  also have "\<dots> \<le> finder_penalty m (blocks_penalty m (runs_penalty m 0))"
    unfolding finder_penalty_def Let_def by (intro fold_at_least) simp
  also have "\<dots> \<le> qrPenalty m"
    unfolding qrPenalty_def contrast_penalty_def Let_def by (simp add: pos_imp_zdiv_nonneg_iff)
  finally show ?thesis .
qed

section \<open>The choice\<close>

lemma best_mask_least:
  "0 \<le> fst best \<Longrightarrow> fst best = qrPenalty (snd best) \<Longrightarrow>
    qrPenalty (snd (fold (best_mask d) ks best)) \<le> qrPenalty (snd best) \<and>
    (\<forall>k \<in> set ks. qrPenalty (snd (fold (best_mask d) ks best)) \<le> qrPenalty (qr_candidate d k))"
proof (induction ks arbitrary: best)
  case (Cons k ks)
  let ?b = "best_mask d k best"
  have b: "0 \<le> fst ?b" "fst ?b = qrPenalty (snd ?b)"
    using Cons.prems by (auto simp: best_mask_def Let_def penalty_not_negative)
  have "qrPenalty (snd ?b) \<le> qrPenalty (snd best)" "qrPenalty (snd ?b) \<le> qrPenalty (qr_candidate d k)"
    using Cons.prems by (auto simp: best_mask_def Let_def)
  then show ?case using Cons.IH [OF b] by auto
qed simp

lemma chosen_mask: "snd (fold (best_mask d) [0..<8] (-1, [])) = snd (fold (best_mask d) [Suc 0..<8] (qrPenalty (qr_candidate d 0), qr_candidate d 0))"
proof -
  have "[0..<8] = 0 # [Suc 0..<8]" by (rule upt_conv_Cons) simp
  then show ?thesis by (simp add: best_mask_def Let_def del: upt_rec_numeral)
qed

lemma chosen_least: "k < 8 \<Longrightarrow> qrPenalty (snd (fold (best_mask d) [0..<8] (-1, []))) \<le> qrPenalty (qr_candidate d k)"
  unfolding chosen_mask
  using best_mask_least [of "(qrPenalty (qr_candidate d 0), qr_candidate d 0)" d "[Suc 0..<8]"]
  by (cases "k = 0") (auto simp: penalty_not_negative simp del: upt_rec_numeral)

text \<open>
  The symbol \<open>QRCode\<close> returns scores no more than the symbol drawn with any of the eight masks:
  the loop over the masks, which starts from a score of \<open>-1\<close> for none yet, finds the least penalty.
\<close>

theorem qr_code_least_penalty:
  "case QRCode payload of
      Inl err \<Rightarrow> list_all (\<lambda>k. QRCodeMask payload k = Inl err) [0..7]
    | Inr m \<Rightarrow> list_all (\<lambda>k. case QRCodeMask payload k of Inl err \<Rightarrow> False | Inr c \<Rightarrow> qrPenalty m \<le> qrPenalty c) [0..7]"
proof (cases "qrFit (length payload)")
  case (Inr p)
  obtain v info where p: "p = (v, info)" by (rule prod.exhaust)
  then show ?thesis using Inr
    by (auto simp: QRCode_def QRCodeMask_def qrPlace_def Let_def list_all_iff intro!: chosen_least simp del: upt_rec_numeral)
qed (simp add: QRCode_def QRCodeMask_def list_all_iff)

end
