(* ===== verification/Web_Login.thy ===== *)
theory Web_Login
  imports Ingest_Routes Account_Revocation
begin

text \<open>
  The browser side of authentication (\<^verbatim>\<open>internal/ingest/auth_http.go\<close>): cookies, the caller's address,
  the CSRF check, and the limiter that throttles failed sign-ins per address.
\<close>

section \<open>Requests\<close>

text \<open>
  What the handlers read of a browser's request. \<open>wb_session\<close> and \<open>wb_csrf\<close> are the two cookies,
  \<open>''''\<close> stands for a header that is not there, and \<open>wb_key\<close> is what \<^verbatim>\<open>s.auth.Authenticate\<close> says of the
  bearer token.
\<close>

record web =
  wb_request :: request
  wb_session :: "string option"
  wb_csrf :: "string option"
  wb_csrf_header :: string
  wb_forwarded_for :: string
  wb_forwarded_proto :: string
  wb_TLS :: bool
  wb_RemoteAddr :: string
  wb_UserAgent :: string
  wb_key :: "goerror + Principal"

record cookie =
  ck_Name :: string
  ck_Value :: string
  ck_HttpOnly :: bool
  ck_Secure :: bool
  ck_Expires :: "gotime option"

definition sessionCookie :: string where "sessionCookie = ''reconsync_session''"
definition csrfCookie :: string where "csrfCookie = ''reconsync_csrf''"

definition isSecure :: "web \<Rightarrow> bool" where
  "isSecure W = (if wb_TLS W then True else to_lower (wb_forwarded_proto W) = ''https'')"

text \<open>Both cookies have the path \<^verbatim>\<open>/\<close> and \<^verbatim>\<open>SameSite=Strict\<close>; \<open>ck_Expires = None\<close> is \<^verbatim>\<open>MaxAge: -1\<close>.\<close>

definition setSessionCookie :: "web \<Rightarrow> string \<Rightarrow> gotime \<Rightarrow> cookie" where
  "setSessionCookie W token expires =
    \<lparr>ck_Name = sessionCookie, ck_Value = token, ck_HttpOnly = True, ck_Secure = isSecure W, ck_Expires = Some expires\<rparr>"

definition setCSRFCookie :: "web \<Rightarrow> string \<Rightarrow> gotime \<Rightarrow> cookie" where
  "setCSRFCookie W token expires =
    \<lparr>ck_Name = csrfCookie, ck_Value = token, ck_HttpOnly = False, ck_Secure = isSecure W, ck_Expires = Some expires\<rparr>"

definition clearAuthCookies :: "web \<Rightarrow> cookie list" where
  "clearAuthCookies W =
    map (\<lambda>name. \<lparr>ck_Name = name, ck_Value = '''', ck_HttpOnly = (name = sessionCookie), ck_Secure = isSecure W,
      ck_Expires = None\<rparr>) [sessionCookie, csrfCookie]"

section \<open>The caller's address\<close>

text \<open>\<^verbatim>\<open>net.SplitHostPort\<close>, as far as the host: \<open>None\<close> is an error.\<close>

definition last_index :: "char \<Rightarrow> string \<Rightarrow> nat option" where
  "last_index c s = (if c \<in> set s then Some (length s - 1 - length (takeWhile (\<lambda>d. d \<noteq> c) (rev s))) else None)"

definition split_host :: "string \<Rightarrow> string option" where
  "split_host hp =
    (case last_index CHR '':'' hp of
       None \<Rightarrow> None
     | Some i \<Rightarrow>
         if hd hp = CHR ''[''
         then let e = length (takeWhile (\<lambda>d. d \<noteq> CHR '']'') hp)
              in if e = length hp \<or> e + 1 \<noteq> i then None
                 else if CHR ''['' \<in> set (drop 1 hp) \<or> CHR '']'' \<in> set (drop (e + 1) hp) then None
                 else Some (take (e - 1) (drop 1 hp))
         else if CHR '':'' \<in> set (take i hp) then None
         else if CHR ''['' \<in> set hp \<or> CHR '']'' \<in> set hp then None
         else Some (take i hp))"

definition clientIP :: "web \<Rightarrow> string" where
  "clientIP W =
    (let fwd = wb_forwarded_for W
     in if fwd \<noteq> '''' then trim_space (takeWhile (\<lambda>c. c \<noteq> CHR '','') fwd)
        else case split_host (wb_RemoteAddr W) of None \<Rightarrow> wb_RemoteAddr W | Some host \<Rightarrow> host)"

section \<open>The CSRF check\<close>

text \<open>\<open>Some\<close> is the refusal written.\<close>

definition requireCSRF :: "string \<Rightarrow> web \<Rightarrow> response option" where
  "requireCSRF method W =
    (if method \<in> {''GET'', ''HEAD'', ''OPTIONS''} then None
     else if wb_session W = None then None
     else case wb_csrf W of
       None \<Rightarrow> Some (writeError (wb_request W) 403 ''csrf'' ''missing or mismatched CSRF token'' '''')
     | Some c \<Rightarrow>
         if c = '''' \<or> c \<noteq> wb_csrf_header W
         then Some (writeError (wb_request W) 403 ''csrf'' ''missing or mismatched CSRF token'' '''') else None)"

section \<open>The limiter\<close>

type_synonym loginLimiter = "(string \<times> gotime list) list"

definition loginWindow :: duration where "loginWindow = minute"
definition loginMaxFails :: nat where "loginMaxFails = 10"
definition limiterMaxKeys :: nat where "limiterMaxKeys = 10000"

definition times_of :: "loginLimiter \<Rightarrow> string \<Rightarrow> gotime list" where
  "times_of l key = (case map_of l key of None \<Rightarrow> [] | Some ts \<Rightarrow> ts)"

definition limiter_recent :: "string \<Rightarrow> gotime \<Rightarrow> loginLimiter \<Rightarrow> gotime list \<times> loginLimiter" where
  "limiter_recent key now l =
    (let cutoff = now - loginWindow; kept = filter (\<lambda>t. t > cutoff) (times_of l key)
     in (kept, AList.update key kept l))"

definition limiter_allow :: "string \<Rightarrow> gotime \<Rightarrow> loginLimiter \<Rightarrow> bool \<times> loginLimiter" where
  "limiter_allow key now l = (case limiter_recent key now l of (kept, l) \<Rightarrow> (length kept < loginMaxFails, l))"

definition limiter_fail :: "string \<Rightarrow> gotime \<Rightarrow> loginLimiter \<Rightarrow> loginLimiter" where
  "limiter_fail key now l =
    (case limiter_recent key now l of (kept, l) \<Rightarrow>
       let l = AList.update key (kept @ [now]) l
       in if length l > limiterMaxKeys
          then let cutoff = now - loginWindow in filter (\<lambda>(k, v). \<not> (length v = 0 \<or> last v < cutoff)) l
          else l)"

section \<open>What the limiter allows\<close>

text \<open>Calls on the limiter with time passing between them; the log holds every failure with its time.\<close>

datatype limiter_op = Wait nat | Asked string | Failed string

record limited =
  ld_now :: gotime
  ld_limiter :: loginLimiter
  ld_log :: "(string \<times> gotime) list"

fun limiter_step :: "limiter_op \<Rightarrow> limited \<Rightarrow> limited" where
  "limiter_step (Wait d) s = s\<lparr>ld_now := ld_now s + int d\<rparr>"
| "limiter_step (Asked key) s = s\<lparr>ld_limiter := snd (limiter_allow key (ld_now s) (ld_limiter s))\<rparr>"
| "limiter_step (Failed key) s =
    s\<lparr>ld_limiter := limiter_fail key (ld_now s) (ld_limiter s), ld_log := ld_log s @ [(key, ld_now s)]\<rparr>"

definition limiter_run :: "limiter_op list \<Rightarrow> limited" where
  "limiter_run ops = fold limiter_step ops \<lparr>ld_now = 0, ld_limiter = [], ld_log = []\<rparr>"

definition within_window :: "gotime \<Rightarrow> gotime list \<Rightarrow> gotime list" where
  "within_window now = filter (\<lambda>t. t > now - loginWindow)"

definition failures_of :: "string \<Rightarrow> (string \<times> gotime) list \<Rightarrow> gotime list" where
  "failures_of key fails = map snd (filter (\<lambda>(k, t). k = key) fails)"

text \<open>What the limiter holds of a source against what happened.\<close>

definition times_true :: "gotime \<Rightarrow> gotime list \<Rightarrow> gotime list \<Rightarrow> bool" where
  "times_true now ts fails \<longleftrightarrow> sorted ts \<and> (\<forall>t \<in> set ts. t \<le> now) \<and> within_window now ts = within_window now fails"

definition limiter_true :: "gotime \<Rightarrow> loginLimiter \<Rightarrow> (string \<times> gotime) list \<Rightarrow> bool" where
  "limiter_true now l fails \<longleftrightarrow> distinct (map fst l) \<and> (\<forall>key. times_true now (times_of l key) (failures_of key fails))"

lemma AList_update_twice [simp]: "AList.update k v (AList.update k w m) = AList.update k v m"
  by (induction m) auto

lemma times_of_update [simp]: "times_of (AList.update k ts l) key = (if key = k then ts else times_of l key)"
  by (simp add: times_of_def update_conv')

lemma within_window_later: "now \<le> now' \<Longrightarrow> within_window now' (within_window now ts) = within_window now' ts"
  by (induction ts) (auto simp: within_window_def)

lemma within_window_append [simp]: "within_window now (ts @ us) = within_window now ts @ within_window now us"
  by (simp add: within_window_def)

lemma failures_of_snoc [simp]: "failures_of key (fails @ [(k, t)]) = failures_of key fails @ (if k = key then [t] else [])"
  by (simp add: failures_of_def)

lemma limiter_recent_eq:
  "limiter_recent key now l = (within_window now (times_of l key), AList.update key (within_window now (times_of l key)) l)"
  by (simp add: limiter_recent_def within_window_def Let_def)

lemma times_of_filter:
  "distinct (map fst l) \<Longrightarrow> times_of (filter (\<lambda>(k, v). P v) l) key =
    (if P (times_of l key) then times_of l key else [])"
proof -
  assume "distinct (map fst l)"
  then have "map_of (filter (\<lambda>(k, v). P v) l) key = (case map_of l key of None \<Rightarrow> None | Some v \<Rightarrow> if P v then Some v else None)"
    by (induction l) (auto simp: image_iff dest: map_of_SomeD split: option.splits)
  then show ?thesis by (simp add: times_of_def split: option.splits)
qed

lemma old_window: "sorted ts \<Longrightarrow> ts = [] \<or> last ts < now - loginWindow \<Longrightarrow> within_window now ts = []"
proof -
  assume s: "sorted ts" and old: "ts = [] \<or> last ts < now - loginWindow"
  have "t \<le> last ts" if "t \<in> set ts" for t
    using s that by (cases ts rule: rev_cases) (auto simp: sorted_append)
  with old show "within_window now ts = []" by (force simp: within_window_def filter_empty_conv)
qed

lemma within_now: "within_window now [now] = [now]"
  by (simp add: within_window_def loginWindow_def)

lemma times_true_later: "times_true now ts fails \<Longrightarrow> now \<le> now' \<Longrightarrow> times_true now' ts fails"
  using within_window_later [of now now' ts] within_window_later [of now now' fails] by (force simp: times_true_def)

lemma times_true_recent: "times_true now ts fails \<Longrightarrow> times_true now (within_window now ts) fails"
proof -
  assume t: "times_true now ts fails"
  have "sorted ts" "\<forall>t \<in> set ts. t \<le> now" using t by (simp_all add: times_true_def)
  then have "sorted (within_window now ts)" "\<forall>t \<in> set (within_window now ts). t \<le> now"
    by (simp_all add: within_window_def sorted_wrt_filter)
  then show ?thesis using t within_window_later [of now now ts] by (simp add: times_true_def)
qed

lemma times_true_failed: "times_true now ts fails \<Longrightarrow> times_true now (ts @ [now]) (fails @ [now])"
  by (auto simp: times_true_def sorted_append within_now)

lemma times_true_evicted:
  "times_true now ts fails \<Longrightarrow> ts = [] \<or> last ts < now - loginWindow \<Longrightarrow> times_true now [] fails"
  using old_window [of ts now] by (auto simp: times_true_def within_window_def)

lemma limiter_true_asked: "limiter_true now l fails \<Longrightarrow> limiter_true now (snd (limiter_allow key now l)) fails"
  by (auto simp: limiter_true_def limiter_allow_def limiter_recent_eq distinct_update intro: times_true_recent)

lemma limiter_true_failed:
  assumes ok: "limiter_true now l fails"
  shows "limiter_true now (limiter_fail key now l) (fails @ [(key, now)])"
proof -
  let ?l = "AList.update key (within_window now (times_of l key) @ [now]) l"
  let ?keep = "\<lambda>v. \<not> (length v = 0 \<or> last v < now - loginWindow)"
  have d: "distinct (map fst ?l)" using ok by (simp add: limiter_true_def distinct_update)
  have t: "times_true now (times_of ?l k) (failures_of k (fails @ [(key, now)]))" for k
    using ok by (auto simp: limiter_true_def intro: times_true_failed times_true_recent)
  have e: "times_true now (times_of (filter (\<lambda>(k, v). ?keep v) ?l) k) (failures_of k (fails @ [(key, now)]))" for k
    using t [of k] times_true_evicted [OF t [of k]] unfolding times_of_filter [OF d] by (simp split: if_split)
  have "limiter_fail key now l = (if length ?l > limiterMaxKeys then filter (\<lambda>(k, v). ?keep v) ?l else ?l)"
    unfolding limiter_fail_def limiter_recent_eq Let_def prod.case by simp
  moreover have "limiter_true now ?l (fails @ [(key, now)])" unfolding limiter_true_def using d t by blast
  moreover have "limiter_true now (filter (\<lambda>(k, v). ?keep v) ?l) (fails @ [(key, now)])"
    unfolding limiter_true_def using e distinct_map_filter [OF d] by blast
  ultimately show ?thesis by simp
qed

lemma limiter_step_true:
  "limiter_true (ld_now s) (ld_limiter s) (ld_log s) \<Longrightarrow>
    limiter_true (ld_now (limiter_step op s)) (ld_limiter (limiter_step op s)) (ld_log (limiter_step op s))"
  by (cases op) (auto simp: limiter_true_asked limiter_true_failed, auto simp: limiter_true_def intro: times_true_later)

lemma limiter_run_true:
  "limiter_true (ld_now (limiter_run ops)) (ld_limiter (limiter_run ops)) (ld_log (limiter_run ops))"
proof (induction ops rule: rev_induct)
  case Nil
  then show ?case by (simp add: limiter_run_def limiter_true_def times_of_def failures_of_def times_true_def)
next
  case (snoc op ops)
  then show ?case using limiter_step_true [of "limiter_run ops" op] by (simp add: limiter_run_def)
qed

text \<open>
  The limiter counts right. After any calls on it, with any time between them and whatever was
  evicted, a source may try again exactly when fewer than ten of its failures are less than a minute
  old, and asking changes no later answer.
\<close>

theorem limiter_exact:
  "let s = limiter_run ops
   in fst (limiter_allow key (ld_now s) (ld_limiter s)) =
     (length (filter (\<lambda>(k, t). k = key \<and> t > ld_now s - minute) (ld_log s)) < 10)"
proof -
  let ?s = "limiter_run ops"
  have "within_window (ld_now ?s) (times_of (ld_limiter ?s) key) = within_window (ld_now ?s) (failures_of key (ld_log ?s))"
    using limiter_run_true [of ops] by (simp add: limiter_true_def times_true_def)
  moreover have "length (within_window now (failures_of key fails)) = length (filter (\<lambda>(k, t). k = key \<and> t > now - minute) fails)" for now fails
    by (simp add: within_window_def failures_of_def loginWindow_def filter_map case_prod_unfold comp_def conj_commute)
  ultimately show ?thesis
    by (simp add: limiter_allow_def limiter_recent_eq loginMaxFails_def Let_def)
qed

text \<open>The bound on the keys is no bound: sources that all failed within the last minute are all kept.\<close>

lemma limiter_fresh:
  assumes "k \<notin> set ks"
  shows "limiter_fail k 0 (map (\<lambda>k. (k, [0])) ks) = map (\<lambda>k. (k, [0])) (ks @ [k])"
proof -
  let ?l = "map (\<lambda>k. (k, [0 :: gotime])) ks"
  have none: "map_of ?l k = None" using assms by (auto simp: map_of_eq_None_iff)
  then have "limiter_recent k 0 ?l = ([], AList.update k [] ?l)"
    by (simp add: limiter_recent_eq times_of_def within_window_def)
  moreover have "AList.update k [0] ?l = map (\<lambda>k. (k, [0])) (ks @ [k])" by (simp add: update_absent [OF none])
  ultimately show ?thesis by (simp add: limiter_fail_def Let_def loginWindow_def filter_id_conv)
qed

lemma limiter_unbounded:
  assumes "distinct keys"
  shows "length (ld_limiter (limiter_run (map Failed keys))) = length keys"
proof -
  have "ld_now (limiter_run (map Failed keys)) = 0 \<and> ld_limiter (limiter_run (map Failed keys)) = map (\<lambda>k. (k, [0])) keys"
    using assms by (induction keys rule: rev_induct) (auto simp: limiter_run_def limiter_fresh)
  then show ?thesis by simp
qed

end
