(* ===== verification/Web_Accounts.thy ===== *)
theory Web_Accounts
  imports Web_Login Qr_Matrix
begin

text \<open>
  People over HTTP (\<^verbatim>\<open>internal/ingest/auth_handlers.go\<close>, \<^verbatim>\<open>authenticate\<close> and the routes of
  \<^verbatim>\<open>server.go\<close>): signing in, the second factor, passwords, sessions and the administration of users.
  A request reads the clock once; what \<^verbatim>\<open>crypto/rand\<close> gives is part of the call.
\<close>

section \<open>Answers\<close>

record sessionView =
  sv_Email :: string
  sv_Role :: string
  sv_TenantID :: string
  sv_Scopes :: "string list"
  sv_TOTPEnabled :: bool
  sv_CSRF :: string

record userView =
  uv_ID :: string
  uv_Email :: string
  uv_Role :: string
  uv_TOTPEnabled :: bool
  uv_Disabled :: bool
  uv_LastLoginAt :: "gotime option"
  uv_CreatedAt :: gotime

record sessionRow =
  sw_UserAgent :: string
  sw_IP :: string
  sw_CreatedAt :: gotime
  sw_LastSeenAt :: gotime
  sw_Current :: bool

text \<open>The fixed texts of the map-valued answers are left out.\<close>

datatype web_body =
    Plain_Body body
  | TOTP_Required string
  | Session_Body sessionView
  | Signed_Out
  | TOTP_Secret string string string
  | TOTP_Enabled "string list"
  | TOTP_Disabled
  | Password_Changed
  | Password_Set
  | Users_Body "userView list"
  | User_Created string string string
  | User_Updated string
  | Reset_Issued string gotime
  | Sessions_Body "sessionRow list"
  | Sessions_Ended

record web_response =
  wr_Status :: int
  wr_RetryAfter :: "string option"
  wr_Cookies :: "cookie list"
  wr_Body :: web_body

section \<open>The server\<close>

text \<open>\<open>as_crypto\<close> is \<^verbatim>\<open>None\<close> when no account service is configured; \<open>as_clock\<close> is the database's clock.\<close>

record ('m, 'q) account_server =
  as_api :: "('m, 'q) Server"
  as_crypto :: "account_crypto option"
  as_clock :: gotime

abbreviation as_now :: "('m, 'q) account_server \<Rightarrow> gotime" where
  "as_now S \<equiv> sv_now (as_api S)"

record web_state =
  ws_db :: accounts
  ws_logins :: loginLimiter

type_synonym web_handler = "web_state \<Rightarrow> web_response \<times> web_state"

definition web_json :: "int \<Rightarrow> web_body \<Rightarrow> web_response" where
  "web_json status b = \<lparr>wr_Status = status, wr_RetryAfter = None, wr_Cookies = [], wr_Body = b\<rparr>"

definition reply :: "web_response \<Rightarrow> web_handler" where
  "reply r s = (r, s)"

definition plain :: "response \<Rightarrow> web_handler" where
  "plain r = reply \<lparr>wr_Status = rs_Status r, wr_RetryAfter = rs_RetryAfter r, wr_Cookies = [], wr_Body = Plain_Body (rs_Body r)\<rparr>"

definition refuse :: "web \<Rightarrow> int \<Rightarrow> string \<Rightarrow> string \<Rightarrow> string \<Rightarrow> web_handler" where
  "refuse W status code message field = plain (writeError (wb_request W) status code message field)"

definition on_db :: "'a account_call \<Rightarrow> (goerror + 'a \<Rightarrow> web_handler) \<Rightarrow> web_handler" where
  "on_db f g s = (case f (ws_db s) of (r, db) \<Rightarrow> g r (s\<lparr>ws_db := db\<rparr>))"

definition ask_logins :: "string \<Rightarrow> gotime \<Rightarrow> (bool \<Rightarrow> web_handler) \<Rightarrow> web_handler" where
  "ask_logins source now g s = (case limiter_allow source now (ws_logins s) of (ok, l) \<Rightarrow> g ok (s\<lparr>ws_logins := l\<rparr>))"

definition note_failure :: "string \<Rightarrow> gotime \<Rightarrow> web_handler \<Rightarrow> web_handler" where
  "note_failure source now h s = h (s\<lparr>ws_logins := limiter_fail source now (ws_logins s)\<rparr>)"

definition with_decoded :: "web \<Rightarrow> 'b decoded \<Rightarrow> ('b \<Rightarrow> web_handler) \<Rightarrow> web_handler" where
  "with_decoded W b g = (case decode (wb_request W) b of Inl r \<Rightarrow> plain r | Inr req \<Rightarrow> g req)"

definition domain_error :: "('m, 'q) account_server \<Rightarrow> web \<Rightarrow> goerror \<Rightarrow> web_handler" where
  "domain_error S W err = plain (writeDomainError (as_api S) (wb_request W) err)"

definition errorForAccount :: "('m, 'q) account_server \<Rightarrow> web \<Rightarrow> goerror \<Rightarrow> web_handler" where
  "errorForAccount S W err =
    (if errors_is err ErrInvalidCredentials
     then refuse W 401 ''invalid_credentials'' ''that email and password did not match'' ''''
     else if errors_is err ErrLocked
     then refuse W 429 ''locked'' ''too many attempts; the account is locked for a few minutes'' ''''
     else if errors_is err ErrTOTPInvalid then refuse W 401 ''invalid_code'' ''that code did not verify'' ''code''
     else if errors_is err ErrEmailTaken then refuse W 409 ''email_taken'' ''that email already has an account'' ''email''
     else if errors_is err ErrAccountNotFound then refuse W 404 ''not_found'' ''not found'' ''''
     else domain_error S W err)"

section \<open>Signing in\<close>

record loginRequest =
  lq_Email :: string
  lq_Password :: string
  lq_Code :: string

definition view_of_user :: "User \<Rightarrow> string \<Rightarrow> sessionView" where
  "view_of_user u csrf =
    \<lparr>sv_Email = us_Email u, sv_Role = us_Role u, sv_TenantID = us_TenantID u, sv_Scopes = Role_Scopes (us_Role u),
     sv_TOTPEnabled = us_TOTPEnabled u, sv_CSRF = csrf\<rparr>"

definition issueSession ::
  "('m, 'q) account_server \<Rightarrow> account_crypto \<Rightarrow> web \<Rightarrow> User \<Rightarrow> goerror + string \<Rightarrow> goerror + string \<Rightarrow> web_handler" where
  "issueSession S cr W u random csrf_random =
    on_db (StartSession cr (as_now S) (as_clock S) u (wb_UserAgent W) (clientIP W) random) (\<lambda>r. case r of
      Inl err \<Rightarrow> domain_error S W err
    | Inr (token, sess) \<Rightarrow>
        case NewToken cr csrf_random of
          Inl err \<Rightarrow> domain_error S W err
        | Inr (csrf, _) \<Rightarrow>
            reply ((web_json 200 (Session_Body (view_of_user u csrf)))
              \<lparr>wr_Cookies := [setSessionCookie W token (sn_ExpiresAt sess), setCSRFCookie W csrf (sn_ExpiresAt sess)]\<rparr>))"

definition handleLogin ::
  "('m, 'q) account_server \<Rightarrow> web \<Rightarrow> loginRequest decoded \<Rightarrow> goerror + string \<Rightarrow> goerror + string \<Rightarrow> web_handler" where
  "handleLogin S W b random csrf_random =
    (case as_crypto S of
       None \<Rightarrow> refuse W 501 ''unavailable'' ''user accounts are not configured on this deployment'' ''''
     | Some cr \<Rightarrow> with_decoded W b (\<lambda>req.
         let source = clientIP W
         in ask_logins source (as_now S) (\<lambda>ok.
              if \<not> ok then refuse W 429 ''slow_down'' ''too many failed sign-ins from this address; wait a minute'' ''''
              else on_db (Account_Authenticate cr (as_now S) (as_clock S) (lq_Email req) (lq_Password req)) (\<lambda>r. case r of
                Inl err \<Rightarrow> note_failure source (as_now S) (errorForAccount S W err)
              | Inr a \<Rightarrow>
                  if at_NeedsTOTP a
                  then if lq_Code req = '''' then reply (web_json 200 (TOTP_Required (us_ID (at_User a))))
                       else on_db (VerifySecondFactor cr (as_now S) (as_clock S) (us_ID (at_User a)) (lq_Code req)) (\<lambda>r. case r of
                              Inl err \<Rightarrow> note_failure source (as_now S) (errorForAccount S W err)
                            | Inr _ \<Rightarrow> issueSession S cr W (at_User a) random csrf_random)
                  else issueSession S cr W (at_User a) random csrf_random))))"

definition handleLogout :: "('m, 'q) account_server \<Rightarrow> web \<Rightarrow> web_handler" where
  "handleLogout S W =
    (let out = reply ((web_json 200 Signed_Out)\<lparr>wr_Cookies := clearAuthCookies W\<rparr>)
     in case wb_session W of
          None \<Rightarrow> out
        | Some c \<Rightarrow> case as_crypto S of None \<Rightarrow> out | Some cr \<Rightarrow> on_db (EndSession cr c) (\<lambda>_. out))"

definition handleMe :: "('m, 'q) account_server \<Rightarrow> web \<Rightarrow> web_handler" where
  "handleMe S W =
    (case rq_principal (wb_request W) of
       None \<Rightarrow> refuse W 401 ''unauthenticated'' ''not signed in'' ''''
     | Some p \<Rightarrow>
         let caller_only = reply (web_json 200 (Session_Body
               \<lparr>sv_Email = '''', sv_Role = '''', sv_TenantID = p_TenantID p, sv_Scopes = p_Scopes p, sv_TOTPEnabled = False,
                sv_CSRF = ''''\<rparr>))
         in case as_crypto S of
              None \<Rightarrow> caller_only
            | Some cr \<Rightarrow> on_db (UserByID (p_KeyID p)) (\<lambda>r. case r of
                Inl _ \<Rightarrow> caller_only
              | Inr u \<Rightarrow> reply (web_json 200 (Session_Body
                  (view_of_user u (case wb_csrf W of None \<Rightarrow> '''' | Some c \<Rightarrow> c))))))"

section \<open>The caller's own account\<close>

definition currentUser ::
  "('m, 'q) account_server \<Rightarrow> web \<Rightarrow> (account_crypto \<Rightarrow> User \<Rightarrow> web_handler) \<Rightarrow> web_handler" where
  "currentUser S W h =
    (case rq_principal (wb_request W) of
       None \<Rightarrow> refuse W 401 ''unauthenticated'' ''not signed in'' ''''
     | Some p \<Rightarrow>
         case as_crypto S of
           None \<Rightarrow> refuse W 401 ''unauthenticated'' ''not signed in'' ''''
         | Some cr \<Rightarrow> on_db (UserByID (p_KeyID p)) (\<lambda>r. case r of
             Inl _ \<Rightarrow> refuse W 403 ''not_a_user''
               ''this endpoint manages a user account; sign in rather than using an API key'' ''''
           | Inr u \<Rightarrow> h cr u))"

definition handleTOTPBegin :: "('m, 'q) account_server \<Rightarrow> web \<Rightarrow> goerror + string \<Rightarrow> web_handler" where
  "handleTOTPBegin S W random =
    currentUser S W (\<lambda>cr u.
      on_db (BeginTOTPEnrolment cr (as_clock S) u ''ReconSync'' random) (\<lambda>r. case r of
        Inl err \<Rightarrow> domain_error S W err
      | Inr (secret, uri) \<Rightarrow>
          reply (web_json 200 (TOTP_Secret secret uri (case QRSVG uri of Inl _ \<Rightarrow> '''' | Inr svg \<Rightarrow> svg)))))"

definition handleTOTPConfirm ::
  "('m, 'q) account_server \<Rightarrow> web \<Rightarrow> string decoded \<Rightarrow> (goerror + string) list \<Rightarrow> web_handler" where
  "handleTOTPConfirm S W b random =
    currentUser S W (\<lambda>cr u. with_decoded W b (\<lambda>code.
      on_db (ConfirmTOTPEnrolment cr (as_now S) (as_clock S) (us_ID u) code random) (\<lambda>r. case r of
        Inl err \<Rightarrow> errorForAccount S W err
      | Inr codes \<Rightarrow> reply (web_json 200 (TOTP_Enabled codes)))))"

definition handleTOTPDisable :: "('m, 'q) account_server \<Rightarrow> web \<Rightarrow> string decoded \<Rightarrow> web_handler" where
  "handleTOTPDisable S W b =
    currentUser S W (\<lambda>cr u. with_decoded W b (\<lambda>password.
      if \<not> VerifyPassword cr (us_PasswordHash u) password then errorForAccount S W ErrInvalidCredentials
      else on_db (DisableTOTP (as_clock S) (us_ID u)) (\<lambda>r. case r of
        Inl err \<Rightarrow> domain_error S W err
      | Inr _ \<Rightarrow> reply (web_json 200 TOTP_Disabled))))"

text \<open>The body: the current password and the next.\<close>

definition handleChangePassword ::
  "('m, 'q) account_server \<Rightarrow> web \<Rightarrow> (string \<times> string) decoded \<Rightarrow> goerror + string \<Rightarrow> web_handler" where
  "handleChangePassword S W b salt =
    currentUser S W (\<lambda>cr u. with_decoded W b (\<lambda>(current, new).
      on_db (ChangePassword cr (as_clock S) (us_ID u) current new salt) (\<lambda>r. case r of
        Inl err \<Rightarrow> errorForAccount S W err
      | Inr _ \<Rightarrow> reply ((web_json 200 Password_Changed)\<lparr>wr_Cookies := clearAuthCookies W\<rparr>))))"

definition handleListSessions :: "('m, 'q) account_server \<Rightarrow> web \<Rightarrow> web_handler" where
  "handleListSessions S W =
    currentUser S W (\<lambda>cr u.
      on_db (ListSessions (us_ID u) (as_now S)) (\<lambda>r. case r of
        Inl err \<Rightarrow> domain_error S W err
      | Inr sessions \<Rightarrow>
          let current = (case wb_session W of None \<Rightarrow> '''' | Some c \<Rightarrow> HashToken cr c)
          in reply (web_json 200 (Sessions_Body (map (\<lambda>s.
               \<lparr>sw_UserAgent = sn_UserAgent s, sw_IP = sn_IP s, sw_CreatedAt = sn_CreatedAt s,
                sw_LastSeenAt = sn_LastSeenAt s, sw_Current = (sn_TokenHash s = current)\<rparr>) sessions)))))"

definition handleRevokeSessions :: "('m, 'q) account_server \<Rightarrow> web \<Rightarrow> web_handler" where
  "handleRevokeSessions S W =
    currentUser S W (\<lambda>cr u.
      on_db (DeleteUserSessions (us_ID u)) (\<lambda>r. case r of
        Inl err \<Rightarrow> domain_error S W err
      | Inr _ \<Rightarrow> reply ((web_json 200 Sessions_Ended)\<lparr>wr_Cookies := clearAuthCookies W\<rparr>)))"

text \<open>The body: the token and the password.\<close>

definition handleCompleteReset ::
  "('m, 'q) account_server \<Rightarrow> web \<Rightarrow> (string \<times> string) decoded \<Rightarrow> goerror + string \<Rightarrow> web_handler" where
  "handleCompleteReset S W b salt =
    (case as_crypto S of
       None \<Rightarrow> refuse W 501 ''unavailable'' ''user accounts are not configured'' ''''
     | Some cr \<Rightarrow> with_decoded W b (\<lambda>(token, password).
         let source = clientIP W
         in ask_logins source (as_now S) (\<lambda>ok.
              if \<not> ok then refuse W 429 ''slow_down'' ''too many attempts'' ''''
              else on_db (CompleteReset cr (as_now S) (as_clock S) token password salt) (\<lambda>r. case r of
                Inl err \<Rightarrow> note_failure source (as_now S)
                  (if errors_is err ErrAccountNotFound
                   then refuse W 400 ''invalid_token'' ''that reset link is not valid; ask an administrator for a new one'' ''token''
                   else errorForAccount S W err)
              | Inr _ \<Rightarrow> reply (web_json 200 Password_Set)))))"

section \<open>Administration\<close>

definition requireAdmin ::
  "('m, 'q) account_server \<Rightarrow> web \<Rightarrow> (account_crypto \<Rightarrow> Principal \<Rightarrow> web_handler) \<Rightarrow> web_handler" where
  "requireAdmin S W h =
    (case rq_principal (wb_request W) of
       None \<Rightarrow> refuse W 401 ''unauthenticated'' ''not signed in'' ''''
     | Some p \<Rightarrow>
         case as_crypto S of
           None \<Rightarrow> refuse W 501 ''unavailable'' ''user accounts are not configured'' ''''
         | Some cr \<Rightarrow>
             if \<not> HasScope p ScopeEndpointsWrite
             then refuse W 403 ''forbidden'' ''managing users needs an administrator account'' ''''
             else h cr p)"

definition userViewOf :: "User \<Rightarrow> userView" where
  "userViewOf u =
    \<lparr>uv_ID = us_ID u, uv_Email = us_Email u, uv_Role = us_Role u, uv_TOTPEnabled = us_TOTPEnabled u,
     uv_Disabled = (us_DisabledAt u \<noteq> None), uv_LastLoginAt = us_LastLoginAt u, uv_CreatedAt = us_CreatedAt u\<rparr>"

definition handleListUsers :: "('m, 'q) account_server \<Rightarrow> web \<Rightarrow> web_handler" where
  "handleListUsers S W =
    requireAdmin S W (\<lambda>cr p.
      on_db (ListUsers (p_TenantID p)) (\<lambda>r. case r of
        Inl err \<Rightarrow> domain_error S W err
      | Inr users \<Rightarrow> reply (web_json 200 (Users_Body (map userViewOf users)))))"

record newUserRequest =
  nu_Email :: string
  nu_Password :: string
  nu_Role :: string

definition handleCreateUser ::
  "('m, 'q) account_server \<Rightarrow> web \<Rightarrow> newUserRequest decoded \<Rightarrow> goerror + string \<Rightarrow> goerror + string \<Rightarrow> web_handler" where
  "handleCreateUser S W b salt random =
    requireAdmin S W (\<lambda>cr p. with_decoded W b (\<lambda>req.
      on_db (Account_Create cr (as_clock S) (p_TenantID p) (nu_Email req) (nu_Password req) (nu_Role req) salt random) (\<lambda>r. case r of
        Inl err \<Rightarrow> errorForAccount S W err
      | Inr u \<Rightarrow> reply (web_json 201 (User_Created (us_ID u) (us_Email u) (us_Role u))))))"

text \<open>The body: the role and whether to disable, each of which may be absent.\<close>

definition handleUpdateUser ::
  "('m, 'q) account_server \<Rightarrow> web \<Rightarrow> string \<Rightarrow> (string option \<times> bool option) decoded \<Rightarrow> web_handler" where
  "handleUpdateUser S W i b =
    requireAdmin S W (\<lambda>cr p. with_decoded W b (\<lambda>(role, disabled).
      if i = p_KeyID p \<and> (role \<noteq> None \<or> disabled \<noteq> None)
      then refuse W 409 ''self_change''
        ''change your own role or status from another admin account, so a tenant is never left without one'' ''''
      else
        let updated = reply (web_json 200 (User_Updated i));
            disable = (case disabled of
              None \<Rightarrow> updated
            | Some off \<Rightarrow> on_db (SetUserDisabled (as_now S) (as_clock S) (p_TenantID p) i off) (\<lambda>r. case r of
                Inl err \<Rightarrow> errorForAccount S W err
              | Inr _ \<Rightarrow> updated))
        in case role of
             None \<Rightarrow> disable
           | Some role \<Rightarrow>
               if \<not> Role_Valid role then refuse W 400 ''invalid_request'' ''role must be viewer, operator or admin'' ''role''
               else on_db (UpdateUserRole (as_clock S) (p_TenantID p) i role) (\<lambda>r. case r of
                      Inl err \<Rightarrow> errorForAccount S W err
                    | Inr _ \<Rightarrow> disable)))"

definition handleIssueReset :: "('m, 'q) account_server \<Rightarrow> web \<Rightarrow> string \<Rightarrow> goerror + string \<Rightarrow> web_handler" where
  "handleIssueReset S W i random =
    requireAdmin S W (\<lambda>cr p.
      on_db (UserByID i) (\<lambda>r. case r of
        Inl _ \<Rightarrow> refuse W 404 ''not_found'' ''no such user'' ''''
      | Inr target \<Rightarrow>
          if us_TenantID target \<noteq> p_TenantID p then refuse W 404 ''not_found'' ''no such user'' ''''
          else on_db (IssueReset cr (as_now S) (us_ID target) random) (\<lambda>r. case r of
            Inl err \<Rightarrow> domain_error S W err
          | Inr (token, expires) \<Rightarrow> reply (web_json 200 (Reset_Issued token expires)))))"

section \<open>Who is calling\<close>

text \<open>Resolving a session only reads.\<close>

definition principalFromSession :: "('m, 'q) account_server \<Rightarrow> web \<Rightarrow> accounts \<Rightarrow> (Principal \<times> Session) option" where
  "principalFromSession S W db =
    (case as_crypto S of
       None \<Rightarrow> None
     | Some cr \<Rightarrow>
     case wb_session W of
       None \<Rightarrow> None
     | Some c \<Rightarrow>
         if c = '''' then None
         else case fst (Account_Resolve cr (as_now S) c db) of
                Inl _ \<Rightarrow> None
              | Inr (sess, u) \<Rightarrow>
                  Some (\<lparr>p_TenantID = us_TenantID u, p_KeyID = us_ID u, p_Environment = '''',
                         p_Scopes = Role_Scopes (us_Role u)\<rparr>, sess))"

definition as_caller :: "Principal \<Rightarrow> web \<Rightarrow> web" where
  "as_caller p W = W\<lparr>wb_request := (wb_request W)\<lparr>rq_principal := Some p\<rparr>\<rparr>"

definition web_authenticate :: "('m, 'q) account_server \<Rightarrow> string \<Rightarrow> web \<Rightarrow> (web \<Rightarrow> web_handler) \<Rightarrow> web_handler" where
  "web_authenticate S method W next_handler s =
    (case principalFromSession S W (ws_db s) of
       Some (p, sess) \<Rightarrow>
         (case requireCSRF method W of
            Some r \<Rightarrow> plain r s
          | None \<Rightarrow> on_db (TouchSession (sn_TokenHash sess) (as_now S)) (\<lambda>_. next_handler (as_caller p W)) s)
     | None \<Rightarrow>
         (case wb_key W of
            Inl _ \<Rightarrow> refuse W 401 ''unauthenticated'' ''invalid api key'' '''' s
          | Inr p \<Rightarrow> next_handler (as_caller p W) s))"

datatype web_call =
    Post_Login "loginRequest decoded" "goerror + string" "goerror + string"
  | Post_Reset "(string \<times> string) decoded" "goerror + string"
  | Get_Me
  | Post_Logout
  | Post_Password "(string \<times> string) decoded" "goerror + string"
  | Post_TOTP_Begin "goerror + string"
  | Post_TOTP_Confirm "string decoded" "(goerror + string) list"
  | Post_TOTP_Disable "string decoded"
  | Get_Sessions
  | Delete_Sessions
  | Get_Users
  | Post_User "newUserRequest decoded" "goerror + string" "goerror + string"
  | Patch_User string "(string option \<times> bool option) decoded"
  | Post_User_Reset string "goerror + string"

definition route_method :: "web_call \<Rightarrow> string" where
  "route_method c =
    (case c of
       Get_Me \<Rightarrow> ''GET'' | Get_Sessions \<Rightarrow> ''GET'' | Get_Users \<Rightarrow> ''GET''
     | Delete_Sessions \<Rightarrow> ''DELETE'' | Patch_User _ _ \<Rightarrow> ''PATCH'' | _ \<Rightarrow> ''POST'')"

fun web_route :: "('m, 'q) account_server \<Rightarrow> web_call \<Rightarrow> web \<Rightarrow> web_handler" where
  "web_route S Get_Me W = handleMe S W"
| "web_route S Post_Logout W = handleLogout S W"
| "web_route S (Post_Password b salt) W = handleChangePassword S W b salt"
| "web_route S (Post_TOTP_Begin random) W = handleTOTPBegin S W random"
| "web_route S (Post_TOTP_Confirm b random) W = handleTOTPConfirm S W b random"
| "web_route S (Post_TOTP_Disable b) W = handleTOTPDisable S W b"
| "web_route S Get_Sessions W = handleListSessions S W"
| "web_route S Delete_Sessions W = handleRevokeSessions S W"
| "web_route S Get_Users W = handleListUsers S W"
| "web_route S (Post_User b salt random) W = handleCreateUser S W b salt random"
| "web_route S (Patch_User i b) W = handleUpdateUser S W i b"
| "web_route S (Post_User_Reset i random) W = handleIssueReset S W i random"
| "web_route S (Post_Login b random csrf_random) W = handleLogin S W b random csrf_random"
| "web_route S (Post_Reset b salt) W = handleCompleteReset S W b salt"

definition serve_web :: "('m, 'q) account_server \<Rightarrow> web \<Rightarrow> web_call \<Rightarrow> web_handler" where
  "serve_web S W c =
    (case c of
       Post_Login _ _ _ \<Rightarrow> web_route S c W
     | Post_Reset _ _ \<Rightarrow> web_route S c W
     | _ \<Rightarrow> web_authenticate S (route_method c) W (web_route S c))"

end
