(* ===== verification/Web_Account_Safety.thy ===== *)
theory Web_Account_Safety
  imports Web_Accounts Account_Codes
begin

text \<open>
  What a request about accounts may do. Every request is a history of account calls that its caller
  may make, so what holds over any such history (lockout, revocation, single use) holds for the
  server.
\<close>

section \<open>Requests as histories of account calls\<close>

fun allowed_run :: "account_crypto \<Rightarrow> (accounts \<Rightarrow> account_op \<Rightarrow> bool) \<Rightarrow> account_op list \<Rightarrow> accounts \<Rightarrow> bool" where
  "allowed_run cr P [] db = True"
| "allowed_run cr P (op # ops) db = (P db op \<and> allowed_run cr P ops (account_step cr op db))"

definition acts :: "account_crypto \<Rightarrow> (accounts \<Rightarrow> account_op \<Rightarrow> bool) \<Rightarrow> web_handler \<Rightarrow> web_state \<Rightarrow> bool" where
  "acts cr P h s \<longleftrightarrow>
    (\<exists>ops. allowed_run cr P ops (ws_db s) \<and> ws_db (snd (h s)) = account_run cr ops (ws_db s))"

lemma acts_reply: "acts cr P (reply r) s" "acts cr P (plain q) s" "acts cr P (refuse W status code message field) s"
  "acts cr P (domain_error S W err) s"
  by (auto simp: acts_def reply_def plain_def refuse_def domain_error_def intro: exI [of _ "[]"])

lemma acts_read:
  "snd (f (ws_db s)) = ws_db s \<Longrightarrow> acts cr P (g (fst (f (ws_db s)))) s \<Longrightarrow> acts cr P (on_db f g) s"
proof -
  assume r: "snd (f (ws_db s)) = ws_db s" and g: "acts cr P (g (fst (f (ws_db s)))) s"
  have "s\<lparr>ws_db := ws_db s\<rparr> = s" by simp
  then have "on_db f g s = g (fst (f (ws_db s))) s" by (simp only: on_db_def case_prod_unfold r)
  then show ?thesis using g by (simp add: acts_def)
qed

lemma acts_call:
  assumes "snd (f (ws_db s)) = account_step cr op (ws_db s)" "P (ws_db s) op"
    and "acts cr P (g (fst (f (ws_db s)))) (s\<lparr>ws_db := account_step cr op (ws_db s)\<rparr>)"
  shows "acts cr P (on_db f g) s"
proof -
  obtain ops where "allowed_run cr P ops (account_step cr op (ws_db s))"
    "ws_db (snd (g (fst (f (ws_db s))) (s\<lparr>ws_db := account_step cr op (ws_db s)\<rparr>))) = account_run cr ops (account_step cr op (ws_db s))"
    using assms(3) by (auto simp: acts_def)
  then show ?thesis
    using assms(1,2) unfolding acts_def on_db_def by (intro exI [of _ "op # ops"]) (simp add: case_prod_unfold)
qed

lemma acts_limiter:
  "(\<And>ok l. acts cr P (g ok) (s\<lparr>ws_logins := l\<rparr>)) \<Longrightarrow> acts cr P (ask_logins source now g) s"
  "(\<And>l. acts cr P h (s\<lparr>ws_logins := l\<rparr>)) \<Longrightarrow> acts cr P (note_failure source now h) s"
proof -
  assume g: "\<And>ok l. acts cr P (g ok) (s\<lparr>ws_logins := l\<rparr>)"
  obtain ok l where l: "limiter_allow source now (ws_logins s) = (ok, l)" by (rule prod.exhaust)
  then have "ask_logins source now g s = g ok (s\<lparr>ws_logins := l\<rparr>)" by (simp add: ask_logins_def)
  then show "acts cr P (ask_logins source now g) s" using g [of ok l] by (simp add: acts_def)
next
  assume h: "\<And>l. acts cr P h (s\<lparr>ws_logins := l\<rparr>)"
  show "acts cr P (note_failure source now h) s"
    using h [of "limiter_fail source now (ws_logins s)"] by (simp add: acts_def note_failure_def)
qed

lemma acts_decoded: "(\<And>req. acts cr P (g req) s) \<Longrightarrow> acts cr P (with_decoded W b g) s"
  by (simp add: with_decoded_def acts_reply split: sum.split)

lemma acts_if: "(c \<Longrightarrow> acts cr P f s) \<Longrightarrow> (\<not> c \<Longrightarrow> acts cr P g s) \<Longrightarrow> acts cr P (if c then f else g) s"
  by simp

lemma acts_case_sum:
  "(\<And>e. r = Inl e \<Longrightarrow> acts cr P (f e) s) \<Longrightarrow> (\<And>x. r = Inr x \<Longrightarrow> acts cr P (g x) s) \<Longrightarrow>
    acts cr P (case r of Inl e \<Rightarrow> f e | Inr x \<Rightarrow> g x) s"
  by (cases r) simp_all

lemma acts_case_prod: "(\<And>x y. p = (x, y) \<Longrightarrow> acts cr P (f x y) s) \<Longrightarrow> acts cr P (case p of (x, y) \<Rightarrow> f x y) s"
  by (cases p) simp

lemma acts_case_option:
  "(r = None \<Longrightarrow> acts cr P f s) \<Longrightarrow> (\<And>x. r = Some x \<Longrightarrow> acts cr P (g x) s) \<Longrightarrow>
    acts cr P (case r of None \<Rightarrow> f | Some x \<Rightarrow> g x) s"
  by (cases r) simp_all

lemma acts_error: "acts cr P (errorForAccount S W err) s"
  unfolding errorForAccount_def by (intro acts_if acts_reply)

lemmas acts_rules = acts_reply acts_error acts_decoded acts_if acts_case_sum acts_case_prod acts_case_option acts_limiter

section \<open>What a caller may do\<close>

text \<open>
  A person may act on their own account; who holds \<^verbatim>\<open>endpoints:write\<close> may also create users of their
  tenant, change them and issue reset links for them. The rest is the session being noted as used,
  the session of the request being ended, and reading.
\<close>

definition own_account :: "Principal \<Rightarrow> account_op \<Rightarrow> bool" where
  "own_account p op =
    (case op of
       Change_Password _ i _ _ _ \<Rightarrow> i = p_KeyID p
     | Begin_TOTP _ u _ \<Rightarrow> us_ID u = p_KeyID p
     | Confirm_TOTP _ _ i _ _ \<Rightarrow> i = p_KeyID p
     | Turn_Off_TOTP _ i \<Rightarrow> i = p_KeyID p
     | Revoke_Sessions i \<Rightarrow> i = p_KeyID p
     | _ \<Rightarrow> False)"

definition in_tenant :: "string \<Rightarrow> string \<Rightarrow> accounts \<Rightarrow> bool" where
  "in_tenant a i db = (case map_of (db_users db) i of None \<Rightarrow> False | Some u \<Rightarrow> us_TenantID u = a)"

definition administers :: "Principal \<Rightarrow> accounts \<Rightarrow> account_op \<Rightarrow> bool" where
  "administers p db op \<longleftrightarrow> HasScope p ScopeEndpointsWrite \<and>
    (case op of
       New_User _ a _ _ _ _ _ \<Rightarrow> a = p_TenantID p
     | Set_Role _ a i _ \<Rightarrow> a = p_TenantID p \<and> i \<noteq> p_KeyID p
     | Set_Disabled _ _ a i _ \<Rightarrow> a = p_TenantID p \<and> i \<noteq> p_KeyID p
     | Issue_Reset _ i _ \<Rightarrow> in_tenant (p_TenantID p) i db
     | _ \<Rightarrow> False)"

definition housekeeping :: "web \<Rightarrow> account_op \<Rightarrow> bool" where
  "housekeeping W op =
    (case op of Touch _ _ \<Rightarrow> True | Sign_Out token \<Rightarrow> wb_session W = Some token | _ \<Rightarrow> False)"

text \<open>Nobody, signing in: the guesses and the session they earn; with a reset link, completing it.\<close>

definition anonymous :: "web_call \<Rightarrow> account_op \<Rightarrow> bool" where
  "anonymous c op =
    (case c of
       Post_Login _ _ _ \<Rightarrow> (case op of Sign_In _ _ _ _ \<Rightarrow> True | Second_Factor _ _ _ _ \<Rightarrow> True | Open_Session _ _ _ _ _ _ \<Rightarrow> True | _ \<Rightarrow> False)
     | Post_Reset _ _ \<Rightarrow> (case op of Complete_Reset _ _ _ _ _ \<Rightarrow> True | _ \<Rightarrow> False)
     | _ \<Rightarrow> False)"

text \<open>Who a request comes from: the session first, if its CSRF token is there, and otherwise the key.\<close>

definition caller_of :: "('m, 'q) account_server \<Rightarrow> web_call \<Rightarrow> web \<Rightarrow> accounts \<Rightarrow> Principal option" where
  "caller_of S c W db =
    (case principalFromSession S W db of
       Some (p, sess) \<Rightarrow> if requireCSRF (route_method c) W = None then Some p else None
     | None \<Rightarrow> (case wb_key W of Inl _ \<Rightarrow> None | Inr p \<Rightarrow> Some p))"

definition permitted :: "Principal option \<Rightarrow> web \<Rightarrow> web_call \<Rightarrow> accounts \<Rightarrow> account_op \<Rightarrow> bool" where
  "permitted who W c db op \<longleftrightarrow> anonymous c op \<or>
    (case who of None \<Rightarrow> False | Some p \<Rightarrow> own_account p op \<or> administers p db op \<or> housekeeping W op)"

lemma acts_currentUser:
  assumes cr: "as_crypto S = Some cr" and p: "rq_principal (wb_request W) = Some p"
    and h: "\<And>u. fst (UserByID (p_KeyID p) (ws_db s)) = Inr u \<Longrightarrow> acts cr P (h cr u) s"
  shows "acts cr P (currentUser S W h) s"
  unfolding currentUser_def cr p option.case
  by (rule acts_read) (auto intro!: acts_rules h)

lemma acts_requireAdmin:
  assumes cr: "as_crypto S = Some cr" and p: "rq_principal (wb_request W) = Some p"
    and h: "HasScope p ScopeEndpointsWrite \<Longrightarrow> acts cr P (h cr p) s"
  shows "acts cr P (requireAdmin S W h) s"
  unfolding requireAdmin_def cr p option.case by (intro acts_rules) (simp add: h)

lemma acts_step:
  "snd (f (ws_db s)) = account_step cr op (ws_db s) \<Longrightarrow> P (ws_db s) op \<Longrightarrow>
    (\<And>r s'. acts cr P (g r) s') \<Longrightarrow> acts cr P (on_db f g) s"
  by (rule acts_call)

lemma ListSessions_snd [simp]: "snd (ListSessions i now db) = db"
  by (simp add: ListSessions_def)

lemma ListUsers_snd [simp]: "snd (ListUsers a db) = db"
  by (simp add: ListUsers_def)

lemma handlers_act:
  assumes cr: "as_crypto S = Some cr" and p: "rq_principal (wb_request W) = Some p" and ok: "keys_ok (ws_db s)"
    and P: "\<And>db op. own_account p op \<or> administers p db op \<or> housekeeping W op \<Longrightarrow> P db op"
  shows "acts cr P (handleMe S W) s" "acts cr P (handleLogout S W) s"
    "acts cr P (handleChangePassword S W b1 salt) s" "acts cr P (handleTOTPBegin S W random) s"
    "acts cr P (handleTOTPConfirm S W b2 randoms) s" "acts cr P (handleTOTPDisable S W b2) s"
    "acts cr P (handleListSessions S W) s" "acts cr P (handleRevokeSessions S W) s"
    "acts cr P (handleListUsers S W) s" "acts cr P (handleCreateUser S W b3 salt random) s"
    "acts cr P (handleUpdateUser S W i b4) s" "acts cr P (handleIssueReset S W i random) s"
proof -
  have me: "us_ID u = p_KeyID p" if "fst (UserByID (p_KeyID p) (ws_db s)) = Inr u" for u
    using UserByID_row [OF ok that] by simp
  note mine = acts_currentUser [OF cr p] acts_rules
  note admin = acts_requireAdmin [OF cr p] acts_rules
  show "acts cr P (handleMe S W) s"
    unfolding handleMe_def p cr option.case Let_def by (rule acts_read) (auto intro!: acts_rules)
  show "acts cr P (handleLogout S W) s"
    unfolding handleLogout_def cr option.case Let_def
    by (intro acts_rules acts_step [where op = "Sign_Out (the (wb_session W))"])
      (auto simp: account_step_def housekeeping_def intro!: P acts_rules)
  show "acts cr P (handleChangePassword S W b1 salt) s"
    unfolding handleChangePassword_def
    by (intro mine acts_step [where op = "Change_Password (as_clock S) (p_KeyID p) _ _ salt"])
      (auto simp: account_step_def own_account_def me intro!: P acts_rules)
  show "acts cr P (handleTOTPBegin S W random) s"
    unfolding handleTOTPBegin_def
    by (intro mine acts_step [where op = "Begin_TOTP (as_clock S) _ random"])
      (auto simp: account_step_def own_account_def me intro!: P acts_rules)
  show "acts cr P (handleTOTPConfirm S W b2 randoms) s"
    unfolding handleTOTPConfirm_def
    by (intro mine acts_step [where op = "Confirm_TOTP (as_now S) (as_clock S) (p_KeyID p) _ randoms"])
      (auto simp: account_step_def own_account_def me intro!: P acts_rules)
  show "acts cr P (handleTOTPDisable S W b2) s"
    unfolding handleTOTPDisable_def
    by (intro mine acts_step [where op = "Turn_Off_TOTP (as_clock S) (p_KeyID p)"])
      (auto simp: account_step_def own_account_def me intro!: P acts_rules)
  show "acts cr P (handleListSessions S W) s"
    unfolding handleListSessions_def Let_def by (intro mine acts_read) (auto intro!: acts_rules)
  show "acts cr P (handleRevokeSessions S W) s"
    unfolding handleRevokeSessions_def
    by (intro mine acts_step [where op = "Revoke_Sessions (p_KeyID p)"])
      (auto simp: account_step_def own_account_def me intro!: P acts_rules)
  show "acts cr P (handleListUsers S W) s"
    unfolding handleListUsers_def by (intro admin acts_read) (auto intro!: acts_rules)
  show "acts cr P (handleCreateUser S W b3 salt random) s"
    unfolding handleCreateUser_def
    by (intro admin acts_step [where op = "New_User (as_clock S) (p_TenantID p) _ _ _ salt random"])
      (auto simp: account_step_def administers_def intro!: P acts_rules)
  show "acts cr P (handleUpdateUser S W i b4) s"
    unfolding handleUpdateUser_def Let_def
    by (intro admin acts_step [where op = "Set_Disabled (as_now S) (as_clock S) (p_TenantID p) i _"]
        acts_step [where op = "Set_Role (as_clock S) (p_TenantID p) i _"])
      (auto simp: account_step_def administers_def intro!: P acts_rules)
  show "acts cr P (handleIssueReset S W i random) s"
    unfolding handleIssueReset_def
  proof (intro admin, rule acts_read)
    assume scope: "HasScope p ScopeEndpointsWrite"
    show "acts cr P (case fst (UserByID i (ws_db s)) of
        Inl _ \<Rightarrow> refuse W 404 ''not_found'' ''no such user'' ''''
      | Inr target \<Rightarrow>
          if us_TenantID target \<noteq> p_TenantID p then refuse W 404 ''not_found'' ''no such user'' ''''
          else on_db (IssueReset cr (as_now S) (us_ID target) random) (\<lambda>r. case r of
            Inl err \<Rightarrow> domain_error S W err
          | Inr (token, expires) \<Rightarrow> reply (web_json 200 (Reset_Issued token expires)))) s"
    proof (intro acts_rules)
      fix target
      assume t: "fst (UserByID i (ws_db s)) = Inr target" and own: "\<not> us_TenantID target \<noteq> p_TenantID p"
      have "us_ID target = i" "in_tenant (p_TenantID p) i (ws_db s)"
        using UserByID_row [OF ok t] own by (simp_all add: in_tenant_def)
      then show "acts cr P (on_db (IssueReset cr (as_now S) (us_ID target) random) (\<lambda>r. case r of
            Inl err \<Rightarrow> domain_error S W err
          | Inr (token, expires) \<Rightarrow> reply (web_json 200 (Reset_Issued token expires)))) s"
        using scope
        by (intro acts_step [where op = "Issue_Reset (as_now S) i random"])
          (auto simp: account_step_def administers_def intro!: P acts_rules)
    qed
  qed simp
qed

lemma issueSession_acts:
  assumes "\<And>db op. anonymous (Post_Login b random csrf_random) op \<Longrightarrow> P db op"
  shows "acts cr P (issueSession S cr W u random csrf_random) s"
  unfolding issueSession_def
  by (intro acts_step [where op = "Open_Session (as_now S) (as_clock S) u (wb_UserAgent W) (clientIP W) random"])
    (auto simp: account_step_def anonymous_def intro!: assms acts_rules)

lemma sign_in_acts:
  assumes cr: "as_crypto S = Some cr" and P: "\<And>db op. anonymous (Post_Login b random csrf_random) op \<Longrightarrow> P db op"
  shows "acts cr P (handleLogin S W b random csrf_random) s"
proof -
  note issue = issueSession_acts [of b random csrf_random P, OF P]
  show ?thesis
    unfolding handleLogin_def cr option.case Let_def
    by (intro acts_rules issue acts_step [where op = "Sign_In (as_now S) (as_clock S) _ _"]
        acts_step [where op = "Second_Factor (as_now S) (as_clock S) _ _"])
      (auto simp: account_step_def anonymous_def intro!: P acts_rules issue)
qed

lemma reset_acts:
  assumes cr: "as_crypto S = Some cr" and P: "\<And>db op. anonymous (Post_Reset b salt) op \<Longrightarrow> P db op"
  shows "acts cr P (handleCompleteReset S W b salt) s"
  unfolding handleCompleteReset_def cr option.case Let_def
  by (intro acts_rules acts_step [where op = "Complete_Reset (as_now S) (as_clock S) _ _ salt"])
    (auto simp: account_step_def anonymous_def intro!: P acts_rules)

lemma route_acts:
  assumes cr: "as_crypto S = Some cr" and p: "rq_principal (wb_request W) = Some p" and ok: "keys_ok (ws_db s)"
    and P: "\<And>db op. own_account p op \<or> administers p db op \<or> housekeeping W op \<Longrightarrow> P db op"
    and c: "case c of Post_Login _ _ _ \<Rightarrow> False | Post_Reset _ _ \<Rightarrow> False | _ \<Rightarrow> True"
  shows "acts cr P (web_route S c W) s"
  using c handlers_act [OF cr p ok P] by (cases c) simp_all

lemma authenticate_acts:
  assumes cr: "as_crypto S = Some cr" and ok: "keys_ok (ws_db s)"
    and c: "case c of Post_Login _ _ _ \<Rightarrow> False | Post_Reset _ _ \<Rightarrow> False | _ \<Rightarrow> True"
  shows "acts cr (permitted (caller_of S c W (ws_db s)) W c) (web_authenticate S (route_method c) W (web_route S c)) s"
proof -
  let ?P = "permitted (caller_of S c W (ws_db s)) W c"
  have go: "acts cr ?P (web_route S c (as_caller p W)) s'"
    if "caller_of S c W (ws_db s) = Some p" "keys_ok (ws_db s')" for p s'
  proof (rule route_acts [OF cr _ that(2) _ c])
    show "rq_principal (wb_request (as_caller p W)) = Some p" by (simp add: as_caller_def)
    show "?P db op" if "own_account p op \<or> administers p db op \<or> housekeeping (as_caller p W) op" for db op
      using that \<open>caller_of S c W (ws_db s) = Some p\<close>
      by (auto simp: permitted_def housekeeping_def as_caller_def split: account_op.splits)
  qed
  show ?thesis
  proof (cases "principalFromSession S W (ws_db s)")
    case None
    then show ?thesis
    proof (cases "wb_key W")
      case (Inl e)
      then show ?thesis using None acts_reply(3) by (simp add: acts_def web_authenticate_def)
    next
      case (Inr p)
      then have "caller_of S c W (ws_db s) = Some p" using None by (simp add: caller_of_def)
      from go [OF this ok] show ?thesis using None Inr by (simp add: acts_def web_authenticate_def)
    qed
  next
    case (Some q)
    obtain p sess where q: "principalFromSession S W (ws_db s) = Some (p, sess)" using Some by (cases q) auto
    show ?thesis
    proof (cases "requireCSRF (route_method c) W")
      case None
      then have who: "caller_of S c W (ws_db s) = Some p" using q by (simp add: caller_of_def)
      let ?op = "Touch (sn_TokenHash sess) (as_now S)"
      have "keys_ok (account_step cr ?op (ws_db s))"
        using table_keys.step [of "ws_db s" cr ?op] ok by (simp add: keys_kept_def)
      then have "acts cr ?P (on_db (TouchSession (sn_TokenHash sess) (as_now S)) (\<lambda>_. web_route S c (as_caller p W))) s"
        by (intro acts_call [where op = ?op] go [OF who])
          (simp_all add: account_step_def permitted_def who housekeeping_def)
      then show ?thesis using q None by (simp add: acts_def web_authenticate_def)
    next
      case (Some r)
      then show ?thesis using q acts_reply(2) by (simp add: acts_def web_authenticate_def)
    qed
  qed
qed

lemma request_acts:
  assumes cr: "as_crypto S = Some cr" and ok: "keys_ok (ws_db s)"
  shows "acts cr (permitted (caller_of S c W (ws_db s)) W c) (serve_web S W c) s"
proof (cases c)
  case (Post_Login b random csrf_random)
  then show ?thesis
    unfolding serve_web_def Post_Login web_call.case web_route.simps
    by (intro sign_in_acts [OF cr]) (simp add: permitted_def)
next
  case (Post_Reset b salt)
  then show ?thesis
    unfolding serve_web_def Post_Reset web_call.case web_route.simps
    by (intro reset_acts [OF cr]) (simp add: permitted_def)
qed (use authenticate_acts [OF cr ok, of c W] in \<open>simp_all add: serve_web_def\<close>)

text \<open>
  C22. A request about accounts does only what its caller may. After any history of account calls,
  whatever the request and whoever sends it, what it does to the tables is a sequence of account
  calls, each of them permitted: to a person for their own account, to an administrator for the
  users of their own tenant but not for themselves, and to nobody else except guessing a password
  or a code, opening the session it earns and completing a reset. A request that brings a session
  without its CSRF token, or no credential, has no caller.
\<close>

theorem account_requests_authorised:
  "let db = account_run cr before no_accounts; S = S\<lparr>as_crypto := Some cr\<rparr>
   in \<exists>ops. allowed_run cr (permitted (caller_of S c W db) W c) ops db \<and>
     ws_db (snd (serve_web S W c \<lparr>ws_db = db, ws_logins = l\<rparr>)) = account_run cr ops db"
proof -
  let ?s = "\<lparr>ws_db = account_run cr before no_accounts, ws_logins = l\<rparr>" and ?S = "S\<lparr>as_crypto := Some cr\<rparr>"
  have "keys_ok (ws_db ?s)" using run_keys [OF keys_start] by simp
  then show ?thesis using request_acts [of ?S cr ?s c W] by (simp add: acts_def Let_def)
qed

end
