(* ===== verification/Web_Sign_In.thy ===== *)
theory Web_Sign_In
  imports Web_Account_Safety
begin

text \<open>
  What it takes to be signed in over HTTP, and how a second factor is lost without the password it
  is meant to take.
\<close>

section \<open>Answers\<close>

definition answers :: "(web_response \<Rightarrow> bool) \<Rightarrow> web_handler \<Rightarrow> web_state \<Rightarrow> bool" where
  "answers Q h s \<longleftrightarrow> Q (fst (h s))"

lemma answers_reply: "Q r \<Longrightarrow> answers Q (reply r) s"
  by (simp add: answers_def reply_def)

lemma answers_plain: "Q \<lparr>wr_Status = rs_Status r, wr_RetryAfter = rs_RetryAfter r, wr_Cookies = [], wr_Body = Plain_Body (rs_Body r)\<rparr> \<Longrightarrow>
    answers Q (plain r) s"
  by (simp add: plain_def answers_reply)

lemma answers_on_db:
  "answers Q (g (fst (f (ws_db s)))) (s\<lparr>ws_db := snd (f (ws_db s))\<rparr>) \<Longrightarrow> answers Q (on_db f g) s"
  by (simp add: answers_def on_db_def case_prod_unfold)

lemma answers_limiter:
  "(\<And>l. answers Q (g (fst (limiter_allow source now (ws_logins s)))) (s\<lparr>ws_logins := l\<rparr>)) \<Longrightarrow> answers Q (ask_logins source now g) s"
  "(\<And>l. answers Q h (s\<lparr>ws_logins := l\<rparr>)) \<Longrightarrow> answers Q (note_failure source now h) s"
  by (simp_all add: answers_def ask_logins_def note_failure_def case_prod_unfold)

lemma answers_if: "(c \<Longrightarrow> answers Q f s) \<Longrightarrow> (\<not> c \<Longrightarrow> answers Q g s) \<Longrightarrow> answers Q (if c then f else g) s"
  by simp

lemma answers_case_sum:
  "(\<And>e. r = Inl e \<Longrightarrow> answers Q (f e) s) \<Longrightarrow> (\<And>x. r = Inr x \<Longrightarrow> answers Q (g x) s) \<Longrightarrow>
    answers Q (case r of Inl e \<Rightarrow> f e | Inr x \<Rightarrow> g x) s"
  by (cases r) simp_all

lemma answers_case_prod: "(\<And>x y. p = (x, y) \<Longrightarrow> answers Q (f x y) s) \<Longrightarrow> answers Q (case p of (x, y) \<Rightarrow> f x y) s"
  by (cases p) simp

lemma answers_case_option:
  "(r = None \<Longrightarrow> answers Q f s) \<Longrightarrow> (\<And>x. r = Some x \<Longrightarrow> answers Q (g x) s) \<Longrightarrow>
    answers Q (case r of None \<Rightarrow> f | Some x \<Rightarrow> g x) s"
  by (cases r) simp_all

lemmas answers_rules = answers_on_db answers_limiter answers_if answers_case_sum answers_case_prod answers_case_option

section \<open>Which answers sign somebody in\<close>

definition sets_session :: "web_response \<Rightarrow> bool" where
  "sets_session r \<longleftrightarrow> list_ex (\<lambda>c. ck_Expires c \<noteq> None) (wr_Cookies r)"

lemma sets_session_simps [simp]:
  "\<not> sets_session (web_json n b)"
  "\<not> sets_session \<lparr>wr_Status = n, wr_RetryAfter = ra, wr_Cookies = [], wr_Body = b\<rparr>"
  "\<not> sets_session ((web_json n b)\<lparr>wr_Cookies := clearAuthCookies W\<rparr>)"
  by (simp_all add: sets_session_def web_json_def clearAuthCookies_def)

text \<open>\<open>quiet Q\<close>: every answer that signs nobody in satisfies \<open>Q\<close>.\<close>

definition quiet :: "(web_response \<Rightarrow> bool) \<Rightarrow> bool" where
  "quiet Q \<longleftrightarrow> (\<forall>r. \<not> sets_session r \<longrightarrow> Q r)"

lemma quietD: "quiet Q \<Longrightarrow> \<not> sets_session r \<Longrightarrow> Q r"
  by (simp add: quiet_def)

lemma answers_quiet:
  assumes "quiet Q"
  shows "answers Q (plain r) s" "answers Q (refuse W status code message field) s" "answers Q (domain_error S W err) s"
    "answers Q (errorForAccount S W err) s" "answers Q (reply (web_json n b)) s"
    "answers Q (reply ((web_json n b)\<lparr>wr_Cookies := clearAuthCookies W\<rparr>)) s"
proof -
  show p: "answers Q (plain r) s" for r by (rule answers_plain) (rule quietD [OF assms], simp)
  show r: "answers Q (refuse W status code message field) s" for status code message field
    unfolding refuse_def by (rule p)
  show d: "answers Q (domain_error S W err) s" unfolding domain_error_def by (rule p)
  show "answers Q (errorForAccount S W err) s" unfolding errorForAccount_def by (intro answers_if r d)
  show "answers Q (reply (web_json n b)) s" by (rule answers_reply) (rule quietD [OF assms], simp)
  show "answers Q (reply ((web_json n b)\<lparr>wr_Cookies := clearAuthCookies W\<rparr>)) s"
    by (rule answers_reply) (rule quietD [OF assms], simp)
qed

lemma answers_decoded: "quiet Q \<Longrightarrow> (\<And>req. decode (wb_request W) b = Inr req \<Longrightarrow> answers Q (g req) s) \<Longrightarrow> answers Q (with_decoded W b g) s"
  by (simp add: with_decoded_def answers_quiet split: sum.split)

text \<open>No route but the sign-in opens a session.\<close>

lemma routes_quiet:
  assumes Q: "quiet Q" and c: "case c of Post_Login _ _ _ \<Rightarrow> False | _ \<Rightarrow> True"
  shows "answers Q (web_route S c W) s"
  using c
  by (cases c; simp only: web_route.simps web_call.case handleMe_def handleLogout_def handleChangePassword_def handleTOTPBegin_def
      handleTOTPConfirm_def handleTOTPDisable_def handleListSessions_def handleRevokeSessions_def handleListUsers_def
      handleCreateUser_def handleUpdateUser_def handleIssueReset_def handleCompleteReset_def currentUser_def requireAdmin_def Let_def)
    (intro answers_rules answers_quiet [OF Q] answers_decoded [OF Q] | simp only: False_implies_equals)+

lemma authenticate_quiet:
  assumes Q: "quiet Q" and c: "case c of Post_Login _ _ _ \<Rightarrow> False | _ \<Rightarrow> True"
  shows "answers Q (web_authenticate S method W (web_route S c)) s"
proof -
  note r = routes_quiet [OF Q c] answers_quiet [OF Q]
  have "answers Q (on_db f (\<lambda>_. web_route S c W')) s" for f :: "unit account_call" and W' by (intro answers_rules r)
  then show ?thesis
    unfolding answers_def web_authenticate_def by (simp add: r [unfolded answers_def] split: option.split sum.split prod.split)
qed

section \<open>Both factors\<close>

text \<open>
  \<open>earned\<close>: the account exists, is neither disabled nor locked, its password is the one given, and
  when it has a second factor the code is a valid one or an unused recovery code.
\<close>

definition open_account :: "User \<Rightarrow> gotime \<Rightarrow> bool" where
  "open_account u now \<longleftrightarrow> us_DisabledAt u = None \<and> (case us_LockedUntil u of None \<Rightarrow> True | Some until \<Rightarrow> until \<le> now)"

definition earned :: "account_crypto \<Rightarrow> gotime \<Rightarrow> accounts \<Rightarrow> loginRequest \<Rightarrow> User \<Rightarrow> bool" where
  "earned cr now db req u \<longleftrightarrow>
    map_of (db_users db) (us_ID u) = Some u \<and> to_lower (us_Email u) = to_lower (NormaliseEmail (lq_Email req)) \<and>
    open_account u now \<and> VerifyPassword cr (us_PasswordHash u) (lq_Password req) \<and>
    (if us_TOTPEnabled u
     then VerifyTOTP cr (secret_of u) (lq_Code req) now \<or>
       map_of (db_codes db) (us_ID u, HashToken cr (normaliseCode (lq_Code req))) = Some None
     else True)"

lemma seq_Inr: "fst (seq f g db) = Inr y \<longleftrightarrow> (\<exists>x. fst (f db) = Inr x \<and> fst (g x (snd (f db))) = Inr y)"
  by (cases "f db") (auto simp: seq_def split: sum.split)

lemma Authenticate_ok:
  assumes "keys_ok db" "fst (Account_Authenticate cr now clock email passwd db) = Inr a"
  shows "map_of (db_users db) (us_ID (at_User a)) = Some (at_User a)" "to_lower (us_Email (at_User a)) = to_lower (NormaliseEmail email)"
    "open_account (at_User a) now" "VerifyPassword cr (us_PasswordHash (at_User a)) passwd"
    "at_NeedsTOTP a = us_TOTPEnabled (at_User a)"
    "at_NeedsTOTP a \<Longrightarrow> snd (Account_Authenticate cr now clock email passwd db) = db"
proof -
  obtain r where r: "UserByEmail email db = (r, db)" by (metis UserByEmail_snd prod.collapse)
  obtain u where u: "r = Inr u" using assms(2) by (cases r) (auto simp: Account_Authenticate_def attempt_def r fail_def split: if_splits)
  have row: "map_of (db_users db) (us_ID u) = Some u" using UserByEmail_row [OF assms(1), of email u] by (simp add: r u)
  have mail: "to_lower (us_Email u) = to_lower (NormaliseEmail email)"
    using r u by (auto simp: UserByEmail_def dest!: filter_eq_ConsD split: list.splits)
  have a: "at_User a = u \<and> open_account u now \<and> VerifyPassword cr (us_PasswordHash u) passwd \<and> at_NeedsTOTP a = us_TOTPEnabled u \<and>
      (at_NeedsTOTP a \<longrightarrow> snd (Account_Authenticate cr now clock email passwd db) = db)"
    using assms(2)
    by (auto simp: Account_Authenticate_def attempt_def r u fail_def ret_def seq_Inr open_account_def split: if_splits option.splits)
  show "map_of (db_users db) (us_ID (at_User a)) = Some (at_User a)" "to_lower (us_Email (at_User a)) = to_lower (NormaliseEmail email)"
    "open_account (at_User a) now" "VerifyPassword cr (us_PasswordHash (at_User a)) passwd"
    "at_NeedsTOTP a = us_TOTPEnabled (at_User a)" using a row mail by simp_all
  show "at_NeedsTOTP a \<Longrightarrow> snd (Account_Authenticate cr now clock email passwd db) = db" using a by simp
qed

lemma VerifySecondFactor_ok:
  assumes "map_of (db_users db) i = Some u" "us_ID u = i" "fst (VerifySecondFactor cr now clock i code db) = Inr v"
  shows "VerifyTOTP cr (secret_of u) code now \<or> map_of (db_codes db) (i, HashToken cr (normaliseCode code)) = Some None"
proof (rule ccontr)
  assume n: "\<not> (VerifyTOTP cr (secret_of u) code now \<or> map_of (db_codes db) (i, HashToken cr (normaliseCode code)) = Some None)"
  then have "fst (UseRecoveryCode i (HashToken cr (normaliseCode code)) now db) = Inl ErrAccountNotFound"
    by (auto simp: UseRecoveryCode_def split: option.split)
  then show False
    using assms n
    by (cases "UseRecoveryCode i (HashToken cr (normaliseCode code)) now db")
      (auto simp: VerifySecondFactor_def seq_Inr UserByID_def attempt_def fail_def split: if_splits)
qed

definition right_answer :: "account_crypto \<Rightarrow> gotime \<Rightarrow> accounts \<Rightarrow> bool \<Rightarrow> loginRequest \<Rightarrow> web_response \<Rightarrow> bool" where
  "right_answer cr now db allowed req r \<longleftrightarrow> \<not> sets_session r \<or>
    allowed \<and> (\<exists>u csrf. earned cr now db req u \<and> wr_Body r = Session_Body (view_of_user u csrf))"

lemma right_answer_quiet: "quiet (right_answer cr now db allowed req)"
  by (simp add: quiet_def right_answer_def)

lemma issueSession_answers:
  assumes "allowed" "earned cr now db req u"
  shows "answers (right_answer cr now db allowed req) (issueSession S cr W u random csrf_random) s"
  unfolding issueSession_def
  by (intro answers_rules answers_quiet right_answer_quiet answers_reply)
    (use assms in \<open>auto simp: right_answer_def web_json_def\<close>)

lemma earned_one:
  "keys_ok db \<Longrightarrow> fst (Account_Authenticate cr now clock (lq_Email req) (lq_Password req) db) = Inr a \<Longrightarrow> \<not> at_NeedsTOTP a \<Longrightarrow>
    earned cr now db req (at_User a)"
  using Authenticate_ok [of db cr now clock "lq_Email req" "lq_Password req" a] by (simp add: earned_def)

lemma earned_both:
  assumes "keys_ok db" "fst (Account_Authenticate cr now clock (lq_Email req) (lq_Password req) db) = Inr a" "at_NeedsTOTP a"
    and v: "fst (VerifySecondFactor cr now clock (us_ID (at_User a)) (lq_Code req)
      (snd (Account_Authenticate cr now clock (lq_Email req) (lq_Password req) db))) = Inr v"
  shows "earned cr now db req (at_User a)"
  using Authenticate_ok [OF assms(1,2)] VerifySecondFactor_ok [of db "us_ID (at_User a)" "at_User a"] assms(3) v by (simp add: earned_def)

lemma sign_in_answers:
  assumes ok: "keys_ok (ws_db s)" and cr: "as_crypto S = Some cr"
  shows "answers (right_answer cr (as_now S) (ws_db s) (fst (limiter_allow (clientIP W) (as_now S) (ws_logins s))) req)
    (handleLogin S W (Decoded req) random csrf_random) s"
proof -
  let ?Q = "right_answer cr (as_now S) (ws_db s) (fst (limiter_allow (clientIP W) (as_now S) (ws_logins s))) req"
  note Q = right_answer_quiet [of cr "as_now S" "ws_db s" "fst (limiter_allow (clientIP W) (as_now S) (ws_logins s))" req]
  show ?thesis
    unfolding handleLogin_def cr option.case Let_def
  by (intro answers_decoded [OF Q] answers_rules answers_quiet [OF Q] issueSession_answers)
      (use ok in \<open>auto intro: earned_one earned_both\<close>)
qed

lemma sign_in_undecoded: "(\<And>req. b \<noteq> Decoded req) \<Longrightarrow> quiet Q \<Longrightarrow> answers Q (handleLogin S W b random csrf_random) s"
  unfolding handleLogin_def Let_def
  by (cases b) (auto intro!: answers_rules answers_quiet simp: with_decoded_def)

text \<open>
  C23. Nobody is signed in without every factor. After any history of account calls, an answer that
  sets a session cookie answers a sign-in from an address that had failed fewer than ten times in
  the last minute, with the address and the password of an account that is neither disabled nor
  locked, and, if the account has a second factor, with a valid code or an unused recovery code. No
  other request sets one.
\<close>

theorem sign_in_needs_every_factor:
  "let db = account_run cr before no_accounts; S = S\<lparr>as_crypto := Some cr\<rparr>;
       r = fst (serve_web S W c \<lparr>ws_db = db, ws_logins = l\<rparr>)
   in if sets_session r
      then (case c of
          Post_Login (Decoded req) _ _ \<Rightarrow> right_answer cr (as_now S) db (fst (limiter_allow (clientIP W) (as_now S) l)) req r
        | _ \<Rightarrow> False)
      else True"
proof -
  let ?s = "\<lparr>ws_db = account_run cr before no_accounts, ws_logins = l\<rparr>" and ?S = "S\<lparr>as_crypto := Some cr\<rparr>"
  have ok: "keys_ok (ws_db ?s)" using run_keys [OF keys_start] by simp
  have Q: "quiet (\<lambda>r. \<not> sets_session r)" by (simp add: quiet_def)
  show ?thesis
  proof (cases c)
    case (Post_Login b random csrf_random)
    show ?thesis
    proof (cases b)
      case (Decoded req)
      show ?thesis
        using sign_in_answers [OF ok, where S = ?S and cr = cr and W = W and req = req and random = random and csrf_random = csrf_random]
        by (simp add: Post_Login Decoded serve_web_def answers_def Let_def)
    qed (use sign_in_undecoded [OF _ Q, of b ?S W random csrf_random ?s] in \<open>simp_all add: Post_Login serve_web_def answers_def Let_def\<close>)
  next
    case (Post_Reset b salt)
    then show ?thesis
      using routes_quiet [OF Q, of c ?S W ?s] by (simp add: serve_web_def answers_def Let_def)
  qed (use authenticate_quiet [OF Q, of c ?S "route_method c" W ?s] in \<open>simp_all add: serve_web_def answers_def Let_def\<close>)
qed

section \<open>Losing a second factor\<close>

text \<open>
  Disabling the second factor takes the password; beginning to enrol takes the session only, and
  switches it off at once.
\<close>

lemma begin_totp_drops_second_factor:
  assumes cr: "as_crypto S = Some cr" and random: "NewTOTPSecret cr random = Inr secret"
    and who: "principalFromSession S W (ws_db s) = Some (p, sess)" "requireCSRF ''POST'' W = None"
    and row: "map_of (db_users (ws_db s)) (p_KeyID p) = Some u" "us_ID u = p_KeyID p"
  shows "\<exists>v. map_of (db_users (ws_db (snd (serve_web S W (Post_TOTP_Begin random) s)))) (p_KeyID p) = Some v \<and>
    \<not> us_TOTPEnabled v \<and> us_PasswordHash v = us_PasswordHash u"
proof -
  have t: "fst (TouchSession h t db) = Inr ()" "db_users (snd (TouchSession h t db)) = db_users db" for h t db
    by (simp_all add: TouchSession_def split: option.split)
  then obtain db where touched: "TouchSession (sn_TokenHash sess) (as_now S) (ws_db s) = (Inr (), db)"
    and users: "db_users db = db_users (ws_db s)" by (metis prod.collapse)
  have caller: "rq_principal (wb_request (as_caller p W)) = Some p" by (simp add: as_caller_def)
  have "serve_web S W (Post_TOTP_Begin random) s =
      on_db (BeginTOTPEnrolment cr (as_clock S) u ''ReconSync'' random) (\<lambda>r. case r of
        Inl err \<Rightarrow> domain_error S (as_caller p W) err
      | Inr (secret, uri) \<Rightarrow>
          reply (web_json 200 (TOTP_Secret secret uri (case QRSVG uri of Inl _ \<Rightarrow> '''' | Inr svg \<Rightarrow> svg)))) (s\<lparr>ws_db := db\<rparr>)"
    by (simp add: serve_web_def web_authenticate_def who route_method_def on_db_def [of "TouchSession _ _"] touched handleTOTPBegin_def
        currentUser_def cr on_db_def [of "UserByID _"] UserByID_def users row caller)
  moreover have "BeginTOTPEnrolment cr (as_clock S) u ''ReconSync'' random db =
      (Inr (secret, TOTPURI ''ReconSync'' (us_Email u) secret), db\<lparr>db_users := AList.update (p_KeyID p)
        (u\<lparr>us_TOTPSecret := Some secret, us_TOTPEnabled := False, us_UpdatedAt := as_clock S\<rparr>) (db_users (ws_db s))\<rparr>)"
    by (simp add: BeginTOTPEnrolment_def BeginTOTP_def touchUser_def seq_def from_sum_def random ret_def row users)
  ultimately show ?thesis by (simp add: on_db_def reply_def update_conv')
qed

end
