(* ===== verification/Settlement.thy ===== *)
theory Settlement
  imports Provider_Registry Go_Text
begin

text \<open>
  The adapter over settlement files (\<^verbatim>\<open>internal/provider/settlement.go\<close>): the files an institution
  delivers, read into records, and what a transaction's presence in them or absence from them is
  answered with.
\<close>

section \<open>Files, options, state\<close>

record SettlementRecord =
  sl_Reference :: string
  sl_AmountMinor :: int
  sl_Currency :: string
  sl_SettledAt :: gotime
  sl_Status :: string

record SettlementFile =
  sf_Path :: string
  sf_CoversFrom :: gotime
  sf_CoversTo :: gotime
  sf_Records :: "(string \<times> SettlementRecord) list"

record SettlementColumns =
  sc_Reference :: string
  sc_Amount :: string
  sc_Currency :: string
  sc_SettledAt :: string
  sc_Status :: string

record SettlementOptions =
  so_Name :: string
  so_Dir :: string
  so_Glob :: string
  so_Layout :: string
  so_SettledStatuses :: "string list"
  so_Columns :: SettlementColumns
  so_Grace :: duration
  so_RefreshInterval :: duration

definition DefaultSettlementGrace :: duration where "DefaultSettlementGrace = 26 * hour"
definition DefaultRefreshInterval :: duration where "DefaultRefreshInterval = 5 * second"

record SettlementProvider =
  sp_opts :: SettlementOptions
  sp_files :: "SettlementFile list"
  sp_loaded :: "(string \<times> gotime) list"
  sp_lastChecked :: gotime

text \<open>
  The directory, as the adapter sees it: the paths a glob in it matches, a file's modification time,
  and what opening it and then reading its rows one by one with \<^verbatim>\<open>encoding/csv\<close> give. \<open>dk_time\<close> is
  \<^verbatim>\<open>time.Parse\<close>, \<open>dk_float\<close> what \<^verbatim>\<open>ParseFloat\<close> and the rounding to minor units give, and the last two
  print a duration and a time.
\<close>

record disk =
  dk_glob :: "string \<Rightarrow> string \<Rightarrow> goerror + string list"
  dk_mtime :: "string \<Rightarrow> gotime option"
  dk_open :: "string \<Rightarrow> goerror + (goerror + string list) list"
  dk_time :: "string \<Rightarrow> string \<Rightarrow> gotime option"
  dk_float :: "string \<Rightarrow> int option"
  dk_show_duration :: "duration \<Rightarrow> string"
  dk_show_time :: "gotime \<Rightarrow> string"

section \<open>Reading a file\<close>

definition bom :: string where "bom = [char_of (239 :: nat), char_of (187 :: nat), char_of (191 :: nat)]"

definition trim_bom :: "string \<Rightarrow> string" where
  "trim_bom h = (if take 3 h = bom then drop 3 h else h)"

definition headerIndex :: "string list \<Rightarrow> (string \<times> nat) list" where
  "headerIndex header =
    fold (\<lambda>(i, h). AList.update (to_lower (trim_space (trim_bom h))) i) (List.enumerate 0 header) []"

definition cell :: "string list \<Rightarrow> (string \<times> nat) list \<Rightarrow> string \<Rightarrow> string" where
  "cell row index name =
    (if name = '''' then ''''
     else case map_of index (to_lower name) of
            None \<Rightarrow> ''''
          | Some i \<Rightarrow> if i \<ge> length row then '''' else trim_space (row ! i))"

text \<open>The replacer drops commas, spaces and no-break spaces.\<close>

fun clean_amount :: "string \<Rightarrow> string" where
  "clean_amount [] = []"
| "clean_amount (c # s) =
    (if c = CHR '','' \<or> c = CHR '' '' then clean_amount s
     else case s of
            d # r \<Rightarrow> if byte c = 194 \<and> byte d = 160 then clean_amount r else c # clean_amount s
          | [] \<Rightarrow> [c])"

definition parseMinor :: "disk \<Rightarrow> string \<Rightarrow> int" where
  "parseMinor D raw =
    (let clean = clean_amount raw
     in case parse_int64 clean of
          Some n \<Rightarrow> n
        | None \<Rightarrow> (case dk_float D clean of None \<Rightarrow> 0 | Some n \<Rightarrow> n))"

definition row_record :: "disk \<Rightarrow> SettlementOptions \<Rightarrow> (string \<times> nat) list \<Rightarrow> nat \<Rightarrow> string list \<Rightarrow> SettlementRecord" where
  "row_record D opts index refCol row =
    (let cols = so_Columns opts; amount = cell row index (sc_Amount cols); at_text = cell row index (sc_SettledAt cols)
     in \<lparr>sl_Reference = trim_space (row ! refCol),
         sl_AmountMinor = (if amount \<noteq> '''' then parseMinor D amount else 0),
         sl_Currency = to_upper (cell row index (sc_Currency cols)),
         sl_SettledAt = (if at_text \<noteq> '''' then (case dk_time D (so_Layout opts) at_text of None \<Rightarrow> 0 | Some t \<Rightarrow> t) else 0),
         sl_Status = cell row index (sc_Status cols)\<rparr>)"

definition add_record :: "SettlementRecord \<Rightarrow> SettlementFile \<Rightarrow> SettlementFile" where
  "add_record rec file =
    (let file = file\<lparr>sf_Records := AList.update (to_upper (sl_Reference rec)) rec (sf_Records file)\<rparr>
     in if IsZero (sl_SettledAt rec) then file
        else let file = (if IsZero (sf_CoversFrom file) \<or> sl_SettledAt rec < sf_CoversFrom file
                   then file\<lparr>sf_CoversFrom := sl_SettledAt rec\<rparr> else file)
             in if sl_SettledAt rec > sf_CoversTo file then file\<lparr>sf_CoversTo := sl_SettledAt rec\<rparr> else file)"

definition skipped :: "nat \<Rightarrow> string list \<Rightarrow> bool" where
  "skipped refCol row \<longleftrightarrow> refCol \<ge> length row \<or> trim_space (row ! refCol) = ''''"

fun read_rows ::
  "disk \<Rightarrow> SettlementOptions \<Rightarrow> (string \<times> nat) list \<Rightarrow> nat \<Rightarrow> (goerror + string list) list \<Rightarrow> SettlementFile \<Rightarrow>
    goerror + SettlementFile" where
  "read_rows D opts index refCol [] file = Inr file"
| "read_rows D opts index refCol (Inl err # rows) file = Inl (ErrWrapped ''read'' err)"
| "read_rows D opts index refCol (Inr row # rows) file =
    read_rows D opts index refCol rows
      (if skipped refCol row then file else add_record (row_record D opts index refCol row) file)"

definition new_file :: "string \<Rightarrow> SettlementFile" where
  "new_file path = \<lparr>sf_Path = path, sf_CoversFrom = 0, sf_CoversTo = 0, sf_Records = []\<rparr>"

definition parseFile :: "disk \<Rightarrow> SettlementOptions \<Rightarrow> string \<Rightarrow> goerror + SettlementFile" where
  "parseFile D opts path =
    (case dk_open D path of
       Inl err \<Rightarrow> Inl (ErrWrapped (''open settlement file '' @ path) err)
     | Inr [] \<Rightarrow> Inl (ErrWrapped (''read header of '' @ path) (ErrMessage ''EOF''))
     | Inr (Inl err # _) \<Rightarrow> Inl (ErrWrapped (''read header of '' @ path) err)
     | Inr (Inr header # rows) \<Rightarrow>
         let index = headerIndex header
         in case map_of index (to_lower (sc_Reference (so_Columns opts))) of
              None \<Rightarrow> Inl (ErrMessage (path @ '' has no reference column; found '' @ join_with '', '' header))
            | Some refCol \<Rightarrow> read_rows D opts index refCol rows (new_file path))"

section \<open>Loading the directory\<close>

fun load_files ::
  "disk \<Rightarrow> SettlementOptions \<Rightarrow> string list \<Rightarrow> SettlementFile list \<Rightarrow> (string \<times> gotime) list \<Rightarrow>
    goerror + SettlementFile list \<times> (string \<times> gotime) list" where
  "load_files D opts [] files reloaded = Inr (files, reloaded)"
| "load_files D opts (path # paths) files reloaded =
    (case dk_mtime D path of
       None \<Rightarrow> load_files D opts paths files reloaded
     | Some t \<Rightarrow>
         case parseFile D opts path of
           Inl err \<Rightarrow> Inl (ErrWrapped ''provider'' err)
         | Inr file \<Rightarrow> load_files D opts paths (files @ [file]) (AList.update path t reloaded))"

definition Settlement_Reload :: "disk \<Rightarrow> SettlementProvider \<Rightarrow> goerror option \<times> SettlementProvider" where
  "Settlement_Reload D p =
    (case dk_glob D (so_Dir (sp_opts p)) (so_Glob (sp_opts p)) of
       Inl err \<Rightarrow> (Some (ErrWrapped ''provider: list settlement files'' err), p)
     | Inr paths \<Rightarrow>
         case load_files D (sp_opts p) (sort paths) [] [] of
           Inl err \<Rightarrow> (Some err, p)
         | Inr (files, reloaded) \<Rightarrow> (None, p\<lparr>sp_files := files, sp_loaded := reloaded\<rparr>))"

definition with_defaults :: "SettlementOptions \<Rightarrow> SettlementOptions" where
  "with_defaults opts =
    (let opts = (if so_Glob opts = '''' then opts\<lparr>so_Glob := ''*.csv''\<rparr> else opts);
         opts = (if so_Layout opts = '''' then opts\<lparr>so_Layout := ''2006-01-02T15:04:05Z07:00''\<rparr> else opts);
         opts = (if sc_Reference (so_Columns opts) = ''''
           then opts\<lparr>so_Columns := (so_Columns opts)\<lparr>sc_Reference := ''reference''\<rparr>\<rparr> else opts);
         opts = (if so_Grace opts \<le> 0 then opts\<lparr>so_Grace := DefaultSettlementGrace\<rparr> else opts);
         opts = (if so_RefreshInterval opts < 0 then opts\<lparr>so_RefreshInterval := 0\<rparr>
                 else if so_RefreshInterval opts = 0 then opts\<lparr>so_RefreshInterval := DefaultRefreshInterval\<rparr> else opts)
     in if length (so_SettledStatuses opts) = 0
        then opts\<lparr>so_SettledStatuses := [''success'', ''successful'', ''settled'', ''completed'', ''paid'']\<rparr> else opts)"

definition NewSettlementProvider :: "disk \<Rightarrow> SettlementOptions \<Rightarrow> goerror + SettlementProvider" where
  "NewSettlementProvider D opts =
    (if so_Name opts = '''' then Inl (ErrMessage ''provider: settlement adapter needs a name'')
     else if so_Dir opts = '''' then Inl (ErrMessage ''provider: settlement adapter needs a directory'')
     else case Settlement_Reload D \<lparr>sp_opts = with_defaults opts, sp_files = [], sp_loaded = [], sp_lastChecked = 0\<rparr> of
            (Some err, p) \<Rightarrow> Inl err
          | (None, p) \<Rightarrow> Inr p)"

section \<open>Answering\<close>

definition isSettled :: "SettlementOptions \<Rightarrow> string \<Rightarrow> bool" where
  "isSettled opts status =
    (if status = '''' then True
     else let got = to_lower (trim_space status) in list_ex (\<lambda>s. got = to_lower s) (so_SettledStatuses opts))"

definition lookupKey :: "Ref \<Rightarrow> string" where
  "lookupKey ref = (if ref_ProviderRef ref \<noteq> '''' then to_upper (ref_ProviderRef ref) else to_upper (ref_TransactionID ref))"

definition latestCoverage :: "SettlementProvider \<Rightarrow> gotime" where
  "latestCoverage p = fold (\<lambda>f latest. if sf_CoversTo f > latest then sf_CoversTo f else latest) (sp_files p) 0"

definition answer_status :: "SettlementProvider \<Rightarrow> ProviderOutcome \<Rightarrow> string \<Rightarrow> ProviderStatus" where
  "answer_status p out detail =
    \<lparr>pst_Outcome = out, pst_Provider = so_Name (sp_opts p), pst_Reference = '''', pst_ObservedAt = 0, pst_Detail = detail\<rparr>"

definition absent :: "disk \<Rightarrow> SettlementProvider \<Rightarrow> gotime \<Rightarrow> ProviderStatus" where
  "absent D p now =
    (if length (sp_files p) = 0 then answer_status p Unknown ''no settlement files have been delivered''
     else if now < latestCoverage p + so_Grace (sp_opts p)
     then answer_status p Unknown (''not in any settlement file yet; still inside the '' @
       dk_show_duration D (so_Grace (sp_opts p)) @ '' grace period'')
     else answer_status p NotFound (''absent from settlement files covering up to '' @ dk_show_time D (latestCoverage p)))"

definition record_answer :: "SettlementProvider \<Rightarrow> Ref \<Rightarrow> SettlementRecord \<Rightarrow> ProviderStatus" where
  "record_answer p ref rec =
    (if \<not> isSettled (sp_opts p) (sl_Status rec)
     then (answer_status p Failed (''settlement file records status '' @ sl_Status rec))
       \<lparr>pst_Reference := sl_Reference rec, pst_ObservedAt := sl_SettledAt rec\<rparr>
     else if ref_AmountMinor ref > 0 \<and> sl_AmountMinor rec > 0 \<and> sl_AmountMinor rec \<noteq> ref_AmountMinor ref
     then (answer_status p Unknown (''settlement file shows '' @ show_int (sl_AmountMinor rec) @ '', we recorded '' @
         show_int (ref_AmountMinor ref)))\<lparr>pst_Reference := sl_Reference rec\<rparr>
     else (answer_status p Settled ''settlement file confirms it settled'')
       \<lparr>pst_Reference := sl_Reference rec, pst_ObservedAt := sl_SettledAt rec\<rparr>)"

fun find_record :: "string \<Rightarrow> SettlementFile list \<Rightarrow> SettlementRecord option" where
  "find_record key [] = None"
| "find_record key (f # fs) = (case map_of (sf_Records f) key of Some rec \<Rightarrow> Some rec | None \<Rightarrow> find_record key fs)"

definition answer_from :: "disk \<Rightarrow> SettlementProvider \<Rightarrow> gotime \<Rightarrow> Ref \<Rightarrow> ProviderStatus" where
  "answer_from D p now ref =
    (case find_record (lookupKey ref) (sp_files p) of None \<Rightarrow> absent D p now | Some rec \<Rightarrow> record_answer p ref rec)"

definition dueForRefresh :: "gotime \<Rightarrow> SettlementProvider \<Rightarrow> bool \<times> SettlementProvider" where
  "dueForRefresh now p =
    (if \<not> IsZero (sp_lastChecked p) \<and> time_sub now (sp_lastChecked p) < so_RefreshInterval (sp_opts p) then (False, p)
     else (True, p\<lparr>sp_lastChecked := now\<rparr>))"

definition settlement_changed :: "disk \<Rightarrow> SettlementProvider \<Rightarrow> bool" where
  "settlement_changed D p =
    (case dk_glob D (so_Dir (sp_opts p)) (so_Glob (sp_opts p)) of
       Inl _ \<Rightarrow> False
     | Inr paths \<Rightarrow>
         if length paths \<noteq> length (sp_loaded p) then True
         else list_ex (\<lambda>path. case dk_mtime D path of
                None \<Rightarrow> True
              | Some t \<Rightarrow> map_of (sp_loaded p) path \<noteq> Some t) paths)"

definition Settlement_Query :: "disk \<Rightarrow> gotime \<Rightarrow> Ref \<Rightarrow> SettlementProvider \<Rightarrow> ProviderStatus \<times> SettlementProvider" where
  "Settlement_Query D now ref p =
    (case dueForRefresh now p of (due, p) \<Rightarrow>
       if due \<and> settlement_changed D p
       then (case Settlement_Reload D p of
               (Some err, p) \<Rightarrow> (answer_status p Unknown ''settlement files could not be read'', p)
             | (None, p) \<Rightarrow> (answer_from D p now ref, p))
       else (answer_from D p now ref, p))"

end
