(* ===== verification/Settlement_Evidence.thy ===== *)
theory Settlement_Evidence
  imports Settlement Detector_Advice
begin

text \<open>
  What the answers of the settlement adapter rest on, and where they rest on nothing: a file that is
  late, a file without dates and an older file that is still there.
\<close>

section \<open>A file is its rows\<close>

definition records_of :: "disk \<Rightarrow> SettlementOptions \<Rightarrow> (string \<times> nat) list \<Rightarrow> nat \<Rightarrow> (goerror + string list) list \<Rightarrow> SettlementRecord list" where
  "records_of D opts index refCol rows =
    concat (map (\<lambda>r. case r of Inl _ \<Rightarrow> []
      | Inr row \<Rightarrow> if skipped refCol row then [] else [row_record D opts index refCol row]) rows)"

lemma records_of_simps [simp]:
  "records_of D opts index refCol [] = []"
  "records_of D opts index refCol (Inr row # rows) =
    (if skipped refCol row then [] else [row_record D opts index refCol row]) @ records_of D opts index refCol rows"
  by (simp_all add: records_of_def)

lemma read_rows_fold:
  "read_rows D opts index refCol rows g = Inr f \<Longrightarrow> f = fold add_record (records_of D opts index refCol rows) g"
proof (induction rows arbitrary: g)
  case (Cons r rows)
  then show ?case by (cases r) (auto split: if_splits)
qed simp

definition reference_key :: "SettlementRecord \<Rightarrow> string" where
  "reference_key r = to_upper (sl_Reference r)"

lemma add_record_fields:
  "sf_Records (add_record r f) = AList.update (reference_key r) r (sf_Records f)"
  "sf_CoversTo (add_record r f) = (if IsZero (sl_SettledAt r) then sf_CoversTo f else max (sf_CoversTo f) (sl_SettledAt r))"
  by (auto simp: add_record_def Let_def reference_key_def)

text \<open>The last row with a reference counts, and the file covers up to its latest date.\<close>

lemma fold_add_record:
  "map_of (sf_Records (fold add_record rs f)) key =
    (case find (\<lambda>r. reference_key r = key) (rev rs) of Some r \<Rightarrow> Some r | None \<Rightarrow> map_of (sf_Records f) key)"
proof (induction rs rule: rev_induct)
  case (snoc r rs)
  then show ?case by (auto simp: add_record_fields update_conv' split: option.split)
qed simp

lemma fold_add_covers:
  "0 \<le> sf_CoversTo f \<Longrightarrow> sf_CoversTo (fold add_record rs f) = fold max (map sl_SettledAt rs) (sf_CoversTo f)"
  by (induction rs arbitrary: f) (auto simp: add_record_fields IsZero_def max_def)

definition rows_of :: "disk \<Rightarrow> SettlementOptions \<Rightarrow> string \<Rightarrow> SettlementRecord list" where
  "rows_of D opts path =
    (case dk_open D path of
       Inr (Inr header # rows) \<Rightarrow>
         (case map_of (headerIndex header) (to_lower (sc_Reference (so_Columns opts))) of
            None \<Rightarrow> []
          | Some refCol \<Rightarrow> records_of D opts (headerIndex header) refCol rows)
     | _ \<Rightarrow> [])"

lemma parseFile_rows:
  assumes "parseFile D opts path = Inr f"
  shows "f = fold add_record (rows_of D opts path) (new_file path)"
  using assms
  by (auto simp: parseFile_def rows_of_def Let_def dest!: read_rows_fold split: sum.splits list.splits option.splits)

lemma parseFile_exact:
  assumes "parseFile D opts path = Inr f"
  shows "map_of (sf_Records f) key = find (\<lambda>r. reference_key r = key) (rev (rows_of D opts path))"
    "sf_CoversTo f = fold max (map sl_SettledAt (rows_of D opts path)) 0"
  unfolding parseFile_rows [OF assms] by (simp_all add: fold_add_record fold_add_covers new_file_def split: option.split)

section \<open>The files in memory were on disk\<close>

definition read_from :: "disk list \<Rightarrow> SettlementProvider \<Rightarrow> bool" where
  "read_from Ds p \<longleftrightarrow> (\<forall>f \<in> set (sp_files p). \<exists>D \<in> set Ds. \<exists>path. parseFile D (sp_opts p) path = Inr f)"

lemma load_files_read:
  "load_files D opts paths files reloaded = Inr (files', reloaded') \<Longrightarrow>
    f \<in> set files' \<Longrightarrow> f \<in> set files \<or> (\<exists>path. parseFile D opts path = Inr f)"
proof (induction paths arbitrary: files reloaded)
  case (Cons path paths)
  then show ?case by (force split: option.splits sum.splits)
qed simp

lemma Reload_read:
  assumes "read_from Ds p" "D \<in> set Ds"
  shows "read_from Ds (snd (Settlement_Reload D p))" "sp_opts (snd (Settlement_Reload D p)) = sp_opts p"
  using assms load_files_read [of D "sp_opts p"]
  by (fastforce simp: Settlement_Reload_def read_from_def split: sum.splits)+

lemma Query_read:
  assumes "read_from Ds p" "D \<in> set Ds"
  shows "read_from Ds (snd (Settlement_Query D now ref p))" "sp_opts (snd (Settlement_Query D now ref p)) = sp_opts p"
proof -
  have due: "sp_opts (snd (dueForRefresh now p)) = sp_opts p" "sp_files (snd (dueForRefresh now p)) = sp_files p"
    by (simp_all add: dueForRefresh_def)
  then have r: "read_from Ds (snd (dueForRefresh now p))" using assms(1) by (simp add: read_from_def)
  show "read_from Ds (snd (Settlement_Query D now ref p))" "sp_opts (snd (Settlement_Query D now ref p)) = sp_opts p"
    using Reload_read [OF r assms(2)] r due by (auto simp: Settlement_Query_def split: prod.splits option.splits)
qed

text \<open>Queries, each with the directory and the time it is made at.\<close>

type_synonym settlement_call = "disk \<times> gotime \<times> Ref"

definition settlement_run :: "settlement_call list \<Rightarrow> SettlementProvider \<Rightarrow> SettlementProvider" where
  "settlement_run calls p = fold (\<lambda>(D, now, ref) p. snd (Settlement_Query D now ref p)) calls p"

lemma run_read:
  "read_from Ds p \<Longrightarrow> set (map fst calls) \<subseteq> set Ds \<Longrightarrow>
    read_from Ds (settlement_run calls p) \<and> sp_opts (settlement_run calls p) = sp_opts p"
proof (induction calls arbitrary: p)
  case (Cons c calls)
  then show ?case using Query_read [of Ds p "fst c" "fst (snd c)" "snd (snd c)"]
    by (cases c) (auto simp: settlement_run_def)
qed (simp add: settlement_run_def)

lemma New_read:
  assumes "NewSettlementProvider D opts = Inr p"
  shows "read_from [D] p" "sp_opts p = with_defaults opts"
proof -
  let ?p = "\<lparr>sp_opts = with_defaults opts, sp_files = [], sp_loaded = [], sp_lastChecked = 0\<rparr>"
  have "read_from [D] ?p" by (simp add: read_from_def)
  then have "read_from [D] (snd (Settlement_Reload D ?p))" "sp_opts (snd (Settlement_Reload D ?p)) = with_defaults opts"
    using Reload_read [of "[D]" ?p D] by simp_all
  then show "read_from [D] p" "sp_opts p = with_defaults opts"
    using assms by (auto simp: NewSettlementProvider_def split: prod.splits option.splits if_splits)
qed

section \<open>What an answer rests on\<close>

definition amounts_agree :: "Ref \<Rightarrow> SettlementRecord \<Rightarrow> bool" where
  "amounts_agree ref r \<longleftrightarrow> \<not> (ref_AmountMinor ref > 0 \<and> sl_AmountMinor r > 0 \<and> sl_AmountMinor r \<noteq> ref_AmountMinor ref)"

text \<open>\<open>on_file\<close>: the last row with that reference of a file that was in one of the directories.\<close>

definition on_file :: "disk list \<Rightarrow> SettlementOptions \<Rightarrow> string \<Rightarrow> SettlementRecord \<Rightarrow> bool" where
  "on_file Ds opts key r \<longleftrightarrow>
    (\<exists>D \<in> set Ds. \<exists>path. find (\<lambda>r. reference_key r = key) (rev (rows_of D opts path)) = Some r)"

definition backed :: "disk list \<Rightarrow> SettlementOptions \<Rightarrow> gotime \<Rightarrow> Ref \<Rightarrow> ProviderStatus \<times> SettlementProvider \<Rightarrow> bool" where
  "backed Ds opts now ref a =
    (case pst_Outcome (fst a) of
       Settled \<Rightarrow> \<exists>r. on_file Ds opts (lookupKey ref) r \<and> isSettled opts (sl_Status r) \<and> amounts_agree ref r
     | Failed \<Rightarrow> \<exists>r. on_file Ds opts (lookupKey ref) r \<and> \<not> isSettled opts (sl_Status r)
     | NotFound \<Rightarrow> sp_files (snd a) \<noteq> [] \<and> find_record (lookupKey ref) (sp_files (snd a)) = None \<and>
         latestCoverage (snd a) + so_Grace opts \<le> now
     | Unknown \<Rightarrow> True
     | OtherOutcome _ \<Rightarrow> False)"

lemma find_record_on_file:
  assumes "read_from Ds p" "find_record key (sp_files p) = Some r"
  shows "on_file Ds (sp_opts p) key r"
proof -
  have "\<exists>f \<in> set fs. map_of (sf_Records f) key = Some r" if "find_record key fs = Some r" for fs
    using that by (induction fs) (auto split: option.splits)
  then obtain f where f: "f \<in> set (sp_files p)" "map_of (sf_Records f) key = Some r" using assms(2) by blast
  then obtain D path where "D \<in> set Ds" "parseFile D (sp_opts p) path = Inr f" using assms(1) by (auto simp: read_from_def)
  then show ?thesis using f(2) by (auto simp: on_file_def parseFile_exact(1))
qed

lemma answer_backed:
  assumes "read_from Ds p"
  shows "backed Ds (sp_opts p) now ref (answer_from D p now ref, p)"
proof (cases "find_record (lookupKey ref) (sp_files p)")
  case None
  then show ?thesis by (auto simp: backed_def answer_from_def absent_def answer_status_def)
next
  case (Some r)
  then show ?thesis
    using find_record_on_file [OF assms Some]
    by (auto simp: backed_def answer_from_def record_answer_def answer_status_def amounts_agree_def)
qed

lemma Query_backed:
  assumes "read_from Ds p" "D \<in> set Ds"
  shows "backed Ds (sp_opts p) now ref (Settlement_Query D now ref p)"
proof -
  obtain due q where due: "dueForRefresh now p = (due, q)" by (rule prod.exhaust)
  then have q: "sp_opts q = sp_opts p" "read_from Ds q"
    using assms(1) by (auto simp: dueForRefresh_def read_from_def split: if_splits)
  obtain e q' where r: "Settlement_Reload D q = (e, q')" by (rule prod.exhaust)
  then have q': "sp_opts q' = sp_opts p" "read_from Ds q'" using Reload_read [OF q(2) assms(2)] q(1) by simp_all
  have "Settlement_Query D now ref p =
      (if due \<and> settlement_changed D q
       then case e of Some _ \<Rightarrow> (answer_status q' Unknown ''settlement files could not be read'', q')
            | None \<Rightarrow> (answer_from D q' now ref, q')
       else (answer_from D q now ref, q))"
    by (simp add: Settlement_Query_def due r split: option.split)
  moreover have "backed Ds (sp_opts p) now ref (answer_status q' Unknown ''settlement files could not be read'', q')"
    by (simp add: backed_def answer_status_def)
  ultimately show ?thesis
    using answer_backed [OF q(2), of now ref D] answer_backed [OF q'(2), of now ref D] q(1) q'(1)
    by (simp split: option.split)
qed


section \<open>Absence from files that cannot list it\<close>

lemma fold_latest: "fold (\<lambda>f latest. if sf_CoversTo f > latest then sf_CoversTo f else latest) fs t = fold max (map sf_CoversTo fs) t"
  by (induction fs arbitrary: t) (auto simp: max_def)

lemma Query_unchanged:
  assumes "\<not> settlement_changed E p"
  shows "fst (Settlement_Query E now ref p) = answer_from E p now ref"
proof -
  obtain due q where due: "dueForRefresh now p = (due, q)" by (rule prod.exhaust)
  then have q: "sp_opts q = sp_opts p" "sp_files q = sp_files p" "sp_loaded q = sp_loaded p"
    by (auto simp: dueForRefresh_def split: if_splits)
  have same: "settlement_changed E q = settlement_changed E p" by (simp only: settlement_changed_def q)
  have "answer_from E q now ref = answer_from E p now ref"
    using q by (simp add: answer_from_def absent_def latestCoverage_def record_answer_def answer_status_def split: option.split)
  then show ?thesis using assms by (simp add: Settlement_Query_def due same)
qed

text \<open>Once the grace period after the last date on file has passed, whatever is on no file is not found.\<close>

lemma absent_not_found:
  assumes "\<not> settlement_changed E p" "find_record (lookupKey ref) (sp_files p) = None" "sp_files p \<noteq> []"
    and "latestCoverage p + so_Grace (sp_opts p) \<le> now"
  shows "pst_Outcome (fst (Settlement_Query E now ref p)) = NotFound"
  using assms by (simp add: Query_unchanged answer_from_def absent_def answer_status_def)

text \<open>A file without a date counts as covering up to the year one, and its absence as proof.\<close>

lemma undated_file_proves_failure:
  assumes "\<not> settlement_changed E p" "sp_files p = [f]" "sf_CoversTo f = 0" "map_of (sf_Records f) (lookupKey ref) = None"
    and "so_Grace (sp_opts p) \<le> now"
  shows "pst_Outcome (fst (Settlement_Query E now ref p)) = NotFound"
  using assms by (intro absent_not_found) (simp_all add: latestCoverage_def)

text \<open>The oldest file answers: a transfer pending in one file and settled in the next has failed.\<close>

lemma older_file_wins:
  assumes "\<not> settlement_changed E p" "sp_files p = f # fs" "map_of (sf_Records f) (lookupKey ref) = Some r"
    and "\<not> isSettled (sp_opts p) (sl_Status r)"
  shows "pst_Outcome (fst (Settlement_Query E now ref p)) = Failed"
  using assms by (simp add: Query_unchanged answer_from_def record_answer_def answer_status_def)

text \<open>One file that cannot be read keeps every other one from being loaded.\<close>

lemma malformed_file_blinds:
  assumes "dk_glob D (so_Dir (sp_opts p)) (so_Glob (sp_opts p)) = Inr paths" "path \<in> set paths"
    and "dk_mtime D path = Some t" "parseFile D (sp_opts p) path = Inl err"
  shows "fst (Settlement_Reload D p) \<noteq> None \<and> sp_files (snd (Settlement_Reload D p)) = sp_files p"
proof -
  have "\<exists>e. load_files D (sp_opts p) ps files reloaded = Inl e" if "path \<in> set ps" for ps files reloaded
    using that assms(3,4) by (induction ps arbitrary: files reloaded) (auto split: option.split sum.split)
  from this [of "sort paths" "[]" "[]"] show ?thesis using assms(1,2) by (auto simp: Settlement_Reload_def)
qed

definition asks_files :: "disk \<Rightarrow> Detector \<Rightarrow> string \<Rightarrow> SettlementProvider \<Rightarrow> bool" where
  "asks_files E D rail p \<longleftrightarrow>
    (\<exists>reg. dt_providers D = Some reg \<and> map_of reg rail = Some (\<lambda>ref. (fst (Settlement_Query E (dt_now D) ref p), None)))"


text \<open>A directory with one file, delivered long before the transfer, that nobody has touched since.\<close>

definition old_delivery :: disk where
  "old_delivery =
    \<lparr>dk_glob = (\<lambda>dir pat. Inr [''day1.csv'']), dk_mtime = (\<lambda>path. Some 6),
     dk_open = (\<lambda>path. Inr [Inr [''reference'', ''at''], Inr [''w'', ''5'']]), dk_time = (\<lambda>layout s. Some 5),
     dk_float = (\<lambda>s. None), dk_show_duration = (\<lambda>d. ''''), dk_show_time = (\<lambda>t. '''')\<rparr>"

definition rail_options :: SettlementOptions where
  "rail_options =
    \<lparr>so_Name = ''rail'', so_Dir = ''d'', so_Glob = '''', so_Layout = '''', so_SettledStatuses = [],
     so_Columns = \<lparr>sc_Reference = '''', sc_Amount = '''', sc_Currency = '''', sc_SettledAt = ''at'', sc_Status = ''''\<rparr>,
     so_Grace = 20, so_RefreshInterval = 0\<rparr>"


end
