(* ===== verification/Spec2Isabelle.thy ===== *)
theory Spec2Isabelle
  imports Correlate_Order Dispatcher Detector_Advice Ingest_Flow Ingest_Credits Report_Csv Ingest_Report_Answers Account_Codes Qr_Choice Web_Sign_In Settlement_Evidence
begin

text \<open>
  ReconSync watches money leave one account and waits for it to reach another. Customers send a
  debit event when they take money and a credit event when it arrives; when the credit does not
  come within the expected window the service decides that the transaction is orphaned, tells the
  customer by a signed webhook that it should be reversed, and keeps a tamper-evident record of
  what it decided and why. This library models the Go program that does this, under
  \<^verbatim>\<open>internal/\<close> and \<^verbatim>\<open>pkg/\<close>, and proves what makes it correct.

  \<^bold>\<open>The parts and how they interact.\<close> Events enter the pipeline, which batches them and hands each
  tenant's share to the correlation engine. The engine screens and validates them, resolves the
  expected window from the tenant's rules, stores debits and applies or parks credits. The
  detection sweep claims the transactions whose window closed, weighs the evidence (was our own
  ingest intact, what does the payment rail say), and queues a webhook; the dispatcher delivers it
  with retries. Verdicts go on an audit chain whose state a checkpoint service signs. All of them
  share one store. A worker that reverses money takes a claim first. All of it is reached over HTTP:
  a request carries an API key, checked by an authenticator with a cache, or the session of a person,
  who signed in with a password and a second factor. Reports are read from the same store.

  \<^bold>\<open>The theories and the code.\<close>
  \<^item> \<open>Go_Prelude\<close>, \<open>Go_Text\<close>, \<open>Go_Actions\<close>: what the model uses of Go: \<^verbatim>\<open>int64\<close> with its wrap-around
    written out, instants, nested maps, dynamic values, string functions, and calls that fail and
    change state, with rules for what an action keeps.
  \<^item> \<open>Domain_Status\<close>, \<open>Domain_Sensitive\<close>, \<open>Domain_Transaction\<close> (\<^verbatim>\<open>internal/domain\<close>): the status
    machine and the errors, the screening of card numbers, transactions, events, validation.
  \<^item> \<open>Rules\<close> (\<^verbatim>\<open>internal/rules\<close>): which rule decides a window, and the cache of rule sets.
  \<^item> \<open>Audit_Chain\<close> (\<^verbatim>\<open>internal/audit\<close>): the hash chain and the signed checkpoints.
  \<^item> \<open>Store_Types\<close>, \<open>Store_Transactions\<close>, \<open>Store_Steps\<close>, \<open>Store_Claims\<close>, \<open>Store_Webhooks\<close>,
    \<open>Store_Health\<close>, \<open>Store_Audit\<close>, \<open>Store_Config\<close>, \<open>Store_System\<close> (\<^verbatim>\<open>internal/store/memory*.go\<close>):
    the in-memory store, one definition per method on the record \<open>memory\<close>; \<open>Store_System\<close> puts
    its operations into one step relation and relates it to the status machine. \<open>Store_Port\<close>
    (\<^verbatim>\<open>internal/store/store.go\<close>): the interfaces, as records of operations.
  \<^item> \<open>Auth\<close> (\<^verbatim>\<open>internal/auth\<close>): key prefixes and the authenticator's cache.
  \<^item> \<open>Checkpointer\<close> (\<^verbatim>\<open>internal/service/checkpointer.go\<close>).
  \<^item> \<open>Correlate\<close>, \<open>Correlate_Laws\<close>, \<open>Correlate_Memory\<close>, \<open>Correlate_Order\<close>
    (\<^verbatim>\<open>internal/correlate/correlate.go\<close>): the engine over the store's interface, the locales that
    say what it relies on, their interpretation by the in-memory store, and the order of events.
  \<^item> \<open>Health_Recorder\<close> (\<^verbatim>\<open>internal/health/recorder.go\<close>), \<open>Pipeline\<close>, \<open>Pipeline_Accounts\<close>
    (\<^verbatim>\<open>internal/pipeline/pipeline.go\<close>), \<open>Ingest_Flow\<close> (the wiring in \<^verbatim>\<open>cmd/reconsync/main.go\<close>).
  \<^item> \<open>Evidence\<close> (\<^verbatim>\<open>internal/evidence\<close>), \<open>Provider_Registry\<close> (\<^verbatim>\<open>internal/provider/provider.go\<close>),
    \<open>Detector\<close>, \<open>Detector_Safety\<close>, \<open>Detector_Advice\<close> (\<^verbatim>\<open>internal/service/detector.go\<close>).
  \<^item> \<open>Webhook_Signature\<close> (\<^verbatim>\<open>pkg/reconsync/webhook.go\<close>), \<open>Webhook_Payload\<close> (\<^verbatim>\<open>internal/webhook\<close>),
    \<open>Dispatcher\<close> (\<^verbatim>\<open>internal/service/dispatcher.go\<close>).
  \<^item> \<open>Settlement\<close>, \<open>Settlement_Evidence\<close> (\<^verbatim>\<open>internal/provider/settlement.go\<close>): the adapter that
    answers for a rail from the files it delivers, what its answers rest on, and where they rest on
    nothing.
  \<^item> \<open>Ingest_Api\<close>, \<open>Ingest_Handlers\<close>, \<open>Ingest_Reports\<close>, \<open>Ingest_Routes\<close>
    (\<^verbatim>\<open>internal/ingest/handlers.go\<close>, \<^verbatim>\<open>server.go\<close>): requests, answers, handlers, scopes, routes;
    \<open>Ingest_Safety\<close>: the locale of what handlers rely on, and that the whole API stays within an
    effect its operations stay within; \<open>Ingest_Bulk\<close>, \<open>Ingest_Audit\<close>, \<open>Ingest_Credits\<close>,
    \<open>Ingest_Report_Answers\<close>: what single endpoints answer.
  \<^item> \<open>Report_Compliance\<close>, \<open>Report_Csv\<close>, \<open>Report_Exposure\<close>, \<open>Report_Rails\<close> (\<^verbatim>\<open>internal/report\<close>),
    \<open>Report_Queries\<close> (\<^verbatim>\<open>internal/store/memory_report.go\<close>, \<^verbatim>\<open>memory_exposure.go\<close>);
    \<open>Report_Totals\<close>, \<open>Report_Answers\<close>: that the numbers add up.
  \<^item> \<open>Accounts\<close>, \<open>Account_Service\<close> (\<^verbatim>\<open>internal/account\<close>), \<open>Account_Store\<close>
    (\<^verbatim>\<open>internal/store/postgres_account.go\<close>); \<open>Account_Laws\<close>, \<open>Account_Safety\<close>,
    \<open>Account_Revocation\<close>, \<open>Account_Codes\<close>: what holds over any history of account calls, and what
    hashes and codes check.
  \<^item> \<open>Web_Login\<close>, \<open>Web_Accounts\<close> (\<^verbatim>\<open>internal/ingest/auth_http.go\<close>, \<^verbatim>\<open>auth_handlers.go\<close>):
    cookies, the CSRF check, the sign-in limiter, the account handlers and their routes.
    \<open>Web_Account_Safety\<close>: every request is a history of account calls its caller may make;
    \<open>Web_Sign_In\<close>: what an answer that sets a session has checked.
  \<^item> \<open>Qr_Field\<close>, \<open>Qr_Code\<close>, \<open>Qr_Matrix\<close> (\<^verbatim>\<open>internal/account/qr.go\<close>): the QR symbol of a new
    second factor. \<open>Qr_Solomon\<close>: its error correction; \<open>Qr_Blocks\<close>, \<open>Qr_Layout\<close>, \<open>Qr_Reads\<close>: whatever
    is drawn reads back; \<open>Qr_Choice\<close>: the mask with the least penalty.

  \<^bold>\<open>How state and operations correspond.\<close> A Go struct is a record with the fields' names under a
  prefix, a map an association list read through \<open>map_of\<close>, a map of maps a \<open>map2\<close>. A method that
  holds the store's mutex is one function from the state to its result and the next state. Errors
  are values of \<open>goerror\<close>; \<^verbatim>\<open>%w\<close> wrapping is a constructor that \<open>errors_is\<close> looks through. A clock
  reading is an argument, one per call. Goroutines are step relations (\<open>pstep\<close>, \<open>exec_record\<close>,
  \<open>store_step\<close>). A weight that is a \<^verbatim>\<open>float64\<close> is a rational.

  \<^bold>\<open>What the lemmas show.\<close> For the store: every reachable state has its rows under their own tenant
  and id with unique keys, each operation touches one tenant only, and whatever is done to a
  transaction moves it along the status machine (\<open>Store_System\<close>); debits are stored once, partial
  credits add up, expiry is claimed exactly, reversal claims and delivery leases exclude each other.
  For the audit chain: tampering is found, the chain only grows, a checkpoint pins it. For the
  engine: a batch refines the store's operations, stores only what was screened, accounts for every
  event and is indifferent to the order of a debit and its credit. For the pipeline: nothing
  accepted is lost or doubled, closing drains it in a bounded number of turns, and with the engine
  behind it nothing fails; what is lost under load reaches the store's gap counters. For the sweep:
  advice to reverse is given only on the grounds it claims, and the transaction is marked. For
  the webhooks: a signed payload verifies, and every delivery ends. For the API: a request touches
  its caller's tenant only, needs the scope of its route, and a bulk answer accounts for every event.
  For the reports: counts and ageing add up and the exported breach list reads back. For accounts:
  wrong guesses are throttled, a revoked session or a used reset link stays dead, every change is
  one its caller may make, and a session needs every factor. A QR symbol reads back to its payload.
  A settlement adapter says only what some delivered file says. Some lemmas state defects, among
  them: a second parked credit is lost, a credit near the integer limit wraps, checkpoints stop after
  a thousand records, a shutdown loses the queue, a confirmation by the rail does not stop the
  advice when a credit has just landed, a bulk credit loses its amount, starting an enrolment drops
  the second factor, and a late settlement file makes the sweep advise reversals.

  \<^bold>\<open>Parameters and assumptions.\<close> SHA-256, HMAC, Ed25519 and Argon2 are parameters, with injectivity
  or the signature law as a hypothesis where a proof needs it; so are JSON encoding, the HTTP
  client, random bytes and the jitter of a retry, the file system with CSV reading and date parsing,
  the adapters of payment rails other than the settlement files, the providers of
  rules, salts and secrets, and the order in which Go walks a map. Ties of an unstable sort keep
  their order here. A request arrives decoded.

  \<^bold>\<open>Bounds and loops.\<close> No fuel is used: every loop is a structural recursion over a list or a fold,
  and the workers' loop is a step relation with the measure \<open>work_left\<close>. Where a counter could
  overflow the theorem says how far from the limit it is assumed to be.

  \<^bold>\<open>Not modelled.\<close> The Postgres store but for its account tables (its meaning is in SQL), the HTTP
  servers and clients themselves, JSON and PDF drawing, the webhook and drill endpoints, the
  transport guard, the rate limiter, licences, fire drills, the HTTP adapters of rails,
  metrics, migrations, the command line tools and the SDKs. Tickers, logging and metrics calls
  inside the modelled parts are left out. Two flushes of the pipeline's workers do not interleave,
  and the deliveries of one dispatch round run one after another.
\<close>

end
